(* ===== verification/Prelude.thy ===== *)
theory Prelude
  imports Complex_Main "HOL-Library.Multiset" "HOL-Library.List_Lexorder" "HOL-Library.Char_ord"
begin

text \<open>
  Shared vocabulary of the development: the Python values the backend handles
  (JSON-shaped dictionaries), Python truthiness, hashing and string helpers, instants
  and durations, results with errors as values, database tables as lists of rows with a
  primary key, and two interfaces every component reuses: \<open>row_store\<close> (what
  a lookup returns after an insert or an update) and \<open>inv_system\<close> (a step function that
  keeps an invariant keeps it over every run).
\<close>

named_theorems row_simps \<open>lookup after insert, update and delete in row tables\<close>
named_theorems result_simps \<open>evaluation of results with errors as values\<close>

section \<open>Python values\<close>

text \<open>
  The values a JSON column, a YAML front matter or a request body can hold. A dictionary is
  an association list in insertion order; its keys are distinct when it comes from Python.
  Python floats are exact reals here, strings are lists of characters.
\<close>

datatype json =
    JNull
  | JBool bool
  | JInt int
  | JFloat real
  | JStr string
  | JList "json list"
  | JDict "(string \<times> json) list"

type_synonym pydict = "(string \<times> json) list"

text \<open>Python exceptions that the modelled code can let escape.\<close>

datatype py_exc = TypeErr | ValueErr | KeyErr | AttrErr | IndexErr

definition dict_get :: "pydict \<Rightarrow> string \<Rightarrow> json" where
  \<comment> \<open>\<open>d.get(k)\<close>: the value, None when the key is absent\<close>
  "dict_get d k = (case map_of d k of None \<Rightarrow> JNull | Some v \<Rightarrow> v)"

definition dict_get_or :: "pydict \<Rightarrow> string \<Rightarrow> json \<Rightarrow> json" where
  \<comment> \<open>\<open>d.get(k, default)\<close>\<close>
  "dict_get_or d k dflt = (case map_of d k of None \<Rightarrow> dflt | Some v \<Rightarrow> v)"

definition has_key :: "pydict \<Rightarrow> string \<Rightarrow> bool" where
  "has_key d k \<longleftrightarrow> map_of d k \<noteq> None"

fun dict_set :: "('k \<times> 'v) list \<Rightarrow> 'k \<Rightarrow> 'v \<Rightarrow> ('k \<times> 'v) list" where
  \<comment> \<open>\<open>d[k] = v\<close>: in place where the key exists, appended otherwise\<close>
  "dict_set [] k v = [(k, v)]"
| "dict_set ((k', v') # d) k v = (if k' = k then (k, v) # d else (k', v') # dict_set d k v)"

lemma map_of_dict_set [simp]: "map_of (dict_set d k v) = (map_of d)(k \<mapsto> v)"
  by (induction d k v rule: dict_set.induct) (auto simp: fun_eq_iff)

definition dict_merge :: "('k \<times> 'v) list \<Rightarrow> ('k \<times> 'v) list \<Rightarrow> ('k \<times> 'v) list" where
  \<comment> \<open>\<open>{**a, **b}\<close>\<close>
  "dict_merge a b = foldl (\<lambda>d (k, v). dict_set d k v) a b"

lemma fst_dict_set: "map fst (dict_set d k v) = (if k \<in> fst ` set d then map fst d else map fst d @ [k])"
  by (induction d k v rule: dict_set.induct) auto

lemma distinct_dict_set: "distinct (map fst d) \<Longrightarrow> distinct (map fst (dict_set d k v))"
  by (auto simp: fst_dict_set)

lemma map_of_dict_merge: "distinct (map fst b) \<Longrightarrow> map_of (dict_merge a b) = map_of a ++ map_of b"
  unfolding dict_merge_def
proof (induction b arbitrary: a)
  case (Cons p b)
  obtain k v where p: "p = (k, v)" by (cases p)
  with Cons.prems have "k \<notin> dom (map_of b)" by (simp add: dom_map_of_conv_image_fst)
  moreover have "map_of (foldl (\<lambda>d (k, v). dict_set d k v) a (p # b))
      = (map_of a)(k \<mapsto> v) ++ map_of b"
    using Cons p by (simp del: fun_upd_apply)
  ultimately show ?case by (simp add: p map_add_upd_left del: fun_upd_apply)
qed simp

lemma distinct_dict_merge: "distinct (map fst a) \<Longrightarrow> distinct (map fst (dict_merge a b))"
  unfolding dict_merge_def
  by (induction b arbitrary: a) (auto simp: distinct_dict_set)

fun truthy :: "json \<Rightarrow> bool" where
  "truthy JNull = False"
| "truthy (JBool b) = b"
| "truthy (JInt i) = (i \<noteq> 0)"
| "truthy (JFloat x) = (x \<noteq> 0)"
| "truthy (JStr s) = (s \<noteq> [])"
| "truthy (JList xs) = (xs \<noteq> [])"
| "truthy (JDict d) = (d \<noteq> [])"

fun hashable :: "json \<Rightarrow> bool" where
  "hashable (JList xs) = False"
| "hashable (JDict d) = False"
| "hashable v = True"

fun hash_key :: "json \<Rightarrow> json" where
  \<comment> \<open>the representative under which a value is stored in a set or dict:
      \<open>True == 1 == 1.0\<close> are one key\<close>
  "hash_key (JBool b) = JInt (if b then 1 else 0)"
| "hash_key (JFloat x) = (if x = of_int \<lfloor>x\<rfloor> then JInt \<lfloor>x\<rfloor> else JFloat x)"
| "hash_key v = v"

fun is_dict :: "json \<Rightarrow> bool" where
  "is_dict (JDict d) = True"
| "is_dict _ = False"

fun as_dict :: "json \<Rightarrow> pydict" where
  \<comment> \<open>the entries of a value already known to be a dict\<close>
  "as_dict (JDict d) = d"
| "as_dict _ = []"

fun nonempty_str :: "json \<Rightarrow> bool" where
  \<comment> \<open>\<open>isinstance(v, str) and v\<close>\<close>
  "nonempty_str (JStr s) = (s \<noteq> [])"
| "nonempty_str _ = False"

fun as_str :: "json \<Rightarrow> string" where
  "as_str (JStr s) = s"
| "as_str _ = []"

subsection \<open>Strings\<close>

definition opt_truthy :: "string option \<Rightarrow> bool" where
  "opt_truthy x \<longleftrightarrow> (case x of None \<Rightarrow> False | Some s \<Rightarrow> s \<noteq> [])"

definition is_space :: "char \<Rightarrow> bool" where
  \<comment> \<open>\<open>str.isspace\<close> on the code points below 256\<close>
  "is_space c \<longleftrightarrow> (let n = of_char c :: nat in
     n = 32 \<or> (9 \<le> n \<and> n \<le> 13) \<or> (28 \<le> n \<and> n \<le> 31) \<or> n = 133 \<or> n = 160)"

definition py_strip :: "string \<Rightarrow> string" where
  "py_strip s = rev (dropWhile is_space (rev (dropWhile is_space s)))"

definition starts_with :: "string \<Rightarrow> string \<Rightarrow> bool" where
  "starts_with s p \<longleftrightarrow> take (length p) s = p"

definition ends_with :: "string \<Rightarrow> string \<Rightarrow> bool" where
  "ends_with s p \<longleftrightarrow> length p \<le> length s \<and> drop (length s - length p) s = p"

fun digits_rev :: "nat \<Rightarrow> nat \<Rightarrow> string" where
  "digits_rev 0 n = []"
| "digits_rev (Suc fuel) n =
     char_of (48 + n mod 10) # (if n < 10 then [] else digits_rev fuel (n div 10))"

definition nat_str :: "nat \<Rightarrow> string" where
  \<comment> \<open>decimal notation; \<open>n + 1\<close> digits always suffice\<close>
  "nat_str n = rev (digits_rev (Suc n) n)"

fun digits_val :: "string \<Rightarrow> nat" where
  "digits_val [] = 0"
| "digits_val (c # cs) = (of_char c - 48) + 10 * digits_val cs"

lemma digit_code: "d < 10 \<Longrightarrow> of_char (char_of (48 + d :: nat)) = 48 + d"
  by simp

lemma digits_val_rev: "n < fuel \<Longrightarrow> digits_val (digits_rev fuel n) = n"
proof (induction fuel n rule: digits_rev.induct)
  case (2 fuel n)
  have d: "of_char (char_of (48 + n mod 10 :: nat)) = 48 + n mod 10"
    by (intro digit_code) simp
  show ?case
  proof (cases "n < 10")
    case False
    then have "n div 10 < fuel" using 2(2) by (simp add: div_less_dividend order_less_le_trans)
    with 2(1) False d show ?thesis by simp
  qed (use d in simp)
qed simp

lemma nat_str_inj [simp]: "nat_str m = nat_str n \<longleftrightarrow> m = n"
  using digits_val_rev[of m "Suc m"] digits_val_rev[of n "Suc n"]
  by (metis lessI nat_str_def rev_rev_ident)

definition int_str :: "int \<Rightarrow> string" where
  "int_str i = (if i < 0 then ''-'' @ nat_str (nat (- i)) else nat_str (nat i))"

fun py_str :: "(json \<Rightarrow> string) \<Rightarrow> json \<Rightarrow> string" where
  \<comment> \<open>\<open>str(v)\<close>; the text of floats and containers is the interpreter's (\<open>render\<close>)\<close>
  "py_str render JNull = ''None''"
| "py_str render (JBool b) = (if b then ''True'' else ''False'')"
| "py_str render (JInt i) = int_str i"
| "py_str render (JStr s) = s"
| "py_str render v = render v"

fun join :: "string \<Rightarrow> string list \<Rightarrow> string" where
  \<comment> \<open>\<open>sep.join(parts)\<close>\<close>
  "join sep [] = []"
| "join sep [p] = p"
| "join sep (p # ps) = p @ sep @ join sep ps"

section \<open>Results and traversals\<close>

definition bind_r :: "'e + 'a \<Rightarrow> ('a \<Rightarrow> 'e + 'b) \<Rightarrow> 'e + 'b" where
  "bind_r m f = (case m of Inl e \<Rightarrow> Inl e | Inr x \<Rightarrow> f x)"

lemma bind_r_simps [simp, result_simps]:
  "bind_r (Inl e) f = Inl e"
  "bind_r (Inr x) f = f x"
  by (simp_all add: bind_r_def)

lemma bind_r_Inr: "bind_r m f = Inr y \<longleftrightarrow> (\<exists>x. m = Inr x \<and> f x = Inr y)"
  by (cases m) auto

fun collect_r :: "('a \<Rightarrow> 'e + 'b list) \<Rightarrow> 'a list \<Rightarrow> 'e + 'b list" where
  \<comment> \<open>a loop that appends to one list and stops at the first exception\<close>
  "collect_r f [] = Inr []"
| "collect_r f (x # xs) =
     bind_r (f x) (\<lambda>ys. bind_r (collect_r f xs) (\<lambda>zs. Inr (ys @ zs)))"

lemma collect_r_Nil_iff:
  "collect_r f xs = Inr [] \<longleftrightarrow> (\<forall>x \<in> set xs. f x = Inr [])"
  by (induction xs) (auto simp: bind_r_Inr)

lemma collect_r_total:
  "(\<And>x. x \<in> set xs \<Longrightarrow> f x = Inr (g x)) \<Longrightarrow> collect_r f xs = Inr (concat (map g xs))"
  by (induction xs) auto

lemma in_map_filter: "y \<in> set (List.map_filter f xs) \<longleftrightarrow> (\<exists>x \<in> set xs. f x = Some y)"
  by (induction xs) (auto simp: List.map_filter_simps split: option.splits)

lemma find_Some_in: "find P xs = Some x \<Longrightarrow> P x \<and> x \<in> set xs"
  by (induction xs) (auto split: if_splits)

lemma collect_r_all2:
  "(\<And>x. x \<in> set xs \<Longrightarrow> \<exists>y. f x = Inr [y] \<and> P x y) \<Longrightarrow>
   \<exists>ys. collect_r f xs = Inr ys \<and> list_all2 P xs ys"
proof (induction xs)
  case (Cons x xs)
  then obtain ys where "collect_r f xs = Inr ys" "list_all2 P xs ys" by auto
  moreover obtain y where "f x = Inr [y]" "P x y" using Cons.prems by auto
  ultimately show ?case by auto
qed simp

lemma dict_get_has_key: "dict_get d k \<noteq> JNull \<Longrightarrow> has_key d k"
  by (cases "map_of d k") (auto simp: dict_get_def has_key_def)

lemma dict_get_or_has_key: "has_key d k \<Longrightarrow> dict_get_or d k v = dict_get d k"
  by (cases "map_of d k") (auto simp: dict_get_def dict_get_or_def has_key_def)

section \<open>Text and numbers\<close>

definition lower_char :: "char \<Rightarrow> char" where
  "lower_char c = (let n = of_char c :: nat in if 65 \<le> n \<and> n \<le> 90 then char_of (n + 32) else c)"

definition py_lower :: "string \<Rightarrow> string" where
  \<comment> \<open>\<open>s.lower()\<close> on ASCII text\<close>
  "py_lower s = map lower_char s"

fun py_words :: "string \<Rightarrow> string list" where
  \<comment> \<open>\<open>s.split()\<close>\<close>
  "py_words [] = []"
| "py_words (c # cs) =
     (if is_space c then py_words cs
      else (case cs of
          [] \<Rightarrow> [[c]]
        | d # ds \<Rightarrow> if is_space d then [c] # py_words cs
                   else (case py_words cs of [] \<Rightarrow> [[c]] | w # ws \<Rightarrow> (c # w) # ws)))"

definition squeeze :: "string \<Rightarrow> string" where
  \<comment> \<open>\<open>" ".join(s.split())\<close>\<close>
  "squeeze s = join '' '' (py_words s)"

definition round4 :: "real \<Rightarrow> real" where
  \<comment> \<open>\<open>round(x, 4)\<close>, ties aside\<close>
  "round4 x = of_int (round (x * 10000)) / 10000"

lemma round4_mono: "x \<le> y \<Longrightarrow> round4 x \<le> round4 y"
  unfolding round4_def by (intro divide_right_mono) (simp_all add: round_mono)

section \<open>Time\<close>

text \<open>
  A \<open>datetime\<close> (always UTC in the backend) is a number of microseconds, the resolution
  Python keeps; a difference of two instants is a duration in microseconds, so comparing
  \<open>(b - a).total_seconds()\<close> with a number of seconds is comparing with \<open>secs\<close> of it.
\<close>

type_synonym instant = int

definition secs :: "int \<Rightarrow> int" where
  "secs n = n * 1000000"

definition day_us :: int where
  "day_us = 86400 * 1000000"

definition midnight :: "instant \<Rightarrow> instant" where
  \<comment> \<open>\<open>now.replace(hour=0, minute=0, second=0, microsecond=0)\<close>\<close>
  "midnight now = (now div day_us) * day_us"

lemma day_us_pos: "0 < day_us"
  by (simp add: day_us_def)

lemma midnight_bounds: "midnight now \<le> now \<and> now < midnight now + day_us"
proof -
  have "now = midnight now + now mod day_us"
    by (simp add: midnight_def)
  moreover have "0 \<le> now mod day_us" "now mod day_us < day_us"
    by (simp_all add: day_us_def)
  ultimately show ?thesis by linarith
qed

section \<open>Tables\<close>

text \<open>
  A database table is the list of its rows in insertion order. \<open>session.get\<close> is
  \<open>row_get\<close>, \<open>session.add\<close> is \<open>row_add\<close>, assigning attributes of a loaded row is
  \<open>row_upd\<close>, and a \<open>select\<close> with a \<open>where\<close> clause is \<open>filter\<close>.
\<close>

definition row_get :: "('r \<Rightarrow> 'k) \<Rightarrow> 'r list \<Rightarrow> 'k \<Rightarrow> 'r option" where
  "row_get key t k = find (\<lambda>r. key r = k) t"

definition row_add :: "'r \<Rightarrow> 'r list \<Rightarrow> 'r list" where
  "row_add r t = t @ [r]"

definition row_upd :: "('r \<Rightarrow> 'k) \<Rightarrow> 'k \<Rightarrow> ('r \<Rightarrow> 'r) \<Rightarrow> 'r list \<Rightarrow> 'r list" where
  "row_upd key k f t = map (\<lambda>r. if key r = k then f r else r) t"

definition row_del :: "('r \<Rightarrow> 'k) \<Rightarrow> 'k \<Rightarrow> 'r list \<Rightarrow> 'r list" where
  "row_del key k t = filter (\<lambda>r. key r \<noteq> k) t"

lemma row_get_Some: "row_get key t k = Some r \<Longrightarrow> key r = k \<and> r \<in> set t"
  by (auto simp: row_get_def find_Some_iff)

lemma row_get_None: "row_get key t k = None \<longleftrightarrow> (\<forall>r \<in> set t. key r \<noteq> k)"
  by (auto simp: row_get_def find_None_iff)

lemma row_get_Nil [row_simps]: "row_get key [] k = None"
  by (simp add: row_get_def)

lemma row_get_Cons [row_simps]:
  "row_get key (r # t) k = (if key r = k then Some r else row_get key t k)"
  by (simp add: row_get_def)

lemma row_get_append: "row_get key (t @ u) k =
    (case row_get key t k of None \<Rightarrow> row_get key u k | Some r \<Rightarrow> Some r)"
  by (induction t) (auto simp: row_simps)

lemma row_get_add [row_simps]:
  "row_get key (row_add r t) k =
     (case row_get key t k of Some s \<Rightarrow> Some s | None \<Rightarrow> if key r = k then Some r else None)"
  by (auto simp: row_add_def row_get_append row_simps split: option.splits)

lemma row_get_upd [row_simps]:
  "(\<And>r. key (f r) = key r) \<Longrightarrow>
   row_get key (row_upd key k f t) k' =
     (if k' = k then map_option f (row_get key t k) else row_get key t k')"
  by (induction t) (auto simp: row_upd_def row_simps)

lemma row_get_del [row_simps]:
  "row_get key (row_del key k t) k' = (if k' = k then None else row_get key t k')"
  by (induction t) (auto simp: row_del_def row_simps)

lemma set_row_add [simp]: "set (row_add r t) = insert r (set t)"
  by (auto simp: row_add_def)

lemma length_row_upd [simp]: "length (row_upd key k f t) = length t"
  by (simp add: row_upd_def)

lemma map_key_row_upd:
  "(\<And>r. key (f r) = key r) \<Longrightarrow> map key (row_upd key k f t) = map key t"
  by (auto simp: row_upd_def)

lemma set_row_upd:
  "r \<in> set (row_upd key k f t) \<Longrightarrow> (\<exists>s \<in> set t. r = f s \<and> key s = k) \<or> r \<in> set t"
  by (auto simp: row_upd_def)

section \<open>Interfaces\<close>

lemma row_split:
  assumes "row_get key t k = Some r" "distinct (map key t)"
  obtains xs ys where "t = xs @ r # ys" "row_del key k t = xs @ ys" "\<And>f. row_upd key k f t = xs @ f r # ys"
proof -
  obtain xs ys where t: "t = xs @ r # ys" using row_get_Some[OF assms(1)] by (meson split_list)
  have k: "key r = k" using row_get_Some[OF assms(1)] by simp
  have "k \<notin> key ` (set xs \<union> set ys)" using assms(2) unfolding t k[symmetric] by auto
  then have other: "x \<in> set xs \<union> set ys \<Longrightarrow> key x \<noteq> k" for x by blast
  have "filter (\<lambda>r. key r \<noteq> k) xs = xs" "filter (\<lambda>r. key r \<noteq> k) ys = ys"
    using other by (simp_all add: filter_True)
  then have del: "row_del key k t = xs @ ys" unfolding row_del_def t using k by simp
  have maps: "map (\<lambda>r. if key r = k then f r else r) xs = xs"
    "map (\<lambda>r. if key r = k then f r else r) ys = ys" for f
    using other by (simp_all add: map_idI)
  have "row_upd key k f t = xs @ f r # ys" for f unfolding row_upd_def t using k maps by simp
  with del show ?thesis using t that by blast
qed

text \<open>
  What a component may assume of a table: reading back an added row, an updated row, a
  deleted row. Every table of the model is an interpretation.
\<close>

locale row_store =
  fixes get :: "'t \<Rightarrow> 'k \<Rightarrow> 'r option"
    and add :: "'r \<Rightarrow> 't \<Rightarrow> 't"
    and upd :: "'k \<Rightarrow> ('r \<Rightarrow> 'r) \<Rightarrow> 't \<Rightarrow> 't"
    and key :: "'r \<Rightarrow> 'k"
  assumes get_key: "get t k = Some r \<Longrightarrow> key r = k"
    and get_add: "get t (key r) = None \<Longrightarrow> get (add r t) k = (if k = key r then Some r else get t k)"
    and get_upd: "(\<And>r. key (f r) = key r) \<Longrightarrow>
      get (upd k f t) k' = (if k' = k then map_option f (get t k) else get t k')"
begin

lemma get_add_same: "get t (key r) = None \<Longrightarrow> get (add r t) (key r) = Some r"
  by (simp add: get_add)

lemma get_add_other: "get t (key r) = None \<Longrightarrow> k \<noteq> key r \<Longrightarrow> get (add r t) k = get t k"
  by (simp add: get_add)

lemma get_upd_same:
  assumes "\<And>r. key (f r) = key r" and "get t k = Some r"
  shows "get (upd k f t) k = Some (f r)"
  using assms by (simp add: get_upd)

lemma get_upd_other:
  assumes "\<And>r. key (f r) = key r" and "k' \<noteq> k"
  shows "get (upd k f t) k' = get t k'"
  using assms by (simp add: get_upd)

lemma upd_dom:
  assumes "\<And>r. key (f r) = key r"
  shows "(get (upd k f t) k' = None) = (get t k' = None)"
  using assms by (auto simp: get_upd)

lemma upd_upd:
  assumes "\<And>r. key (f r) = key r" and "\<And>r. key (g r) = key r"
  shows "get (upd k g (upd k f t)) k' = get (upd k (g \<circ> f) t) k'"
  using assms by (auto simp: get_upd option.map_comp)

end

lemma row_store_rows: "row_store (row_get key) row_add (row_upd key) key"
proof (unfold_locales, goal_cases)
  case (1 t k r)
  then show ?case by (auto dest: row_get_Some)
next
  case (2 t r k)
  then show ?case by (auto simp: row_simps split: option.splits)
next
  case (3 f k t k')
  then show ?case by (simp add: row_simps)
qed

text \<open>
  A step function that keeps an invariant keeps it over every sequence of operations.
\<close>

locale inv_system =
  fixes step :: "'s \<Rightarrow> 'e \<Rightarrow> 's"
    and inv :: "'s \<Rightarrow> bool"
  assumes step_inv: "inv s \<Longrightarrow> inv (step s e)"
begin

lemma run_inv: "inv s \<Longrightarrow> inv (foldl step s es)"
  by (induction es arbitrary: s) (auto intro: step_inv)

lemma run_prefix_inv: "inv s \<Longrightarrow> inv (foldl step s (take n es))"
  by (rule run_inv)

end

end
