(* ===== verification/Workflow_Dag.thy ===== *)
theory Workflow_Dag
  imports Prelude
begin

text \<open>
  Structural validation of a sub agent's workflow (\<open>backend/app/factory/dag.py\<close>): the
  checks of \<open>validate_workflow\<close> in source order, with the depth-first cycle search and the
  reachability loop as recursive functions. A workflow is raw JSON; a value that Python cannot
  hash (a list or an object used as an id or a type) makes the code raise \<open>TypeError\<close>, which
  is a branch of the model. The main lemmas say that the cycle search answers exactly whether the
  edge relation has a cycle, that the frontier loop computes exactly the reachable nodes, and
  that a workflow is accepted precisely when it satisfies the declarative \<open>workflow_ok\<close>.
\<close>

section \<open>Errors and constants\<close>

datatype wf_error =
    WorkflowNotObject
  | NodesMissing
  | EdgesMissing
  | NodeIdMissing
  | NodeTypeInvalid string
  | SkillIdMissing string
  | SkillIdUnresolved string string
  | HitlPromptMissing string
  | QuestionsInvalid string
  | QuestionIdMissing string
  | QuestionKindInvalid string
  | ChoiceOptionsInvalid string
  | ChoiceOptionNotString string
  | ChoiceOptionsDuplicate string
  | QuestionIdsNotUnique string
  | NodeIdReserved string
  | NodeIdReservedShape string
  | NodeIdDuplicate string
  | EdgeEndsMissing
  | EdgeOnInvalid
  | EdgeUnknownFrom json
  | EdgeUnknownTo json
  | EdgeLeavesEnd
  | EdgeEntersStart
  | StartEdgeCount nat
  | ErrorEdgesMany json nat
  | HasCycle
  | NoPathToEnd

definition START :: string where "START = ''START''"
definition END :: string where "END = ''END''"
definition ROUTER_PREFIX :: string where "ROUTER_PREFIX = ''__route__''"

section \<open>Nodes\<close>

definition dunder :: "string \<Rightarrow> bool" where
  "dunder s \<longleftrightarrow> 4 \<le> length s \<and> starts_with s ''__'' \<and> ends_with s ''__''
     \<and> CHR 0x0A \<notin> set s"

definition reserved_id :: "string \<Rightarrow> bool" where
  \<comment> \<open>\<open>_RESERVED_ID_RE.match\<close>; \<open>$\<close> also matches before one final newline\<close>
  "reserved_id s \<longleftrightarrow> dunder s \<or> (s \<noteq> [] \<and> last s = CHR 0x0A \<and> dunder (butlast s))"

definition check_in :: "json \<Rightarrow> string list \<Rightarrow> py_exc + bool" where
  \<comment> \<open>\<open>v in {...}\<close> for a set of strings: an unhashable \<open>v\<close> raises\<close>
  "check_in v names = (if \<not> hashable v then Inl TypeErr else Inr (v \<in> JStr ` set names))"

fun option_is_text :: "json \<Rightarrow> bool" where
  "option_is_text (JStr s) = (py_strip s \<noteq> [])"
| "option_is_text _ = False"

definition choice_errors :: "string \<Rightarrow> json \<Rightarrow> wf_error list" where
  "choice_errors nid opts = (case opts of
       JList os \<Rightarrow>
         (if length os < 2 then [ChoiceOptionsInvalid nid]
          else if \<not> list_all option_is_text os then [ChoiceOptionNotString nid]
          else if \<not> distinct os then [ChoiceOptionsDuplicate nid]
          else [])
     | _ \<Rightarrow> [ChoiceOptionsInvalid nid])"

definition question_id :: "(json \<Rightarrow> string) \<Rightarrow> json \<Rightarrow> string option" where
  \<comment> \<open>the id under which a question is recorded, None when it has no usable one\<close>
  "question_id render q = (case q of
       JDict d \<Rightarrow>
         (let i = dict_get d ''id''
          in if truthy i \<and> py_strip (py_str render i) \<noteq> [] then Some (py_str render i) else None)
     | _ \<Rightarrow> None)"

definition question_errors :: "(json \<Rightarrow> string) \<Rightarrow> string \<Rightarrow> json \<Rightarrow> py_exc + wf_error list" where
  "question_errors render nid q = (case question_id render q of
       None \<Rightarrow> Inr [QuestionIdMissing nid]
     | Some qid \<Rightarrow>
         (let kind = dict_get (as_dict q) ''kind''
          in bind_r (check_in kind [''approve'', ''choice'', ''text'']) (\<lambda>known.
             Inr ((if known then [] else [QuestionKindInvalid nid])
               @ (if kind = JStr ''choice''
                  then choice_errors nid (dict_get (as_dict q) ''options'') else [])))))"

definition question_ids :: "(json \<Rightarrow> string) \<Rightarrow> json list \<Rightarrow> string list" where
  "question_ids render qs = List.map_filter (question_id render) qs"

definition questions_errors :: "(json \<Rightarrow> string) \<Rightarrow> string \<Rightarrow> json \<Rightarrow> py_exc + wf_error list" where
  "questions_errors render nid v = (case v of
       JNull \<Rightarrow> Inr []
     | JList qs \<Rightarrow>
         (if qs = [] then Inr [QuestionsInvalid nid]
          else bind_r (collect_r (question_errors render nid) qs) (\<lambda>es.
               Inr (es @ (if distinct (question_ids render qs) then []
                          else [QuestionIdsNotUnique nid]))))
     | _ \<Rightarrow> Inr [QuestionsInvalid nid])"

definition prompt_missing :: "json \<Rightarrow> bool" where
  "prompt_missing v = (case v of JStr p \<Rightarrow> py_strip p = [] | _ \<Rightarrow> True)"

definition node_type_errors ::
    "(json \<Rightarrow> string) \<Rightarrow> string list \<Rightarrow> string \<Rightarrow> pydict \<Rightarrow> py_exc + wf_error list" where
  "node_type_errors render active nid d =
     bind_r (check_in (dict_get d ''type'') [''skill'', ''hitl'']) (\<lambda>known.
       if \<not> known then Inr [NodeTypeInvalid nid]
       else if dict_get d ''type'' = JStr ''skill'' then
         (let sid = dict_get d ''skill_id''
          in Inr (if \<not> nonempty_str sid then [SkillIdMissing nid]
                  else if as_str sid \<notin> set active then [SkillIdUnresolved nid (as_str sid)]
                  else []))
       else
         bind_r (questions_errors render nid (dict_get d ''questions'')) (\<lambda>es.
           Inr ((if prompt_missing (dict_get d ''prompt'') then [HitlPromptMissing nid] else [])
                @ es)))"

definition reserved_errors :: "string \<Rightarrow> wf_error list" where
  "reserved_errors nid =
     (if nid = START \<or> nid = END then [NodeIdReserved nid]
      else if reserved_id nid \<or> starts_with nid ROUTER_PREFIX then [NodeIdReservedShape nid]
      else [])"

definition node_id :: "json \<Rightarrow> string option" where
  "node_id n = (case n of
       JDict d \<Rightarrow> (if nonempty_str (dict_get d ''id'') then Some (as_str (dict_get d ''id'')) else None)
     | _ \<Rightarrow> None)"

definition node_errors :: "(json \<Rightarrow> string) \<Rightarrow> string list \<Rightarrow> json \<Rightarrow> py_exc + wf_error list" where
  "node_errors render active n = (case node_id n of
       None \<Rightarrow> Inr [NodeIdMissing]
     | Some nid \<Rightarrow>
         bind_r (node_type_errors render active nid (as_dict n)) (\<lambda>es.
           Inr (es @ reserved_errors nid)))"

definition node_ids :: "json list \<Rightarrow> string list" where
  "node_ids nodes = List.map_filter node_id nodes"

fun duplicate_errors :: "string list \<Rightarrow> string list \<Rightarrow> wf_error list" where
  \<comment> \<open>the \<open>seen\<close> loop over the collected ids\<close>
  "duplicate_errors seen [] = []"
| "duplicate_errors seen (nid # nids) =
     (if nid \<in> set seen then [NodeIdDuplicate nid] else [])
     @ duplicate_errors (nid # seen) nids"

section \<open>Edges\<close>

definition edge_ends :: "json \<Rightarrow> (json \<times> json) option" where
  "edge_ends e = (case e of
       JDict d \<Rightarrow> (if has_key d ''from'' \<and> has_key d ''to''
                  then Some (dict_get d ''from'', dict_get d ''to'') else None)
     | _ \<Rightarrow> None)"

definition edge_on :: "json \<Rightarrow> json" where
  "edge_on e = dict_get_or (as_dict e) ''on'' (JStr ''success'')"

definition edge_errors :: "string list \<Rightarrow> json \<Rightarrow> py_exc + wf_error list" where
  "edge_errors known e = (case edge_ends e of
       None \<Rightarrow> Inr [EdgeEndsMissing]
     | Some (src, dst) \<Rightarrow>
         bind_r (check_in (edge_on e) [''success'', ''error'']) (\<lambda>on_ok.
         bind_r (if src = JStr START then Inr True else check_in src known) (\<lambda>src_ok.
         bind_r (if dst = JStr END then Inr True else check_in dst known) (\<lambda>dst_ok.
           Inr ((if on_ok then [] else [EdgeOnInvalid])
              @ (if src_ok then [] else [EdgeUnknownFrom src])
              @ (if dst_ok then [] else [EdgeUnknownTo dst])
              @ (if src = JStr END then [EdgeLeavesEnd] else [])
              @ (if dst = JStr START then [EdgeEntersStart] else []))))))"

definition edge_pairs :: "json list \<Rightarrow> (json \<times> json) list" where
  \<comment> \<open>the pairs the adjacency dict receives, keyed as Python keys them\<close>
  "edge_pairs edges = List.map_filter
     (\<lambda>e. map_option (\<lambda>(s, d). (hash_key s, hash_key d)) (edge_ends e)) edges"

definition start_edges :: "json list \<Rightarrow> nat" where
  "start_edges edges = length (filter (\<lambda>(s, d). s = JStr START) (edge_pairs edges))"

definition error_sources :: "json list \<Rightarrow> json list" where
  \<comment> \<open>one entry per increment of \<open>error_edge_count\<close>\<close>
  "error_sources edges = List.map_filter
     (\<lambda>e. case edge_ends e of
        None \<Rightarrow> None
      | Some (s, d) \<Rightarrow>
          (if edge_on e = JStr ''error'' \<and> s \<noteq> JStr START \<and> s \<noteq> JStr END
           then Some (hash_key s) else None)) edges"

definition error_count_errors :: "json list \<Rightarrow> wf_error list" where
  "error_count_errors edges =
     (let srcs = error_sources edges
      in map (\<lambda>s. ErrorEdgesMany s (count_list srcs s))
            (filter (\<lambda>s. 1 < count_list srcs s) (rev (remdups (rev srcs)))))"

section \<open>Cycle search\<close>

definition succs :: "('n \<times> 'n) list \<Rightarrow> 'n \<Rightarrow> 'n list" where
  \<comment> \<open>\<open>adjacency.get(n, ())\<close>: a set, visited here in order of first insertion\<close>
  "succs pairs n = rev (remdups (rev (map snd (filter (\<lambda>p. fst p = n) pairs))))"

text \<open>
  \<open>has_cycle\<close> colours a node 1 on entry and 2 on exit and looks at its successors in turn:
  one in the stack is a cycle, an unvisited one is entered. \<open>scan_succs\<close> is the loop over
  the successors with the recursive call inlined; the colouring is threaded through.
\<close>

function (sequential) scan_succs ::
    "('n \<Rightarrow> 'n list) \<Rightarrow> 'n list \<Rightarrow> 'n list \<Rightarrow> ('n \<Rightarrow> nat) \<Rightarrow> bool \<times> ('n \<Rightarrow> nat)" where
  "scan_succs adj known [] st = (False, st)"
| "scan_succs adj known (x # xs) st =
     (if x \<notin> set known then scan_succs adj known xs st
      else if st x = 1 then (True, st)
      else if st x = 0 then
        (case scan_succs adj known (adj x) (st(x := 1)) of
           (True, st') \<Rightarrow> (True, st')
         | (False, st') \<Rightarrow> scan_succs adj known xs (st'(x := 2)))
      else scan_succs adj known xs st)"
  by pat_completeness auto

definition unvisited :: "'n list \<Rightarrow> ('n \<Rightarrow> nat) \<Rightarrow> nat" where
  "unvisited known st = card {n \<in> set known. st n = 0}"

lemma unvisited_mono:
  "(\<And>n. st' n = 0 \<Longrightarrow> st n = 0) \<Longrightarrow> unvisited known st' \<le> unvisited known st"
  unfolding unvisited_def by (rule card_mono) auto

lemma unvisited_less:
  assumes "x \<in> set known" and "st x = 0" and "v \<noteq> 0"
    and "\<And>n. st' n = 0 \<Longrightarrow> st n = 0"
  shows "unvisited known (st'(x := v)) < unvisited known st"
  unfolding unvisited_def using assms by (intro psubset_card_mono) auto

lemma scan_keeps_visited:
  assumes "scan_succs_dom (adj, known, xs, st)"
  shows "scan_succs adj known xs st = (b, st') \<Longrightarrow> st n \<noteq> 0 \<Longrightarrow> st' n \<noteq> 0"
  using assms
proof (induction adj known xs st arbitrary: b st' rule: scan_succs.pinduct)
  case (1 adj known st)
  then show ?case by (simp add: scan_succs.psimps)
next
  case (2 adj known x xs st)
  note eq = 2(6)[unfolded scan_succs.psimps(2)[OF 2(1)]]
  show ?case
  proof (cases "x \<in> set known \<and> st x = 0")
    case False
    with eq 2(2,5,7) show ?thesis by (auto split: if_splits)
  next
    case True
    obtain c st1 where inner: "scan_succs adj known (adj x) (st(x := 1)) = (c, st1)"
      by (cases "scan_succs adj known (adj x) (st(x := 1))")
    from True 2(7) have "n \<noteq> x" "(st(x := 1)) n \<noteq> 0" by auto
    with 2(3)[OF _ _ _ inner] True have st1: "st1 n \<noteq> 0" by simp
    show ?thesis
    proof (cases c)
      case True
      with eq inner \<open>x \<in> set known \<and> st x = 0\<close> st1 show ?thesis by auto
    next
      case False
      with eq inner True have "scan_succs adj known xs (st1(x := 2)) = (b, st')" by auto
      moreover have "(st1(x := 2)) n \<noteq> 0" using st1 \<open>n \<noteq> x\<close> by simp
      ultimately show ?thesis
        using 2(4)[OF _ _ _ inner[symmetric]] True False by (simp add: fun_upd_def)
    qed
  qed
qed

termination scan_succs
proof (relation "measures [\<lambda>(adj, known, xs, st). unvisited known st,
                           \<lambda>(adj, known, xs, st). length xs]", goal_cases)
  case 1
  then show ?case by simp
next
  case (2 adj known x xs st)
  then show ?case by simp
next
  case (3 adj known x xs st)
  then have "unvisited known (st(x := 1)) < unvisited known st"
    by (intro unvisited_less) auto
  then show ?case by simp
next
  case (4 adj known x xs st c st1)
  have "st1 n \<noteq> 0" if "(st(x := 1)) n \<noteq> 0" for n
    using 4 that by (auto dest!: scan_keeps_visited[OF _ sym])
  then have "\<And>n. st1 n = 0 \<Longrightarrow> st n = 0" by (metis fun_upd_apply one_neq_zero)
  with 4 have "unvisited known (st1(x := 2)) < unvisited known st"
    by (intro unvisited_less) auto
  then show ?case by simp
next
  case (5 adj known x xs st)
  then show ?case by simp
qed

text \<open>\<open>any(state.get(n, 0) == 0 and has_cycle(n) for n in known)\<close>.\<close>

fun search_cycle :: "('n \<Rightarrow> 'n list) \<Rightarrow> 'n list \<Rightarrow> 'n list \<Rightarrow> ('n \<Rightarrow> nat) \<Rightarrow> bool" where
  "search_cycle adj known [] st = False"
| "search_cycle adj known (n # ns) st =
     (if st n = 0 then
        (case scan_succs adj known (adj n) (st(n := 1)) of
           (True, st') \<Rightarrow> True
         | (False, st') \<Rightarrow> search_cycle adj known ns (st'(n := 2)))
      else search_cycle adj known ns st)"

section \<open>Reachability\<close>

text \<open>
  The frontier is a stack popped at its end; every node it discovers is recorded before it is
  pushed, so each pass either discovers nodes or shortens the stack.
\<close>

definition fresh_succs :: "('n \<Rightarrow> 'n list) \<Rightarrow> 'n \<Rightarrow> 'n list \<Rightarrow> 'n list" where
  "fresh_succs adj n seen = filter (\<lambda>m. m \<notin> set seen) (adj n)"

function reach_loop :: "('n \<times> 'n) list \<Rightarrow> 'n list \<Rightarrow> 'n list \<Rightarrow> 'n list" where
  "reach_loop pairs stack seen =
     (if stack = [] then seen
      else (let new = fresh_succs (succs pairs) (last stack) seen
            in reach_loop pairs (butlast stack @ new) (seen @ new)))"
  by pat_completeness auto

lemma set_succs: "set (succs pairs n) = {m. (n, m) \<in> set pairs}"
  by (force simp: succs_def)

lemma distinct_succs: "distinct (succs pairs n)"
  by (simp add: succs_def)

termination reach_loop
proof (relation "measure (\<lambda>(pairs, stack, seen).
    length stack + card (snd ` set pairs - set seen))", goal_cases)
  case 1
  then show ?case by simp
next
  case (2 pairs stack seen new)
  let ?T = "snd ` set pairs"
  have sub: "set new \<subseteq> ?T - set seen" and dist: "distinct new"
    using 2 by (force simp: fresh_succs_def set_succs distinct_succs)+
  have "card (?T - set (seen @ new)) = card ((?T - set seen) - set new)"
    by (rule arg_cong[where f = card]) auto
  also have "\<dots> = card (?T - set seen) - length new"
    using sub dist by (simp add: card_Diff_subset distinct_card)
  finally have "card (?T - set (seen @ new)) + length new = card (?T - set seen)"
    using card_mono[OF _ sub] dist by (simp add: distinct_card)
  moreover have "0 < length stack" using 2 by simp
  ultimately have "length (butlast stack @ new) + card (?T - set (seen @ new))
      < length stack + card (?T - set seen)"
    unfolding length_append length_butlast by linarith
  then show ?case by simp
qed

declare reach_loop.simps [simp del]

lemma reach_loop_Nil: "reach_loop pairs [] seen = seen"
  by (simp add: reach_loop.simps)

lemma reach_loop_step: "stack \<noteq> [] \<Longrightarrow> reach_loop pairs stack seen =
    reach_loop pairs (butlast stack @ fresh_succs (succs pairs) (last stack) seen)
      (seen @ fresh_succs (succs pairs) (last stack) seen)"
  by (subst reach_loop.simps) (simp add: Let_def)

definition reachable_nodes :: "('n \<times> 'n) list \<Rightarrow> 'n \<Rightarrow> 'n list" where
  "reachable_nodes pairs s = reach_loop pairs [s] []"

section \<open>The validator\<close>

definition list_items :: "json \<Rightarrow> json list" where
  "list_items v = (case v of JList xs \<Rightarrow> xs | _ \<Rightarrow> [])"

definition graph_errors :: "string list \<Rightarrow> json list \<Rightarrow> wf_error list" where
  "graph_errors nids edges =
     (let pairs = edge_pairs edges; known = map JStr (remdups nids);
          inner = filter (\<lambda>n. n \<noteq> JStr START \<and> n \<noteq> JStr END) known
      in (if start_edges edges = 1 then [] else [StartEdgeCount (start_edges edges)])
       @ error_count_errors edges
       @ (if search_cycle (succs pairs) inner known (\<lambda>_. 0) then [HasCycle] else [])
       @ (if JStr END \<in> set (reachable_nodes pairs (JStr START)) then [] else [NoPathToEnd]))"

definition validate_workflow ::
    "(json \<Rightarrow> string) \<Rightarrow> json \<Rightarrow> string list \<Rightarrow> py_exc + wf_error list" where
  "validate_workflow render workflow active = (case workflow of
       JDict w \<Rightarrow>
         (let nodes = list_items (dict_get w ''nodes'');
              edges = list_items (dict_get w ''edges'');
              nids = node_ids nodes
          in bind_r (collect_r (node_errors render active) nodes) (\<lambda>node_es.
             bind_r (collect_r (edge_errors nids) edges) (\<lambda>edge_es.
               Inr ((if nodes = [] then [NodesMissing] else [])
                  @ (if edges = [] then [EdgesMissing] else [])
                  @ node_es @ duplicate_errors [] nids
                  @ edge_es @ graph_errors nids edges))))
     | _ \<Rightarrow> Inr [WorkflowNotObject])"

definition iter_items :: "json \<Rightarrow> py_exc + json list" where
  \<comment> \<open>\<open>for x in v\<close>\<close>
  "iter_items v = (case v of
       JList xs \<Rightarrow> Inr xs
     | JStr s \<Rightarrow> Inr (map (\<lambda>c. JStr [c]) s)
     | JDict d \<Rightarrow> Inr (map (JStr \<circ> fst) d)
     | _ \<Rightarrow> Inl TypeErr)"

definition node_skill_id :: "json \<Rightarrow> py_exc + string list" where
  "node_skill_id n = (case n of
       JDict d \<Rightarrow> Inr (if nonempty_str (dict_get d ''skill_id'')
                       then [as_str (dict_get d ''skill_id'')] else [])
     | _ \<Rightarrow> Inl AttrErr)"

definition workflow_skill_ids :: "pydict \<Rightarrow> py_exc + string list" where
  \<comment> \<open>distinct, in order of first mention\<close>
  "workflow_skill_ids w =
     bind_r (iter_items (dict_get_or w ''nodes'' (JList []))) (\<lambda>nodes.
     bind_r (collect_r node_skill_id nodes) (\<lambda>sids.
       Inr (rev (remdups (rev sids)))))"

section \<open>The cycle search decides cyclicity\<close>

definition arcs :: "('n \<Rightarrow> 'n list) \<Rightarrow> 'n list \<Rightarrow> ('n \<times> 'n) set" where
  "arcs adj inner = {(u, v). v \<in> set (adj u) \<and> v \<in> set inner}"

text \<open>
  What the colouring means between two steps of the search: a finished node (2) has only
  finished successors and lies on no cycle.
\<close>

definition black_ok :: "('n \<times> 'n) set \<Rightarrow> ('n \<Rightarrow> nat) \<Rightarrow> bool" where
  "black_ok R st \<longleftrightarrow>
     (\<forall>b. st b = 2 \<longrightarrow> (\<forall>c. (b, c) \<in> R \<longrightarrow> st c = 2) \<and> (b, b) \<notin> R\<^sup>+)"

lemma black_closed:
  assumes "black_ok R st" and "(b, c) \<in> R\<^sup>*" and "st b = 2"
  shows "st c = 2"
  using assms(2,3) by (induction rule: rtrancl_induct) (use assms(1) in \<open>auto simp: black_ok_def\<close>)

lemma black_ok_finish:
  assumes ok: "black_ok R st" and succ: "\<And>c. (x, c) \<in> R \<Longrightarrow> st c = 2" and "st x \<noteq> 2"
  shows "black_ok R (st(x := 2))"
proof -
  have "(x, x) \<notin> R\<^sup>+"
  proof
    assume "(x, x) \<in> R\<^sup>+"
    then obtain c where "(x, c) \<in> R" "(c, x) \<in> R\<^sup>*" by (auto dest: tranclD)
    with succ black_closed[OF ok] have "st x = 2" by blast
    with \<open>st x \<noteq> 2\<close> show False by simp
  qed
  with ok succ show ?thesis unfolding black_ok_def by auto
qed

text \<open>A search that reports no cycle blackens what it scanned and touches no grey node.\<close>

definition scan_post :: "('n \<times> 'n) set \<Rightarrow> 'n set \<Rightarrow> ('n \<Rightarrow> nat) \<Rightarrow> ('n \<Rightarrow> nat) \<Rightarrow> bool" where
  "scan_post R X st st' \<longleftrightarrow> black_ok R st' \<and> (\<forall>n. (st' n = 1) = (st n = 1))
     \<and> (\<forall>n. st n = 2 \<longrightarrow> st' n = 2) \<and> (\<forall>x \<in> X. st' x = 2)"

lemma scan_post_finish:
  assumes "scan_post (arcs adj inner) (set (adj x) \<inter> set inner) (st(x := 1)) st1"
  shows "black_ok (arcs adj inner) (st1(x := 2))"
proof (rule black_ok_finish)
  show "black_ok (arcs adj inner) st1" using assms by (simp add: scan_post_def)
  show "st1 c = 2" if "(x, c) \<in> arcs adj inner" for c
    using assms that by (auto simp: scan_post_def arcs_def)
  have "st1 x = 1" using assms by (simp add: scan_post_def)
  then show "st1 x \<noteq> 2" by simp
qed

lemma scan_succs_False:
  assumes "scan_succs adj inner xs st = (False, st')"
    and "black_ok (arcs adj inner) st" and "\<And>n. st n \<le> 2"
  shows "scan_post (arcs adj inner) (set xs \<inter> set inner) st st' \<and> (\<forall>n. st' n \<le> 2)"
  using assms
proof (induction adj inner xs st arbitrary: st' rule: scan_succs.induct)
  case (1 adj inner st)
  then show ?case by (simp add: scan_post_def)
next
  case (2 adj inner x xs st)
  let ?R = "arcs adj inner"
  consider "x \<notin> set inner" | "x \<in> set inner" "st x = 1" | "x \<in> set inner" "st x = 0"
    | "x \<in> set inner" "st x = 2"
    using 2(7)[of x] by linarith
  then show ?case
  proof cases
    case 1
    with 2(1) 2(5-7) show ?thesis by simp
  next
    case 2
    with "2.prems"(1) show ?thesis by simp
  next
    case 4
    with 2(4)[of st'] 2(5-7) show ?thesis by (auto simp: scan_post_def)
  next
    case 3
    obtain st1 where inner: "scan_succs adj inner (adj x) (st(x := 1)) = (False, st1)"
      and outer: "scan_succs adj inner xs (st1(x := 2)) = (False, st')"
      using 3 2(5) by (auto split: prod.splits bool.splits)
    have "black_ok ?R (st(x := 1))"
      using 2(6) 3 unfolding black_ok_def by (auto split: if_splits)
    then have p1: "scan_post ?R (set (adj x) \<inter> set inner) (st(x := 1)) st1"
      and le1: "\<forall>n. st1 n \<le> 2"
      using 2(2)[OF _ _ _ inner] 3 2(7) by (auto simp: fun_upd_def)
    have ok2: "black_ok ?R (st1(x := 2))"
      by (rule scan_post_finish[OF p1])
    then have p2: "scan_post ?R (set xs \<inter> set inner) (st1(x := 2)) st' \<and> (\<forall>n. st' n \<le> 2)"
      using 2(3)[OF _ _ _ inner[symmetric] _ outer ok2] 3 le1 by (auto simp: fun_upd_def)
    have grey: "st' n = 1 \<longleftrightarrow> st n = 1" for n
      using p1 p2 3 by (auto simp: scan_post_def split: if_splits)
    have black: "st n = 2 \<Longrightarrow> st' n = 2" for n
      using p1 p2 3 by (auto simp: scan_post_def split: if_splits)
    have "st' x = 2" using p2 by (auto simp: scan_post_def)
    with p2 grey black show ?thesis by (auto simp: scan_post_def)
  qed
qed

text \<open>A search that reports a cycle has found one: every grey node leads to the node being left.\<close>

lemma scan_succs_True:
  assumes "scan_succs adj inner xs st = (True, st')"
    and "\<And>g. st g = 1 \<Longrightarrow> (g, p) \<in> (arcs adj inner)\<^sup>*" and "set xs \<subseteq> set (adj p)"
    and "black_ok (arcs adj inner) st" and "\<And>n. st n \<le> 2"
  shows "\<exists>c. (c, c) \<in> (arcs adj inner)\<^sup>+"
  using assms
proof (induction adj inner xs st arbitrary: p st' rule: scan_succs.induct)
  case (1 adj inner st)
  then show ?case by simp
next
  case (2 adj inner x xs st)
  let ?R = "arcs adj inner"
  have arc: "x \<in> set inner \<Longrightarrow> (p, x) \<in> ?R" using 2(7) by (auto simp: arcs_def)
  consider "x \<notin> set inner" | "x \<in> set inner" "st x = 1" | "x \<in> set inner" "st x = 0"
    | "x \<in> set inner" "st x = 2"
    using 2(9)[of x] by linarith
  then show ?case
  proof cases
    case 1
    with 2(1)[of st' p] 2(5-9) show ?thesis by simp
  next
    case 2
    with "2.prems"(2) arc have "(x, p) \<in> ?R\<^sup>*" "(p, x) \<in> ?R" by auto
    then show ?thesis by (meson rtrancl_into_trancl1)
  next
    case 4
    with 2(4)[of st' p] 2(5-9) show ?thesis by simp
  next
    case 3
    have ok1: "black_ok ?R (st(x := 1))"
      using 2(8) 3 unfolding black_ok_def by (auto split: if_splits)
    obtain c st1 where inner: "scan_succs adj inner (adj x) (st(x := 1)) = (c, st1)"
      by (cases "scan_succs adj inner (adj x) (st(x := 1))")
    have grey_x: "(st(x := 1)) g = 1 \<Longrightarrow> (g, x) \<in> ?R\<^sup>*" for g
      using 2(6)[of g] arc 3 by (cases "g = x") (auto intro: rtrancl_into_rtrancl)
    show ?thesis
    proof (cases c)
      case True
      then show ?thesis using 2(2)[of st1 x] inner grey_x ok1 3 2(9) by (simp add: fun_upd_def)
    next
      case False
      with inner have inner': "scan_succs adj inner (adj x) (st(x := 1)) = (False, st1)" by simp
      have post: "scan_post ?R (set (adj x) \<inter> set inner) (st(x := 1)) st1" "\<forall>n. st1 n \<le> 2"
        using scan_succs_False[OF inner' ok1] 2(9) by auto
      have ok2: "black_ok ?R (st1(x := 2))"
        by (rule scan_post_finish[OF post(1)])
      have "scan_succs adj inner xs (st1(x := 2)) = (True, st')"
        using 2(5) 3 inner' by simp
      moreover have "(st1(x := 2)) g = 1 \<Longrightarrow> (g, p) \<in> ?R\<^sup>*" for g
        using 2(6)[of g] post(1) by (auto simp: scan_post_def split: if_splits)
      ultimately show ?thesis
        using 2(3)[OF _ _ _ inner'[symmetric], of st' p] ok2 post(2) 3 2(7) by (auto simp: fun_upd_def)
    qed
  qed
qed

text \<open>The outer loop over the known nodes, started with nothing visited.\<close>

lemma search_cycle_False:
  assumes "\<not> search_cycle adj inner ns st" and "black_ok (arcs adj inner) st"
    and "\<And>n. st n = 0 \<or> st n = 2" and "set inner \<subseteq> set ns \<union> {n. st n = 2}"
  shows "(c, c) \<notin> (arcs adj inner)\<^sup>+"
  using assms
proof (induction ns arbitrary: st)
  case Nil
  show ?case
  proof
    assume c: "(c, c) \<in> (arcs adj inner)\<^sup>+"
    then obtain b where "(b, c) \<in> arcs adj inner" by (auto dest: tranclD2)
    then have "c \<in> set inner" by (auto simp: arcs_def)
    with Nil.prems c show False by (auto simp: black_ok_def)
  qed
next
  case (Cons n ns)
  show ?case
  proof (cases "st n = 0")
    case False
    with Cons.prems(3)[of n] have "st n = 2" by simp
    with Cons.prems show ?thesis by (intro Cons.IH[of st]) auto
  next
    case True
    obtain st1 where scan: "scan_succs adj inner (adj n) (st(n := 1)) = (False, st1)"
      and rest: "\<not> search_cycle adj inner ns (st1(n := 2))"
      using True Cons.prems(1) by (auto split: prod.splits bool.splits)
    have "black_ok (arcs adj inner) (st(n := 1))"
      using Cons.prems(2) True unfolding black_ok_def by (auto split: if_splits)
    moreover have "(st(n := 1)) m \<le> 2" for m using Cons.prems(3)[of m] by auto
    ultimately have post: "scan_post (arcs adj inner) (set (adj n) \<inter> set inner) (st(n := 1)) st1"
      and le: "st1 m \<le> 2" for m
      using scan_succs_False[OF scan] by auto
    have two: "(st1(n := 2)) m = 0 \<or> (st1(n := 2)) m = 2" for m
    proof -
      have "st1 m = 1 \<longleftrightarrow> m = n" using post Cons.prems(3)[of m] by (auto simp: scan_post_def)
      with le[of m] show ?thesis by (cases "m = n") auto
    qed
    have "set inner \<subseteq> set ns \<union> {m. (st1(n := 2)) m = 2}"
      using Cons.prems(4) post True by (auto simp: scan_post_def split: if_splits)
    then show ?thesis by (rule Cons.IH[OF rest scan_post_finish[OF post] two])
  qed
qed

lemma search_cycle_True:
  assumes "search_cycle adj inner ns st" and "black_ok (arcs adj inner) st"
    and "\<And>n. st n = 0 \<or> st n = 2"
  shows "\<exists>c. (c, c) \<in> (arcs adj inner)\<^sup>+"
  using assms
proof (induction ns arbitrary: st)
  case Nil
  then show ?case by simp
next
  case (Cons n ns)
  show ?case
  proof (cases "st n = 0")
    case False
    with Cons show ?thesis by auto
  next
    case True
    have ok1: "black_ok (arcs adj inner) (st(n := 1))"
      using Cons.prems(2) True unfolding black_ok_def by (auto split: if_splits)
    have le1: "(st(n := 1)) m \<le> 2" for m using Cons.prems(3)[of m] by auto
    obtain r st1 where scan: "scan_succs adj inner (adj n) (st(n := 1)) = (r, st1)"
      by (cases "scan_succs adj inner (adj n) (st(n := 1))")
    show ?thesis
    proof (cases r)
      case True
      with scan have scan': "scan_succs adj inner (adj n) (st(n := 1)) = (True, st1)" by simp
      have grey: "(g, n) \<in> (arcs adj inner)\<^sup>*" if "(st(n := 1)) g = 1" for g
        using that Cons.prems(3)[of g] by (auto split: if_splits)
      show ?thesis by (rule scan_succs_True[OF scan' grey subset_refl ok1 le1])
    next
      case False
      with scan have scan': "scan_succs adj inner (adj n) (st(n := 1)) = (False, st1)" by simp
      have post_le: "scan_post (arcs adj inner) (set (adj n) \<inter> set inner) (st(n := 1)) st1
          \<and> (\<forall>m. st1 m \<le> 2)"
        by (rule scan_succs_False[OF scan' ok1 le1])
      note post = conjunct1[OF post_le] and le = conjunct2[OF post_le, rule_format]
      have two: "(st1(n := 2)) m = 0 \<or> (st1(n := 2)) m = 2" for m
      proof -
        have "st1 m = 1 \<longleftrightarrow> m = n" using post Cons.prems(3)[of m] by (auto simp: scan_post_def)
        with le[of m] show ?thesis by (cases "m = n") auto
      qed
      have rest: "search_cycle adj inner ns (st1(n := 2))"
        using scan' Cons.prems(1) \<open>st n = 0\<close> by simp
      show ?thesis by (rule Cons.IH[OF rest scan_post_finish[OF post] two])
    qed
  qed
qed

lemma search_cycle_correct:
  assumes "set inner \<subseteq> set ns"
  shows "search_cycle adj inner ns (\<lambda>_. 0) \<longleftrightarrow> (\<exists>c. (c, c) \<in> (arcs adj inner)\<^sup>+)"
proof
  assume "search_cycle adj inner ns (\<lambda>_. 0)"
  then show "\<exists>c. (c, c) \<in> (arcs adj inner)\<^sup>+"
    by (rule search_cycle_True) (auto simp: black_ok_def)
next
  assume "\<exists>c. (c, c) \<in> (arcs adj inner)\<^sup>+"
  then obtain c where c: "(c, c) \<in> (arcs adj inner)\<^sup>+" ..
  show "search_cycle adj inner ns (\<lambda>_. 0)"
  proof (rule ccontr)
    assume "\<not> search_cycle adj inner ns (\<lambda>_. 0)"
    then have "(c, c) \<notin> (arcs adj inner)\<^sup>+"
      by (rule search_cycle_False) (use assms in \<open>auto simp: black_ok_def\<close>)
    with c show False by simp
  qed
qed

section \<open>The frontier loop computes reachability\<close>

lemma reach_loop_mono: "set seen \<subseteq> set (reach_loop pairs stack seen)"
proof (induction pairs stack seen rule: reach_loop.induct)
  case (1 pairs stack seen)
  then show ?case by (cases "stack = []") (auto simp: reach_loop_Nil reach_loop_step)
qed

lemma reach_loop_sound:
  assumes "\<And>n. n \<in> set stack \<Longrightarrow> (s, n) \<in> (set pairs)\<^sup>*"
    and "\<And>n. n \<in> set seen \<Longrightarrow> (s, n) \<in> (set pairs)\<^sup>+"
    and "n \<in> set (reach_loop pairs stack seen)"
  shows "(s, n) \<in> (set pairs)\<^sup>+"
  using assms
proof (induction pairs stack seen rule: reach_loop.induct)
  case (1 pairs stack seen)
  show ?case
  proof (cases "stack = []")
    case True
    with 1(3,4) show ?thesis by (simp add: reach_loop_Nil)
  next
    case False
    let ?new = "fresh_succs (succs pairs) (last stack) seen"
    have new: "(s, m) \<in> (set pairs)\<^sup>+" if "m \<in> set ?new" for m
      using that 1(2)[of "last stack"] False
      by (auto simp: fresh_succs_def set_succs intro: rtrancl_into_trancl1)
    have "n \<in> set (reach_loop pairs (butlast stack @ ?new) (seen @ ?new))"
      using 1(4) False by (simp add: reach_loop_step)
    with 1(1)[OF False refl] 1(2,3) new show ?thesis
      by (auto dest: in_set_butlastD intro: trancl_into_rtrancl)
  qed
qed

text \<open>Once a node has left the stack, its successors are recorded.\<close>

lemma reach_loop_closed:
  assumes "\<And>n m. n \<in> insert s (set seen) \<Longrightarrow> n \<notin> set stack \<Longrightarrow> (n, m) \<in> set pairs \<Longrightarrow> m \<in> set seen"
    and "n \<in> insert s (set (reach_loop pairs stack seen))" and "(n, m) \<in> set pairs"
  shows "m \<in> set (reach_loop pairs stack seen)"
  using assms
proof (induction pairs stack seen rule: reach_loop.induct)
  case (1 pairs stack seen)
  show ?case
  proof (cases "stack = []")
    case True
    with 1(2-4) show ?thesis by (auto simp: reach_loop_Nil)
  next
    case False
    let ?new = "fresh_succs (succs pairs) (last stack) seen"
    have step: "reach_loop pairs stack seen
        = reach_loop pairs (butlast stack @ ?new) (seen @ ?new)"
      using False by (rule reach_loop_step)
    have split: "set stack = insert (last stack) (set (butlast stack))"
      using False by (metis append_butlast_last_id list.simps(15) rotate1.simps(2) set_rotate1)
    have "k \<in> set (seen @ ?new)"
      if "j \<in> insert s (set (seen @ ?new))" "j \<notin> set (butlast stack @ ?new)" "(j, k) \<in> set pairs"
      for j k
    proof (cases "j = last stack")
      case True
      with that(3) show ?thesis by (auto simp: fresh_succs_def set_succs)
    next
      case False
      with that split have "j \<in> insert s (set seen)" "j \<notin> set stack" by auto
      with 1(2) that(3) show ?thesis by auto
    qed
    with 1(1)[OF False refl] 1(3,4) show ?thesis unfolding step by blast
  qed
qed

lemma reachable_nodes_correct:
  "n \<in> set (reachable_nodes pairs s) \<longleftrightarrow> (s, n) \<in> (set pairs)\<^sup>+"
proof
  assume "n \<in> set (reachable_nodes pairs s)"
  then show "(s, n) \<in> (set pairs)\<^sup>+"
    unfolding reachable_nodes_def by (rule reach_loop_sound[rotated 2]) auto
next
  assume "(s, n) \<in> (set pairs)\<^sup>+"
  then show "n \<in> set (reachable_nodes pairs s)"
  proof (induction rule: trancl_induct)
    case (base y)
    then show ?case unfolding reachable_nodes_def by (rule reach_loop_closed[where s = s, rotated 2]) auto
  next
    case (step y z)
    then show ?case unfolding reachable_nodes_def
      by (intro reach_loop_closed[where s = s and n = y]) auto
  qed
qed

section \<open>What an accepted workflow is\<close>

definition question_ok :: "(json \<Rightarrow> string) \<Rightarrow> json \<Rightarrow> bool" where
  "question_ok render q \<longleftrightarrow> question_id render q \<noteq> None
     \<and> dict_get (as_dict q) ''kind'' \<in> {JStr ''approve'', JStr ''choice'', JStr ''text''}
     \<and> (dict_get (as_dict q) ''kind'' = JStr ''choice'' \<longrightarrow>
          (\<exists>os. dict_get (as_dict q) ''options'' = JList os \<and> 2 \<le> length os \<and> distinct os
                \<and> (\<forall>p \<in> set os. \<exists>s. p = JStr s \<and> py_strip s \<noteq> [])))"

definition questions_ok :: "(json \<Rightarrow> string) \<Rightarrow> json \<Rightarrow> bool" where
  "questions_ok render v \<longleftrightarrow> v = JNull
     \<or> (\<exists>qs. v = JList qs \<and> qs \<noteq> [] \<and> (\<forall>q \<in> set qs. question_ok render q)
             \<and> distinct (question_ids render qs))"

definition node_ok :: "(json \<Rightarrow> string) \<Rightarrow> string list \<Rightarrow> json \<Rightarrow> bool" where
  "node_ok render active n \<longleftrightarrow> (\<exists>d nid. n = JDict d \<and> dict_get d ''id'' = JStr nid \<and> nid \<noteq> []
     \<and> nid \<noteq> START \<and> nid \<noteq> END \<and> \<not> reserved_id nid \<and> \<not> starts_with nid ROUTER_PREFIX
     \<and> ((dict_get d ''type'' = JStr ''skill''
           \<and> (\<exists>sid. dict_get d ''skill_id'' = JStr sid \<and> sid \<noteq> [] \<and> sid \<in> set active))
        \<or> (dict_get d ''type'' = JStr ''hitl''
           \<and> (\<exists>p. dict_get d ''prompt'' = JStr p \<and> py_strip p \<noteq> [])
           \<and> questions_ok render (dict_get d ''questions''))))"

definition edge_ok :: "string list \<Rightarrow> json \<Rightarrow> bool" where
  "edge_ok known e \<longleftrightarrow> (\<exists>src dst. edge_ends e = Some (JStr src, JStr dst)
     \<and> (src = START \<or> src \<in> set known) \<and> (dst = END \<or> dst \<in> set known)
     \<and> src \<noteq> END \<and> dst \<noteq> START
     \<and> edge_on e \<in> {JStr ''success'', JStr ''error''})"

definition workflow_ok :: "(json \<Rightarrow> string) \<Rightarrow> string list \<Rightarrow> pydict \<Rightarrow> bool" where
  "workflow_ok render active w \<longleftrightarrow> (\<exists>nodes edges.
       dict_get w ''nodes'' = JList nodes \<and> nodes \<noteq> []
     \<and> dict_get w ''edges'' = JList edges \<and> edges \<noteq> []
     \<and> (\<forall>n \<in> set nodes. node_ok render active n) \<and> distinct (node_ids nodes)
     \<and> (\<forall>e \<in> set edges. edge_ok (node_ids nodes) e)
     \<and> start_edges edges = 1 \<and> distinct (error_sources edges)
     \<and> acyclic (set (edge_pairs edges))
     \<and> (JStr START, JStr END) \<in> (set (edge_pairs edges))\<^sup>+)"

lemma check_in_Inr: "check_in v names = Inr b \<longleftrightarrow> hashable v \<and> b = (v \<in> JStr ` set names)"
  by (auto simp: check_in_def)

lemma check_in_True: "check_in v names = Inr True \<longleftrightarrow> v \<in> JStr ` set names"
  by (auto simp: check_in_Inr)

lemma option_is_text_iff: "option_is_text v \<longleftrightarrow> (\<exists>s. v = JStr s \<and> py_strip s \<noteq> [])"
  by (cases v) auto

lemma choice_errors_Nil: "choice_errors nid v = [] \<longleftrightarrow>
    (\<exists>os. v = JList os \<and> 2 \<le> length os \<and> distinct os
          \<and> (\<forall>p \<in> set os. \<exists>s. p = JStr s \<and> py_strip s \<noteq> []))"
  by (cases v) (auto simp: choice_errors_def option_is_text_iff list_all_iff)

lemma question_errors_Nil: "question_errors render nid q = Inr [] \<longleftrightarrow> question_ok render q"
  by (auto simp: question_errors_def question_ok_def Let_def bind_r_Inr check_in_Inr
      choice_errors_Nil split: option.splits if_splits)

lemma questions_errors_Nil: "questions_errors render nid v = Inr [] \<longleftrightarrow> questions_ok render v"
  by (cases v) (auto simp: questions_errors_def questions_ok_def bind_r_Inr collect_r_Nil_iff
      question_errors_Nil split: if_splits)

lemma nonempty_str_iff: "nonempty_str v \<longleftrightarrow> (\<exists>s. v = JStr s \<and> s \<noteq> [])"
  by (cases v) auto

lemma node_type_errors_Nil: "node_type_errors render active nid d = Inr [] \<longleftrightarrow>
     (dict_get d ''type'' = JStr ''skill''
        \<and> (\<exists>sid. dict_get d ''skill_id'' = JStr sid \<and> sid \<noteq> [] \<and> sid \<in> set active))
   \<or> (dict_get d ''type'' = JStr ''hitl''
        \<and> (\<exists>p. dict_get d ''prompt'' = JStr p \<and> py_strip p \<noteq> [])
        \<and> questions_ok render (dict_get d ''questions''))"
  by (auto simp: node_type_errors_def bind_r_Inr check_in_Inr questions_errors_Nil Let_def
      nonempty_str_iff prompt_missing_def split: if_splits json.splits)

lemma reserved_errors_Nil: "reserved_errors nid = [] \<longleftrightarrow>
    nid \<noteq> START \<and> nid \<noteq> END \<and> \<not> reserved_id nid \<and> \<not> starts_with nid ROUTER_PREFIX"
  by (simp add: reserved_errors_def)

lemma node_id_Some: "node_id n = Some nid \<longleftrightarrow>
    (\<exists>d. n = JDict d \<and> dict_get d ''id'' = JStr nid \<and> nid \<noteq> [])"
  by (cases n) (auto simp: node_id_def nonempty_str_iff)

lemma node_errors_Nil: "node_errors render active n = Inr [] \<longleftrightarrow> node_ok render active n"
proof (cases "node_id n")
  case None
  then have "\<not> node_ok render active n" using node_id_Some[of n] by (auto simp: node_ok_def)
  with None show ?thesis by (simp add: node_errors_def)
next
  case (Some nid)
  then obtain d where "n = JDict d" "dict_get d ''id'' = JStr nid" "nid \<noteq> []"
    by (auto simp: node_id_Some)
  with Some show ?thesis
    by (auto simp: node_errors_def node_ok_def bind_r_Inr node_type_errors_Nil reserved_errors_Nil)
qed

lemma duplicate_errors_Nil:
  "duplicate_errors seen nids = [] \<longleftrightarrow> distinct nids \<and> set nids \<inter> set seen = {}"
  by (induction nids arbitrary: seen) auto

lemma check_in_split: "bind_r (check_in v names) f = Inr r \<longleftrightarrow>
    hashable v \<and> f (v \<in> JStr ` set names) = Inr r"
  by (simp add: check_in_def)

lemma hashable_name: "v \<in> JStr ` S \<Longrightarrow> hashable v"
  by auto

lemma edge_errors_Nil: "edge_errors known e = Inr [] \<longleftrightarrow> edge_ok known e"
proof (cases "edge_ends e")
  case None
  then show ?thesis by (simp add: edge_errors_def edge_ok_def)
next
  case (Some p)
  obtain src dst where p: "p = (src, dst)" by (cases p)
  have "edge_errors known e = Inr [] \<longleftrightarrow>
      edge_on e \<in> JStr ` {''success'', ''error''}
      \<and> (src = JStr START \<or> src \<in> JStr ` set known) \<and> (dst = JStr END \<or> dst \<in> JStr ` set known)
      \<and> src \<noteq> JStr END \<and> dst \<noteq> JStr START"
    unfolding edge_errors_def Some p
    by (cases "src = JStr START"; cases "dst = JStr END")
       (simp_all add: check_in_split, (meson hashable_name)+)
  also have "\<dots> \<longleftrightarrow> edge_ok known e"
    unfolding edge_ok_def Some p by (cases src; cases dst) auto
  finally show ?thesis .
qed

lemma distinct_iff_count: "distinct xs \<longleftrightarrow> (\<forall>x. count_list xs x \<le> 1)"
proof (induction xs)
  case (Cons a xs)
  have "a \<notin> set xs \<longleftrightarrow> count_list xs a = 0" by (simp add: count_list_0_iff)
  with Cons show ?case by (auto simp: le_Suc_eq)
qed simp

lemma error_count_errors_Nil: "error_count_errors edges = [] \<longleftrightarrow> distinct (error_sources edges)"
proof -
  have "error_count_errors edges = [] \<longleftrightarrow>
      (\<forall>s \<in> set (error_sources edges). count_list (error_sources edges) s \<le> 1)"
    by (auto simp: error_count_errors_def Let_def filter_empty_conv not_less)
  also have "\<dots> \<longleftrightarrow> distinct (error_sources edges)"
    unfolding distinct_iff_count
    by (metis count_notin le0)
  finally show ?thesis .
qed

text \<open>
  With valid edges no cycle can pass START or END, so the search over the inner nodes decides
  acyclicity of the whole edge relation.
\<close>

lemma edge_pairs_cases:
  assumes "\<forall>e \<in> set edges. edge_ok known e" and "(u, v) \<in> set (edge_pairs edges)"
  shows "\<exists>src dst. u = JStr src \<and> v = JStr dst \<and> (src = START \<or> src \<in> set known)
    \<and> (dst = END \<or> dst \<in> set known) \<and> src \<noteq> END \<and> dst \<noteq> START"
proof -
  from assms(2) obtain e s d where "e \<in> set edges" "edge_ends e = Some (s, d)"
    "u = hash_key s" "v = hash_key d"
    by (auto simp: edge_pairs_def List.map_filter_def)
  with assms(1) show ?thesis by (force simp: edge_ok_def)
qed

lemma inner_cycle_iff:
  assumes ok: "\<forall>e \<in> set edges. edge_ok nids e"
  defines "inner \<equiv> filter (\<lambda>n. n \<noteq> JStr START \<and> n \<noteq> JStr END) (map JStr (remdups nids))"
  shows "(\<exists>c. (c, c) \<in> (arcs (succs (edge_pairs edges)) inner)\<^sup>+)
    \<longleftrightarrow> \<not> acyclic (set (edge_pairs edges))"
proof
  let ?E = "set (edge_pairs edges)" and ?R = "arcs (succs (edge_pairs edges)) inner"
  have "?R \<subseteq> ?E" by (auto simp: arcs_def set_succs)
  then show "\<exists>c. (c, c) \<in> ?R\<^sup>+ \<Longrightarrow> \<not> acyclic ?E"
    by (auto simp: acyclic_def intro: trancl_mono)
  have arcI: "(u, v) \<in> ?R" if "(u, v) \<in> ?E" "v \<in> Domain ?E" for u v
  proof -
    from that(2) obtain w where "(v, w) \<in> ?E" by auto
    with edge_pairs_cases[OF ok that(1)] edge_pairs_cases[OF ok this]
    have "v \<in> set inner" by (auto simp: inner_def)
    with that(1) show ?thesis by (simp add: arcs_def set_succs)
  qed
  have lift: "(a, b) \<in> ?R\<^sup>+" if "(a, b) \<in> ?E\<^sup>+" "b \<in> Domain ?E" for a b
    using that
  proof (induction rule: trancl_induct)
    case (base y)
    then show ?case using arcI by blast
  next
    case (step y z)
    then have "(a, y) \<in> ?R\<^sup>+" by blast
    moreover have "(y, z) \<in> ?R" using step.hyps step.prems arcI by blast
    ultimately show ?case by (rule trancl_into_trancl)
  qed
  assume "\<not> acyclic ?E"
  then obtain c where c: "(c, c) \<in> ?E\<^sup>+" by (auto simp: acyclic_def)
  then have "c \<in> Domain ?E" by (metis DomainI tranclD)
  with c lift show "\<exists>c. (c, c) \<in> ?R\<^sup>+" by blast
qed

lemma graph_errors_Nil:
  assumes "\<forall>e \<in> set edges. edge_ok nids e"
  shows "graph_errors nids edges = [] \<longleftrightarrow> start_edges edges = 1
    \<and> distinct (error_sources edges) \<and> acyclic (set (edge_pairs edges))
    \<and> (JStr START, JStr END) \<in> (set (edge_pairs edges))\<^sup>+"
  using inner_cycle_iff[OF assms]
  by (auto simp: graph_errors_def Let_def error_count_errors_Nil search_cycle_correct
      reachable_nodes_correct)

lemma list_items_JList: "list_items v \<noteq> [] \<longleftrightarrow> (\<exists>xs. v = JList xs \<and> xs \<noteq> [])"
  by (cases v) (auto simp: list_items_def)

lemma validate_workflow_ok_iff:
  "validate_workflow render v active = Inr [] \<longleftrightarrow>
     (\<exists>w. v = JDict w \<and> workflow_ok render active w)"
proof (cases v)
  case (JDict w)
  let ?nodes = "list_items (dict_get w ''nodes'')" and ?edges = "list_items (dict_get w ''edges'')"
  have "validate_workflow render v active = Inr [] \<longleftrightarrow>
      ?nodes \<noteq> [] \<and> ?edges \<noteq> [] \<and> (\<forall>n \<in> set ?nodes. node_ok render active n)
      \<and> distinct (node_ids ?nodes) \<and> (\<forall>e \<in> set ?edges. edge_ok (node_ids ?nodes) e)
      \<and> graph_errors (node_ids ?nodes) ?edges = []"
    by (auto simp: JDict validate_workflow_def Let_def bind_r_Inr duplicate_errors_Nil
        collect_r_Nil_iff[symmetric] node_errors_Nil[symmetric] edge_errors_Nil[symmetric])
  also have "\<dots> \<longleftrightarrow> workflow_ok render active w"
    unfolding workflow_ok_def list_items_JList
    by (auto simp: graph_errors_Nil list_items_def)
  finally show ?thesis by (simp add: JDict)
qed (simp_all add: validate_workflow_def)

text \<open>
  C1: the validator returns the empty error list on exactly the workflows that satisfy the
  declarative contract: unique, unreserved node ids, skill nodes bound to active skills, well
  formed gates, edges between known nodes, one START edge, at most one error edge per node, an
  acyclic edge relation and a path from START to END.
\<close>

theorem validate_workflow_iff:
  "validate_workflow render v active = Inr [] \<longleftrightarrow>
     (\<exists>w. v = JDict w \<and> workflow_ok render active w)"
  by (rule validate_workflow_ok_iff)

end
