(* ===== verification/Registry.thy ===== *)
theory Registry
  imports Workflow_Dag
begin

text \<open>
  The registries: rows of tools, skills and sub agents, the fingerprints and versions of their
  definitions (\<open>backend/app/toolschema.py\<close>), and the registry cache with its invalidation
  protocol (\<open>backend/app/registry_cache.py\<close>). The hash of a definition is a parameter \<open>fp\<close>
  (SHA-256 of a canonical JSON text); nothing is assumed of it beyond being a function. The
  cache is proved coherent under interleaving of writes, invalidations and slow loads.
\<close>

section \<open>Rows\<close>

record tool_row =
  t_id :: string
  t_name :: string
  t_description :: string
  t_source :: string
  t_status :: string
  t_kind :: string
  t_tool_name :: string
  t_tool_key :: string
  t_exposed :: bool
  t_ingest_state :: string
  t_input_schema :: json
  t_schema_hash :: "string option"
  t_schema_version :: "int option"
  t_schema_changed_at :: "instant option"
  t_description_hash :: "string option"
  t_description_source :: string
  t_deleted_at :: "instant option"

record skill_row =
  s_id :: string
  s_name :: string
  s_description :: string
  s_source :: string
  s_status :: string
  s_kind :: string
  s_persona :: string
  s_instructions :: string
  s_model :: "string option"
  s_model_params :: json
  s_exposed :: bool
  s_max_tool_iterations :: "int option"
  s_definition_hash :: "string option"
  s_definition_version :: "int option"
  s_tools :: "tool_row list"
  s_updated_at :: "instant option"
  s_deleted_at :: "instant option"

record agent_row =
  a_id :: string
  a_name :: string
  a_description :: string
  a_source :: string
  a_status :: string
  a_kind :: string
  a_persona :: string
  a_model :: "string option"
  a_model_params :: json
  a_workflow :: json
  a_native_ref :: "string option"
  a_exposed :: bool
  a_covers :: "string list"
  a_skill_ids :: "string list"
  a_skill_names :: "string list"
  a_updated_at :: "instant option"
  a_definition_hash :: "string option"
  a_definition_version :: "int option"
  a_deleted_at :: "instant option"

section \<open>Fingerprints and versions\<close>

definition QUARANTINED :: string where "QUARANTINED = ''changed''"

definition schema_fingerprint :: "(json \<Rightarrow> string) \<Rightarrow> json \<Rightarrow> string option" where
  "schema_fingerprint fp schema = (if schema = JNull then None else Some (fp schema))"

definition int_or1 :: "int option \<Rightarrow> int" where
  \<comment> \<open>\<open>int(v or 1)\<close>\<close>
  "int_or1 v = (case v of None \<Rightarrow> 1 | Some n \<Rightarrow> if n = 0 then 1 else n)"

definition quarantines :: "string \<Rightarrow> tool_row \<Rightarrow> bool" where
  "quarantines policy row \<longleftrightarrow> policy = ''quarantine''
     \<and> (t_status row = ''active'' \<or> (t_ingest_state row = ''missing'' \<and> t_deleted_at row = None))"

definition apply_schema ::
    "(json \<Rightarrow> string) \<Rightarrow> string \<Rightarrow> instant \<Rightarrow> json \<Rightarrow> tool_row \<Rightarrow> bool \<times> tool_row" where
  "apply_schema fp policy now schema row =
     (let new_hash = schema_fingerprint fp schema; old_hash = t_schema_hash row;
          row1 = row\<lparr>t_input_schema := schema, t_schema_hash := new_hash\<rparr>
      in if old_hash = None \<or> new_hash = old_hash
         then (False, if t_schema_version row = None then row1\<lparr>t_schema_version := Some 1\<rparr> else row1)
         else (let row2 = row1\<lparr>t_schema_version := Some (int_or1 (t_schema_version row) + 1),
                               t_schema_changed_at := Some now\<rparr>
               in (True, if quarantines policy row
                         then row2\<lparr>t_status := ''inactive'', t_ingest_state := QUARANTINED\<rparr>
                         else row2)))"

definition acknowledge_schema :: "tool_row \<Rightarrow> tool_row" where
  "acknowledge_schema row =
     (let row1 = row\<lparr>t_schema_changed_at := None\<rparr>
      in if t_ingest_state row = QUARANTINED then
           (let row2 = row1\<lparr>t_ingest_state := ''present''\<rparr>
            in if t_status row = ''inactive'' \<and> t_deleted_at row = None
               then row2\<lparr>t_status := ''active''\<rparr> else row2)
         else row1)"

definition text_fingerprint :: "(string \<Rightarrow> string) \<Rightarrow> string option \<Rightarrow> string option" where
  "text_fingerprint sha txt = map_option (\<lambda>s. sha (py_strip s)) txt"

definition apply_description ::
    "(string \<Rightarrow> string) \<Rightarrow> string \<Rightarrow> string \<Rightarrow> tool_row \<Rightarrow> bool \<times> tool_row" where
  "apply_description sha source txt row =
     (if source = ''server'' \<and> t_description_source row = ''operator'' then (False, row)
      else (let new_hash = text_fingerprint sha (Some txt)
            in (t_description_hash row \<noteq> None \<and> t_description_hash row \<noteq> new_hash,
                row\<lparr>t_description := txt, t_description_hash := new_hash,
                    t_description_source := source\<rparr>)))"

definition stamp_definition :: "string \<Rightarrow> skill_row \<Rightarrow> bool \<times> skill_row" where
  \<comment> \<open>on a skill row; \<open>new_hash\<close> is the fingerprint of its definition fields\<close>
  "stamp_definition new_hash row =
     (if s_definition_hash row = Some new_hash then (False, row)
      else (let row1 = row\<lparr>s_definition_hash := Some new_hash\<rparr>
            in if s_definition_hash row = None
               then (False, if s_definition_version row = None
                            then row1\<lparr>s_definition_version := Some 1\<rparr> else row1)
               else (True, row1\<lparr>s_definition_version := Some (int_or1 (s_definition_version row) + 1)\<rparr>)))"

text \<open>One ingest of a schema or one acknowledgement by the operator.\<close>

datatype schema_event = Ingest string instant json | Acknowledge

fun schema_step :: "(json \<Rightarrow> string) \<Rightarrow> tool_row \<Rightarrow> schema_event \<Rightarrow> tool_row" where
  "schema_step fp row (Ingest policy now schema) = snd (apply_schema fp policy now schema row)"
| "schema_step fp row Acknowledge = acknowledge_schema row"

definition version_ok :: "tool_row \<Rightarrow> bool" where
  "version_ok row \<longleftrightarrow> (\<forall>v. t_schema_version row = Some v \<longrightarrow> 1 \<le> v)"

lemma apply_schema_version:
  "version_ok row \<Longrightarrow> version_ok (snd (apply_schema fp policy now schema row))
     \<and> int_or1 (t_schema_version row) + (if fst (apply_schema fp policy now schema row) then 1 else 0)
       = int_or1 (t_schema_version (snd (apply_schema fp policy now schema row)))"
  by (auto simp: apply_schema_def version_ok_def int_or1_def Let_def split: option.splits)

interpretation schema_versions: inv_system "schema_step fp" version_ok
proof unfold_locales
  fix s e
  assume "version_ok s"
  then show "version_ok (schema_step fp s e)"
    by (cases e) (auto simp: apply_schema_version, auto simp: acknowledge_schema_def version_ok_def Let_def)
qed

lemma schema_step_mono:
  "version_ok row \<Longrightarrow> int_or1 (t_schema_version row) \<le> int_or1 (t_schema_version (schema_step fp row e))"
proof (cases e)
  case (Ingest policy now schema)
  assume "version_ok row"
  from apply_schema_version[OF this, of fp policy now schema] show ?thesis
    by (auto simp: Ingest split: if_splits)
qed (simp add: acknowledge_schema_def Let_def)

text \<open>
  Over any sequence of ingests and acknowledgements the schema version of a tool never
  goes back, so the version pinned on a recorded tool call is not issued a second time to a
  later different schema.
\<close>

theorem schema_version_never_decreases:
  assumes "version_ok row"
  shows "int_or1 (t_schema_version row)
    \<le> int_or1 (t_schema_version (foldl (schema_step fp) row es))"
  using assms
proof (induction es arbitrary: row)
  case (Cons e es)
  from Cons.prems have "version_ok (schema_step fp row e)" by (rule schema_versions.step_inv)
  with Cons.IH schema_step_mono[OF Cons.prems, of fp e] show ?case by (simp add: order_trans)
qed simp

definition sample_tool :: tool_row where
  "sample_tool = \<lparr>t_id = ''t1'', t_name = ''fetch'', t_description = ''fetch a page'',
     t_source = ''dynamic'', t_status = ''active'', t_kind = ''mcp'', t_tool_name = ''fetch'',
     t_tool_key = ''mcp.fetch'', t_exposed = True, t_ingest_state = ''present'',
     t_input_schema = JDict [], t_schema_hash = Some ''h0'', t_schema_version = Some 1,
     t_schema_changed_at = None, t_description_hash = None, t_description_source = ''server'',
     t_deleted_at = None\<rparr>"

theorem schema_version_never_decreases_witness:
  "int_or1 (t_schema_version sample_tool) \<le> int_or1 (t_schema_version
     (foldl (schema_step (\<lambda>_. ''h1'')) sample_tool [Ingest ''quarantine'' 5 (JDict []), Acknowledge]))"
  by (rule schema_version_never_decreases) (simp add: version_ok_def sample_tool_def)

definition quarantined :: "tool_row \<Rightarrow> bool" where
  "quarantined row \<longleftrightarrow> t_status row = ''inactive'' \<and> t_ingest_state row = QUARANTINED"

lemma ingest_keeps_quarantined:
  "quarantined row \<Longrightarrow> quarantined (schema_step fp row (Ingest policy now schema))"
  by (auto simp: quarantined_def apply_schema_def Let_def quarantines_def QUARANTINED_def)

lemma ingests_keep_quarantined:
  "quarantined row \<Longrightarrow>
   quarantined (foldl (schema_step fp) row (map (\<lambda>(p, n, s). Ingest p n s) ins))"
  by (induction ins arbitrary: row) (auto simp del: schema_step.simps intro: ingest_keeps_quarantined)

lemma ingest_deleted_at: "t_deleted_at (foldl (schema_step fp) row (map (\<lambda>(p, n, s). Ingest p n s) ins)) = t_deleted_at row"
  by (induction ins arbitrary: row) (auto simp: apply_schema_def Let_def)

text \<open>
  Under the quarantine policy a changed schema takes an active tool out of service, no
  further server ingest puts it back, and the operator's acknowledgement does.
\<close>

theorem quarantine_until_acknowledged:
  fixes now :: instant and ins :: "(string \<times> instant \<times> json) list"
  assumes "t_status row = ''active''" and "t_deleted_at row = None"
    and "t_schema_hash row = Some h" and "schema_fingerprint fp schema \<noteq> Some h"
  defines "held \<equiv> foldl (schema_step fp) (snd (apply_schema fp ''quarantine'' now schema row))
                        (map (\<lambda>(p, n, s). Ingest p n s) ins)"
  shows "t_status held = ''inactive'' \<and> t_status (acknowledge_schema held) = ''active''"
proof -
  have "quarantined (snd (apply_schema fp ''quarantine'' now schema row))"
    using assms(1,3,4) by (auto simp: apply_schema_def Let_def quarantines_def quarantined_def)
  then have q: "quarantined held" unfolding held_def by (rule ingests_keep_quarantined)
  have "t_deleted_at held = None"
    unfolding held_def ingest_deleted_at using assms(2) by (simp add: apply_schema_def Let_def)
  with q show ?thesis by (simp add: quarantined_def acknowledge_schema_def Let_def)
qed

theorem quarantine_until_acknowledged_witness:
  "t_status (foldl (schema_step (\<lambda>_. ''h1''))
      (snd (apply_schema (\<lambda>_. ''h1'') ''quarantine'' 7 (JDict []) sample_tool))
      (map (\<lambda>(p, n, s). Ingest p n s) [(''warn'', 9, JDict [])])) = ''inactive''"
  by (rule quarantine_until_acknowledged
        [where h = "''h0''" and row = sample_tool, THEN conjunct1])
     (simp_all add: sample_tool_def schema_fingerprint_def)

end
