(* ===== verification/Registry_Cache.thy ===== *)
theory Registry_Cache
  imports Registry
begin

text \<open>
  The registry cache (\<open>backend/app/registry_cache.py\<close>): dirty flags and generations with the
  dependency propagation of \<open>_mark_registries\<close>, the two halves of a read-through load (\<open>_ensure\<close> in
  memory mode: the generation is read before the load, the dirty flag is cleared only if it is
  unchanged after it), the typed reads, and the coherence protocol: writes to Postgres, local
  invalidations and loads interleave in any order.
\<close>

section \<open>State\<close>

datatype registry = Tools | Skills | Sub_Agents | Settings_Reg

instantiation registry :: finite
begin

instance
proof
  have "(UNIV :: registry set) = {Tools, Skills, Sub_Agents, Settings_Reg}"
    by (auto intro: registry.exhaust)
  then show "finite (UNIV :: registry set)" by (rule ssubst) simp
qed

end

datatype cache_mode = Bypass | Memory | Redis

record 'd cache =
  c_mode :: cache_mode
  c_data :: "registry \<Rightarrow> 'd option"
  c_generation :: "registry \<Rightarrow> nat"
  c_dirty :: "registry \<Rightarrow> bool"
  c_loaded_mono :: "registry \<Rightarrow> int option"

definition empty_cache :: "'d cache" where
  "empty_cache = \<lparr>c_mode = Bypass, c_data = (\<lambda>_. None), c_generation = (\<lambda>_. 0),
     c_dirty = (\<lambda>_. True), c_loaded_mono = (\<lambda>_. None)\<rparr>"

section \<open>Invalidation\<close>

fun dependents :: "registry \<Rightarrow> registry list" where
  "dependents Tools = [Skills]"
| "dependents Skills = [Sub_Agents]"
| "dependents Sub_Agents = []"
| "dependents Settings_Reg = []"

function mark_loop :: "registry list \<Rightarrow> registry list \<Rightarrow> registry list" where
  \<comment> \<open>the queue is popped at its end; the result lists the registries marked\<close>
  "mark_loop queue seen =
     (if queue = [] then seen
      else if last queue \<in> set seen then mark_loop (butlast queue) seen
      else mark_loop (butlast queue @ dependents (last queue)) (seen @ [last queue]))"
  by pat_completeness auto

lemma length_dependents: "length (dependents r) \<le> 1"
  by (cases r) auto

termination mark_loop
proof (relation "measure (\<lambda>(queue, seen). length queue + 2 * card (UNIV - set seen))", goal_cases)
  case 1
  then show ?case by simp
next
  case (2 queue seen)
  then show ?case by simp
next
  case (3 queue seen)
  then have "card (UNIV - set (seen @ [last queue])) < card (UNIV - set seen)"
    by (intro psubset_card_mono) auto
  moreover have "0 < length queue" using 3 by simp
  ultimately have "length (butlast queue @ dependents (last queue))
      + 2 * card (UNIV - set (seen @ [last queue])) < length queue + 2 * card (UNIV - set seen)"
    using length_dependents[of "last queue"] unfolding length_append length_butlast by linarith
  then show ?case by simp
qed

declare mark_loop.simps [simp del]

definition affected :: "registry \<Rightarrow> registry list" where
  "affected r = mark_loop [r] []"

lemma affected_eval [simp]:
  "affected Tools = [Tools, Skills, Sub_Agents]"
  "affected Skills = [Skills, Sub_Agents]"
  "affected Sub_Agents = [Sub_Agents]"
  "affected Settings_Reg = [Settings_Reg]"
  by (simp_all add: affected_def mark_loop.simps)

definition bump :: "'d cache \<Rightarrow> registry \<Rightarrow> 'd cache" where
  "bump c r = c\<lparr>c_generation := (c_generation c)(r := c_generation c r + 1),
                c_dirty := (c_dirty c)(r := True)\<rparr>"

definition mark_registries :: "registry \<Rightarrow> 'd cache \<Rightarrow> 'd cache" where
  "mark_registries r c = foldl bump c (affected r)"

definition set_mode :: "cache_mode \<Rightarrow> 'd cache \<Rightarrow> 'd cache" where
  \<comment> \<open>a live mode flip: everything is stale; the warm loads that follow in memory mode are
      ordinary loads\<close>
  "set_mode m c = (if m = c_mode c then c else c\<lparr>c_mode := m, c_dirty := (\<lambda>_. True)\<rparr>)"

definition mark_dirty :: "cache_mode \<Rightarrow> registry \<Rightarrow> 'd cache \<Rightarrow> 'd cache" where
  \<comment> \<open>\<open>db_mode\<close> is the \<open>registry_cache_mode\<close> setting as Postgres has it\<close>
  "mark_dirty db_mode r c =
     (if r = Settings_Reg then set_mode db_mode (mark_registries r c) else mark_registries r c)"

definition mark_all_dirty :: "cache_mode \<Rightarrow> 'd cache \<Rightarrow> 'd cache" where
  "mark_all_dirty db_mode c =
     foldl (\<lambda>c r. mark_dirty db_mode r c) c [Tools, Skills, Sub_Agents, Settings_Reg]"

definition peer_notification ::
    "string \<Rightarrow> (string \<times> registry option) \<Rightarrow> cache_mode \<Rightarrow> 'd cache \<Rightarrow> 'd cache" where
  \<comment> \<open>\<open>_on_notify\<close>: a notification of this process or for an unknown registry is ignored\<close>
  "peer_notification own msg db_mode c = (case msg of
       (origin, None) \<Rightarrow> c
     | (origin, Some r) \<Rightarrow> if origin = own then c else mark_dirty db_mode r c)"

lemma self_affected [simp]: "r \<in> set (affected r)"
  by (cases r) auto

lemma mark_registries_fields [simp]:
  "c_data (mark_registries r c) = c_data c"
  "c_loaded_mono (mark_registries r c) = c_loaded_mono c"
  "c_mode (mark_registries r c) = c_mode c"
  by (cases r; simp add: mark_registries_def bump_def)+

lemma mark_registries_dirty [simp]:
  "c_dirty (mark_registries r c) q \<longleftrightarrow> q \<in> set (affected r) \<or> c_dirty c q"
  by (cases r) (auto simp: mark_registries_def bump_def)

lemma mark_registries_generation:
  "c_generation (mark_registries r c) q = c_generation c q + (if q \<in> set (affected r) then 1 else 0)"
  by (cases r) (auto simp: mark_registries_def bump_def)

section \<open>Reads\<close>

definition needs_load :: "int \<Rightarrow> int \<Rightarrow> bool \<Rightarrow> registry \<Rightarrow> 'd cache \<Rightarrow> bool" where
  "needs_load ttl now force r c \<longleftrightarrow> force \<or> c_dirty c r \<or> c_data c r = None
     \<or> (case c_loaded_mono c r of None \<Rightarrow> True | Some t \<Rightarrow> ttl \<le> now - t)"

definition finish_load :: "int \<Rightarrow> nat \<Rightarrow> 'd \<Rightarrow> registry \<Rightarrow> 'd cache \<Rightarrow> 'd cache" where
  "finish_load now generation data r c =
     (let c1 = c\<lparr>c_data := (c_data c)(r := Some data),
                 c_loaded_mono := (c_loaded_mono c)(r := Some now)\<rparr>
      in if c_generation c r = generation then c1\<lparr>c_dirty := (c_dirty c)(r := False)\<rparr> else c1)"

definition ensure_memory ::
    "(registry \<Rightarrow> 'd) \<Rightarrow> int \<Rightarrow> int \<Rightarrow> bool \<Rightarrow> registry \<Rightarrow> 'd cache \<Rightarrow> 'd \<times> 'd cache" where
  \<comment> \<open>\<open>_ensure\<close> in bypass and memory mode, with nothing landing during the load\<close>
  "ensure_memory db ttl now force r c =
     (if c_mode c = Bypass then (db r, c)
      else (let c1 = (if needs_load ttl now force r c
                      then finish_load now (c_generation c r) (db r) r c else c)
            in (case c_data c1 r of Some d \<Rightarrow> (d, c1) | None \<Rightarrow> (db r, c1))))"

lemma ensure_memory_data: "c_mode c \<noteq> Bypass \<Longrightarrow>
    c_data (snd (ensure_memory db ttl now force r c)) r \<noteq> None"
  by (auto simp: ensure_memory_def needs_load_def finish_load_def Let_def split: option.splits)

definition ensure_redis ::
    "(registry \<Rightarrow> 'd) \<Rightarrow> bool \<Rightarrow> int \<Rightarrow> bool \<Rightarrow> registry \<Rightarrow> (registry \<Rightarrow> 'd option) \<times> 'd cache
       \<Rightarrow> 'd \<times> (registry \<Rightarrow> 'd option) \<times> 'd cache" where
  \<comment> \<open>\<open>_ensure\<close> in redis mode, with nothing landing during the load: \<open>blobs\<close> is what Redis
      holds, \<open>up\<close> whether its calls succeed\<close>
  "ensure_redis db up now force r bc = (case bc of (blobs, c) \<Rightarrow>
     if \<not> up then (db r, blobs, c)
     else (case (if force then None else blobs r) of
         Some d \<Rightarrow> (d, blobs, c)
       | None \<Rightarrow> (db r, blobs(r := Some (db r)), finish_load now (c_generation c r) (db r) r c)))"

definition redis_invalidate ::
    "bool \<Rightarrow> registry \<Rightarrow> (registry \<Rightarrow> 'd option) \<times> 'd cache \<Rightarrow> (registry \<Rightarrow> 'd option) \<times> 'd cache" where
  \<comment> \<open>the same queue loop, with the best-effort delete of each blob\<close>
  "redis_invalidate up r bc = (case bc of (blobs, c) \<Rightarrow>
     (\<lambda>q. if up \<and> q \<in> set (affected r) then None else blobs q, mark_registries r c))"

lemma ensure_redis_fails_open: "\<not> up \<Longrightarrow> ensure_redis db up now force r (blobs, c) = (db r, blobs, c)"
  by (simp add: ensure_redis_def)

lemma redis_read_after_invalidate:
  assumes "up" and "q \<in> set (affected r)"
  shows "fst (ensure_redis db up now force q (redis_invalidate up r (blobs, c))) = db q"
  using assms by (simp add: ensure_redis_def redis_invalidate_def)

definition refresh ::
    "(registry \<Rightarrow> 'd) \<Rightarrow> cache_mode \<Rightarrow> int \<Rightarrow> int \<Rightarrow> registry \<Rightarrow> 'd cache \<Rightarrow> 'd \<times> 'd cache" where
  \<comment> \<open>operator-forced reload; the warm loads of a flip to memory mode come first\<close>
  "refresh db db_mode ttl now r c = ensure_memory db ttl now True r (mark_dirty db_mode r c)"

lemma refresh_current: "c_mode (mark_dirty db_mode r c) \<noteq> Redis \<Longrightarrow>
    fst (refresh db db_mode ttl now r c) = db r"
  by (simp add: refresh_def ensure_memory_def needs_load_def finish_load_def Let_def)

definition cached_tools :: "bool \<Rightarrow> tool_row list \<Rightarrow> tool_row list" where
  "cached_tools exposed_only rows =
     filter (\<lambda>t. t_status t = ''active'' \<and> (t_exposed t \<or> \<not> exposed_only)) rows"

definition tools_by_ids :: "tool_row list \<Rightarrow> string list \<Rightarrow> tool_row list" where
  \<comment> \<open>the dict comprehension keeps the last active row of an id\<close>
  "tools_by_ids rows ids = List.map_filter
     (\<lambda>i. find (\<lambda>t. t_id t = i) (rev (filter (\<lambda>t. t_status t = ''active'') rows))) ids"

definition tool_by_id :: "tool_row list \<Rightarrow> string \<Rightarrow> tool_row option" where
  "tool_by_id rows i = find (\<lambda>t. t_id t = i) rows"

definition cached_skills :: "bool \<Rightarrow> skill_row list \<Rightarrow> skill_row list" where
  "cached_skills exposed_only rows =
     filter (\<lambda>s. s_status s = ''active'' \<and> (s_exposed s \<or> \<not> exposed_only)) rows"

definition skill_by_id :: "skill_row list \<Rightarrow> string \<Rightarrow> skill_row option" where
  "skill_by_id rows i = find (\<lambda>s. s_id s = i) rows"

definition active_agents :: "agent_row list \<Rightarrow> agent_row list" where
  "active_agents rows = filter (\<lambda>a. a_status a = ''active'') rows"

definition agent_by_id :: "agent_row list \<Rightarrow> string \<Rightarrow> agent_row option" where
  "agent_by_id rows i = find (\<lambda>a. a_id a = i) rows"

definition sub_agent_snapshot ::
    "skill_row list \<Rightarrow> agent_row list \<Rightarrow> string \<Rightarrow> (agent_row \<times> pydict \<times> (string \<times> skill_row) list) option" where
  \<comment> \<open>the agent, its workflow and the snapshots of the skills its skill nodes name, read from
      the cached registries; the skills dict keeps the first position of a repeated id\<close>
  "sub_agent_snapshot skills agents i = (case agent_by_id agents i of
       None \<Rightarrow> None
     | Some a \<Rightarrow>
         (let workflow = as_dict (a_workflow a);
              sids = List.map_filter (\<lambda>n. if dict_get (as_dict n) ''type'' = JStr ''skill''
                                         \<and> truthy (dict_get (as_dict n) ''skill_id'')
                                      then Some (as_str (dict_get (as_dict n) ''skill_id'')) else None)
                       (list_items (dict_get workflow ''nodes''))
          in Some (a, workflow,
               List.map_filter (\<lambda>sid. map_option (\<lambda>s. (sid, s)) (skill_by_id skills sid))
                 (rev (remdups (rev sids))))))"

lemma skill_by_id_Some: "skill_by_id rows i = Some s \<Longrightarrow> s_id s = i \<and> s \<in> set rows"
  by (auto simp: skill_by_id_def dest: find_Some_in)

lemma agent_by_id_Some: "agent_by_id rows i = Some a \<Longrightarrow> a_id a = i \<and> a \<in> set rows"
  by (auto simp: agent_by_id_def dest: find_Some_in)

lemma sub_agent_snapshot_ids:
  assumes "sub_agent_snapshot skills agents i = Some (a, w, snaps)"
  shows "a_id a = i \<and> (\<forall>(sid, s) \<in> set snaps. s_id s = sid \<and> s \<in> set skills)"
  using assms
  by (auto simp: sub_agent_snapshot_def Let_def in_map_filter
      dest!: skill_by_id_Some agent_by_id_Some split: option.splits)

lemma tools_by_ids_active: "t \<in> set (tools_by_ids rows ids) \<Longrightarrow>
    t_status t = ''active'' \<and> t_id t \<in> set ids \<and> t \<in> set rows"
proof -
  assume "t \<in> set (tools_by_ids rows ids)"
  then obtain i where "i \<in> set ids"
    and f: "find (\<lambda>t. t_id t = i) (rev (filter (\<lambda>t. t_status t = ''active'') rows)) = Some t"
    by (auto simp: tools_by_ids_def List.map_filter_def)
  then show ?thesis
    using find_Some_in [OF f] by auto
qed

section \<open>Coherence\<close>

text \<open>
  \<open>co_pending\<close> lists the writes committed to Postgres whose invalidation has not run yet; a write
  to a registry may change the records of every registry that embeds it. \<open>co_loading\<close> holds the
  generation seen at the start of the load in progress (at most one per registry, under its
  lock) and, once the query has run, what it returned.
\<close>

record 'd coherence =
  co_db :: "registry \<Rightarrow> 'd"
  co_pending :: "registry list"
  co_cache :: "'d cache"
  co_loading :: "registry \<Rightarrow> (nat \<times> 'd option) option"

inductive coh_step :: "'d coherence \<Rightarrow> 'd coherence \<Rightarrow> bool" where
  db_write: "(\<And>q. q \<notin> set (affected r) \<Longrightarrow> db' q = co_db s q) \<Longrightarrow>
     coh_step s (s\<lparr>co_db := db', co_pending := r # co_pending s\<rparr>)"
| flush_write: "r \<in> set (co_pending s) \<Longrightarrow>
     coh_step s (s\<lparr>co_pending := remove1 r (co_pending s), co_cache := mark_registries r (co_cache s)\<rparr>)"
| peer_flush: "coh_step s (s\<lparr>co_cache := mark_registries r (co_cache s)\<rparr>)"
| mode_flip: "coh_step s (s\<lparr>co_cache := set_mode m (co_cache s)\<rparr>)"
| begin_load: "co_loading s r = None \<Longrightarrow> needs_load ttl now force r (co_cache s) \<Longrightarrow>
     coh_step s (s\<lparr>co_loading := (co_loading s)(r := Some (c_generation (co_cache s) r, None))\<rparr>)"
| run_query: "co_loading s r = Some (g, None) \<Longrightarrow>
     coh_step s (s\<lparr>co_loading := (co_loading s)(r := Some (g, Some (co_db s r)))\<rparr>)"
| end_load: "co_loading s r = Some (g, Some d) \<Longrightarrow>
     coh_step s (s\<lparr>co_loading := (co_loading s)(r := None), co_cache := finish_load now g d r (co_cache s)\<rparr>)"

inductive_cases coh_stepE: "coh_step s t"

definition coh_init :: "(registry \<Rightarrow> 'd) \<Rightarrow> cache_mode \<Rightarrow> 'd coherence" where
  "coh_init d m = \<lparr>co_db = d, co_pending = [], co_cache = empty_cache\<lparr>c_mode := m\<rparr>, co_loading = (\<lambda>_. None)\<rparr>"

inductive coh_reachable :: "'d coherence \<Rightarrow> bool" where
  start: "coh_reachable (coh_init d m)"
| step: "coh_reachable s \<Longrightarrow> coh_step s t \<Longrightarrow> coh_reachable t"

definition unflushed :: "'d coherence \<Rightarrow> registry \<Rightarrow> bool" where
  "unflushed s q \<longleftrightarrow> (\<exists>r \<in> set (co_pending s). q \<in> set (affected r))"

text \<open>
  A clean entry is the database's, unless a write is waiting for its invalidation; a load in
  progress holds the database's records, unless it started before the current generation.
\<close>

definition coh_inv :: "'d coherence \<Rightarrow> bool" where
  "coh_inv s \<longleftrightarrow> (\<forall>q.
     (c_dirty (co_cache s) q \<or> unflushed s q \<or> c_data (co_cache s) q = Some (co_db s q))
     \<and> (\<forall>g od. co_loading s q = Some (g, od) \<longrightarrow> g \<le> c_generation (co_cache s) q
          \<and> (g < c_generation (co_cache s) q \<longrightarrow> c_dirty (co_cache s) q)
          \<and> (\<forall>d. od = Some d \<longrightarrow> g < c_generation (co_cache s) q \<or> unflushed s q \<or> d = co_db s q)))"

lemma coh_inv_write:
  assumes "coh_inv s" and "\<And>q. q \<notin> set (affected r) \<Longrightarrow> db' q = co_db s q"
  shows "coh_inv (s\<lparr>co_db := db', co_pending := r # co_pending s\<rparr>)"
proof -
  have "unflushed (s\<lparr>co_db := db', co_pending := r # co_pending s\<rparr>) q \<longleftrightarrow> q \<in> set (affected r) \<or> unflushed s q" for q
    by (auto simp: unflushed_def)
  with assms show ?thesis by (auto simp: coh_inv_def) metis+
qed

lemma coh_inv_mark:
  assumes "coh_inv s" and p: "\<And>q. unflushed s q \<Longrightarrow> q \<notin> set (affected r) \<Longrightarrow>
      (\<exists>w \<in> set p. q \<in> set (affected w))"
  shows "coh_inv (s\<lparr>co_pending := p, co_cache := mark_registries r (co_cache s)\<rparr>)"
    (is "coh_inv ?t")
  unfolding coh_inv_def
proof (intro allI conjI impI)
  have unfl: "unflushed ?t q" if "unflushed s q" "q \<notin> set (affected r)" for q
    using p[OF that] by (simp add: unflushed_def)
  fix q
  have d: "c_dirty (co_cache s) q \<or> unflushed s q \<or> c_data (co_cache s) q = Some (co_db s q)"
    using assms(1) by (simp add: coh_inv_def)
  then show "c_dirty (co_cache ?t) q \<or> unflushed ?t q \<or> c_data (co_cache ?t) q = Some (co_db ?t q)"
    using unfl[of q] by (cases "q \<in> set (affected r)") auto
  fix g od
  assume l: "co_loading ?t q = Some (g, od)"
  then have le: "g \<le> c_generation (co_cache s) q"
    and gd: "g < c_generation (co_cache s) q \<longrightarrow> c_dirty (co_cache s) q"
    and dd: "\<forall>d. od = Some d \<longrightarrow> g < c_generation (co_cache s) q \<or> unflushed s q \<or> d = co_db s q"
    using assms(1) by (auto simp: coh_inv_def)
  show "g \<le> c_generation (co_cache ?t) q" using le by (simp add: mark_registries_generation)
  show "c_dirty (co_cache ?t) q" if "g < c_generation (co_cache ?t) q"
    using that gd le by (auto simp: mark_registries_generation split: if_splits)
  show "g < c_generation (co_cache ?t) q \<or> unflushed ?t q \<or> d = co_db ?t q" if "od = Some d" for d
    using that dd le unfl[of q] by (cases "q \<in> set (affected r)") (auto simp: mark_registries_generation)
qed

lemma coh_inv_invalidate:
  assumes "coh_inv s"
  shows "coh_inv (s\<lparr>co_pending := remove1 r (co_pending s), co_cache := mark_registries r (co_cache s)\<rparr>)"
  using assms by (rule coh_inv_mark) (auto simp: unflushed_def, metis in_set_remove1)

lemma coh_inv_peer:
  assumes "coh_inv s"
  shows "coh_inv (s\<lparr>co_cache := mark_registries r (co_cache s)\<rparr>)"
proof -
  have "coh_inv (s\<lparr>co_pending := co_pending s, co_cache := mark_registries r (co_cache s)\<rparr>)"
    using assms by (rule coh_inv_mark) (auto simp: unflushed_def)
  then show ?thesis by simp
qed

lemma coh_inv_end_load:
  assumes "coh_inv s" and l: "co_loading s r = Some (g, Some d)"
  shows "coh_inv (s\<lparr>co_loading := (co_loading s)(r := None), co_cache := finish_load now g d r (co_cache s)\<rparr>)"
    (is "coh_inv ?t")
proof -
  have "g \<le> c_generation (co_cache s) r" "g < c_generation (co_cache s) r \<Longrightarrow> c_dirty (co_cache s) r"
    and "g < c_generation (co_cache s) r \<or> unflushed s r \<or> d = co_db s r"
    using assms by (auto simp: coh_inv_def)
  then have "c_dirty (co_cache ?t) r \<or> unflushed ?t r \<or> c_data (co_cache ?t) r = Some (co_db ?t r)"
    by (auto simp: finish_load_def unflushed_def Let_def)
  with assms(1) show ?thesis
    by (auto simp: coh_inv_def finish_load_def unflushed_def Let_def)
qed

lemma coh_step_inv: "coh_step s t \<Longrightarrow> coh_inv s \<Longrightarrow> coh_inv t"
proof (induction rule: coh_step.induct)
  case (db_write r db' s)
  then show ?case by (intro coh_inv_write) auto
next
  case (flush_write r s)
  then show ?case by (intro coh_inv_invalidate)
next
  case (peer_flush s r)
  then show ?case by (intro coh_inv_peer)
next
  case (mode_flip s m)
  then show ?case by (auto simp: coh_inv_def set_mode_def unflushed_def)
next
  case (begin_load s r ttl now force)
  then show ?case by (auto simp: coh_inv_def unflushed_def)
next
  case (run_query s r g)
  then show ?case by (auto simp: coh_inv_def unflushed_def)
next
  case (end_load s r g d now)
  then show ?case by (intro coh_inv_end_load)
qed

lemma coh_reachable_inv: "coh_reachable s \<Longrightarrow> coh_inv s"
proof (induction rule: coh_reachable.induct)
  case (start d m)
  show ?case by (simp add: coh_inv_def coh_init_def empty_cache_def)
next
  case (step s t)
  then show ?case by (blast intro: coh_step_inv)
qed

text \<open>
  C2: in every interleaving of writes, invalidations (local or from a peer), mode flips and slow loads, a
  read that is served from the memory cache without reloading returns what Postgres holds, as
  soon as the invalidation of every write that touches the registry has run. An invalidation
  that lands during a load is never lost, and a write to tools reaches the cached skills and sub
  agents that embed them.
\<close>

theorem cache_serves_current_rows:
  assumes "coh_reachable s" and "\<not> unflushed s r"
    and "\<not> needs_load ttl now force r (co_cache s)" and "c_mode (co_cache s) = Memory"
  shows "fst (ensure_memory stale_db ttl now force r (co_cache s)) = co_db s r"
proof -
  have "\<not> c_dirty (co_cache s) r" using assms(3) by (simp add: needs_load_def)
  with coh_reachable_inv[OF assms(1)] assms(2) have "c_data (co_cache s) r = Some (co_db s r)"
    by (auto simp: coh_inv_def)
  with assms(3,4) show ?thesis by (simp add: ensure_memory_def)
qed

text \<open>One complete read-through load, then a served read.\<close>

definition coh_started :: "int coherence" where
  "coh_started = (coh_init (\<lambda>_. 7) Memory)\<lparr>co_loading := (\<lambda>_. None)(Tools := Some (0, None))\<rparr>"

definition coh_queried :: "int coherence" where
  "coh_queried = coh_started\<lparr>co_loading := (co_loading coh_started)(Tools := Some (0, Some 7))\<rparr>"

definition coh_loaded :: "int coherence" where
  "coh_loaded = coh_queried\<lparr>co_loading := (co_loading coh_queried)(Tools := None),
     co_cache := finish_load 100 0 7 Tools (co_cache coh_queried)\<rparr>"

lemma coh_loaded_reachable: "coh_reachable coh_loaded"
proof -
  have "coh_step (coh_init (\<lambda>_. 7) Memory) coh_started"
    using coh_step.begin_load[of "coh_init (\<lambda>_. 7) Memory" Tools 300 100 False]
    by (simp add: coh_started_def coh_init_def empty_cache_def needs_load_def)
  moreover have "coh_step coh_started coh_queried"
    using coh_step.run_query[of coh_started Tools 0]
    by (simp add: coh_queried_def coh_started_def coh_init_def)
  moreover have "coh_step coh_queried coh_loaded"
    unfolding coh_loaded_def by (rule coh_step.end_load) (simp add: coh_queried_def)
  ultimately show ?thesis by (meson coh_reachable.intros)
qed

theorem cache_serves_current_rows_witness:
  "fst (ensure_memory (\<lambda>_. 8) 300 200 False Tools (co_cache coh_loaded)) = co_db coh_loaded Tools
   \<and> co_db coh_loaded Tools = 7"
proof
  show "fst (ensure_memory (\<lambda>_. 8) 300 200 False Tools (co_cache coh_loaded)) = co_db coh_loaded Tools"
    by (rule cache_serves_current_rows[OF coh_loaded_reachable])
       (simp_all add: coh_loaded_def coh_queried_def coh_started_def coh_init_def empty_cache_def finish_load_def
          unflushed_def needs_load_def Let_def)
  show "co_db coh_loaded Tools = 7" by (simp add: coh_loaded_def coh_queried_def coh_started_def coh_init_def)
qed

end
