(* ===== verification/Worker.thy ===== *)
theory Worker
  imports Registry_Cache
begin

text \<open>
  The worker factory (\<open>backend/app/factory/worker.py\<close>): the worker state and its merge, prompt
  and model resolution, the ephemeral snapshot of a dynamic chain, the three node functions
  (skill, human gate, router) with every return, \<open>build_worker\<close> as the list of calls it makes
  on the graph builder, and the compile cache. What a model, a tool loop or a human answers is an
  argument of the node functions. Node ids and edge ends are strings, as the validator of
  \<open>Workflow_Dag\<close> guarantees for every stored workflow.
\<close>

section \<open>State and prompts\<close>

definition merge_node_outputs :: "pydict option \<Rightarrow> pydict option \<Rightarrow> pydict" where
  "merge_node_outputs a b = dict_merge (case a of None \<Rightarrow> [] | Some d \<Rightarrow> d)
                                       (case b of None \<Rightarrow> [] | Some d \<Rightarrow> d)"

definition tool_char :: "char \<Rightarrow> bool" where
  "tool_char c \<longleftrightarrow> (let n = of_char c :: nat in
     (97 \<le> n \<and> n \<le> 122) \<or> (65 \<le> n \<and> n \<le> 90) \<or> (48 \<le> n \<and> n \<le> 57) \<or> c = CHR ''_'' \<or> c = CHR ''-'')"

definition sanitize_tool_name :: "string \<Rightarrow> string" where
  "sanitize_tool_name key = map (\<lambda>c. if tool_char c then c else CHR ''_'') key"

lemma sanitize_tool_name_chars: "list_all tool_char (sanitize_tool_name key)"
  by (induction key) (auto simp: sanitize_tool_name_def tool_char_def)

lemma sanitize_tool_name_idem: "sanitize_tool_name (sanitize_tool_name key) = sanitize_tool_name key"
  by (induction key) (auto simp: sanitize_tool_name_def tool_char_def)

definition assemble_skill_prompt ::
    "string \<Rightarrow> string \<Rightarrow> string \<Rightarrow> string \<Rightarrow> string option \<Rightarrow> string" where
  \<comment> \<open>\<open>guidance\<close> is the text of the \<open>tool_guidance\<close> prompt file\<close>
  "assemble_skill_prompt guidance agent_persona persona instructions node_instructions =
     join [CHR 0x0A, CHR 0x0A]
       ((if py_strip agent_persona \<noteq> [] then [py_strip agent_persona] else [])
      @ (if py_strip persona \<noteq> [] \<and> py_strip persona \<noteq> py_strip agent_persona
         then [py_strip persona] else [])
      @ (if py_strip instructions \<noteq> [] then [py_strip instructions] else [])
      @ (case node_instructions of
           Some i \<Rightarrow> (if py_strip i \<noteq> []
                     then [''Additional instructions for this step:'' @ [CHR 0x0A] @ py_strip i] else [])
         | None \<Rightarrow> [])
      @ [guidance])"

record model_params =
  mp_effort :: "string option"
  mp_dump :: json

type_synonym agent_head = "string option \<times> json"
  \<comment> \<open>the \<open>model\<close> and \<open>model_params\<close> entries of a snapshot\<close>

definition set_model :: "string option \<Rightarrow> bool" where
  "set_model m \<longleftrightarrow> m \<noteq> None \<and> m \<noteq> Some []"

definition validated_params ::
    "(json \<Rightarrow> string + model_params) \<Rightarrow> json \<Rightarrow> string + model_params option" where
  "validated_params validate raw =
     (if truthy raw then bind_r (validate raw) (\<lambda>p. Inr (Some p)) else Inr None)"

fun resolve_node_model ::
    "(json \<Rightarrow> string + model_params) \<Rightarrow> string option \<Rightarrow> agent_head \<Rightarrow> agent_head list
       \<Rightarrow> string + string \<times> model_params option" where
  \<comment> \<open>\<open>defaults\<close>: the settings; \<open>override\<close>: the ambient run's model\<close>
  "resolve_node_model validate override defaults [] =
     (if set_model override then Inr (the override, None)
      else bind_r (validated_params validate (snd defaults)) (\<lambda>p.
             Inr ((case fst defaults of Some m \<Rightarrow> m | None \<Rightarrow> ''None''), p)))"
| "resolve_node_model validate override defaults ((model, raw) # sources) =
     (if set_model model
      then bind_r (validated_params validate raw) (\<lambda>p. Inr (the model, p))
      else resolve_node_model validate override defaults sources)"

definition max_tool_iterations :: "skill_row option \<Rightarrow> int \<Rightarrow> int" where
  "max_tool_iterations skill setting =
     (case skill of None \<Rightarrow> setting
      | Some s \<Rightarrow> (case s_max_tool_iterations s of
           Some n \<Rightarrow> if n \<noteq> 0 then n else setting | None \<Rightarrow> setting))"

section \<open>Outputs of earlier nodes\<close>

definition is_route_key :: "string \<Rightarrow> bool" where
  "is_route_key k \<longleftrightarrow> starts_with k ''route:''"

definition output_line :: "(json \<Rightarrow> string) \<Rightarrow> pydict \<Rightarrow> string \<Rightarrow> string" where
  "output_line render outs nid =
     (let out = as_dict (dict_get outs nid); status = dict_get out ''status''
      in if status = JStr ''error''
         then ''- step '' @ nid @ '' FAILED: '' @ py_str render (dict_get out ''error'')
         else if status = JStr ''denied''
         then ''- step '' @ nid @ '': denied by human reviewer (''
              @ py_str render (dict_get_or out ''note'' (JStr [])) @ '')''
         else ''- step '' @ nid @ '': '' @ py_str render (dict_get_or out ''output'' (JStr [])))"

definition format_prior_outputs :: "(json \<Rightarrow> string) \<Rightarrow> pydict \<Rightarrow> string" where
  "format_prior_outputs render outs =
     (let lines = map (output_line render outs)
                    (filter (\<lambda>k. \<not> is_route_key k) (sort (map fst outs)))
      in if lines = [] then []
         else ''Outputs of prior workflow steps:'' @ [CHR 0x0A] @ join [CHR 0x0A] lines)"

definition int_of_json :: "json \<Rightarrow> int" where
  "int_of_json v = (case v of JInt i \<Rightarrow> i | JBool b \<Rightarrow> (if b then 1 else 0) | _ \<Rightarrow> 0)"

definition usage_from_messages :: "pydict option list \<Rightarrow> int \<times> int" where
  \<comment> \<open>one entry per message: its \<open>usage_metadata\<close>\<close>
  "usage_from_messages ms =
     (sum_list (map (\<lambda>u. case u of None \<Rightarrow> 0 | Some d \<Rightarrow> int_of_json (dict_get_or d ''input_tokens'' (JInt 0))) ms),
      sum_list (map (\<lambda>u. case u of None \<Rightarrow> 0 | Some d \<Rightarrow> int_of_json (dict_get_or d ''output_tokens'' (JInt 0))) ms))"

lemma merge_lookup:
  "distinct (map fst b) \<Longrightarrow> map_of (merge_node_outputs (Some a) (Some b)) = map_of a ++ map_of b"
  by (simp add: merge_node_outputs_def map_of_dict_merge)

lemma merge_keys: "fst ` set (dict_merge a b) = fst ` set a \<union> fst ` set b"
proof -
  have "fst ` set (dict_set d k v) = insert k (fst ` set d)" for d :: "('a \<times> 'b) list" and k v
    using arg_cong[OF fst_dict_set[of d k v], of set] by (auto simp: image_iff split: if_splits)
  then show ?thesis
    unfolding dict_merge_def by (induction b arbitrary: a) (simp_all add: split_beta)
qed

text \<open>
  Equal tables give equal prompts: the text depends on the keys and their values, not on the
  order in which branches wrote them.
\<close>

lemma format_prior_outputs_cong:
  assumes "distinct (map fst a)" and "distinct (map fst b)" and "map_of a = map_of b"
  shows "format_prior_outputs render a = format_prior_outputs render b"
proof -
  have "set (map fst a) = set (map fst b)"
    using assms(3) by (metis dom_map_of_conv_image_fst set_map)
  then have "mset (map fst a) = mset (map fst b)"
    using assms(1,2) by (simp only: set_eq_iff_mset_eq_distinct[symmetric])
  then have "sort (map fst a) = sort (map fst b)"
    by (metis properties_for_sort sorted_sort mset_sort)
  moreover have "dict_get a = dict_get b"
    using assms(3) by (simp add: dict_get_def fun_eq_iff)
  then have "output_line render a = output_line render b"
    by (simp add: output_line_def fun_eq_iff)
  ultimately show ?thesis by (simp add: format_prior_outputs_def)
qed

definition apply_updates :: "pydict \<Rightarrow> pydict list \<Rightarrow> pydict" where
  \<comment> \<open>the reducer applied to the updates of the branches in the order they arrive\<close>
  "apply_updates outs us = foldl (\<lambda>acc u. merge_node_outputs (Some acc) (Some u)) outs us"

lemma apply_updates_distinct:
  "distinct (map fst outs) \<Longrightarrow> distinct (map fst (apply_updates outs us))"
  unfolding apply_updates_def
  by (induction us arbitrary: outs) (auto simp: merge_node_outputs_def distinct_dict_merge)

lemma apply_updates_lookup:
  assumes "\<forall>u \<in> set us. distinct (map fst u)" and "distinct (concat (map (map fst) us))"
  shows "map_of (apply_updates outs us) k =
    (case map_of (concat us) k of Some v \<Rightarrow> Some v | None \<Rightarrow> map_of outs k)"
  using assms
proof (induction us arbitrary: outs)
  case Nil
  then show ?case by (simp add: apply_updates_def)
next
  case (Cons u us)
  then have "map_of (apply_updates (merge_node_outputs (Some outs) (Some u)) us) k =
    (case map_of (concat us) k of Some v \<Rightarrow> Some v | None \<Rightarrow> (map_of outs ++ map_of u) k)"
    by (simp add: merge_lookup split: option.splits)
  moreover have "map_of u k = None \<or> map_of (concat us) k = None"
  proof (rule ccontr)
    assume "\<not> ?thesis"
    then obtain v w where "map_of u k = Some v" "map_of (concat us) k = Some w" by auto
    then have "(k, v) \<in> set u" "(k, w) \<in> set (concat us)" by (blast dest: map_of_SomeD)+
    then have "k \<in> set (map fst u)" "k \<in> set (map fst (concat us))" by force+
    with Cons.prems(2) show False by (auto simp: map_concat)
  qed
  ultimately show ?case
    by (auto simp: apply_updates_def map_add_def split: option.splits)
qed

lemma perm_concat_keys:
  assumes "mset us = mset vs"
  shows "mset (concat us) = mset (concat vs)"
proof -
  have "mset (concat ws) = \<Sum>\<^sub># (image_mset mset (mset ws))" for ws :: "'a list list"
    by (induction ws) auto
  with assms show ?thesis by simp
qed

lemma map_of_mset_eq:
  assumes "distinct (map fst a)" and "mset a = mset b"
  shows "map_of a = map_of b"
proof -
  have "distinct (map fst b)"
    using assms by (metis mset_eq_imp_distinct_iff mset_map)
  from map_of_inject_set[OF assms(1) this] mset_eq_setD[OF assms(2)] show ?thesis by blast
qed

text \<open>
  C7: the worker state does not depend on the interleaving of parallel branches: whatever order
  the updates of branches with different keys arrive in, every node output is the same and so is
  the text of prior outputs the next skill node is given.
\<close>

theorem branches_converge:
  assumes "distinct (map fst outs)" and "\<forall>u \<in> set us. distinct (map fst u)"
    and "distinct (concat (map (map fst) us))" and "mset us = mset vs"
  shows "map_of (apply_updates outs us) = map_of (apply_updates outs vs)
    \<and> format_prior_outputs render (apply_updates outs us)
      = format_prior_outputs render (apply_updates outs vs)"
proof -
  have vs1: "\<forall>u \<in> set vs. distinct (map fst u)"
    using assms(2) mset_eq_setD[OF assms(4)] by simp
  have "mset (concat (map (map fst) us)) = mset (concat (map (map fst) vs))"
    using assms(4) by (intro perm_concat_keys) simp
  then have vs2: "distinct (concat (map (map fst) vs))"
    using assms(3) mset_eq_imp_distinct_iff by blast
  have "map_of (concat us) = map_of (concat vs)"
    using assms(3,4) by (intro map_of_mset_eq perm_concat_keys) (simp_all add: map_concat)
  then have "map_of (apply_updates outs us) = map_of (apply_updates outs vs)"
    using apply_updates_lookup[OF assms(2,3)] apply_updates_lookup[OF vs1 vs2] by (simp add: fun_eq_iff)
  with format_prior_outputs_cong apply_updates_distinct[OF assms(1)] show ?thesis by blast
qed

theorem branches_converge_witness:
  "format_prior_outputs (\<lambda>_. []) (apply_updates [] [[(''a'', JDict [(''output'', JStr ''x'')])],
      [(''b'', JDict [(''output'', JStr ''y'')])]])
   = format_prior_outputs (\<lambda>_. []) (apply_updates [] [[(''b'', JDict [(''output'', JStr ''y'')])],
      [(''a'', JDict [(''output'', JStr ''x'')])]])"
  by (rule branches_converge[THEN conjunct2]) simp_all

section \<open>Snapshots\<close>

record snapshot =
  sn_id :: "string option"
  sn_name :: string
  sn_persona :: string
  sn_model :: "string option"
  sn_model_params :: json
  sn_kind :: string
  sn_source :: string
  sn_updated_at :: "instant option"
  sn_workflow :: pydict
  sn_skills :: "(string \<times> skill_row) list"

definition live_tools :: "skill_row \<Rightarrow> skill_row" where
  \<comment> \<open>\<open>snapshot_skill\<close>: deleted tools are left out, the version defaults to 1\<close>
  "live_tools s = s\<lparr>s_tools := filter (\<lambda>t. t_deleted_at t = None) (s_tools s),
                   s_definition_version := Some (int_or1 (s_definition_version s))\<rparr>"

definition skill_node_ids :: "pydict \<Rightarrow> string list" where
  "skill_node_ids w = List.map_filter
     (\<lambda>n. if dict_get (as_dict n) ''type'' = JStr ''skill'' \<and> truthy (dict_get (as_dict n) ''skill_id'')
          then Some (as_str (dict_get (as_dict n) ''skill_id'')) else None)
     (list_items (dict_get w ''nodes''))"

definition skills_named :: "skill_row list \<Rightarrow> pydict \<Rightarrow> (string \<times> skill_row) list" where
  \<comment> \<open>the rows of the \<open>select\<close> over the skill ids of the workflow, keyed by id\<close>
  "skills_named rows w = foldl (\<lambda>d s. dict_set d (s_id s) (live_tools s)) []
     (filter (\<lambda>s. s_id s \<in> set (skill_node_ids w)) rows)"

definition snapshot_sub_agent :: "skill_row list \<Rightarrow> agent_row \<Rightarrow> snapshot" where
  "snapshot_sub_agent rows a =
     \<lparr>sn_id = Some (a_id a), sn_name = a_name a, sn_persona = a_persona a, sn_model = a_model a,
      sn_model_params = a_model_params a, sn_kind = a_kind a, sn_source = a_source a,
      sn_updated_at = a_updated_at a, sn_workflow = as_dict (a_workflow a),
      sn_skills = skills_named rows (as_dict (a_workflow a))\<rparr>"

definition step_id :: "nat \<Rightarrow> string" where
  "step_id i = ''step-'' @ nat_str (i + 1)"

definition chain_node :: "nat \<Rightarrow> skill_row \<Rightarrow> json" where
  "chain_node i s = JDict [(''id'', JStr (step_id i)), (''type'', JStr ''skill''),
                           (''skill_id'', JStr (s_id s))]"

definition chain_edge :: "string \<Rightarrow> string \<Rightarrow> json" where
  "chain_edge a b = JDict [(''from'', JStr a), (''to'', JStr b)]"

definition build_ephemeral_snapshot :: "skill_row list \<Rightarrow> py_exc + snapshot" where
  "build_ephemeral_snapshot skills =
     (let ids = map step_id [0..<length skills];
          nodes = map2 chain_node [0..<length skills] skills
      in if skills = [] then Inl IndexErr
         else Inr \<lparr>sn_id = None, sn_name = ''ephemeral-worker'', sn_persona = s_persona (hd skills),
           sn_model = None, sn_model_params = JNull, sn_kind = ''dynamic'', sn_source = ''dynamic'',
           sn_updated_at = None,
           sn_workflow = [(''nodes'', JList nodes),
             (''edges'', JList (chain_edge START (hd ids) # map2 chain_edge ids (tl ids)
                               @ [chain_edge (last ids) END]))],
           sn_skills = foldl (\<lambda>d s. dict_set d (s_id s) s) [] skills\<rparr>)"

subsection \<open>The ephemeral workflow is valid\<close>

lemma acyclic_path: "distinct xs \<Longrightarrow> acyclic (set (zip xs (tl xs)))"
proof (induction xs)
  case (Cons x xs)
  show ?case
  proof (cases xs)
    case (Cons y ys)
    have "(y, x) \<notin> (set (zip xs (tl xs)))\<^sup>*"
    proof
      assume "(y, x) \<in> (set (zip xs (tl xs)))\<^sup>*"
      then have "y = x \<or> x \<in> Range (set (zip xs (tl xs)))"
        by (metis Range.intros rtranclE)
      then have "x \<in> set xs"
        using Cons by (auto dest: set_zip_rightD)
      with Cons.prems show False by simp
    qed
    with Cons.IH Cons.prems Cons show ?thesis by (simp add: acyclic_insert)
  qed (simp add: acyclic_def)
qed (simp add: acyclic_def)

lemma path_connects: "xs \<noteq> [] \<Longrightarrow> (x, last xs) \<in> (set (zip (x # xs) xs))\<^sup>+"
proof (induction xs arbitrary: x)
  case (Cons y ys)
  show ?case
  proof (cases "ys = []")
    case False
    then have "(y, last ys) \<in> (set (zip (y # ys) ys))\<^sup>+" by (rule Cons.IH)
    then have "(y, last ys) \<in> (set (zip (x # y # ys) (y # ys)))\<^sup>+"
      by (rule trancl_mono) auto
    moreover have "(x, y) \<in> set (zip (x # y # ys) (y # ys))" by simp
    ultimately have "(x, last ys) \<in> (set (zip (x # y # ys) (y # ys)))\<^sup>+"
      by (meson trancl_into_trancl2)
    then show ?thesis using False by simp
  qed auto
qed simp

lemma edge_pairs_chain:
  "edge_pairs (map2 chain_edge as bs) = map (\<lambda>(a, b). (JStr a, JStr b)) (zip as bs)"
proof -
  have "edge_pairs [chain_edge a b] = [(JStr a, JStr b)]" for a b
    by (simp add: edge_pairs_def chain_edge_def edge_ends_def has_key_def dict_get_def List.map_filter_simps)
  moreover have "edge_pairs (e # es) = edge_pairs [e] @ edge_pairs es" for e es
    unfolding edge_pairs_def List.map_filter_simps by (cases "edge_ends e") simp_all
  ultimately have step: "edge_pairs (chain_edge a b # es) = (JStr a, JStr b) # edge_pairs es" for a b es
    by (metis append_Cons append_Nil)
  have "edge_pairs [] = []" by (simp add: edge_pairs_def List.map_filter_simps)
  then show ?thesis
    by (induction as bs rule: list_induct2') (simp_all add: step)
qed

lemma chain_path:
  assumes "ids \<noteq> []"
  shows "chain_edge START (hd ids) # map2 chain_edge ids (tl ids) @ [chain_edge (last ids) END]
       = map2 chain_edge (START # ids) (ids @ [END])"
proof -
  have "map2 chain_edge ids (tl ids @ [z]) = map2 chain_edge ids (tl ids) @ [chain_edge (last ids) z]" for z
    using assms by (induction ids rule: list_nonempty_induct) (auto simp: neq_Nil_conv)
  with assms show ?thesis by (cases ids) auto
qed

lemma step_id_neq [simp]:
  "step_id i \<noteq> START" "step_id i \<noteq> END" "START \<noteq> step_id i" "END \<noteq> step_id i" "START \<noteq> END" "END \<noteq> START"
  by (simp_all add: step_id_def START_def END_def)

lemma step_id_unreserved [simp]: "\<not> reserved_id (step_id i)" "\<not> starts_with (step_id i) ROUTER_PREFIX"
proof -
  have "starts_with s ''__'' \<Longrightarrow> s = step_id i \<or> s = butlast (step_id i) \<Longrightarrow> False" for s
    by (auto simp: starts_with_def step_id_def butlast_append split: if_splits)
  then show "\<not> reserved_id (step_id i)"
    by (auto simp: reserved_id_def dunder_def)
  show "\<not> starts_with (step_id i) ROUTER_PREFIX"
    by (simp add: starts_with_def step_id_def ROUTER_PREFIX_def)
qed

lemma distinct_step_ids: "distinct (map step_id is) \<longleftrightarrow> distinct is"
  by (simp add: distinct_map inj_on_def step_id_def)

lemma node_ids_chain: "node_ids (map2 chain_node is ss) = map step_id (take (length ss) is)"
proof -
  have "node_id (chain_node i s) = Some (step_id i)" for i s
    by (simp add: node_id_def chain_node_def dict_get_def step_id_def)
  then show ?thesis
    by (induction "is" ss rule: list_induct2') (simp_all add: node_ids_def List.map_filter_simps)
qed

lemma in_chain_edges:
  "e \<in> set (map2 chain_edge as bs) \<Longrightarrow> \<exists>a b. e = chain_edge a b \<and> (a, b) \<in> set (zip as bs)"
  by auto

lemma chain_edge_facts [simp]:
  "edge_ends (chain_edge a b) = Some (JStr a, JStr b)"
  "edge_on (chain_edge a b) = JStr ''success''"
  by (simp_all add: chain_edge_def edge_ends_def edge_on_def has_key_def dict_get_def dict_get_or_def)

lemma error_sources_chain: "error_sources (map2 chain_edge as bs) = []"
  by (induction as bs rule: list_induct2') (simp_all add: error_sources_def List.map_filter_simps)

lemma start_edges_chain:
  "START \<notin> set as \<Longrightarrow> start_edges (map2 chain_edge (START # as) (b # bs)) = 1"
proof -
  assume "START \<notin> set as"
  then have "\<forall>p \<in> set (zip as bs). fst p \<noteq> START"
    by (metis in_set_zipE prod.collapse)
  then have "filter (\<lambda>(s, d). s = JStr START) (map (\<lambda>(a, b). (JStr a, JStr b)) (zip as bs)) = []"
    by (auto simp: filter_empty_conv)
  then show ?thesis
    unfolding start_edges_def edge_pairs_chain by simp
qed

lemma chain_nodes_ok:
  assumes "\<forall>s \<in> set skills. s_id s \<noteq> [] \<and> s_id s \<in> set active" and "n \<in> set (map2 chain_node is skills)"
  shows "node_ok render active n"
proof -
  from assms(2) obtain i s where n: "n = chain_node i s" and "s \<in> set skills"
    by (auto dest: set_zip_rightD)
  with assms(1) have "s_id s \<noteq> []" "s_id s \<in> set active" by auto
  moreover have "step_id i \<noteq> []" by (simp add: step_id_def)
  ultimately show ?thesis
    by (auto simp: node_ok_def n chain_node_def dict_get_def)
qed

lemma chain_workflow_ok:
  assumes "skills \<noteq> []" and "\<forall>s \<in> set skills. s_id s \<noteq> [] \<and> s_id s \<in> set active"
    and "build_ephemeral_snapshot skills = Inr sn"
  shows "workflow_ok render active (sn_workflow sn)"
proof -
  let ?is = "[0..<length skills]"
  define ids where "ids = map step_id ?is"
  let ?nodes = "map2 chain_node ?is skills" and ?edges = "map2 chain_edge (START # ids) (ids @ [END])"
  have ne: "ids \<noteq> []" using assms(1) by (simp add: ids_def)
  have w: "dict_get (sn_workflow sn) ''nodes'' = JList ?nodes" "dict_get (sn_workflow sn) ''edges'' = JList ?edges"
    using assms(1,3) chain_path[OF ne]
    by (auto simp: build_ephemeral_snapshot_def Let_def dict_get_def ids_def)
  have nids: "node_ids ?nodes = ids" by (simp add: node_ids_chain ids_def)
  have free: "START \<notin> set ids" "END \<notin> set ids" by (auto simp: ids_def)
  have dist: "distinct (START # ids @ [END])"
    using free by (simp add: ids_def distinct_step_ids)
  have sz: "START # ids @ [END] = (START # ids) @ [END]" by simp
  have zipeq: "zip (START # ids) (ids @ [END]) = zip (START # ids @ [END]) (tl (START # ids @ [END]))"
    using zip_append1[of "START # ids" "[END]" "ids @ [END]"] by simp
  let ?J = "\<lambda>(a, b). (JStr a, JStr b)"
  have pairs: "edge_pairs ?edges = map ?J (zip (START # ids @ [END]) (ids @ [END]))"
    unfolding edge_pairs_chain zipeq by simp
  have "acyclic (set (zip (map JStr (START # ids @ [END])) (tl (map JStr (START # ids @ [END])))))"
    using dist by (intro acyclic_path) (auto simp: distinct_map inj_on_def)
  then have acy: "acyclic (set (edge_pairs ?edges))"
    unfolding pairs by (simp add: zip_map_map[symmetric] split_beta)
  have "(JStr START, last (map JStr (ids @ [END])))
      \<in> (set (zip (JStr START # map JStr (ids @ [END])) (map JStr (ids @ [END]))))\<^sup>+"
    by (rule path_connects) simp
  then have path: "(JStr START, JStr END) \<in> (set (edge_pairs ?edges))\<^sup>+"
    unfolding pairs by (simp add: zip_map_map[symmetric] split_beta)
  have edges: "\<forall>e \<in> set ?edges. edge_ok ids e"
  proof
    fix e
    assume "e \<in> set ?edges"
    then obtain a b where e: "e = chain_edge a b" and "(a, b) \<in> set (zip (START # ids) (ids @ [END]))"
      using in_chain_edges by blast
    then have "a \<in> set (START # ids)" "b \<in> set (ids @ [END])"
      by (blast dest: set_zip_leftD set_zip_rightD)+
    with free show "edge_ok ids e" by (auto simp: edge_ok_def e)
  qed
  obtain b bs where "ids @ [END] = b # bs" by (cases "ids @ [END]") auto
  then have "start_edges ?edges = 1" using start_edges_chain[OF free(1), of b bs] by simp
  then show ?thesis
    unfolding workflow_ok_def
    using w nids acy path edges error_sources_chain[of "START # ids" "ids @ [END]"] dist assms(1)
      chain_nodes_ok[OF assms(2)]
    by (intro exI[of _ ?nodes] exI[of _ ?edges]) (simp add: ne)
qed

lemma map_of_skill_table:
  "map_of (foldl (\<lambda>d s. dict_set d (s_id s) s) d0 ss) k =
     (case find (\<lambda>s. s_id s = k) (rev ss) of Some s \<Rightarrow> Some s | None \<Rightarrow> map_of d0 k)"
  by (induction ss rule: rev_induct) (auto split: option.splits)

text \<open>
  A dynamic chain is always a well-formed workflow: for a non-empty list of active skills the
  ephemeral snapshot exists, its workflow passes the same validation a stored sub agent's does,
  and every skill the chain names is in the snapshot under its id.
\<close>

theorem ephemeral_workflow_valid:
  assumes "skills \<noteq> []" and "\<forall>s \<in> set skills. s_id s \<noteq> [] \<and> s_id s \<in> set active"
  shows "\<exists>sn. build_ephemeral_snapshot skills = Inr sn
    \<and> validate_workflow render (JDict (sn_workflow sn)) active = Inr []
    \<and> (\<forall>s \<in> set skills. \<exists>s'. map_of (sn_skills sn) (s_id s) = Some s' \<and> s_id s' = s_id s)"
proof -
  obtain sn where sn: "build_ephemeral_snapshot skills = Inr sn"
    and tbl: "sn_skills sn = foldl (\<lambda>d s. dict_set d (s_id s) s) [] skills"
    using assms(1) by (simp add: build_ephemeral_snapshot_def Let_def)
  have "\<exists>s'. map_of (sn_skills sn) (s_id s) = Some s' \<and> s_id s' = s_id s" if "s \<in> set skills" for s
  proof -
    from that have "find (\<lambda>t. s_id t = s_id s) (rev skills) \<noteq> None" by (auto simp: find_None_iff)
    then show ?thesis
      unfolding tbl map_of_skill_table by (auto dest: find_Some_in)
  qed
  with sn chain_workflow_ok[OF assms sn] show ?thesis
    by (auto simp: validate_workflow_ok_iff)
qed

definition sample_skill :: "string \<Rightarrow> skill_row" where
  "sample_skill i = \<lparr>s_id = i, s_name = i, s_description = [], s_source = ''custom'', s_status = ''active'',
     s_kind = ''custom'', s_persona = ''persona'', s_instructions = ''do it'', s_model = None,
     s_model_params = JNull, s_exposed = True, s_max_tool_iterations = None,
     s_definition_hash = None, s_definition_version = None, s_tools = [], s_updated_at = None, s_deleted_at = None\<rparr>"

theorem ephemeral_workflow_valid_witness:
  "\<exists>sn. build_ephemeral_snapshot [sample_skill ''a'', sample_skill ''b''] = Inr sn
    \<and> validate_workflow (\<lambda>_. []) (JDict (sn_workflow sn)) [''a'', ''b''] = Inr []"
  using ephemeral_workflow_valid[of "[sample_skill ''a'', sample_skill ''b'']" "[''a'', ''b'']" "\<lambda>_. []"]
  by (auto simp: sample_skill_def)

section \<open>Node functions\<close>

text \<open>
  What a node invocation does: it returns an update of the worker state (node outputs and
  messages), pauses the graph, or raises.
\<close>

datatype node_result =
    Update pydict "string list"
  | Interrupted
  | Raised string

datatype loop_result =
    LoopAnswer string "pydict option list"   \<comment> \<open>final text, usage of every message\<close>
  | LoopInterrupt
  | LoopError string                         \<comment> \<open>\<open>type(exc).__name__: exc\<close>\<close>

definition opt_json :: "string option \<Rightarrow> json" where
  "opt_json v = (case v of None \<Rightarrow> JNull | Some s \<Rightarrow> JStr s)"

definition opt_int :: "int option \<Rightarrow> json" where
  "opt_int v = (case v of None \<Rightarrow> JNull | Some i \<Rightarrow> JInt i)"

definition pinned :: "skill_row \<Rightarrow> pydict" where
  "pinned s = [(''definition_version'', opt_int (s_definition_version s)),
               (''definition_hash'', opt_json (s_definition_hash s))]"

definition params_json :: "model_params option \<Rightarrow> json" where
  "params_json p = (case p of None \<Rightarrow> JNull | Some m \<Rightarrow> mp_dump m)"

definition inactive_output :: "skill_row \<Rightarrow> pydict" where
  "inactive_output s = [(''status'', JStr ''error''),
     (''error'', JStr (''skill '' @ s_name s @ '' is '' @ s_status s
                       @ '' -- the workflow names a disabled skill'')),
     (''skill_id'', JStr (s_id s)), (''skill_name'', JStr (s_name s))] @ pinned s"

definition ok_output ::
    "skill_row \<Rightarrow> string \<Rightarrow> model_params option \<Rightarrow> string \<Rightarrow> int \<times> int \<Rightarrow> pydict" where
  "ok_output s model_ref params txt usage = [(''status'', JStr ''ok''), (''output'', JStr txt),
     (''skill_id'', JStr (s_id s)), (''skill_name'', JStr (s_name s)), (''model'', JStr model_ref),
     (''effort'', case params of None \<Rightarrow> JNull | Some m \<Rightarrow> opt_json (mp_effort m)),
     (''model_params'', params_json params)] @ pinned s
     @ [(''usage'', JDict [(''input_tokens'', JInt (fst usage)), (''output_tokens'', JInt (snd usage))])]"

definition failed_output ::
    "skill_row \<Rightarrow> string \<Rightarrow> model_params option \<Rightarrow> string \<Rightarrow> pydict" where
  "failed_output s model_ref params err = [(''status'', JStr ''error''), (''error'', JStr err),
     (''skill_id'', JStr (s_id s)), (''skill_name'', JStr (s_name s)), (''model'', JStr model_ref),
     (''model_params'', params_json params)] @ pinned s"

definition skill_user_message :: "(json \<Rightarrow> string) \<Rightarrow> string \<Rightarrow> pydict \<Rightarrow> string" where
  "skill_user_message render task outs =
     (let prior = format_prior_outputs render outs
      in if prior = [] then task else task @ [CHR 0x0A, CHR 0x0A] @ prior)"

definition run_skill ::
    "(json \<Rightarrow> string) \<Rightarrow> (string \<times> model_params option \<Rightarrow> string \<Rightarrow> int \<Rightarrow> string \<Rightarrow> loop_result)
       \<Rightarrow> string + string \<times> model_params option \<Rightarrow> (string option \<Rightarrow> string) \<Rightarrow> int
       \<Rightarrow> string \<Rightarrow> string option \<Rightarrow> skill_row \<Rightarrow> string \<Rightarrow> pydict \<Rightarrow> node_result" where
  \<comment> \<open>\<open>loop\<close> is building the model and running the tool loop on a prompt, an iteration budget
      and a user message; \<open>resolved\<close> is \<open>resolve_node_model\<close>, \<open>prompt\<close> the assembled prompt
      for the node's instructions\<close>
  "run_skill render loop resolved prompt budget nid instructions s task outs =
     (if s_status s \<noteq> ''active'' then Update [(nid, JDict (inactive_output s))] []
      else (case resolved of
          Inl e \<Rightarrow> Raised e
        | Inr (model_ref, params) \<Rightarrow>
            (case loop (model_ref, params) (prompt instructions) (max_tool_iterations (Some s) budget)
                    (skill_user_message render task outs) of
               LoopAnswer txt usages \<Rightarrow>
                 Update [(nid, JDict (ok_output s model_ref params txt (usage_from_messages usages)))]
                        [''['' @ nid @ ''] '' @ txt]
             | LoopInterrupt \<Rightarrow> Interrupted
             | LoopError e \<Rightarrow> Update [(nid, JDict (failed_output s model_ref params e))] [])))"

definition hitl_payload :: "pydict \<Rightarrow> string \<Rightarrow> pydict" where
  "hitl_payload node nid =
     [(''prompt'', dict_get_or node ''prompt'' (JStr ''Approve?'')), (''node_id'', JStr nid)]
     @ (if truthy (dict_get node ''questions'') then [(''questions'', dict_get node ''questions'')] else [])"

definition run_hitl :: "(json \<Rightarrow> string) \<Rightarrow> string \<Rightarrow> pydict option \<Rightarrow> node_result" where
  \<comment> \<open>\<open>decision\<close>: what the human answered, None while the interrupt is pending\<close>
  "run_hitl render nid decision = (case decision of
       None \<Rightarrow> Interrupted
     | Some d \<Rightarrow>
         (let note = py_str render (dict_get_or d ''note'' (JStr []));
              answers = dict_get d ''answers''
          in if dict_get d ''decision'' = JStr ''deny'' then
               Update [(nid, JDict [(''node_type'', JStr ''hitl''), (''status'', JStr ''denied''),
                 (''note'', JStr (if note \<noteq> [] then note else ''denied''))])] []
             else
               (let summary = ''approved'' @ (if note \<noteq> [] then '': '' @ note else []);
                    full = (if truthy answers
                            then summary @ '' -- answers: '' @ join ''; ''
                                   (map (\<lambda>(k, v). k @ ''='' @ py_str render v) (as_dict answers))
                            else summary)
                in Update [(nid, JDict ([(''node_type'', JStr ''hitl''), (''status'', JStr ''ok''),
                     (''output'', JStr full)]
                     @ (if truthy answers then [(''answers'', answers)] else [])))] [])))"

subsection \<open>The router\<close>

definition edge_to :: "pydict \<Rightarrow> string" where
  "edge_to e = as_str (dict_get e ''to'')"

definition edge_from :: "pydict \<Rightarrow> string" where
  "edge_from e = as_str (dict_get e ''from'')"

definition on_edges :: "string \<Rightarrow> pydict list \<Rightarrow> pydict list" where
  "on_edges kind es = filter (\<lambda>e. dict_get_or e ''on'' (JStr ''success'') = JStr kind) es"

definition conditional_edges :: "pydict list \<Rightarrow> pydict list" where
  "conditional_edges es = filter (\<lambda>e. truthy (dict_get e ''condition'')) (on_edges ''success'' es)"

definition unconditional_edges :: "pydict list \<Rightarrow> pydict list" where
  "unconditional_edges es = filter (\<lambda>e. \<not> truthy (dict_get e ''condition'')) (on_edges ''success'' es)"

record route_record =
  r_node_id :: string
  r_targets :: "string list"
  r_reason :: "string option"
  r_chosen :: "string option"
  r_usage :: "(int \<times> int) option"

record router_reply =
  \<comment> \<open>one structured-output call: the usage of its raw message and the parsed index\<close>
  rr_usage :: "pydict option"
  rr_index :: "int option"

fun pick_loop ::
    "router_reply list \<Rightarrow> pydict list \<Rightarrow> int \<times> int \<Rightarrow> string \<times> (int \<times> int) \<times> string" where
  "pick_loop [] ces usage =
     (edge_to (ces ! 0), usage, ''router model gave no parseable choice twice -- first condition taken'')"
| "pick_loop (reply # replies) ces usage =
     (let u = usage_from_messages [rr_usage reply];
          usage' = (fst usage + fst u, snd usage + snd u)
      in case rr_index reply of
           Some i \<Rightarrow> (edge_to (ces ! nat (max 0 (min i (int (length ces) - 1)))), usage',
                      ''router model selected condition'')
         | None \<Rightarrow> pick_loop replies ces usage')"

definition pick_condition ::
    "(nat \<Rightarrow> router_reply) \<Rightarrow> pydict list \<Rightarrow> string \<times> (int \<times> int) \<times> string" where
  \<comment> \<open>at most two calls of the router model\<close>
  "pick_condition ask ces = pick_loop [ask 1, ask 2] ces (0, 0)"

definition route_success ::
    "(nat \<Rightarrow> router_reply) \<Rightarrow> pydict list \<Rightarrow> route_record \<Rightarrow> route_record" where
  "route_success ask es rec =
     (let targets = map edge_to (unconditional_edges es); ces = conditional_edges es
      in if ces = [] then rec\<lparr>r_targets := (if targets = [] then [END] else targets)\<rparr>
         else if length ces = 1 \<and> unconditional_edges es = [] then
           rec\<lparr>r_targets := targets @ [edge_to (ces ! 0)], r_chosen := Some (edge_to (ces ! 0)),
               r_reason := Some ''single conditional edge''\<rparr>
         else (case pick_condition ask ces of (chosen, usage, reason) \<Rightarrow>
           rec\<lparr>r_targets := targets @ [chosen], r_chosen := Some chosen, r_usage := Some usage,
               r_reason := Some reason\<rparr>))"

definition route ::
    "(json \<Rightarrow> string) \<Rightarrow> (nat \<Rightarrow> router_reply) \<Rightarrow> string \<Rightarrow> pydict list \<Rightarrow> pydict \<Rightarrow> string + route_record" where
  \<comment> \<open>Inl is \<open>NodeExecutionError\<close>: the node failed and no error edge takes over\<close>
  "route render ask nid es outs =
     (let out = as_dict (dict_get outs nid); status = dict_get out ''status'';
          rec = \<lparr>r_node_id = nid, r_targets = [], r_reason = None, r_chosen = None, r_usage = None\<rparr>
      in if status = JStr ''error'' then
           (case on_edges ''error'' es of
              [] \<Rightarrow> Inl (py_str render (dict_get out ''error''))
            | e # _ \<Rightarrow> Inr (rec\<lparr>r_targets := [edge_to e], r_reason := Some ''error edge taken''\<rparr>))
         else if status = JStr ''denied'' then
           Inr (rec\<lparr>r_targets := [END], r_reason := Some ''human denied -- routed to END''\<rparr>)
         else Inr (route_success ask es rec))"

definition route_key :: "string \<Rightarrow> string" where
  "route_key nid = ''route:'' @ nid"

definition path_targets :: "pydict list \<Rightarrow> string list" where
  \<comment> \<open>\<open>sorted({e['to']} | {END})\<close>: the keys of the router's path map\<close>
  "path_targets es = sort (remdups (END # map edge_to es))"

lemma set_path_targets: "set (path_targets es) = insert END (edge_to ` set es)"
  by (auto simp: path_targets_def)

lemma edges_subset: "set (on_edges k es) \<subseteq> set es" "set (conditional_edges es) \<subseteq> set es"
    "set (unconditional_edges es) \<subseteq> set es"
  by (auto simp: on_edges_def conditional_edges_def unconditional_edges_def)

lemma pick_loop_target:
  "ces \<noteq> [] \<Longrightarrow> fst (pick_loop replies ces usage) \<in> edge_to ` set ces"
proof (induction replies ces usage rule: pick_loop.induct)
  case (2 reply replies ces usage)
  have "nat (max 0 (min i (int (length ces) - 1))) < length ces" for i
    using 2(2) by (cases ces) auto
  with 2 show ?case by (auto simp: Let_def split: option.splits)
qed auto

lemma route_success_targets:
  "set (r_targets (route_success ask es rec)) \<subseteq> set (path_targets es)
   \<and> r_targets (route_success ask es rec) \<noteq> []"
proof -
  have pick: "fst (pick_condition ask (conditional_edges es)) \<in> edge_to ` set es"
    if "conditional_edges es \<noteq> []"
    unfolding pick_condition_def
    using pick_loop_target[OF that] image_mono[OF edges_subset(2)] by (rule rev_subsetD)
  have single: "edge_to (conditional_edges es ! 0) \<in> edge_to ` set es" if "conditional_edges es \<noteq> []"
  proof -
    have "conditional_edges es ! 0 \<in> set (conditional_edges es)" using that by (intro nth_mem) simp
    then show ?thesis by (rule imageI[OF subsetD[OF edges_subset(2)]])
  qed
  have un: "edge_to ` set (unconditional_edges es) \<subseteq> edge_to ` set es"
    using edges_subset(3) by blast
  obtain chosen usage reason where pc: "pick_condition ask (conditional_edges es) = (chosen, usage, reason)"
    by (cases "pick_condition ask (conditional_edges es)")
  consider (none) "conditional_edges es = []"
    | (one) "conditional_edges es \<noteq> []" "length (conditional_edges es) = 1" "unconditional_edges es = []"
    | (many) "conditional_edges es \<noteq> []"
        "\<not> (length (conditional_edges es) = 1 \<and> unconditional_edges es = [])"
    by blast
  then show ?thesis
  proof cases
    case none
    then show ?thesis using un by (auto simp: route_success_def Let_def set_path_targets)
  next
    case one
    then show ?thesis using single by (simp add: route_success_def Let_def set_path_targets)
  next
    case many
    have "r_targets (route_success ask es rec) = map edge_to (unconditional_edges es) @ [chosen]"
      unfolding route_success_def Let_def if_not_P[OF many(1)] if_not_P[OF many(2)] pc by simp
    with pick[OF many(1)] un show ?thesis by (auto simp: set_path_targets pc)
  qed
qed

text \<open>
  Whatever the node's output and whatever the router model answers (an index out of range, no
  parseable choice), the router never leaves its path map: it raises only for a failed node
  without an error edge, otherwise it selects at least one target, each one END or the target
  of an outgoing edge; a denied gate goes to END only.
\<close>

theorem router_stays_in_path_map:
  "case route render ask nid es outs of
     Inl e \<Rightarrow> dict_get (as_dict (dict_get outs nid)) ''status'' = JStr ''error'' \<and> on_edges ''error'' es = []
   | Inr r \<Rightarrow> r_targets r \<noteq> [] \<and> set (r_targets r) \<subseteq> set (path_targets es)
       \<and> (dict_get (as_dict (dict_get outs nid)) ''status'' = JStr ''denied'' \<longrightarrow> r_targets r = [END])"
proof -
  have "edge_to e \<in> set (path_targets es)" if "on_edges ''error'' es = e # rest" for e rest
    using that edges_subset(1)[of "''error''" es] by (auto simp: set_path_targets)
  moreover have "END \<in> set (path_targets es)" by (simp add: set_path_targets)
  ultimately show ?thesis
    using route_success_targets[of ask es]
    by (simp add: route_def Let_def split: list.splits)
qed

theorem router_stays_in_path_map_witness:
  "case route (\<lambda>_. []) (\<lambda>_. \<lparr>rr_usage = None, rr_index = Some 9\<rparr>) ''a''
      [[(''from'', JStr ''a''), (''to'', JStr ''b''), (''condition'', JStr ''x'')],
       [(''from'', JStr ''a''), (''to'', JStr ''c''), (''condition'', JStr ''y'')]]
      [(''a'', JDict [(''status'', JStr ''ok'')])] of
     Inl e \<Rightarrow> False
   | Inr r \<Rightarrow> r_targets r \<noteq> [] \<and> set (r_targets r) \<subseteq> {''b'', ''c'', END}"
proof -
  let ?es = "[[(''from'', JStr ''a''), (''to'', JStr ''b''), (''condition'', JStr ''x'')],
       [(''from'', JStr ''a''), (''to'', JStr ''c''), (''condition'', JStr ''y'')]]"
  let ?outs = "[(''a'', JDict [(''status'', JStr ''ok'')])]"
  have "set (path_targets ?es) = {''b'', ''c'', END}"
    by (auto simp: set_path_targets edge_to_def dict_get_def)
  moreover have "dict_get (as_dict (dict_get ?outs ''a'')) ''status'' = JStr ''ok''"
    by (simp add: dict_get_def)
  ultimately show ?thesis
    using router_stays_in_path_map[where render = "\<lambda>_. []" and nid = "''a''" and es = ?es and outs = ?outs
        and ask = "\<lambda>_. \<lparr>rr_usage = None, rr_index = Some 9\<rparr>"]
    by (auto split: sum.splits)
qed

section \<open>Building the graph\<close>

datatype worker_node =
    SkillNode pydict skill_row
  | HitlNode pydict
  | RouterNode string "pydict list"

record worker_graph =
  g_nodes :: "(string \<times> worker_node \<times> bool) list"     \<comment> \<open>\<open>add_node\<close>: name, function, deferred\<close>
  g_edges :: "(string \<times> string) list"                   \<comment> \<open>\<open>add_edge\<close>\<close>
  g_paths :: "(string \<times> string list) list"              \<comment> \<open>\<open>add_conditional_edges\<close>: path map keys\<close>

datatype build_error = MissingKey string | SkillNotInSnapshot string json

definition require_key :: "string \<Rightarrow> pydict list \<Rightarrow> build_error + unit" where
  "require_key k ds = (if list_all (\<lambda>d. has_key d k) ds then Inr () else Inl (MissingKey k))"

definition incoming :: "pydict list \<Rightarrow> string \<Rightarrow> nat" where
  "incoming es i = (if i = END then 0 else length (filter (\<lambda>e. edge_to e = i) es))"

definition add_worker_node ::
    "(string \<times> skill_row) list \<Rightarrow> pydict list \<Rightarrow> pydict \<Rightarrow> build_error + (string \<times> worker_node \<times> bool) list" where
  "add_worker_node skills es n =
     bind_r (require_key ''id'' [n]) (\<lambda>_. bind_r (require_key ''type'' [n]) (\<lambda>_.
       let nid = as_str (dict_get n ''id''); deferred = (1 < incoming es nid)
       in if dict_get n ''type'' = JStr ''skill'' then
            (case map_of skills (as_str (dict_get_or n ''skill_id'' (JStr []))) of
               None \<Rightarrow> Inl (SkillNotInSnapshot nid (dict_get n ''skill_id''))
             | Some s \<Rightarrow> Inr [(nid, SkillNode n s, deferred)])
          else Inr [(nid, HitlNode n, deferred)]))"

definition router_id :: "string \<Rightarrow> string" where
  "router_id nid = ROUTER_PREFIX @ nid"

definition out_edges :: "pydict list \<Rightarrow> string \<Rightarrow> pydict list" where
  "out_edges es nid = filter (\<lambda>e. edge_from e = nid) es"

definition workflow_nodes :: "pydict \<Rightarrow> pydict list" where
  "workflow_nodes w = map as_dict (list_items (dict_get w ''nodes''))"

definition workflow_edges :: "pydict \<Rightarrow> pydict list" where
  "workflow_edges w = map as_dict (list_items (dict_get w ''edges''))"

definition build_worker :: "snapshot \<Rightarrow> build_error + worker_graph" where
  "build_worker sn =
     (let w = sn_workflow sn; nodes = workflow_nodes w; es = workflow_edges w;
          nids = map (\<lambda>n. as_str (dict_get n ''id'')) nodes
      in bind_r (if has_key w ''nodes'' then Inr () else Inl (MissingKey ''nodes'')) (\<lambda>_.
         bind_r (if has_key w ''edges'' then Inr () else Inl (MissingKey ''edges'')) (\<lambda>_.
         bind_r (require_key ''to'' es) (\<lambda>_.
         bind_r (collect_r (add_worker_node (sn_skills sn) es) nodes) (\<lambda>added.
         bind_r (require_key ''from'' es) (\<lambda>_.
           Inr \<lparr>g_nodes = added
                   @ map (\<lambda>nid. (router_id nid, RouterNode nid (out_edges es nid), False)) nids,
                g_edges = map (\<lambda>e. (START, edge_to e)) (out_edges es START)
                   @ map (\<lambda>nid. (nid, router_id nid)) nids,
                g_paths = map (\<lambda>nid. (router_id nid, path_targets (out_edges es nid))) nids\<rparr>))))))"

definition graph_names :: "worker_graph \<Rightarrow> string list" where
  "graph_names g = map fst (g_nodes g)"

text \<open>What the graph builder accepts: distinct names, no sentinel, no dangling edge.\<close>

definition graph_ok :: "worker_graph \<Rightarrow> bool" where
  "graph_ok g \<longleftrightarrow> distinct (graph_names g) \<and> START \<notin> set (graph_names g) \<and> END \<notin> set (graph_names g)
     \<and> (\<forall>(a, b) \<in> set (g_edges g). a \<in> insert START (set (graph_names g)) \<and> b \<in> set (graph_names g) \<union> {END})
     \<and> (\<forall>(r, ts) \<in> set (g_paths g). r \<in> set (graph_names g) \<and> set ts \<subseteq> insert END (set (graph_names g)))
     \<and> length (filter (\<lambda>p. fst p = START) (g_edges g)) = 1"

lemma node_ok_view:
  assumes "node_ok render active n"
  shows "node_id n = Some (as_str (dict_get (as_dict n) ''id''))"
    and "has_key (as_dict n) ''id''" and "has_key (as_dict n) ''type''"
    and "dict_get (as_dict n) ''type'' = JStr ''skill'' \<Longrightarrow>
      \<exists>sid \<in> set active. dict_get_or (as_dict n) ''skill_id'' v = JStr sid"
proof -
  from assms obtain d nid where n: "n = JDict d" and nid: "dict_get d ''id'' = JStr nid" "nid \<noteq> []"
    and ty: "dict_get d ''type'' = JStr ''skill''
           \<and> (\<exists>sid. dict_get d ''skill_id'' = JStr sid \<and> sid \<noteq> [] \<and> sid \<in> set active)
        \<or> dict_get d ''type'' = JStr ''hitl''"
    by (auto simp: node_ok_def)
  then show "node_id n = Some (as_str (dict_get (as_dict n) ''id''))" by (simp add: node_id_def)
  show "has_key (as_dict n) ''id''" using n nid by (simp add: dict_get_has_key)
  show "has_key (as_dict n) ''type''" using n ty by (auto intro: dict_get_has_key)
  show "\<exists>sid \<in> set active. dict_get_or (as_dict n) ''skill_id'' v = JStr sid"
    if "dict_get (as_dict n) ''type'' = JStr ''skill''"
  proof -
    from that ty n obtain sid where sid: "dict_get d ''skill_id'' = JStr sid" "sid \<in> set active" by auto
    then have "has_key d ''skill_id''" by (simp add: dict_get_has_key)
    with sid n show ?thesis by (auto simp: dict_get_or_has_key)
  qed
qed

lemma node_ids_view:
  "\<forall>n \<in> set ns. node_ok render active n \<Longrightarrow>
   node_ids ns = map (\<lambda>n. as_str (dict_get n ''id'')) (map as_dict ns)"
  by (induction ns) (auto simp: node_ids_def List.map_filter_simps node_ok_view(1))

lemma edge_ok_view:
  assumes "edge_ok known e"
  shows "has_key (as_dict e) ''from''" and "has_key (as_dict e) ''to''"
    and "edge_ends e = Some (JStr (edge_from (as_dict e)), JStr (edge_to (as_dict e)))"
    and "edge_to (as_dict e) \<in> insert END (set known)"
proof -
  from assms obtain s d where ends: "edge_ends e = Some (JStr s, JStr d)" "d = END \<or> d \<in> set known"
    by (auto simp: edge_ok_def)
  then obtain k where "e = JDict k" "has_key k ''from''" "has_key k ''to''"
      "dict_get k ''from'' = JStr s" "dict_get k ''to'' = JStr d"
    by (auto simp: edge_ends_def split: json.splits if_splits)
  with ends show "has_key (as_dict e) ''from''" "has_key (as_dict e) ''to''"
    "edge_ends e = Some (JStr (edge_from (as_dict e)), JStr (edge_to (as_dict e)))"
    "edge_to (as_dict e) \<in> insert END (set known)"
    by (auto simp: edge_from_def edge_to_def)
qed

lemma start_edges_view:
  "\<forall>e \<in> set es. edge_ok known e \<Longrightarrow> start_edges es = length (out_edges (map as_dict es) START)"
  by (induction es)
    (auto simp: start_edges_def edge_pairs_def out_edges_def List.map_filter_simps edge_ok_view(3))

lemma node_ok_id:
  "node_ok render active n \<Longrightarrow> nid = as_str (dict_get (as_dict n) ''id'') \<Longrightarrow>
   nid \<noteq> START \<and> nid \<noteq> END \<and> \<not> starts_with nid ROUTER_PREFIX"
  by (auto simp: node_ok_def)

lemma router_id_facts [simp]:
  "router_id a = router_id b \<longleftrightarrow> a = b" "starts_with (router_id a) ROUTER_PREFIX"
  "router_id a \<noteq> START" "router_id a \<noteq> END" "START \<noteq> router_id a" "END \<noteq> router_id a"
  by (simp_all add: router_id_def starts_with_def ROUTER_PREFIX_def START_def END_def)

lemma add_worker_node_ok:
  assumes "node_ok render active n" and "\<forall>i \<in> set active. map_of skills i \<noteq> None"
  shows "\<exists>y. add_worker_node skills es (as_dict n) = Inr [y] \<and> fst y = as_str (dict_get (as_dict n) ''id'')"
proof (cases "dict_get (as_dict n) ''type'' = JStr ''skill''")
  case True
  from node_ok_view(4)[OF assms(1) True, of "JStr []"] obtain sid
    where "sid \<in> set active" "dict_get_or (as_dict n) ''skill_id'' (JStr []) = JStr sid" by auto
  with assms(2) True node_ok_view(2,3)[OF assms(1)] show ?thesis
    by (force simp: add_worker_node_def require_key_def Let_def)
next
  case False
  with node_ok_view(2,3)[OF assms(1)] show ?thesis
    by (simp add: add_worker_node_def require_key_def Let_def)
qed

lemma require_key_ok: "(\<And>d. d \<in> set ds \<Longrightarrow> has_key d k) \<Longrightarrow> require_key k ds = Inr ()"
  by (simp add: require_key_def list_all_iff)

lemma graph_ok_shape:
  assumes "distinct nids" and "\<forall>i \<in> set nids. i \<noteq> START \<and> i \<noteq> END \<and> \<not> starts_with i ROUTER_PREFIX"
    and "map fst added = nids" and "\<forall>e \<in> set es. edge_to e \<in> insert END (set nids)"
    and "length (out_edges es START) = 1"
  shows "graph_ok \<lparr>g_nodes = added @ map (\<lambda>nid. (router_id nid, RouterNode nid (out_edges es nid), False)) nids,
      g_edges = map (\<lambda>e. (START, edge_to e)) (out_edges es START) @ map (\<lambda>nid. (nid, router_id nid)) nids,
      g_paths = map (\<lambda>nid. (router_id nid, path_targets (out_edges es nid))) nids\<rparr>"
    (is "graph_ok ?g")
proof -
  have names: "graph_names ?g = nids @ map router_id nids"
    using assms(3) by (simp add: graph_names_def)
  have "router_id i \<notin> set nids" for i using assms(2) router_id_facts(2) by blast
  then have dist: "distinct (graph_names ?g)"
    using assms(1) by (auto simp: names distinct_map inj_on_def)
  have sub: "set (out_edges es i) \<subseteq> set es" for i by (auto simp: out_edges_def)
  have "filter (\<lambda>p. fst p = START) (map (\<lambda>nid. (nid, router_id nid)) nids) = []"
    using assms(2) by (auto simp: filter_empty_conv)
  then have one: "length (filter (\<lambda>p. fst p = START) (g_edges ?g)) = 1"
    using assms(5) by (simp add: o_def)
  show ?thesis
    unfolding graph_ok_def using dist one assms(2,4) sub
    by (auto simp: names set_path_targets)
qed

lemma build_worker_ok:
  assumes "workflow_ok render active (sn_workflow sn)"
    and "\<forall>i \<in> set active. map_of (sn_skills sn) i \<noteq> None"
  shows "\<exists>g. build_worker sn = Inr g \<and> graph_ok g
    \<and> set (graph_names g) = set (node_ids (list_items (dict_get (sn_workflow sn) ''nodes'')))
         \<union> router_id ` set (node_ids (list_items (dict_get (sn_workflow sn) ''nodes'')))"
proof -
  let ?w = "sn_workflow sn"
  from assms(1) obtain nodes edges where
    w: "dict_get ?w ''nodes'' = JList nodes" "dict_get ?w ''edges'' = JList edges"
    and nok: "\<forall>n \<in> set nodes. node_ok render active n" and dist: "distinct (node_ids nodes)"
    and eok: "\<forall>e \<in> set edges. edge_ok (node_ids nodes) e" and one: "start_edges edges = 1"
    by (auto simp: workflow_ok_def)
  let ?es = "map as_dict edges" and ?ns = "map as_dict nodes"
  define nids where "nids = map (\<lambda>n. as_str (dict_get n ''id'')) ?ns"
  have nids: "node_ids nodes = nids" using node_ids_view[OF nok] by (simp add: nids_def)
  have views: "workflow_nodes ?w = ?ns" "workflow_edges ?w = ?es"
    by (simp_all add: workflow_nodes_def workflow_edges_def w list_items_def)
  have "\<exists>y. add_worker_node (sn_skills sn) ?es x = Inr [y] \<and> fst y = as_str (dict_get x ''id'')"
    if "x \<in> set ?ns" for x
  proof -
    from that obtain n where "n \<in> set nodes" "x = as_dict n" by auto
    with nok add_worker_node_ok[OF _ assms(2), of render n ?es] show ?thesis by blast
  qed
  from collect_r_all2[of ?ns "add_worker_node (sn_skills sn) ?es", OF this] obtain added where
    added: "collect_r (add_worker_node (sn_skills sn) ?es) ?ns = Inr added"
    and "list_all2 (\<lambda>n y. fst y = as_str (dict_get n ''id'')) ?ns added" by blast
  then have fst_added: "map fst added = nids"
    unfolding nids_def by (intro nth_equalityI) (auto simp: list_all2_conv_all_nth)
  have keys: "require_key ''to'' ?es = Inr ()" "require_key ''from'' ?es = Inr ()"
    using eok edge_ok_view(1,2)[of "node_ids nodes"] by (auto intro!: require_key_ok)
  have "has_key ?w ''nodes''" "has_key ?w ''edges''" using w by (simp_all add: dict_get_has_key)
  with added keys have built: "build_worker sn = Inr
      \<lparr>g_nodes = added @ map (\<lambda>nid. (router_id nid, RouterNode nid (out_edges ?es nid), False)) nids,
       g_edges = map (\<lambda>e. (START, edge_to e)) (out_edges ?es START) @ map (\<lambda>nid. (nid, router_id nid)) nids,
       g_paths = map (\<lambda>nid. (router_id nid, path_targets (out_edges ?es nid))) nids\<rparr>"
    by (simp add: build_worker_def views nids_def Let_def)
  have "\<forall>i \<in> set nids. i \<noteq> START \<and> i \<noteq> END \<and> \<not> starts_with i ROUTER_PREFIX"
    using nok node_ok_id by (auto simp: nids_def)
  moreover have "\<forall>e \<in> set ?es. edge_to e \<in> insert END (set nids)"
    using eok edge_ok_view(4) by (auto simp: nids)
  moreover have "length (out_edges ?es START) = 1"
    using start_edges_view[OF eok] one by simp
  ultimately have "graph_ok (projr (build_worker sn))"
    using graph_ok_shape[of nids added ?es] dist fst_added by (simp add: built nids)
  moreover have "graph_names (projr (build_worker sn)) = nids @ map router_id nids"
    using fst_added by (simp add: built graph_names_def)
  ultimately show ?thesis by (simp add: built w list_items_def nids)
qed



subsection \<open>Tools, compile check and compile cache\<close>

definition materialize_tool :: "string list \<Rightarrow> tool_row \<Rightarrow> (string \<times> tool_row) option" where
  \<comment> \<open>the name the model sees and the row behind it; \<open>natives\<close> are the registered native tools\<close>
  "materialize_tool natives t =
     (if t_kind t = ''mcp'' \<or> t_kind t = ''a2a'' \<or> t_tool_name t \<in> set natives
      then Some (sanitize_tool_name (t_tool_key t), t) else None)"

definition resolve_tools_by_ids ::
    "string list \<Rightarrow> tool_row list \<Rightarrow> string list \<Rightarrow> (string \<times> tool_row) list" where
  "resolve_tools_by_ids natives rows ids =
     (if ids = [] then [] else List.map_filter (materialize_tool natives) (tools_by_ids rows ids))"

definition resolve_skill_tools ::
    "string list \<Rightarrow> tool_row list \<Rightarrow> skill_row \<Rightarrow> (string \<times> tool_row) list" where
  "resolve_skill_tools natives rows s = resolve_tools_by_ids natives rows (map t_id (s_tools s))"

lemma resolved_tools_bound:
  "(name, t) \<in> set (resolve_skill_tools natives rows s) \<Longrightarrow>
   t_status t = ''active'' \<and> t_id t \<in> t_id ` set (s_tools s) \<and> list_all tool_char name"
  by (auto simp: resolve_skill_tools_def resolve_tools_by_ids_def in_map_filter materialize_tool_def
      sanitize_tool_name_chars dest!: tools_by_ids_active split: if_splits)

definition compile_workflow_check ::
    "skill_row list \<Rightarrow> pydict \<Rightarrow> string \<Rightarrow> string option \<Rightarrow> json \<Rightarrow> build_error list" where
  "compile_workflow_check rows w persona model params =
     (case build_worker \<lparr>sn_id = None, sn_name = ''compile-check'', sn_persona = persona, sn_model = model,
        sn_model_params = params, sn_kind = ''custom'', sn_source = ''dynamic'', sn_updated_at = None,
        sn_workflow = w, sn_skills = skills_named rows w\<rparr> of
        Inl e \<Rightarrow> [e] | Inr g \<Rightarrow> [])"

type_synonym worker_key = "string \<times> instant option \<times> string \<times> nat"
type_synonym worker_cache = "worker_key \<Rightarrow> worker_graph option"

definition skills_digest ::
    "((string \<times> string option \<times> string \<times> instant option) list \<Rightarrow> string) \<Rightarrow> snapshot \<Rightarrow> string" where
  \<comment> \<open>\<open>sha\<close>: the hash of the serialised tuples\<close>
  "skills_digest sha sn = sha (sort_key fst
     (map (\<lambda>(i, s). (i, s_definition_hash s, s_status s, s_updated_at s)) (sn_skills sn)))"

definition worker_key ::
    "((string \<times> string option \<times> string \<times> instant option) list \<Rightarrow> string) \<Rightarrow> nat \<Rightarrow> snapshot \<Rightarrow> worker_key" where
  "worker_key sha checkpointer sn =
     ((case sn_id sn of Some i \<Rightarrow> i | None \<Rightarrow> ''None''), sn_updated_at sn, skills_digest sha sn, checkpointer)"

definition get_compiled_worker ::
    "((string \<times> string option \<times> string \<times> instant option) list \<Rightarrow> string) \<Rightarrow> nat \<Rightarrow> worker_cache \<Rightarrow> snapshot
       \<Rightarrow> (build_error + worker_graph) \<times> worker_cache" where
  "get_compiled_worker sha checkpointer cache sn =
     (if sn_id sn = None then (build_worker sn, cache)
      else (let key = worker_key sha checkpointer sn
            in case cache key of
                 Some g \<Rightarrow> (Inr g, cache)
               | None \<Rightarrow> (case build_worker sn of
                     Inl e \<Rightarrow> (Inl e, cache)
                   | Inr g \<Rightarrow> (Inr g, cache(key \<mapsto> g)))))"

definition cache_sound ::
    "((string \<times> string option \<times> string \<times> instant option) list \<Rightarrow> string) \<Rightarrow> nat \<Rightarrow> worker_cache \<Rightarrow> bool" where
  "cache_sound sha checkpointer cache \<longleftrightarrow> (\<forall>k g. cache k = Some g \<longrightarrow>
     (\<exists>sn. sn_id sn \<noteq> None \<and> worker_key sha checkpointer sn = k \<and> build_worker sn = Inr g))"

interpretation compiled: inv_system "\<lambda>cache sn. snd (get_compiled_worker sha checkpointer cache sn)"
    "cache_sound sha checkpointer"
  by unfold_locales
    (auto simp: get_compiled_worker_def cache_sound_def Let_def split: option.splits sum.splits)

lemma compiled_worker_of_same_key:
  assumes "cache_sound sha checkpointer cache"
    and "fst (get_compiled_worker sha checkpointer cache sn) = Inr g"
  shows "\<exists>sn'. worker_key sha checkpointer sn' = worker_key sha checkpointer sn \<and> build_worker sn' = Inr g"
proof (cases "sn_id sn \<noteq> None \<and> cache (worker_key sha checkpointer sn) \<noteq> None")
  case True
  with assms(2) have "cache (worker_key sha checkpointer sn) = Some g"
    by (auto simp: get_compiled_worker_def Let_def)
  with assms(1) show ?thesis unfolding cache_sound_def by blast
next
  case False
  with assms(2) have "build_worker sn = Inr g"
    by (auto simp: get_compiled_worker_def Let_def split: option.splits sum.splits if_splits)
  then show ?thesis by blast
qed

subsection \<open>Router records and node ids share one namespace\<close>

definition shadowed_workflow :: pydict where
  "shadowed_workflow =
     [(''nodes'', JList [JDict [(''id'', JStr ''a''), (''type'', JStr ''skill''), (''skill_id'', JStr ''s'')],
                       JDict [(''id'', JStr ''route:a''), (''type'', JStr ''skill''), (''skill_id'', JStr ''s'')]]),
      (''edges'', JList [JDict [(''from'', JStr ''START''), (''to'', JStr ''a'')],
                       JDict [(''from'', JStr ''a''), (''to'', JStr ''route:a'')],
                       JDict [(''from'', JStr ''route:a''), (''to'', JStr ''END'')]])]"

lemma format_route_only: "format_prior_outputs render [(route_key nid, out)] = []"
  by (simp add: format_prior_outputs_def is_route_key_def route_key_def starts_with_def)

text \<open>
  The validator accepts a workflow in which the id of one node is the state key under which
  the router of another node records its decision, and the output of the node with that id is
  then left out of the prior outputs every later skill node is prompted with.
\<close>

theorem route_key_shadows_a_node:
  "validate_workflow (\<lambda>_. []) (JDict shadowed_workflow) [''s''] = Inr []
   \<and> {''a'', route_key ''a''} \<subseteq> set (node_ids (list_items (dict_get shadowed_workflow ''nodes'')))
   \<and> format_prior_outputs render [(route_key ''a'', out)] = []"
proof (intro conjI)
  show "validate_workflow (\<lambda>_. []) (JDict shadowed_workflow) [''s''] = Inr []" by code_simp
  show "{''a'', route_key ''a''} \<subseteq> set (node_ids (list_items (dict_get shadowed_workflow ''nodes'')))"
    by code_simp
  show "format_prior_outputs render [(route_key ''a'', out)] = []" by (rule format_route_only)
qed

end
