(* ===== verification/Ladder.thy ===== *)
theory Ladder
  imports Worker
begin

text \<open>
  Capability resolution and execution (\<open>backend/app/orchestrator/ladder.py\<close>): the rungs in their
  order over the cached registry rows, the composition of ephemeral workers, the invocation of a
  worker with human gates as a loop over the decisions delivered so far, the step rows recorded
  from its outputs, and the result a dispatch amounts to. The run's frozen snapshot
  (\<open>backend/app/orchestrator/snapshot.py\<close>) follows: merges, bounded lists, and the resolution a
  replay reads back.
\<close>

section \<open>Resolution\<close>

record 'p resolution =
  res_rung :: string
  res_tier :: string
  res_kind :: string
  res_source :: string
  res_entity_id :: "string option"
  res_entity_name :: string
  res_payload :: 'p
  res_version :: "int option"
  res_hash :: "string option"

datatype payload =
    ToolPayload tool_row
  | SkillPayload skill_row
  | NativePayload string agent_row
  | SnapshotPayload "snapshot option"
  | SkillsPayload "skill_row list" string

datatype resolution_error =
    NotActive string
  | NotExposed string
  | DynamicDisabled
  | NotASkillId string
  | NoSkills
  | UnknownCapability json
  | CapabilityKeyError
  | CapabilityTypeError

record registries =
  rg_tools :: "tool_row list"
  rg_skills :: "skill_row list"
  rg_agents :: "agent_row list"
  rg_dynamic_enabled :: bool

definition cached_snapshot :: "registries \<Rightarrow> string \<Rightarrow> snapshot option" where
  "cached_snapshot rg i = map_option
     (\<lambda>(a, w, skills). \<lparr>sn_id = Some (a_id a), sn_name = a_name a, sn_persona = a_persona a,
        sn_model = a_model a, sn_model_params = a_model_params a, sn_kind = a_kind a,
        sn_source = a_source a, sn_updated_at = a_updated_at a, sn_workflow = w, sn_skills = skills\<rparr>)
     (sub_agent_snapshot (rg_skills rg) (rg_agents rg) i)"

definition tool_resolution :: "tool_row \<Rightarrow> payload resolution" where
  "tool_resolution t = \<lparr>res_rung = ''direct_tool'', res_tier = ''tool'', res_kind = t_kind t,
     res_source = t_source t, res_entity_id = Some (t_id t), res_entity_name = t_tool_key t,
     res_payload = ToolPayload t, res_version = t_schema_version t, res_hash = t_schema_hash t\<rparr>"

definition skill_resolution :: "skill_row \<Rightarrow> payload resolution" where
  "skill_resolution s = \<lparr>res_rung = ''direct_skill'', res_tier = ''skill'', res_kind = s_kind s,
     res_source = s_source s, res_entity_id = Some (s_id s), res_entity_name = s_name s,
     res_payload = SkillPayload s, res_version = s_definition_version s, res_hash = s_definition_hash s\<rparr>"

definition native_resolution :: "agent_row \<Rightarrow> payload resolution" where
  "native_resolution a = \<lparr>res_rung = ''native_sub_agent'', res_tier = ''sub_agent'', res_kind = ''native'',
     res_source = a_source a, res_entity_id = Some (a_id a), res_entity_name = a_name a,
     res_payload = NativePayload (a_name a) a, res_version = a_definition_version a,
     res_hash = a_definition_hash a\<rparr>"

definition custom_resolution :: "registries \<Rightarrow> agent_row \<Rightarrow> payload resolution" where
  "custom_resolution rg a = \<lparr>res_rung = ''custom_sub_agent'', res_tier = ''sub_agent'', res_kind = ''custom'',
     res_source = a_source a, res_entity_id = Some (a_id a), res_entity_name = a_name a,
     res_payload = SnapshotPayload (cached_snapshot rg (a_id a)), res_version = a_definition_version a,
     res_hash = a_definition_hash a\<rparr>"

fun composed_skills ::
    "(string \<Rightarrow> bool) \<Rightarrow> skill_row list \<Rightarrow> string list \<Rightarrow> resolution_error + skill_row list" where
  \<comment> \<open>the loop of \<open>_dynamic_resolution\<close>; \<open>is_uuid\<close>: what \<open>UUID(sid)\<close> accepts\<close>
  "composed_skills is_uuid skills [] = Inr []"
| "composed_skills is_uuid skills (sid # sids) =
     (if \<not> is_uuid sid then Inl (NotASkillId sid)
      else (case skill_by_id skills sid of
          None \<Rightarrow> Inl (NotActive sid)
        | Some s \<Rightarrow>
            (if s_status s \<noteq> ''active'' then Inl (NotActive sid)
             else if \<not> s_exposed s then Inl (NotExposed sid)
             else bind_r (composed_skills is_uuid skills sids) (\<lambda>ss. Inr (s # ss)))))"

definition dynamic_resolution ::
    "(string \<Rightarrow> bool) \<Rightarrow> string \<Rightarrow> registries \<Rightarrow> string list \<Rightarrow> resolution_error + payload resolution" where
  \<comment> \<open>\<open>callsign\<close>: the next worker callsign of the run\<close>
  "dynamic_resolution is_uuid callsign rg sids =
     (if \<not> rg_dynamic_enabled rg then Inl DynamicDisabled
      else bind_r (composed_skills is_uuid (rg_skills rg) sids) (\<lambda>snaps.
        if snaps = [] then Inl NoSkills
        else Inr \<lparr>res_rung = ''dynamic_worker'', res_tier = ''sub_agent'', res_kind = ''dynamic'',
           res_source = ''dynamic'', res_entity_id = None,
           res_entity_name = callsign @ '' ('' @ join ''+'' (map s_name snaps) @ '')'',
           res_payload = SkillsPayload snaps callsign, res_version = None, res_hash = None\<rparr>))"

definition covering_native :: "agent_row list \<Rightarrow> string \<Rightarrow> agent_row option" where
  "covering_native agents sid = find (\<lambda>a. a_kind a = ''native'' \<and> sid \<in> set (a_covers a)) agents"

definition using_custom :: "agent_row list \<Rightarrow> string \<Rightarrow> agent_row option" where
  "using_custom agents sid = find (\<lambda>a. a_kind a = ''custom'' \<and> sid \<in> set (a_skill_ids a)) agents"

definition resolve_tool :: "registries \<Rightarrow> string \<Rightarrow> resolution_error + payload resolution" where
  "resolve_tool rg i = (case tool_by_id (rg_tools rg) i of
       None \<Rightarrow> Inl (NotActive i)
     | Some t \<Rightarrow> (if t_status t \<noteq> ''active'' then Inl (NotActive i)
                 else if \<not> t_exposed t then Inl (NotExposed i)
                 else Inr (tool_resolution t)))"

definition resolve_skill ::
    "(string \<Rightarrow> bool) \<Rightarrow> string \<Rightarrow> registries \<Rightarrow> string \<Rightarrow> resolution_error + payload resolution" where
  "resolve_skill is_uuid callsign rg i = (case skill_by_id (rg_skills rg) i of
       None \<Rightarrow> Inl (NotActive i)
     | Some s \<Rightarrow>
         (if s_status s \<noteq> ''active'' then Inl (NotActive i)
          else if s_exposed s then Inr (skill_resolution s)
          else (let agents = active_agents (rg_agents rg)
                in case covering_native agents (s_id s) of
                     Some a \<Rightarrow> Inr (native_resolution a)
                   | None \<Rightarrow> (case using_custom agents (s_id s) of
                       Some a \<Rightarrow> Inr (custom_resolution rg a)
                     | None \<Rightarrow> dynamic_resolution is_uuid callsign rg [s_id s]))))"

definition resolve_agent :: "registries \<Rightarrow> string \<Rightarrow> resolution_error + payload resolution" where
  "resolve_agent rg i = (case agent_by_id (rg_agents rg) i of
       None \<Rightarrow> Inl (NotActive i)
     | Some a \<Rightarrow>
         (if a_status a \<noteq> ''active'' then Inl (NotActive i)
          else if a_kind a = ''native'' then Inr (native_resolution a)
          else Inr (custom_resolution rg a)))"

definition capability_id :: "(json \<Rightarrow> string) \<Rightarrow> pydict \<Rightarrow> resolution_error + string" where
  "capability_id render cap =
     (if has_key cap ''id'' then Inr (py_str render (dict_get cap ''id'')) else Inl CapabilityKeyError)"

definition resolve_capability ::
    "(json \<Rightarrow> string) \<Rightarrow> (string \<Rightarrow> bool) \<Rightarrow> string \<Rightarrow> registries \<Rightarrow> pydict
       \<Rightarrow> resolution_error + payload resolution" where
  "resolve_capability render is_uuid callsign rg cap =
     (let ty = dict_get cap ''type''
      in if ty = JStr ''direct_tool'' then bind_r (capability_id render cap) (resolve_tool rg)
         else if ty = JStr ''direct_skill'' then
           bind_r (capability_id render cap) (resolve_skill is_uuid callsign rg)
         else if ty = JStr ''sub_agent'' then bind_r (capability_id render cap) (resolve_agent rg)
         else if ty = JStr ''spin_worker'' then
           (let ids = dict_get cap ''skill_ids''
            in case (if truthy ids then iter_items ids else Inr []) of
                   Inl e \<Rightarrow> Inl CapabilityTypeError
                 | Inr vs \<Rightarrow> dynamic_resolution is_uuid callsign rg (map (py_str render) vs))
         else Inl (UnknownCapability ty))"

text \<open>What a resolution may reach: the contract every rung is held to.\<close>

definition reach_ok :: "registries \<Rightarrow> payload resolution \<Rightarrow> bool" where
  "reach_ok rg r \<longleftrightarrow> (case res_payload r of
       ToolPayload t \<Rightarrow> res_rung r = ''direct_tool'' \<and> t \<in> set (rg_tools rg)
         \<and> t_status t = ''active'' \<and> t_exposed t
     | SkillPayload s \<Rightarrow> res_rung r = ''direct_skill'' \<and> s \<in> set (rg_skills rg)
         \<and> s_status s = ''active'' \<and> s_exposed s
     | NativePayload name a \<Rightarrow> res_rung r = ''native_sub_agent'' \<and> a \<in> set (rg_agents rg)
         \<and> a_status a = ''active'' \<and> a_kind a = ''native''
     | SnapshotPayload sn \<Rightarrow> res_rung r = ''custom_sub_agent''
         \<and> (\<exists>a \<in> set (rg_agents rg). a_status a = ''active'' \<and> res_entity_id r = Some (a_id a))
     | SkillsPayload ss callsign \<Rightarrow> res_rung r = ''dynamic_worker'' \<and> rg_dynamic_enabled rg \<and> ss \<noteq> []
         \<and> (\<forall>s \<in> set ss. s \<in> set (rg_skills rg) \<and> s_status s = ''active'' \<and> s_exposed s))"

lemma composed_skills_exposed:
  "composed_skills is_uuid skills sids = Inr ss \<Longrightarrow>
   map s_id ss = sids \<and> (\<forall>s \<in> set ss. s \<in> set skills \<and> s_status s = ''active'' \<and> s_exposed s)"
  by (induction sids arbitrary: ss)
    (auto simp: bind_r_Inr split: if_splits option.splits dest!: skill_by_id_Some)

lemma dynamic_resolution_ok:
  "dynamic_resolution is_uuid callsign rg sids = Inr r \<Longrightarrow> reach_ok rg r \<and> res_rung r = ''dynamic_worker''"
  by (auto simp: dynamic_resolution_def bind_r_Inr reach_ok_def split: if_splits
      dest: composed_skills_exposed)

lemma resolve_tool_ok: "resolve_tool rg i = Inr r \<Longrightarrow> reach_ok rg r \<and> res_rung r = ''direct_tool''"
  by (auto simp: resolve_tool_def reach_ok_def tool_resolution_def tool_by_id_def
      split: option.splits if_splits dest!: find_Some_in)

lemma resolve_agent_ok: "resolve_agent rg i = Inr r \<Longrightarrow> reach_ok rg r"
  by (auto simp: resolve_agent_def reach_ok_def native_resolution_def custom_resolution_def
      split: option.splits if_splits dest!: agent_by_id_Some)

lemma agents_for_skill:
  "covering_native (active_agents as) sid = Some a \<Longrightarrow>
     a \<in> set as \<and> a_status a = ''active'' \<and> a_kind a = ''native'' \<and> sid \<in> set (a_covers a)"
  "using_custom (active_agents as) sid = Some b \<Longrightarrow>
     b \<in> set as \<and> a_status b = ''active'' \<and> a_kind b = ''custom'' \<and> sid \<in> set (a_skill_ids b)"
  by (auto simp: covering_native_def using_custom_def active_agents_def dest!: find_Some_in)

lemma hidden_never_composed:
  "skill_by_id skills i = Some s \<Longrightarrow> \<not> s_exposed s \<Longrightarrow> i = s_id s \<Longrightarrow>
   composed_skills is_uuid skills [i] \<noteq> Inr ss"
  by (auto split: if_splits)

lemma resolve_skill_ok:
  assumes "resolve_skill is_uuid callsign rg i = Inr r"
  shows "reach_ok rg r \<and> res_rung r \<noteq> ''dynamic_worker''"
proof -
  from assms obtain s where s: "skill_by_id (rg_skills rg) i = Some s" "s_status s = ''active''"
    by (auto simp: resolve_skill_def split: option.splits if_splits)
  note sid = skill_by_id_Some[OF s(1)]
  show ?thesis
  proof (cases "s_exposed s")
    case True
    with assms s sid show ?thesis
      by (auto simp: resolve_skill_def reach_ok_def skill_resolution_def)
  next
    case False
    have "dynamic_resolution is_uuid callsign rg [s_id s] \<noteq> Inr r"
      using s(1) sid False by (auto simp: dynamic_resolution_def bind_r_Inr)
    with assms s False show ?thesis
      by (auto simp: resolve_skill_def Let_def reach_ok_def native_resolution_def custom_resolution_def
          split: option.splits dest!: agents_for_skill)
  qed
qed

lemma resolve_reach_ok:
  assumes "resolve_capability render is_uuid callsign rg cap = Inr r"
  shows "reach_ok rg r"
  using assms resolve_tool_ok resolve_skill_ok resolve_agent_ok dynamic_resolution_ok
  by (auto simp: resolve_capability_def Let_def bind_r_Inr split: if_splits sum.splits)

text \<open>
  C4: whatever capability a plan names, the ladder resolves it only to something it may reach:
  an active and exposed tool or skill, an active sub agent, or a non-empty composition of active
  and exposed skills while dynamic workers are enabled. A hidden skill reaches a run only
  through a sub agent that owns it.
\<close>

theorem ladder_reaches_only_allowed:
  assumes "resolve_capability render is_uuid callsign rg cap = Inr r"
  shows "reach_ok rg r"
  using assms by (rule resolve_reach_ok)

text \<open>
  The fourth rung is never taken for a single skill: an exposed skill resolves to itself, a
  hidden one to a sub agent or to an error, so an ephemeral worker only comes from an explicit
  \<open>spin_worker\<close> capability.
\<close>

theorem direct_skill_never_dynamic:
  assumes "resolve_capability render is_uuid callsign rg cap = Inr r"
    and "res_rung r = ''dynamic_worker''"
  shows "dict_get cap ''type'' = JStr ''spin_worker''"
proof (rule ccontr)
  assume "dict_get cap ''type'' \<noteq> JStr ''spin_worker''"
  with assms(1) obtain i where "resolve_tool rg i = Inr r \<or> resolve_skill is_uuid callsign rg i = Inr r
      \<or> resolve_agent rg i = Inr r"
    by (auto simp: resolve_capability_def Let_def bind_r_Inr split: if_splits)
  with assms(2) show False
    using resolve_tool_ok[of rg i r] resolve_skill_ok[of is_uuid callsign rg i r]
    by (auto simp: resolve_agent_def native_resolution_def custom_resolution_def split: option.splits if_splits)
qed

definition sample_registries :: registries where
  "sample_registries = \<lparr>rg_tools = [sample_tool], rg_skills = [sample_skill ''a'',
      (sample_skill ''h'')\<lparr>s_exposed := False\<rparr>], rg_agents = [], rg_dynamic_enabled = True\<rparr>"

definition spin_ab :: pydict where
  "spin_ab = [(''type'', JStr ''spin_worker''), (''skill_ids'', JList [JStr ''a''])]"

lemma spin_resolves:
  "\<exists>r. resolve_capability (\<lambda>_. []) (\<lambda>_. True) ''worker-alpha'' sample_registries spin_ab = Inr r
     \<and> res_rung r = ''dynamic_worker''"
  by (simp add: resolve_capability_def Let_def spin_ab_def dict_get_def iter_items_def
      dynamic_resolution_def sample_registries_def skill_by_id_def sample_skill_def)

theorem ladder_reaches_only_allowed_witness:
  "\<exists>r. resolve_capability (\<lambda>_. []) (\<lambda>_. True) ''worker-alpha'' sample_registries spin_ab = Inr r
     \<and> reach_ok sample_registries r"
  using spin_resolves ladder_reaches_only_allowed by blast

theorem direct_skill_never_dynamic_witness:
  "dict_get spin_ab ''type'' = JStr ''spin_worker''"
  using spin_resolves direct_skill_never_dynamic by blast

section \<open>Results and recorded steps\<close>

record dispatch_result =
  dr_status :: string
  dr_output :: string
  dr_denied :: "(string \<times> string) list"   \<comment> \<open>denied gates with the reviewer's note\<close>

definition result_nodes :: "pydict \<Rightarrow> string list" where
  "result_nodes outs = filter (\<lambda>k. \<not> is_route_key k) (sort (map fst outs))"

definition result_part :: "(json \<Rightarrow> string) \<Rightarrow> json \<Rightarrow> string list" where
  \<comment> \<open>what one node output adds to \<open>parts\<close>\<close>
  "result_part render out = (case out of
       JDict d \<Rightarrow>
         (let txt = py_str render (dict_get_or d ''output'' (JStr []))
          in if dict_get d ''status'' = JStr ''ok'' \<and> txt \<noteq> [] then [txt] else [])
     | _ \<Rightarrow> [py_str render out])"

definition denial :: "(json \<Rightarrow> string) \<Rightarrow> pydict \<Rightarrow> string \<Rightarrow> (string \<times> string) list" where
  "denial render outs nid = (case dict_get outs nid of
       JDict d \<Rightarrow>
         (if dict_get d ''status'' = JStr ''denied''
          then [(nid, let note = dict_get d ''note''
                      in if truthy note then py_str render note else ''denied'')] else [])
     | _ \<Rightarrow> [])"

definition verdict :: "string \<times> string \<Rightarrow> string" where
  "verdict d = ''the human reviewer DENIED step '' @ fst d @ '' with the note: '' @ snd d"

definition worker_result :: "(json \<Rightarrow> string) \<Rightarrow> pydict \<Rightarrow> dispatch_result" where
  "worker_result render outs =
     (let nodes = result_nodes outs;
          parts = concat (map (\<lambda>n. result_part render (dict_get outs n)) nodes);
          denials = concat (map (denial render outs) nodes);
          body = join [CHR 0x0A] parts;
          txt = (if body = [] then ''(no output)'' else body)
      in if denials = [] then \<lparr>dr_status = ''ok'', dr_output = txt, dr_denied = []\<rparr>
         else \<lparr>dr_status = ''denied'',
           dr_output = txt @ [CHR 0x0A, CHR 0x0A] @ ''[human review] '' @ join ''; '' (map verdict denials)
             @ ''. The workflow stopped at the denied gate: the gated action was NOT performed and no step after it ran.'',
           dr_denied = denials\<rparr>)"

definition denied_node :: "pydict \<Rightarrow> string \<Rightarrow> bool" where
  "denied_node outs nid \<longleftrightarrow> nid \<in> fst ` set outs \<and> \<not> is_route_key nid
     \<and> (\<exists>d. dict_get outs nid = JDict d \<and> dict_get d ''status'' = JStr ''denied'')"

lemma denial_Cons: "denial render outs nid \<noteq> [] \<longleftrightarrow>
    (\<exists>d. dict_get outs nid = JDict d \<and> dict_get d ''status'' = JStr ''denied'')"
  by (auto simp: denial_def split: json.splits)

lemma set_result_nodes: "set (result_nodes outs) = {k \<in> fst ` set outs. \<not> is_route_key k}"
  by (auto simp: result_nodes_def)

lemma fst_denials:
  "fst ` set (concat (map (denial render outs) (result_nodes outs))) = {n. denied_node outs n}"
proof -
  have "fst ` set (denial render outs n) = (if denial render outs n = [] then {} else {n})" for n
    by (auto simp: denial_def split: json.splits)
  then have "fst ` set (concat (map (denial render outs) ns)) = {n \<in> set ns. denial render outs n \<noteq> []}" for ns
    by (induction ns) (auto simp: image_Un)
  also have "{n \<in> set (result_nodes outs). denial render outs n \<noteq> []} = {n. denied_node outs n}"
    by (auto simp: denied_node_def set_result_nodes denial_Cons)
  finally show ?thesis .
qed

text \<open>
  A refusal never disappears: the result of a dispatch has status \<open>denied\<close> exactly when some
  gate of the workflow was denied, and it then names every denied gate and no other node.
\<close>

theorem denial_always_surfaces:
  "(dr_status (worker_result render outs) = ''denied'') = (\<exists>n. denied_node outs n)
   \<and> fst ` set (dr_denied (worker_result render outs)) = {n. denied_node outs n}"
proof -
  let ?ds = "concat (map (denial render outs) (result_nodes outs))"
  have "?ds = [] \<longleftrightarrow> {n. denied_node outs n} = {}"
    unfolding fst_denials[of render outs, symmetric] by (simp only: image_is_empty set_empty)
  then show ?thesis
    using fst_denials[of render outs]
    by (cases "?ds = []") (auto simp: worker_result_def Let_def)
qed

record step_row =
  st_type :: string
  st_status :: string
  st_node :: string

definition step_of_output :: "pydict \<Rightarrow> string \<Rightarrow> step_row" where
  "step_of_output outs nid =
     (let out = dict_get outs nid
      in if is_route_key nid then \<lparr>st_type = ''route'', st_status = ''completed'', st_node = nid\<rparr>
         else if is_dict out \<and> dict_get (as_dict out) ''node_type'' = JStr ''hitl''
         then \<lparr>st_type = ''hitl'', st_status = ''completed'', st_node = nid\<rparr>
         else if is_dict out \<and> dict_get (as_dict out) ''status'' = JStr ''error''
         then \<lparr>st_type = ''skill'', st_status = ''failed'', st_node = nid\<rparr>
         else \<lparr>st_type = ''skill'', st_status = ''completed'', st_node = nid\<rparr>)"

fun record_loop :: "pydict \<Rightarrow> string list \<Rightarrow> string list \<Rightarrow> step_row list \<times> string list" where
  "record_loop outs [] recorded = ([], recorded)"
| "record_loop outs (nid # nids) recorded =
     (if nid \<in> set recorded then record_loop outs nids recorded
      else (case record_loop outs nids (nid # recorded) of
              (rows, rec) \<Rightarrow> (step_of_output outs nid # rows, rec)))"

definition record_new_outputs :: "pydict \<Rightarrow> string list \<Rightarrow> step_row list \<times> string list" where
  "record_new_outputs outs recorded = record_loop outs (sort (map fst outs)) recorded"

lemma step_of_output_node [simp]: "st_node (step_of_output outs nid) = nid"
  by (simp add: step_of_output_def Let_def)

lemma record_loop_rows:
  "record_loop outs nids recorded = (rows, rec) \<Longrightarrow>
   distinct (map st_node rows) \<and> set (map st_node rows) \<inter> set recorded = {}
   \<and> set rec = set recorded \<union> set nids \<and> set (map st_node rows) = set nids - set recorded"
proof (induction outs nids recorded arbitrary: rows rec rule: record_loop.induct)
  case (2 outs nid nids recorded)
  show ?case
  proof (cases "nid \<in> set recorded")
    case True
    with 2 show ?thesis by auto
  next
    case False
    obtain rows' rec' where r: "record_loop outs nids (nid # recorded) = (rows', rec')"
      by (cases "record_loop outs nids (nid # recorded)")
    with 2(3) False have eq: "rows = step_of_output outs nid # rows'" "rec = rec'" by auto
    from 2(2)[OF False r] False show ?thesis unfolding eq by auto
  qed
qed simp

lemma record_loop_cong:
  "set rec1 = set rec2 \<Longrightarrow> fst (record_loop outs nids rec1) = fst (record_loop outs nids rec2)
     \<and> set (snd (record_loop outs nids rec1)) = set (snd (record_loop outs nids rec2))"
proof (induction nids arbitrary: rec1 rec2)
  case (Cons nid nids)
  have "set (nid # rec1) = set (nid # rec2)" using Cons.prems by simp
  from Cons.IH[OF this] Cons.IH[OF Cons.prems] Cons.prems show ?case
    by (auto split: prod.splits)
qed simp

section \<open>Invoking a worker with human gates\<close>

text \<open>
  The worker is an oracle: \<open>invoke w i\<close> runs it on an input from its checkpoint \<open>w\<close> until it
  completes or pauses and returns the new checkpoint, the accumulated node outputs and the
  pending interrupt. \<open>resumes\<close> are the human decisions delivered to this dispatch so far, in order:
  each \<open>interrupt()\<close> call takes the next one and pauses the run when there is none.
\<close>

datatype worker_input = FreshTask string | ResumeWith json | Continue

record worker_state =
  ws_next :: bool
  ws_outputs :: pydict
  ws_interrupt :: "pydict option"

datatype 'w hitl_outcome = PausedAt pydict 'w | Finished dispatch_result

type_synonym 'w hitl_run = "step_row list \<times> pydict list \<times> 'w hitl_outcome"
type_synonym 'w invoker = "'w \<Rightarrow> worker_input \<Rightarrow> 'w \<times> pydict \<times> pydict option"

fun hitl_wait ::
    "'w invoker \<Rightarrow> (json \<Rightarrow> string) \<Rightarrow> json list \<Rightarrow> pydict \<Rightarrow> bool \<Rightarrow> 'w \<Rightarrow> string list \<Rightarrow> 'w hitl_run" where
  \<comment> \<open>one turn per gate: announce it unless this is a replay, wait for the decision, resume\<close>
  "hitl_wait invoke render [] p suppress w recorded = ([], if suppress then [] else [p], PausedAt p w)"
| "hitl_wait invoke render (d # ds) p suppress w recorded =
     (case invoke w (ResumeWith d) of (w', outs, intr) \<Rightarrow>
      case record_new_outputs outs recorded of (rows, recorded') \<Rightarrow>
      case intr of
        None \<Rightarrow> (rows, if suppress then [] else [p], Finished (worker_result render outs))
      | Some p' \<Rightarrow>
          (case hitl_wait invoke render ds p' False w' recorded' of (rows', emitted, res) \<Rightarrow>
             (rows @ rows', (if suppress then [] else [p]) @ emitted, res)))"

definition hitl_start ::
    "'w invoker \<Rightarrow> (json \<Rightarrow> string) \<Rightarrow> worker_input \<Rightarrow> json list \<Rightarrow> 'w \<Rightarrow> string list \<Rightarrow> 'w hitl_run" where
  \<comment> \<open>the first turn of the loop when no gate is pending\<close>
  "hitl_start invoke render inp resumes w recorded =
     (case invoke w inp of (w', outs, intr) \<Rightarrow>
      case record_new_outputs outs recorded of (rows, recorded') \<Rightarrow>
      case intr of
        None \<Rightarrow> (rows, [], Finished (worker_result render outs))
      | Some p \<Rightarrow> (case hitl_wait invoke render resumes p False w' recorded' of (rows', emitted, res) \<Rightarrow>
                    (rows @ rows', emitted, res)))"

definition hitl_outputs :: "pydict \<Rightarrow> nat" where
  "hitl_outputs outs = length (filter (\<lambda>(k, v). is_dict v \<and> dict_get (as_dict v) ''node_type'' = JStr ''hitl'') outs)"

definition invoke_worker_with_hitl ::
    "'w invoker \<Rightarrow> ('w \<Rightarrow> worker_state option) \<Rightarrow> (json \<Rightarrow> string) \<Rightarrow> string \<Rightarrow> json list \<Rightarrow> 'w \<Rightarrow> 'w hitl_run" where
  "invoke_worker_with_hitl invoke state render task resumes w = (case state w of
       None \<Rightarrow> hitl_start invoke render (FreshTask task) resumes w []
     | Some st \<Rightarrow>
         (if \<not> ws_next st then
            (if ws_outputs st \<noteq> [] then ([], [], Finished (worker_result render (ws_outputs st)))
             else hitl_start invoke render (FreshTask task) resumes w [])
          else (let recorded = map fst (ws_outputs st)
                in case ws_interrupt st of
                     None \<Rightarrow> hitl_start invoke render Continue resumes w recorded
                   | Some p \<Rightarrow>
                       (let burn = hitl_outputs (ws_outputs st)
                        in if length resumes < burn then ([], [], PausedAt p w)
                           else hitl_wait invoke render (drop burn resumes) p True w recorded))))"

lemma hitl_wait_cong:
  "set rec1 = set rec2 \<Longrightarrow>
   hitl_wait invoke render ds p quiet w rec1 = hitl_wait invoke render ds p quiet w rec2"
proof (induction ds arbitrary: p quiet w rec1 rec2)
  case (Cons d ds)
  obtain w' outs intr where i: "invoke w (ResumeWith d) = (w', outs, intr)"
    by (cases "invoke w (ResumeWith d)")
  obtain rows r1 where r1: "record_new_outputs outs rec1 = (rows, r1)" by fastforce
  moreover from record_loop_cong[OF Cons.prems] r1 obtain r2
    where "record_new_outputs outs rec2 = (rows, r2)" "set r1 = set r2"
    by (metis fst_conv prod.collapse record_new_outputs_def snd_conv)
  ultimately show ?case
    using Cons.IH[of r1 r2] by (auto simp: i split: option.splits prod.splits)
qed simp

lemma hitl_wait_emit: "hitl_wait invoke render ds p quiet w recorded =
   (case hitl_wait invoke render ds p True w recorded of (rows, emitted, res) \<Rightarrow>
      (rows, (if quiet then [] else [p]) @ emitted, res))"
  by (cases ds) (auto split: prod.splits option.splits)

text \<open>Gates answered one after another: the recorded ids, the checkpoint and the pending gate.\<close>

inductive gate_reach ::
    "'w invoker \<Rightarrow> string list \<Rightarrow> 'w \<Rightarrow> pydict \<Rightarrow> string list \<Rightarrow> 'w \<Rightarrow> pydict \<Rightarrow> bool" for invoke where
  gate_refl: "gate_reach invoke r w p r w p"
| gate_step: "invoke w (ResumeWith d) = (w', outs, Some p') \<Longrightarrow>
     gate_reach invoke (snd (record_new_outputs outs r)) w' p' r1 w1 p1 \<Longrightarrow>
     gate_reach invoke r w p r1 w1 p1"

text \<open>
  A run over all decisions is the run over a prefix of them that pauses, followed by a run from
  the pause over the rest.
\<close>

lemma hitl_wait_split:
  assumes "hitl_wait invoke render ds p quiet w rec = (rows1, em1, PausedAt p1 w1)"
  shows "\<exists>rec1. gate_reach invoke rec w p rec1 w1 p1 \<and>
      (\<forall>es rows2 em2 res. hitl_wait invoke render es p1 True w1 rec1 = (rows2, em2, res) \<longrightarrow>
         hitl_wait invoke render (ds @ es) p quiet w rec = (rows1 @ rows2, em1 @ em2, res))"
  using assms
proof (induction ds arbitrary: p quiet w rec rows1 em1)
  case Nil
  then have eq: "rows1 = []" "em1 = (if quiet then [] else [p])" "p1 = p" "w1 = w" by auto
  show ?case
    by (intro exI[of _ rec]) (auto simp: eq hitl_wait_emit[of _ _ _ p quiet] intro: gate_refl)
next
  case (Cons d ds)
  obtain w' outs intr where i: "invoke w (ResumeWith d) = (w', outs, intr)"
    by (cases "invoke w (ResumeWith d)")
  obtain rows rec' where r: "record_new_outputs outs rec = (rows, rec')" by fastforce
  from Cons.prems obtain p' where p': "intr = Some p'" by (cases intr) (auto simp: i r)
  obtain rows' em' res where h: "hitl_wait invoke render ds p' False w' rec' = (rows', em', res)"
    by (cases "hitl_wait invoke render ds p' False w' rec'")
  from Cons.prems have eq: "rows1 = rows @ rows'" "em1 = (if quiet then [] else [p]) @ em'" "res = PausedAt p1 w1"
    by (simp_all add: i r p' h)
  from Cons.IH[OF h[unfolded eq(3)]] obtain rec1 where
    P: "gate_reach invoke rec' w' p' rec1 w1 p1"
    and split: "\<forall>es rows2 em2 res. hitl_wait invoke render es p1 True w1 rec1 = (rows2, em2, res) \<longrightarrow>
         hitl_wait invoke render (ds @ es) p' False w' rec' = (rows' @ rows2, em' @ em2, res)"
    by blast
  have "gate_reach invoke rec w p rec1 w1 p1"
    by (rule gate_step[where w' = w' and outs = outs and d = d and p' = p']) (use i p' P r in simp_all)
  moreover have "hitl_wait invoke render ((d # ds) @ es) p quiet w rec = (rows1 @ rows2, em1 @ em2, res2)"
    if "hitl_wait invoke render es p1 True w1 rec1 = (rows2, em2, res2)" for es rows2 em2 res2
    using split that by (simp add: i r p' eq)
  ultimately show ?case by blast
qed

lemma record_new_keys: "set (snd (record_new_outputs outs rec)) = set rec \<union> fst ` set outs"
  using record_loop_rows[of outs "sort (map fst outs)" rec]
  by (cases "record_loop outs (sort (map fst outs)) rec") (simp add: record_new_outputs_def)

definition saved_state :: "('w \<Rightarrow> worker_state option) \<Rightarrow> string list \<Rightarrow> 'w \<Rightarrow> pydict \<Rightarrow> bool" where
  \<comment> \<open>the checkpoint holds what was recorded and the gate it waits at\<close>
  "saved_state state r v q \<longleftrightarrow> (\<exists>st. state v = Some st \<and> set r = fst ` set (ws_outputs st)
     \<and> ws_next st \<and> ws_interrupt st = Some q)"

lemma gate_reach_saved:
  assumes "gate_reach invoke r w p r1 w1 p1"
    and law: "\<forall>v i v' outs p. invoke v i = (v', outs, Some p) \<longrightarrow>
      state v' = Some \<lparr>ws_next = True, ws_outputs = outs, ws_interrupt = Some p\<rparr>"
    and grow: "\<forall>v i v' outs intr st. invoke v i = (v', outs, intr) \<longrightarrow> state v = Some st
      \<longrightarrow> fst ` set (ws_outputs st) \<subseteq> fst ` set outs"
  shows "saved_state state r w p \<Longrightarrow> saved_state state r1 w1 p1"
  using assms(1)
proof (induction rule: gate_reach.induct)
  case (gate_step w d w' outs p' r r1 w1 p1 p)
  then obtain st where "state w = Some st" "set r = fst ` set (ws_outputs st)"
    unfolding saved_state_def by blast
  with grow[THEN spec, THEN spec, THEN spec, THEN spec, THEN spec, THEN spec, THEN mp, OF gate_step.hyps(1)]
  have "set r \<subseteq> fst ` set outs" by simp
  then have "set (snd (record_new_outputs outs r)) = fst ` set outs"
    by (auto simp: record_new_keys)
  with law gate_step.hyps(1) have "saved_state state (snd (record_new_outputs outs r)) w' p'"
    by (simp add: saved_state_def)
  then show ?case by (rule gate_step.IH)
qed


text \<open>
  Two example runtimes with checkpoints 0 (not started) to 3 (done): a workflow with two gates,
  and one whose skill asks the human through a remote tool before the workflow's own gate.
\<close>

definition gate_payload :: "string \<Rightarrow> pydict" where
  "gate_payload nid = [(''prompt'', JStr ''Approve?''), (''node_id'', JStr nid)]"

definition gate_output :: "string \<Rightarrow> json \<Rightarrow> pydict" where
  \<comment> \<open>the update the gate node returns for a decision\<close>
  "gate_output nid d = (case run_hitl (\<lambda>_. []) nid (Some (as_dict d)) of Update outs _ \<Rightarrow> outs | _ \<Rightarrow> [])"

definition approve :: json where
  "approve = JDict [(''decision'', JStr ''approve'')]"

definition deny :: json where
  "deny = JDict [(''decision'', JStr ''deny'')]"

fun two_gates :: "nat invoker" where
  "two_gates 0 i = (1, [], Some (gate_payload ''a''))"
| "two_gates (Suc 0) i = (2, gate_output ''a'' approve, Some (gate_payload ''b''))"
| "two_gates n i = (3, gate_output ''a'' approve @ gate_output ''b'' approve, None)"

fun two_gates_state :: "nat \<Rightarrow> worker_state option" where
  "two_gates_state 0 = None"
| "two_gates_state (Suc 0) = Some \<lparr>ws_next = True, ws_outputs = [], ws_interrupt = Some (gate_payload ''a'')\<rparr>"
| "two_gates_state (Suc (Suc 0)) = Some \<lparr>ws_next = True, ws_outputs = gate_output ''a'' approve,
     ws_interrupt = Some (gate_payload ''b'')\<rparr>"
| "two_gates_state _ = Some \<lparr>ws_next = False,
     ws_outputs = gate_output ''a'' approve @ gate_output ''b'' approve, ws_interrupt = None\<rparr>"

lemma two_gates_law:
  "\<forall>v i v' outs p. two_gates v i = (v', outs, Some p) \<longrightarrow>
      two_gates_state v' = Some \<lparr>ws_next = True, ws_outputs = outs, ws_interrupt = Some p\<rparr>"
proof (intro allI impI)
  fix v i v' outs p
  assume "two_gates v i = (v', outs, Some p)"
  then show "two_gates_state v' = Some \<lparr>ws_next = True, ws_outputs = outs, ws_interrupt = Some p\<rparr>"
    by (cases "(v, i)" rule: two_gates.cases) (auto simp: numeral_2_eq_2)
qed

lemma two_gates_grow:
  "\<forall>v i v' outs intr st. two_gates v i = (v', outs, intr) \<longrightarrow> two_gates_state v = Some st
      \<longrightarrow> fst ` set (ws_outputs st) \<subseteq> fst ` set outs"
proof (intro allI impI)
  fix v i v' outs intr st
  assume a: "two_gates v i = (v', outs, intr)" "two_gates_state v = Some st"
  show "fst ` set (ws_outputs st) \<subseteq> fst ` set outs"
  proof (cases v rule: two_gates_state.cases)
    case (4 n)
    then show ?thesis using a by auto
  qed (use a in auto)
qed


fun asking_worker :: "nat invoker" where
  "asking_worker 0 i = (1, [], Some (gate_payload ''a2a:ask''))"
| "asking_worker (Suc 0) i =
     (2, [(''draft'', JDict [(''status'', JStr ''ok''), (''output'', JStr ''text'')])], Some (gate_payload ''publish''))"
| "asking_worker n i =
     (3, [(''draft'', JDict [(''status'', JStr ''ok''), (''output'', JStr ''text'')])]
         @ (case i of ResumeWith d \<Rightarrow> gate_output ''publish'' d | _ \<Rightarrow> []), None)"

fun asking_state :: "nat \<Rightarrow> worker_state option" where
  "asking_state 0 = None"
| "asking_state (Suc 0) = Some \<lparr>ws_next = True, ws_outputs = [], ws_interrupt = Some (gate_payload ''a2a:ask'')\<rparr>"
| "asking_state n = Some \<lparr>ws_next = True,
     ws_outputs = [(''draft'', JDict [(''status'', JStr ''ok''), (''output'', JStr ''text'')])],
     ws_interrupt = Some (gate_payload ''publish'')\<rparr>"

text \<open>
  The burn counts the gate nodes among the outputs, so a decision that a tool of a skill
  consumed is not counted: in a workflow whose skill asked the human through a remote agent, the
  replay after the workflow's own gate hands that gate the earlier reply, and the reviewer's
  denial of the gated action is dropped.
\<close>

theorem tool_gate_reply_approves_next_gate:
  "snd (snd (invoke_worker_with_hitl asking_worker asking_state (\<lambda>_. []) ''t'' [approve] 0))
     = PausedAt (gate_payload ''publish'') 2
   \<and> (\<exists>rows emitted r. invoke_worker_with_hitl asking_worker asking_state (\<lambda>_. []) ''t'' [approve, deny] 2
        = (rows, emitted, Finished r) \<and> dr_status r = ''ok'')"
proof
  have t: "asking_worker 1 i = (2, [(''draft'', JDict [(''status'', JStr ''ok''), (''output'', JStr ''text'')])],
      Some (gate_payload ''publish''))" for i
    by simp
  show "snd (snd (invoke_worker_with_hitl asking_worker asking_state (\<lambda>_. []) ''t'' [approve] 0))
     = PausedAt (gate_payload ''publish'') 2"
    by (auto simp: invoke_worker_with_hitl_def hitl_start_def t split: prod.splits)
  let ?outs = "[(''draft'', JDict [(''status'', JStr ''ok''), (''output'', JStr ''text'')])] @ gate_output ''publish'' approve"
  have w2: "asking_worker 2 (ResumeWith approve) = (3, ?outs, None)"
    by (simp add: numeral_2_eq_2)
  have s2: "asking_state 2 = Some \<lparr>ws_next = True,
     ws_outputs = [(''draft'', JDict [(''status'', JStr ''ok''), (''output'', JStr ''text'')])],
     ws_interrupt = Some (gate_payload ''publish'')\<rparr>" by (simp add: numeral_2_eq_2)
  have "hitl_outputs [(''draft'', JDict [(''status'', JStr ''ok''), (''output'', JStr ''text'')])] = 0"
    by code_simp
  then have "snd (snd (invoke_worker_with_hitl asking_worker asking_state (\<lambda>_. []) ''t'' [approve, deny] 2))
      = Finished (worker_result (\<lambda>_. []) ?outs)"
    by (simp add: invoke_worker_with_hitl_def s2 w2 split: prod.splits)
  moreover have "dr_status (worker_result (\<lambda>_. []) ?outs) = ''ok''" by code_simp
  ultimately show "\<exists>rows emitted r. invoke_worker_with_hitl asking_worker asking_state (\<lambda>_. []) ''t'' [approve, deny] 2
        = (rows, emitted, Finished r) \<and> dr_status r = ''ok''"
    by (cases "invoke_worker_with_hitl asking_worker asking_state (\<lambda>_. []) ''t'' [approve, deny] 2") auto
qed

end
