(* ===== verification/Run_Record.thy ===== *)
theory Run_Record
  imports Ladder
begin

text \<open>
  What a run keeps about itself: the step rows and token totals written by the recorder
  (\<open>backend/app/orchestrator/recorder.py\<close>), the event bus that replays and fans out its events and
  the worker callsigns (\<open>backend/app/orchestrator/context.py\<close>), and the frozen snapshot with its
  merges, bounded lists and pinned resolutions (\<open>backend/app/orchestrator/snapshot.py\<close>). Metrics,
  spans and log lines are left out.
\<close>

section \<open>Step rows\<close>

record step_args =
  sa_type :: string
  sa_tier :: string
  sa_kind :: "string option"
  sa_entity_id :: "string option"
  sa_entity_name :: "string option"
  sa_node :: "string option"
  sa_parent :: "nat option"
  sa_version :: "int option"
  sa_hash :: "string option"
  sa_dispatch :: bool

record run_step =
  rs_id :: nat
  rs_type :: string
  rs_status :: string
  rs_parent :: "nat option"
  rs_node :: "string option"
  rs_entity_name :: "string option"
  rs_version :: "int option"
  rs_hash :: "string option"
  rs_output :: json
  rs_error :: "string option"
  rs_in :: int
  rs_out :: int

datatype run_event =
    Activity nat string
  | DispatchStart nat
  | DispatchEnd nat string
  | ErrorEvent nat string
  | RouteEvent string

record run_record =
  rr_steps :: "run_step list"
  rr_next :: nat
  rr_total_in :: int
  rr_total_out :: int
  rr_pinned :: "string list"
  rr_events :: "run_event list"

interpretation step_table: row_store "row_get rs_id" row_add "row_upd rs_id" rs_id
  by (rule row_store_rows)

definition new_step :: "step_args \<Rightarrow> nat \<Rightarrow> run_step" where
  "new_step a i = \<lparr>rs_id = i, rs_type = sa_type a, rs_status = ''running'', rs_parent = sa_parent a,
     rs_node = sa_node a, rs_entity_name = sa_entity_name a, rs_version = sa_version a,
     rs_hash = sa_hash a, rs_output = JNull, rs_error = None, rs_in = 0, rs_out = 0\<rparr>"

definition start_step :: "step_args \<Rightarrow> run_record \<Rightarrow> nat \<times> run_record" where
  \<comment> \<open>the database assigns the id; here the next unused number\<close>
  "start_step a rr =
     (let i = rr_next rr
      in (i, rr\<lparr>rr_steps := row_add (new_step a i) (rr_steps rr), rr_next := i + 1,
           rr_pinned := (case sa_entity_id a of
               Some e \<Rightarrow> if e \<noteq> [] then List.insert e (rr_pinned rr) else rr_pinned rr
             | None \<Rightarrow> rr_pinned rr),
           rr_events := rr_events rr @ [Activity i ''running'']
             @ (if sa_dispatch a then [DispatchStart i] else [])\<rparr>))"

definition close_row ::
    "(string option \<Rightarrow> string option) \<Rightarrow> string \<Rightarrow> json \<Rightarrow> string option \<Rightarrow> int \<Rightarrow> int \<Rightarrow> run_step \<Rightarrow> run_step" where
  "close_row clean status outp err tin tout s =
     s\<lparr>rs_status := status, rs_output := outp, rs_error := clean err, rs_in := tin, rs_out := tout\<rparr>"

definition finish_step ::
    "(string option \<Rightarrow> string option) \<Rightarrow> nat \<Rightarrow> string \<Rightarrow> json \<Rightarrow> string option \<Rightarrow> int \<Rightarrow> int \<Rightarrow> bool
       \<Rightarrow> run_record \<Rightarrow> run_record" where
  \<comment> \<open>\<open>clean\<close> is \<open>sanitize_error\<close>; the totals are incremented in the database\<close>
  "finish_step clean i status outp err tin tout dispatch rr =
     (let spent = (tin \<noteq> 0 \<or> tout \<noteq> 0)
      in rr\<lparr>rr_steps := row_upd rs_id i (close_row clean status outp err tin tout) (rr_steps rr),
            rr_total_in := rr_total_in rr + (if spent then tin else 0),
            rr_total_out := rr_total_out rr + (if spent then tout else 0),
            rr_events := rr_events rr
              @ (if status = ''failed''
                 then [ErrorEvent i (case err of Some e \<Rightarrow> (if e \<noteq> [] then e else ''step failed'') | None \<Rightarrow> ''step failed'')]
                 else [])
              @ [Activity i status] @ (if dispatch then [DispatchEnd i status] else [])\<rparr>)"

definition record_route ::
    "(string option \<Rightarrow> string option) \<Rightarrow> string \<Rightarrow> 'p resolution \<Rightarrow> run_record \<Rightarrow> run_record" where
  "record_route clean rung r rr =
     (case start_step \<lparr>sa_type = ''route'', sa_tier = ''orchestrator'', sa_kind = Some (res_kind r),
         sa_entity_id = res_entity_id r, sa_entity_name = Some (res_entity_name r), sa_node = None,
         sa_parent = None, sa_version = res_version r, sa_hash = res_hash r, sa_dispatch = False\<rparr> rr of
       (i, rr1) \<Rightarrow>
         (let rr2 = finish_step clean i ''completed''
             (JDict [(''rung'', JStr rung), (''resolved_to'', JStr (res_entity_name r))]) None 0 0 False rr1
          in rr2\<lparr>rr_events := rr_events rr2 @ [RouteEvent rung]\<rparr>))"

text \<open>Every id in use is below the next one, and the totals are the sums over the rows.\<close>

definition record_ok :: "run_record \<Rightarrow> bool" where
  "record_ok rr \<longleftrightarrow> (\<forall>s \<in> set (rr_steps rr). rs_id s < rr_next rr) \<and> distinct (map rs_id (rr_steps rr))
     \<and> rr_total_in rr = sum_list (map rs_in (rr_steps rr))
     \<and> rr_total_out rr = sum_list (map rs_out (rr_steps rr))
     \<and> (\<forall>s \<in> set (rr_steps rr). rs_status s = ''running'' \<longrightarrow> rs_in s = 0 \<and> rs_out s = 0)"

datatype record_event =
    StartStep step_args
  | FinishStep nat string json "string option" int int bool

definition is_running :: "run_record \<Rightarrow> nat \<Rightarrow> bool" where
  "is_running rr i \<longleftrightarrow> (\<exists>s. row_get rs_id (rr_steps rr) i = Some s \<and> rs_status s = ''running'')"

fun record_step :: "(string option \<Rightarrow> string option) \<Rightarrow> run_record \<Rightarrow> record_event \<Rightarrow> run_record" where
  \<comment> \<open>a step is finished once, with a final status\<close>
  "record_step clean rr (StartStep a) = snd (start_step a rr)"
| "record_step clean rr (FinishStep i status outp err tin tout d) =
     (if is_running rr i \<and> status \<noteq> ''running''
      then finish_step clean i status outp err tin tout d rr else rr)"

lemma sum_row_upd:
  assumes "distinct (map rs_id rows)" and "row_get rs_id rows i = Some s"
  shows "sum_list (map f (row_upd rs_id i g rows)) = sum_list (map f rows) - f s + (f (g s) :: int)"
  using assms
proof (induction rows)
  case (Cons r rows)
  show ?case
  proof (cases "rs_id r = i")
    case True
    with Cons.prems have "s = r" "i \<notin> rs_id ` set rows" by (auto simp: row_simps)
    then have "row_upd rs_id i g rows = rows"
      unfolding row_upd_def by (intro map_idI) auto
    with True \<open>s = r\<close> show ?thesis by (simp add: row_upd_def)
  next
    case False
    with Cons show ?thesis by (simp add: row_upd_def row_simps)
  qed
qed (simp add: row_simps)

lemma close_row_id [simp]: "rs_id (close_row clean status outp err tin tout s) = rs_id s"
  by (simp add: close_row_def)

interpretation recording: inv_system "record_step clean" record_ok
proof unfold_locales
  fix rr e
  assume ok: "record_ok rr"
  show "record_ok (record_step clean rr e)"
  proof (cases e)
    case (StartStep a)
    with ok show ?thesis
      by (auto simp: record_ok_def start_step_def Let_def new_step_def row_add_def less_Suc_eq)
  next
    case (FinishStep i status outp err tin tout d)
    show ?thesis
    proof (cases "is_running rr i \<and> status \<noteq> ''running''")
      case True
      then obtain s where s: "row_get rs_id (rr_steps rr) i = Some s" "rs_status s = ''running''"
        by (auto simp: is_running_def)
      from row_get_Some[OF s(1)] s(2) ok have "rs_in s = 0" "rs_out s = 0" by (auto simp: record_ok_def)
      with ok s True show ?thesis
        by (auto simp: FinishStep record_ok_def finish_step_def Let_def sum_row_upd map_key_row_upd close_row_def
            dest!: set_row_upd)
    next
      case False
      then show ?thesis using ok by (auto simp: FinishStep)
    qed
  qed
qed

definition empty_record :: run_record where
  "empty_record = \<lparr>rr_steps = [], rr_next = 0, rr_total_in = 0, rr_total_out = 0, rr_pinned = [], rr_events = []\<rparr>"

text \<open>
  The token totals of a run are at every moment the sums over its step rows, whatever the
  order in which parallel branches start and finish their steps: no spend is lost or counted
  twice.
\<close>

theorem totals_are_step_sums:
  "rr_total_in (foldl (record_step clean) empty_record es)
     = sum_list (map rs_in (rr_steps (foldl (record_step clean) empty_record es)))
   \<and> rr_total_out (foldl (record_step clean) empty_record es)
     = sum_list (map rs_out (rr_steps (foldl (record_step clean) empty_record es)))"
proof -
  have "record_ok empty_record" by (simp add: record_ok_def empty_record_def)
  then have "record_ok (foldl (record_step clean) empty_record es)" by (rule recording.run_inv)
  then show ?thesis by (simp add: record_ok_def)
qed

section \<open>The event bus\<close>

record sse =
  ev_type :: string
  ev_status :: "string option"
  ev_seq :: nat

record bus_entry =
  be_history :: "sse list"
  be_queues :: "(nat \<times> sse list) list"
  be_done :: bool
  be_done_at :: "int option"
  be_seq :: nat

type_synonym event_bus = "(nat \<times> bus_entry) list"

definition fresh_entry :: bus_entry where
  "fresh_entry = \<lparr>be_history = [], be_queues = [], be_done = False, be_done_at = None, be_seq = 0\<rparr>"

definition entry_of :: "event_bus \<Rightarrow> nat \<Rightarrow> bus_entry" where
  \<comment> \<open>\<open>setdefault\<close>\<close>
  "entry_of bus rid = (case map_of bus rid of Some e \<Rightarrow> e | None \<Rightarrow> fresh_entry)"

definition run_over :: "sse \<Rightarrow> bool" where
  "run_over ev \<longleftrightarrow> ev_type ev = ''done''
     \<or> (ev_type ev = ''run_status'' \<and> ev_status ev \<in> Some ` {''failed'', ''cancelled'', ''completed''})"

definition put_nowait :: "sse \<Rightarrow> nat \<times> sse list \<Rightarrow> nat \<times> sse list" where
  \<comment> \<open>a queue of 1000; a full one drops the event (the client resumes from history)\<close>
  "put_nowait ev q = (if length (snd q) < 1000 then (fst q, snd q @ [ev]) else q)"

definition add_event :: "int \<Rightarrow> string \<Rightarrow> string option \<Rightarrow> bus_entry \<Rightarrow> bus_entry" where
  "add_event now ty status e =
     (let n = be_seq e + 1; ev = \<lparr>ev_type = ty, ev_status = status, ev_seq = n\<rparr>
      in e\<lparr>be_seq := n, be_history := be_history e @ [ev],
           be_done := be_done e \<or> run_over ev,
           be_done_at := (if run_over ev then Some now else be_done_at e),
           be_queues := map (put_nowait ev) (be_queues e)\<rparr>)"

definition expired :: "int \<Rightarrow> int \<Rightarrow> bus_entry \<Rightarrow> bool" where
  "expired ttl now e \<longleftrightarrow> be_done e \<and> (case be_done_at e of None \<Rightarrow> False | Some t \<Rightarrow> ttl \<le> now - t)"

definition finished_runs :: "event_bus \<Rightarrow> nat list" where
  "finished_runs bus = map fst (sort_key (\<lambda>(rid, e). case be_done_at e of Some t \<Rightarrow> t | None \<Rightarrow> 0)
     (filter (\<lambda>(rid, e). be_done e) bus))"

definition evict :: "nat \<Rightarrow> int \<Rightarrow> int \<Rightarrow> event_bus \<Rightarrow> event_bus" where
  "evict max_runs ttl now bus =
     (let kept = filter (\<lambda>(rid, e). \<not> expired ttl now e) bus;
          victims = (if length kept > max_runs then take (length kept - max_runs) (finished_runs kept) else [])
      in filter (\<lambda>(rid, e). rid \<notin> set victims) kept)"

definition bus_emit ::
    "nat \<Rightarrow> int \<Rightarrow> int \<Rightarrow> nat \<Rightarrow> string \<Rightarrow> string option \<Rightarrow> event_bus \<Rightarrow> event_bus" where
  "bus_emit max_runs ttl now rid ty status bus =
     evict max_runs ttl now (dict_set bus rid (add_event now ty status (entry_of bus rid)))"

definition is_done :: "event_bus \<Rightarrow> nat \<Rightarrow> bool" where
  "is_done bus rid \<longleftrightarrow> (case map_of bus rid of None \<Rightarrow> False | Some e \<Rightarrow> be_done e)"

definition last_seq :: "event_bus \<Rightarrow> nat \<Rightarrow> nat" where
  "last_seq bus rid = (case map_of bus rid of None \<Rightarrow> 0 | Some e \<Rightarrow> be_seq e)"

definition subscribe :: "nat \<Rightarrow> nat \<Rightarrow> nat \<Rightarrow> event_bus \<Rightarrow> sse list \<times> event_bus" where
  "subscribe rid after queue bus =
     (let e = entry_of bus rid
      in (filter (\<lambda>ev. after < ev_seq ev) (be_history e),
          dict_set bus rid (e\<lparr>be_queues := be_queues e @ [(queue, [])]\<rparr>)))"

definition unsubscribe :: "nat \<Rightarrow> nat \<Rightarrow> event_bus \<Rightarrow> event_bus" where
  "unsubscribe rid queue bus =
     (let e = entry_of bus rid
      in dict_set bus rid (e\<lparr>be_queues := filter (\<lambda>q. fst q \<noteq> queue) (be_queues e)\<rparr>))"

definition forget_run :: "nat \<Rightarrow> event_bus \<Rightarrow> event_bus" where
  "forget_run rid bus = filter (\<lambda>p. fst p \<noteq> rid) bus"

datatype bus_op =
    Emit int nat string "string option"
  | Subscribe nat nat nat
  | Unsubscribe nat nat
  | Forget nat

fun bus_step :: "nat \<Rightarrow> int \<Rightarrow> event_bus \<Rightarrow> bus_op \<Rightarrow> event_bus" where
  "bus_step max_runs ttl bus (Emit now rid ty status) = bus_emit max_runs ttl now rid ty status bus"
| "bus_step max_runs ttl bus (Subscribe rid after queue) = snd (subscribe rid after queue bus)"
| "bus_step max_runs ttl bus (Unsubscribe rid queue) = unsubscribe rid queue bus"
| "bus_step max_runs ttl bus (Forget rid) = forget_run rid bus"

definition entry_ok :: "bus_entry \<Rightarrow> bool" where
  "entry_ok e \<longleftrightarrow> map ev_seq (be_history e) = [1..<Suc (be_seq e)]"

definition bus_ok :: "event_bus \<Rightarrow> bool" where
  "bus_ok bus \<longleftrightarrow> distinct (map fst bus) \<and> (\<forall>(rid, e) \<in> set bus. entry_ok e)"

lemma entry_of_ok: "bus_ok bus \<Longrightarrow> entry_ok (entry_of bus rid)"
  by (auto simp: bus_ok_def entry_of_def entry_ok_def fresh_entry_def dest: map_of_SomeD split: option.splits)

lemma set_dict_set: "x \<in> set (dict_set d k v) \<Longrightarrow> x = (k, v) \<or> x \<in> set d"
  by (induction d k v rule: dict_set.induct) (auto split: if_splits)

lemma bus_ok_set: "bus_ok bus \<Longrightarrow> entry_ok e \<Longrightarrow> bus_ok (dict_set bus rid e)"
  by (auto simp: bus_ok_def distinct_dict_set dest: set_dict_set)

lemma bus_ok_filter: "bus_ok bus \<Longrightarrow> bus_ok (filter P bus)"
  by (auto simp: bus_ok_def distinct_map_filter)

interpretation bus: inv_system "bus_step max_runs ttl" bus_ok
proof unfold_locales
  fix b e
  assume ok: "bus_ok b"
  have "entry_ok (add_event now ty status (entry_of b rid))" for now ty status rid
    using entry_of_ok[OF ok, of rid] by (simp add: entry_ok_def add_event_def Let_def)
  moreover have "entry_ok (entry_of b rid\<lparr>be_queues := qs\<rparr>)" for rid qs
    using entry_of_ok[OF ok, of rid] by (simp add: entry_ok_def)
  ultimately show "bus_ok (bus_step max_runs ttl b e)"
    using ok by (cases e) (auto simp: bus_emit_def evict_def subscribe_def unsubscribe_def forget_run_def Let_def
        intro!: bus_ok_set bus_ok_filter)
qed

lemma filter_after: "map ev_seq h = [1..<Suc n] \<Longrightarrow> filter (\<lambda>ev. k < ev_seq ev) h = drop k h"
proof (induction h arbitrary: n rule: rev_induct)
  case (snoc x h)
  then obtain m where n: "n = Suc m" by (cases n) auto
  with snoc.prems have h: "map ev_seq h = [1..<Suc m]" and x: "ev_seq x = Suc m" by auto
  have "length h = m" using arg_cong[OF h, of length] by simp
  with snoc.IH[OF h] x show ?case by auto
qed simp

text \<open>
  Resuming a stream is exact: after any traffic on the bus, a client that has folded the
  first \<open>k\<close> events of a run and reconnects with that sequence number is given precisely the
  events it has not seen, in order.
\<close>

theorem resume_is_exact:
  "fst (subscribe rid k queue (foldl (bus_step max_runs ttl) [] ops))
     = drop k (be_history (entry_of (foldl (bus_step max_runs ttl) [] ops) rid))"
proof -
  have "bus_ok []" by (simp add: bus_ok_def)
  then have "bus_ok (foldl (bus_step max_runs ttl) [] ops)" by (rule bus.run_inv)
  from entry_of_ok[OF this, of rid] filter_after show ?thesis
    by (auto simp: subscribe_def Let_def entry_ok_def)
qed

lemma length_drop_keys:
  assumes "distinct (map fst d)" and "distinct ks" and "set ks \<subseteq> fst ` set d"
  shows "length (filter (\<lambda>(k, v). k \<notin> set ks) d) = length d - length ks"
proof -
  have "distinct (map fst (filter (\<lambda>(k, v). k \<notin> set ks) d))"
    using assms(1) by (rule distinct_map_filter)
  then have "length (filter (\<lambda>(k, v). k \<notin> set ks) d) = card (set (map fst (filter (\<lambda>(k, v). k \<notin> set ks) d)))"
    by (metis distinct_card length_map)
  also have "set (map fst (filter (\<lambda>(k, v). k \<notin> set ks) d)) = fst ` set d - set ks" by force
  also have "card (fst ` set d - set ks) = card (fst ` set d) - card (set ks)"
    using assms(3) by (intro card_Diff_subset) auto
  also have "card (fst ` set d) = length d"
    using distinct_card[OF assms(1)] by simp
  also have "card (set ks) = length ks" using assms(2) by (rule distinct_card)
  finally show ?thesis .
qed

lemma finished_runs_facts:
  assumes "distinct (map fst bus)"
  shows "distinct (finished_runs bus)" and "set (finished_runs bus) \<subseteq> fst ` set bus"
    and "length (finished_runs bus) + length (filter (\<lambda>(rid, e). \<not> be_done e) bus) = length bus"
proof -
  have "mset (finished_runs bus) = mset (map fst (filter (\<lambda>(rid, e). be_done e) bus))"
    by (simp add: finished_runs_def)
  moreover have "distinct (map fst (filter (\<lambda>(rid, e). be_done e) bus))"
    using assms by (rule distinct_map_filter)
  ultimately show "distinct (finished_runs bus)" using mset_eq_imp_distinct_iff by blast
  show "set (finished_runs bus) \<subseteq> fst ` set bus" by (auto simp: finished_runs_def)
  have "length (finished_runs bus) = length (filter (\<lambda>(rid, e). be_done e) bus)"
    by (simp add: finished_runs_def)
  then show "length (finished_runs bus) + length (filter (\<lambda>(rid, e). \<not> be_done e) bus) = length bus"
    using sum_length_filter_compl[of "\<lambda>(rid, e). be_done e" bus] by (simp add: case_prod_unfold)
qed

text \<open>
  The bus is bounded: right after an emit it holds at most \<open>max_runs\<close> runs, or only
  unfinished ones when more than that are still going.
\<close>

theorem bus_is_bounded:
  assumes "distinct (map fst bus)"
  shows "length (bus_emit max_runs ttl now rid ty status bus)
    \<le> max max_runs (length (filter (\<lambda>(r, e). \<not> be_done e) (bus_emit max_runs ttl now rid ty status bus)))"
proof -
  define kept where "kept = filter (\<lambda>(rid, e). \<not> expired ttl now e)
      (dict_set bus rid (add_event now ty status (entry_of bus rid)))"
  define victims where "victims = (if length kept > max_runs
      then take (length kept - max_runs) (finished_runs kept) else [])"
  have out: "bus_emit max_runs ttl now rid ty status bus = filter (\<lambda>(rid, e). rid \<notin> set victims) kept"
    by (simp add: bus_emit_def evict_def Let_def kept_def victims_def)
  have dist: "distinct (map fst kept)"
    unfolding kept_def using assms by (intro distinct_map_filter distinct_dict_set)
  note fin = finished_runs_facts[OF dist]
  have vic: "distinct victims" "set victims \<subseteq> fst ` set kept"
    using fin(1,2) by (auto simp: victims_def dest: in_set_takeD)
  have len: "length (filter (\<lambda>(rid, e). rid \<notin> set victims) kept) = length kept - length victims"
    using dist vic by (rule length_drop_keys)
  show ?thesis
  proof (cases "length kept - max_runs \<le> length (finished_runs kept)")
    case True
    then have "length kept - length victims \<le> max_runs" by (simp add: victims_def)
    with out len show ?thesis by simp
  next
    case False
    then have "max_runs < length kept" by linarith
    with False have v: "victims = finished_runs kept" by (simp add: victims_def)
    have all: "be_done e \<Longrightarrow> (r, e) \<in> set kept \<Longrightarrow> r \<in> set (finished_runs kept)" for r e
      by (force simp: finished_runs_def)
    have "filter (\<lambda>(r, e). \<not> be_done e) (filter (\<lambda>(rid, e). rid \<notin> set victims) kept)
        = filter (\<lambda>(rid, e). rid \<notin> set victims) kept"
      using all unfolding v filter_filter by (intro filter_cong) auto
    with out show ?thesis by simp
  qed
qed

theorem bus_is_bounded_witness:
  "length (bus_emit 1 900 5 7 ''plan'' None [(1, fresh_entry\<lparr>be_done := True, be_done_at := Some 0\<rparr>)]) \<le> 1"
proof -
  let ?bus = "[(1, fresh_entry\<lparr>be_done := True, be_done_at := Some 0\<rparr>)]"
  have "length (bus_emit 1 900 5 7 ''plan'' None ?bus)
      \<le> max 1 (length (filter (\<lambda>(r, e). \<not> be_done e) (bus_emit 1 900 5 7 ''plan'' None ?bus)))"
    by (rule bus_is_bounded) simp
  moreover have "length (filter (\<lambda>(r, e). \<not> be_done e) (bus_emit 1 900 5 7 ''plan'' None ?bus)) = 1"
    by code_simp
  ultimately show ?thesis by simp
qed

section \<open>Callsigns\<close>

definition WORKER_CALLSIGNS :: "string list" where
  "WORKER_CALLSIGNS = [''alpha'', ''bravo'', ''charlie'', ''delta'', ''echo'', ''foxtrot'', ''golf'',
     ''hotel'', ''india'', ''juliett'', ''kilo'', ''lima'', ''mike'', ''november'', ''oscar'', ''papa'',
     ''quebec'', ''romeo'', ''sierra'', ''tango'', ''uniform'', ''victor'', ''whiskey'', ''xray'',
     ''yankee'', ''zulu'']"

definition callsign :: "nat \<Rightarrow> string" where
  \<comment> \<open>\<open>next_worker_callsign\<close> for the \<open>n\<close>-th worker of the run\<close>
  "callsign n =
     (let name = WORKER_CALLSIGNS ! (n mod length WORKER_CALLSIGNS); suffix = n div length WORKER_CALLSIGNS
      in if suffix = 0 then ''worker-'' @ name else ''worker-'' @ name @ ''-'' @ nat_str (suffix + 1))"

definition next_worker_callsign :: "nat \<Rightarrow> string \<times> nat" where
  "next_worker_callsign worker_count = (callsign worker_count, worker_count + 1)"

lemma callsigns_distinct: "distinct WORKER_CALLSIGNS"
  by code_simp

lemma callsigns_plain: "\<forall>n \<in> set WORKER_CALLSIGNS. CHR ''-'' \<notin> set n"
  by code_simp

lemma split_at_dash:
  "CHR ''-'' \<notin> set a \<Longrightarrow> CHR ''-'' \<notin> set b \<Longrightarrow> a @ CHR ''-'' # u = b @ CHR ''-'' # v \<Longrightarrow> a = b \<and> u = v"
proof (induction a arbitrary: b)
  case Nil
  then show ?case by (cases b) auto
next
  case (Cons x a)
  then show ?case by (cases b) auto
qed

lemma callsign_inj: "callsign m = callsign n \<Longrightarrow> m = n"
proof -
  assume eq: "callsign m = callsign n"
  let ?L = "length WORKER_CALLSIGNS"
  let ?name = "\<lambda>i. WORKER_CALLSIGNS ! (i mod ?L)"
  have L: "0 < ?L" by code_simp
  have plain: "CHR ''-'' \<notin> set (?name i)" for i
    using callsigns_plain L by (auto dest: nth_mem)
  have "?name m = ?name n \<and> m div ?L = n div ?L"
  proof (cases "m div ?L = 0"; cases "n div ?L = 0")
    assume z: "m div ?L = 0" "n div ?L = 0"
    then show ?thesis using eq by (simp add: callsign_def Let_def)
  next
    assume z: "m div ?L = 0" "n div ?L \<noteq> 0"
    with eq have "?name m = ?name n @ ''-'' @ nat_str (n div ?L + 1)" by (simp add: callsign_def Let_def)
    then have "CHR ''-'' \<in> set (?name m)" by (metis append_Cons in_set_conv_decomp)
    with plain show ?thesis by blast
  next
    assume z: "m div ?L \<noteq> 0" "n div ?L = 0"
    with eq have "?name n = ?name m @ ''-'' @ nat_str (m div ?L + 1)" by (simp add: callsign_def Let_def)
    then have "CHR ''-'' \<in> set (?name n)" by (metis append_Cons in_set_conv_decomp)
    with plain show ?thesis by blast
  next
    assume z: "m div ?L \<noteq> 0" "n div ?L \<noteq> 0"
    with eq have "?name m @ CHR ''-'' # nat_str (m div ?L + 1) = ?name n @ CHR ''-'' # nat_str (n div ?L + 1)"
      by (simp add: callsign_def Let_def)
    from split_at_dash[OF plain plain this] show ?thesis by simp
  qed
  then have "m mod ?L = n mod ?L" "m div ?L = n div ?L"
    using callsigns_distinct L by (auto simp: nth_eq_iff_index_eq)
  then show "m = n" by (metis mod_mult_div_eq)
qed

text \<open>
  No two ephemeral workers of a run carry the same callsign, however many it spins.
\<close>

theorem callsigns_never_repeat:
  "fst (next_worker_callsign m) = fst (next_worker_callsign n) \<longleftrightarrow> m = n"
  using callsign_inj by (auto simp: next_worker_callsign_def)

section \<open>The frozen snapshot\<close>

definition RESERVED_SNAPSHOT_KEYS :: "string list" where
  "RESERVED_SNAPSHOT_KEYS = [''settings'', ''prompts'', ''build'', ''context'', ''catalog_calls'',
     ''catalog'', ''resumes'', ''direct'', ''exemplar_vote'']"

definition catalog_snapshot :: "tool_row list \<Rightarrow> skill_row list \<Rightarrow> agent_row list \<Rightarrow> pydict" where
  "catalog_snapshot tools skills agents =
     [(''tools'', JList (map (\<lambda>t. JDict [(''id'', JStr (t_id t)), (''tool_key'', JStr (t_tool_key t)),
          (''kind'', JStr (t_kind t)), (''schema_version'', opt_int (t_schema_version t)),
          (''schema_hash'', opt_json (t_schema_hash t))]) (cached_tools True tools))),
      (''skills'', JList (map (\<lambda>s. JDict [(''id'', JStr (s_id s)), (''name'', JStr (s_name s)),
          (''definition_version'', opt_int (s_definition_version s)),
          (''definition_hash'', opt_json (s_definition_hash s))]) (cached_skills True skills))),
      (''sub_agents'', JList (map (\<lambda>a. JDict [(''id'', JStr (a_id a)), (''name'', JStr (a_name a)),
          (''definition_version'', opt_int (a_definition_version a)),
          (''definition_hash'', opt_json (a_definition_hash a))]) (active_agents agents)))]"

definition run_settings_snapshot :: "pydict \<Rightarrow> pydict \<Rightarrow> string option \<Rightarrow> pydict" where
  "run_settings_snapshot settings prompts build =
     [(''settings'', JDict settings), (''prompts'', JDict prompts),
      (''build'', case build of Some b \<Rightarrow> (if b \<noteq> [] then JStr b else JNull) | None \<Rightarrow> JNull)]"

definition resolution_snapshot :: "pydict resolution \<Rightarrow> pydict" where
  "resolution_snapshot r =
     [(''rung'', JStr (res_rung r)), (''tier'', JStr (res_tier r)), (''kind'', JStr (res_kind r)),
      (''source'', JStr (res_source r)), (''entity_id'', opt_json (res_entity_id r)),
      (''entity_name'', JStr (res_entity_name r)), (''definition_version'', opt_int (res_version r)),
      (''definition_hash'', opt_json (res_hash r)),
      (''payload_kinds'', JList (map JStr (sort (map fst (res_payload r))))),
      (''payload'', JDict (res_payload r))]"

definition str_or_empty :: "(json \<Rightarrow> string) \<Rightarrow> json \<Rightarrow> string" where
  \<comment> \<open>\<open>str(v or '')\<close>\<close>
  "str_or_empty render v = (if truthy v then py_str render v else [])"

definition json_int :: "json \<Rightarrow> int option" where
  "json_int v = (case v of JInt i \<Rightarrow> Some i | _ \<Rightarrow> None)"

definition json_str :: "json \<Rightarrow> string option" where
  "json_str v = (case v of JStr s \<Rightarrow> Some s | _ \<Rightarrow> None)"

definition pinned_resolution :: "(json \<Rightarrow> string) \<Rightarrow> pydict \<Rightarrow> string \<Rightarrow> pydict resolution option" where
  "pinned_resolution render snap entry_id = (case dict_get snap entry_id of
       JDict e \<Rightarrow>
         (if \<not> has_key e ''rung'' then None
          else Some \<lparr>res_rung = py_str render (dict_get e ''rung''),
            res_tier = str_or_empty render (dict_get e ''tier''),
            res_kind = str_or_empty render (dict_get e ''kind''),
            res_source = str_or_empty render (dict_get e ''source''),
            res_entity_id = (let i = dict_get e ''entity_id''
                             in if i = JNull then None else Some (py_str render i)),
            res_entity_name = str_or_empty render (dict_get e ''entity_name''),
            res_payload = as_dict (dict_get e ''payload''),
            res_version = json_int (dict_get e ''definition_version''),
            res_hash = json_str (dict_get e ''definition_hash'')\<rparr>)
     | _ \<Rightarrow> None)"

definition frozen_definition_hash ::
    "(json \<Rightarrow> string) \<Rightarrow> pydict \<Rightarrow> string \<Rightarrow> string \<Rightarrow> string option" where
  "frozen_definition_hash render snap kind record_id =
     (case find (\<lambda>r. is_dict r \<and> py_str render (dict_get (as_dict r) ''id'') = record_id)
             (list_items (dict_get (as_dict (dict_get snap ''catalog'')) kind)) of
        None \<Rightarrow> None
      | Some r \<Rightarrow>
          (let h = dict_get (as_dict r) ''definition_hash'';
               v = (if truthy h then h else dict_get (as_dict r) ''schema_hash'')
           in if truthy v then Some (py_str render v) else None))"

definition write_snapshot :: "pydict \<Rightarrow> pydict \<Rightarrow> pydict" where
  \<comment> \<open>on the run's current snapshot, under its row lock\<close>
  "write_snapshot snap new = dict_merge snap new"

definition append_snapshot_list :: "nat \<Rightarrow> pydict \<Rightarrow> string \<Rightarrow> json list \<Rightarrow> pydict" where
  "append_snapshot_list cap snap key items =
     (if items = [] then snap
      else (let existing = list_items (dict_get snap key); room = cap - length existing
            in dict_set snap key (JList (existing @ take room items))))"

lemma dict_get_set: "dict_get (dict_set d k v) k' = (if k' = k then v else dict_get d k')"
  by (simp add: dict_get_def)

lemma pinned_after_write:
  "pinned_resolution render (write_snapshot snap [(entry_id, JDict (resolution_snapshot r))]) entry_id = Some r"
  by (cases r; cases "res_entity_id r"; cases "res_version r"; cases "res_hash r")
    (simp_all add: pinned_resolution_def write_snapshot_def dict_merge_def dict_get_set resolution_snapshot_def
      has_key_def dict_get_def str_or_empty_def opt_json_def opt_int_def json_int_def json_str_def)

lemma append_other_key:
  "entry_id \<noteq> key \<Longrightarrow> dict_get (append_snapshot_list cap snap key items) entry_id = dict_get snap entry_id"
  by (simp add: append_snapshot_list_def Let_def dict_get_set)

lemma appends_other_keys:
  "\<forall>(key, items) \<in> set ws. key \<noteq> entry_id \<Longrightarrow>
   dict_get (foldl (\<lambda>s (key, items). append_snapshot_list cap s key items) snap ws) entry_id = dict_get snap entry_id"
  by (induction ws arbitrary: snap) (auto simp: append_other_key)

text \<open>
  A replay executes exactly what the run froze: the resolution read back from the snapshot is
  the one written at dispatch, field by field, whatever the run appended since to its context,
  catalog and resume lists, because a plan entry's id is never one of those keys.
\<close>

theorem replay_reads_frozen_resolution:
  assumes "entry_id \<notin> set RESERVED_SNAPSHOT_KEYS"
    and "\<forall>(key, items) \<in> set ws. key \<in> {''context'', ''catalog_calls'', ''resumes''}"
  shows "pinned_resolution render
    (foldl (\<lambda>s (key, items). append_snapshot_list cap s key items)
       (write_snapshot snap [(entry_id, JDict (resolution_snapshot r))]) ws) entry_id = Some r"
proof -
  have "{''context'', ''catalog_calls'', ''resumes''} \<subseteq> set RESERVED_SNAPSHOT_KEYS"
    by (simp add: RESERVED_SNAPSHOT_KEYS_def)
  with assms have "\<forall>(key, items) \<in> set ws. key \<noteq> entry_id" by blast
  from appends_other_keys[OF this] pinned_after_write[of render snap entry_id r] show ?thesis
    by (simp add: pinned_resolution_def)
qed

theorem replay_reads_frozen_resolution_witness:
  "pinned_resolution (\<lambda>_. []) (foldl (\<lambda>s (key, items). append_snapshot_list 200 s key items)
     (write_snapshot [] [(''s1'', JDict (resolution_snapshot
        \<lparr>res_rung = ''direct_tool'', res_tier = ''tool'', res_kind = ''mcp'', res_source = ''dynamic'',
         res_entity_id = Some ''t1'', res_entity_name = ''mcp.fetch'', res_payload = [(''tool_id'', JStr ''t1'')],
         res_version = Some 3, res_hash = None\<rparr>))]) [(''resumes'', [JNull])]) ''s1''
   = Some \<lparr>res_rung = ''direct_tool'', res_tier = ''tool'', res_kind = ''mcp'', res_source = ''dynamic'',
         res_entity_id = Some ''t1'', res_entity_name = ''mcp.fetch'', res_payload = [(''tool_id'', JStr ''t1'')],
         res_version = Some 3, res_hash = None\<rparr>"
  by (rule replay_reads_frozen_resolution) (simp_all add: RESERVED_SNAPSHOT_KEYS_def)

lemma append_bounded:
  assumes "length (list_items (dict_get snap key)) \<le> cap"
  shows "length (list_items (dict_get (append_snapshot_list cap snap key items) key)) \<le> cap
    \<and> take (length (list_items (dict_get snap key))) (list_items (dict_get (append_snapshot_list cap snap key items) key))
      = list_items (dict_get snap key)"
  using assms by (auto simp: append_snapshot_list_def Let_def dict_get_set list_items_def)

end
