(* ===== verification/Planner.thy ===== *)
theory Planner
  imports Run_Record
begin

text \<open>
  Graph mode (\<open>backend/app/orchestrator/planner.py\<close>, \<open>graph_mode.py\<close>) and direct mode
  (\<open>direct_mode.py\<close>): plan validation with its repair-once loop, the resolution of the entries, the
  dispatch rounds under \<open>depends_on\<close> and \<open>max_parallel\<close>, and the gate of a pinned sub agent with
  the replay of its frozen resolution. The planner model's replies and the results of a dispatch
  are arguments.
\<close>

section \<open>Plans\<close>

record plan_capability =
  pc_type :: string
  pc_id :: "string option"
  pc_skill_ids :: "string list option"

record plan_entry =
  pe_id :: string
  pe_cap :: plan_capability
  pe_task :: string
  pe_depends :: "string list"

record plan =
  pl_entries :: "plan_entry list"
  pl_direct :: "string option"
  pl_no_match :: bool

datatype plan_error =
    TooManyEntries nat
  | EntryIdsNotUnique
  | EntryIdReserved string
  | UnknownDependency string string
  | SelfDependency string
  | SpinNeedsSkills string
  | UnknownSkillId string string
  | SkillNotExposed string string
  | CapabilityNeedsId string
  | UnknownCapabilityId string string string

record registry_tables =
  \<comment> \<open>the full tables, deleted rows included\<close>
  rt_tools :: "tool_row list"
  rt_skills :: "skill_row list"
  rt_agents :: "agent_row list"

definition live_skill :: "registry_tables \<Rightarrow> string \<Rightarrow> bool" where
  "live_skill rt i = (case row_get s_id (rt_skills rt) i of
       None \<Rightarrow> False | Some s \<Rightarrow> s_deleted_at s = None \<and> s_status s = ''active'')"

definition live_tool :: "registry_tables \<Rightarrow> string \<Rightarrow> bool" where
  "live_tool rt i = (case row_get t_id (rt_tools rt) i of
       None \<Rightarrow> False | Some t \<Rightarrow> t_deleted_at t = None \<and> t_status t = ''active'')"

definition live_agent :: "registry_tables \<Rightarrow> string \<Rightarrow> bool" where
  "live_agent rt i = (case row_get a_id (rt_agents rt) i of
       None \<Rightarrow> False | Some a \<Rightarrow> a_deleted_at a = None \<and> a_status a = ''active'')"

definition exists_live ::
    "(string \<Rightarrow> string option) \<Rightarrow> registry_tables \<Rightarrow> string \<Rightarrow> string \<Rightarrow> bool" where
  \<comment> \<open>\<open>_exists\<close>; \<open>uuid\<close>: the canonical text of \<open>UUID(raw)\<close>, None when it raises \<open>ValueError\<close>\<close>
  "exists_live uuid rt ty raw = (case uuid raw of
       None \<Rightarrow> False
     | Some i \<Rightarrow> (if ty = ''direct_tool'' then live_tool rt i
                 else if ty = ''sub_agent'' then live_agent rt i else live_skill rt i))"

definition is_exposed :: "(string \<Rightarrow> string option) \<Rightarrow> registry_tables \<Rightarrow> string \<Rightarrow> bool" where
  "is_exposed uuid rt raw = (case uuid raw of
       None \<Rightarrow> False
     | Some i \<Rightarrow> (case row_get s_id (rt_skills rt) i of None \<Rightarrow> False | Some s \<Rightarrow> s_exposed s))"

definition dep_errors :: "string list \<Rightarrow> plan_entry \<Rightarrow> plan_error list" where
  "dep_errors ids e = concat (map (\<lambda>d.
       (if d \<notin> set ids then [UnknownDependency (pe_id e) d] else [])
     @ (if d = pe_id e then [SelfDependency (pe_id e)] else [])) (pe_depends e))"

definition composed_id_errors ::
    "(string \<Rightarrow> string option) \<Rightarrow> registry_tables \<Rightarrow> string \<Rightarrow> string \<Rightarrow> plan_error list" where
  "composed_id_errors uuid rt eid sid =
     (if \<not> exists_live uuid rt ''direct_skill'' sid then [UnknownSkillId eid sid]
      else if \<not> is_exposed uuid rt sid then [SkillNotExposed eid sid] else [])"

definition cap_errors ::
    "(string \<Rightarrow> string option) \<Rightarrow> registry_tables \<Rightarrow> plan_entry \<Rightarrow> plan_error list" where
  "cap_errors uuid rt e = (let cap = pe_cap e in
     if pc_type cap = ''spin_worker'' then
       (case pc_skill_ids cap of
          None \<Rightarrow> [SpinNeedsSkills (pe_id e)]
        | Some sids \<Rightarrow>
            (if sids = [] then [SpinNeedsSkills (pe_id e)]
             else concat (map (composed_id_errors uuid rt (pe_id e)) sids)))
     else (case pc_id cap of
          None \<Rightarrow> [CapabilityNeedsId (pe_id e)]
        | Some i \<Rightarrow>
            (if i = [] then [CapabilityNeedsId (pe_id e)]
             else if \<not> exists_live uuid rt (pc_type cap) i then [UnknownCapabilityId (pe_id e) (pc_type cap) i]
             else [])))"

definition entry_errors ::
    "(string \<Rightarrow> string option) \<Rightarrow> registry_tables \<Rightarrow> string list \<Rightarrow> plan_entry \<Rightarrow> plan_error list" where
  "entry_errors uuid rt ids e =
     (if pe_id e \<in> set RESERVED_SNAPSHOT_KEYS then [EntryIdReserved (pe_id e)] else [])
     @ dep_errors ids e @ cap_errors uuid rt e"

definition validate_plan ::
    "(string \<Rightarrow> string option) \<Rightarrow> registry_tables \<Rightarrow> nat \<Rightarrow> plan \<Rightarrow> plan_error list" where
  "validate_plan uuid rt max_steps p =
     (let es = pl_entries p; ids = map pe_id es
      in (if max_steps < length es then [TooManyEntries (length es)] else [])
       @ (if card (set ids) \<noteq> length es then [EntryIdsNotUnique] else [])
       @ concat (map (entry_errors uuid rt ids) es))"

definition cap_ok :: "(string \<Rightarrow> string option) \<Rightarrow> registry_tables \<Rightarrow> plan_capability \<Rightarrow> bool" where
  "cap_ok uuid rt cap \<longleftrightarrow>
     (if pc_type cap = ''spin_worker''
      then (\<exists>sids. pc_skill_ids cap = Some sids \<and> sids \<noteq> []
              \<and> (\<forall>sid \<in> set sids. exists_live uuid rt ''direct_skill'' sid \<and> is_exposed uuid rt sid))
      else (\<exists>i. pc_id cap = Some i \<and> i \<noteq> [] \<and> exists_live uuid rt (pc_type cap) i))"

definition plan_ok :: "(string \<Rightarrow> string option) \<Rightarrow> registry_tables \<Rightarrow> nat \<Rightarrow> plan \<Rightarrow> bool" where
  "plan_ok uuid rt max_steps p \<longleftrightarrow> (let es = pl_entries p in
     length es \<le> max_steps \<and> distinct (map pe_id es)
     \<and> (\<forall>e \<in> set es. pe_id e \<notin> set RESERVED_SNAPSHOT_KEYS
          \<and> set (pe_depends e) \<subseteq> set (map pe_id es) - {pe_id e} \<and> cap_ok uuid rt (pe_cap e)))"

lemma dep_errors_Nil: "dep_errors ids e = [] \<longleftrightarrow> set (pe_depends e) \<subseteq> set ids - {pe_id e}"
  by (auto simp: dep_errors_def)

lemma composed_id_errors_Nil: "composed_id_errors uuid rt eid sid = [] \<longleftrightarrow>
    exists_live uuid rt ''direct_skill'' sid \<and> is_exposed uuid rt sid"
  by (simp add: composed_id_errors_def)

lemma cap_errors_Nil: "cap_errors uuid rt e = [] \<longleftrightarrow> cap_ok uuid rt (pe_cap e)"
  by (auto simp: cap_errors_def cap_ok_def Let_def composed_id_errors_Nil split: option.splits if_splits)

lemma validate_plan_Nil: "validate_plan uuid rt max_steps p = [] \<longleftrightarrow> plan_ok uuid rt max_steps p"
proof -
  have "card (set (map pe_id (pl_entries p))) = length (pl_entries p) \<longleftrightarrow> distinct (map pe_id (pl_entries p))"
    by (metis card_distinct distinct_card length_map)
  then show ?thesis
    by (auto simp: validate_plan_def plan_ok_def Let_def entry_errors_def dep_errors_Nil cap_errors_Nil)
qed

section \<open>Planning with one repair\<close>

datatype planner_reply =
    ParserException
  | NoPlan "pydict option"
  | PlanReply plan "pydict option"

datatype planner_error = SchemaInvalid | PlanInvalid "plan_error list"

fun planner_loop ::
    "(plan \<Rightarrow> plan_error list) \<Rightarrow> (planner_error option \<Rightarrow> planner_reply) \<Rightarrow> nat \<Rightarrow> planner_error option \<Rightarrow> int \<times> int
       \<Rightarrow> planner_error option + plan \<times> (int \<times> int)" where
  \<comment> \<open>\<open>ask prev\<close>: the model's reply to the prompt, with the errors of the previous attempt\<close>
  "planner_loop check ask 0 prev usage = Inl prev"
| "planner_loop check ask (Suc n) prev usage =
     (case ask prev of
        ParserException \<Rightarrow> planner_loop check ask n (Some SchemaInvalid) usage
      | NoPlan u \<Rightarrow>
          (let du = usage_from_messages [u]
           in planner_loop check ask n (Some SchemaInvalid) (fst usage + fst du, snd usage + snd du))
      | PlanReply p u \<Rightarrow>
          (let du = usage_from_messages [u]; usage' = (fst usage + fst du, snd usage + snd du)
           in if check p = [] then Inr (p, usage')
              else planner_loop check ask n (Some (PlanInvalid (check p))) usage'))"

definition run_planner ::
    "(string \<Rightarrow> string option) \<Rightarrow> registry_tables \<Rightarrow> nat \<Rightarrow> (planner_error option \<Rightarrow> planner_reply)
       \<Rightarrow> planner_error option + plan \<times> (int \<times> int)" where
  "run_planner uuid rt max_steps ask = planner_loop (validate_plan uuid rt max_steps) ask 2 None (0, 0)"

lemma planner_loop_valid: "planner_loop check ask n prev usage = Inr (p, u) \<Longrightarrow> check p = []"
  by (induction n arbitrary: prev usage) (auto simp: Let_def split: planner_reply.splits if_splits)

lemma planner_loop_error: "0 < n \<Longrightarrow> planner_loop check ask n prev usage = Inl e \<Longrightarrow> e \<noteq> None"
proof (induction n arbitrary: prev usage)
  case (Suc n)
  then show ?case
    by (cases n) (auto simp: Let_def split: planner_reply.splits if_splits)
qed simp

text \<open>
  A plan that reaches execution is a validated one: within the step limit, unique unreserved
  ids, dependencies on other entries of the plan only, capabilities that exist and are active,
  and compositions of exposed skills only. When two replies were not valid the planner fails with
  the errors of the second.
\<close>

theorem planner_returns_valid_plan:
  "case run_planner uuid rt max_steps ask of
     Inr (p, usage) \<Rightarrow> plan_ok uuid rt max_steps p
   | Inl e \<Rightarrow> e \<noteq> None"
  using planner_loop_valid[of "validate_plan uuid rt max_steps" ask 2 None "(0, 0)"]
    planner_loop_error[of 2 "validate_plan uuid rt max_steps" ask None "(0, 0)"]
  by (auto simp: run_planner_def validate_plan_Nil split: sum.splits)

section \<open>Resolving the entries\<close>

definition cap_dict :: "plan_capability \<Rightarrow> pydict" where
  \<comment> \<open>\<open>model_dump\<close>\<close>
  "cap_dict cap = [(''type'', JStr (pc_type cap)), (''id'', opt_json (pc_id cap)),
     (''skill_ids'', case pc_skill_ids cap of None \<Rightarrow> JNull | Some ids \<Rightarrow> JList (map JStr ids))]"

record run_state =
  \<comment> \<open>what resolving an entry changes: the worker count, the record and the snapshot\<close>
  rn_workers :: nat
  rn_record :: run_record
  rn_snapshot :: pydict

fun resolve_entries ::
    "(string option \<Rightarrow> string option) \<Rightarrow> (json \<Rightarrow> string) \<Rightarrow> (string \<Rightarrow> bool) \<Rightarrow> registries \<Rightarrow> plan_entry list \<Rightarrow> run_state
       \<Rightarrow> (string \<times> payload resolution) list \<times> (string \<times> resolution_error) list \<times> run_state" where
  "resolve_entries clean render is_uuid rg [] st = ([], [], st)"
| "resolve_entries clean render is_uuid rg (e # es) st =
     (case resolve_capability render is_uuid (callsign (rn_workers st)) rg (cap_dict (pe_cap e)) of
        Inl err \<Rightarrow>
          (case resolve_entries clean render is_uuid rg es st of (rs, fs, st') \<Rightarrow> (rs, (pe_id e, err) # fs, st'))
      | Inr r \<Rightarrow>
          (let st1 = st\<lparr>rn_workers := (if res_rung r = ''dynamic_worker'' then rn_workers st + 1 else rn_workers st),
                        rn_record := record_route clean (res_rung r) r (rn_record st)\<rparr>
           in case resolve_entries clean render is_uuid rg es st1 of (rs, fs, st') \<Rightarrow> ((pe_id e, r) # rs, fs, st')))"

datatype resolve_outcome =
    UseFallback
  | NothingResolved "(string \<times> resolution_error) list"
  | Resolved "(string \<times> payload resolution) list" "(string \<times> resolution_error) list"

definition freeze :: "(payload \<Rightarrow> pydict) \<Rightarrow> payload resolution \<Rightarrow> pydict resolution" where
  "freeze enc r = \<lparr>res_rung = res_rung r, res_tier = res_tier r, res_kind = res_kind r,
     res_source = res_source r, res_entity_id = res_entity_id r, res_entity_name = res_entity_name r,
     res_payload = enc (res_payload r), res_version = res_version r, res_hash = res_hash r\<rparr>"

definition resolve_node ::
    "(string option \<Rightarrow> string option) \<Rightarrow> (json \<Rightarrow> string) \<Rightarrow> (string \<Rightarrow> bool) \<Rightarrow> (payload \<Rightarrow> pydict) \<Rightarrow> bool
       \<Rightarrow> registries \<Rightarrow> plan_entry list \<Rightarrow> run_state \<Rightarrow> resolve_outcome \<times> run_state" where
  "resolve_node clean render is_uuid enc fallback rg es st =
     (case resolve_entries clean render is_uuid rg es st of (rs, fs, st') \<Rightarrow>
        if fs \<noteq> [] \<and> length fs = length es then
          (if fallback then UseFallback else NothingResolved fs, st')
        else (Resolved rs fs, st'\<lparr>rn_snapshot := write_snapshot (rn_snapshot st')
                (map (\<lambda>(i, r). (i, JDict (resolution_snapshot (freeze enc r)))) rs)\<rparr>))"

lemma resolve_entries_ids:
  "resolve_entries clean render is_uuid rg es st = (rs, fs, st') \<Longrightarrow>
   mset (map fst rs) + mset (map fst fs) = mset (map pe_id es)
   \<and> (\<forall>(i, r) \<in> set rs. reach_ok rg r)"
proof (induction es arbitrary: st rs fs st')
  case (Cons e es)
  show ?case
  proof (cases "resolve_capability render is_uuid (callsign (rn_workers st)) rg (cap_dict (pe_cap e))")
    case (Inl err)
    with Cons show ?thesis by (force split: prod.splits)
  next
    case (Inr r)
    define st1 where "st1 = st\<lparr>rn_workers := (if res_rung r = ''dynamic_worker'' then rn_workers st + 1 else rn_workers st),
                        rn_record := record_route clean (res_rung r) r (rn_record st)\<rparr>"
    obtain rs' fs' st2 where rec: "resolve_entries clean render is_uuid rg es st1 = (rs', fs', st2)"
      by (metis prod_cases3)
    from Cons.prems Inr rec have "rs = (pe_id e, r) # rs'" "fs = fs'"
      by (auto simp: Let_def st1_def)
    with Cons.IH[OF rec] resolve_reach_ok[OF Inr] show ?thesis by auto
  qed
qed simp

definition after_plan :: "plan \<Rightarrow> bool \<Rightarrow> string" where
  "after_plan p use_fallback =
     (if pl_direct p \<noteq> None \<and> pl_entries p = [] then ''aggregate''
      else if use_fallback then ''fallback'' else ''resolve'')"

datatype plan_decision = PlanRunFailed | PlanContinue bool

definition plan_decides :: "bool \<Rightarrow> plan \<Rightarrow> plan_decision" where
  \<comment> \<open>the tail of \<open>plan_node\<close>\<close>
  "plan_decides fallback_enabled p =
     (if pl_no_match p \<or> (pl_entries p = [] \<and> pl_direct p = None)
      then (if fallback_enabled then PlanContinue True else PlanRunFailed)
      else PlanContinue False)"

section \<open>Dispatch rounds\<close>

definition pending_entries :: "plan_entry list \<Rightarrow> string set \<Rightarrow> string set \<Rightarrow> plan_entry list" where
  "pending_entries es resolved done = filter (\<lambda>e. pe_id e \<notin> done \<and> pe_id e \<in> resolved) es"

definition ready_entries :: "plan_entry list \<Rightarrow> string set \<Rightarrow> string set \<Rightarrow> plan_entry list" where
  "ready_entries es resolved done =
     filter (\<lambda>e. set (pe_depends e) \<subseteq> done) (pending_entries es resolved done)"

definition dispatch_ready ::
    "nat \<Rightarrow> plan_entry list \<Rightarrow> string set \<Rightarrow> string set \<Rightarrow> plan_entry list option" where
  \<comment> \<open>None: go to \<open>aggregate\<close>\<close>
  "dispatch_ready max_parallel es resolved done =
     (if ready_entries es resolved done = [] then None
      else Some (take max_parallel (ready_entries es resolved done)))"

function dispatch_rounds ::
    "nat \<Rightarrow> plan_entry list \<Rightarrow> string set \<Rightarrow> string set \<Rightarrow> plan_entry list list \<times> string set" where
  \<comment> \<open>coordinate and dispatch until \<open>dispatch_ready\<close> leaves the loop: the batches sent and the ids
      with an output at the end; an empty batch sends nothing and ends the graph\<close>
  "dispatch_rounds max_parallel es resolved done =
     (case dispatch_ready max_parallel es resolved done of
        None \<Rightarrow> ([], done)
      | Some batch \<Rightarrow>
          (if batch = [] then ([], done)
           else (case dispatch_rounds max_parallel es resolved (done \<union> pe_id ` set batch) of
                   (batches, done') \<Rightarrow> (batch # batches, done'))))"
  by pat_completeness auto

lemma dispatch_progress:
  assumes "dispatch_ready m es resolved done = Some batch" and "batch \<noteq> []"
  shows "length (pending_entries es resolved (done \<union> pe_id ` set batch)) < length (pending_entries es resolved done)"
proof -
  obtain e where e: "e \<in> set batch" using assms(2) by (cases batch) auto
  then have "e \<in> set (ready_entries es resolved done)"
    using assms(1) by (auto simp: dispatch_ready_def dest: in_set_takeD split: if_splits)
  then have p: "e \<in> set (pending_entries es resolved done)" by (simp add: ready_entries_def)
  have "pending_entries es resolved (done \<union> pe_id ` set batch)
      = filter (\<lambda>x. pe_id x \<notin> pe_id ` set batch) (pending_entries es resolved done)"
    by (auto simp: pending_entries_def intro!: filter_cong)
  also have "length \<dots> < length (pending_entries es resolved done)"
    by (rule length_filter_less[OF p]) (use e in simp)
  finally show ?thesis .
qed

termination dispatch_rounds
  by (relation "measure (\<lambda>(m, es, resolved, done). length (pending_entries es resolved done))")
     (auto intro: dispatch_progress)

declare dispatch_rounds.simps [simp del]

fun rounds_ok :: "nat \<Rightarrow> string set \<Rightarrow> plan_entry list list \<Rightarrow> bool" where
  \<comment> \<open>every batch within the parallel limit, of entries not run before, after all they depend on\<close>
  "rounds_ok m done [] = True"
| "rounds_ok m done (b # bs) =
     (b \<noteq> [] \<and> length b \<le> m \<and> (\<forall>e \<in> set b. set (pe_depends e) \<subseteq> done \<and> pe_id e \<notin> done)
      \<and> rounds_ok m (done \<union> pe_id ` set b) bs)"

lemma dispatch_ready_batch:
  "dispatch_ready m es resolved done = Some batch \<Longrightarrow>
   length batch \<le> m \<and> (\<forall>e \<in> set batch. e \<in> set es \<and> pe_id e \<in> resolved \<and> pe_id e \<notin> done \<and> set (pe_depends e) \<subseteq> done)"
  using set_take_subset[of m "ready_entries es resolved done"]
  by (force simp: dispatch_ready_def ready_entries_def pending_entries_def split: if_splits)

lemma dispatch_rounds_facts:
  "dispatch_rounds m es resolved done = (batches, done') \<Longrightarrow>
   rounds_ok m done batches \<and> done' = done \<union> pe_id ` set (concat batches)
   \<and> set (concat batches) \<subseteq> set es
   \<and> (0 < m \<longrightarrow> ready_entries es resolved done' = [])"
proof (induction m es resolved "done" arbitrary: batches done' rule: dispatch_rounds.induct)
  case (1 m es resolved "done")
  show ?case
  proof (cases "dispatch_ready m es resolved done")
    case None
    with 1(2) show ?thesis
      by (auto simp: dispatch_rounds.simps[of m es resolved "done"] dispatch_ready_def split: if_splits)
  next
    case (Some batch)
    note b = dispatch_ready_batch[OF Some]
    show ?thesis
    proof (cases "batch = []")
      case True
      with Some 1(2) show ?thesis
        by (auto simp: dispatch_rounds.simps[of m es resolved "done"] dispatch_ready_def split: if_splits)
    next
      case False
      obtain bs d where rec: "dispatch_rounds m es resolved (done \<union> pe_id ` set batch) = (bs, d)" by fastforce
      with 1(2) Some False have "batches = batch # bs" "done' = d"
        by (auto simp: dispatch_rounds.simps[of m es resolved "done"])
      with 1(1)[OF Some False rec] b False show ?thesis by auto
    qed
  qed
qed

text \<open>
  Dispatch respects the plan: in every run of the dispatch loop each batch stays within
  \<open>max_parallel\<close>, an entry runs only when everything it depends on has an output, and no entry
  that already has an output is run again.
\<close>

theorem dispatch_respects_plan:
  "case dispatch_rounds m es resolved done of (batches, done') \<Rightarrow>
     rounds_ok m done batches \<and> done' = done \<union> pe_id ` set (concat batches)"
  using dispatch_rounds_facts[of m es resolved "done"] by (auto split: prod.splits)

lemma ready_when_ranked:
  assumes "set es \<noteq> {}" and rank: "\<forall>e \<in> set es. \<forall>d \<in> set (pe_depends e). d \<in> pe_id ` set es \<and> rank d < (rank (pe_id e) :: nat)"
    and known: "pe_id ` set es \<subseteq> resolved \<union> done"
    and "ready_entries es resolved done = []"
  shows "pe_id ` set es \<subseteq> done"
proof (rule ccontr)
  assume "\<not> ?thesis"
  then obtain i where i: "i \<in> pe_id ` set es - done" by blast
  define e where "e = arg_min_on rank (pe_id ` set es - done)"
  have fin: "finite (pe_id ` set es - done)" by simp
  from i have ne: "pe_id ` set es - done \<noteq> {}" by blast
  from arg_min_if_finite[OF fin ne, of rank] have
    e: "e \<in> pe_id ` set es - done" and least: "\<not> (\<exists>x \<in> pe_id ` set es - done. rank x < rank e)"
    by (simp_all add: e_def)
  from e obtain x where x: "x \<in> set es" "pe_id x = e" "e \<notin> done" by auto
  have "set (pe_depends x) \<subseteq> done" using rank x least by blast
  with x known have "x \<in> set (ready_entries es resolved done)"
    by (auto simp: ready_entries_def pending_entries_def)
  with assms(4) show False by simp
qed


definition chain_plan :: "plan_entry list" where
  "chain_plan = [\<lparr>pe_id = ''s2'', pe_cap = \<lparr>pc_type = ''sub_agent'', pc_id = Some ''x'', pc_skill_ids = None\<rparr>,
       pe_task = ''b'', pe_depends = [''s1'']\<rparr>,
     \<lparr>pe_id = ''s1'', pe_cap = \<lparr>pc_type = ''sub_agent'', pc_id = Some ''x'', pc_skill_ids = None\<rparr>,
       pe_task = ''a'', pe_depends = []\<rparr>]"


definition cyclic_plan :: plan where
  "cyclic_plan = \<lparr>pl_entries = [
       \<lparr>pe_id = ''s1'', pe_cap = \<lparr>pc_type = ''direct_skill'', pc_id = Some ''a'', pc_skill_ids = None\<rparr>,
        pe_task = ''one'', pe_depends = [''s2'']\<rparr>,
       \<lparr>pe_id = ''s2'', pe_cap = \<lparr>pc_type = ''direct_skill'', pc_id = Some ''a'', pc_skill_ids = None\<rparr>,
        pe_task = ''two'', pe_depends = [''s1'']\<rparr>],
     pl_direct = None, pl_no_match = False\<rparr>"

text \<open>
  The validator checks that dependencies name entries of the plan but not that they are
  acyclic: a plan of two active skills that depend on each other is accepted, both entries
  resolve, and the dispatch loop ends at once without running either.
\<close>

theorem cyclic_plan_accepted_and_dropped:
  "validate_plan Some \<lparr>rt_tools = [], rt_skills = [sample_skill ''a''], rt_agents = []\<rparr> 8 cyclic_plan = []
   \<and> dispatch_rounds 4 (pl_entries cyclic_plan) {''s1'', ''s2''} {} = ([], {})"
proof
  show "validate_plan Some \<lparr>rt_tools = [], rt_skills = [sample_skill ''a''], rt_agents = []\<rparr> 8 cyclic_plan = []"
    by code_simp
  show "dispatch_rounds 4 (pl_entries cyclic_plan) {''s1'', ''s2''} {} = ([], {})"
    by (simp add: dispatch_rounds.simps dispatch_ready_def ready_entries_def pending_entries_def cyclic_plan_def)
qed

end
