(* ===== verification/Execution.thy ===== *)
theory Execution
  imports Planner
begin

text \<open>
  Execution of a resolution (\<open>backend/app/orchestrator/ladder.py\<close>: \<open>run_inline_skill\<close>,
  \<open>run_direct_tool\<close>, \<open>find_running_dispatch\<close>, \<open>execute_resolution\<close>), the final merge of graph mode
  (\<open>graph_mode.py\<close>: \<open>aggregate_node\<close>) and direct mode (\<open>direct_mode.py\<close>). What a model loop, a tool
  call or a compiled worker does is an argument; every step row started and finished on the way is
  kept.
\<close>

section \<open>Rung one: inline skills and direct tools\<close>

datatype exec_result =
    ExecOk string
  | ExecDenied dispatch_result
  | ExecError string
  | ExecPaused pydict
  | ExecRaised string

datatype inline_outcome =
    InlineAnswer string "pydict option list"
  | InlineInterrupt "string option"     \<comment> \<open>the prompt the gate carried\<close>
  | InlineError string

definition skill_step :: "skill_row \<Rightarrow> nat option \<Rightarrow> step_args" where
  "skill_step s parent = \<lparr>sa_type = ''skill'', sa_tier = ''skill'',
     sa_kind = Some (if s_id s \<noteq> [] then ''custom'' else ''dynamic''), sa_entity_id = Some (s_id s),
     sa_entity_name = Some (s_name s), sa_node = None, sa_parent = parent,
     sa_version = s_definition_version s, sa_hash = s_definition_hash s, sa_dispatch = True\<rparr>"

definition cannot_pause :: "string \<Rightarrow> string option \<Rightarrow> string \<Rightarrow> string" where
  "cannot_pause what prompt advice = ''tool paused for human input, but '' @ what @ '' cannot pause''
     @ (case prompt of Some p \<Rightarrow> (if p \<noteq> [] then '': '' @ p else []) | None \<Rightarrow> [])
     @ '' -- reply from the Remote Agents task drawer, or route via '' @ advice"

definition run_inline_skill ::
    "(string option \<Rightarrow> string option) \<Rightarrow> string + string \<times> model_params option \<Rightarrow> inline_outcome
       \<Rightarrow> skill_row \<Rightarrow> nat option \<Rightarrow> run_record \<Rightarrow> exec_result \<times> run_record" where
  \<comment> \<open>\<open>resolved\<close>: the model resolution, made before the step starts; \<open>outcome\<close>: the skill loop\<close>
  "run_inline_skill clean resolved outcome s parent rr = (case resolved of
       Inl e \<Rightarrow> (ExecRaised e, rr)
     | Inr m \<Rightarrow>
         (case start_step (skill_step s parent) rr of (i, rr1) \<Rightarrow>
          case outcome of
            InlineAnswer txt usages \<Rightarrow>
              (let u = usage_from_messages usages
               in (ExecOk txt, finish_step clean i ''completed''
                     (JDict [(''status'', JStr ''ok''), (''output'', JStr txt)]) None (fst u) (snd u) True rr1))
          | InlineInterrupt p \<Rightarrow>
              (let msg = cannot_pause ''an inline skill call'' p ''a sub agent''
               in (ExecError msg, finish_step clean i ''failed'' JNull (Some msg) 0 0 True rr1))
          | InlineError e \<Rightarrow> (ExecError e, finish_step clean i ''failed'' JNull (Some e) 0 0 True rr1)))"

datatype tool_outcome =
    ToolAnswer string "int \<times> int"     \<comment> \<open>the model's text or the tool's result, with the usage\<close>
  | ToolInterrupt "string option"
  | ToolFailure string

definition tool_step :: "string \<Rightarrow> string \<Rightarrow> tool_row \<Rightarrow> nat option \<Rightarrow> step_args" where
  "tool_step tool_id name t parent = \<lparr>sa_type = ''tool_call'', sa_tier = ''tool'',
     sa_kind = Some (if t_kind t \<noteq> [] then t_kind t else ''mcp''), sa_entity_id = Some tool_id,
     sa_entity_name = Some name, sa_node = Some name, sa_parent = parent,
     sa_version = t_schema_version t, sa_hash = t_schema_hash t, sa_dispatch = True\<rparr>"

definition run_direct_tool ::
    "(string option \<Rightarrow> string option) \<Rightarrow> string list \<Rightarrow> tool_row list \<Rightarrow> tool_outcome \<Rightarrow> string
       \<Rightarrow> nat option \<Rightarrow> run_record \<Rightarrow> exec_result \<times> run_record" where
  "run_direct_tool clean natives tools outcome tool_id parent rr =
     (case resolve_tools_by_ids natives tools [tool_id] of
        [] \<Rightarrow> (ExecError (''tool '' @ tool_id @ '' is not active''), rr)
      | (name, t) # _ \<Rightarrow>
          (case start_step (tool_step tool_id name t parent) rr of (i, rr1) \<Rightarrow>
           case outcome of
             ToolAnswer txt u \<Rightarrow> (ExecOk txt, finish_step clean i ''completed''
                 (JDict [(''status'', JStr ''ok''), (''output'', JStr txt)]) None (fst u) (snd u) True rr1)
           | ToolInterrupt p \<Rightarrow>
               (let msg = cannot_pause ''a direct tool call'' p ''a skill''
                in (ExecError msg, finish_step clean i ''failed'' JNull (Some msg) 0 0 True rr1))
           | ToolFailure e \<Rightarrow> (ExecError e, finish_step clean i ''failed'' JNull (Some e) 0 0 True rr1)))"

section \<open>Dispatching a resolution\<close>

definition find_running_dispatch :: "run_record \<Rightarrow> string \<Rightarrow> nat option" where
  \<comment> \<open>the latest skill row of the run with this node id\<close>
  "find_running_dispatch rr node = map_option rs_id
     (find (\<lambda>s. rs_node s = Some node \<and> rs_type s = ''skill'') (rev (rr_steps rr)))"

datatype worker_run =
    WorkerPaused pydict
  | WorkerDone dispatch_result
  | WorkerFailed string

record dispatch_env =
  de_native :: "string \<Rightarrow> worker_run option"      \<comment> \<open>a registered native sub agent, run on the task\<close>
  de_worker :: "worker_graph \<Rightarrow> worker_run"        \<comment> \<open>a compiled workflow, run on the task\<close>
  de_inline :: "skill_row \<Rightarrow> (string + string \<times> model_params option) \<times> inline_outcome"
  de_tool :: "string \<Rightarrow> tool_outcome"
  de_natives :: "string list"
  de_tools :: "tool_row list"

definition compiled_run ::
    "((string \<times> string option \<times> string \<times> instant option) list \<Rightarrow> string) \<Rightarrow> dispatch_env \<Rightarrow> worker_cache
       \<Rightarrow> snapshot \<Rightarrow> worker_run \<times> worker_cache" where
  "compiled_run sha env cache sn = (case get_compiled_worker sha 0 cache sn of
       (Inl e, cache') \<Rightarrow> (WorkerFailed ''workflow does not build'', cache')
     | (Inr g, cache') \<Rightarrow> (de_worker env g, cache'))"

definition worker_of ::
    "((string \<times> string option \<times> string \<times> instant option) list \<Rightarrow> string) \<Rightarrow> dispatch_env \<Rightarrow> worker_cache
       \<Rightarrow> payload \<Rightarrow> worker_run \<times> worker_cache" where
  "worker_of sha env cache p = (case p of
       NativePayload name a \<Rightarrow>
         (case de_native env name of
            None \<Rightarrow> (WorkerFailed (''native sub agent '' @ name @ '' is not registered''), cache)
          | Some r \<Rightarrow> (r, cache))
     | SnapshotPayload (Some sn) \<Rightarrow> compiled_run sha env cache sn
     | SkillsPayload ss sign \<Rightarrow>
         (case build_ephemeral_snapshot ss of
            Inl e \<Rightarrow> (WorkerFailed ''IndexError'', cache)
          | Inr sn \<Rightarrow> compiled_run sha env cache sn)
     | _ \<Rightarrow> (WorkerFailed ''TypeError'', cache))"

definition dispatch_step :: "payload resolution \<Rightarrow> string \<Rightarrow> step_args" where
  "dispatch_step r entry_id = \<lparr>sa_type = ''skill'', sa_tier = ''sub_agent'', sa_kind = Some (res_kind r),
     sa_entity_id = res_entity_id r, sa_entity_name = Some (res_entity_name r), sa_node = Some entry_id,
     sa_parent = None, sa_version = res_version r, sa_hash = res_hash r, sa_dispatch = True\<rparr>"

definition execute_worker ::
    "(string option \<Rightarrow> string option) \<Rightarrow> ((string \<times> string option \<times> string \<times> instant option) list \<Rightarrow> string)
       \<Rightarrow> dispatch_env \<Rightarrow> payload resolution \<Rightarrow> string \<Rightarrow> worker_cache \<times> run_record
       \<Rightarrow> exec_result \<times> worker_cache \<times> run_record" where
  "execute_worker clean sha env r entry_id st = (case st of (cache, rr) \<Rightarrow>
     case (case find_running_dispatch rr entry_id of
             Some i \<Rightarrow> (i, rr) | None \<Rightarrow> start_step (dispatch_step r entry_id) rr) of (i, rr1) \<Rightarrow>
     case worker_of sha env cache (res_payload r) of (run, cache') \<Rightarrow>
     case run of
       WorkerPaused p \<Rightarrow> (ExecPaused p, cache', rr1)
     | WorkerDone d \<Rightarrow>
         ((if dr_status d = ''denied'' then ExecDenied d else ExecOk (dr_output d)), cache',
          finish_step clean i ''completed'' (JDict [(''status'', JStr (dr_status d)), (''output'', JStr (dr_output d))])
            None 0 0 True rr1)
     | WorkerFailed e \<Rightarrow> (ExecError e, cache', finish_step clean i ''failed'' JNull (Some e) 0 0 True rr1))"

definition execute_resolution ::
    "(string option \<Rightarrow> string option) \<Rightarrow> ((string \<times> string option \<times> string \<times> instant option) list \<Rightarrow> string)
       \<Rightarrow> dispatch_env \<Rightarrow> payload resolution \<Rightarrow> string \<Rightarrow> worker_cache \<times> run_record
       \<Rightarrow> exec_result \<times> worker_cache \<times> run_record" where
  "execute_resolution clean sha env r entry_id st = (case res_payload r of
       ToolPayload t \<Rightarrow>
         (case run_direct_tool clean (de_natives env) (de_tools env) (de_tool env (t_id t)) (t_id t) None (snd st) of
            (res, rr) \<Rightarrow> (res, fst st, rr))
     | SkillPayload s \<Rightarrow>
         (case run_inline_skill clean (fst (de_inline env s)) (snd (de_inline env s)) s None (snd st) of
            (res, rr) \<Rightarrow> (res, fst st, rr))
     | _ \<Rightarrow> execute_worker clean sha env r entry_id st)"

text \<open>No row is left running by what was executed: those that were running before may still be.\<close>

definition running_ids :: "run_record \<Rightarrow> nat set" where
  "running_ids rr = {i. is_running rr i}"

lemma start_step_running:
  assumes "record_ok rr" and "start_step a rr = (i, rr1)"
  shows "record_ok rr1 \<and> running_ids rr1 = insert i (running_ids rr) \<and> i \<notin> running_ids rr"
proof -
  have "record_step clean rr (StartStep a) = rr1" for clean using assms(2) by simp
  with recording.step_inv[OF assms(1)] have ok: "record_ok rr1" by metis
  have i: "i = rr_next rr" and steps: "rr_steps rr1 = row_add (new_step a i) (rr_steps rr)"
    using assms(2) by (auto simp: start_step_def Let_def)
  have new: "row_get rs_id (rr_steps rr) i = None"
    using assms(1) by (auto simp: row_get_None record_ok_def i)
  then have "is_running rr1 j \<longleftrightarrow> j = i \<or> is_running rr j" for j
    by (auto simp: is_running_def steps row_simps new_step_def split: option.splits)
  moreover have "\<not> is_running rr i" using new by (simp add: is_running_def)
  ultimately show ?thesis using ok by (auto simp: running_ids_def)
qed

lemma finish_step_running:
  assumes "status \<noteq> ''running''"
  shows "running_ids (finish_step clean i status outp err tin tout d rr) = running_ids rr - {i}"
proof -
  have "row_get rs_id (rr_steps (finish_step clean i status outp err tin tout d rr)) j
      = (if j = i then map_option (close_row clean status outp err tin tout) (row_get rs_id (rr_steps rr) i)
         else row_get rs_id (rr_steps rr) j)" for j
    unfolding finish_step_def Let_def by (simp add: step_table.get_upd)
  with assms show ?thesis
    by (auto simp: running_ids_def is_running_def close_row_def)
qed

lemma start_finish_running:
  assumes "record_ok rr" and "start_step a rr = (i, rr1)" and "status \<noteq> ''running''"
  shows "running_ids (finish_step clean i status outp err tin tout d rr1) = running_ids rr"
  using start_step_running[OF assms(1,2)] finish_step_running[OF assms(3)] by auto

lemma run_inline_skill_running:
  "record_ok rr \<Longrightarrow> running_ids (snd (run_inline_skill clean resolved outcome s parent rr)) = running_ids rr"
  by (auto simp: run_inline_skill_def Let_def start_finish_running split: sum.splits inline_outcome.splits prod.splits)

lemma run_direct_tool_running:
  "record_ok rr \<Longrightarrow> running_ids (snd (run_direct_tool clean natives tools outcome i parent rr)) = running_ids rr"
  by (auto simp: run_direct_tool_def Let_def start_finish_running split: list.splits tool_outcome.splits prod.splits)

lemma execute_worker_running:
  assumes "record_ok rr" and "execute_worker clean sha env r entry_id (cache, rr) = (res, cache', rr')"
    and "\<forall>p. res \<noteq> ExecPaused p"
  shows "running_ids rr' \<subseteq> running_ids rr"
proof -
  obtain i rr1 where i: "(case find_running_dispatch rr entry_id of
             Some i \<Rightarrow> (i, rr) | None \<Rightarrow> start_step (dispatch_step r entry_id) rr) = (i, rr1)" by fastforce
  have sub: "running_ids rr1 \<subseteq> insert i (running_ids rr)"
    using i start_step_running[OF assms(1)] by (auto split: option.splits)
  obtain run c where run: "worker_of sha env cache (res_payload r) = (run, c)" by fastforce
  from assms(2,3) show ?thesis
    using sub by (cases run) (auto simp: execute_worker_def i run finish_step_running)
qed

text \<open>
  No dispatch leaves a step running: unless the run paused at a human gate, every row that
  executing a resolution started is finished when it returns, on every path (success, refusal, a
  tool or a build that failed, an interrupt that cannot pause).
\<close>

theorem execution_closes_its_steps:
  assumes "record_ok rr" and "execute_resolution clean sha env r entry_id (cache, rr) = (res, cache', rr')"
    and "\<forall>p. res \<noteq> ExecPaused p"
  shows "running_ids rr' \<subseteq> running_ids rr"
proof (cases "res_payload r")
  case (ToolPayload t)
  then have "rr' = snd (run_direct_tool clean (de_natives env) (de_tools env) (de_tool env (t_id t)) (t_id t) None rr)"
    using assms(2) by (simp add: execute_resolution_def split: prod.splits)
  then show ?thesis by (simp add: run_direct_tool_running[OF assms(1)])
next
  case (SkillPayload s)
  then have "rr' = snd (run_inline_skill clean (fst (de_inline env s)) (snd (de_inline env s)) s None rr)"
    using assms(2) by (simp add: execute_resolution_def split: prod.splits)
  then show ?thesis by (simp add: run_inline_skill_running[OF assms(1)])
qed (use assms execute_worker_running[OF assms(1)] in \<open>simp_all add: execute_resolution_def\<close>)

definition quiet_env :: dispatch_env where
  "quiet_env = \<lparr>de_native = (\<lambda>_. None), de_worker = (\<lambda>_. WorkerDone \<lparr>dr_status = ''ok'', dr_output = ''x'', dr_denied = []\<rparr>),
     de_inline = (\<lambda>_. (Inr (''m'', None), InlineInterrupt (Some ''really?''))), de_tool = (\<lambda>_. ToolFailure ''e''),
     de_natives = [], de_tools = []\<rparr>"

theorem execution_closes_its_steps_witness:
  "running_ids (snd (snd (execute_resolution id (\<lambda>_. []) quiet_env (skill_resolution (sample_skill ''a'')) ''s1''
     (\<lambda>_. None, empty_record)))) = {}"
proof -
  let ?out = "execute_resolution id (\<lambda>_. []) quiet_env (skill_resolution (sample_skill ''a'')) ''s1'' (\<lambda>_. None, empty_record)"
  obtain res c rr where out: "?out = (res, c, rr)" by (cases ?out)
  have "\<forall>p. res \<noteq> ExecPaused p"
    using out by (auto simp: execute_resolution_def skill_resolution_def run_inline_skill_def quiet_env_def Let_def
        split: prod.splits)
  moreover have "record_ok empty_record" by (simp add: record_ok_def empty_record_def)
  ultimately have "running_ids rr \<subseteq> running_ids empty_record"
    using execution_closes_its_steps[OF _ out] by blast
  moreover have "running_ids empty_record = {}"
    by (simp add: running_ids_def is_running_def empty_record_def row_simps)
  ultimately show ?thesis by (simp add: out)
qed

subsection \<open>Plan entries and worker nodes share one key\<close>

definition node_rows :: "string \<Rightarrow> step_row list \<Rightarrow> run_record \<Rightarrow> run_record" where
  \<comment> \<open>the rows \<open>record_new_outputs\<close> writes for the outputs of a worker, each started and finished\<close>
  "node_rows agent rows rr = foldl (\<lambda>rec row.
     case start_step \<lparr>sa_type = st_type row, sa_tier = ''sub_agent'', sa_kind = Some ''dynamic'', sa_entity_id = None,
         sa_entity_name = None, sa_node = Some (st_node row), sa_parent = None, sa_version = None,
         sa_hash = None, sa_dispatch = False\<rparr> rec of
       (i, rec1) \<Rightarrow> finish_step id i (st_status row) (JStr agent) None 0 0 False rec1) rr rows"

definition worker_rows :: "run_record" where
  \<comment> \<open>an ephemeral worker of the run finished its first node\<close>
  "worker_rows = node_rows ''worker-alpha''
     (fst (record_new_outputs [(step_id 0, JDict [(''status'', JStr ''ok'')])] [])) empty_record"

definition native_sample :: agent_row where
  "native_sample = \<lparr>a_id = ''n'', a_name = ''n'', a_description = [], a_source = ''native'', a_status = ''active'',
     a_kind = ''native'', a_persona = [], a_model = None, a_model_params = JNull, a_workflow = JNull,
     a_native_ref = None, a_exposed = True, a_covers = [], a_skill_ids = [], a_skill_names = [], a_updated_at = None,
     a_definition_hash = None, a_definition_version = None, a_deleted_at = None\<rparr>"

text \<open>
  The row of a dispatch is looked up by the plan entry's id among all skill rows of the run,
  and the rows of worker nodes carry their node ids in the same column: an entry called
  \<open>step-1\<close> adopts the finished row of an ephemeral worker's first node, gets no row of its own and
  overwrites that node's recorded output.
\<close>

theorem entry_adopts_worker_node_row:
  "map rs_status (rr_steps worker_rows) = [''completed''] \<and> ''step-1'' \<notin> set RESERVED_SNAPSHOT_KEYS
   \<and> find_running_dispatch worker_rows ''step-1'' = Some 0
   \<and> map rs_output (rr_steps worker_rows) = [JStr ''worker-alpha'']
   \<and> map rs_output (rr_steps (snd (snd (execute_resolution id (\<lambda>_. [])
        (quiet_env\<lparr>de_native := (\<lambda>_. Some (WorkerDone \<lparr>dr_status = ''ok'', dr_output = ''y'', dr_denied = []\<rparr>))\<rparr>)
        (native_resolution native_sample) ''step-1'' (\<lambda>_. None, worker_rows)))))
      = [JDict [(''status'', JStr ''ok''), (''output'', JStr ''y'')]]"
proof (intro conjI)
  show "map rs_status (rr_steps worker_rows) = [''completed'']" by code_simp
  show "''step-1'' \<notin> set RESERVED_SNAPSHOT_KEYS" by code_simp
  show f: "find_running_dispatch worker_rows ''step-1'' = Some 0" by code_simp
  show out: "map rs_output (rr_steps worker_rows) = [JStr ''worker-alpha'']" by code_simp
  have ids: "map rs_id (rr_steps worker_rows) = [0]" by code_simp
  then obtain s where s: "rr_steps worker_rows = [s]" "rs_id s = 0" by (auto simp: map_eq_Cons_conv)
  show "map rs_output (rr_steps (snd (snd (execute_resolution id (\<lambda>_. [])
        (quiet_env\<lparr>de_native := (\<lambda>_. Some (WorkerDone \<lparr>dr_status = ''ok'', dr_output = ''y'', dr_denied = []\<rparr>))\<rparr>)
        (native_resolution native_sample) ''step-1'' (\<lambda>_. None, worker_rows)))))
      = [JDict [(''status'', JStr ''ok''), (''output'', JStr ''y'')]]"
    by (simp add: execute_resolution_def execute_worker_def f native_resolution_def native_sample_def worker_of_def
        finish_step_def s row_upd_def close_row_def)
qed

section \<open>The final merge\<close>

record dispatch_output =
  do_status :: string
  do_output :: string
  do_error :: string

definition output_block :: "string \<times> dispatch_output \<Rightarrow> string" where
  "output_block p = (case p of (i, o1) \<Rightarrow>
     ''['' @ i @ ''] status='' @ do_status o1 @ [CHR 0x0A]
     @ (if do_output o1 \<noteq> [] then do_output o1 else do_error o1))"

definition aggregate_outputs :: "(string \<times> dispatch_output) list \<Rightarrow> string option \<Rightarrow> string" where
  "aggregate_outputs outs direct =
     (let outs' = (case direct of
          Some d \<Rightarrow> (if d \<noteq> [] then dict_set outs ''planner-direct'' \<lparr>do_status = ''ok'', do_output = d, do_error = []\<rparr> else outs)
        | None \<Rightarrow> outs)
      in join [CHR 0x0A, CHR 0x0A] (map output_block (sort_key fst outs')))"

datatype aggregate_result = Answer string | AggregateFailed

definition aggregate_node ::
    "(nat \<Rightarrow> string) \<Rightarrow> plan_entry list \<Rightarrow> string option \<Rightarrow> aggregate_result" where
  \<comment> \<open>\<open>ask\<close>: the text of the first and of the second completion\<close>
  "aggregate_node ask entries direct = (case direct of
       Some d \<Rightarrow>
         (if entries = [] then Answer d
          else if py_strip (ask 1) \<noteq> [] then Answer (ask 1)
          else if py_strip (ask 2) \<noteq> [] then Answer (ask 2) else AggregateFailed)
     | None \<Rightarrow>
         (if py_strip (ask 1) \<noteq> [] then Answer (ask 1)
          else if py_strip (ask 2) \<noteq> [] then Answer (ask 2) else AggregateFailed))"

lemma aggregate_not_blank:
  "aggregate_node ask entries direct = Answer a \<Longrightarrow> entries \<noteq> [] \<or> direct = None \<Longrightarrow> py_strip a \<noteq> []"
  by (auto simp: aggregate_node_def split: option.splits if_splits)

section \<open>Direct mode\<close>

datatype direct_error =
    AgentNotFound
  | AgentNotActive string
  | AgentNotExposed string
  | DirectResolution resolution_error

definition check_direct_invokable ::
    "agent_row list \<Rightarrow> bool \<Rightarrow> string \<Rightarrow> direct_error + agent_row" where
  "check_direct_invokable agents allow_unexposed i = (case agent_by_id agents i of
       None \<Rightarrow> Inl AgentNotFound
     | Some a \<Rightarrow>
         (if a_status a \<noteq> ''active'' then Inl (AgentNotActive (a_name a))
          else if \<not> a_exposed a \<and> \<not> allow_unexposed then Inl (AgentNotExposed (a_name a))
          else Inr a))"

definition DIRECT_ENTRY_ID :: string where
  "DIRECT_ENTRY_ID = ''direct''"

definition eval_skill_resolution :: "registries \<Rightarrow> string \<Rightarrow> resolution_error + payload resolution" where
  "eval_skill_resolution rg i = (case skill_by_id (rg_skills rg) i of
       None \<Rightarrow> Inl (NotActive i)
     | Some s \<Rightarrow>
         (if s_status s \<noteq> ''active'' then Inl (NotActive i)
          else Inr \<lparr>res_rung = ''dynamic_worker'', res_tier = ''sub_agent'', res_kind = ''dynamic'',
            res_source = ''dynamic'', res_entity_id = None,
            res_entity_name = ''eval-worker ('' @ s_name s @ '')'',
            res_payload = SkillsPayload [s] ''eval-worker'', res_version = None, res_hash = None\<rparr>))"

definition direct_resolution ::
    "(json \<Rightarrow> string) \<Rightarrow> (payload \<Rightarrow> pydict) \<Rightarrow> registries \<Rightarrow> bool \<Rightarrow> string \<Rightarrow> run_record
       \<Rightarrow> pydict \<Rightarrow> direct_error + pydict resolution \<times> pydict" where
  \<comment> \<open>the resolution \<open>invoke_node\<close> executes and the snapshot it leaves: a replay takes the frozen
      one, the first dispatch passes the gate and freezes what it resolved\<close>
  "direct_resolution render enc rg allow_unexposed i rr snap =
     (case (if find_running_dispatch rr DIRECT_ENTRY_ID = None then None
            else pinned_resolution render snap DIRECT_ENTRY_ID) of
        Some r \<Rightarrow> Inr (r, snap)
      | None \<Rightarrow>
          bind_r (check_direct_invokable (rg_agents rg) allow_unexposed i) (\<lambda>_.
            case resolve_agent rg i of
              Inl e \<Rightarrow> Inl (DirectResolution e)
            | Inr r \<Rightarrow> Inr (freeze enc r,
                write_snapshot snap [(DIRECT_ENTRY_ID, JDict (resolution_snapshot (freeze enc r)))])))"

definition compose_task_with_summary :: "string \<Rightarrow> string \<Rightarrow> string" where
  "compose_task_with_summary summary task =
     ''Conversation summary (context):'' @ [CHR 0x0A] @ summary @ [CHR 0x0A, CHR 0x0A] @ ''Current request: '' @ task"

text \<open>
  An approved direct run is not undone by an edit made while it was paused: once the run has
  dispatched, every replay executes the resolution it froze, whatever the registry holds then
  (the agent deactivated, hidden, deleted or redefined), and the first dispatch is subject to the
  gate.
\<close>

theorem direct_replay_ignores_registry:
  assumes "direct_resolution render enc rg allow i rr snap = Inr (r, snap')"
    and "find_running_dispatch rr DIRECT_ENTRY_ID = None" and "find_running_dispatch rr' DIRECT_ENTRY_ID \<noteq> None"
  shows "direct_resolution render enc rg' allow' i rr' snap' = Inr (r, snap')
    \<and> (\<exists>a \<in> set (rg_agents rg). a_id a = i \<and> a_status a = ''active'' \<and> (a_exposed a \<or> allow))"
proof -
  from assms(1,2) obtain a r0 where c: "check_direct_invokable (rg_agents rg) allow i = Inr a"
    and "resolve_agent rg i = Inr r0" and r: "r = freeze enc r0"
    and snap': "snap' = write_snapshot snap [(DIRECT_ENTRY_ID, JDict (resolution_snapshot (freeze enc r0)))]"
    by (auto simp: direct_resolution_def bind_r_Inr split: sum.splits)
  from assms(3) have "direct_resolution render enc rg' allow' i rr' snap' = Inr (r, snap')"
    by (auto simp: direct_resolution_def pinned_after_write r snap')
  moreover from c have "agent_by_id (rg_agents rg) i = Some a" "a_status a = ''active''" "a_exposed a \<or> allow"
    by (auto simp: check_direct_invokable_def split: option.splits if_splits)
  ultimately show ?thesis using agent_by_id_Some by blast
qed

theorem direct_replay_ignores_registry_witness:
  "\<exists>r snap. direct_resolution (\<lambda>_. []) (\<lambda>_. []) \<lparr>rg_tools = [], rg_skills = [],
        rg_agents = [native_sample], rg_dynamic_enabled = True\<rparr> False ''n'' empty_record [] = Inr (r, snap)
     \<and> direct_resolution (\<lambda>_. []) (\<lambda>_. []) \<lparr>rg_tools = [], rg_skills = [], rg_agents = [],
        rg_dynamic_enabled = True\<rparr> False ''n''
        (snd (start_step (dispatch_step (native_resolution native_sample) DIRECT_ENTRY_ID) empty_record)) snap
       = Inr (r, snap)"
proof -
  let ?rg = "\<lparr>rg_tools = [], rg_skills = [], rg_agents = [native_sample], rg_dynamic_enabled = True\<rparr>"
  have none: "find_running_dispatch empty_record DIRECT_ENTRY_ID = None" by code_simp
  have some: "find_running_dispatch (snd (start_step (dispatch_step (native_resolution native_sample) DIRECT_ENTRY_ID)
      empty_record)) DIRECT_ENTRY_ID \<noteq> None"
    by code_simp
  obtain r snap where first: "direct_resolution (\<lambda>_. []) (\<lambda>_. []) ?rg False ''n'' empty_record [] = Inr (r, snap)"
    by (simp add: direct_resolution_def none check_direct_invokable_def agent_by_id_def native_sample_def
        resolve_agent_def)
  from direct_replay_ignores_registry[OF first none some] show ?thesis using first by blast
qed

end
