(* ===== verification/Admission.thy ===== *)
theory Admission
  imports Prelude
begin

text \<open>
  Admission of runs (\<open>backend/app/orchestrator/admission.py\<close>) and of requests
  (\<open>backend/app/ratelimit.py\<close>). A run waits for a slot of the process semaphore; the states
  between two awaits are kept apart: a run is waiting, granted (the semaphore handed it a slot and
  it has not resumed yet) or running. The semaphore is Python's \<open>asyncio.Semaphore\<close>: \<open>release\<close>
  hands the slot to the first waiter at once. The token bucket is exact arithmetic over reals.
\<close>

section \<open>Slots\<close>

record slot_sem =
  sem_cap :: nat
  sem_value :: nat
  sem_waiters :: "nat list"
  sem_granted :: "nat list"
  sem_running :: "nat list"       \<comment> \<open>runs holding a slot of this semaphore and in \<open>_running\<close>\<close>

record admission =
  ad_sems :: "slot_sem list"      \<comment> \<open>all semaphores with users, the process semaphore last\<close>
  ad_accepting :: bool
  ad_draining_since :: "int option"

definition new_sem :: "nat \<Rightarrow> slot_sem" where
  "new_sem n = \<lparr>sem_cap = n, sem_value = n, sem_waiters = [], sem_granted = [], sem_running = []\<rparr>"

definition adm_running :: "admission \<Rightarrow> nat list" where
  "adm_running a = concat (map sem_running (ad_sems a))"

definition adm_queued :: "admission \<Rightarrow> nat list" where
  "adm_queued a = concat (map (\<lambda>s. sem_waiters s @ sem_granted s) (ad_sems a))"

definition adm_reset :: admission where
  "adm_reset = \<lparr>ad_sems = [], ad_accepting = True, ad_draining_since = None\<rparr>"

definition set_accepting :: "int \<Rightarrow> bool \<Rightarrow> admission \<Rightarrow> admission" where
  "set_accepting now v a =
     a\<lparr>ad_accepting := v,
       ad_draining_since := (if v then None
                             else case ad_draining_since a of None \<Rightarrow> Some now | t \<Rightarrow> t)\<rparr>"

definition begin_drain :: "int \<Rightarrow> admission \<Rightarrow> admission" where
  "begin_drain now a = set_accepting now False a"

definition int_or :: "int \<Rightarrow> json \<Rightarrow> int" where
  \<comment> \<open>\<open>int(v or n)\<close> for a numeric setting\<close>
  "int_or n v = (case v of JInt i \<Rightarrow> (if i = 0 then n else i) | JBool True \<Rightarrow> 1 | _ \<Rightarrow> n)"

definition limits_from :: "pydict \<Rightarrow> nat \<times> nat" where
  "limits_from settings =
     (nat (max (int_or 8 (dict_get settings ''run_max_concurrent'')) 1),
      nat (max (int_or 0 (dict_get settings ''run_queue_max'')) 0))"

datatype at_capacity = Draining | ServerFull nat nat

definition check_admission :: "pydict \<Rightarrow> bool \<Rightarrow> admission \<Rightarrow> at_capacity option" where
  "check_admission settings shed_if_full a =
     (case limits_from settings of (max_concurrent, queue_max) \<Rightarrow>
        if \<not> ad_accepting a then Some Draining
        else if \<not> shed_if_full then None
        else if max_concurrent \<le> length (adm_running a) \<and> queue_max \<le> length (adm_queued a)
        then Some (ServerFull (length (adm_running a)) (length (adm_queued a)))
        else None)"

definition get_semaphore :: "nat \<Rightarrow> admission \<Rightarrow> admission" where
  "get_semaphore n a =
     (if ad_sems a = [] \<or> (sem_cap (last (ad_sems a)) \<noteq> n \<and> adm_running a = [])
      then a\<lparr>ad_sems := ad_sems a @ [new_sem n]\<rparr> else a)"

definition acquire :: "nat \<Rightarrow> slot_sem \<Rightarrow> slot_sem" where
  \<comment> \<open>without a waiter ahead a free slot is taken at once, otherwise the run queues up\<close>
  "acquire rid s =
     (if 0 < sem_value s \<and> sem_waiters s = [] \<and> sem_granted s = []
      then s\<lparr>sem_value := sem_value s - 1, sem_running := sem_running s @ [rid]\<rparr>
      else s\<lparr>sem_waiters := sem_waiters s @ [rid]\<rparr>)"

definition wake_next :: "slot_sem \<Rightarrow> slot_sem" where
  \<comment> \<open>one slot is free: hand it to the first waiter, keep it when there is none\<close>
  "wake_next s = (case sem_waiters s of
       [] \<Rightarrow> s\<lparr>sem_value := sem_value s + 1\<rparr>
     | w # ws \<Rightarrow> s\<lparr>sem_waiters := ws, sem_granted := sem_granted s @ [w]\<rparr>)"

definition wake_all :: "slot_sem \<Rightarrow> slot_sem" where
  \<comment> \<open>the loop at the end of a waiter's \<open>acquire\<close>: hand out every free slot while someone waits\<close>
  "wake_all s = (let k = min (sem_value s) (length (sem_waiters s))
     in s\<lparr>sem_value := sem_value s - k, sem_granted := sem_granted s @ take k (sem_waiters s),
          sem_waiters := drop k (sem_waiters s)\<rparr>)"

definition resume_waiter :: "nat \<Rightarrow> slot_sem \<Rightarrow> slot_sem" where
  "resume_waiter rid s =
     (if rid \<in> set (sem_granted s)
      then wake_all (s\<lparr>sem_granted := remove1 rid (sem_granted s), sem_running := sem_running s @ [rid]\<rparr>)
      else s)"

definition cancel_wait :: "nat \<Rightarrow> slot_sem \<Rightarrow> slot_sem" where
  \<comment> \<open>a cancelled waiter leaves; a slot already handed to it goes back\<close>
  "cancel_wait rid s =
     (if rid \<in> set (sem_granted s)
      then wake_all (s\<lparr>sem_granted := remove1 rid (sem_granted s), sem_value := sem_value s + 1\<rparr>)
      else if rid \<in> set (sem_waiters s)
      then wake_all (s\<lparr>sem_waiters := remove1 rid (sem_waiters s)\<rparr>) else s)"

definition release_slot :: "nat \<Rightarrow> slot_sem \<Rightarrow> slot_sem" where
  "release_slot rid s =
     (if rid \<in> set (sem_running s) then wake_next (s\<lparr>sem_running := remove1 rid (sem_running s)\<rparr>) else s)"

datatype adm_event =
    Arrive nat nat          \<comment> \<open>a run enters \<open>slot\<close> under \<open>run_max_concurrent\<close>\<close>
  | Resume nat
  | CancelWait nat
  | Leave nat
  | Drain int

fun adm_step :: "admission \<Rightarrow> adm_event \<Rightarrow> admission" where
  "adm_step a (Arrive rid n) =
     (let a1 = get_semaphore n a
      in a1\<lparr>ad_sems := butlast (ad_sems a1) @ [acquire rid (last (ad_sems a1))]\<rparr>)"
| "adm_step a (Resume rid) = a\<lparr>ad_sems := map (resume_waiter rid) (ad_sems a)\<rparr>"
| "adm_step a (CancelWait rid) = a\<lparr>ad_sems := map (cancel_wait rid) (ad_sems a)\<rparr>"
| "adm_step a (Leave rid) = a\<lparr>ad_sems := map (release_slot rid) (ad_sems a)\<rparr>"
| "adm_step a (Drain now) = begin_drain now a"

text \<open>
  The slots of a semaphore are free, granted or running, and a run waits only while no slot is
  free, or while a granted run is about to resume and hand on what is left.
\<close>

definition sem_inv :: "slot_sem \<Rightarrow> bool" where
  "sem_inv s \<longleftrightarrow> sem_value s + length (sem_granted s) + length (sem_running s) = sem_cap s
     \<and> (sem_waiters s \<noteq> [] \<longrightarrow> sem_value s = 0 \<or> sem_granted s \<noteq> [])"

lemma length_remove1_mem: "x \<in> set xs \<Longrightarrow> length xs = Suc (length (remove1 x xs))"
  using length_pos_if_in_set[of x xs] by (auto simp: length_remove1)

lemma new_sem_simps [simp]: "sem_cap (new_sem n) = n" "sem_inv (new_sem n)"
  by (simp_all add: sem_inv_def new_sem_def)

lemma sem_inv_acquire: "sem_inv s \<Longrightarrow> sem_inv (acquire rid s)"
  by (auto simp: sem_inv_def acquire_def)

lemma sem_inv_wake_all:
  "sem_value s + length (sem_granted s) + length (sem_running s) = sem_cap s \<Longrightarrow> sem_inv (wake_all s)"
  by (auto simp: sem_inv_def wake_all_def Let_def min_def)

lemma sem_inv_resume: "sem_inv s \<Longrightarrow> sem_inv (resume_waiter rid s)"
  using length_remove1_mem[of rid "sem_granted s"]
  by (auto simp: resume_waiter_def sem_inv_def[of s] intro!: sem_inv_wake_all)

lemma sem_inv_cancel: "sem_inv s \<Longrightarrow> sem_inv (cancel_wait rid s)"
  using length_remove1_mem[of rid "sem_granted s"]
  by (auto simp: cancel_wait_def sem_inv_def[of s] intro!: sem_inv_wake_all)

lemma sem_inv_release: "sem_inv s \<Longrightarrow> sem_inv (release_slot rid s)"
  using length_remove1_mem[of rid "sem_running s"]
  by (auto simp: release_slot_def sem_inv_def wake_next_def split: list.splits)

lemma sem_caps [simp]:
  "sem_cap (acquire rid s) = sem_cap s" "sem_cap (resume_waiter rid s) = sem_cap s"
  "sem_cap (cancel_wait rid s) = sem_cap s" "sem_cap (release_slot rid s) = sem_cap s"
  by (simp_all add: acquire_def resume_waiter_def cancel_wait_def release_slot_def wake_all_def wake_next_def Let_def
      split: list.splits)

definition adm_inv :: "nat \<Rightarrow> admission \<Rightarrow> bool" where
  \<comment> \<open>under one setting there is one semaphore\<close>
  "adm_inv n a \<longleftrightarrow> ad_sems a = [] \<or> (\<exists>s. ad_sems a = [s] \<and> sem_cap s = n \<and> sem_inv s)"

definition arrives_with :: "nat \<Rightarrow> adm_event \<Rightarrow> bool" where
  "arrives_with n e \<longleftrightarrow> (case e of Arrive rid m \<Rightarrow> m = n | _ \<Rightarrow> True)"

definition fixed_step :: "nat \<Rightarrow> admission \<Rightarrow> adm_event \<Rightarrow> admission" where
  \<comment> \<open>the events of a period in which the setting is \<open>n\<close>\<close>
  "fixed_step n a e = (if arrives_with n e then adm_step a e else a)"

interpretation slots: inv_system "fixed_step n" "adm_inv n"
proof unfold_locales
  fix a e
  assume inv: "adm_inv n a"
  show "adm_inv n (fixed_step n a e)"
  proof (cases e)
    case (Arrive rid m)
    with inv show ?thesis
      by (auto simp: adm_inv_def fixed_step_def arrives_with_def get_semaphore_def Let_def sem_inv_acquire)
  qed (use inv in \<open>auto simp: adm_inv_def fixed_step_def arrives_with_def begin_drain_def set_accepting_def
      sem_inv_resume sem_inv_cancel sem_inv_release\<close>)
qed


definition resized :: "adm_event list" where
  \<comment> \<open>one run holds the only slot and one waits; the setting goes to 2; the first leaves, and two
      runs arrive before the granted one resumes\<close>
  "resized = [Arrive 1 1, Arrive 2 1, Leave 1, Arrive 3 2, Arrive 4 2, Resume 2]"

text \<open>
  The guard that rebuilds the semaphore on a changed setting looks at the running runs only;
  a run that was handed a slot and has not resumed is not among them. After the setting went from
  one to two, three runs execute at once.
\<close>

theorem resize_exceeds_limit:
  "list_all (\<lambda>e. arrives_with 1 e \<or> arrives_with 2 e) resized
   \<and> length (adm_running (foldl adm_step adm_reset resized)) = 3"
  by code_simp

section \<open>The token bucket\<close>

text \<open>
  \<open>rate_buckets\<close> is a map from keys to the tokens left and the time of the last request, in
  seconds. Each request is one transaction that locks its row, so a history of requests of any
  number of replicas is a sequence of steps; every step reads the clock of its replica.
\<close>

type_synonym rate_buckets = "string \<Rightarrow> (real \<times> real) option"

definition IDLE_EVICT_S :: real where
  "IDLE_EVICT_S = 3600"

definition allow :: "string \<Rightarrow> real \<Rightarrow> real \<Rightarrow> real \<Rightarrow> rate_buckets \<Rightarrow> bool \<times> rate_buckets" where
  "allow key0 burst per_s now b =
     (let key = take 128 key0;
          tokens = (case b key of
              None \<Rightarrow> burst
            | Some (left, ts) \<Rightarrow> min burst (left + max (now - ts) 0 * per_s));
          allowed = (1 \<le> tokens)
      in (allowed, b(key \<mapsto> (if allowed then tokens - 1 else tokens, now))))"

definition evict_idle :: "real \<Rightarrow> real \<Rightarrow> rate_buckets \<Rightarrow> rate_buckets" where
  "evict_idle idle_s now b =
     (\<lambda>key. case b key of None \<Rightarrow> None | Some (left, ts) \<Rightarrow> if ts < now - idle_s then None else Some (left, ts))"

datatype rate_event = Request string | EvictIdle real

fun grants :: "real \<Rightarrow> real \<Rightarrow> string \<Rightarrow> rate_buckets \<Rightarrow> (real \<times> rate_event) list \<Rightarrow> nat" where
  \<comment> \<open>how many requests of \<open>key\<close> a history of timed events lets through\<close>
  "grants burst per_s key b [] = 0"
| "grants burst per_s key b ((now, Request k) # es) =
     (case allow k burst per_s now b of (ok, b') \<Rightarrow>
        (if ok \<and> take 128 k = take 128 key then 1 else 0) + grants burst per_s key b' es)"
| "grants burst per_s key b ((now, EvictIdle idle_s) # es) =
     grants burst per_s key (evict_idle idle_s now b) es"

definition level :: "real \<Rightarrow> real \<Rightarrow> real \<Rightarrow> (real \<times> real) option \<Rightarrow> real" where
  \<comment> \<open>the tokens a request at \<open>now\<close> would find\<close>
  "level burst per_s now row =
     (case row of None \<Rightarrow> burst | Some (left, ts) \<Rightarrow> min burst (left + max (now - ts) 0 * per_s))"

definition row_ok :: "real \<Rightarrow> (real \<times> real) option \<Rightarrow> bool" where
  "row_ok now row \<longleftrightarrow> (case row of None \<Rightarrow> True | Some (left, ts) \<Rightarrow> 0 \<le> left \<and> ts \<le> now)"

definition evictions_idle :: "real \<Rightarrow> real \<Rightarrow> (real \<times> rate_event) list \<Rightarrow> bool" where
  \<comment> \<open>every eviction waits at least as long as an empty bucket takes to fill up\<close>
  "evictions_idle burst per_s es \<longleftrightarrow>
     list_all (\<lambda>(t, e). case e of Request k \<Rightarrow> True | EvictIdle idle_s \<Rightarrow> 0 \<le> idle_s \<and> burst \<le> idle_s * per_s) es"

lemma level_mono:
  assumes "0 \<le> per_s" "now \<le> later" "row_ok now row"
  shows "level burst per_s later row \<le> level burst per_s now row + (later - now) * per_s"
proof (cases row)
  case (Some r)
  obtain left ts where [simp]: "r = (left, ts)" by (cases r)
  with assms Some have "ts \<le> now" by (simp add: row_ok_def)
  then have "left + max (later - ts) 0 * per_s = left + max (now - ts) 0 * per_s + (later - now) * per_s"
    using assms(2) by (simp add: algebra_simps)
  moreover have "0 \<le> (later - now) * per_s" using assms by simp
  ultimately show ?thesis using Some by (simp add: level_def)
qed (use assms in \<open>simp add: level_def\<close>)

lemma level_evict:
  assumes "0 \<le> per_s" "0 \<le> idle_s" "burst \<le> idle_s * per_s" "row_ok now (b key)"
  shows "level burst per_s now (evict_idle idle_s now b key) = level burst per_s now (b key)"
proof (cases "b key")
  case (Some r)
  obtain left ts where [simp]: "r = (left, ts)" by (cases r)
  show ?thesis
  proof (cases "ts < now - idle_s")
    case True
    with assms Some have "idle_s * per_s \<le> max (now - ts) 0 * per_s" by (intro mult_right_mono) auto
    with assms Some True show ?thesis by (simp add: level_def evict_idle_def row_ok_def)
  qed (simp add: Some evict_idle_def)
qed (simp add: evict_idle_def)

lemma row_ok_evict: "row_ok now (b key) \<Longrightarrow> row_ok now (evict_idle idle_s now b key)"
  by (auto simp: row_ok_def evict_idle_def split: option.splits prod.splits)

lemma allow_row:
  assumes "0 \<le> burst" "0 \<le> per_s" "row_ok now (b (take 128 k))"
  shows "fst (allow k burst per_s now b) \<longleftrightarrow> 1 \<le> level burst per_s now (b (take 128 k))"
    and "level burst per_s now (snd (allow k burst per_s now b) (take 128 k))
         = level burst per_s now (b (take 128 k)) - (if fst (allow k burst per_s now b) then 1 else 0)"
    and "row_ok now (snd (allow k burst per_s now b) (take 128 k))"
  using assms
  by (auto simp: allow_def level_def row_ok_def Let_def split: option.splits)

lemma allow_other: "take 128 k \<noteq> key \<Longrightarrow> snd (allow k burst per_s now b) key = b key"
  by (simp add: allow_def Let_def)

lemma row_ok_later: "row_ok now row \<Longrightarrow> now \<le> later \<Longrightarrow> row_ok later row"
  by (auto simp: row_ok_def split: option.splits)

lemma grants_le_level:
  assumes "0 \<le> burst" "0 \<le> per_s"
  shows "row_ok now (b (take 128 key)) \<Longrightarrow> sorted (now # map fst es @ [until]) \<Longrightarrow> evictions_idle burst per_s es
     \<Longrightarrow> real (grants burst per_s key b es) \<le> level burst per_s now (b (take 128 key)) + (until - now) * per_s"
proof (induction es arbitrary: b now)
  case Nil
  have "0 \<le> level burst per_s now (b (take 128 key))"
    using assms Nil by (auto simp: level_def row_ok_def split: option.splits)
  with assms Nil show ?case by simp
next
  case (Cons x es)
  obtain t e where [simp]: "x = (t, e)" by (cases x)
  let ?row = "b (take 128 key)"
  have le: "now \<le> t" and srt: "sorted (t # map fst es @ [until])" using Cons.prems by auto
  have ok: "row_ok t ?row" using Cons.prems(1) le by (rule row_ok_later)
  have later: "level burst per_s t ?row \<le> level burst per_s now ?row + (t - now) * per_s"
    using assms(2) le Cons.prems(1) by (rule level_mono)
  have rest: "evictions_idle burst per_s es" using Cons.prems(3) by (simp add: evictions_idle_def)
  have split: "(until - now) * per_s = (t - now) * per_s + (until - t) * per_s" by (simp add: algebra_simps)
  show ?case
  proof (cases e)
    case (Request k)
    define b' where "b' = snd (allow k burst per_s t b)"
    show ?thesis
    proof (cases "take 128 k = take 128 key")
      case True
      have row: "row_ok t (b (take 128 k))" using ok True by simp
      note allow_row[OF assms, of t b k, OF row, folded b'_def]
      with Cons.IH[of t b'] srt rest later split True show ?thesis
        by (cases "1 \<le> level burst per_s t ?row") (simp_all add: Request b'_def split_beta)
    next
      case False
      then have "b' (take 128 key) = ?row" unfolding b'_def by (rule allow_other)
      with Cons.IH[of t b'] ok srt rest later split False show ?thesis
        by (simp add: Request b'_def split_beta)
    qed
  next
    case (EvictIdle idle_s)
    have "0 \<le> idle_s" "burst \<le> idle_s * per_s" using Cons.prems(3) by (simp_all add: EvictIdle evictions_idle_def)
    note level_evict[OF assms(2), of idle_s burst t b "take 128 key", OF this ok] row_ok_evict[of t b "take 128 key" idle_s, OF ok]
    with Cons.IH[of t "evict_idle idle_s t b"] srt rest later split show ?thesis
      by (simp add: EvictIdle)
  qed
qed

text \<open>
  The replicas together grant one budget: when the clock readings in the order of the
  transactions never go back and evictions wait until a bucket is full again, the requests of a
  key let through between \<open>start\<close> and \<open>until\<close> are at most the burst plus the refill of that time,
  whatever other keys do and however often idle rows are evicted.
\<close>

theorem one_budget:
  assumes "0 \<le> burst" "0 \<le> per_s" "sorted (start # map fst es @ [until])" "evictions_idle burst per_s es"
  shows "real (grants burst per_s key Map.empty es) \<le> burst + (until - start) * per_s"
  using grants_le_level[OF assms(1,2), of start Map.empty key es until] assms(3,4)
  by (simp add: row_ok_def level_def)

definition burst_history :: "(real \<times> rate_event) list" where
  "burst_history = [(0, Request ''u''), (0, Request ''u''), (0, Request ''v''), (1, Request ''u''),
                    (4000, EvictIdle IDLE_EVICT_S), (4000, Request ''u'')]"

corollary one_budget_witness:
  "grants 1 1 ''u'' Map.empty burst_history = 3
   \<and> real (grants 1 1 ''u'' Map.empty burst_history) \<le> 1 + (4000 - 0) * 1"
proof
  show "grants 1 1 ''u'' Map.empty burst_history = 3"
    by (simp add: burst_history_def allow_def evict_idle_def IDLE_EVICT_S_def Let_def)
  show "real (grants 1 1 ''u'' Map.empty burst_history) \<le> 1 + (4000 - 0) * 1"
    by (rule one_budget) (simp_all add: burst_history_def evictions_idle_def IDLE_EVICT_S_def)
qed

definition skewed :: "string \<Rightarrow> nat \<Rightarrow> (real \<times> rate_event) list" where
  \<comment> \<open>two replicas, one second apart, serve one key in turn at one moment\<close>
  "skewed k n = concat (replicate n [(1, Request k), (0, Request k)])"

lemma skewed_grants:
  assumes "b (take 128 k) = None \<or> b (take 128 k) = Some (0, 0)"
  shows "grants 1 1 k b (skewed k n) = n"
  using assms
proof (induction n arbitrary: b)
  case (Suc n)
  define b' where "b' = b(take 128 k \<mapsto> (0::real, 0::real))"
  have "grants 1 1 k b (skewed k (Suc n)) = 1 + grants 1 1 k b' (skewed k n)"
    using Suc.prems by (auto simp: skewed_def allow_def b'_def)
  moreover have "grants 1 1 k b' (skewed k n) = n" by (rule Suc.IH) (simp add: b'_def)
  ultimately show ?case by simp
qed (simp add: skewed_def)

text \<open>
  The row takes the time of the replica that wrote it, also when that is earlier than the
  time it held, so the time between two clocks is refilled again and again: with one token per
  second and two clocks one second apart, half of any number of simultaneous requests pass.
\<close>

theorem clock_skew_lifts_limit:
  "grants 1 1 key Map.empty (skewed key n) = n"
  by (rule skewed_grants) simp

end
