(* ===== verification/Run_Lifecycle.thy ===== *)
theory Run_Lifecycle
  imports Prelude
begin

text \<open>
  The life of one run across the replicas (\<open>backend/app/orchestrator/runner.py\<close>,
  \<open>control.dispatch\<close>, \<open>ambient/execute.reap_stalled_runs\<close>). The state is the run row, its step
  rows, the asyncio tasks that execute it, and per replica the entries of \<open>RUNNING_TASKS\<close> and
  \<open>_CANCEL_REASON\<close>; the events are the code between two points where another actor can act. A
  cancelled task finishes its clean-up before the next event.
\<close>

section \<open>State\<close>

datatype run_status = Queued | Running | PausedHitl | Completed | Failed | Cancelled | Stalled

datatype run_error =
    WallClockExceeded | CancelledQueued | ShutDown | RunCancelled | PeerRequest string
  | SeenAtHeartbeat | CancelledPaused | OrphanedByRestart | OwnerGone string | NoHeartbeat
  | RunError string

record run_row =
  rr_status :: run_status
  rr_error :: "run_error option"
  rr_owner :: "string option"
  rr_cancel_requested :: "instant option"
  rr_heartbeat :: "instant option"
  rr_started :: instant
  rr_finished :: "instant option"
  rr_answer :: "string option"

datatype phase =
    Waiting       \<comment> \<open>for an admission slot\<close>
  | Starting      \<comment> \<open>slot held, before the \<open>try\<close> block of \<open>_execute\<close>\<close>
  | Executing     \<comment> \<open>inside the \<open>try\<close> block\<close>

record run_task =
  t_id :: nat
  t_replica :: string
  t_resume :: bool
  t_phase :: phase

datatype life_event = EvError run_error | EvStatus run_status | EvDone string

datatype step_state = StepRunning | StepCompleted | StepCancelled

record cluster =
  cl_run :: run_row
  cl_steps :: "step_state list"
  cl_tasks :: "run_task list"
  cl_running :: "string \<Rightarrow> nat option"         \<comment> \<open>\<open>RUNNING_TASKS.get(run_id)\<close> of each replica\<close>
  cl_reason :: "string \<Rightarrow> run_error option"    \<comment> \<open>\<open>_CANCEL_REASON.get(run_id)\<close> of each replica\<close>
  cl_events :: "life_event list"
  cl_next :: nat

section \<open>Operations\<close>

definition create_run :: "string \<Rightarrow> instant \<Rightarrow> cluster" where
  "create_run replica now =
     \<lparr>cl_run = \<lparr>rr_status = Queued, rr_error = None, rr_owner = Some replica, rr_cancel_requested = None,
        rr_heartbeat = None, rr_started = now, rr_finished = None, rr_answer = None\<rparr>,
      cl_steps = [], cl_tasks = [], cl_running = (\<lambda>r. None), cl_reason = (\<lambda>r. None),
      cl_events = [], cl_next = 0\<rparr>"

definition start_run_task :: "string \<Rightarrow> bool \<Rightarrow> cluster \<Rightarrow> cluster" where
  "start_run_task r resume c =
     c\<lparr>cl_tasks := cl_tasks c @ [\<lparr>t_id = cl_next c, t_replica = r, t_resume = resume, t_phase = Waiting\<rparr>],
       cl_running := (cl_running c)(r := Some (cl_next c)),
       cl_next := Suc (cl_next c)\<rparr>"

definition set_status :: "run_status \<Rightarrow> cluster \<Rightarrow> cluster" where
  "set_status s c = c\<lparr>cl_run := (cl_run c)\<lparr>rr_status := s\<rparr>\<rparr>"

definition emit_event :: "life_event \<Rightarrow> cluster \<Rightarrow> cluster" where
  "emit_event e c = c\<lparr>cl_events := cl_events c @ [e]\<rparr>"

definition cancel_open_steps :: "cluster \<Rightarrow> cluster" where
  "cancel_open_steps c =
     c\<lparr>cl_steps := map (\<lambda>s. if s = StepRunning then StepCancelled else s) (cl_steps c)\<rparr>"

definition end_row :: "instant \<Rightarrow> run_status \<Rightarrow> run_error \<Rightarrow> cluster \<Rightarrow> cluster" where
  "end_row now s e c = c\<lparr>cl_run := (cl_run c)\<lparr>rr_status := s, rr_error := Some e, rr_finished := Some now\<rparr>\<rparr>"

definition finalize_failure :: "instant \<Rightarrow> run_status \<Rightarrow> run_error \<Rightarrow> cluster \<Rightarrow> cluster" where
  "finalize_failure now s e c =
     (let c1 = cancel_open_steps (end_row now s e c)
      in emit_event (EvStatus s) (if s = Failed then emit_event (EvError e) c1 else c1))"

definition find_task :: "nat \<Rightarrow> cluster \<Rightarrow> run_task option" where
  "find_task tid c = find (\<lambda>t. t_id t = tid) (cl_tasks c)"

definition end_task :: "run_task \<Rightarrow> cluster \<Rightarrow> cluster" where
  \<comment> \<open>the task is done; its callback pops the entry of the run, whichever task it names\<close>
  "end_task t c = c\<lparr>cl_tasks := filter (\<lambda>u. t_id u \<noteq> t_id t) (cl_tasks c),
                    cl_running := (cl_running c)(t_replica t := None)\<rparr>"

definition set_phase :: "run_task \<Rightarrow> phase \<Rightarrow> cluster \<Rightarrow> cluster" where
  "set_phase t p c = c\<lparr>cl_tasks := map (\<lambda>u. if t_id u = t_id t then u\<lparr>t_phase := p\<rparr> else u) (cl_tasks c)\<rparr>"

definition finalize_cancelled :: "instant \<Rightarrow> run_error option \<Rightarrow> run_error \<Rightarrow> run_task \<Rightarrow> cluster \<Rightarrow> cluster" where
  \<comment> \<open>\<open>_SHUTDOWN_REASON or _CANCEL_REASON.pop(run_id, None) or fallback\<close>\<close>
  "finalize_cancelled now shutdown fallback t c =
     (case shutdown of
        Some e \<Rightarrow> finalize_failure now Cancelled e c
      | None \<Rightarrow> finalize_failure now Cancelled
          (case cl_reason c (t_replica t) of Some e \<Rightarrow> e | None \<Rightarrow> fallback)
          (c\<lparr>cl_reason := (cl_reason c)(t_replica t := None)\<rparr>))"

definition cancel_task :: "instant \<Rightarrow> run_error option \<Rightarrow> run_task \<Rightarrow> cluster \<Rightarrow> cluster" where
  \<comment> \<open>\<open>CancelledError\<close> at the point where the task waits: a queued task finalizes in
      \<open>bounded_execute\<close>, an executing one in \<open>_execute\<close>, one in between finalizes nowhere\<close>
  "cancel_task now shutdown t c = end_task t
     (case t_phase t of
        Waiting \<Rightarrow> finalize_cancelled now shutdown CancelledQueued t c
      | Starting \<Rightarrow> c
      | Executing \<Rightarrow> finalize_cancelled now shutdown RunCancelled t c)"

definition cancel_local :: "instant \<Rightarrow> string \<Rightarrow> run_error \<Rightarrow> cluster \<Rightarrow> bool \<times> cluster" where
  "cancel_local now r reason c = (case cl_running c r of
       None \<Rightarrow> (False, c)
     | Some tid \<Rightarrow>
         (let c1 = c\<lparr>cl_reason := (cl_reason c)(r := Some reason)\<rparr>
          in (True, case find_task tid c1 of None \<Rightarrow> c1 | Some t \<Rightarrow> cancel_task now None t c1)))"

datatype cancel_reply = ReplyCancelled | ReplyRequested | NotCancellable run_status

definition cancel_run :: "instant \<Rightarrow> string \<Rightarrow> cluster \<Rightarrow> cancel_reply \<times> cluster" where
  "cancel_run now r c =
     (case cancel_local now r RunCancelled c of
        (True, c1) \<Rightarrow> (ReplyCancelled, c1)
      | (False, _) \<Rightarrow>
          (let row = cl_run c in
           if rr_status row \<notin> {Running, PausedHitl, Queued} then (NotCancellable (rr_status row), c)
           else if rr_status row = PausedHitl \<or> rr_owner row = None \<or> rr_owner row = Some r
           then (ReplyCancelled, finalize_failure now Cancelled CancelledPaused c)
           else (ReplyRequested,
                 if rr_cancel_requested row = None
                 then c\<lparr>cl_run := row\<lparr>rr_cancel_requested := Some now\<rparr>\<rparr> else c)))"

definition peer_cancel :: "instant \<Rightarrow> string \<Rightarrow> string \<Rightarrow> cluster \<Rightarrow> cluster" where
  \<comment> \<open>a cancel message on the control channel, heard at \<open>r\<close>\<close>
  "peer_cancel now r origin c =
     (if cl_running c r \<noteq> None then snd (cancel_local now r (PeerRequest origin) c) else c)"

definition resume_run :: "string \<Rightarrow> cluster \<Rightarrow> run_status + cluster" where
  \<comment> \<open>Inl: the 409 that names the status\<close>
  "resume_run r c =
     (if rr_status (cl_run c) \<noteq> PausedHitl then Inl (rr_status (cl_run c)) else Inr (start_run_task r True c))"

definition slot_granted :: "run_task \<Rightarrow> cluster \<Rightarrow> cluster" where
  "slot_granted t c = set_phase t Starting (set_status Running c)"

definition execute_begins :: "run_task \<Rightarrow> cluster \<Rightarrow> cluster" where
  "execute_begins t c = set_phase t Executing (emit_event (EvStatus Running)
     (if t_resume t then set_status Running c else c))"

definition heartbeat :: "instant \<Rightarrow> run_task \<Rightarrow> cluster \<Rightarrow> cluster" where
  "heartbeat now t c =
     (if rr_status (cl_run c) = Running then
        (let c1 = c\<lparr>cl_run := (cl_run c)\<lparr>rr_heartbeat := Some now\<rparr>\<rparr>
         in if rr_cancel_requested (cl_run c1) \<noteq> None
            then snd (cancel_local now (t_replica t) SeenAtHeartbeat c1) else c1)
      else c)"

datatype outcome = Paused | Answered string | RunFails string

definition execute_ends :: "instant \<Rightarrow> outcome \<Rightarrow> run_task \<Rightarrow> cluster \<Rightarrow> cluster" where
  "execute_ends now oc t c = end_task t (case oc of
       Paused \<Rightarrow> emit_event (EvStatus PausedHitl) (set_status PausedHitl c)
     | Answered a \<Rightarrow> emit_event (EvDone a) (emit_event (EvStatus Completed)
         (c\<lparr>cl_run := (cl_run c)\<lparr>rr_status := Completed, rr_answer := Some a, rr_finished := Some now\<rparr>\<rparr>))
     | RunFails e \<Rightarrow> finalize_failure now Failed (RunError e) c)"

definition time_out :: "instant \<Rightarrow> run_task \<Rightarrow> cluster \<Rightarrow> cluster" where
  \<comment> \<open>\<open>wait_for\<close> cancels \<open>_execute\<close>, whose handler finalizes first\<close>
  "time_out now t c = end_task t (finalize_failure now Failed WallClockExceeded
     (if t_phase t = Executing then finalize_cancelled now None RunCancelled t c else c))"

definition stale :: "instant \<Rightarrow> int \<Rightarrow> run_row \<Rightarrow> bool" where
  "stale now stall_after_s row \<longleftrightarrow>
     (let cutoff = now - secs stall_after_s
      in rr_status row = Running
         \<and> (case rr_heartbeat row of Some h \<Rightarrow> h \<le> cutoff | None \<Rightarrow> rr_started row \<le> cutoff))"

definition reap_stalled_run :: "instant \<Rightarrow> int \<Rightarrow> string \<Rightarrow> cluster \<Rightarrow> cluster" where
  "reap_stalled_run now stall_after_s r c =
     (if stale now stall_after_s (cl_run c) then
        (let c1 = end_row now Stalled NoHeartbeat c
         in case cl_running c1 r of
              None \<Rightarrow> c1
            | Some tid \<Rightarrow> (case find_task tid c1 of None \<Rightarrow> c1 | Some t \<Rightarrow> cancel_task now None t c1))
      else c)"

definition process_dies :: "string \<Rightarrow> cluster \<Rightarrow> cluster" where
  "process_dies r c =
     c\<lparr>cl_tasks := filter (\<lambda>t. t_replica t \<noteq> r) (cl_tasks c),
       cl_running := (cl_running c)(r := None), cl_reason := (cl_reason c)(r := None)\<rparr>"

definition reap_orphaned_run :: "instant \<Rightarrow> string \<Rightarrow> cluster \<Rightarrow> cluster" where
  "reap_orphaned_run now r c =
     (if rr_status (cl_run c) \<in> {Running, Queued} \<and> (rr_owner (cl_run c) = Some r \<or> rr_owner (cl_run c) = None)
      then cancel_open_steps (end_row now Failed OrphanedByRestart c) else c)"

definition reap_dead_owner_run :: "instant \<Rightarrow> string list \<Rightarrow> string \<Rightarrow> cluster \<Rightarrow> cluster" where
  "reap_dead_owner_run now live r c = (case rr_owner (cl_run c) of
       None \<Rightarrow> c
     | Some owner \<Rightarrow>
         (if rr_status (cl_run c) \<in> {Running, Queued} \<and> owner \<notin> set (r # live)
          then cancel_open_steps (end_row now Failed (OwnerGone owner) c) else c))"

definition drain_running_task :: "instant \<Rightarrow> string \<Rightarrow> cluster \<Rightarrow> cluster" where
  \<comment> \<open>the grace is over: what \<open>RUNNING_TASKS\<close> still holds is cancelled in the name of the shutdown\<close>
  "drain_running_task now r c = (case cl_running c r of
       None \<Rightarrow> c
     | Some tid \<Rightarrow> (case find_task tid c of None \<Rightarrow> c | Some t \<Rightarrow> cancel_task now (Some ShutDown) t c))"

section \<open>Histories\<close>

datatype lifecycle_event =
    Granted nat
  | Begins nat
  | OpensStep nat
  | ClosesStep nat nat
  | Beats instant nat
  | Ends instant nat outcome
  | TimesOut instant nat
  | Resume string
  | Cancel instant string
  | PeerCancel instant string string
  | ReapStalled instant int string
  | Dies string
  | Boots instant string
  | ReapDead instant "string list" string
  | Drains instant string

definition on_task :: "nat \<Rightarrow> phase list \<Rightarrow> (run_task \<Rightarrow> cluster \<Rightarrow> cluster) \<Rightarrow> cluster \<Rightarrow> cluster" where
  "on_task tid ps f c = (case find_task tid c of
       Some t \<Rightarrow> if t_phase t \<in> set ps then f t c else c
     | None \<Rightarrow> c)"

fun lifecycle_step :: "cluster \<Rightarrow> lifecycle_event \<Rightarrow> cluster" where
  "lifecycle_step c (Granted tid) = on_task tid [Waiting] slot_granted c"
| "lifecycle_step c (Begins tid) = on_task tid [Starting] execute_begins c"
| "lifecycle_step c (OpensStep tid) =
     on_task tid [Executing] (\<lambda>t c. c\<lparr>cl_steps := cl_steps c @ [StepRunning]\<rparr>) c"
| "lifecycle_step c (ClosesStep tid i) =
     on_task tid [Executing] (\<lambda>t c. c\<lparr>cl_steps := (cl_steps c)[i := StepCompleted]\<rparr>) c"
| "lifecycle_step c (Beats now tid) = on_task tid [Starting, Executing] (heartbeat now) c"
| "lifecycle_step c (Ends now tid oc) = on_task tid [Executing] (execute_ends now oc) c"
| "lifecycle_step c (TimesOut now tid) = on_task tid [Starting, Executing] (time_out now) c"
| "lifecycle_step c (Resume r) = (case resume_run r c of Inl s \<Rightarrow> c | Inr c' \<Rightarrow> c')"
| "lifecycle_step c (Cancel now r) = snd (cancel_run now r c)"
| "lifecycle_step c (PeerCancel now r origin) = peer_cancel now r origin c"
| "lifecycle_step c (ReapStalled now n r) = reap_stalled_run now n r c"
| "lifecycle_step c (Dies r) = process_dies r c"
| "lifecycle_step c (Boots now r) = reap_orphaned_run now r (process_dies r c)"
| "lifecycle_step c (ReapDead now live r) = reap_dead_owner_run now live r c"
| "lifecycle_step c (Drains now r) = drain_running_task now r c"

definition quiet_at :: "string \<Rightarrow> cluster \<Rightarrow> bool" where
  \<comment> \<open>no task of the run exists, or the one registered at \<open>r\<close> does\<close>
  "quiet_at r c \<longleftrightarrow> cl_tasks c = [] \<or> cl_running c r \<noteq> None"

text \<open>
  The conditions under which the operations assume to act: a decision resumes a run that nothing
  executes; a stop and the stall reaper reach the replica that executes, or (a stop) the run is
  neither paused nor owned by the replica the stop reached; an owner counts as gone only when
  nothing executes its run.
\<close>

definition orderly :: "cluster \<Rightarrow> lifecycle_event \<Rightarrow> bool" where
  "orderly c e \<longleftrightarrow> (case e of
       Resume r \<Rightarrow> cl_tasks c = []
     | Cancel now r \<Rightarrow> quiet_at r c \<or>
         (rr_status (cl_run c) \<noteq> PausedHitl \<and> rr_owner (cl_run c) \<noteq> None \<and> rr_owner (cl_run c) \<noteq> Some r)
     | ReapStalled now n r \<Rightarrow> quiet_at r c
     | Boots now r \<Rightarrow> cl_tasks (process_dies r c) = []
         \<or> (rr_owner (cl_run c) \<noteq> None \<and> rr_owner (cl_run c) \<noteq> Some r)
     | ReapDead now live r \<Rightarrow> cl_tasks c = [] \<or> (\<exists>q \<in> set (r # live). rr_owner (cl_run c) = Some q)
     | _ \<Rightarrow> True)"

definition orderly_step :: "cluster \<Rightarrow> lifecycle_event \<Rightarrow> cluster" where
  "orderly_step c e = (if orderly c e then lifecycle_step c e else c)"

definition terminal_status :: "run_status \<Rightarrow> bool" where
  "terminal_status s \<longleftrightarrow> s \<in> {Completed, Failed, Cancelled, Stalled}"

definition allowed_move :: "run_status \<Rightarrow> run_status \<Rightarrow> bool" where
  "allowed_move s s' \<longleftrightarrow> s = s' \<or> (s, s') \<in>
     {(Queued, Running), (Queued, Cancelled), (Queued, Failed),
      (Running, PausedHitl), (Running, Completed), (Running, Failed), (Running, Cancelled), (Running, Stalled),
      (PausedHitl, Running), (PausedHitl, Cancelled)}"

definition phase_status :: "run_task \<Rightarrow> run_status" where
  "phase_status t = (if t_phase t = Waiting then if t_resume t then PausedHitl else Queued else Running)"

definition one_task :: "cluster \<Rightarrow> bool" where
  "one_task c \<longleftrightarrow>
     (cl_tasks c = [] \<and> cl_running c = (\<lambda>r. None))
     \<or> (\<exists>t. cl_tasks c = [t] \<and> cl_running c = (\<lambda>r. None)(t_replica t := Some (t_id t))
            \<and> rr_status (cl_run c) = phase_status t)"

lemmas op_defs = finalize_failure_def finalize_cancelled_def cancel_task_def end_task_def emit_event_def
  cancel_open_steps_def end_row_def set_status_def set_phase_def find_task_def Let_def

lemma one_task_cases [consumes 1, case_names idle busy]:
  assumes "one_task c"
  obtains "cl_tasks c = []" "cl_running c = (\<lambda>r. None)"
    | t where "cl_tasks c = [t]" "cl_running c = (\<lambda>r. None)(t_replica t := Some (t_id t))"
        "rr_status (cl_run c) = phase_status t"
  using assms unfolding one_task_def by blast

definition lawful :: "cluster \<Rightarrow> cluster \<Rightarrow> bool" where
  "lawful c c' \<longleftrightarrow> one_task c' \<and> allowed_move (rr_status (cl_run c)) (rr_status (cl_run c'))"

lemma lawful_same: "one_task c \<Longrightarrow> lawful c c"
  by (simp add: lawful_def allowed_move_def)

lemma cancel_task_ends:
  assumes "cl_tasks c = [t]" "cl_running c = (\<lambda>r. None)(t_replica t := Some (t_id t))"
  shows "cl_tasks (cancel_task now shutdown t c) = []" "cl_running (cancel_task now shutdown t c) = (\<lambda>r. None)"
    "rr_status (cl_run (cancel_task now shutdown t c))
     = (if t_phase t = Starting then rr_status (cl_run c) else Cancelled)"
  using assms by (auto simp: op_defs split: phase.splits option.splits)

lemma cancel_local_ends:
  assumes "cl_tasks c = [t]" "cl_running c = (\<lambda>r. None)(t_replica t := Some (t_id t))"
  shows "cancel_local now r e c = (if r = t_replica t
     then (True, cancel_task now None t (c\<lparr>cl_reason := (cl_reason c)(r := Some e)\<rparr>)) else (False, c))"
  using assms by (simp add: cancel_local_def find_task_def)

lemma lawful_cancelled:
  assumes "cl_tasks c = [t]" "cl_running c = (\<lambda>r. None)(t_replica t := Some (t_id t))"
    and "rr_status (cl_run c) = phase_status t \<or> (phase_status t = Running \<and> rr_status (cl_run c) = Stalled)"
    and "rr_status (cl_run d) = phase_status t"
  shows "lawful d (cancel_task now shutdown t c)"
  using cancel_task_ends[OF assms(1,2), of now shutdown] assms(3,4)
  by (auto simp: lawful_def one_task_def allowed_move_def phase_status_def split: if_splits)

lemma lawful_on_task:
  assumes "one_task c"
    and "\<And>t. cl_tasks c = [t] \<Longrightarrow> cl_running c = (\<lambda>r. None)(t_replica t := Some (t_id t)) \<Longrightarrow>
      rr_status (cl_run c) = phase_status t \<Longrightarrow> t_phase t \<in> set ps \<Longrightarrow> lawful c (f t c)"
  shows "lawful c (on_task tid ps f c)"
  using assms(1)
proof (cases rule: one_task_cases)
  case (busy t)
  with assms lawful_same[OF assms(1)] show ?thesis by (simp add: on_task_def find_task_def)
qed (use lawful_same[OF assms(1)] in \<open>simp add: on_task_def find_task_def\<close>)

lemma lawful_heartbeat:
  assumes "cl_tasks c = [t]" "cl_running c = (\<lambda>r. None)(t_replica t := Some (t_id t))"
    and "rr_status (cl_run c) = phase_status t"
  shows "lawful c (heartbeat now t c)"
proof -
  have "lawful c (cancel_task now None t (c\<lparr>cl_run := (cl_run c)\<lparr>rr_heartbeat := Some now\<rparr>,
        cl_reason := (cl_reason c)(t_replica t := Some SeenAtHeartbeat)\<rparr>))"
    by (rule lawful_cancelled) (use assms in simp_all)
  with assms show ?thesis
    by (auto simp: heartbeat_def cancel_local_ends lawful_def one_task_def allowed_move_def Let_def)
qed

lemma lawful_reap:
  assumes "one_task c" "quiet_at r c"
  shows "lawful c (reap_stalled_run now n r c)"
  using assms(1)
proof (cases rule: one_task_cases)
  case idle
  then show ?thesis
    by (auto simp: reap_stalled_run_def stale_def op_defs lawful_def one_task_def allowed_move_def)
next
  case (busy t)
  with assms have r: "r = t_replica t" by (auto simp: quiet_at_def split: if_splits)
  show ?thesis
  proof (cases "stale now n (cl_run c)")
    case True
    then have "phase_status t = Running" using busy by (simp add: stale_def Let_def)
    with busy have "lawful c (cancel_task now None t (end_row now Stalled NoHeartbeat c))"
      by (intro lawful_cancelled) (simp_all add: end_row_def)
    with True busy r show ?thesis by (simp add: reap_stalled_run_def end_row_def find_task_def)
  qed (use lawful_same[OF assms(1)] in \<open>simp add: reap_stalled_run_def\<close>)
qed

lemma lawful_cancel:
  assumes "one_task c" "orderly c (Cancel now r)"
  shows "lawful c (snd (cancel_run now r c))"
  using assms(1)
proof (cases rule: one_task_cases)
  case idle
  then show ?thesis
    by (auto simp: cancel_run_def cancel_local_def op_defs lawful_def one_task_def allowed_move_def)
next
  case (busy t)
  show ?thesis
  proof (cases "r = t_replica t")
    case True
    have "lawful c (cancel_task now None t (c\<lparr>cl_reason := (cl_reason c)(r := Some RunCancelled)\<rparr>))"
      by (rule lawful_cancelled) (use busy in simp_all)
    with busy True show ?thesis by (simp add: cancel_run_def cancel_local_ends)
  next
    case False
    with busy assms(2) show ?thesis
      by (auto simp: cancel_run_def cancel_local_ends orderly_def quiet_at_def lawful_def one_task_def
          allowed_move_def Let_def)
  qed
qed

lemma lawful_dies: "one_task c \<Longrightarrow> lawful c (process_dies r c)"
proof (erule one_task_cases)
  fix t
  assume "cl_tasks c = [t]" "cl_running c = (\<lambda>r. None)(t_replica t := Some (t_id t))"
    "rr_status (cl_run c) = phase_status t"
  then show "lawful c (process_dies r c)"
    by (cases "t_replica t = r")
      (auto simp: process_dies_def lawful_def one_task_def allowed_move_def fun_eq_iff)
qed (auto simp: process_dies_def lawful_def one_task_def allowed_move_def)

lemma lawful_orderly_step:
  assumes "one_task c"
  shows "lawful c (orderly_step c e)"
proof (cases "orderly c e")
  case True
  have "lawful c (lifecycle_step c e)"
  proof (cases e)
    case (Granted tid)
    show ?thesis unfolding Granted lifecycle_step.simps
      by (intro lawful_on_task[OF assms])
        (auto simp: slot_granted_def op_defs lawful_def one_task_def allowed_move_def phase_status_def)
  next
    case (Begins tid)
    show ?thesis unfolding Begins lifecycle_step.simps
      by (intro lawful_on_task[OF assms])
        (auto simp: execute_begins_def op_defs lawful_def one_task_def allowed_move_def phase_status_def)
  next
    case (OpensStep tid)
    show ?thesis unfolding OpensStep lifecycle_step.simps
      by (intro lawful_on_task[OF assms]) (auto simp: lawful_def one_task_def allowed_move_def)
  next
    case (ClosesStep tid i)
    show ?thesis unfolding ClosesStep lifecycle_step.simps
      by (intro lawful_on_task[OF assms]) (auto simp: lawful_def one_task_def allowed_move_def)
  next
    case (Beats now tid)
    show ?thesis unfolding Beats lifecycle_step.simps
      by (intro lawful_on_task[OF assms] lawful_heartbeat)
  next
    case (Ends now tid oc)
    show ?thesis unfolding Ends lifecycle_step.simps
      by (intro lawful_on_task[OF assms])
        (auto simp: execute_ends_def op_defs lawful_def one_task_def allowed_move_def phase_status_def
          split: outcome.splits)
  next
    case (TimesOut now tid)
    show ?thesis unfolding TimesOut lifecycle_step.simps
      by (intro lawful_on_task[OF assms])
        (auto simp: time_out_def op_defs lawful_def one_task_def allowed_move_def phase_status_def
          split: option.splits)
  next
    case (Resume r)
    with True have "cl_tasks c = []" by (simp add: orderly_def)
    with assms lawful_same[OF assms] show ?thesis
      by (auto elim!: one_task_cases simp: Resume resume_run_def start_run_task_def lawful_def one_task_def
          allowed_move_def phase_status_def)
  next
    case (Cancel now r)
    with True assms show ?thesis by (simp add: lawful_cancel)
  next
    case (PeerCancel now r origin)
    show ?thesis using assms
    proof (cases rule: one_task_cases)
      case (busy t)
      have "lawful c (cancel_task now None t (c\<lparr>cl_reason := (cl_reason c)(t_replica t := Some (PeerRequest origin))\<rparr>))"
        by (rule lawful_cancelled) (use busy in simp_all)
      with busy lawful_same[OF assms] show ?thesis by (simp add: PeerCancel peer_cancel_def cancel_local_ends)
    qed (use lawful_same[OF assms] in \<open>simp add: PeerCancel peer_cancel_def\<close>)
  next
    case (ReapStalled now n r)
    with True assms show ?thesis by (simp add: orderly_def lawful_reap)
  next
    case (Dies r)
    with assms show ?thesis by (simp add: lawful_dies)
  next
    case (Boots now r)
    show ?thesis using True lawful_dies[OF assms, of r]
      by (auto simp: Boots orderly_def reap_orphaned_run_def op_defs lawful_def one_task_def allowed_move_def
          process_dies_def)
  next
    case (ReapDead now live r)
    show ?thesis using True lawful_same[OF assms] assms
      by (auto simp: ReapDead orderly_def reap_dead_owner_run_def op_defs lawful_def one_task_def allowed_move_def
          split: option.splits)
  next
    case (Drains now r)
    show ?thesis using assms
    proof (cases rule: one_task_cases)
      case (busy t)
      have "lawful c (cancel_task now (Some ShutDown) t c)"
        by (rule lawful_cancelled) (use busy in simp_all)
      with busy lawful_same[OF assms] show ?thesis by (simp add: Drains drain_running_task_def find_task_def)
    qed (use lawful_same[OF assms] in \<open>simp add: Drains drain_running_task_def\<close>)
  qed
  with True show ?thesis by (simp add: orderly_step_def)
qed (simp add: orderly_step_def lawful_same[OF assms])

interpretation lifecycle: inv_system orderly_step one_task
proof
  show "one_task (orderly_step c e)" if "one_task c" for c e
    using lawful_orderly_step[OF that] by (simp add: lawful_def)
qed

lemma one_task_created: "one_task (start_run_task r False (create_run r now))"
  by (simp add: one_task_def start_run_task_def create_run_def phase_status_def)

lemma one_task_reached: "one_task (foldl orderly_step (start_run_task r False (create_run r now)) es)"
  using one_task_created by (rule lifecycle.run_inv)

text \<open>
  C9: while the operations act where they assume to act, a run never has two tasks, and each
  event moves its status along the documented life cycle: queued, running, paused and back, and
  one of the four ends.
\<close>

theorem run_follows_life_cycle:
  fixes r now
  defines "c0 \<equiv> start_run_task r False (create_run r now)"
  shows "length (cl_tasks (foldl orderly_step c0 es)) \<le> 1
     \<and> allowed_move (rr_status (cl_run (foldl orderly_step c0 es)))
          (rr_status (cl_run (foldl orderly_step c0 (es @ [e]))))"
proof -
  have one: "one_task (foldl orderly_step c0 es)" unfolding c0_def by (rule one_task_reached)
  then have "lawful (foldl orderly_step c0 es) (orderly_step (foldl orderly_step c0 es) e)"
    by (rule lawful_orderly_step)
  with one show ?thesis by (auto simp: lawful_def one_task_def)
qed

lemma terminal_stays:
  assumes "one_task c" "terminal_status (rr_status (cl_run c))"
  shows "rr_status (cl_run (foldl orderly_step c es)) = rr_status (cl_run c)"
  using assms
proof (induction es arbitrary: c)
  case (Cons e es)
  have "lawful c (orderly_step c e)" using Cons.prems(1) by (rule lawful_orderly_step)
  with Cons.prems(2) have "one_task (orderly_step c e)" "rr_status (cl_run (orderly_step c e)) = rr_status (cl_run c)"
    by (auto simp: lawful_def allowed_move_def terminal_status_def)
  with Cons.IH[of "orderly_step c e"] Cons.prems(2) show ?case by simp
qed simp



text \<open>
  A stop that reached another replica is an intent on the row: nothing takes it back, so the next
  heartbeat of the executing task ends the run.
\<close>

lemma intent_ops [simp]:
  "rr_cancel_requested (cl_run (finalize_failure now s e c)) = rr_cancel_requested (cl_run c)"
  "rr_cancel_requested (cl_run (finalize_cancelled now sd fb t c)) = rr_cancel_requested (cl_run c)"
  "rr_cancel_requested (cl_run (end_task t c)) = rr_cancel_requested (cl_run c)"
  "rr_cancel_requested (cl_run (cancel_task now sd t c)) = rr_cancel_requested (cl_run c)"
  "rr_cancel_requested (cl_run (snd (cancel_local now r e c))) = rr_cancel_requested (cl_run c)"
  by (auto simp: cancel_local_def op_defs split: option.splits phase.splits)

lemma intent_on_task:
  "(\<And>t. rr_cancel_requested (cl_run (f t c)) = rr_cancel_requested (cl_run c)) \<Longrightarrow>
   rr_cancel_requested (cl_run (on_task tid ps f c)) = rr_cancel_requested (cl_run c)"
  by (auto simp: on_task_def split: option.splits)

lemma intent_kept:
  "rr_cancel_requested (cl_run c) \<noteq> None \<Longrightarrow> rr_cancel_requested (cl_run (lifecycle_step c e)) \<noteq> None"
proof (cases e)
  case (Cancel now r)
  assume "rr_cancel_requested (cl_run c) \<noteq> None"
  moreover have "rr_cancel_requested (cl_run (snd (cancel_local now r RunCancelled c))) = rr_cancel_requested (cl_run c)"
    by simp
  ultimately show ?thesis
    by (cases "cancel_local now r RunCancelled c") (auto simp: Cancel cancel_run_def Let_def split: bool.splits)
qed (auto simp: intent_on_task slot_granted_def execute_begins_def heartbeat_def execute_ends_def time_out_def
    resume_run_def start_run_task_def peer_cancel_def reap_stalled_run_def process_dies_def reap_orphaned_run_def
    reap_dead_owner_run_def drain_running_task_def set_phase_def set_status_def emit_event_def end_row_def
    cancel_open_steps_def Let_def split: option.splits outcome.splits sum.splits if_splits)

lemma intent_kept_run:
  "rr_cancel_requested (cl_run c) \<noteq> None \<Longrightarrow> rr_cancel_requested (cl_run (foldl orderly_step c es)) \<noteq> None"
proof (induction es arbitrary: c)
  case (Cons e es)
  have "rr_cancel_requested (cl_run (orderly_step c e)) \<noteq> None"
    using Cons.prems intent_kept[OF Cons.prems] unfolding orderly_step_def by (cases "orderly c e") simp_all
  then show ?case using Cons.IH[of "orderly_step c e"] by simp
qed simp

lemma requested_orderly:
  assumes "fst (cancel_run now r c) = ReplyRequested"
  shows "orderly c (Cancel now r)" "rr_cancel_requested (cl_run (snd (cancel_run now r c))) \<noteq> None"
  using assms
  by (auto simp: cancel_run_def cancel_local_def orderly_def Let_def split: option.splits if_splits)

lemma heartbeat_honours_intent:
  assumes "one_task c" "rr_cancel_requested (cl_run c) \<noteq> None" "cl_tasks c = [t]" "t_phase t = Executing"
  shows "rr_status (cl_run (orderly_step c (Beats now (t_id t)))) = Cancelled"
proof -
  have reg: "cl_running c = (\<lambda>r. None)(t_replica t := Some (t_id t))" "rr_status (cl_run c) = Running"
    using assms(1,3,4) by (auto simp: one_task_def phase_status_def)
  let ?c = "c\<lparr>cl_run := (cl_run c)\<lparr>rr_heartbeat := Some now\<rparr>, cl_reason := (cl_reason c)(t_replica t := Some SeenAtHeartbeat)\<rparr>"
  have "rr_status (cl_run (cancel_task now None t ?c)) = Cancelled"
    by (subst cancel_task_ends) (use assms reg in simp_all)
  then show ?thesis
    using assms reg
    by (simp add: orderly_step_def orderly_def on_task_def find_task_def heartbeat_def cancel_local_ends Let_def)
qed


definition foreign_stop :: "lifecycle_event list" where
  "foreign_stop = [Granted 0, Begins 0, OpensStep 0]"


section \<open>Where the operations act outside those conditions\<close>

definition fresh_run :: cluster where
  "fresh_run = start_run_task ''a'' False (create_run ''a'' 0)"

definition paused_run :: "lifecycle_event list" where
  "paused_run = [Granted 0, Begins 0, Beats (secs 30) 0, Ends (secs 40) 0 Paused]"

text \<open>
  Two decisions for one gate that arrive before the first resumed task holds its slot both
  pass the status check; two tasks execute the run, the first to end takes the entry of both out
  of \<open>RUNNING_TASKS\<close>, and a stop then reports and records \<open>cancelled\<close> while the second goes on and
  completes the run.
\<close>

theorem double_decision_runs_twice:
  "map t_phase (cl_tasks (foldl lifecycle_step fresh_run
      (paused_run @ [Resume ''a'', Resume ''a'', Granted 1, Begins 1, Granted 2, Begins 2]))) = [Executing, Executing]
   \<and> fst (cancel_run 9 ''a'' (foldl lifecycle_step fresh_run
      (paused_run @ [Resume ''a'', Resume ''a'', Granted 1, Begins 1, Granted 2, Begins 2, Ends 8 1 Paused])))
      = ReplyCancelled
   \<and> rr_status (cl_run (foldl lifecycle_step fresh_run
      (paused_run @ [Resume ''a'', Resume ''a'', Granted 1, Begins 1, Granted 2, Begins 2, Ends 8 1 Paused,
         Cancel 9 ''a'', Ends 10 2 (Answered ''sent'')]))) = Completed"
  by (intro conjI; code_simp)

text \<open>
  A resumed run keeps the heartbeat of before its pause until it beats again, so when the
  decision took longer than the stall window a tick of the reaper in those thirty seconds cancels
  the run that just resumed.
\<close>

theorem reaper_cancels_resumed_run:
  "rr_status (cl_run (foldl lifecycle_step fresh_run (paused_run @ [Resume ''a'', Granted 1, Begins 1]))) = Running
   \<and> rr_status (cl_run (foldl lifecycle_step fresh_run
        (paused_run @ [Resume ''a'', Granted 1, Begins 1, ReapStalled (secs (330 + int waited)) 300 ''a'']))) = Cancelled"
proof -
  let ?c = "foldl lifecycle_step fresh_run (paused_run @ [Resume ''a'', Granted 1, Begins 1])"
  have run: "rr_status (cl_run ?c) = Running" by code_simp
  have hb: "rr_heartbeat (cl_run ?c) = Some (secs 30)" by code_simp
  have tasks: "cl_tasks ?c = [\<lparr>t_id = 1, t_replica = ''a'', t_resume = True, t_phase = Executing\<rparr>]" by code_simp
  have reg: "cl_running ?c ''a'' = Some 1" by code_simp
  from hb run have "stale (secs (330 + int waited)) 300 (cl_run ?c)" by (simp add: stale_def secs_def)
  then have "rr_status (cl_run (reap_stalled_run (secs (330 + int waited)) 300 ''a'' ?c)) = Cancelled"
    using reg tasks by (simp add: reap_stalled_run_def op_defs split: option.splits)
  with run show ?thesis by simp
qed

text \<open>
  A decision served by another replica executes the run there but leaves its owner: when the
  owner restarts or stops heartbeating, the executing run is recorded as failed, and completes
  afterwards.
\<close>

theorem resumed_elsewhere_is_orphaned:
  "rr_status (cl_run (foldl lifecycle_step fresh_run
      (paused_run @ [Resume ''b'', Granted 1, Begins 1, Boots 60 ''a'']))) = Failed
   \<and> rr_status (cl_run (foldl lifecycle_step fresh_run
      (paused_run @ [Resume ''b'', Granted 1, Begins 1, ReapDead 60 [] ''b'']))) = Failed
   \<and> rr_status (cl_run (foldl lifecycle_step fresh_run
      (paused_run @ [Resume ''b'', Granted 1, Begins 1, Boots 60 ''a'', Ends 70 1 (Answered ''done'')]))) = Completed"
  by (intro conjI; code_simp)

fun stream_shows :: "life_event list \<Rightarrow> life_event list" where
  \<comment> \<open>\<open>stream_run_events\<close> ends with the first terminal event\<close>
  "stream_shows [] = []"
| "stream_shows (e # es) =
     (if (case e of EvDone a \<Rightarrow> True | EvStatus s \<Rightarrow> s = Failed \<or> s = Cancelled | EvError m \<Rightarrow> False)
      then [e] else e # stream_shows es)"

text \<open>
  A run that exceeds its wall clock is recorded as failed with the clock named, but the
  handler of the cancelled task has announced \<open>cancelled\<close> first: the stream of every listener ends
  there and never carries the reason.
\<close>

theorem wall_clock_shows_cancelled:
  "rr_status (cl_run (foldl lifecycle_step fresh_run [Granted 0, Begins 0, TimesOut now 0])) = Failed
   \<and> rr_error (cl_run (foldl lifecycle_step fresh_run [Granted 0, Begins 0, TimesOut now 0])) = Some WallClockExceeded
   \<and> stream_shows (cl_events (foldl lifecycle_step fresh_run [Granted 0, Begins 0, TimesOut now 0]))
     = [EvStatus Running, EvStatus Cancelled]"
  by (simp add: fresh_run_def start_run_task_def create_run_def on_task_def slot_granted_def execute_begins_def
      time_out_def op_defs)

text \<open>
  Between the slot and the \<open>try\<close> block of \<open>_execute\<close> no handler finalizes a cancelled task: the
  stop is answered with \<open>cancelled\<close>, nothing executes the run any more, and its row stays running.
\<close>

theorem stop_while_starting_is_not_recorded:
  "fst (cancel_run now ''a'' (foldl lifecycle_step fresh_run [Granted 0])) = ReplyCancelled
   \<and> cl_tasks (foldl lifecycle_step fresh_run [Granted 0, Cancel now ''a'']) = []
   \<and> rr_status (cl_run (foldl lifecycle_step fresh_run [Granted 0, Cancel now ''a''])) = Running"
  by (simp add: fresh_run_def start_run_task_def create_run_def on_task_def slot_granted_def cancel_run_def
      cancel_local_def op_defs)

end
