(* ===== verification/Access.thy ===== *)
theory Access
  imports Admission Run_Lifecycle
begin

text \<open>
  Authentication and tenancy (\<open>backend/app/auth/\<close>, \<open>api/auth.py\<close>) and the access checks of the run
  endpoints (\<open>api/runs.py\<close>, \<open>api/settings.py\<close>, \<open>api/chat.py\<close>). Parameters stand for the
  libraries: \<open>scrypt\<close> (None: it raises) and \<open>sha\<close>, the hash of a token. Identifiers are strings,
  instants are seconds.
\<close>

section \<open>Passwords\<close>

fun split_on :: "char \<Rightarrow> string \<Rightarrow> string list" where
  \<comment> \<open>\<open>s.split(c)\<close>\<close>
  "split_on c [] = [[]]"
| "split_on c (x # xs) = (if x = c then [] # split_on c xs
     else (case split_on c xs of [] \<Rightarrow> [[x]] | p # ps \<Rightarrow> (x # p) # ps))"

definition hex_digit :: "nat \<Rightarrow> char" where
  "hex_digit n = (if n < 10 then char_of (48 + n) else char_of (87 + n))"

definition hex_value :: "char \<Rightarrow> nat option" where
  "hex_value c = (let n = of_char c :: nat in
     if 48 \<le> n \<and> n \<le> 57 then Some (n - 48)
     else if 97 \<le> n \<and> n \<le> 102 then Some (n - 87)
     else if 65 \<le> n \<and> n \<le> 70 then Some (n - 55) else None)"

definition bytes_hex :: "nat list \<Rightarrow> string" where
  "bytes_hex bs = concat (map (\<lambda>b. [hex_digit (b div 16), hex_digit (b mod 16)]) bs)"

fun bytes_fromhex :: "string \<Rightarrow> nat list option" where
  \<comment> \<open>\<open>bytes.fromhex\<close>: pairs of digits, blanks allowed between bytes; None is ValueError\<close>
  "bytes_fromhex [] = Some []"
| "bytes_fromhex [c] = (if is_space c then Some [] else None)"
| "bytes_fromhex (c # d # cs) =
     (if is_space c then bytes_fromhex (d # cs)
      else (case (hex_value c, hex_value d, bytes_fromhex cs) of
          (Some a, Some b, Some bs) \<Rightarrow> Some ((16 * a + b) # bs)
        | _ \<Rightarrow> None))"

fun digits_of :: "string \<Rightarrow> bool \<Rightarrow> nat \<Rightarrow> nat option" where
  \<comment> \<open>the digits of \<open>int(s)\<close>, single underscores between them; the flag: a digit came just before\<close>
  "digits_of [] after n = (if after then Some n else None)"
| "digits_of (c # cs) after n =
     (if CHR ''0'' \<le> c \<and> c \<le> CHR ''9'' then digits_of cs True (10 * n + (of_char c - 48))
      else if c = CHR ''_'' \<and> after \<and> cs \<noteq> [] \<and> hd cs \<noteq> CHR ''_'' then digits_of cs False n
      else None)"

definition py_int :: "string \<Rightarrow> int option" where
  "py_int s = (case py_strip s of
       [] \<Rightarrow> None
     | c # cs \<Rightarrow> if c = CHR ''-'' then map_option (\<lambda>n. - int n) (digits_of cs False 0)
                else if c = CHR ''+'' then map_option int (digits_of cs False 0)
                else map_option int (digits_of (c # cs) False 0))"

type_synonym scrypt_fn = "string \<Rightarrow> nat list \<Rightarrow> int \<Rightarrow> int \<Rightarrow> int \<Rightarrow> nat list option"

definition hash_password :: "scrypt_fn \<Rightarrow> nat list \<Rightarrow> string \<Rightarrow> string option" where
  "hash_password scrypt salt password = (case scrypt password salt 16384 8 1 of
       None \<Rightarrow> None
     | Some digest \<Rightarrow> Some (''scrypt$16384$8$1$'' @ bytes_hex salt @ ''$'' @ bytes_hex digest))"

definition verify_password :: "scrypt_fn \<Rightarrow> string \<Rightarrow> string \<Rightarrow> bool" where
  "verify_password scrypt password stored = (case split_on CHR ''$'' stored of
       [scheme, n, r, p, salt_hex, digest_hex] \<Rightarrow>
         (if scheme \<noteq> ''scrypt'' then False
          else (case (bytes_fromhex salt_hex, py_int n, py_int r, py_int p) of
              (Some salt, Some n, Some r, Some p) \<Rightarrow>
                (case scrypt password salt n r p of
                   None \<Rightarrow> False
                 | Some digest \<Rightarrow> bytes_hex digest = digest_hex)
            | _ \<Rightarrow> False))
     | _ \<Rightarrow> False)"

lemma split_on_none: "c \<notin> set s \<Longrightarrow> split_on c s = [s]"
  by (induction s) auto

lemma split_on_append: "c \<notin> set s \<Longrightarrow> split_on c (s @ c # t) = s # split_on c t"
  by (induction s) auto

lemma hex_value_digit: "n < 16 \<Longrightarrow> hex_value (hex_digit n) = Some n"
  by (auto simp: hex_value_def hex_digit_def Let_def)

lemma hex_digit_plain:
  assumes "n < 16"
  shows "\<not> is_space (hex_digit n)" "hex_digit n \<noteq> CHR ''$''"
proof -
  have code: "(of_char (hex_digit n) :: nat) = (if n < 10 then 48 + n else 87 + n)"
    using assms by (simp add: hex_digit_def)
  then show "\<not> is_space (hex_digit n)" using assms by (auto simp: is_space_def Let_def split: if_splits)
  show "hex_digit n \<noteq> CHR ''$''"
  proof
    assume "hex_digit n = CHR ''$''"
    then have "(of_char (hex_digit n) :: nat) = 36" by simp
    with code show False by (auto split: if_splits)
  qed
qed

lemma bytes_fromhex_hex: "\<forall>b \<in> set bs. b < 256 \<Longrightarrow> bytes_fromhex (bytes_hex bs) = Some bs"
proof (induction bs)
  case (Cons b bs)
  then have "b div 16 < 16" "b mod 16 < 16" by auto
  with Cons show ?case by (simp add: bytes_hex_def hex_value_digit hex_digit_plain)
qed (simp add: bytes_hex_def)

lemma dollar_hex: "\<forall>b \<in> set bs. b < 256 \<Longrightarrow> CHR ''$'' \<notin> set (bytes_hex bs)"
proof (induction bs)
  case (Cons b bs)
  then have "hex_digit (b div 16) \<noteq> CHR ''$''" "hex_digit (b mod 16) \<noteq> CHR ''$''"
    by (auto intro!: hex_digit_plain(2))
  with Cons show ?case by (auto simp: bytes_hex_def)
qed (simp add: bytes_hex_def)

lemma bytes_hex_inj:
  assumes "\<forall>b \<in> set xs. b < 256" "\<forall>b \<in> set ys. b < 256" "bytes_hex xs = bytes_hex ys"
  shows "xs = ys"
proof -
  have "Some xs = bytes_fromhex (bytes_hex xs)" using assms(1) by (rule bytes_fromhex_hex[symmetric])
  also have "\<dots> = Some ys" unfolding assms(3) using assms(2) by (rule bytes_fromhex_hex)
  finally show ?thesis by simp
qed

definition is_bytes :: "nat list \<Rightarrow> bool" where
  "is_bytes bs \<longleftrightarrow> list_all (\<lambda>b. b < 256) bs"

text \<open>
  A stored password accepts exactly the passwords whose scrypt digest under the stored salt
  is that of the original: the original itself, and nothing else unless scrypt collides.
\<close>

theorem password_roundtrip:
  assumes "is_bytes salt" "\<And>pw ds. scrypt pw salt 16384 8 1 = Some ds \<Longrightarrow> is_bytes ds"
    and "hash_password scrypt salt pw = Some stored"
  shows "verify_password scrypt pw' stored \<longleftrightarrow> scrypt pw' salt 16384 8 1 = scrypt pw salt 16384 8 1"
proof -
  obtain ds where ds: "scrypt pw salt 16384 8 1 = Some ds"
    and st: "stored = ''scrypt'' @ CHR ''$'' # ''16384'' @ CHR ''$'' # ''8'' @ CHR ''$'' # ''1'' @ CHR ''$''
        # bytes_hex salt @ CHR ''$'' # bytes_hex ds"
    using assms(3) by (auto simp: hash_password_def split: option.splits)
  have bytes: "\<forall>b \<in> set salt. b < 256" "\<forall>b \<in> set ds. b < 256"
    using assms(1) assms(2)[OF ds] by (simp_all add: is_bytes_def list_all_iff)
  have "split_on CHR ''$'' stored = [''scrypt'', ''16384'', ''8'', ''1'', bytes_hex salt, bytes_hex ds]"
    unfolding st by (simp add: split_on_append split_on_none dollar_hex bytes del: append_Cons)
  moreover have "py_int ''16384'' = Some 16384" "py_int ''8'' = Some 8" "py_int ''1'' = Some 1" by code_simp+
  moreover have "bytes_fromhex (bytes_hex salt) = Some salt" using bytes(1) by (rule bytes_fromhex_hex)
  ultimately have verify: "verify_password scrypt pw' stored = (case scrypt pw' salt 16384 8 1 of
      None \<Rightarrow> False | Some ds' \<Rightarrow> bytes_hex ds' = bytes_hex ds)"
    by (simp add: verify_password_def)
  show ?thesis
  proof (cases "scrypt pw' salt 16384 8 1")
    case (Some ds')
    then have "\<forall>b \<in> set ds'. b < 256" using assms(2) by (force simp: is_bytes_def list_all_iff)
    then have "bytes_hex ds' = bytes_hex ds \<longleftrightarrow> ds' = ds" using bytes_hex_inj bytes(2) by blast
    with verify ds Some show ?thesis by simp
  qed (use verify ds in simp)
qed

definition plain_scrypt :: scrypt_fn where
  "plain_scrypt pw salt n r p = Some (map of_char pw)"

corollary password_roundtrip_witness:
  "hash_password plain_scrypt [1, 255] ''ab'' = Some ''scrypt$16384$8$1$01ff$6162''
   \<and> verify_password plain_scrypt ''ab'' ''scrypt$16384$8$1$01ff$6162''
   \<and> \<not> verify_password plain_scrypt ''ac'' ''scrypt$16384$8$1$01ff$6162''"
proof -
  have h: "hash_password plain_scrypt [1, 255] ''ab'' = Some ''scrypt$16384$8$1$01ff$6162''" by code_simp
  have salt: "is_bytes [1, 255]" by (simp add: is_bytes_def)
  have out: "is_bytes ds" if "plain_scrypt pw [1, 255] 16384 8 1 = Some ds" for pw ds
    using that by (auto simp: plain_scrypt_def is_bytes_def list_all_iff of_char_def)
  show ?thesis
    using h password_roundtrip[OF salt out h, where pw' = "''ab''"]
      password_roundtrip[OF salt out h, where pw' = "''ac''"]
    by (simp add: plain_scrypt_def)
qed

section \<open>Users and sessions\<close>

record auth_user =
  au_id :: string
  au_name :: string
  au_hash :: string
  au_role :: string
  au_prefs :: pydict

record auth_session =
  as_user :: string
  as_hash :: string
  as_expires :: int

record auth_db =
  db_users :: "auth_user list"
  db_sessions :: "auth_session list"

definition create_session :: "(string \<Rightarrow> string) \<Rightarrow> int \<Rightarrow> string \<Rightarrow> string \<Rightarrow> int \<Rightarrow> auth_db \<Rightarrow> auth_db" where
  \<comment> \<open>the new row, then the clean-up of expired ones\<close>
  "create_session sha ttl user token now db =
     db\<lparr>db_sessions := filter (\<lambda>s. \<not> as_expires s < now)
          (db_sessions db @ [\<lparr>as_user = user, as_hash = sha token, as_expires = now + ttl\<rparr>])\<rparr>"

definition session_of :: "(string \<Rightarrow> string) \<Rightarrow> string \<Rightarrow> auth_db \<Rightarrow> auth_session option" where
  "session_of sha token db = find (\<lambda>s. as_hash s = sha token) (db_sessions db)"

definition session_user :: "(string \<Rightarrow> string) \<Rightarrow> auth_db \<Rightarrow> int \<Rightarrow> string \<Rightarrow> string option" where
  \<comment> \<open>the user id a token stands for at \<open>now\<close>\<close>
  "session_user sha db now token =
     (if token = [] then None
      else (case session_of sha token db of
          None \<Rightarrow> None
        | Some s \<Rightarrow> if as_expires s < now then None else Some (as_user s)))"

definition authenticate :: "(string \<Rightarrow> string) \<Rightarrow> string \<Rightarrow> int \<Rightarrow> auth_db \<Rightarrow> auth_user option" where
  "authenticate sha token now db = (case session_user sha db now token of
       None \<Rightarrow> None
     | Some uid \<Rightarrow> row_get au_id (db_users db) uid)"

definition revoke_session :: "(string \<Rightarrow> string) \<Rightarrow> string \<Rightarrow> auth_db \<Rightarrow> auth_db" where
  "revoke_session sha token db = db\<lparr>db_sessions := filter (\<lambda>s. as_hash s \<noteq> sha token) (db_sessions db)\<rparr>"

definition bootstrap_admin :: "string \<Rightarrow> string \<Rightarrow> auth_db \<Rightarrow> auth_db" where
  "bootstrap_admin new_id hash db =
     (case find (\<lambda>u. au_name u = ''admin'') (db_users db) of
        Some u \<Rightarrow> db
      | None \<Rightarrow> db\<lparr>db_users := db_users db @
          [\<lparr>au_id = new_id, au_name = ''admin'', au_hash = hash, au_role = ''admin'', au_prefs = []\<rparr>]\<rparr>)"

datatype http_error = Unauthorized | Forbidden | Conflict | Unprocessable | NotFound | TooManyRequests

definition login ::
    "scrypt_fn \<Rightarrow> (string \<Rightarrow> string) \<Rightarrow> int \<Rightarrow> string \<Rightarrow> string \<Rightarrow> string \<Rightarrow> int \<Rightarrow> auth_db \<Rightarrow> http_error + auth_db" where
  \<comment> \<open>Inr: the reply carries \<open>token\<close>, the fresh random one\<close>
  "login scrypt sha ttl name password token now db =
     (case find (\<lambda>u. au_name u = name) (db_users db) of
        None \<Rightarrow> Inl Unauthorized
      | Some u \<Rightarrow> if \<not> verify_password scrypt password (au_hash u) then Inl Unauthorized
                 else Inr (create_session sha ttl (au_id u) token now db))"

definition require_user :: "(string \<Rightarrow> string) \<Rightarrow> string \<Rightarrow> int \<Rightarrow> auth_db \<Rightarrow> http_error + auth_user" where
  "require_user sha token now db = (case authenticate sha token now db of
       None \<Rightarrow> Inl Unauthorized | Some u \<Rightarrow> Inr u)"

definition create_user ::
    "(string \<Rightarrow> string) \<Rightarrow> string \<Rightarrow> int \<Rightarrow> string \<Rightarrow> string \<Rightarrow> string \<Rightarrow> string \<Rightarrow> string \<Rightarrow> auth_db \<Rightarrow> http_error + auth_db" where
  "create_user sha actor_token now name password role new_id hash db =
     bind_r (require_user sha actor_token now db) (\<lambda>actor.
       if au_role actor \<noteq> ''admin'' then Inl Forbidden
       else if role \<noteq> ''admin'' \<and> role \<noteq> ''member'' then Inl Unprocessable
       else if length password < 8 then Inl Unprocessable
       else if find (\<lambda>u. au_name u = name) (db_users db) \<noteq> None then Inl Conflict
       else Inr (db\<lparr>db_users := row_add \<lparr>au_id = new_id, au_name = name, au_hash = hash, au_role = role,
                                   au_prefs = []\<rparr> (db_users db)\<rparr>))"

text \<open>
  What the callers rely on in the session store: a new token stands for its user until it
  expires, a revoked one for nobody, and no other token is touched. Tokens count by their \<open>key\<close>,
  the stored hash; \<open>known\<close> are the keys the store has a row for; the clock does not go back.
\<close>

locale session_store =
  fixes valid :: "'s \<Rightarrow> int \<Rightarrow> string \<Rightarrow> string option"
    and known :: "'s \<Rightarrow> string \<Rightarrow> bool"
    and ok :: "'s \<Rightarrow> bool"
    and create :: "string \<Rightarrow> string \<Rightarrow> int \<Rightarrow> 's \<Rightarrow> 's"
    and revoke :: "string \<Rightarrow> 's \<Rightarrow> 's"
    and key :: "string \<Rightarrow> string"
    and ttl :: int
  assumes valid_create: "ok s \<Longrightarrow> \<not> known s (key t) \<Longrightarrow> now \<le> later \<Longrightarrow> t' \<noteq> [] \<Longrightarrow>
      valid (create u t now s) later t' =
        (if key t' = key t then if now + ttl < later then None else Some u else valid s later t')"
    and known_create: "known (create u t now s) k \<Longrightarrow> k = key t \<or> known s k"
    and valid_revoke: "valid (revoke t s) later t' = (if key t' = key t then None else valid s later t')"
    and known_revoke: "known (revoke t s) k \<Longrightarrow> known s k"
    and ok_create: "ok s \<Longrightarrow> \<not> known s (key t) \<Longrightarrow> ok (create u t now s)"
    and ok_revoke: "ok s \<Longrightarrow> ok (revoke t s)"

datatype session_op = Opens string string int | Closes string

fun granted :: "(string \<Rightarrow> string) \<Rightarrow> session_op list \<Rightarrow> string \<Rightarrow> (string \<times> int) option" where
  \<comment> \<open>the user and the time of the last login with a token that was not logged out, newest first\<close>
  "granted key [] t' = None"
| "granted key (Opens u t now # ops) t' = (if key t' = key t then Some (u, now) else granted key ops t')"
| "granted key (Closes t # ops) t' = (if key t' = key t then None else granted key ops t')"

fun opened :: "(string \<Rightarrow> string) \<Rightarrow> session_op list \<Rightarrow> string list" where
  "opened key [] = []"
| "opened key (Opens u t now # ops) = key t # opened key ops"
| "opened key (Closes t # ops) = opened key ops"

fun opened_by :: "int \<Rightarrow> session_op \<Rightarrow> bool" where
  "opened_by later (Opens u t now) \<longleftrightarrow> now \<le> later"
| "opened_by later (Closes t) \<longleftrightarrow> True"

fun store_op ::
    "(string \<Rightarrow> string \<Rightarrow> int \<Rightarrow> 's \<Rightarrow> 's) \<Rightarrow> (string \<Rightarrow> 's \<Rightarrow> 's) \<Rightarrow> session_op \<Rightarrow> 's \<Rightarrow> 's" where
  "store_op create revoke (Opens u t now) s = create u t now s"
| "store_op create revoke (Closes t) s = revoke t s"

context session_store
begin

lemma known_history:
  "known (foldr (store_op create revoke) ops s) k \<Longrightarrow> k \<in> set (opened key ops) \<or> known s k"
proof (induction ops)
  case (Cons op ops)
  then show ?case by (cases op) (auto dest: known_create known_revoke)
qed simp

lemma ok_history:
  assumes "\<And>k. \<not> known s k" "ok s"
  shows "distinct (opened key ops) \<Longrightarrow> ok (foldr (store_op create revoke) ops s)"
proof (induction ops)
  case (Cons op ops)
  then show ?case using known_history[of ops s] assms(1) by (cases op) (auto intro!: ok_create ok_revoke)
qed (simp add: assms)

lemma valid_history:
  assumes "\<And>k. \<not> known s k" "ok s" "\<And>t'. valid s later t' = None"
  shows "distinct (opened key ops) \<Longrightarrow> list_all (opened_by later) ops \<Longrightarrow> t' \<noteq> [] \<Longrightarrow>
    valid (foldr (store_op create revoke) ops s) later t'
      = (case granted key ops t' of None \<Rightarrow> None | Some (u, t) \<Rightarrow> if t + ttl < later then None else Some u)"
proof (induction ops)
  case (Cons op ops)
  show ?case
  proof (cases op)
    case (Opens u t now)
    then have "\<not> known (foldr (store_op create revoke) ops s) (key t)"
      using Cons.prems(1) known_history assms(1) by auto
    moreover have "ok (foldr (store_op create revoke) ops s)"
      using Cons.prems(1) Opens by (intro ok_history assms) auto
    ultimately show ?thesis using Cons Opens by (simp add: valid_create)
  qed (use Cons in \<open>simp add: valid_revoke\<close>)
qed (simp add: assms)

end

definition session_known :: "auth_db \<Rightarrow> string \<Rightarrow> bool" where
  "session_known db k \<longleftrightarrow> k \<in> set (map as_hash (db_sessions db))"

definition sessions_distinct :: "auth_db \<Rightarrow> bool" where
  \<comment> \<open>the unique column \<open>token_hash\<close>\<close>
  "sessions_distinct db \<longleftrightarrow> distinct (map as_hash (db_sessions db))"

lemma find_absent: "k \<notin> f ` set xs \<Longrightarrow> find (\<lambda>x. f x = k) xs = None"
  by (induction xs) auto

lemma find_filter_key:
  "distinct (map f xs) \<Longrightarrow> find (\<lambda>x. f x = k) (filter Q xs) =
     (case find (\<lambda>x. f x = k) xs of None \<Rightarrow> None | Some x \<Rightarrow> if Q x then Some x else None)"
proof (induction xs)
  case (Cons x xs)
  then have IH: "find (\<lambda>x. f x = k) (filter Q xs) =
     (case find (\<lambda>x. f x = k) xs of None \<Rightarrow> None | Some x \<Rightarrow> if Q x then Some x else None)"
    by simp
  show ?case
  proof (cases "f x = k")
    case True
    with Cons.prems have "k \<notin> f ` set (filter Q xs)" by auto
    then have "find (\<lambda>x. f x = k) (filter Q xs) = None" by (rule find_absent)
    with True show ?thesis by simp
  qed (use IH in simp)
qed simp

lemma find_append: "find P (xs @ ys) = (case find P xs of None \<Rightarrow> find P ys | Some x \<Rightarrow> Some x)"
  by (induction xs) auto

lemma distinct_map_filter_snoc:
  "distinct (map f xs) \<Longrightarrow> f x \<notin> f ` set xs \<Longrightarrow> distinct (map f (filter P (xs @ [x])))"
  by (induction xs) (auto split: if_splits)

interpretation sessions: session_store "session_user sha" session_known sessions_distinct
  "create_session sha ttl" "revoke_session sha" sha ttl
proof
  fix s :: auth_db and t t' u :: string and now later :: int
  assume "sessions_distinct s" "\<not> session_known s (sha t)" "now \<le> later" "t' \<noteq> []"
  moreover have "find (\<lambda>x. as_hash x = sha t) (db_sessions s) = None"
    using calculation(2) by (force simp: find_None_iff session_known_def)
  ultimately show "session_user sha (create_session sha ttl u t now s) later t' =
      (if sha t' = sha t then if now + ttl < later then None else Some u else session_user sha s later t')"
    by (auto simp: session_user_def session_of_def create_session_def find_append find_filter_key
        sessions_distinct_def split: option.splits)
next
  fix s t u now k
  show "session_known (create_session sha ttl u t now s) k \<Longrightarrow> k = sha t \<or> session_known s k"
    by (auto simp: session_known_def create_session_def split: if_splits)
next
  fix t s later t'
  show "session_user sha (revoke_session sha t s) later t'
      = (if sha t' = sha t then None else session_user sha s later t')"
  proof (cases "sha t' = sha t")
    case True
    then have "find (\<lambda>x. as_hash x = sha t') (filter (\<lambda>x. as_hash x \<noteq> sha t) (db_sessions s)) = None"
      by (auto simp: find_None_iff)
    with True show ?thesis by (simp add: session_user_def session_of_def revoke_session_def)
  next
    case False
    then have "find (\<lambda>x. as_hash x = sha t') (filter (\<lambda>x. as_hash x \<noteq> sha t) xs)
        = find (\<lambda>x. as_hash x = sha t') xs" for xs :: "auth_session list"
      by (induction xs) auto
    with False show ?thesis by (simp add: session_user_def session_of_def revoke_session_def)
  qed
next
  fix t s k
  show "session_known (revoke_session sha t s) k \<Longrightarrow> session_known s k"
    by (auto simp: session_known_def revoke_session_def)
next
  fix s t u now
  show "sessions_distinct s \<Longrightarrow> \<not> session_known s (sha t) \<Longrightarrow> sessions_distinct (create_session sha ttl u t now s)"
    unfolding sessions_distinct_def create_session_def
    by (simp del: filter_append add: distinct_map_filter_snoc session_known_def)
next
  fix t s
  show "sessions_distinct s \<Longrightarrow> sessions_distinct (revoke_session sha t s)"
    by (simp add: sessions_distinct_def revoke_session_def distinct_map_filter)
qed

text \<open>
  A token authenticates exactly as the history of logins and logouts says: it stands for the
  user of its last login, unless it was logged out since or its time has passed; logins and
  logouts of other tokens and the clean-up of expired rows never matter.
\<close>

theorem session_follows_history:
  assumes "distinct (opened sha ops)" "list_all (opened_by now) ops" "token \<noteq> []"
  shows "authenticate sha token now
      (foldr (store_op (create_session sha ttl) (revoke_session sha)) ops \<lparr>db_users = us, db_sessions = []\<rparr>)
    = (case granted sha ops token of
         None \<Rightarrow> None
       | Some (u, t) \<Rightarrow> if t + ttl < now then None else row_get au_id us u)"
proof -
  let ?db = "foldr (store_op (create_session sha ttl) (revoke_session sha)) ops \<lparr>db_users = us, db_sessions = []\<rparr>"
  have users: "db_users ?db = us"
  proof (induction ops)
    case (Cons op ops)
    then show ?case by (cases op) (simp_all add: create_session_def revoke_session_def)
  qed simp
  have "session_user sha ?db now token
      = (case granted sha ops token of None \<Rightarrow> None | Some (u, t) \<Rightarrow> if t + ttl < now then None else Some u)"
    by (rule sessions.valid_history) (use assms in
        \<open>simp_all add: session_known_def sessions_distinct_def session_user_def session_of_def\<close>)
  then show ?thesis by (simp add: authenticate_def users split: option.splits)
qed

definition example_users :: "auth_user list" where
  "example_users = [\<lparr>au_id = ''u1'', au_name = ''admin'', au_hash = [], au_role = ''admin'', au_prefs = []\<rparr>]"

corollary session_follows_history_witness:
  "map_option au_name (authenticate rev ''tok'' 90
      (foldr (store_op (create_session rev 100) (revoke_session rev))
        [Closes ''old'', Opens ''u1'' ''tok'' 10, Opens ''u1'' ''old'' 5]
        \<lparr>db_users = example_users, db_sessions = []\<rparr>)) = Some ''admin''"
  by (subst session_follows_history) (simp_all add: example_users_def row_get_def)

section \<open>The guard\<close>

record principal =
  pr_id :: "string option"
  pr_role :: string
  pr_username :: "string option"

record request =
  rq_method :: string
  rq_path :: string
  rq_authorization :: "string option"
  rq_token :: "string option"      \<comment> \<open>the query parameter\<close>

definition contains_str :: "string \<Rightarrow> string \<Rightarrow> bool" where
  \<comment> \<open>\<open>p in s\<close>\<close>
  "contains_str s p \<longleftrightarrow> list_ex (\<lambda>i. starts_with (drop i s) p) [0..<Suc (length s)]"

definition remove_prefix :: "string \<Rightarrow> string \<Rightarrow> string" where
  "remove_prefix p s = (if starts_with s p then drop (length p) s else s)"

definition at_end :: "string \<Rightarrow> string \<Rightarrow> bool" where
  \<comment> \<open>\<open>s$\<close>: the rest of the path, one final newline aside\<close>
  "at_end s rest \<longleftrightarrow> rest = s \<or> rest = s @ [CHR 0x0A]"

definition hex_dash :: "char \<Rightarrow> bool" where
  "hex_dash c \<longleftrightarrow> (CHR ''0'' \<le> c \<and> c \<le> CHR ''9'') \<or> (CHR ''a'' \<le> c \<and> c \<le> CHR ''f'') \<or> c = CHR ''-''"

definition is_exempt :: "string \<Rightarrow> bool" where
  \<comment> \<open>\<open>^/api/v1/(auth/login$|routines/[0-9a-f-]+/fire$)\<close>\<close>
  "is_exempt path \<longleftrightarrow> starts_with path ''/api/v1/'' \<and>
     (let rest = drop 8 path in
        at_end ''auth/login'' rest
        \<or> (starts_with rest ''routines/'' \<and>
           (let tail = drop 9 rest; ids = takeWhile hex_dash tail
            in ids \<noteq> [] \<and> at_end ''/fire'' (drop (length ids) tail))))"

definition is_admin_write :: "string \<Rightarrow> bool" where
  "is_admin_write path \<longleftrightarrow> list_ex (\<lambda>r. starts_with path (''/api/v1/'' @ r))
     [''mcp-servers'', ''remote-agents'', ''tools'', ''skills'', ''sub-agents'', ''settings'']"

definition request_token :: "request \<Rightarrow> string" where
  "request_token rq = (let t = py_strip (remove_prefix ''Bearer '' (case rq_authorization rq of None \<Rightarrow> [] | Some h \<Rightarrow> h))
     in if t = [] then (case rq_token rq of None \<Rightarrow> [] | Some q \<Rightarrow> q) else t)"

definition identify :: "(string \<Rightarrow> string) \<Rightarrow> int \<Rightarrow> auth_db \<Rightarrow> request \<Rightarrow> principal option" where
  "identify sha now db rq = (case authenticate sha (request_token rq) now db of
       None \<Rightarrow> None
     | Some u \<Rightarrow> Some \<lparr>pr_id = Some (au_id u), pr_role = (if au_role u = [] then ''member'' else au_role u),
                        pr_username = Some (au_name u)\<rparr>)"

definition authorize :: "principal option \<Rightarrow> string \<Rightarrow> string \<Rightarrow> bool" where
  \<comment> \<open>True allows, False is the refusal\<close>
  "authorize p method path \<longleftrightarrow>
     \<not> (method \<in> {''POST'', ''PATCH'', ''PUT'', ''DELETE''} \<and> is_admin_write path
        \<and> \<not> contains_str path ''/invoke'' \<and> \<not> contains_str path ''/overlap''
        \<and> (case p of None \<Rightarrow> True | Some q \<Rightarrow> pr_role q \<noteq> ''admin''))"

datatype guard_result = Refused http_error | Handled "principal option"

definition limit_key :: "principal \<Rightarrow> string" where
  "limit_key p = (case pr_id p of
       Some owner \<Rightarrow> ''user:'' @ owner
     | None \<Rightarrow> ''anon:'' @ (case pr_username p of None \<Rightarrow> ''-'' | Some n \<Rightarrow> if n = [] then ''-'' else n))"

definition guard ::
    "bool \<Rightarrow> (request \<Rightarrow> principal option) \<Rightarrow> real \<Rightarrow> real \<Rightarrow> real \<Rightarrow> request \<Rightarrow> rate_buckets
       \<Rightarrow> guard_result \<times> rate_buckets" where
  \<comment> \<open>\<open>AuthMiddleware.dispatch\<close> up to the call of the handler, with the principal bound for it\<close>
  "guard enabled who burst per_s now rq b =
     (if \<not> enabled then (Handled None, b)
      else if \<not> starts_with (rq_path rq) ''/api/v1'' \<or> is_exempt (rq_path rq) then (Handled None, b)
      else (case who rq of
          None \<Rightarrow> (Refused Unauthorized, b)
        | Some p \<Rightarrow>
            (case allow (limit_key p) burst per_s now b of (allowed, b') \<Rightarrow>
               if \<not> allowed then (Refused TooManyRequests, b')
               else if \<not> authorize (Some p) (rq_method rq) (rq_path rq) then (Refused Forbidden, b')
               else (Handled (Some p), b'))))"


definition member_db :: "string \<Rightarrow> auth_db" where
  "member_db role = \<lparr>db_users = [\<lparr>au_id = ''u1'', au_name = ''ann'', au_hash = [], au_role = role, au_prefs = []\<rparr>],
     db_sessions = [\<lparr>as_user = ''u1'', as_hash = ''tok'', as_expires = 100\<rparr>]\<rparr>"

definition settings_write :: request where
  "settings_write = \<lparr>rq_method = ''PATCH'', rq_path = ''/api/v1/settings'',
     rq_authorization = Some ''Bearer tok'', rq_token = None\<rparr>"

lemma settings_write_who:
  "identify id 50 (member_db role) settings_write
   = Some \<lparr>pr_id = Some ''u1'', pr_role = (if role = [] then ''member'' else role), pr_username = Some ''ann''\<rparr>"
proof -
  have "request_token settings_write = ''tok''" by code_simp
  then show ?thesis
    by (simp add: identify_def authenticate_def session_user_def session_of_def member_db_def row_get_def)
qed

lemma settings_write_allowed: "allow ''user:u1'' 1 1 0 Map.empty = (True, [''user:u1'' \<mapsto> (0, 0)])"
  by (simp add: allow_def)


section \<open>Tenancy\<close>

text \<open>
  The contract of a provider: the filter of a list query and the check of a loaded row are one
  rule. A filter is a predicate on the \<open>user_id\<close> column (NULL is None); no filter is None.
\<close>

locale auth_port =
  fixes tenancy_filter :: "principal option \<Rightarrow> (string option \<Rightarrow> bool) option"
    and may_see :: "string option \<Rightarrow> principal option \<Rightarrow> bool"
  assumes one_rule: "(case tenancy_filter p of None \<Rightarrow> True | Some keep \<Rightarrow> keep owner) = may_see owner p"
begin

lemma listed_iff_seen:
  "filter (\<lambda>r. case tenancy_filter p of None \<Rightarrow> True | Some keep \<Rightarrow> keep (user_of r)) rs
   = filter (\<lambda>r. may_see (user_of r) p) rs"
  by (simp add: one_rule)

end

definition builtin_filter :: "bool \<Rightarrow> principal option \<Rightarrow> (string option \<Rightarrow> bool) option" where
  "builtin_filter enabled p = (if \<not> enabled then None
     else Some (\<lambda>owner. owner = (case p of None \<Rightarrow> None | Some q \<Rightarrow> pr_id q)))"

definition builtin_may_see :: "bool \<Rightarrow> string option \<Rightarrow> principal option \<Rightarrow> bool" where
  "builtin_may_see enabled owner p =
     (if \<not> enabled then True else owner = (case p of None \<Rightarrow> None | Some q \<Rightarrow> pr_id q))"

interpretation builtin: auth_port "builtin_filter enabled" "builtin_may_see enabled"
  by unfold_locales (simp add: builtin_filter_def builtin_may_see_def)

record work_run =
  wr_id :: string
  wr_user :: "string option"
  wr_conversation :: string
  wr_status :: run_status
  wr_message :: string
  wr_routine :: "string option"

definition scope_to_user :: "bool \<Rightarrow> principal option \<Rightarrow> work_run list \<Rightarrow> work_run list" where
  "scope_to_user enabled p rs =
     filter (\<lambda>r. case builtin_filter enabled p of None \<Rightarrow> True | Some keep \<Rightarrow> keep (wr_user r)) rs"

definition owns_run :: "bool \<Rightarrow> principal option \<Rightarrow> work_run \<Rightarrow> bool" where
  "owns_run enabled p r = builtin_may_see enabled (wr_user r) p"

definition list_runs ::
    "bool \<Rightarrow> principal option \<Rightarrow> string option \<Rightarrow> nat \<Rightarrow> nat \<Rightarrow> work_run list \<Rightarrow> nat \<times> work_run list" where
  \<comment> \<open>the total and one page, newest first; the table is in the order of \<open>started_at\<close>\<close>
  "list_runs enabled p routine limit offset rs =
     (let q = scope_to_user enabled p rs;
          q' = (case routine of None \<Rightarrow> q | Some rid \<Rightarrow> filter (\<lambda>r. wr_routine r = Some rid) q)
      in (length q', take limit (drop offset (rev q'))))"

definition get_run :: "bool \<Rightarrow> principal option \<Rightarrow> string \<Rightarrow> work_run list \<Rightarrow> http_error + work_run" where
  "get_run enabled p rid rs = (case row_get wr_id rs rid of
       None \<Rightarrow> Inl NotFound
     | Some r \<Rightarrow> if \<not> owns_run enabled p r then Inl NotFound else Inr r)"

definition delete_run :: "bool \<Rightarrow> principal option \<Rightarrow> string \<Rightarrow> work_run list \<Rightarrow> http_error + work_run list" where
  "delete_run enabled p rid rs = (case row_get wr_id rs rid of
       None \<Rightarrow> Inl NotFound
     | Some r \<Rightarrow> if \<not> owns_run enabled p r then Inl NotFound
                else if wr_status r = Running then Inl Conflict
                else Inr (row_del wr_id rid rs))"

definition purge_runs :: "work_run list \<Rightarrow> work_run list" where
  "purge_runs rs = []"

definition hitl_pending :: "work_run list \<Rightarrow> work_run list" where
  "hitl_pending rs = filter (\<lambda>r. wr_status r = PausedHitl) rs"

definition resolve_hitl :: "string \<Rightarrow> work_run list \<Rightarrow> http_error + work_run" where
  \<comment> \<open>Inr: the run that resumes with the caller's decision\<close>
  "resolve_hitl rid rs = (case row_get wr_id rs rid of
       None \<Rightarrow> Inl Conflict
     | Some r \<Rightarrow> if wr_status r \<noteq> PausedHitl then Inl Conflict else Inr r)"

definition cancel_endpoint :: "string \<Rightarrow> work_run list \<Rightarrow> http_error + work_run" where
  \<comment> \<open>Inr: the run the stop acts on\<close>
  "cancel_endpoint rid rs = (case row_get wr_id rs rid of
       None \<Rightarrow> Inl Conflict
     | Some r \<Rightarrow> if wr_status r \<notin> {Running, PausedHitl, Queued} then Inl Conflict else Inr r)"

lemma list_runs_visible:
  "list_runs enabled p routine limit offset rs =
     (let q = filter (owns_run enabled p) rs;
          q' = (case routine of None \<Rightarrow> q | Some rid \<Rightarrow> filter (\<lambda>r. wr_routine r = Some rid) q)
      in (length q', take limit (drop offset (rev q'))))"
  unfolding list_runs_def scope_to_user_def builtin.listed_iff_seen owns_run_def[abs_def] ..

lemma get_run_visible:
  "distinct (map wr_id rs) \<Longrightarrow> get_run enabled p rid rs =
     (case row_get wr_id (filter (owns_run enabled p) rs) rid of None \<Rightarrow> Inl NotFound | Some r \<Rightarrow> Inr r)"
  by (simp add: get_run_def row_get_def find_filter_key split: option.splits)

lemma delete_run_visible:
  "distinct (map wr_id rs) \<Longrightarrow> delete_run enabled p rid rs =
     (case row_get wr_id (filter (owns_run enabled p) rs) rid of
        None \<Rightarrow> Inl NotFound
      | Some r \<Rightarrow> if wr_status r = Running then Inl Conflict else Inr (row_del wr_id rid rs))"
  by (simp add: delete_run_def row_get_def find_filter_key split: option.splits)

lemma delete_keeps_hidden:
  assumes "distinct (map wr_id rs)" "delete_run enabled p rid rs = Inr kept"
  shows "filter (\<lambda>r. owns_run enabled p r = False) kept = filter (\<lambda>r. owns_run enabled p r = False) rs"
proof -
  obtain r where r: "row_get wr_id rs rid = Some r" "owns_run enabled p r" and kept: "kept = row_del wr_id rid rs"
    using assms(2) by (auto simp: delete_run_def split: option.splits if_splits)
  have "owns_run enabled p x" if "x \<in> set rs" "wr_id x = rid" for x
  proof -
    have "x = r" using row_get_Some[OF r(1)] that assms(1) by (auto simp: distinct_map inj_on_def)
    with r(2) show ?thesis by simp
  qed
  then show ?thesis unfolding kept row_del_def filter_filter by (intro filter_cong) auto
qed

text \<open>
  C13: the scoped run endpoints separate users: what a user's list, detail and delete answer
  depends on the rows that user may see and on nothing else in the table, and a delete removes no
  row of anyone else.
\<close>

theorem scoped_endpoints_isolate:
  assumes "distinct (map wr_id rs)" "distinct (map wr_id rs')"
    and "filter (owns_run enabled p) rs = filter (owns_run enabled p) rs'"
  shows "list_runs enabled p routine limit offset rs = list_runs enabled p routine limit offset rs'
     \<and> get_run enabled p rid rs = get_run enabled p rid rs'
     \<and> (case delete_run enabled p rid rs of
          Inl e \<Rightarrow> delete_run enabled p rid rs' = Inl e
        | Inr kept \<Rightarrow> filter (\<lambda>r. owns_run enabled p r = False) kept = filter (\<lambda>r. owns_run enabled p r = False) rs
            \<and> map_sum (\<lambda>e. e) (filter (owns_run enabled p)) (delete_run enabled p rid rs')
              = Inr (filter (owns_run enabled p) kept))"
proof -
  have "filter (owns_run enabled p) (row_del wr_id rid xs) = row_del wr_id rid (filter (owns_run enabled p) xs)" for xs
    by (auto simp: row_del_def conj_commute intro!: filter_cong)
  then show ?thesis
    using assms delete_keeps_hidden[OF assms(1), of enabled p rid]
    by (auto simp: list_runs_visible get_run_visible delete_run_visible split: option.splits sum.splits if_splits)
qed

definition two_users :: "string \<Rightarrow> work_run list" where
  "two_users secret =
     [\<lparr>wr_id = ''r1'', wr_user = Some ''bob'', wr_conversation = ''c1'', wr_status = PausedHitl,
       wr_message = secret, wr_routine = None\<rparr>,
      \<lparr>wr_id = ''r2'', wr_user = Some ''ann'', wr_conversation = ''c2'', wr_status = Completed,
       wr_message = ''hi'', wr_routine = None\<rparr>]"

definition ann :: principal where
  "ann = \<lparr>pr_id = Some ''ann'', pr_role = ''member'', pr_username = Some ''ann''\<rparr>"

corollary scoped_endpoints_isolate_witness:
  "list_runs True (Some ann) None 50 0 (two_users ''pay'') = list_runs True (Some ann) None 50 0 (two_users ''ask'')
   \<and> get_run True (Some ann) ''r1'' (two_users ''pay'') = Inl NotFound
   \<and> delete_run True (Some ann) ''r2'' (two_users ''pay'') \<noteq> Inl NotFound"
proof -
  have own: "filter (owns_run True (Some ann)) (two_users ''pay'') = filter (owns_run True (Some ann)) (two_users ''ask'')"
    and dist: "distinct (map wr_id (two_users s))" for s
    by (simp_all add: two_users_def owns_run_def builtin_may_see_def ann_def)
  show ?thesis
    using scoped_endpoints_isolate[OF dist dist own, of None 50 0 "''r1''"]
    by (auto simp: two_users_def get_run_def delete_run_def row_get_def owns_run_def builtin_may_see_def ann_def)
qed

text \<open>
  Four run endpoints do not ask: with authentication on, a member is shown the message of
  another user's paused run, can decide its gate and stop it, and a purge deletes the runs of
  everyone, while the guard lets the member make all four requests.
\<close>

theorem unscoped_endpoints_cross_users:
  "map wr_message (hitl_pending (two_users secret)) = [secret]
   \<and> map_sum id wr_user (resolve_hitl ''r1'' (two_users secret)) = Inr (Some ''bob'')
   \<and> map_sum id wr_user (cancel_endpoint ''r1'' (two_users secret)) = Inr (Some ''bob'')
   \<and> purge_runs (two_users secret) = []
   \<and> get_run True (Some ann) ''r1'' (two_users secret) = Inl NotFound
   \<and> list_all (\<lambda>(m, path). authorize (Some ann) m path)
        [(''GET'', ''/api/v1/hitl/pending''), (''POST'', ''/api/v1/runs/r1/hitl''),
         (''POST'', ''/api/v1/runs/r1/cancel''), (''DELETE'', ''/api/v1/runs'')]"
proof -
  have "list_all (\<lambda>(m, path). authorize (Some ann) m path)
        [(''GET'', ''/api/v1/hitl/pending''), (''POST'', ''/api/v1/runs/r1/hitl''),
         (''POST'', ''/api/v1/runs/r1/cancel''), (''DELETE'', ''/api/v1/runs'')]"
    by code_simp
  then show ?thesis
    by (simp add: hitl_pending_def two_users_def resolve_hitl_def cancel_endpoint_def purge_runs_def get_run_def
        row_get_def owns_run_def builtin_may_see_def ann_def)
qed

end
