(* ===== verification/Settings.thy ===== *)
theory Settings
  imports Workflow_Dag
begin

text \<open>
  The settings store (\<open>backend/app/settings_store.py\<close>) with the model selection check of
  \<open>llm/registry.py\<close> and \<open>llm/port.py\<close>. The environment holds what the code asks of others: the
  registered providers, the parser of model parameters (pydantic), the zone database, the
  registered delivery channels and Redis. Every \<open>elif\<close> of \<open>validate_updates\<close> tests one key or one
  key set and no key occurs in two of them, so the chain is the rule of the key.
\<close>

section \<open>Keys\<close>

definition DEFAULTS :: pydict where
  "DEFAULTS = [
     (''orchestrator_mode'', JStr ''graph''), (''orchestrator_full_fallback_enabled'', JBool True),
     (''default_model'', JStr ''anthropic:claude-sonnet-4-6''), (''default_model_params'', JNull),
     (''planner_model'', JNull), (''planner_model_params'', JNull), (''aggregator_model'', JNull),
     (''aggregator_model_params'', JNull), (''max_parallel_dispatch'', JInt 4),
     (''max_plan_steps'', JInt 6), (''max_tool_iterations'', JInt 8),
     (''dynamic_worker_fallback_enabled'', JBool True), (''direct_exposure_cap_warning'', JInt 10),
     (''formatter_enabled'', JBool True), (''formatter_presentation'', JStr ''a2ui_first''),
     (''formatter_model'', JNull), (''formatter_model_params'', JNull),
     (''formatter_coverage_flag_threshold'', JInt 90), (''answer_ui_charts_enabled'', JBool True),
     (''mcp_health_interval_s'', JInt 30), (''mcp_schema_change_policy'', JStr ''warn''),
     (''overlap_judge_model'', JNull), (''overlap_judge_model_params'', JNull),
     (''eval_judge_model'', JNull), (''eval_judge_model_params'', JNull),
     (''registry_overlap_audit_enabled'', JBool False), (''log_level'', JStr ''INFO''),
     (''langsmith_enabled'', JBool False), (''langsmith_endpoint'', JStr ''''),
     (''langsmith_project'', JStr ''concierge-agent''), (''otlp_endpoint'', JStr ''''),
     (''registry_cache_mode'', JStr ''bypass''), (''retrieval_enabled'', JBool False),
     (''retrieval_threshold'', JInt 30), (''retrieval_top_k'', JInt 10),
     (''embedding_model'', JNull), (''memory_enabled'', JBool False),
     (''memory_extraction_enabled'', JBool True), (''memory_reflection_enabled'', JBool False),
     (''procedural_learning_enabled'', JBool False),
     (''memory_injection_budget_tokens'', JInt 1200), (''memory_pinned_budget_tokens'', JInt 400),
     (''memory_recall_top_k'', JInt 6), (''memory_score_floor'', JFloat 0.35),
     (''memory_extraction_model'', JNull), (''memory_extraction_model_params'', JNull),
     (''memory_half_life_days'', JFloat 30.0), (''memory_idle_minutes'', JInt 10),
     (''memory_digest_compact_days'', JInt 14), (''memory_forget_enabled'', JBool False),
     (''memory_forget_similarity'', JFloat 0.85), (''memory_admission_min_confidence'', JFloat 0.5),
     (''memory_quarantine_kinds'', JList []), (''memory_extraction_learning'', JStr ''off''),
     (''memory_community_budget_tokens'', JInt 150), (''memory_decay_enabled'', JBool True),
     (''memory_contradiction_enabled'', JBool True), (''memory_communities_enabled'', JBool True),
     (''memory_compaction_enabled'', JBool True), (''ambient_enabled'', JBool False),
     (''ambient_max_routines'', JInt 10), (''ambient_runs_per_day'', JInt 50),
     (''ambient_routine_events_per_hour'', JInt 20), (''ambient_idle_minutes'', JInt 10),
     (''ambient_hitl_timeout_h'', JInt 24),
     (''ambient_digest_times'', JList [JStr ''09:00'', JStr ''17:00'']),
     (''ambient_notification_budget_per_day'', JInt 3),
     (''ambient_quiet_hours'', JList [JStr ''22:00'', JStr ''07:00'']),
     (''ambient_timezone'', JStr ''UTC''), (''run_max_concurrent'', JInt 8),
     (''run_queue_max'', JInt 32), (''run_wall_clock_s'', JInt 900),
     (''ambient_interrupt_threshold'', JInt 4), (''ambient_wakeups_per_routine_per_day'', JInt 100),
     (''ambient_escalation_budget_per_day'', JInt 10), (''ambient_learning_mode'', JStr ''off''),
     (''ambient_precision_rule_enabled'', JBool True), (''ambient_channels'', JDict []),
     (''ambient_pursuit'', JStr ''always''), (''ambient_salience_mode'', JStr ''off''),
     (''ambient_salience_min_urgency'', JInt 3), (''ambient_salience_learning'', JStr ''off''),
     (''ambient_salience_model'', JNull), (''ambient_salience_model_params'', JNull),
     (''ambient_anticipation_enabled'', JBool True), (''evals_enabled'', JBool True),
     (''a2a_enabled'', JBool False), (''a2a_card_refresh_interval_s'', JInt 300),
     (''a2a_task_timeout_s'', JInt 120), (''a2a_poll_interval_s'', JInt 60),
     (''a2a_max_parked'', JInt 20), (''ambient_tick_interval_s'', JInt 60),
     (''rate_limit_burst'', JInt 120), (''rate_limit_per_s'', JInt 10),
     (''overlap_threshold_percent'', JInt 70), (''run_stall_after_s'', JInt 300),
     (''agentic_recursion_limit'', JInt 100), (''a2a_http_timeout_s'', JInt 15),
     (''a2a_fence_max_chars'', JInt 8000), (''retention_ambient_events_enabled'', JBool False),
     (''retention_ambient_events_days'', JInt 30), (''retention_deliveries_enabled'', JBool False),
     (''retention_deliveries_days'', JInt 90),
     (''retention_ambient_policies_enabled'', JBool False),
     (''retention_ambient_policies_days'', JInt 365),
     (''retention_pattern_instances_enabled'', JBool False),
     (''retention_pattern_instances_days'', JInt 7), (''retention_a2a_tasks_enabled'', JBool False),
     (''retention_a2a_tasks_days'', JInt 90), (''retention_auth_sessions_enabled'', JBool True),
     (''retention_auth_sessions_days'', JInt 7), (''mcp_auto_reconnect_enabled'', JBool True),
     (''mcp_reconnect_max_attempts'', JInt 8), (''model_prices'', JDict []),
     (''spend_ceiling_enabled'', JBool False), (''spend_ceiling_usd_per_day'', JFloat 10.0)]"

definition RETENTION_DAY_KEYS :: "string list" where
  "RETENTION_DAY_KEYS = [
     ''retention_ambient_events_days'', ''retention_deliveries_days'',
     ''retention_ambient_policies_days'', ''retention_pattern_instances_days'',
     ''retention_a2a_tasks_days'', ''retention_auth_sessions_days'']"

definition MODEL_KEYS :: "string list" where
  "MODEL_KEYS = [
     ''default_model'', ''planner_model'', ''aggregator_model'', ''formatter_model'',
     ''memory_extraction_model'', ''ambient_salience_model'', ''overlap_judge_model'',
     ''eval_judge_model'']"

definition PARAMS_KEYS :: "string list" where
  "PARAMS_KEYS = [
     ''default_model_params'', ''planner_model_params'', ''aggregator_model_params'',
     ''formatter_model_params'', ''memory_extraction_model_params'',
     ''ambient_salience_model_params'', ''overlap_judge_model_params'', ''eval_judge_model_params'']"

definition INT_KEYS :: "string list" where
  "INT_KEYS = [
     ''max_parallel_dispatch'', ''max_plan_steps'', ''max_tool_iterations'',
     ''direct_exposure_cap_warning'', ''mcp_health_interval_s'', ''retrieval_threshold'',
     ''retrieval_top_k'', ''memory_injection_budget_tokens'', ''memory_pinned_budget_tokens'',
     ''memory_recall_top_k'', ''memory_idle_minutes'', ''memory_digest_compact_days'',
     ''ambient_max_routines'', ''ambient_runs_per_day'', ''ambient_routine_events_per_hour'',
     ''ambient_idle_minutes'', ''ambient_hitl_timeout_h'', ''ambient_notification_budget_per_day'',
     ''ambient_interrupt_threshold'', ''ambient_wakeups_per_routine_per_day'',
     ''ambient_escalation_budget_per_day'', ''a2a_card_refresh_interval_s'', ''a2a_task_timeout_s'',
     ''a2a_poll_interval_s'', ''rate_limit_burst'', ''rate_limit_per_s'', ''a2a_http_timeout_s'']"

definition BOOL_KEYS :: "string list" where
  "BOOL_KEYS = [
     ''orchestrator_full_fallback_enabled'', ''dynamic_worker_fallback_enabled'',
     ''langsmith_enabled'', ''formatter_enabled'', ''answer_ui_charts_enabled'',
     ''retrieval_enabled'', ''memory_enabled'', ''memory_extraction_enabled'',
     ''memory_reflection_enabled'', ''procedural_learning_enabled'', ''ambient_enabled'',
     ''ambient_precision_rule_enabled'', ''memory_forget_enabled'', ''a2a_enabled'',
     ''memory_decay_enabled'', ''memory_contradiction_enabled'', ''memory_communities_enabled'',
     ''memory_compaction_enabled'', ''ambient_anticipation_enabled'',
     ''registry_overlap_audit_enabled'', ''evals_enabled'', ''retention_ambient_events_enabled'',
     ''retention_deliveries_enabled'', ''retention_ambient_policies_enabled'',
     ''retention_pattern_instances_enabled'', ''retention_a2a_tasks_enabled'',
     ''retention_auth_sessions_enabled'', ''mcp_auto_reconnect_enabled'', ''spend_ceiling_enabled'']"

definition STR_KEYS :: "string list" where
  "STR_KEYS = [
     ''langsmith_endpoint'', ''langsmith_project'', ''otlp_endpoint'']"


section \<open>Model selection\<close>

record chat_params =
  cp_effort :: "string option"
  cp_temperature :: "real option"
  cp_max_output_tokens :: "int option"

record model_info =
  mi_id :: string
  mi_supports_effort :: bool
  mi_supports_temperature :: bool
  mi_supports_max_output_tokens :: bool
  mi_deprecated :: bool

record provider =
  pv_id :: string
  pv_configured :: bool
  pv_models :: "model_info list"
  pv_embeddings :: bool

record settings_env =
  en_providers :: "provider list"
  en_params :: "json \<Rightarrow> string + chat_params"     \<comment> \<open>\<open>ModelParams.model_validate\<close>\<close>
  en_zone :: "string \<Rightarrow> bool"
  en_channels :: "string list"
  en_redis_url :: bool
  en_redis_up :: bool

datatype model_error =
    BadReference | UnknownProvider string | NotConfigured string | NotListed string string
  | Retired string string | Unsupported string "string list" | NoEmbeddings string

definition unsupported_params :: "model_info \<Rightarrow> chat_params option \<Rightarrow> string list" where
  "unsupported_params m ps = (case ps of
       None \<Rightarrow> []
     | Some p \<Rightarrow>
         (if cp_effort p \<noteq> None \<and> \<not> mi_supports_effort m then [''effort''] else [])
         @ (if cp_temperature p \<noteq> None \<and> \<not> mi_supports_temperature m then [''temperature''] else [])
         @ (if cp_max_output_tokens p \<noteq> None \<and> \<not> mi_supports_max_output_tokens m
            then [''max_output_tokens''] else []))"

definition parse_model_ref :: "string \<Rightarrow> (string \<times> string) option" where
  \<comment> \<open>None is the \<open>UnknownProviderError\<close> of a malformed reference\<close>
  "parse_model_ref ref =
     (let provider = takeWhile (\<lambda>c. c \<noteq> CHR '':'') ref; model = drop (Suc (length provider)) ref
      in if CHR '':'' \<notin> set ref \<or> provider = [] \<or> model = [] then None else Some (provider, model))"

definition referenced :: "settings_env \<Rightarrow> string \<Rightarrow> model_error + provider \<times> string" where
  "referenced env ref = (case parse_model_ref ref of
       None \<Rightarrow> Inl BadReference
     | Some (pid, model) \<Rightarrow> (case find (\<lambda>p. pv_id p = pid) (en_providers env) of
           None \<Rightarrow> Inl (UnknownProvider pid)
         | Some p \<Rightarrow> Inr (p, model)))"

definition validate_model_selection :: "settings_env \<Rightarrow> string \<Rightarrow> chat_params option \<Rightarrow> model_error list" where
  "validate_model_selection env ref ps = (case referenced env ref of
       Inl e \<Rightarrow> [e]
     | Inr (p, model) \<Rightarrow>
         (if \<not> pv_configured p then [NotConfigured (pv_id p)] else [])
         @ (case find (\<lambda>m. mi_id m = model) (pv_models p) of
              None \<Rightarrow> [NotListed (pv_id p) model]
            | Some info \<Rightarrow>
                if mi_deprecated info then [Retired (pv_id p) model]
                else if unsupported_params info ps \<noteq> [] then [Unsupported model (unsupported_params info ps)]
                else []))"

definition validate_embedding_selection :: "settings_env \<Rightarrow> string \<Rightarrow> model_error list" where
  "validate_embedding_selection env ref = (case referenced env ref of
       Inl e \<Rightarrow> [e]
     | Inr (p, model) \<Rightarrow> (if \<not> pv_configured p then [NotConfigured (pv_id p)] else [])
                       @ (if \<not> pv_embeddings p then [NoEmbeddings (pv_id p)] else []))"

section \<open>Validation of one value\<close>

datatype setting_error =
    UnknownSetting string | BadValue string | NeedsRedisUrl | BadEmbedding model_error
  | UnknownMode string | BadChannelList string | UnknownChannels string "string list"
  | BadPriceRef string | BadPriceRow string | BadAmount string string
  | BadParams string string | ParamsWithoutModel string | BadSelection string model_error

fun as_pyint :: "json \<Rightarrow> int option" where
  \<comment> \<open>\<open>isinstance(v, int)\<close>: a bool is an int\<close>
  "as_pyint (JInt i) = Some i"
| "as_pyint (JBool b) = Some (if b then 1 else 0)"
| "as_pyint _ = None"

fun as_pynum :: "json \<Rightarrow> real option" where
  \<comment> \<open>\<open>isinstance(v, int | float)\<close>, and \<open>float(v)\<close>\<close>
  "as_pynum (JInt i) = Some (of_int i)"
| "as_pynum (JBool b) = Some (if b then 1 else 0)"
| "as_pynum (JFloat x) = Some x"
| "as_pynum _ = None"

fun is_pybool :: "json \<Rightarrow> bool" where
  "is_pybool (JBool b) = True"
| "is_pybool _ = False"

fun is_pystr :: "json \<Rightarrow> bool" where
  "is_pystr (JStr s) = True"
| "is_pystr _ = False"

definition is_digit :: "char \<Rightarrow> bool" where
  "is_digit c \<longleftrightarrow> CHR ''0'' \<le> c \<and> c \<le> CHR ''9''"

fun is_hhmm :: "json \<Rightarrow> bool" where
  \<comment> \<open>\<open>[0-2]\d:[0-5]\d\<close>\<close>
  "is_hhmm (JStr [a, b, c, d, e]) \<longleftrightarrow>
     a \<in> {CHR ''0'', CHR ''1'', CHR ''2''} \<and> is_digit b \<and> c = CHR '':''
     \<and> CHR ''0'' \<le> d \<and> d \<le> CHR ''5'' \<and> is_digit e"
| "is_hhmm _ \<longleftrightarrow> False"

definition MEMORY_KINDS :: "string list" where
  "MEMORY_KINDS = [''fact'', ''preference'', ''entity'', ''relation'', ''instruction'']"

definition DELIVERY_MODES :: "string list" where
  "DELIVERY_MODES = [''interrupt'', ''notify'', ''digest'']"

definition channel_errors :: "settings_env \<Rightarrow> string \<times> json \<Rightarrow> setting_error list" where
  "channel_errors env mc = (case mc of (mode, chans) \<Rightarrow>
     if mode \<notin> set DELIVERY_MODES then [UnknownMode mode]
     else (case chans of
         JList cs \<Rightarrow>
           (if \<not> list_all is_pystr cs then [BadChannelList mode]
            else (let unknown = filter (\<lambda>c. c \<notin> set (en_channels env)) (remdups (map as_str cs))
                  in if unknown \<noteq> [] then [UnknownChannels mode unknown] else []))
       | _ \<Rightarrow> [BadChannelList mode]))"

definition amount_ok :: "json \<Rightarrow> bool" where
  "amount_ok v \<longleftrightarrow> \<not> is_pybool v \<and> (case as_pynum v of Some x \<Rightarrow> 0 \<le> x | None \<Rightarrow> False)"

definition price_errors :: "string \<times> json \<Rightarrow> setting_error list" where
  "price_errors rr = (case rr of (ref, row) \<Rightarrow>
     if CHR '':'' \<notin> set ref \<or> starts_with ref '':'' \<or> ends_with ref '':'' then [BadPriceRef ref]
     else if \<not> is_dict row then [BadPriceRow ref]
     else map (BadAmount ref)
       (filter (\<lambda>field. \<not> amount_ok (dict_get (as_dict row) field)) [''input_per_m'', ''output_per_m'']))"

definition validate_model_prices :: "json \<Rightarrow> setting_error list" where
  "validate_model_prices v = (case v of
       JDict d \<Rightarrow> concat (map price_errors d)
     | _ \<Rightarrow> [BadValue ''model_prices''])"

text \<open>
  The rules. A raw enumeration is a bare \<open>value not in {...}\<close>, which raises on a list or an
  object; the guarded one tests for a string first. The flag of the numeric rules says whether a
  bool passes as a number.
\<close>

datatype rule =
    REnum "string list" | RStrEnum "string list" | RCacheMode | REmbedding
  | RInt bool int "int option" | RNum bool bool real "real option"
  | RKinds | RChannels | RZone | RTimes | RPrices | RBool | RStr | RModel | RParams

definition bad :: "string \<Rightarrow> bool \<Rightarrow> setting_error list" where
  "bad key ok = (if ok then [] else [BadValue key])"

definition int_in :: "bool \<Rightarrow> int \<Rightarrow> int option \<Rightarrow> json \<Rightarrow> bool" where
  "int_in bools lo hi v \<longleftrightarrow> (bools \<or> \<not> is_pybool v) \<and>
     (case as_pyint v of None \<Rightarrow> False | Some i \<Rightarrow> lo \<le> i \<and> (case hi of None \<Rightarrow> True | Some h \<Rightarrow> i \<le> h))"

definition num_in :: "bool \<Rightarrow> bool \<Rightarrow> real \<Rightarrow> real option \<Rightarrow> json \<Rightarrow> bool" where
  \<comment> \<open>\<open>strict\<close>: the lower bound is excluded\<close>
  "num_in bools strict lo hi v \<longleftrightarrow> (bools \<or> \<not> is_pybool v) \<and>
     (case as_pynum v of None \<Rightarrow> False
      | Some x \<Rightarrow> (if strict then lo < x else lo \<le> x) \<and> (case hi of None \<Rightarrow> True | Some h \<Rightarrow> x \<le> h))"

definition rule_of :: "string \<Rightarrow> rule" where
  "rule_of key =
     (if key = ''orchestrator_mode'' then REnum [''graph'', ''agentic'']
      else if key = ''registry_cache_mode'' then RCacheMode
      else if key = ''embedding_model'' then REmbedding
      else if key = ''log_level'' then REnum [''DEBUG'', ''INFO'', ''WARNING'', ''ERROR'']
      else if key = ''formatter_presentation'' then REnum [''a2ui_first'', ''raw_first'']
      else if key = ''mcp_schema_change_policy'' then REnum [''warn'', ''quarantine'']
      else if key = ''formatter_coverage_flag_threshold'' then RInt True 1 (Some 100)
      else if key = ''a2a_max_parked'' then RInt True 0 None
      else if key = ''ambient_tick_interval_s'' then RInt True 15 None
      else if key = ''overlap_threshold_percent'' then RInt True 0 (Some 100)
      else if key = ''run_stall_after_s'' then RInt True 60 None
      else if key = ''agentic_recursion_limit'' then RInt True 10 (Some 500)
      else if key = ''a2a_fence_max_chars'' then RInt True 500 None
      else if key \<in> set INT_KEYS then RInt True 1 None
      else if key = ''memory_forget_similarity'' then RNum True False 0.5 (Some 1)
      else if key = ''memory_score_floor'' then RNum True False 0 (Some 1)
      else if key = ''ambient_salience_mode'' then RStrEnum [''off'', ''propose'', ''auto'']
      else if key = ''ambient_salience_min_urgency'' then RInt False 1 (Some 5)
      else if key = ''ambient_pursuit'' then RStrEnum [''off'', ''away'', ''always'']
      else if key = ''ambient_learning_mode'' then REnum [''off'', ''auto'', ''propose'']
      else if key = ''ambient_salience_learning'' then REnum [''off'', ''auto'', ''propose'']
      else if key = ''memory_extraction_learning'' then REnum [''off'', ''auto'', ''propose'']
      else if key = ''memory_admission_min_confidence'' then RNum False False 0 (Some 0.9)
      else if key = ''memory_quarantine_kinds'' then RKinds
      else if key = ''ambient_channels'' then RChannels
      else if key = ''run_max_concurrent'' then RInt False 1 (Some 64)
      else if key = ''run_queue_max'' then RInt False 0 (Some 500)
      else if key = ''run_wall_clock_s'' then RInt False 30 (Some 86400)
      else if key = ''ambient_timezone'' then RZone
      else if key = ''ambient_digest_times'' \<or> key = ''ambient_quiet_hours'' then RTimes
      else if key = ''memory_half_life_days'' then RNum True True 0 None
      else if key = ''memory_community_budget_tokens'' then RInt True 0 None
      else if key \<in> set RETENTION_DAY_KEYS then RInt False 1 (Some 3650)
      else if key = ''mcp_reconnect_max_attempts'' then RInt False 1 (Some 100)
      else if key = ''spend_ceiling_usd_per_day'' then RNum False True 0 None
      else if key = ''model_prices'' then RPrices
      else if key \<in> set BOOL_KEYS then RBool
      else if key \<in> set STR_KEYS then RStr
      else if key \<in> set MODEL_KEYS then RModel
      else RParams)"

definition rule_errors :: "settings_env \<Rightarrow> string \<Rightarrow> rule \<Rightarrow> json \<Rightarrow> py_exc + setting_error list" where
  "rule_errors env key rule v = (case rule of
       REnum names \<Rightarrow> bind_r (check_in v names) (\<lambda>ok. Inr (bad key ok))
     | RStrEnum names \<Rightarrow> Inr (bad key (is_pystr v \<and> as_str v \<in> set names))
     | RCacheMode \<Rightarrow> bind_r (check_in v [''bypass'', ''memory'', ''redis'']) (\<lambda>ok.
         Inr (if \<not> ok then [BadValue key]
              else if v = JStr ''redis'' \<and> \<not> en_redis_url env then [NeedsRedisUrl] else []))
     | REmbedding \<Rightarrow> Inr (case v of
           JNull \<Rightarrow> []
         | JStr s \<Rightarrow> map BadEmbedding (validate_embedding_selection env s)
         | _ \<Rightarrow> [BadValue key])
     | RInt bools lo hi \<Rightarrow> Inr (bad key (int_in bools lo hi v))
     | RNum bools strict lo hi \<Rightarrow> Inr (bad key (num_in bools strict lo hi v))
     | RKinds \<Rightarrow> Inr (bad key (case v of
           JList ks \<Rightarrow> list_all (\<lambda>k. is_pystr k \<and> as_str k \<in> set MEMORY_KINDS) ks | _ \<Rightarrow> False))
     | RChannels \<Rightarrow> Inr (case v of JDict d \<Rightarrow> concat (map (channel_errors env) d) | _ \<Rightarrow> [BadValue key])
     | RZone \<Rightarrow> Inr (bad key (nonempty_str v \<and> en_zone env (as_str v)))
     | RTimes \<Rightarrow> Inr (bad key (case v of JList ts \<Rightarrow> list_all is_hhmm ts | _ \<Rightarrow> False))
     | RPrices \<Rightarrow> Inr (validate_model_prices v)
     | RBool \<Rightarrow> Inr (bad key (is_pybool v))
     | RStr \<Rightarrow> Inr (bad key (is_pystr v))
     | RModel \<Rightarrow> Inr (bad key (v = JNull \<or> is_pystr v))
     | RParams \<Rightarrow> Inr (bad key (v = JNull \<or> is_dict v)))"

definition value_errors :: "settings_env \<Rightarrow> string \<times> json \<Rightarrow> py_exc + setting_error list" where
  "value_errors env kv = (case kv of (key, v) \<Rightarrow>
     if \<not> has_key DEFAULTS key then Inr [UnknownSetting key] else rule_errors env key (rule_of key) v)"

section \<open>Validation of an update\<close>

definition params_key :: "string \<Rightarrow> string" where
  "params_key model_key = model_key @ ''_params''"

definition validate_pair :: "settings_env \<Rightarrow> pydict \<Rightarrow> string \<Rightarrow> setting_error list" where
  "validate_pair env merged model_key =
     (let ref = dict_get merged model_key; raw = dict_get merged (params_key model_key)
      in case (if raw = JNull then Inr None
               else (case en_params env raw of Inl m \<Rightarrow> Inl m | Inr p \<Rightarrow> Inr (Some p))) of
           Inl m \<Rightarrow> [BadParams (params_key model_key) m]
         | Inr params \<Rightarrow>
             (if ref = JNull then if params \<noteq> None then [ParamsWithoutModel model_key] else []
              else if \<not> is_pystr ref then [BadValue model_key]
              else map (BadSelection model_key) (validate_model_selection env (as_str ref) params)))"

definition pair_of :: "string \<Rightarrow> string" where
  \<comment> \<open>\<open>k.removesuffix("_params")\<close> for a params key\<close>
  "pair_of k = (if k \<in> set PARAMS_KEYS then take (length k - 7) k else k)"

definition touched_pairs :: "pydict \<Rightarrow> string list" where
  "touched_pairs updates =
     remdups (map pair_of (filter (\<lambda>k. k \<in> set MODEL_KEYS \<or> k \<in> set PARAMS_KEYS) (map fst updates)))"

definition pair_errors :: "settings_env \<Rightarrow> pydict \<Rightarrow> string \<Rightarrow> setting_error list" where
  "pair_errors env merged model_key =
     (if dict_get merged model_key = JNull \<and> dict_get merged (params_key model_key) = JNull then []
      else validate_pair env merged model_key)"

definition validate_updates :: "settings_env \<Rightarrow> pydict \<Rightarrow> pydict \<Rightarrow> py_exc + setting_error list" where
  "validate_updates env current updates =
     bind_r (collect_r (value_errors env) updates) (\<lambda>errors.
       if errors \<noteq> [] then Inr errors
       else Inr (concat (map (pair_errors env (dict_merge current updates)) (touched_pairs updates))))"

section \<open>The store\<close>

definition get_settings :: "pydict \<Rightarrow> pydict" where
  \<comment> \<open>the stored rows over the defaults; a row of an unknown key is ignored\<close>
  "get_settings stored = foldl (\<lambda>m (k, v). if has_key m k then dict_set m k v else m) DEFAULTS stored"

definition get_setting :: "pydict \<Rightarrow> string \<Rightarrow> py_exc + json" where
  "get_setting stored key = (case map_of stored key of
       Some v \<Rightarrow> Inr v
     | None \<Rightarrow> (case map_of DEFAULTS key of Some v \<Rightarrow> Inr v | None \<Rightarrow> Inl KeyErr))"

datatype settings_effect = InvalidateSettings | ConfigureLogging json | ApplyOtlpEndpoint json | Backfill

datatype update_error = Raised py_exc | Invalid "setting_error list" | RedisUnreachable

definition update_effects :: "pydict \<Rightarrow> settings_effect list" where
  "update_effects updates = [InvalidateSettings]
     @ (if has_key updates ''log_level'' then [ConfigureLogging (dict_get updates ''log_level'')] else [])
     @ (if has_key updates ''otlp_endpoint'' then [ApplyOtlpEndpoint (dict_get updates ''otlp_endpoint'')] else [])
     @ (if has_key updates ''embedding_model'' \<or> has_key updates ''retrieval_enabled'' then [Backfill] else [])"

definition update_settings ::
    "settings_env \<Rightarrow> pydict \<Rightarrow> pydict \<Rightarrow> update_error + pydict \<times> settings_effect list" where
  "update_settings env stored updates =
     (case validate_updates env (get_settings stored) updates of
        Inl e \<Rightarrow> Inl (Raised e)
      | Inr errors \<Rightarrow>
          (if errors \<noteq> [] then Inl (Invalid errors)
           else if dict_get updates ''registry_cache_mode'' = JStr ''redis'' \<and> \<not> en_redis_up env
           then Inl RedisUnreachable
           else Inr (foldl (\<lambda>t (k, v). dict_set t k v) stored updates, update_effects updates)))"

section \<open>What the store holds\<close>

definition has_type :: "settings_env \<Rightarrow> rule \<Rightarrow> json \<Rightarrow> bool" where
  \<comment> \<open>what a reader of the setting may rely on\<close>
  "has_type env rule v \<longleftrightarrow> (case rule of
       REnum names \<Rightarrow> is_pystr v \<and> as_str v \<in> set names
     | RStrEnum names \<Rightarrow> is_pystr v \<and> as_str v \<in> set names
     | RCacheMode \<Rightarrow> v \<in> {JStr ''bypass'', JStr ''memory''} \<or> (v = JStr ''redis'' \<and> en_redis_url env)
     | REmbedding \<Rightarrow> v = JNull \<or> (is_pystr v \<and> validate_embedding_selection env (as_str v) = [])
     | RInt bools lo hi \<Rightarrow> int_in bools lo hi v
     | RNum bools strict lo hi \<Rightarrow> num_in bools strict lo hi v
     | RKinds \<Rightarrow> (case v of JList ks \<Rightarrow> list_all (\<lambda>k. is_pystr k \<and> as_str k \<in> set MEMORY_KINDS) ks | _ \<Rightarrow> False)
     | RChannels \<Rightarrow> (case v of
           JDict d \<Rightarrow> list_all (\<lambda>(mode, chans). mode \<in> set DELIVERY_MODES \<and>
             (case chans of JList cs \<Rightarrow> list_all (\<lambda>c. is_pystr c \<and> as_str c \<in> set (en_channels env)) cs | _ \<Rightarrow> False)) d
         | _ \<Rightarrow> False)
     | RZone \<Rightarrow> is_pystr v \<and> en_zone env (as_str v)
     | RTimes \<Rightarrow> (case v of JList ts \<Rightarrow> list_all is_hhmm ts | _ \<Rightarrow> False)
     | RPrices \<Rightarrow> (case v of
           JDict d \<Rightarrow> list_all (\<lambda>(ref, row). is_dict row \<and> amount_ok (dict_get (as_dict row) ''input_per_m'')
             \<and> amount_ok (dict_get (as_dict row) ''output_per_m'')) d
         | _ \<Rightarrow> False)
     | RBool \<Rightarrow> is_pybool v
     | RStr \<Rightarrow> is_pystr v
     | RModel \<Rightarrow> v = JNull \<or> is_pystr v
     | RParams \<Rightarrow> v = JNull \<or> is_dict v)"

lemma check_in_text: "check_in v names = Inr True \<Longrightarrow> is_pystr v \<and> as_str v \<in> set names"
  by (auto simp: check_in_def split: if_splits)

lemma bad_Nil [simp]: "bad key ok = [] \<longleftrightarrow> ok"
  by (simp add: bad_def)

lemma channel_errors_Nil:
  "channel_errors env (mode, chans) = [] \<Longrightarrow> mode \<in> set DELIVERY_MODES \<and>
    (case chans of JList cs \<Rightarrow> list_all (\<lambda>c. is_pystr c \<and> as_str c \<in> set (en_channels env)) cs | _ \<Rightarrow> False)"
  by (auto simp: channel_errors_def Let_def list_all_iff filter_empty_conv split: if_splits json.splits)

lemma price_errors_Nil:
  "price_errors (ref, row) = [] \<Longrightarrow> is_dict row \<and> amount_ok (dict_get (as_dict row) ''input_per_m'')
     \<and> amount_ok (dict_get (as_dict row) ''output_per_m'')"
  by (auto simp: price_errors_def split: if_splits)

lemma concat_map_Nil: "concat (map f xs) = [] \<longleftrightarrow> list_all (\<lambda>x. f x = []) xs"
  by (auto simp: list_all_iff)

lemma accepted_has_type: "rule_errors env key rule v = Inr [] \<Longrightarrow> has_type env rule v"
proof (cases rule)
  case (REnum names)
  assume "rule_errors env key rule v = Inr []"
  with REnum have "check_in v names = Inr True" by (auto simp: rule_errors_def bind_r_Inr)
  with REnum show ?thesis by (simp add: has_type_def check_in_text)
next
  case RCacheMode
  assume "rule_errors env key rule v = Inr []"
  with RCacheMode have "check_in v [''bypass'', ''memory'', ''redis''] = Inr True"
    and "v = JStr ''redis'' \<longrightarrow> en_redis_url env"
    by (auto simp: rule_errors_def bind_r_Inr split: if_splits)
  with RCacheMode show ?thesis by (auto simp: has_type_def check_in_def split: if_splits)
next
  case REmbedding
  assume "rule_errors env key rule v = Inr []"
  with REmbedding show ?thesis by (cases v) (auto simp: rule_errors_def has_type_def)
next
  case RChannels
  assume "rule_errors env key rule v = Inr []"
  with RChannels show ?thesis
    by (cases v) (auto simp: rule_errors_def has_type_def concat_map_Nil list_all_iff dest!: channel_errors_Nil
        simp del: concat_eq_Nil_conv)
next
  case RPrices
  assume "rule_errors env key rule v = Inr []"
  with RPrices show ?thesis
    by (cases v) (auto simp: rule_errors_def has_type_def validate_model_prices_def concat_map_Nil list_all_iff
        dest!: price_errors_Nil simp del: concat_eq_Nil_conv)
next
  case RZone
  assume "rule_errors env key rule v = Inr []"
  with RZone show ?thesis by (cases v) (auto simp: rule_errors_def has_type_def)
qed (auto simp: rule_errors_def has_type_def)

definition typed :: "settings_env \<Rightarrow> string \<times> json \<Rightarrow> bool" where
  "typed env kv \<longleftrightarrow> has_key DEFAULTS (fst kv) \<and> has_type env (rule_of (fst kv)) (snd kv)"

lemma accepted_typed: "value_errors env kv = Inr [] \<Longrightarrow> typed env kv"
  by (cases kv) (auto simp: value_errors_def typed_def split: if_splits dest: accepted_has_type)

lemma dict_set_all: "list_all P d \<Longrightarrow> P (k, v) \<Longrightarrow> list_all P (dict_set d k v)"
  by (induction d k v rule: dict_set.induct) auto

lemma get_settings_all:
  assumes "list_all P DEFAULTS" "list_all P stored"
  shows "list_all P (get_settings stored)"
proof -
  have "list_all P (foldl (\<lambda>m (k, v). if has_key m k then dict_set m k v else m) m stored)"
    if "list_all P m" for m
    using that assms(2)
  proof (induction stored arbitrary: m)
    case (Cons kv stored)
    obtain k v where kv: "kv = (k, v)" by (cases kv)
    have "list_all P (if has_key m k then dict_set m k v else m)"
      using Cons.prems kv by (simp add: dict_set_all)
    with Cons.IH Cons.prems(2) kv show ?case by simp
  qed simp
  with assms(1) show ?thesis by (simp add: get_settings_def)
qed

lemma get_settings_keys: "map fst (get_settings stored) = map fst DEFAULTS"
proof -
  have "map fst (foldl (\<lambda>m (k, v). if has_key m k then dict_set m k v else m) m stored) = map fst m" for m
    by (induction stored arbitrary: m)
      (auto simp: fst_dict_set has_key_def map_of_eq_None_iff split: if_splits)
  then show ?thesis by (simp add: get_settings_def)
qed

lemma defaults_distinct: "distinct (map fst DEFAULTS)"
  by code_simp

lemma pair_keys_known: "list_all (\<lambda>k. has_key DEFAULTS k \<and> has_key DEFAULTS (params_key k)) MODEL_KEYS"
  by code_simp

lemma defaults_typed:
  assumes "en_zone env ''UTC''"
  shows "list_all (typed env) DEFAULTS"
proof -
  have others: "list_all (\<lambda>(k, v). has_type env (rule_of k) v) (filter (\<lambda>(k, v). k \<noteq> ''ambient_timezone'') DEFAULTS)"
    by code_simp
  have zone: "has_type env (rule_of ''ambient_timezone'') (JStr ''UTC'') = en_zone env ''UTC''" by code_simp
  have "map_of DEFAULTS ''ambient_timezone'' = Some (JStr ''UTC'')" by code_simp
  then have "v = JStr ''UTC''" if "(''ambient_timezone'', v) \<in> set DEFAULTS" for v
    using map_of_is_SomeI[OF defaults_distinct that] by simp
  with zone assms have tz: "has_type env (rule_of ''ambient_timezone'') v"
    if "(''ambient_timezone'', v) \<in> set DEFAULTS" for v
    using that by simp
  show ?thesis unfolding list_all_iff
  proof
    fix kv assume kv: "kv \<in> set DEFAULTS"
    obtain k v where [simp]: "kv = (k, v)" by (cases kv)
    have "k = ''ambient_timezone'' \<or> has_type env (rule_of k) v" using others kv unfolding list_all_iff by fastforce
    with tz[of v] kv have "has_type env (rule_of k) v" by (cases "k = ''ambient_timezone''") simp_all
    moreover have "has_key DEFAULTS k" using map_of_is_SomeI[OF defaults_distinct] kv by (simp add: has_key_def)
    ultimately show "typed env kv" by (simp add: typed_def)
  qed
qed

definition apply_update :: "settings_env \<Rightarrow> pydict \<Rightarrow> pydict \<Rightarrow> pydict" where
  \<comment> \<open>the rows after a PATCH: a refused one changes nothing\<close>
  "apply_update env stored updates = (case update_settings env stored updates of
       Inl e \<Rightarrow> stored | Inr (stored', effects) \<Rightarrow> stored')"

lemma stored_all: "list_all P stored \<Longrightarrow> list_all P updates \<Longrightarrow> list_all P (foldl (\<lambda>t (k, v). dict_set t k v) stored updates)"
  by (induction updates arbitrary: stored) (auto simp: dict_set_all)

lemma validated_typed: "validate_updates env current updates = Inr [] \<Longrightarrow> list_all (typed env) updates"
  by (auto simp: validate_updates_def bind_r_Inr collect_r_Nil_iff list_all_iff accepted_typed split: if_splits)

lemma update_cases:
  obtains "apply_update env stored updates = stored"
    | "validate_updates env (get_settings stored) updates = Inr []"
      "apply_update env stored updates = foldl (\<lambda>t (k, v). dict_set t k v) stored updates"
proof (cases "validate_updates env (get_settings stored) updates")
  case (Inl e)
  then have "apply_update env stored updates = stored" by (simp add: apply_update_def update_settings_def)
  then show ?thesis by (rule that(1))
next
  case (Inr errors)
  show ?thesis
  proof (cases "errors \<noteq> [] \<or> (dict_get updates ''registry_cache_mode'' = JStr ''redis'' \<and> \<not> en_redis_up env)")
    case True
    with Inr have "apply_update env stored updates = stored" by (auto simp: apply_update_def update_settings_def)
    then show ?thesis by (rule that(1))
  next
    case False
    with Inr have "apply_update env stored updates = foldl (\<lambda>t (k, v). dict_set t k v) stored updates"
      by (auto simp: apply_update_def update_settings_def)
    with Inr False show ?thesis by (intro that(2)) auto
  qed
qed

interpretation store_typed: inv_system "apply_update env" "list_all (typed env)"
proof
  fix stored updates
  assume "list_all (typed env) stored"
  then show "list_all (typed env) (apply_update env stored updates)"
    by (cases rule: update_cases[of env stored updates]) (auto intro: stored_all validated_typed)
qed


definition example_env :: settings_env where
  "example_env = \<lparr>en_providers = [\<lparr>pv_id = ''p'', pv_configured = True,
       pv_models = [\<lparr>mi_id = ''m'', mi_supports_effort = True, mi_supports_temperature = False,
         mi_supports_max_output_tokens = True, mi_deprecated = False\<rparr>], pv_embeddings = False\<rparr>],
     en_params = (\<lambda>v. Inr \<lparr>cp_effort = None, cp_temperature = None, cp_max_output_tokens = None\<rparr>),
     en_zone = (\<lambda>z. z = ''UTC''), en_channels = [''in_app''], en_redis_url = False, en_redis_up = False\<rparr>"


lemma map_of_get_settings:
  assumes "distinct (map fst stored)"
  shows "map_of (get_settings stored) k =
     (if has_key DEFAULTS k then (case map_of stored k of Some v \<Rightarrow> Some v | None \<Rightarrow> map_of DEFAULTS k) else None)"
proof -
  have "map_of (foldl (\<lambda>m (k, v). if has_key m k then dict_set m k v else m) m stored) k =
      (if has_key m k then (case map_of stored k of Some v \<Rightarrow> Some v | None \<Rightarrow> map_of m k) else None)" for m
    using assms
  proof (induction stored arbitrary: m)
    case (Cons kv stored)
    obtain k' v where kv: "kv = (k', v)" by (cases kv)
    with Cons.prems have "map_of stored k' = None" by (simp add: map_of_eq_None_iff)
    with Cons kv show ?case by (auto simp: has_key_def split: option.splits)
  qed (auto simp: has_key_def)
  then show ?thesis by (simp add: get_settings_def)
qed

lemma foldl_dict_set:
  "distinct (map fst b) \<Longrightarrow> map_of (foldl (\<lambda>t (k, v). dict_set t k v) a b) = map_of a ++ map_of b"
  using map_of_dict_merge[of b a] by (simp add: dict_merge_def)

lemma foldl_dict_set_distinct:
  "distinct (map fst a) \<Longrightarrow> distinct (map fst (foldl (\<lambda>t (k, v). dict_set t k v) a b))"
  using distinct_dict_merge[of a b] by (simp add: dict_merge_def)

lemma validated_known:
  "validate_updates env current updates = Inr [] \<Longrightarrow> map_of updates k = Some v \<Longrightarrow> has_key DEFAULTS k"
  using validated_typed[of env current updates] by (auto simp: list_all_iff typed_def dest!: map_of_SomeD)

lemma read_after_update:
  assumes "distinct (map fst stored)" "distinct (map fst updates)"
    and "validate_updates env (get_settings stored) updates = Inr []"
  shows "map_of (get_settings (foldl (\<lambda>t (k, v). dict_set t k v) stored updates)) k
     = (case map_of updates k of Some v \<Rightarrow> Some v | None \<Rightarrow> map_of (get_settings stored) k)"
  using validated_known[OF assms(3), of k] assms(1,2)
  by (auto simp: map_of_get_settings foldl_dict_set foldl_dict_set_distinct map_add_def split: option.splits)

text \<open>
  An accepted update is read back as written by both readers, and every other setting reads
  as before; the effects of a write are its invalidation and those of the keys it names.
\<close>

theorem update_is_read_back:
  assumes "distinct (map fst stored)" "distinct (map fst updates)"
    and "update_settings env stored updates = Inr (stored', effects)"
  shows "dict_get (get_settings stored') key
       = (case map_of updates key of Some v \<Rightarrow> v | None \<Rightarrow> dict_get (get_settings stored) key)
     \<and> get_setting stored' key
       = (case map_of updates key of Some v \<Rightarrow> Inr v | None \<Rightarrow> get_setting stored key)
     \<and> hd effects = InvalidateSettings"
proof -
  have ok: "validate_updates env (get_settings stored) updates = Inr []"
    and st: "stored' = foldl (\<lambda>t (k, v). dict_set t k v) stored updates"
    and eff: "effects = update_effects updates"
    using assms(3) by (auto simp: update_settings_def split: sum.splits if_splits)
  have "dict_get (get_settings stored') key
      = (case map_of updates key of Some v \<Rightarrow> v | None \<Rightarrow> dict_get (get_settings stored) key)"
    unfolding st dict_get_def read_after_update[OF assms(1,2) ok] by (auto split: option.splits)
  moreover have "get_setting stored' key
      = (case map_of updates key of Some v \<Rightarrow> Inr v | None \<Rightarrow> get_setting stored key)"
    using assms(2) by (auto simp: st get_setting_def foldl_dict_set map_add_def split: option.splits)
  ultimately show ?thesis by (simp add: eff update_effects_def)
qed

corollary update_is_read_back_witness:
  "dict_get (get_settings [(''max_plan_steps'', JInt 9)]) ''max_plan_steps'' = JInt 9
   \<and> dict_get (get_settings [(''max_plan_steps'', JInt 9)]) ''max_parallel_dispatch'' = JInt 4"
proof -
  have "update_settings example_env [] [(''max_plan_steps'', JInt 9)]
      = Inr ([(''max_plan_steps'', JInt 9)], [InvalidateSettings])"
    by code_simp
  moreover have "dict_get (get_settings []) ''max_parallel_dispatch'' = JInt 4" by code_simp
  ultimately show ?thesis
    using update_is_read_back[of "[]" "[(''max_plan_steps'', JInt 9)]" example_env, where key = "''max_plan_steps''"]
      update_is_read_back[of "[]" "[(''max_plan_steps'', JInt 9)]" example_env, where key = "''max_parallel_dispatch''"]
    by simp
qed

lemma pair_keys:
  "list_all (\<lambda>k. k \<notin> set PARAMS_KEYS \<and> params_key k \<in> set PARAMS_KEYS) MODEL_KEYS"
  by code_simp

lemma pair_of_keys:
  assumes "mk \<in> set MODEL_KEYS"
  shows "pair_of mk = mk" "pair_of (params_key mk) = mk" "params_key mk \<in> set PARAMS_KEYS"
  using pair_keys assms by (auto simp: list_all_iff pair_of_def params_key_def)

lemma untouched_pair:
  assumes "mk \<in> set MODEL_KEYS" "mk \<notin> set (touched_pairs updates)"
  shows "map_of updates mk = None" "map_of updates (params_key mk) = None"
proof -
  have "mk \<notin> fst ` set updates" "params_key mk \<notin> fst ` set updates"
    using assms pair_of_keys[OF assms(1)] by (force simp: touched_pairs_def image_iff)+
  then show "map_of updates mk = None" "map_of updates (params_key mk) = None"
    by (simp_all add: map_of_eq_None_iff)
qed

lemma pair_errors_cong:
  "dict_get a mk = dict_get b mk \<Longrightarrow> dict_get a (params_key mk) = dict_get b (params_key mk) \<Longrightarrow>
   pair_errors env a mk = pair_errors env b mk"
  by (simp add: pair_errors_def validate_pair_def)

definition pair_sound :: "settings_env \<Rightarrow> pydict \<Rightarrow> string \<Rightarrow> bool" where
  \<comment> \<open>a model and its parameters are the defaults, or a selection the providers accept\<close>
  "pair_sound env settings mk \<longleftrightarrow>
     (dict_get settings mk = dict_get DEFAULTS mk
      \<and> dict_get settings (params_key mk) = dict_get DEFAULTS (params_key mk))
     \<or> pair_errors env settings mk = []"

definition pairs_inv :: "settings_env \<Rightarrow> pydict \<Rightarrow> bool" where
  "pairs_inv env stored \<longleftrightarrow> distinct (map fst stored) \<and> list_all (pair_sound env (get_settings stored)) MODEL_KEYS"

definition json_request :: "pydict \<Rightarrow> bool" where
  \<comment> \<open>a JSON object has each key once\<close>
  "json_request updates \<longleftrightarrow> distinct (map fst updates)"

definition apply_request :: "settings_env \<Rightarrow> pydict \<Rightarrow> pydict \<Rightarrow> pydict" where
  "apply_request env stored updates = (if json_request updates then apply_update env stored updates else stored)"

lemma pairs_inv_update:
  assumes inv: "pairs_inv env stored" and dist: "distinct (map fst updates)"
    and ok: "validate_updates env (get_settings stored) updates = Inr []"
  shows "pairs_inv env (foldl (\<lambda>t (k, v). dict_set t k v) stored updates)"
proof -
  let ?new = "get_settings (foldl (\<lambda>t (k, v). dict_set t k v) stored updates)"
  let ?merged = "dict_merge (get_settings stored) updates"
  have stored: "distinct (map fst stored)" using inv by (simp add: pairs_inv_def)
  note read = read_after_update[OF stored dist ok]
  have same: "dict_get ?new k = dict_get ?merged k" for k
    unfolding dict_get_def read map_of_dict_merge[OF dist] by (auto simp: map_add_def split: option.splits)
  have "pair_sound env ?new mk" if mk: "mk \<in> set MODEL_KEYS" for mk
  proof (cases "mk \<in> set (touched_pairs updates)")
    case True
    with ok have "pair_errors env ?merged mk = []"
      by (auto simp: validate_updates_def bind_r_Inr split: if_splits)
    then show ?thesis by (simp add: pair_sound_def pair_errors_cong[of ?new mk ?merged] same)
  next
    case False
    from untouched_pair[OF mk this]
    have "dict_get ?new mk = dict_get (get_settings stored) mk"
      "dict_get ?new (params_key mk) = dict_get (get_settings stored) (params_key mk)"
      unfolding dict_get_def read by simp_all
    moreover have "pair_sound env (get_settings stored) mk" using inv mk by (simp add: pairs_inv_def list_all_iff)
    ultimately show ?thesis by (simp add: pair_sound_def pair_errors_cong[of ?new mk "get_settings stored"])
  qed
  with stored show ?thesis by (simp add: pairs_inv_def foldl_dict_set_distinct list_all_iff)
qed

interpretation pairs: inv_system "apply_request env" "pairs_inv env"
proof
  fix stored updates
  assume inv: "pairs_inv env stored"
  show "pairs_inv env (apply_request env stored updates)"
  proof (cases "json_request updates")
    case True
    with inv show ?thesis
      by (cases rule: update_cases[of env stored updates])
        (simp_all add: apply_request_def json_request_def pairs_inv_update)
  qed (simp add: apply_request_def inv)
qed

text \<open>
  After any requests every model role holds its default or a reference the providers accept
  together with its parameters: a configured provider, a listed model that is not retired and no
  parameter the model does not support, also when model and parameters came in separate requests.
\<close>

theorem model_roles_stay_sound:
  "list_all (pair_sound env (get_settings (foldl (apply_request env) [] requests))) MODEL_KEYS"
proof -
  have "pairs_inv env []" by (simp add: pairs_inv_def pair_sound_def list_all_iff get_settings_def)
  from pairs.run_inv[OF this] show ?thesis by (simp add: pairs_inv_def)
qed

text \<open>
  The default model itself may be set to null, although every role falls back to it: the pair of
  two nulls is not validated.
\<close>

lemma default_model_null_accepted:
  "update_settings env [] [(''default_model'', JNull)] = Inr ([(''default_model'', JNull)], [InvalidateSettings])
   \<and> dict_get (get_settings [(''default_model'', JNull)]) ''default_model'' = JNull"
  by code_simp

text \<open>
  The pattern for times of day accepts hours up to 29.
\<close>

lemma hour_29_accepted:
  "update_settings env [] [(''ambient_quiet_hours'', JList [JStr ''22:00'', JStr ''29:00''])]
   = Inr ([(''ambient_quiet_hours'', JList [JStr ''22:00'', JStr ''29:00''])], [InvalidateSettings])"
  by code_simp

end
