(* ===== verification/Ambient_Events.thy ===== *)
theory Ambient_Events
  imports Prelude
begin

text \<open>
  The ambient event store (\<open>backend/app/ambient/store.py\<close>) and the drain (\<open>ambient/drain.py\<close>): the
  guarded append, and the claim, process, write-back and launch phases of \<open>drain_once\<close> as steps of
  any number of concurrent drains. Ids are numbers in allocation order; retention is left out, so
  rows are never deleted. What a processor decides is a parameter of the step that writes it.
\<close>

section \<open>The append\<close>

record amb_event =
  ev_id :: nat
  ev_kind :: string
  ev_source :: string
  ev_payload :: pydict
  ev_dedupe :: "string option"
  ev_routine :: "string option"
  ev_intent :: "string option"
  ev_causation :: "nat option"
  ev_correlation :: nat
  ev_depth :: nat
  ev_received :: instant
  ev_verdict :: "string option"
  ev_reason :: string
  ev_decision :: pydict
  ev_processed :: "instant option"

definition EVENT_SOURCES :: "string list" where
  "EVENT_SOURCES = [''schedule'', ''webhook'', ''poll'', ''internal'', ''wakeup'', ''presence'', ''pattern'', ''manual'']"

definition MAX_DEPTH :: nat where
  "MAX_DEPTH = 4"

definition RULE_KILL_SWITCH_PER_HOUR :: nat where
  "RULE_KILL_SWITCH_PER_HOUR = 50"

datatype emit_error =
    UnknownSource | AmbientDisabled | CascadeStopped nat | AlreadyInChain string | KillSwitch nat

fun walk_chain :: "nat \<Rightarrow> amb_event list \<Rightarrow> string \<Rightarrow> amb_event option \<Rightarrow> bool" where
  \<comment> \<open>the bounded loop of \<open>_routine_in_chain\<close>\<close>
  "walk_chain 0 evs routine current = False"
| "walk_chain (Suc n) evs routine None = False"
| "walk_chain (Suc n) evs routine (Some e) =
     (if ev_routine e = Some routine then True
      else (case ev_causation e of
          None \<Rightarrow> False
        | Some c \<Rightarrow> walk_chain n evs routine (row_get ev_id evs c)))"

definition routine_in_chain :: "amb_event list \<Rightarrow> amb_event \<Rightarrow> string \<Rightarrow> bool" where
  "routine_in_chain evs e routine = walk_chain (MAX_DEPTH + 1) evs routine (Some e)"

definition hour_count :: "string \<Rightarrow> instant \<Rightarrow> amb_event list \<Rightarrow> nat" where
  \<comment> \<open>the routine's events of the hour before \<open>now\<close>\<close>
  "hour_count routine now evs =
     length (filter (\<lambda>e. ev_routine e = Some routine \<and> now - secs 3600 \<le> ev_received e) evs)"

record emit_request =
  em_kind :: string
  em_source :: string
  em_payload :: pydict
  em_dedupe :: "string option"
  em_routine :: "string option"
  em_intent :: "string option"
  em_caused_by :: "amb_event option"

definition chain_guard :: "amb_event list \<Rightarrow> emit_request \<Rightarrow> emit_error option" where
  "chain_guard evs rq = (case em_caused_by rq of
       None \<Rightarrow> None
     | Some c \<Rightarrow>
         (let depth = ev_depth c + 1 in
          if MAX_DEPTH \<le> depth then Some (CascadeStopped depth)
          else (case em_routine rq of
              None \<Rightarrow> None
            | Some r \<Rightarrow> if routine_in_chain evs c r then Some (AlreadyInChain r) else None)))"

definition new_event :: "nat \<Rightarrow> instant \<Rightarrow> emit_request \<Rightarrow> amb_event" where
  "new_event eid now rq =
     \<lparr>ev_id = eid, ev_kind = em_kind rq, ev_source = em_source rq, ev_payload = em_payload rq,
      ev_dedupe = em_dedupe rq, ev_routine = em_routine rq, ev_intent = em_intent rq,
      ev_causation = map_option ev_id (em_caused_by rq),
      ev_correlation = (case em_caused_by rq of None \<Rightarrow> eid | Some c \<Rightarrow> ev_correlation c),
      ev_depth = (case em_caused_by rq of None \<Rightarrow> 0 | Some c \<Rightarrow> ev_depth c + 1),
      ev_received = now, ev_verdict = None, ev_reason = [], ev_decision = [], ev_processed = None\<rparr>"

definition deduped :: "amb_event list \<Rightarrow> emit_request \<Rightarrow> bool" where
  "deduped evs rq \<longleftrightarrow> (case em_dedupe rq of
       None \<Rightarrow> False | Some k \<Rightarrow> k \<noteq> [] \<and> list_ex (\<lambda>e. ev_dedupe e = Some k) evs)"

definition emit_amb_event ::
    "bool \<Rightarrow> nat \<Rightarrow> instant \<Rightarrow> emit_request \<Rightarrow> amb_event list \<Rightarrow> emit_error + amb_event option \<times> amb_event list" where
  "emit_amb_event enabled eid now rq evs =
     (if em_source rq \<notin> set EVENT_SOURCES then Inl UnknownSource
      else if \<not> enabled then Inl AmbientDisabled
      else (case chain_guard evs rq of
          Some e \<Rightarrow> Inl e
        | None \<Rightarrow>
            (if deduped evs rq then Inr (None, evs)
             else (case em_routine rq of
                 Some r \<Rightarrow> if RULE_KILL_SWITCH_PER_HOUR \<le> hour_count r now evs
                           then Inl (KillSwitch (hour_count r now evs))
                           else Inr (Some (new_event eid now rq), row_add (new_event eid now rq) evs)
               | None \<Rightarrow> Inr (Some (new_event eid now rq), row_add (new_event eid now rq) evs)))))"

section \<open>Cascade guards\<close>

text \<open>
  A table is well formed when ids are unique and every caused event names an earlier row one level
  above it. \<open>above evs e\<close> are the ancestors of an event; the depth bounds their number, so the
  bounded walk of the guard sees all of them.
\<close>

definition caused_ok :: "amb_event list \<Rightarrow> amb_event \<Rightarrow> bool" where
  "caused_ok evs e \<longleftrightarrow> (case ev_causation e of
       None \<Rightarrow> ev_depth e = 0
     | Some c \<Rightarrow> (case row_get ev_id evs c of
           None \<Rightarrow> False
         | Some p \<Rightarrow> ev_depth e = Suc (ev_depth p) \<and> ev_correlation e = ev_correlation p))"

fun ancestors :: "nat \<Rightarrow> amb_event list \<Rightarrow> amb_event \<Rightarrow> amb_event list" where
  \<comment> \<open>fuel: the depth\<close>
  "ancestors 0 evs e = []"
| "ancestors (Suc n) evs e = (case ev_causation e of
       None \<Rightarrow> []
     | Some c \<Rightarrow> (case row_get ev_id evs c of None \<Rightarrow> [] | Some p \<Rightarrow> p # ancestors n evs p))"

definition above :: "amb_event list \<Rightarrow> amb_event \<Rightarrow> amb_event list" where
  "above evs e = ancestors (ev_depth e) evs e"

definition chain_ok :: "amb_event list \<Rightarrow> amb_event \<Rightarrow> bool" where
  \<comment> \<open>the routines of an event and of what caused it are pairwise different\<close>
  "chain_ok evs e \<longleftrightarrow> distinct (List.map_filter ev_routine (e # above evs e))"

lemma row_get_in: "row_get ev_id evs c = Some p \<Longrightarrow> p \<in> set evs"
  by (auto dest: row_get_Some)

lemma above_parent:
  assumes "caused_ok evs e" "ev_causation e = Some c" "row_get ev_id evs c = Some p"
  shows "above evs e = p # above evs p"
  using assms by (simp add: above_def caused_ok_def)

lemma walk_chain_above:
  assumes "\<forall>e \<in> set evs. caused_ok evs e"
  shows "caused_ok evs e \<Longrightarrow> ev_depth e < n \<Longrightarrow>
    walk_chain n evs r (Some e) \<longleftrightarrow> r \<in> set (List.map_filter ev_routine (e # above evs e))"
proof (induction n arbitrary: e)
  case (Suc n)
  show ?case
  proof (cases "ev_causation e")
    case None
    with Suc.prems have "ev_depth e = 0" by (simp add: caused_ok_def)
    with None show ?thesis by (simp add: above_def List.map_filter_simps split: option.splits)
  next
    case (Some c)
    with Suc.prems obtain p where p: "row_get ev_id evs c = Some p" "ev_depth e = Suc (ev_depth p)"
      by (auto simp: caused_ok_def split: option.splits)
    with assms have "caused_ok evs p" by (auto dest: row_get_in)
    with Suc.IH[of p] Suc.prems p above_parent[OF Suc.prems(1) Some p(1)] Some show ?thesis
      by (auto simp: List.map_filter_simps split: option.splits)
  qed
qed simp

lemma row_get_kept: "row_get ev_id evs c = Some p \<Longrightarrow> row_get ev_id (row_add r evs) c = Some p"
  by (simp add: row_simps)

lemma caused_ok_add: "caused_ok evs e \<Longrightarrow> caused_ok (row_add r evs) e"
  by (auto simp: caused_ok_def row_get_kept split: option.splits)

lemma ancestors_add:
  assumes "\<forall>e \<in> set evs. caused_ok evs e"
  shows "caused_ok evs e \<Longrightarrow> ancestors n (row_add r evs) e = ancestors n evs e"
proof (induction n arbitrary: e)
  case (Suc n)
  show ?case
  proof (cases "ev_causation e")
    case (Some c)
    with Suc.prems obtain p where p: "row_get ev_id evs c = Some p"
      by (auto simp: caused_ok_def split: option.splits)
    with assms have "caused_ok evs p" by (auto dest: row_get_in)
    with Some p Suc.IH[of p] show ?thesis by (simp add: row_get_kept)
  qed simp
qed simp

lemma chain_ok_add:
  assumes "\<forall>e \<in> set evs. caused_ok evs e" "caused_ok evs e"
  shows "chain_ok (row_add r evs) e = chain_ok evs e"
  using ancestors_add[OF assms] by (simp add: chain_ok_def above_def)

definition table_ok :: "amb_event list \<Rightarrow> bool" where
  "table_ok evs \<longleftrightarrow> map ev_id evs = [0..<length evs]
     \<and> (\<forall>e \<in> set evs. caused_ok evs e \<and> ev_depth e < MAX_DEPTH \<and> chain_ok evs e)"

lemma fresh_id: "map ev_id evs = [0..<length evs] \<Longrightarrow> row_get ev_id evs (length evs) = None"
proof -
  assume "map ev_id evs = [0..<length evs]"
  then have "ev_id ` set evs = {0..<length evs}" by (metis set_map set_upt)
  then show ?thesis by (force simp: row_get_None)
qed

lemma table_ok_emit:
  assumes ok: "table_ok evs" and parent: "\<And>c. em_caused_by rq = Some c \<Longrightarrow> row_get ev_id evs (ev_id c) = Some c"
    and guard: "chain_guard evs rq = None"
  shows "table_ok (row_add (new_event (length evs) now rq) evs)"
proof -
  let ?n = "new_event (length evs) now rq"
  let ?evs = "row_add ?n evs"
  have ids: "map ev_id evs = [0..<length evs]" and all: "\<forall>e \<in> set evs. caused_ok evs e"
    using ok by (simp_all add: table_ok_def)
  have new: "caused_ok ?evs ?n \<and> ev_depth ?n < MAX_DEPTH \<and> chain_ok ?evs ?n"
  proof (cases "em_caused_by rq")
    case None
    then show ?thesis
      by (simp add: caused_ok_def new_event_def MAX_DEPTH_def chain_ok_def above_def List.map_filter_simps
          split: option.splits)
  next
    case (Some c)
    note par = parent[OF Some]
    have c: "caused_ok evs c" "chain_ok evs c" "c \<in> set evs"
      using ok par by (auto simp: table_ok_def dest: row_get_in)
    have co: "caused_ok ?evs ?n" using Some par by (simp add: caused_ok_def new_event_def row_get_kept)
    have depth: "ev_depth ?n < MAX_DEPTH" using guard Some by (simp add: chain_guard_def new_event_def split: if_splits)
    have ab: "above ?evs ?n = c # above evs c"
      using above_parent[OF co, of "ev_id c" c] Some par ancestors_add[OF all c(1)]
      by (simp add: new_event_def row_get_kept above_def)
    have "r \<notin> set (List.map_filter ev_routine (c # above evs c))" if "em_routine rq = Some r" for r
    proof -
      have "\<not> walk_chain (MAX_DEPTH + 1) evs r (Some c)"
        using guard Some that by (auto simp: chain_guard_def routine_in_chain_def split: if_splits)
      moreover have "ev_depth c < MAX_DEPTH + 1" using ok c(3) by (fastforce simp: table_ok_def)
      ultimately show ?thesis using walk_chain_above[OF all c(1)] by blast
    qed
    then have "chain_ok ?evs ?n"
      using c(2) unfolding chain_ok_def ab
      by (auto simp: List.map_filter_simps new_event_def split: option.splits)
    with co depth show ?thesis by simp
  qed
  have "map ev_id ?evs = [0..<length ?evs]" using ids by (simp add: row_add_def new_event_def)
  moreover have "caused_ok ?evs e \<and> ev_depth e < MAX_DEPTH \<and> chain_ok ?evs e" if "e \<in> set evs" for e
  proof -
    have "caused_ok evs e" "ev_depth e < MAX_DEPTH" "chain_ok evs e" using ok that by (auto simp: table_ok_def)
    then show ?thesis by (simp add: caused_ok_add chain_ok_add[OF all])
  qed
  ultimately show ?thesis using new by (auto simp: table_ok_def)
qed

section \<open>The drain\<close>

definition RECLAIM_AFTER_S :: int where
  "RECLAIM_AFTER_S = 600"

definition EVALUATOR_TIMEOUT_S :: int where
  "EVALUATOR_TIMEOUT_S = 60"

record drain =
  dr_id :: nat
  dr_since :: instant
  dr_todo :: "nat list"
  dr_fired :: "nat list"          \<comment> \<open>\<open>to_execute\<close>\<close>

record plane =
  pl_now :: instant
  pl_events :: "amb_event list"
  pl_drains :: "drain list"
  pl_launched :: "nat list"       \<comment> \<open>executor tasks started, in order\<close>

datatype proc_outcome = NoVerdict | Verdict string string | Decided string string pydict

definition claimable :: "instant \<Rightarrow> amb_event \<Rightarrow> bool" where
  "claimable now e \<longleftrightarrow> ev_verdict e = None
     \<or> (ev_verdict e = Some ''processing''
        \<and> (case ev_processed e of None \<Rightarrow> False | Some t \<Rightarrow> t \<le> now - secs RECLAIM_AFTER_S))"

definition claim_ids :: "instant \<Rightarrow> nat \<Rightarrow> amb_event list \<Rightarrow> nat list" where
  "claim_ids now limit evs = map ev_id (take limit (sort_key ev_received (filter (claimable now) evs)))"

definition mark_processing :: "instant \<Rightarrow> nat list \<Rightarrow> amb_event list \<Rightarrow> amb_event list" where
  "mark_processing now ids evs =
     map (\<lambda>e. if ev_id e \<in> set ids then e\<lparr>ev_verdict := Some ''processing'', ev_processed := Some now\<rparr> else e) evs"

definition write_verdict :: "instant \<Rightarrow> proc_outcome \<Rightarrow> amb_event \<Rightarrow> amb_event" where
  "write_verdict now oc e = (case oc of
       NoVerdict \<Rightarrow> e\<lparr>ev_verdict := None, ev_processed := None\<rparr>
     | Verdict v r \<Rightarrow> e\<lparr>ev_verdict := Some v, ev_reason := r, ev_processed := Some now\<rparr>
     | Decided v r d \<Rightarrow> e\<lparr>ev_verdict := Some v, ev_reason := r, ev_decision := d, ev_processed := Some now\<rparr>)"

definition fires :: "proc_outcome \<Rightarrow> bool" where
  "fires oc \<longleftrightarrow> (case oc of Decided v r d \<Rightarrow> v = ''fired'' \<and> truthy (dict_get d ''fired_for'') | _ \<Rightarrow> False)"

definition begin_drain_pass :: "nat \<Rightarrow> nat \<Rightarrow> plane \<Rightarrow> plane" where
  "begin_drain_pass did limit s =
     (let ids = claim_ids (pl_now s) limit (pl_events s)
      in s\<lparr>pl_events := mark_processing (pl_now s) ids (pl_events s),
           pl_drains := pl_drains s @ [\<lparr>dr_id = did, dr_since = pl_now s, dr_todo = ids, dr_fired = []\<rparr>]\<rparr>)"

definition write_back :: "drain \<Rightarrow> proc_outcome \<Rightarrow> plane \<Rightarrow> plane" where
  "write_back d oc s = (case dr_todo d of
       [] \<Rightarrow> s
     | i # rest \<Rightarrow>
         s\<lparr>pl_events := row_upd ev_id i (write_verdict (pl_now s) oc) (pl_events s),
           pl_drains := row_upd dr_id (dr_id d)
             (\<lambda>d. d\<lparr>dr_todo := rest, dr_fired := dr_fired d @ (if fires oc then [i] else [])\<rparr>) (pl_drains s)\<rparr>)"

definition end_drain_pass :: "drain \<Rightarrow> plane \<Rightarrow> plane" where
  "end_drain_pass d s = s\<lparr>pl_launched := pl_launched s @ dr_fired d, pl_drains := row_del dr_id (dr_id d) (pl_drains s)\<rparr>"

definition time_passes :: "instant \<Rightarrow> plane \<Rightarrow> plane" where
  \<comment> \<open>\<open>run_evaluator\<close> cancels a pass that outlives its timeout\<close>
  "time_passes now s = (let t = max now (pl_now s) in
     s\<lparr>pl_now := t, pl_drains := filter (\<lambda>d. t - dr_since d \<le> secs EVALUATOR_TIMEOUT_S) (pl_drains s)\<rparr>)"

datatype plane_event =
    Emits bool emit_request "nat option"     \<comment> \<open>the id of the causing event, which the emitter loaded\<close>
  | Claims nat nat
  | Processes nat proc_outcome
  | Finishes nat
  | Dies nat

definition emit_step :: "bool \<Rightarrow> emit_request \<Rightarrow> nat option \<Rightarrow> plane \<Rightarrow> plane" where
  "emit_step enabled rq cause s =
     (let rq' = rq\<lparr>em_caused_by := Option.bind cause (row_get ev_id (pl_events s))\<rparr>
      in case emit_amb_event enabled (length (pl_events s)) (pl_now s) rq' (pl_events s) of
           Inl e \<Rightarrow> s | Inr (_, evs) \<Rightarrow> s\<lparr>pl_events := evs\<rparr>)"

fun plane_act :: "plane \<Rightarrow> plane_event \<Rightarrow> plane" where
  "plane_act s (Emits enabled rq cause) = emit_step enabled rq cause s"
| "plane_act s (Claims did limit) =
     (if row_get dr_id (pl_drains s) did = None then begin_drain_pass did limit s else s)"
| "plane_act s (Processes did oc) =
     (case row_get dr_id (pl_drains s) did of None \<Rightarrow> s | Some d \<Rightarrow> write_back d oc s)"
| "plane_act s (Finishes did) =
     (case row_get dr_id (pl_drains s) did of
        None \<Rightarrow> s | Some d \<Rightarrow> if dr_todo d = [] then end_drain_pass d s else s)"
| "plane_act s (Dies did) = s\<lparr>pl_drains := row_del dr_id did (pl_drains s)\<rparr>"

definition plane_step :: "plane \<Rightarrow> instant \<times> plane_event \<Rightarrow> plane" where
  "plane_step s te = plane_act (time_passes (fst te) s) (snd te)"

definition plane_init :: plane where
  "plane_init = \<lparr>pl_now = 0, pl_events = [], pl_drains = [], pl_launched = []\<rparr>"

section \<open>What the table keeps\<close>

definition rate_ok :: "amb_event list \<Rightarrow> bool" where
  \<comment> \<open>each event of a routine found fewer than fifty of the hour before it\<close>
  "rate_ok evs \<longleftrightarrow> (\<forall>xs e ys r. evs = xs @ e # ys \<longrightarrow> ev_routine e = Some r \<longrightarrow>
     hour_count r (ev_received e) xs < RULE_KILL_SWITCH_PER_HOUR)"

definition dedupe_keys :: "amb_event list \<Rightarrow> string list" where
  "dedupe_keys evs = filter (\<lambda>k. k \<noteq> []) (List.map_filter ev_dedupe evs)"

definition store_ok :: "amb_event list \<Rightarrow> bool" where
  "store_ok evs \<longleftrightarrow> table_ok evs \<and> rate_ok evs \<and> distinct (dedupe_keys evs)"

definition keeps_origin :: "(amb_event \<Rightarrow> amb_event) \<Rightarrow> bool" where
  \<comment> \<open>an update of the verdict leaves the rest of an event alone\<close>
  "keeps_origin f \<longleftrightarrow> (\<forall>e. ev_id (f e) = ev_id e \<and> ev_routine (f e) = ev_routine e
     \<and> ev_causation (f e) = ev_causation e \<and> ev_correlation (f e) = ev_correlation e
     \<and> ev_depth (f e) = ev_depth e \<and> ev_received (f e) = ev_received e \<and> ev_dedupe (f e) = ev_dedupe e)"

lemma keeps_originD:
  assumes "keeps_origin f"
  shows "ev_id (f e) = ev_id e" "ev_routine (f e) = ev_routine e" "ev_causation (f e) = ev_causation e"
    "ev_correlation (f e) = ev_correlation e" "ev_depth (f e) = ev_depth e" "ev_received (f e) = ev_received e"
    "ev_dedupe (f e) = ev_dedupe e"
  using assms by (simp_all add: keeps_origin_def)

lemma row_get_map: "keeps_origin f \<Longrightarrow> row_get ev_id (map f evs) c = map_option f (row_get ev_id evs c)"
  by (induction evs) (simp_all add: row_simps keeps_originD)

lemma map_filter_map: "(\<And>x. g (f x) = g x) \<Longrightarrow> List.map_filter g (map f xs) = List.map_filter g xs"
  by (induction xs) (auto simp: List.map_filter_simps split: option.splits)

lemma caused_ok_map: "keeps_origin f \<Longrightarrow> caused_ok (map f evs) (f e) = caused_ok evs e"
  by (auto simp: caused_ok_def keeps_originD row_get_map split: option.splits)

lemma ancestors_map: "keeps_origin f \<Longrightarrow> ancestors n (map f evs) (f e) = map f (ancestors n evs e)"
  by (induction n arbitrary: e) (auto simp: keeps_originD row_get_map split: option.splits)

lemma chain_ok_map: "keeps_origin f \<Longrightarrow> chain_ok (map f evs) (f e) = chain_ok evs e"
proof -
  assume f: "keeps_origin f"
  then have "f e # above (map f evs) (f e) = map f (e # above evs e)"
    by (simp add: above_def ancestors_map keeps_originD)
  then show ?thesis unfolding chain_ok_def by (metis (no_types) keeps_originD(2)[OF f] map_filter_map)
qed

lemma hour_count_map: "keeps_origin f \<Longrightarrow> hour_count r now (map f evs) = hour_count r now evs"
  unfolding hour_count_def by (induction evs) (simp_all add: keeps_originD)

lemma store_ok_map:
  assumes f: "keeps_origin f" and ok: "store_ok evs"
  shows "store_ok (map f evs)"
proof -
  have "map ev_id (map f evs) = map ev_id evs" by (simp add: keeps_originD[OF f])
  then have "table_ok (map f evs)"
    using ok unfolding store_ok_def table_ok_def
    by (auto simp: caused_ok_map[OF f] chain_ok_map[OF f] keeps_originD[OF f])
  moreover have "rate_ok (map f evs)"
    unfolding rate_ok_def
  proof (intro allI impI)
    fix xs e ys r
    assume "map f evs = xs @ e # ys" "ev_routine e = Some r"
    then obtain xs' e' ys' where "evs = xs' @ e' # ys'" "xs = map f xs'" "e = f e'"
      by (auto simp: map_eq_append_conv map_eq_Cons_conv)
    with ok \<open>ev_routine e = Some r\<close> show "hour_count r (ev_received e) xs < RULE_KILL_SWITCH_PER_HOUR"
      by (simp add: store_ok_def rate_ok_def hour_count_map[OF f] keeps_originD[OF f])
  qed
  moreover have "dedupe_keys (map f evs) = dedupe_keys evs"
    unfolding dedupe_keys_def by (simp add: map_filter_map keeps_originD[OF f])
  ultimately show ?thesis using ok by (simp add: store_ok_def)
qed

lemma map_filter_snoc: "List.map_filter f (xs @ [x]) = List.map_filter f xs @ (case f x of None \<Rightarrow> [] | Some y \<Rightarrow> [y])"
  by (induction xs) (auto simp: List.map_filter_simps split: option.splits)

lemma store_ok_add:
  assumes ok: "store_ok evs" and parent: "\<And>c. em_caused_by rq = Some c \<Longrightarrow> row_get ev_id evs (ev_id c) = Some c"
    and emit: "emit_amb_event enabled (length evs) now rq evs = Inr (res, evs')"
  shows "store_ok evs'"
proof (cases "deduped evs rq")
  case True
  with emit ok show ?thesis by (auto simp: emit_amb_event_def split: if_splits option.splits)
next
  case False
  let ?n = "new_event (length evs) now rq"
  from emit False have guard: "chain_guard evs rq = None" and evs': "evs' = row_add ?n evs"
    and rate: "\<And>r. em_routine rq = Some r \<Longrightarrow> hour_count r now evs < RULE_KILL_SWITCH_PER_HOUR"
    by (auto simp: emit_amb_event_def split: if_splits option.splits)
  have "table_ok evs'" unfolding evs' by (rule table_ok_emit) (use ok parent guard in \<open>auto simp: store_ok_def\<close>)
  moreover have "rate_ok evs'"
    unfolding rate_ok_def
  proof (intro allI impI)
    fix xs e ys r
    assume split: "evs' = xs @ e # ys" and r: "ev_routine e = Some r"
    show "hour_count r (ev_received e) xs < RULE_KILL_SWITCH_PER_HOUR"
    proof (cases "ys = []")
      case True
      have "evs @ [?n] = xs @ [e]" using split unfolding evs' row_add_def True by (simp only:)
      then have eqs: "evs = xs \<and> ?n = e" by (rule iffD1[OF append1_eq_conv])
      then have "em_routine rq = Some r" "ev_received e = now" using r by (auto simp: new_event_def)
      with rate eqs show ?thesis by simp
    next
      case False
      then obtain zs z where "ys = zs @ [z]" by (meson rev_exhaust)
      with split have "evs = xs @ e # zs" by (simp add: evs' row_add_def)
      with ok r show ?thesis by (auto simp: store_ok_def rate_ok_def)
    qed
  qed
  moreover have "distinct (dedupe_keys evs')"
    using ok False
    by (auto simp: evs' row_add_def dedupe_keys_def map_filter_snoc store_ok_def new_event_def deduped_def
        in_map_filter list_ex_iff split: option.splits if_splits)
  ultimately show ?thesis by (simp add: store_ok_def)
qed

lemma window_bound:
  "rate_ok evs \<Longrightarrow> length (filter (\<lambda>e. ev_routine e = Some r \<and> t - secs 3600 \<le> ev_received e \<and> ev_received e \<le> t) evs)
     \<le> RULE_KILL_SWITCH_PER_HOUR"
proof (induction evs rule: rev_induct)
  case (snoc e evs)
  have prev: "rate_ok evs" using snoc.prems unfolding rate_ok_def by (metis append_Cons append_assoc)
  show ?case
  proof (cases "ev_routine e = Some r \<and> t - secs 3600 \<le> ev_received e \<and> ev_received e \<le> t")
    case True
    have "length (filter (\<lambda>e. ev_routine e = Some r \<and> t - secs 3600 \<le> ev_received e \<and> ev_received e \<le> t) evs)
        \<le> hour_count r (ev_received e) evs"
    proof -
      have "set (filter P xs) \<subseteq> set (filter Q xs) \<and> length (filter P xs) \<le> length (filter Q xs)"
        if "\<And>x. P x \<Longrightarrow> Q x" for P Q and xs :: "amb_event list"
        using that by (induction xs) auto
      then show ?thesis unfolding hour_count_def using True by fastforce
    qed
    moreover have "hour_count r (ev_received e) evs < RULE_KILL_SWITCH_PER_HOUR"
      using snoc.prems True unfolding rate_ok_def by blast
    ultimately show ?thesis using True by simp
  next
    case False
    then have "filter (\<lambda>e. ev_routine e = Some r \<and> t - secs 3600 \<le> ev_received e \<and> ev_received e \<le> t) [e] = []"
      by (simp only: filter.simps if_False)
    then show ?thesis using snoc.IH[OF prev] by (simp only: filter_append append_Nil2)
  qed
qed simp

lemma keeps_origin_mark: "keeps_origin (\<lambda>e. if ev_id e \<in> set ids then e\<lparr>ev_verdict := v, ev_processed := t\<rparr> else e)"
  by (simp add: keeps_origin_def)

lemma keeps_origin_write: "keeps_origin (\<lambda>e. if ev_id e = i then write_verdict now oc e else e)"
  by (simp add: keeps_origin_def write_verdict_def split: proc_outcome.splits)

lemma store_ok_act: "store_ok (pl_events s) \<Longrightarrow> store_ok (pl_events (plane_act s e))"
proof (cases e)
  case (Emits enabled rq cause)
  assume ok: "store_ok (pl_events s)"
  let ?rq = "rq\<lparr>em_caused_by := Option.bind cause (row_get ev_id (pl_events s))\<rparr>"
  have par: "row_get ev_id (pl_events s) (ev_id c) = Some c" if "em_caused_by ?rq = Some c" for c
    using that by (auto simp: bind_eq_Some_conv dest: row_get_Some)
  show ?thesis
  proof (cases "emit_amb_event enabled (length (pl_events s)) (pl_now s) ?rq (pl_events s)")
    case (Inr p)
    obtain res evs' where "p = (res, evs')" by (cases p)
    with Inr store_ok_add[OF ok, of ?rq] par show ?thesis by (simp add: Emits emit_step_def Let_def)
  qed (use ok in \<open>simp add: Emits emit_step_def Let_def\<close>)
next
  case (Claims did limit)
  assume "store_ok (pl_events s)"
  then show ?thesis
    using store_ok_map[OF keeps_origin_mark] by (simp add: Claims begin_drain_pass_def mark_processing_def Let_def)
next
  case (Processes did oc)
  assume "store_ok (pl_events s)"
  then show ?thesis
    using store_ok_map[OF keeps_origin_write]
    by (auto simp: Processes write_back_def row_upd_def split: option.splits list.splits)
qed (auto simp: end_drain_pass_def split: option.splits)

interpretation event_store: inv_system plane_step "\<lambda>s. store_ok (pl_events s)"
proof
  show "store_ok (pl_events (plane_step s te))" if "store_ok (pl_events s)" for s te
    using that by (simp add: plane_step_def store_ok_act time_passes_def Let_def)
qed

lemma store_ok_init: "store_ok (pl_events plane_init)"
  by (simp add: plane_init_def store_ok_def table_ok_def rate_ok_def dedupe_keys_def List.map_filter_simps)

text \<open>
  Cascades are bounded whatever is emitted and however drains interleave: every caused event
  names an existing one a level above it in the same correlation, no chain is deeper than the
  ceiling, no routine occurs twice in a chain, no dedupe key is stored twice, and in no hour more
  than fifty events are stored for one routine.
\<close>

theorem cascades_are_bounded:
  fixes es
  defines "evs \<equiv> pl_events (foldl plane_step plane_init es)"
  shows "list_all (\<lambda>e. caused_ok evs e \<and> ev_depth e < MAX_DEPTH \<and> length (above evs e) = ev_depth e
       \<and> distinct (List.map_filter ev_routine (e # above evs e))) evs
     \<and> distinct (dedupe_keys evs)
     \<and> length (filter (\<lambda>e. ev_routine e = Some r \<and> t - secs 3600 \<le> ev_received e \<and> ev_received e \<le> t) evs)
         \<le> RULE_KILL_SWITCH_PER_HOUR"
proof -
  have ok: "store_ok evs"
    unfolding evs_def by (rule event_store.run_inv) (rule store_ok_init)
  then have all: "\<forall>e \<in> set evs. caused_ok evs e" by (simp add: store_ok_def table_ok_def)
  have "length (ancestors n evs e) = n" if "caused_ok evs e" "ev_depth e = n" for n e
    using that
  proof (induction n arbitrary: e)
    case (Suc n)
    then obtain c p where "ev_causation e = Some c" "row_get ev_id evs c = Some p" "ev_depth p = n"
      by (auto simp: caused_ok_def split: option.splits)
    with Suc.IH[of p] all show ?case by (auto dest: row_get_in)
  qed simp
  with ok all window_bound show ?thesis
    by (auto simp: store_ok_def table_ok_def chain_ok_def above_def list_all_iff)
qed

section \<open>Which drain holds an event\<close>

text \<open>
  \<open>held\<close> are the events some live drain has claimed or is to launch, and those already launched.
  No event occurs in it twice: a claim takes only pending rows and claims older than the reclaim
  age, and the evaluator timeout ends a drain long before its claims are that old.
\<close>

definition held :: "plane \<Rightarrow> nat list" where
  "held s = concat (map (\<lambda>d. dr_todo d @ dr_fired d) (pl_drains s)) @ pl_launched s"

definition ev_fired :: "amb_event list \<Rightarrow> nat \<Rightarrow> bool" where
  "ev_fired evs i \<longleftrightarrow> (case row_get ev_id evs i of None \<Rightarrow> False | Some e \<Rightarrow> ev_verdict e = Some ''fired'')"

definition ev_claimed :: "instant \<Rightarrow> amb_event list \<Rightarrow> nat \<Rightarrow> bool" where
  "ev_claimed since evs i \<longleftrightarrow> (case row_get ev_id evs i of
       None \<Rightarrow> False | Some e \<Rightarrow> ev_verdict e = Some ''processing'' \<and> ev_processed e = Some since)"

definition drain_live :: "instant \<Rightarrow> amb_event list \<Rightarrow> drain \<Rightarrow> bool" where
  "drain_live now evs d \<longleftrightarrow> now - dr_since d \<le> secs EVALUATOR_TIMEOUT_S
     \<and> (\<forall>i \<in> set (dr_todo d). ev_claimed (dr_since d) evs i) \<and> (\<forall>i \<in> set (dr_fired d). ev_fired evs i)"

definition drains_ok :: "plane \<Rightarrow> bool" where
  "drains_ok s \<longleftrightarrow> store_ok (pl_events s) \<and> distinct (map dr_id (pl_drains s)) \<and> distinct (held s)
     \<and> (\<forall>d \<in> set (pl_drains s). drain_live (pl_now s) (pl_events s) d)
     \<and> (\<forall>i \<in> set (pl_launched s). ev_fired (pl_events s) i)"

lemma distinct_concat_filter:
  "distinct (concat (map f xs) @ ys) \<Longrightarrow> distinct (concat (map f (filter P xs)) @ ys)"
  by (induction xs) auto

lemma set_mark: "row_get ev_id (mark_processing now ids evs) i =
    map_option (\<lambda>e. if i \<in> set ids then e\<lparr>ev_verdict := Some ''processing'', ev_processed := Some now\<rparr> else e)
      (row_get ev_id evs i)"
  unfolding mark_processing_def by (induction evs) (auto simp: row_simps)

lemma claimed_are_claimable:
  assumes "distinct (map ev_id evs)" "i \<in> set (claim_ids now limit evs)"
  shows "\<exists>e. row_get ev_id evs i = Some e \<and> claimable now e"
proof -
  from assms(2) obtain e where e: "e \<in> set evs" "claimable now e" "ev_id e = i"
    unfolding claim_ids_def by (auto dest!: in_set_takeD)
  have "row_get ev_id evs (ev_id e) = Some e"
    using assms(1) e(1) by (induction evs) (auto simp: row_simps)
  with e show ?thesis by auto
qed

lemma distinct_claim_ids:
  assumes "distinct (map ev_id evs)"
  shows "distinct (claim_ids now limit evs)"
proof -
  have "distinct (map ev_id (sort_key ev_received (filter (claimable now) evs)))"
    using distinct_map_filter[OF assms] by (simp add: distinct_map)
  then show ?thesis unfolding claim_ids_def take_map[symmetric] by (rule distinct_take)
qed

lemma fired_not_claimable: "ev_fired evs i \<Longrightarrow> row_get ev_id evs i = Some e \<Longrightarrow> \<not> claimable now e"
  by (auto simp: ev_fired_def claimable_def)

lemma claimed_not_claimable:
  "ev_claimed t evs i \<Longrightarrow> now - t \<le> secs EVALUATOR_TIMEOUT_S \<Longrightarrow> row_get ev_id evs i = Some e \<Longrightarrow> \<not> claimable now e"
  by (auto simp: ev_claimed_def claimable_def RECLAIM_AFTER_S_def EVALUATOR_TIMEOUT_S_def secs_def)

lemma ids_distinct: "store_ok evs \<Longrightarrow> distinct (map ev_id evs)"
  by (simp add: store_ok_def table_ok_def)

lemma held_not_claimable:
  assumes "drains_ok s" "i \<in> set (held s)" "row_get ev_id (pl_events s) i = Some e"
  shows "\<not> claimable (pl_now s) e"
  using assms fired_not_claimable claimed_not_claimable
  unfolding drains_ok_def held_def drain_live_def by fastforce

lemma ev_fired_emit: "ev_fired evs i \<Longrightarrow> ev_fired (row_add r evs) i"
  by (auto simp: ev_fired_def row_simps split: option.splits)

lemma ev_claimed_emit: "ev_claimed t evs i \<Longrightarrow> ev_claimed t (row_add r evs) i"
  by (auto simp: ev_claimed_def row_simps split: option.splits)

lemma emit_step_events:
  "\<exists>evs'. emit_step enabled rq cause s = s\<lparr>pl_events := evs'\<rparr> \<and> (evs' = pl_events s \<or> (\<exists>r. evs' = row_add r (pl_events s)))"
proof -
  let ?rq = "rq\<lparr>em_caused_by := Option.bind cause (row_get ev_id (pl_events s))\<rparr>"
  show ?thesis
  proof (cases "emit_amb_event enabled (length (pl_events s)) (pl_now s) ?rq (pl_events s)")
    case (Inl e)
    then show ?thesis by (intro exI[of _ "pl_events s"]) (simp add: emit_step_def Let_def)
  next
    case (Inr p)
    obtain res evs' where p: "p = (res, evs')" by (cases p)
    from Inr have "evs' = pl_events s \<or> (\<exists>r. evs' = row_add r (pl_events s))"
      unfolding p emit_amb_event_def by (auto split: if_splits option.splits)
    with Inr p show ?thesis by (intro exI[of _ evs']) (simp add: emit_step_def Let_def)
  qed
qed

lemma ev_fired_mark:
  "ev_fired evs i \<Longrightarrow> i \<notin> set ids \<Longrightarrow> ev_fired (mark_processing now ids evs) i"
  by (auto simp: ev_fired_def set_mark split: option.splits)

lemma ev_claimed_mark:
  "ev_claimed t evs i \<Longrightarrow> i \<notin> set ids \<Longrightarrow> ev_claimed t (mark_processing now ids evs) i"
  by (auto simp: ev_claimed_def set_mark split: option.splits)

lemma write_verdict_id [simp]: "ev_id (write_verdict now oc e) = ev_id e"
  by (simp add: write_verdict_def split: proc_outcome.splits)

lemma ev_fired_write: "ev_fired evs i \<Longrightarrow> i \<noteq> j \<Longrightarrow> ev_fired (row_upd ev_id j (write_verdict now oc) evs) i"
  by (simp add: ev_fired_def row_simps)

lemma ev_claimed_write:
  "ev_claimed t evs i \<Longrightarrow> i \<noteq> j \<Longrightarrow> ev_claimed t (row_upd ev_id j (write_verdict now oc) evs) i"
  by (simp add: ev_claimed_def row_simps)

lemma ev_fired_now:
  "ev_claimed t evs i \<Longrightarrow> fires oc \<Longrightarrow> ev_fired (row_upd ev_id i (write_verdict now oc) evs) i"
  by (auto simp: ev_fired_def ev_claimed_def row_simps fires_def write_verdict_def split: option.splits proc_outcome.splits)

lemma drain_live_events:
  assumes "drain_live now evs d"
    and "\<And>i. i \<in> set (dr_todo d) \<Longrightarrow> ev_claimed (dr_since d) evs i \<Longrightarrow> ev_claimed (dr_since d) evs' i"
    and "\<And>i. i \<in> set (dr_fired d) \<Longrightarrow> ev_fired evs i \<Longrightarrow> ev_fired evs' i"
  shows "drain_live now evs' d"
  using assms by (simp add: drain_live_def)

lemma drains_ok_events:
  \<comment> \<open>a change of the events that spares the held ones\<close>
  assumes ok: "drains_ok s" and store: "store_ok evs'"
    and claimed: "\<And>t i. i \<in> set (held s) \<Longrightarrow> ev_claimed t (pl_events s) i \<Longrightarrow> ev_claimed t evs' i"
    and fired: "\<And>i. i \<in> set (held s) \<Longrightarrow> ev_fired (pl_events s) i \<Longrightarrow> ev_fired evs' i"
  shows "drains_ok (s\<lparr>pl_events := evs'\<rparr>)"
proof -
  have "drain_live (pl_now s) evs' d" if d: "d \<in> set (pl_drains s)" for d
  proof (rule drain_live_events)
    show "drain_live (pl_now s) (pl_events s) d" using ok d by (simp add: drains_ok_def)
  qed (use d claimed fired in \<open>auto simp: held_def\<close>)
  then show ?thesis using ok store fired by (auto simp: drains_ok_def held_def)
qed

lemma drains_ok_emit:
  assumes ok: "drains_ok s"
  shows "drains_ok (emit_step enabled rq cause s)"
proof -
  have "store_ok (pl_events (emit_step enabled rq cause s))"
    using store_ok_act[of s "Emits enabled rq cause"] ok by (simp add: drains_ok_def)
  moreover obtain evs' where evs': "emit_step enabled rq cause s = s\<lparr>pl_events := evs'\<rparr>"
    "evs' = pl_events s \<or> (\<exists>r. evs' = row_add r (pl_events s))" using emit_step_events by blast
  ultimately show ?thesis
    using drains_ok_events[OF ok, of evs'] ev_fired_emit ev_claimed_emit by auto
qed

lemma drains_ok_claim:
  assumes ok: "drains_ok s" and new: "row_get dr_id (pl_drains s) did = None"
  shows "drains_ok (begin_drain_pass did limit s)"
proof -
  let ?ids = "claim_ids (pl_now s) limit (pl_events s)"
  let ?evs = "mark_processing (pl_now s) ?ids (pl_events s)"
  let ?d = "\<lparr>dr_id = did, dr_since = pl_now s, dr_todo = ?ids, dr_fired = []\<rparr>"
  have dist: "distinct (map ev_id (pl_events s))" using ok by (simp add: drains_ok_def ids_distinct)
  have free: "i \<notin> set (held s)" if "i \<in> set ?ids" for i
    using claimed_are_claimable[OF dist that] held_not_claimable[OF ok] by blast
  have "store_ok ?evs"
    using store_ok_act[of s "Claims did limit"] ok new by (simp add: drains_ok_def begin_drain_pass_def Let_def)
  with ok have rest: "drains_ok (s\<lparr>pl_events := ?evs\<rparr>)"
    by (rule drains_ok_events) (use free ev_fired_mark ev_claimed_mark in blast)+
  have "ev_claimed (pl_now s) ?evs i" if "i \<in> set ?ids" for i
    using claimed_are_claimable[OF dist that] that by (auto simp: ev_claimed_def set_mark)
  then have live: "drain_live (pl_now s) ?evs ?d" by (simp add: drain_live_def EVALUATOR_TIMEOUT_S_def secs_def)
  have held: "held (begin_drain_pass did limit s) = concat (map (\<lambda>d. dr_todo d @ dr_fired d) (pl_drains s)) @ ?ids @ pl_launched s"
    by (simp add: held_def begin_drain_pass_def Let_def)
  have "distinct (held (begin_drain_pass did limit s))"
    using ok free distinct_claim_ids[OF dist] unfolding held by (auto simp: drains_ok_def held_def)
  moreover have "distinct (map dr_id (pl_drains s @ [?d]))"
    using ok new by (auto simp: drains_ok_def row_get_None)
  ultimately show ?thesis
    using rest live by (auto simp: drains_ok_def begin_drain_pass_def Let_def)
qed

lemma drains_ok_write:
  assumes ok: "drains_ok s" and d: "row_get dr_id (pl_drains s) did = Some d"
  shows "drains_ok (write_back d oc s)"
proof (cases "dr_todo d")
  case Nil
  then show ?thesis using ok by (simp add: write_back_def)
next
  case (Cons i rest)
  have did: "dr_id d = did" using row_get_Some[OF d] by simp
  obtain xs ys where t: "pl_drains s = xs @ d # ys"
    and upd: "\<And>f. row_upd dr_id did f (pl_drains s) = xs @ f d # ys"
    by (rule row_split[OF d]) (use ok in \<open>simp add: drains_ok_def\<close>, blast)
  let ?evs = "row_upd ev_id i (write_verdict (pl_now s) oc) (pl_events s)"
  let ?d = "d\<lparr>dr_todo := rest, dr_fired := dr_fired d @ (if fires oc then [i] else [])\<rparr>"
  have step: "write_back d oc s = s\<lparr>pl_events := ?evs, pl_drains := xs @ ?d # ys\<rparr>"
    by (simp add: write_back_def Cons did upd)
  have dist: "distinct (held s)" and live: "\<And>e. e \<in> set (pl_drains s) \<Longrightarrow> drain_live (pl_now s) (pl_events s) e"
    using ok by (auto simp: drains_ok_def)
  have "store_ok ?evs" using store_ok_act[of s "Processes did oc"] ok d by (simp add: drains_ok_def step)
  moreover have "drain_live (pl_now s) ?evs e" if e: "e \<in> set xs \<union> set ys" for e
  proof (rule drain_live_events)
    show "drain_live (pl_now s) (pl_events s) e" using live e t by auto
    have "i \<notin> set (dr_todo e @ dr_fired e)" using dist e Cons unfolding held_def t by auto
    then show "\<And>j. j \<in> set (dr_todo e) \<Longrightarrow> ev_claimed (dr_since e) (pl_events s) j \<Longrightarrow> ev_claimed (dr_since e) ?evs j"
      and "\<And>j. j \<in> set (dr_fired e) \<Longrightarrow> ev_fired (pl_events s) j \<Longrightarrow> ev_fired ?evs j"
      by (auto intro!: ev_claimed_write ev_fired_write)
  qed
  moreover have "drain_live (pl_now s) ?evs ?d"
  proof -
    have "i \<notin> set (rest @ dr_fired d)" using dist Cons unfolding held_def t by auto
    with live[of d] show ?thesis
      unfolding drain_live_def t using Cons
      by (auto intro: ev_claimed_write ev_fired_write ev_fired_now)
  qed
  moreover have "ev_fired ?evs j" if "j \<in> set (pl_launched s)" for j
    using ok that dist Cons unfolding held_def t by (intro ev_fired_write) (auto simp: drains_ok_def)
  moreover have "distinct (held (write_back d oc s))"
    using dist unfolding step by (auto simp: held_def t Cons)
  ultimately show ?thesis using ok unfolding drains_ok_def step t by auto
qed

lemma drains_ok_end:
  assumes ok: "drains_ok s" and d: "row_get dr_id (pl_drains s) did = Some d" and fin: "dr_todo d = []"
  shows "drains_ok (end_drain_pass d s)"
proof -
  obtain xs ys where t: "pl_drains s = xs @ d # ys" and del: "row_del dr_id did (pl_drains s) = xs @ ys"
    by (rule row_split[OF d]) (use ok in \<open>simp add: drains_ok_def\<close>, blast)
  have did: "dr_id d = did" using row_get_Some[OF d] by simp
  have step: "end_drain_pass d s = s\<lparr>pl_launched := pl_launched s @ dr_fired d, pl_drains := xs @ ys\<rparr>"
    by (simp add: end_drain_pass_def did del)
  have "distinct (held (end_drain_pass d s))"
    using ok fin unfolding drains_ok_def held_def step t by auto
  with ok show ?thesis unfolding drains_ok_def step t by (auto simp: drain_live_def)
qed

lemma drains_ok_filter: "drains_ok s \<Longrightarrow> drains_ok (s\<lparr>pl_drains := filter P (pl_drains s)\<rparr>)"
  using distinct_concat_filter[of "\<lambda>d. dr_todo d @ dr_fired d" "pl_drains s" "pl_launched s" P]
  by (simp add: drains_ok_def held_def distinct_map_filter)

lemma drains_ok_time: "drains_ok s \<Longrightarrow> drains_ok (time_passes now s)"
proof -
  assume ok: "drains_ok s"
  let ?t = "max now (pl_now s)"
  have "drains_ok (s\<lparr>pl_drains := filter (\<lambda>d. ?t - dr_since d \<le> secs EVALUATOR_TIMEOUT_S) (pl_drains s)\<rparr>)"
    using ok by (rule drains_ok_filter)
  then show ?thesis by (auto simp: time_passes_def Let_def drains_ok_def held_def drain_live_def)
qed

interpretation drains: inv_system plane_step drains_ok
proof
  show "drains_ok (plane_step s te)" if ok: "drains_ok s" for s te
  proof -
    have t: "drains_ok (time_passes (fst te) s)" using ok by (rule drains_ok_time)
    show ?thesis
    proof (cases "snd te")
      case (Dies did)
      with t show ?thesis by (simp add: plane_step_def row_del_def drains_ok_filter)
    qed (use t drains_ok_emit drains_ok_claim drains_ok_write drains_ok_end in
        \<open>auto simp: plane_step_def split: option.splits\<close>)
  qed
qed

lemma drains_ok_run: "drains_ok (foldl plane_step plane_init es)"
  by (rule drains.run_inv) (simp add: drains_ok_def held_def plane_init_def store_ok_init[unfolded plane_init_def, simplified])

text \<open>
  C15: whatever drains overlap, die or time out, an event starts at most one executor task, and only
  an event with the verdict \<open>fired\<close> starts one.
\<close>

theorem events_execute_at_most_once:
  "distinct (pl_launched (foldl plane_step plane_init es))
   \<and> list_all (ev_fired (pl_events (foldl plane_step plane_init es))) (pl_launched (foldl plane_step plane_init es))"
  using drains_ok_run[of es] by (simp add: drains_ok_def held_def list_all_iff)

section \<open>What a dead drain loses\<close>

definition lost :: "nat \<Rightarrow> plane \<Rightarrow> bool" where
  "lost i s \<longleftrightarrow> drains_ok s \<and> ev_fired (pl_events s) i \<and> i \<notin> set (held s)"

lemma held_filter: "i \<notin> set (held s) \<Longrightarrow> i \<notin> set (held (s\<lparr>pl_drains := filter P (pl_drains s)\<rparr>))"
  by (auto simp: held_def)

lemma lost_claim:
  assumes "lost i s"
  shows "lost i (plane_act s (Claims did limit))"
proof (cases "row_get dr_id (pl_drains s) did")
  case None
  have ok: "drains_ok s" and fired: "ev_fired (pl_events s) i" and out: "i \<notin> set (held s)"
    using assms by (auto simp: lost_def)
  have "distinct (map ev_id (pl_events s))" using ok by (simp add: drains_ok_def ids_distinct)
  then have free: "i \<notin> set (claim_ids (pl_now s) limit (pl_events s))"
    using claimed_are_claimable fired_not_claimable[OF fired] by blast
  then show ?thesis
    using out drains_ok_claim[OF ok None] ev_fired_mark[OF fired free] None
    by (auto simp: lost_def begin_drain_pass_def Let_def held_def)
qed (use assms in simp)

lemma lost_write:
  assumes "lost i s" "row_get dr_id (pl_drains s) did = Some d"
  shows "lost i (write_back d oc s)"
proof (cases "dr_todo d")
  case (Cons j rest)
  have ok: "drains_ok s" and fired: "ev_fired (pl_events s) i" and out: "i \<notin> set (held s)"
    using assms by (auto simp: lost_def)
  obtain xs ys where t: "pl_drains s = xs @ d # ys"
    and upd: "\<And>f. row_upd dr_id did f (pl_drains s) = xs @ f d # ys"
    by (rule row_split[OF assms(2)]) (use ok in \<open>simp add: drains_ok_def\<close>, blast)
  have did: "dr_id d = did" using row_get_Some[OF assms(2)] by simp
  have j: "j \<in> set (held s)" by (simp add: held_def t Cons)
  have "set (held (write_back d oc s)) \<subseteq> set (held s)"
    by (auto simp: held_def write_back_def Cons did upd[unfolded t] t split: if_splits)
  then show ?thesis
    using out j drains_ok_write[OF ok assms(2)] ev_fired_write[OF fired, of j] Cons
    by (auto simp: lost_def write_back_def)
qed (use assms in \<open>simp add: write_back_def\<close>)

lemma lost_end:
  assumes "lost i s" "row_get dr_id (pl_drains s) did = Some d" "dr_todo d = []"
  shows "lost i (end_drain_pass d s)"
proof -
  have "set (held (end_drain_pass d s)) \<subseteq> set (held s)"
    using row_get_Some[OF assms(2)] by (auto simp: held_def end_drain_pass_def row_del_def)
  then show ?thesis using assms drains_ok_end[OF _ assms(2,3)] by (auto simp: lost_def end_drain_pass_def)
qed

lemma lost_emit: "lost i s \<Longrightarrow> lost i (emit_step enabled rq cause s)"
  using emit_step_events[of enabled rq cause s] drains_ok_emit[of s enabled rq cause]
  by (auto simp: lost_def held_def ev_fired_emit)

lemma lost_time: "lost i s \<Longrightarrow> lost i (time_passes now s)"
  using drains_ok_time[of s now] by (auto simp: lost_def time_passes_def Let_def held_def)

lemma lost_dies: "lost i s \<Longrightarrow> lost i (plane_act s (Dies did))"
  using drains_ok_filter[of s] by (auto simp: lost_def held_def row_del_def)

interpretation lost_event: inv_system plane_step "lost i"
proof
  show "lost i (plane_step s te)" if l: "lost i s" for s te
  proof -
    have t: "lost i (time_passes (fst te) s)" using l by (rule lost_time)
    show ?thesis
      by (cases "snd te") (use t lost_emit lost_claim lost_write lost_end lost_dies in
        \<open>auto simp: plane_step_def simp del: plane_act.simps(2,5) split: option.splits\<close>)
  qed
qed

lemma dropped_drain_is_lost:
  assumes ok: "drains_ok s" and d: "d \<in> set (pl_drains s)" and i: "i \<in> set (dr_fired d)" and P: "\<not> P d"
  shows "lost i (s\<lparr>pl_drains := filter P (pl_drains s)\<rparr>)"
proof -
  obtain xs ys where t: "pl_drains s = xs @ d # ys" using d by (meson split_list)
  have "i \<notin> set (held (s\<lparr>pl_drains := filter P (pl_drains s)\<rparr>))"
    using ok i P unfolding drains_ok_def held_def t by auto
  then show ?thesis
    using drains_ok_filter[OF ok] ok d i by (auto simp: lost_def drains_ok_def drain_live_def)
qed

text \<open>
  C35: the window between the verdict and the launch is not recovered: an event whose verdict
  \<open>fired\<close> was committed by a pass that then outlives the evaluator timeout (or whose process dies)
  stays \<open>fired\<close>, and no later drain ever starts its executor.
\<close>

theorem fired_events_can_be_lost:
  fixes es es' now act
  defines "s \<equiv> foldl plane_step plane_init es"
  assumes "d \<in> set (pl_drains s)" "i \<in> set (dr_fired d)" "secs EVALUATOR_TIMEOUT_S < now - dr_since d"
  shows "i \<notin> set (pl_launched (foldl plane_step s ((now, act) # es')))
    \<and> ev_fired (pl_events (foldl plane_step s ((now, act) # es'))) i"
proof -
  let ?keep = "\<lambda>d. max now (pl_now s) - dr_since d \<le> secs EVALUATOR_TIMEOUT_S"
  have ok: "drains_ok s" unfolding s_def by (rule drains_ok_run)
  have "lost i (s\<lparr>pl_drains := filter ?keep (pl_drains s)\<rparr>)"
    using ok assms(2,3) by (rule dropped_drain_is_lost) (use assms(4) in auto)
  then have "lost i (time_passes now s)"
    using lost_time[of i "s\<lparr>pl_drains := filter ?keep (pl_drains s)\<rparr>" now] by (simp add: time_passes_def Let_def)
  then have "lost i (plane_step s (now, act))"
    using lost_event.step_inv[of i "time_passes now s" "(now, act)"]
    by (simp add: plane_step_def time_passes_def Let_def filter_filter)
  then have "lost i (foldl plane_step s ((now, act) # es'))" using lost_event.run_inv by simp
  then show ?thesis by (auto simp: lost_def held_def)
qed

theorem fired_events_can_be_lost_witness:
  "\<exists>es now. pl_launched (foldl plane_step plane_init (es @ [(now, Finishes 1)])) = []
     \<and> ev_fired (pl_events (foldl plane_step plane_init (es @ [(now, Finishes 1)]))) 0"
proof -
  let ?rq = "\<lparr>em_kind = ''k'', em_source = ''webhook'', em_payload = [], em_dedupe = None, em_routine = None,
    em_intent = None, em_caused_by = None\<rparr>"
  let ?es = "[(0, Emits True ?rq None), (0, Claims 1 20), (1, Processes 1 (Decided ''fired'' [] [(''fired_for'', JStr ''u'')]))]"
  let ?now = "secs 61"
  have state: "pl_drains (foldl plane_step plane_init ?es) = [\<lparr>dr_id = 1, dr_since = 0, dr_todo = [], dr_fired = [0]\<rparr>]"
    by code_simp
  let ?d = "\<lparr>dr_id = 1, dr_since = 0, dr_todo = [], dr_fired = [0]\<rparr>"
  have mem: "?d \<in> set (pl_drains (foldl plane_step plane_init ?es))" unfolding state by simp
  have "0 \<notin> set (pl_launched (foldl plane_step (foldl plane_step plane_init ?es) ((?now, Finishes 1) # [])))
    \<and> ev_fired (pl_events (foldl plane_step (foldl plane_step plane_init ?es) ((?now, Finishes 1) # []))) 0"
    by (rule fired_events_can_be_lost[OF mem]) (simp_all add: EVALUATOR_TIMEOUT_S_def secs_def)
  moreover have "pl_launched (foldl plane_step plane_init (?es @ [(?now, Finishes 1)])) = []" by code_simp
  ultimately show ?thesis by (intro exI[of _ ?es] exI[of _ ?now]) simp
qed

end
