(* ===== verification/Ambient_Channels.thy ===== *)
theory Ambient_Channels
  imports Access
begin

text \<open>
  Delivery channels (\<open>backend/app/ambient/channels.py\<close>): the routing of a delivered batch to the
  external adapters, their ledger on the delivery row with retries and dead letters, and the fan-out
  of toasts to the subscribers of every replica with the visibility check of the stream endpoint
  (\<open>api/ambient.py\<close>). Adapters, the routing settings and the sanitizer of error texts are
  arguments; ledger entries are records instead of JSON objects.
\<close>

section \<open>Deliveries and their send ledger\<close>

record send_entry =
  se_ok :: bool
  se_error :: "string option"
  se_at :: instant
  se_attempts :: nat
  se_next :: "instant option"
  se_dead :: bool

record delivery =
  dl_id :: nat
  dl_user :: "string option"
  dl_run :: "string option"
  dl_intent :: "string option"
  dl_category :: string
  dl_tier :: int
  dl_urgency :: int
  dl_title :: string
  dl_body :: "string option"
  dl_deadline :: "instant option"
  dl_delivered :: "instant option"
  dl_channel :: "string option"
  dl_superseded :: "nat option"
  dl_policy :: "nat option"
  dl_skey :: "string option"
  dl_external :: "(string \<times> send_entry) list"     \<comment> \<open>null is the empty ledger\<close>
  dl_feedback :: "string option"
  dl_reward :: "real option"
  dl_created :: instant

definition REALTIME_MODES :: "string list" where
  "REALTIME_MODES = [''interrupt'', ''notify'']"

definition in_app_outcome :: "string \<Rightarrow> nat \<Rightarrow> instant \<Rightarrow> send_entry option" where
  "in_app_outcome mode watchers now =
     (if mode \<notin> set REALTIME_MODES \<or> 0 < watchers then None
      else Some \<lparr>se_ok = False, se_error = Some ''no subscriber'', se_at = now, se_attempts = 0, se_next = None,
                 se_dead = False\<rparr>)"

definition pursue :: "string \<Rightarrow> nat \<Rightarrow> bool" where
  "pursue pursuit watchers =
     (if pursuit = ''off'' then False else if pursuit = ''away'' then watchers = 0 else True)"

definition MAX_SEND_ATTEMPTS :: nat where
  "MAX_SEND_ATTEMPTS = 4"

definition SEND_BACKOFF_S :: "int list" where
  "SEND_BACKOFF_S = [60, 300, 1800]"

definition RETRY_BATCH :: nat where
  "RETRY_BATCH = 20"

definition RETRY_WINDOW_DAYS :: int where
  "RETRY_WINDOW_DAYS = 7"

definition new_entry :: "(string \<Rightarrow> string) \<Rightarrow> send_entry option \<Rightarrow> string option \<Rightarrow> instant \<Rightarrow> send_entry" where
  \<comment> \<open>\<open>_send_entry\<close>; the result of a send is its error, None when it succeeded\<close>
  "new_entry clean prior err now =
     (let attempts = (case prior of None \<Rightarrow> 0 | Some e \<Rightarrow> se_attempts e) + 1
      in \<lparr>se_ok = err = None,
          se_error = map_option (\<lambda>e. take 500 (if clean e = [] then ''unknown error'' else clean e)) err,
          se_at = now,
          se_attempts = attempts,
          se_next = (if err = None \<or> MAX_SEND_ATTEMPTS \<le> attempts then None
                     else Some (now + secs (SEND_BACKOFF_S ! min (attempts - 1) (length SEND_BACKOFF_S - 1)))),
          se_dead = (err \<noteq> None \<and> MAX_SEND_ATTEMPTS \<le> attempts)\<rparr>)"

type_synonym adapters = "string \<Rightarrow> (string \<Rightarrow> nat list \<Rightarrow> string option) option"

definition send_one :: "adapters \<Rightarrow> string \<Rightarrow> string \<Rightarrow> nat list \<Rightarrow> string option" where
  "send_one registry name mode rows = (case registry name of
       None \<Rightarrow> Some (''channel '' @ name @ '' is not registered'')
     | Some adapter \<Rightarrow> map_option (take 500) (adapter mode rows))"

record send_env =
  sn_watchers :: nat                 \<comment> \<open>\<open>audience()\<close>\<close>
  sn_routing :: "string \<Rightarrow> string list"
  sn_pursuit :: string
  sn_adapters :: adapters
  sn_clean :: "string \<Rightarrow> string"

definition external_names :: "send_env \<Rightarrow> string \<Rightarrow> string list" where
  "external_names env mode = filter (\<lambda>n. n \<noteq> ''in_app'') (sn_routing env mode)"

definition dispatch_delivered :: "send_env \<Rightarrow> string \<Rightarrow> nat list \<Rightarrow> instant \<Rightarrow> (string \<times> send_entry) list" where
  \<comment> \<open>the entries the caller writes (\<open>record=False\<close>, as every flush calls it)\<close>
  "dispatch_delivered env mode rows now =
     (if rows = [] then []
      else (let in_app = (case in_app_outcome mode (sn_watchers env) now of None \<Rightarrow> [] | Some e \<Rightarrow> [(''in_app'', e)]);
                names = external_names env mode
            in if names \<noteq> [] \<and> \<not> pursue (sn_pursuit env) (sn_watchers env) then in_app
               else foldl (\<lambda>d n. dict_set d n (new_entry (sn_clean env) None (send_one (sn_adapters env) n mode rows) now))
                      in_app names))"

definition external_sends :: "send_env \<Rightarrow> string \<Rightarrow> nat list \<Rightarrow> string list" where
  \<comment> \<open>the adapters a dispatch calls\<close>
  "external_sends env mode rows =
     (if rows = [] \<or> \<not> pursue (sn_pursuit env) (sn_watchers env) then [] else external_names env mode)"

section \<open>Retries\<close>

definition retry_due :: "instant \<Rightarrow> string \<times> send_entry \<Rightarrow> bool" where
  "retry_due now ne = (case ne of (name, prior) \<Rightarrow>
     name \<noteq> ''in_app'' \<and> \<not> se_ok prior \<and> \<not> se_dead prior
     \<and> (case se_next prior of None \<Rightarrow> False | Some due \<Rightarrow> due \<le> now))"

definition retry_rows :: "instant \<Rightarrow> delivery list \<Rightarrow> delivery list" where
  "retry_rows now rows =
     take 500 (rev (sort_key (\<lambda>d. the (dl_delivered d))
       (filter (\<lambda>d. dl_external d \<noteq> [] \<and> (case dl_delivered d of
            None \<Rightarrow> False | Some t \<Rightarrow> now - secs (RETRY_WINDOW_DAYS * 86400) \<le> t)) rows)))"

fun retry_entries ::
    "send_env \<Rightarrow> instant \<Rightarrow> delivery \<Rightarrow> nat \<Rightarrow> (string \<times> send_entry) list
       \<Rightarrow> nat \<times> (nat \<times> string \<times> send_entry) list" where
  \<comment> \<open>the inner loop, with the sends still allowed; the writes it makes, in order\<close>
  "retry_entries env now d left [] = (left, [])"
| "retry_entries env now d left (ne # nes) =
     (if \<not> retry_due now ne then retry_entries env now d left nes
      else (let name = fst ne;
                err = send_one (sn_adapters env) name (case dl_channel d of
                        None \<Rightarrow> ''notify'' | Some c \<Rightarrow> if c = [] then ''notify'' else c) [dl_id d];
                w = (dl_id d, name, new_entry (sn_clean env) (Some (snd ne)) err now)
            in if left - 1 = 0 then (0, [w])
               else (case retry_entries env now d (left - 1) nes of (n, ws) \<Rightarrow> (n, w # ws))))"

fun retry_loop :: "send_env \<Rightarrow> instant \<Rightarrow> nat \<Rightarrow> delivery list \<Rightarrow> (nat \<times> string \<times> send_entry) list" where
  "retry_loop env now left [] = []"
| "retry_loop env now left (d # ds) =
     (if left = 0 then []
      else (case retry_entries env now d left (dl_external d) of (n, ws) \<Rightarrow> ws @ retry_loop env now n ds))"

definition record_send :: "nat \<times> string \<times> send_entry \<Rightarrow> delivery list \<Rightarrow> delivery list" where
  "record_send w rows = (case w of (i, channel, entry) \<Rightarrow>
     row_upd dl_id i (\<lambda>d. d\<lparr>dl_external := dict_set (dl_external d) channel entry\<rparr>) rows)"

definition retry_external_sends ::
    "send_env \<Rightarrow> instant \<Rightarrow> nat \<Rightarrow> delivery list \<Rightarrow> delivery list \<times> (nat \<times> string) list" where
  \<comment> \<open>the table, and the sends attempted\<close>
  "retry_external_sends env now batch rows =
     (let ws = retry_loop env now batch (retry_rows now rows)
      in (foldl (\<lambda>t w. record_send w t) rows ws, map (\<lambda>(i, n, e). (i, n)) ws))"

section \<open>Retries end\<close>

definition entry_of :: "delivery list \<Rightarrow> nat \<Rightarrow> string \<Rightarrow> send_entry option" where
  "entry_of rows i n = Option.bind (row_get dl_id rows i) (\<lambda>d. map_of (dl_external d) n)"

definition retry_again :: "send_entry \<Rightarrow> bool" where
  \<comment> \<open>an entry with a next attempt has one left\<close>
  "retry_again e \<longleftrightarrow> se_attempts e \<le> MAX_SEND_ATTEMPTS \<and> (se_next e \<noteq> None \<longrightarrow> se_attempts e < MAX_SEND_ATTEMPTS)"

definition ledger_ok :: "delivery list \<Rightarrow> bool" where
  "ledger_ok rows \<longleftrightarrow> distinct (map dl_id rows)
     \<and> (\<forall>d \<in> set rows. distinct (map fst (dl_external d)) \<and> (\<forall>(n, e) \<in> set (dl_external d). retry_again e))"

definition is_retry :: "send_env \<Rightarrow> instant \<Rightarrow> delivery list \<Rightarrow> nat \<times> string \<times> send_entry \<Rightarrow> bool" where
  "is_retry env now rows w \<longleftrightarrow> (\<exists>d \<in> set rows. \<exists>prior err. fst w = dl_id d \<and> (fst (snd w), prior) \<in> set (dl_external d)
     \<and> retry_due now (fst (snd w), prior) \<and> snd (snd w) = new_entry (sn_clean env) (Some prior) err now)"

definition send_keys :: "(nat \<times> string \<times> send_entry) list \<Rightarrow> (nat \<times> string) list" where
  "send_keys ws = map (\<lambda>(i, n, e). (i, n)) ws"

lemma send_keys_simps [simp]:
  "send_keys [] = []" "send_keys (w # ws) = (fst w, fst (snd w)) # send_keys ws"
  "send_keys (ws @ vs) = send_keys ws @ send_keys vs" "length (send_keys ws) = length ws"
  by (auto simp: send_keys_def split: prod.splits)

lemma retry_entries_facts:
  assumes "retry_entries env now d left nes = (rest, ws)" "0 < left" "set nes \<subseteq> set (dl_external d)" "distinct (map fst nes)"
  shows "rest + length ws = left \<and> distinct (send_keys ws) \<and> set (send_keys ws) \<subseteq> {dl_id d} \<times> fst ` set nes
    \<and> (\<forall>w \<in> set ws. is_retry env now [d] w)"
  using assms
proof (induction nes arbitrary: left rest ws)
  case (Cons ne nes)
  obtain name prior where ne: "ne = (name, prior)" by (cases ne)
  let ?chan = "case dl_channel d of None \<Rightarrow> ''notify'' | Some c \<Rightarrow> if c = [] then ''notify'' else c"
  let ?w = "(dl_id d, name, new_entry (sn_clean env) (Some prior) (send_one (sn_adapters env) name ?chan [dl_id d]) now)"
  consider (skip) "\<not> retry_due now ne" | (last) "retry_due now ne" "left - 1 = 0" | (more) "retry_due now ne" "0 < left - 1"
    by linarith
  then show ?case
  proof cases
    case skip
    with Cons.IH[of left rest ws] Cons.prems show ?thesis by auto
  next
    case last
    with Cons.prems ne have "rest = 0" "ws = [?w]" by (auto simp: Let_def)
    with last Cons.prems ne show ?thesis by (auto simp: is_retry_def)
  next
    case more
    obtain n vs where r: "retry_entries env now d (left - 1) nes = (n, vs)" by (cases "retry_entries env now d (left - 1) nes")
    with Cons.prems more ne have eqs: "rest = n" "ws = ?w # vs" by (auto simp: Let_def)
    have "is_retry env now [d] ?w" using more(1) Cons.prems(3) ne by (auto simp: is_retry_def)
    with Cons.IH[OF r more(2)] Cons.prems more ne eqs show ?thesis by auto
  qed
qed simp

lemma is_retry_mono: "is_retry env now rows w \<Longrightarrow> set rows \<subseteq> set rows' \<Longrightarrow> is_retry env now rows' w"
  by (auto simp: is_retry_def)

lemma retry_loop_facts:
  assumes "distinct (map dl_id rows)" "\<forall>d \<in> set rows. distinct (map fst (dl_external d))"
  shows "length (retry_loop env now left rows) \<le> left \<and> distinct (send_keys (retry_loop env now left rows))
    \<and> fst ` set (send_keys (retry_loop env now left rows)) \<subseteq> dl_id ` set rows
    \<and> (\<forall>w \<in> set (retry_loop env now left rows). is_retry env now rows w)"
  using assms
proof (induction rows arbitrary: left)
  case (Cons d ds)
  show ?case
  proof (cases "left = 0")
    case False
    obtain n ws where r: "retry_entries env now d left (dl_external d) = (n, ws)"
      by (cases "retry_entries env now d left (dl_external d)")
    have f: "n + length ws = left \<and> distinct (send_keys ws) \<and> set (send_keys ws) \<subseteq> {dl_id d} \<times> fst ` set (dl_external d)
        \<and> (\<forall>w \<in> set ws. is_retry env now [d] w)"
      by (rule retry_entries_facts[OF r]) (use False Cons.prems(2) in simp_all)
    then have ws: "n + length ws = left" "distinct (send_keys ws)" "set (send_keys ws) \<subseteq> {dl_id d} \<times> UNIV" by blast+
    have ws_retry: "\<forall>w \<in> set ws. is_retry env now (d # ds) w"
    proof
      fix w assume "w \<in> set ws"
      with f have "is_retry env now [d] w" by blast
      then show "is_retry env now (d # ds) w" by (rule is_retry_mono) simp
    qed
    have vs: "length (retry_loop env now n ds) \<le> n" "distinct (send_keys (retry_loop env now n ds))"
      "fst ` set (send_keys (retry_loop env now n ds)) \<subseteq> dl_id ` set ds"
      "\<forall>w \<in> set (retry_loop env now n ds). is_retry env now (d # ds) w"
    proof -
      have IH: "length (retry_loop env now n ds) \<le> n \<and> distinct (send_keys (retry_loop env now n ds))
          \<and> fst ` set (send_keys (retry_loop env now n ds)) \<subseteq> dl_id ` set ds
          \<and> (\<forall>w \<in> set (retry_loop env now n ds). is_retry env now ds w)"
        by (rule Cons.IH) (use Cons.prems in simp_all)
      show "\<forall>w \<in> set (retry_loop env now n ds). is_retry env now (d # ds) w"
      proof
        fix w assume "w \<in> set (retry_loop env now n ds)"
        with IH have "is_retry env now ds w" by blast
        then show "is_retry env now (d # ds) w" by (rule is_retry_mono) auto
      qed
    qed (use Cons.IH[of n] Cons.prems in simp_all)
    have apart: "dl_id d \<notin> dl_id ` set ds" using Cons.prems(1) by simp
    have disj: "set (send_keys ws) \<inter> set (send_keys (retry_loop env now n ds)) = {}"
    proof (rule equals0I)
      fix k assume "k \<in> set (send_keys ws) \<inter> set (send_keys (retry_loop env now n ds))"
      then have "fst k = dl_id d" "fst k \<in> dl_id ` set ds" using ws(3) vs(3) by (auto simp del: set_map)
      with apart show False by simp
    qed
    have step: "retry_loop env now left (d # ds) = ws @ retry_loop env now n ds" by (simp add: False r)
    have "fst ` set (send_keys ws) \<subseteq> {dl_id d}" using ws(3) by auto
    then have "fst ` set (send_keys ws) \<union> fst ` set (send_keys (retry_loop env now n ds)) \<subseteq> dl_id ` set (d # ds)"
      using vs(3) by auto
    moreover have "length ws + length (retry_loop env now n ds) \<le> left" using ws(1) vs(1) by simp
    moreover have "\<forall>w \<in> set (ws @ retry_loop env now n ds). is_retry env now (d # ds) w"
      using ws_retry vs(4) unfolding set_append by blast
    ultimately show ?thesis
      using ws(2) vs(2) disj unfolding step send_keys_simps length_append distinct_append set_append image_Un by blast
  qed simp
qed simp

lemma entry_of_record:
  "entry_of (record_send (i, n, e) rows) j m =
     (if j = i \<and> m = n \<and> row_get dl_id rows i \<noteq> None then Some e else entry_of rows j m)"
  by (cases "row_get dl_id rows j") (auto simp: entry_of_def record_send_def row_simps map_of_dict_set)

lemma record_ids [simp]: "map dl_id (record_send w rows) = map dl_id rows"
  by (cases w) (simp add: record_send_def row_upd_def)

lemma record_kept: "row_get dl_id (record_send w rows) i = None \<longleftrightarrow> row_get dl_id rows i = None"
  by (cases w) (simp add: record_send_def row_simps)

lemma find_send_None: "(i, n) \<notin> set (send_keys ws) \<Longrightarrow> find (\<lambda>w. fst w = i \<and> fst (snd w) = n) ws = None"
  by (induction ws) auto

lemma entry_of_records:
  "distinct (send_keys ws) \<Longrightarrow> (\<And>w. w \<in> set ws \<Longrightarrow> row_get dl_id rows (fst w) \<noteq> None) \<Longrightarrow>
   entry_of (foldl (\<lambda>t w. record_send w t) rows ws) i n =
     (case find (\<lambda>w. fst w = i \<and> fst (snd w) = n) ws of None \<Rightarrow> entry_of rows i n | Some w \<Rightarrow> Some (snd (snd w)))"
proof (induction ws arbitrary: rows)
  case (Cons w ws)
  obtain j m e where w: "w = (j, m, e)" by (cases w)
  have IH: "entry_of (foldl (\<lambda>t w. record_send w t) (record_send w rows) ws) i n =
     (case find (\<lambda>w. fst w = i \<and> fst (snd w) = n) ws of None \<Rightarrow> entry_of (record_send w rows) i n
      | Some w \<Rightarrow> Some (snd (snd w)))"
    by (rule Cons.IH) (use Cons.prems record_kept in auto)
  have row: "row_get dl_id rows j \<noteq> None" using Cons.prems(2)[of w] w by simp
  show ?case
  proof (cases "i = j \<and> n = m")
    case True
    then have "find (\<lambda>w. fst w = i \<and> fst (snd w) = n) ws = None"
      using Cons.prems(1) w by (intro find_send_None) simp
    with IH True row w show ?thesis by (simp add: entry_of_record)
  next
    case False
    then have "entry_of (record_send w rows) i n = entry_of rows i n" by (auto simp: w entry_of_record)
    with IH w False show ?thesis by (auto split: option.splits)
  qed
qed simp

lemma records_ledger:
  assumes "distinct (map dl_id rows)" "\<forall>d \<in> set rows. distinct (map fst (dl_external d)) \<and> (\<forall>(n, e) \<in> set (dl_external d). retry_again e)"
    and "\<forall>w \<in> set ws. retry_again (snd (snd w))"
  shows "ledger_ok (foldl (\<lambda>t w. record_send w t) rows ws)"
  using assms
proof (induction ws arbitrary: rows)
  case (Cons w ws)
  obtain j m e where w: "w = (j, m, e)" by (cases w)
  have "distinct (map fst (dl_external d)) \<and> (\<forall>(n, e) \<in> set (dl_external d). retry_again e)"
    if "d \<in> set (record_send w rows)" for d
  proof -
    have sub: "set (dict_set xs m e) \<subseteq> insert (m, e) (set xs)" for xs :: "(string \<times> send_entry) list"
      by (induction xs m e rule: dict_set.induct) (auto split: if_splits)
    have again: "retry_again e" using Cons.prems(3) w by simp
    from that w obtain d0 where "d0 \<in> set rows" "d = d0 \<or> d = d0\<lparr>dl_external := dict_set (dl_external d0) m e\<rparr>"
      by (auto simp: record_send_def row_upd_def split: if_splits)
    moreover have "retry_again b" if "(a, b) \<in> set (dict_set (dl_external d0) m e)" for a b
      using sub[of "dl_external d0"] that again Cons.prems(2) \<open>d0 \<in> set rows\<close> by blast
    ultimately show ?thesis using Cons.prems(2) by (auto simp: distinct_dict_set)
  qed
  with Cons.IH[of "record_send w rows"] Cons.prems show ?case by auto
qed (simp add: ledger_ok_def)

lemma new_entry_again: "retry_due now (n, prior) \<Longrightarrow> retry_again prior \<Longrightarrow> retry_again (new_entry clean (Some prior) err now)"
  by (auto simp: retry_due_def retry_again_def new_entry_def Let_def split: option.splits)

lemma new_entry_backoff:
  "se_next (new_entry clean prior err now) = Some due \<Longrightarrow> now + secs 60 \<le> due"
proof -
  assume a: "se_next (new_entry clean prior err now) = Some due"
  let ?k = "min ((case prior of None \<Rightarrow> 0 | Some e \<Rightarrow> se_attempts e) + 1 - 1) (length SEND_BACKOFF_S - 1)"
  have "?k < 3" by (simp add: SEND_BACKOFF_S_def)
  then have "60 \<le> SEND_BACKOFF_S ! ?k"
    by (auto simp: SEND_BACKOFF_S_def less_Suc_eq numeral_3_eq_3)
  with a show ?thesis by (auto simp: new_entry_def Let_def secs_def split: if_splits)
qed

definition retry_step ::
    "delivery list \<times> (instant \<times> nat \<times> string) list \<Rightarrow> send_env \<times> instant \<times> nat
       \<Rightarrow> delivery list \<times> (instant \<times> nat \<times> string) list" where
  \<comment> \<open>one tick's pass, with the log of the retries so far\<close>
  "retry_step st tick = (case st of (rows, lg) \<Rightarrow> case tick of (env, now, batch) \<Rightarrow>
     (case retry_external_sends env now batch rows of (rows', sent) \<Rightarrow> (rows', lg @ map (\<lambda>s. (now, s)) sent)))"

definition send_times :: "nat \<Rightarrow> string \<Rightarrow> (instant \<times> nat \<times> string) list \<Rightarrow> instant list" where
  "send_times i n lg = map fst (filter (\<lambda>s. snd s = (i, n)) lg)"

definition spaced :: "instant list \<Rightarrow> bool" where
  \<comment> \<open>each at least a minute after the one before\<close>
  "spaced ts \<longleftrightarrow> list_all (\<lambda>(s, t). s + secs 60 \<le> t) (zip ts (tl ts))"

lemma spaced_snoc: "spaced ts \<Longrightarrow> (ts = [] \<or> last ts + secs 60 \<le> t) \<Longrightarrow> spaced (ts @ [t])"
proof (induction ts)
  case (Cons s ts)
  then show ?case by (cases ts) (auto simp: spaced_def)
qed (simp add: spaced_def)

lemma row_get_mem: "distinct (map key rows) \<Longrightarrow> r \<in> set rows \<Longrightarrow> row_get key rows (key r) = Some r"
  by (induction rows) (auto simp: row_simps)

lemma retry_reads_entry:
  assumes "ledger_ok rows" "is_retry env now rows (i, n, e)"
  obtains prior err where "entry_of rows i n = Some prior" "retry_due now (n, prior)" "retry_again prior"
    "e = new_entry (sn_clean env) (Some prior) err now"
proof -
  from assms(2) obtain d prior err where d: "d \<in> set rows" "i = dl_id d" "(n, prior) \<in> set (dl_external d)"
    "retry_due now (n, prior)" "e = new_entry (sn_clean env) (Some prior) err now"
    by (auto simp: is_retry_def)
  have "row_get dl_id rows i = Some d" using assms(1) d by (auto simp: ledger_ok_def intro: row_get_mem)
  moreover have "map_of (dl_external d) n = Some prior" using assms(1) d by (auto simp: ledger_ok_def)
  moreover have "retry_again prior" using assms(1) d by (auto simp: ledger_ok_def)
  ultimately show ?thesis using d that by (simp add: entry_of_def)
qed

definition retries_ok :: "nat \<Rightarrow> string \<Rightarrow> nat \<Rightarrow> delivery list \<times> (instant \<times> nat \<times> string) list \<Rightarrow> bool" where
  \<comment> \<open>an entry that had \<open>a\<close> attempts counts the retries made since, and they keep their distance\<close>
  "retries_ok i n a st \<longleftrightarrow> ledger_ok (fst st) \<and> spaced (send_times i n (snd st))
     \<and> (\<exists>e. entry_of (fst st) i n = Some e \<and> se_attempts e = a + length (send_times i n (snd st)) \<and> retry_again e
           \<and> (\<forall>due. send_times i n (snd st) \<noteq> [] \<longrightarrow> se_next e = Some due
                 \<longrightarrow> last (send_times i n (snd st)) + secs 60 \<le> due))"

lemma send_keys_filter:
  "distinct (send_keys ws) \<Longrightarrow> filter (\<lambda>s. s = (i, n)) (send_keys ws) =
     (case find (\<lambda>w. fst w = i \<and> fst (snd w) = n) ws of None \<Rightarrow> [] | Some w \<Rightarrow> [(i, n)])"
proof (induction ws)
  case (Cons w ws)
  then show ?case using find_send_None[of i n ws] by (cases "i = fst w \<and> n = fst (snd w)") auto
qed simp

lemma retries_ok_step:
  assumes "retries_ok i n a st"
  shows "retries_ok i n a (retry_step st tick)"
proof -
  obtain rows lg where st: "st = (rows, lg)" by (cases st)
  obtain env now batch where tick: "tick = (env, now, batch)" by (cases tick)
  let ?sel = "retry_rows now rows"
  let ?ws = "retry_loop env now batch ?sel"
  let ?rows = "foldl (\<lambda>t w. record_send w t) rows ?ws"
  have ledger: "ledger_ok rows" using assms by (simp add: retries_ok_def st)
  have sub: "set ?sel \<subseteq> set rows" by (auto simp: retry_rows_def dest: in_set_takeD)
  have "distinct (map dl_id ?sel)"
    using ledger distinct_map_filter[of dl_id rows]
    unfolding retry_rows_def ledger_ok_def
    by (simp add: take_map[symmetric] rev_map[symmetric] distinct_map)
  then have ws: "distinct (send_keys ?ws)" "\<forall>w \<in> set ?ws. is_retry env now rows w"
    using retry_loop_facts[of ?sel env now batch] ledger sub
    by (auto simp: ledger_ok_def intro: is_retry_mono[OF _ sub])
  have "row_get dl_id rows (fst w) \<noteq> None" if "w \<in> set ?ws" for w
    using bspec[OF ws(2) that] unfolding is_retry_def row_get_None by metis
  note entry = entry_of_records[OF ws(1) this, of i n]
  have again: "\<forall>w \<in> set ?ws. retry_again (snd (snd w))"
  proof
    fix w assume w: "w \<in> set ?ws"
    obtain j m e where "w = (j, m, e)" by (cases w)
    with ws(2) w ledger show "retry_again (snd (snd w))"
      by (auto elim!: retry_reads_entry intro: new_entry_again)
  qed
  have ledger': "ledger_ok ?rows" using ledger again by (intro records_ledger) (auto simp: ledger_ok_def)
  have step: "retry_step st tick = (?rows, lg @ map (\<lambda>s. (now, s)) (send_keys ?ws))"
    by (simp add: retry_step_def st tick retry_external_sends_def Let_def send_keys_def)
  have times: "send_times i n (lg @ map (\<lambda>s. (now, s)) (send_keys ?ws)) = send_times i n lg
     @ (case find (\<lambda>w. fst w = i \<and> fst (snd w) = n) ?ws of None \<Rightarrow> [] | Some w \<Rightarrow> [now])"
    using send_keys_filter[OF ws(1), of i n]
    by (auto simp: send_times_def filter_map comp_def split: option.splits)
  show ?thesis
  proof (cases "find (\<lambda>w. fst w = i \<and> fst (snd w) = n) ?ws")
    case None
    with assms ledger' entry times show ?thesis unfolding step by (simp add: retries_ok_def st)
  next
    case (Some w)
    then obtain e where w: "w = (i, n, e)" "w \<in> set ?ws" by (cases w) (auto dest: find_Some_in)
    with ws(2) have "is_retry env now rows (i, n, e)" by auto
    with ledger obtain prior err where prior: "entry_of rows i n = Some prior" "retry_due now (n, prior)"
      "e = new_entry (sn_clean env) (Some prior) err now" by (elim retry_reads_entry)
    have "se_attempts e = Suc (se_attempts prior)" by (simp add: prior(3) new_entry_def Let_def)
    moreover have "spaced (send_times i n lg @ [now])"
      using assms prior by (intro spaced_snoc) (auto simp: retries_ok_def st retry_due_def split: option.splits)
    moreover have "retry_again e" using again w by auto
    moreover have "now + secs 60 \<le> due" if "se_next e = Some due" for due
      using new_entry_backoff that prior(3) by blast
    ultimately show ?thesis
      using assms ledger' entry times Some w prior unfolding step by (auto simp: retries_ok_def st)
  qed
qed

interpretation retries: inv_system retry_step "retries_ok i n a"
  by unfold_locales (rule retries_ok_step)

text \<open>
  Whatever the adapters answer and however the ticks' clocks run, a failed external send is
  retried at most three times after the first attempt, the ledger counts every attempt, and two
  retries of one channel are at least a minute apart.
\<close>

theorem retries_are_bounded:
  assumes "ledger_ok rows" "entry_of rows i n = Some e"
    and "foldl retry_step (rows, []) ticks = (rows', lg)"
  shows "spaced (send_times i n lg) \<and> se_attempts e + length (send_times i n lg) \<le> MAX_SEND_ATTEMPTS
    \<and> map_option se_attempts (entry_of rows' i n) = Some (se_attempts e + length (send_times i n lg))"
proof -
  obtain d where d: "row_get dl_id rows i = Some d" "map_of (dl_external d) n = Some e"
    using assms(2) by (auto simp: entry_of_def bind_eq_Some_conv)
  then have "retry_again e" using assms(1) by (auto simp: ledger_ok_def dest!: row_get_Some map_of_SomeD)
  then have "retries_ok i n (se_attempts e) (rows, [])"
    using assms by (simp add: retries_ok_def send_times_def spaced_def)
  then have "retries_ok i n (se_attempts e) (foldl retry_step (rows, []) ticks)" by (rule retries.run_inv)
  with assms(3) show ?thesis by (auto simp: retries_ok_def retry_again_def)
qed

definition mute_env :: send_env where
  \<comment> \<open>mail is configured and always fails\<close>
  "mute_env = \<lparr>sn_watchers = 0, sn_routing = (\<lambda>m. [''in_app'', ''email'']), sn_pursuit = ''always'',
     sn_adapters = (\<lambda>n. if n = ''email'' then Some (\<lambda>m rows. Some ''refused'') else None), sn_clean = (\<lambda>e. e)\<rparr>"

definition mailed :: "delivery list" where
  "mailed = [\<lparr>dl_id = 0, dl_user = None, dl_run = None, dl_intent = None, dl_category = ''c'', dl_tier = 1, dl_urgency = 3,
     dl_title = ''t'', dl_body = None, dl_deadline = None, dl_delivered = Some 0, dl_channel = Some ''notify'',
     dl_superseded = None, dl_policy = None, dl_skey = None,
     dl_external = dispatch_delivered mute_env ''notify'' [0] 0, dl_feedback = None, dl_reward = None, dl_created = 0\<rparr>]"

theorem retries_are_bounded_witness:
  "map_option se_attempts (entry_of mailed 0 ''email'') = Some 1
   \<and> (\<exists>rows' lg. foldl retry_step (mailed, []) [(mute_env, secs 60, 20), (mute_env, secs 61, 20), (mute_env, secs 360, 20)] = (rows', lg)
        \<and> spaced (send_times 0 ''email'' lg) \<and> map_option se_attempts (entry_of rows' 0 ''email'') = Some 3)"
proof -
  let ?ticks = "[(mute_env, secs 60, 20), (mute_env, secs 61, 20), (mute_env, secs 360, 20)]"
  obtain rows' lg where run: "foldl retry_step (mailed, []) ?ticks = (rows', lg)" by (cases "foldl retry_step (mailed, []) ?ticks")
  have ok: "ledger_ok mailed" unfolding ledger_ok_def retry_again_def by code_simp
  have e: "entry_of mailed 0 ''email'' = Some \<lparr>se_ok = False, se_error = Some ''refused'', se_at = 0, se_attempts = 1,
      se_next = Some (secs 60), se_dead = False\<rparr>" by code_simp
  have "send_times 0 ''email'' (snd (foldl retry_step (mailed, []) ?ticks)) = [secs 60, secs 360]" by code_simp
  then have "length (send_times 0 ''email'' lg) = 2" unfolding run snd_conv by simp
  with retries_are_bounded[OF ok e run]
  have facts: "spaced (send_times 0 ''email'' lg) \<and> map_option se_attempts (entry_of rows' 0 ''email'') = Some 3"
    by (simp add: numeral_3_eq_3)
  have "map_option se_attempts (entry_of mailed 0 ''email'') = Some 1" by (simp add: e)
  then show ?thesis using run facts by blast
qed

section \<open>The toast stream\<close>

record stream_event =
  st_seq :: nat
  st_id :: nat
  st_mode :: string
  st_tier :: int
  st_urgency :: int
  st_category :: string
  st_title :: string
  st_at :: instant
  st_user :: "string option"

definition QUEUE_SIZE :: nat where
  "QUEUE_SIZE = 100"

record stream_hub =
  hb_next :: nat
  hb_seq :: nat          \<comment> \<open>the next value of \<open>_EVENT_SEQ\<close>\<close>
  hb_subs :: "(nat \<times> stream_event list) list"

definition hub_init :: stream_hub where
  "hub_init = \<lparr>hb_next = 0, hb_seq = 1, hb_subs = []\<rparr>"

definition subscribe_stream :: "stream_hub \<Rightarrow> stream_hub" where
  "subscribe_stream h = h\<lparr>hb_next := hb_next h + 1, hb_subs := hb_subs h @ [(hb_next h + 1, [])]\<rparr>"

definition unsubscribe_stream :: "nat \<Rightarrow> stream_hub \<Rightarrow> stream_hub" where
  "unsubscribe_stream i h = h\<lparr>hb_subs := filter (\<lambda>s. fst s \<noteq> i) (hb_subs h)\<rparr>"

definition fan_local :: "stream_event \<Rightarrow> stream_hub \<Rightarrow> stream_hub" where
  \<comment> \<open>a full queue misses the event\<close>
  "fan_local e h = h\<lparr>hb_subs := map (\<lambda>(i, q). (i, if length q < QUEUE_SIZE then q @ [e] else q)) (hb_subs h)\<rparr>"

definition delivery_event :: "string \<Rightarrow> delivery \<Rightarrow> instant \<Rightarrow> stream_event" where
  "delivery_event mode d now = \<lparr>st_seq = 0, st_id = dl_id d, st_mode = mode, st_tier = dl_tier d,
     st_urgency = dl_urgency d, st_category = dl_category d, st_title = dl_title d, st_at = now, st_user = dl_user d\<rparr>"

definition fan_numbered :: "stream_event \<Rightarrow> stream_hub \<Rightarrow> stream_hub" where
  "fan_numbered e h = (if hb_subs h = [] then h
     else fan_local (e\<lparr>st_seq := hb_seq h\<rparr>) (h\<lparr>hb_seq := hb_seq h + 1\<rparr>))"

definition publish_local :: "string \<Rightarrow> delivery list \<Rightarrow> instant \<Rightarrow> stream_hub \<Rightarrow> stream_hub" where
  "publish_local mode ds now h = foldl (\<lambda>h d. fan_numbered (delivery_event mode d now) h) h ds"

definition announced :: "stream_event \<Rightarrow> stream_event" where
  \<comment> \<open>the fields \<open>fan_in\<close> takes from an announcement\<close>
  "announced e = e\<lparr>st_user := None\<rparr>"

definition fan_in :: "stream_event \<Rightarrow> stream_hub \<Rightarrow> stream_hub" where
  "fan_in e h = fan_numbered (announced e) h"

type_synonym hubs = "string \<Rightarrow> stream_hub"

definition publish :: "string list \<Rightarrow> string \<Rightarrow> string \<Rightarrow> delivery list \<Rightarrow> instant \<Rightarrow> hubs \<Rightarrow> hubs" where
  \<comment> \<open>by replica \<open>r\<close>, when every announcement arrives at the live replicas\<close>
  "publish live r mode ds now hubs = (\<lambda>q.
     if q = r then publish_local mode ds now (hubs q)
     else if q \<in> set live then foldl (\<lambda>h d. fan_in (delivery_event mode d now) h) (hubs q) ds
     else hubs q)"

definition stream_take :: "bool \<Rightarrow> principal option \<Rightarrow> nat \<Rightarrow> stream_hub \<Rightarrow> stream_event option \<times> stream_hub" where
  \<comment> \<open>one round of \<open>ambient_event_stream\<close>: the event it sends, if the subscriber may see it\<close>
  "stream_take enabled p i h = (case map_of (hb_subs h) i of
       Some (e # q) \<Rightarrow>
         (if builtin_may_see enabled (st_user e) p then Some e else None,
          h\<lparr>hb_subs := dict_set (hb_subs h) i q\<rparr>)
     | _ \<Rightarrow> (None, h))"

fun stream_shown :: "bool \<Rightarrow> principal option \<Rightarrow> nat \<Rightarrow> nat \<Rightarrow> stream_hub \<Rightarrow> stream_event list" where
  \<comment> \<open>what \<open>n\<close> rounds send\<close>
  "stream_shown enabled p i 0 h = []"
| "stream_shown enabled p i (Suc n) h = (case stream_take enabled p i h of
       (Some e, h') \<Rightarrow> e # stream_shown enabled p i n h'
     | (None, h') \<Rightarrow> stream_shown enabled p i n h')"

lemma shown_queue:
  "hb_subs h = [(i, q)] \<Longrightarrow>
   stream_shown enabled p i n h = filter (\<lambda>e. builtin_may_see enabled (st_user e) p) (take n q)"
proof (induction n arbitrary: h q)
  case (Suc n)
  then show ?case by (cases q) (auto simp: stream_take_def)
qed simp

lemma fan_numbered_one:
  "hb_subs h = [(i, q)] \<Longrightarrow>
   hb_subs (fan_numbered e h) = [(i, if length q < QUEUE_SIZE then q @ [e\<lparr>st_seq := hb_seq h\<rparr>] else q)]"
  by (simp add: fan_numbered_def fan_local_def)

lemma fan_numbered_all:
  "hb_subs h = [(i, q)] \<Longrightarrow> length q \<le> QUEUE_SIZE \<Longrightarrow>
   \<exists>q'. hb_subs (foldl (\<lambda>h d. fan_numbered (f d) h) h ds) = [(i, q')]
     \<and> map st_id q' = take QUEUE_SIZE (map st_id q @ map (\<lambda>d. st_id (f d)) ds)
     \<and> st_user ` set q' \<subseteq> st_user ` set q \<union> (\<lambda>d. st_user (f d)) ` set ds"
proof (induction ds arbitrary: h q)
  case (Cons d ds)
  let ?q = "if length q < QUEUE_SIZE then q @ [(f d)\<lparr>st_seq := hb_seq h\<rparr>] else q"
  have "hb_subs (fan_numbered (f d) h) = [(i, ?q)]" using Cons.prems by (simp add: fan_numbered_one)
  moreover have "length ?q \<le> QUEUE_SIZE" using Cons.prems by simp
  ultimately obtain q' where q': "hb_subs (foldl (\<lambda>h d. fan_numbered (f d) h) (fan_numbered (f d) h) ds) = [(i, q')]"
    "map st_id q' = take QUEUE_SIZE (map st_id ?q @ map (\<lambda>d. st_id (f d)) ds)"
    "st_user ` set q' \<subseteq> st_user ` set ?q \<union> (\<lambda>d. st_user (f d)) ` set ds" using Cons.IH by blast
  have "take QUEUE_SIZE (map st_id ?q @ map (\<lambda>d. st_id (f d)) ds)
      = take QUEUE_SIZE (map st_id q @ map (\<lambda>d. st_id (f d)) (d # ds))"
    using Cons.prems by (auto simp: take_Cons')
  with q' show ?case by (intro exI[of _ q']) (auto split: if_splits)
qed simp

text \<open>
  With authentication on, a toast announced to another replica reaches none of that replica's
  subscribers who own it: the announcement is re-fanned without its owner. The same subscriber on
  the announcing replica is sent every toast its queue had room for.
\<close>

theorem relayed_toasts_are_never_shown:
  fixes ds now mode u n m p
  defines "mine \<equiv> map (\<lambda>d. d\<lparr>dl_user := Some u\<rparr>) ds" and "me \<equiv> Some (p\<lparr>pr_id := Some u\<rparr>)"
    and "hubs \<equiv> (\<lambda>r :: string. subscribe_stream hub_init)"
  shows "stream_shown True me 1 n (publish [''a'', ''b''] ''a'' mode mine now hubs ''b'') = []
    \<and> map st_id (stream_shown True me 1 QUEUE_SIZE (publish [''a'', ''b''] ''a'' mode mine now hubs ''a''))
       = take QUEUE_SIZE (map dl_id ds)"
proof -
  have one: "hb_subs (hubs r) = [(1, [])]" for r by (simp add: hubs_def subscribe_stream_def hub_init_def)
  let ?f = "\<lambda>d. delivery_event mode d now" and ?g = "\<lambda>d. announced (delivery_event mode d now)"
  obtain qa where a: "hb_subs (publish [''a'', ''b''] ''a'' mode mine now hubs ''a'') = [(1, qa)]"
    "map st_id qa = take QUEUE_SIZE (map dl_id mine)" "st_user ` set qa \<subseteq> dl_user ` set mine"
    using fan_numbered_all[OF one[of "''a''"], where f = ?f and ds = mine]
    by (auto simp: publish_def publish_local_def delivery_event_def)
  obtain qb where b: "hb_subs (publish [''a'', ''b''] ''a'' mode mine now hubs ''b'') = [(1, qb)]"
    "st_user ` set qb \<subseteq> (\<lambda>d. None) ` set mine"
    using fan_numbered_all[OF one[of "''b''"], where f = ?g and ds = mine]
    by (auto simp: publish_def fan_in_def announced_def)
  have "filter (\<lambda>e. builtin_may_see True (st_user e) me) (take n qb) = []"
    using subsetD[OF b(2)] by (force simp: filter_empty_conv builtin_may_see_def me_def dest!: in_set_takeD)
  moreover have "\<forall>e \<in> set qa. st_user e = Some u" using a(3) by (auto simp: mine_def)
  then have "filter (\<lambda>e. builtin_may_see True (st_user e) me) (take QUEUE_SIZE qa) = take QUEUE_SIZE qa"
    by (auto simp: filter_id_conv builtin_may_see_def me_def dest!: in_set_takeD)
  moreover have "map st_id (take QUEUE_SIZE qa) = take QUEUE_SIZE (map dl_id ds)"
  proof -
    have "map st_id (take QUEUE_SIZE qa) = take QUEUE_SIZE (map st_id qa)" by (simp only: take_map)
    then show ?thesis unfolding a(2) by (simp add: mine_def comp_def)
  qed
  ultimately show ?thesis using shown_queue[OF a(1)] shown_queue[OF b(1)] by simp
qed

end
