(* ===== verification/Ambient_Delivery.thy ===== *)
theory Ambient_Delivery
  imports Ambient_Channels Settings "HOL-Library.List_Lexorder" "HOL-Library.Char_ord"
begin

text \<open>
  The delivery plane (\<open>backend/app/ambient/deliver.py\<close>): the outbox, its three flushes with quiet
  hours, budgets and owners, the feedback loop with its precision rule, and the per-user overrides
  of \<open>api/auth.py\<close>. A pass is one step; a process may die between the dispatch of a batch and the
  commit of its rows. The time zone database, presence, adapters and the clock are arguments.
\<close>

section \<open>Wall clocks\<close>

record zone_db =
  zd_known :: "string \<Rightarrow> bool"
  zd_offset :: "string \<Rightarrow> instant \<Rightarrow> int"    \<comment> \<open>of an instant, in microseconds\<close>
  zd_wall :: "string \<Rightarrow> int \<Rightarrow> int"           \<comment> \<open>of a wall-clock time\<close>

definition zone_of :: "zone_db \<Rightarrow> string \<Rightarrow> string" where
  "zone_of db tz = (if tz \<noteq> [] \<and> zd_known db tz then tz else ''UTC'')"

definition local_time :: "zone_db \<Rightarrow> string \<Rightarrow> instant \<Rightarrow> int" where
  "local_time db tz now = now + zd_offset db (zone_of db tz) now"

definition at_clock :: "int \<Rightarrow> int \<times> int \<Rightarrow> py_exc + int" where
  \<comment> \<open>\<open>local.replace(hour=h, minute=m, second=0, microsecond=0)\<close>\<close>
  "at_clock local hm = (case hm of (h, m) \<Rightarrow>
     if 0 \<le> h \<and> h < 24 \<and> 0 \<le> m \<and> m < 60 then Inr (midnight local + secs (h * 3600 + m * 60)) else Inl ValueErr)"

definition parse_clock :: "string \<Rightarrow> (int \<times> int) option" where
  "parse_clock s = (case split_on CHR '':'' s of
       [a, b] \<Rightarrow> (case (py_int a, py_int b) of (Some h, Some m) \<Rightarrow> Some (h, m) | _ \<Rightarrow> None)
     | _ \<Rightarrow> None)"

definition in_quiet_hours :: "zone_db \<Rightarrow> instant \<Rightarrow> string list \<Rightarrow> string \<Rightarrow> py_exc + bool" where
  "in_quiet_hours db now ranges tz = (case ranges of
       [a, b] \<Rightarrow>
         (let local = local_time db tz now
          in case (parse_clock a, parse_clock b) of
               (Some s, Some e) \<Rightarrow>
                 bind_r (at_clock local s) (\<lambda>start. bind_r (at_clock local e) (\<lambda>stop.
                   Inr (if start \<le> stop then start \<le> local \<and> local < stop else start \<le> local \<or> local < stop)))
             | _ \<Rightarrow> Inl ValueErr)
     | _ \<Rightarrow> Inr False)"

section \<open>Settings of an owner\<close>

record ambient_conf =
  ac_quiet :: "string list"
  ac_digest :: "string list"
  ac_zone :: string
  ac_budget :: int
  ac_escalation :: int

definition list_pref :: "pydict \<Rightarrow> string \<Rightarrow> string list \<Rightarrow> string list" where
  "list_pref prefs k d = (case dict_get prefs k of JList xs \<Rightarrow> map as_str xs | _ \<Rightarrow> d)"

definition effective_ambient_settings ::
    "ambient_conf \<Rightarrow> (string \<Rightarrow> pydict) \<Rightarrow> string option \<Rightarrow> ambient_conf" where
  \<comment> \<open>the prefs of an unknown user are empty\<close>
  "effective_ambient_settings g prefs_of user = (case user of
       None \<Rightarrow> g
     | Some u \<Rightarrow>
         (let prefs = prefs_of u
          in g\<lparr>ac_quiet := list_pref prefs ''ambient_quiet_hours'' (ac_quiet g),
               ac_digest := list_pref prefs ''ambient_digest_times'' (ac_digest g),
               ac_zone := (if nonempty_str (dict_get prefs ''ambient_timezone'')
                           then as_str (dict_get prefs ''ambient_timezone'') else ac_zone g)\<rparr>))"

definition PREF_KEYS :: "string list" where
  "PREF_KEYS = [''ambient_quiet_hours'', ''ambient_digest_times'']"

definition patch_prefs :: "pydict \<Rightarrow> pydict \<Rightarrow> pydict option" where
  \<comment> \<open>None is the 422 answer\<close>
  "patch_prefs body prefs =
     (if list_ex (\<lambda>kv. fst kv \<notin> set PREF_KEYS) body then None
      else if list_ex (\<lambda>kv. snd kv \<noteq> JNull \<and> (case snd kv of JList ts \<Rightarrow> \<not> list_all is_hhmm ts | _ \<Rightarrow> True)) body then None
      else Some (foldl (\<lambda>d kv. if snd kv = JNull then filter (\<lambda>e. fst e \<noteq> fst kv) d else dict_set d (fst kv) (snd kv))
                   prefs body))"

section \<open>The outbox\<close>

record policy =
  po_id :: nat
  po_user :: "string option"
  po_category :: string
  po_override :: "int option"
  po_source :: string
  po_precision :: "(real \<times> nat) option"     \<comment> \<open>what the reason text quotes\<close>

record outbox =
  ob_rows :: "delivery list"
  ob_policies :: "policy list"
  ob_sent :: "(string \<times> nat list) list"    \<comment> \<open>the batches dispatched, in order\<close>

definition outbox_init :: outbox where
  "outbox_init = \<lparr>ob_rows = [], ob_policies = [], ob_sent = []\<rparr>"

definition current_policy :: "string \<Rightarrow> string option \<Rightarrow> outbox \<Rightarrow> int option \<times> nat option" where
  \<comment> \<open>the ledger is in the order of \<open>created_at\<close>; newest first, the owner's row before the global one\<close>
  "current_policy category user s =
     (let rows = rev (filter (\<lambda>p. po_category p = category \<and> po_source p \<notin> {''learner_proposal'', ''learner_rejected''}
                                 \<and> (po_user p = user \<or> po_user p = None)) (ob_policies s))
      in case find (\<lambda>p. po_user p = user) rows of
           Some p \<Rightarrow> (po_override p, Some (po_id p))
         | None \<Rightarrow> (case rows of [] \<Rightarrow> (None, None) | p # _ \<Rightarrow> (po_override p, Some (po_id p))))"

record delivery_request =
  dq_category :: string
  dq_tier :: int
  dq_urgency :: int
  dq_title :: string
  dq_body :: "string option"
  dq_run :: "string option"
  dq_intent :: "string option"
  dq_skey :: "string option"
  dq_deadline :: "instant option"
  dq_user :: "string option"

record owners =
  ow_run :: "string \<Rightarrow> string option"       \<comment> \<open>the user of a run, None when it has none or is gone\<close>
  ow_intent :: "string \<Rightarrow> string option"
  ow_current :: "string option"

definition resolve_owner :: "owners \<Rightarrow> string option \<Rightarrow> string option \<Rightarrow> string option" where
  "resolve_owner ow run intent =
     (case Option.bind run (ow_run ow) of
        Some u \<Rightarrow> Some u
      | None \<Rightarrow> (case Option.bind intent (ow_intent ow) of Some u \<Rightarrow> Some u | None \<Rightarrow> ow_current ow))"

definition undelivered :: "delivery \<Rightarrow> bool" where
  "undelivered d \<longleftrightarrow> dl_delivered d = None \<and> dl_superseded d = None"

definition add_delivery :: "owners \<Rightarrow> instant \<Rightarrow> delivery_request \<Rightarrow> outbox \<Rightarrow> outbox" where
  "add_delivery ow now rq s =
     (let user = (case dq_user rq of None \<Rightarrow> resolve_owner ow (dq_run rq) (dq_intent rq) | Some u \<Rightarrow> Some u);
          (override, policy_id) = current_policy (dq_category rq) user s;
          tier = (case override of None \<Rightarrow> dq_tier rq | Some t \<Rightarrow> t);
          i = length (ob_rows s);
          row = \<lparr>dl_id = i, dl_user = user, dl_run = dq_run rq, dl_intent = dq_intent rq,
                 dl_category = dq_category rq, dl_tier = tier, dl_urgency = dq_urgency rq,
                 dl_title = take 250 (dq_title rq), dl_body = dq_body rq, dl_deadline = dq_deadline rq,
                 dl_delivered = (if tier = 3 then Some now else None),
                 dl_channel = (if tier = 3 then Some ''silent'' else None),
                 dl_superseded = None, dl_policy = (if override = None then None else policy_id),
                 dl_skey = dq_skey rq, dl_external = [], dl_feedback = None, dl_reward = None, dl_created = now\<rparr>;
          rows = (case dq_skey rq of
              None \<Rightarrow> ob_rows s
            | Some k \<Rightarrow> if k = [] then ob_rows s
                else map (\<lambda>d. if dl_skey d = Some k \<and> undelivered d then d\<lparr>dl_superseded := Some i\<rparr> else d) (ob_rows s))
      in s\<lparr>ob_rows := row_add row rows\<rparr>)"

definition owner_clause :: "bool \<Rightarrow> string option \<Rightarrow> delivery \<Rightarrow> bool" where
  "owner_clause scoped owner d \<longleftrightarrow> \<not> scoped \<or> dl_user d = owner"

definition pending_tier :: "int \<Rightarrow> bool \<Rightarrow> string option \<Rightarrow> delivery list \<Rightarrow> delivery list" where
  \<comment> \<open>most urgent first, then oldest\<close>
  "pending_tier tier scoped owner rows =
     sort_key (\<lambda>d. - dl_urgency d) (sort_key dl_created
       (filter (\<lambda>d. dl_tier d = tier \<and> undelivered d \<and> owner_clause scoped owner d) rows))"

definition delivered_since :: "instant \<Rightarrow> delivery \<Rightarrow> bool" where
  "delivered_since t d \<longleftrightarrow> (case dl_delivered d of None \<Rightarrow> False | Some u \<Rightarrow> t \<le> u)"

definition interrupts_delivered_today :: "instant \<Rightarrow> bool \<Rightarrow> string option \<Rightarrow> delivery list \<Rightarrow> nat" where
  "interrupts_delivered_today now scoped owner rows =
     length (filter (\<lambda>d. dl_channel d = Some ''interrupt'' \<and> delivered_since (midnight now) d
       \<and> owner_clause scoped owner d) rows)"

definition presence_active :: "(string \<Rightarrow> string option) \<Rightarrow> bool \<Rightarrow> string option \<Rightarrow> bool" where
  "presence_active presence scoped owner =
     (presence (case owner of Some u \<Rightarrow> if scoped then ''user:'' @ u else ''default'' | None \<Rightarrow> ''default'') = Some ''active'')"

section \<open>Flushes\<close>

datatype flush_stop = Raised py_exc | Died

type_synonym 'a flush = "(flush_stop + 'a) \<times> outbox"

definition deliver_batch ::
    "send_env \<Rightarrow> (string \<Rightarrow> bool) \<Rightarrow> string \<Rightarrow> nat list \<Rightarrow> instant \<Rightarrow> outbox \<Rightarrow> nat flush" where
  \<comment> \<open>\<open>dies mode\<close>: the process ends after the dispatch, before the commit\<close>
  "deliver_batch env dies mode ids now s =
     (if ids = [] then (Inr 0, s)
      else (let entries = dispatch_delivered env mode ids now;
                sent = s\<lparr>ob_sent := ob_sent s @ [(mode, ids)]\<rparr>;
                fresh = (\<lambda>d. dl_id d \<in> set ids \<and> dl_delivered d = None)
            in if dies mode then (Inl Died, sent)
               else (Inr (length (filter fresh (ob_rows s))),
                     sent\<lparr>ob_rows := map (\<lambda>d. if fresh d
                         then d\<lparr>dl_delivered := Some now, dl_channel := Some mode,
                                dl_external := foldl (\<lambda>x e. dict_set x (fst e) (snd e)) (dl_external d) entries\<rparr>
                         else d) (ob_rows s)\<rparr>)))"

definition then_flush :: "'a flush \<Rightarrow> ('a \<Rightarrow> outbox \<Rightarrow> 'b flush) \<Rightarrow> 'b flush" where
  \<comment> \<open>the rest of a pass runs unless the pass has stopped\<close>
  "then_flush r f = (case r of (Inl e, s) \<Rightarrow> (Inl e, s) | (Inr x, s) \<Rightarrow> f x s)"

definition demote :: "nat list \<Rightarrow> outbox \<Rightarrow> outbox" where
  "demote ids s = s\<lparr>ob_rows := map (\<lambda>d. if dl_id d \<in> set ids then d\<lparr>dl_tier := 2\<rparr> else d) (ob_rows s)\<rparr>"

definition digest_occurrences :: "zone_db \<Rightarrow> string \<Rightarrow> instant \<Rightarrow> string list \<Rightarrow> py_exc + int list" where
  "digest_occurrences db tz now hours =
     (let local = local_time db tz now
      in collect_r (\<lambda>hhmm. case parse_clock hhmm of
             None \<Rightarrow> Inr []
           | Some hm \<Rightarrow> bind_r (at_clock local hm) (\<lambda>t. Inr (if t \<le> local then [t] else []))) hours)"

definition last_digest :: "bool \<Rightarrow> string option \<Rightarrow> delivery list \<Rightarrow> instant option" where
  "last_digest scoped owner rows =
     (case List.map_filter dl_delivered (filter (\<lambda>d. dl_channel d = Some ''digest'' \<and> owner_clause scoped owner d) rows) of
        [] \<Rightarrow> None | t # ts \<Rightarrow> Some (foldl max t ts))"

definition digest_due ::
    "zone_db \<Rightarrow> instant \<Rightarrow> string list \<Rightarrow> string \<Rightarrow> bool \<Rightarrow> string option \<Rightarrow> delivery list \<Rightarrow> py_exc + bool" where
  "digest_due db now hours tz scoped owner rows =
     bind_r (digest_occurrences db tz now hours) (\<lambda>occ. Inr (case occ of
         [] \<Rightarrow> False
       | t # ts \<Rightarrow>
           (let latest = foldl max t ts
            in case last_digest scoped owner rows of
                 None \<Rightarrow> True
               | Some flush \<Rightarrow> flush < latest - zd_wall db (zone_of db tz) latest)))"

definition APPROVAL_CATEGORIES :: "string list" where
  "APPROVAL_CATEGORIES = [''hitl'', ''learning'']"

fun digest_choice :: "int \<Rightarrow> delivery list \<Rightarrow> nat list" where
  \<comment> \<open>approvals beyond the escalation budget wait for the next digest\<close>
  "digest_choice allowed [] = []"
| "digest_choice allowed (d # ds) =
     (if dl_category d \<in> set APPROVAL_CATEGORIES
      then if allowed \<le> 0 then digest_choice allowed ds else dl_id d # digest_choice (allowed - 1) ds
      else dl_id d # digest_choice allowed ds)"

definition approvals_today :: "instant \<Rightarrow> bool \<Rightarrow> string option \<Rightarrow> delivery list \<Rightarrow> nat" where
  "approvals_today now scoped owner rows =
     length (filter (\<lambda>d. dl_category d \<in> set APPROVAL_CATEGORIES \<and> delivered_since (midnight now) d
       \<and> owner_clause scoped owner d) rows)"

record flush_env =
  fe_zones :: zone_db
  fe_conf :: ambient_conf
  fe_prefs :: "string \<Rightarrow> pydict"
  fe_presence :: "string \<Rightarrow> string option"
  fe_send :: send_env
  fe_dies :: "string \<Rightarrow> bool"

definition bucket_conf :: "flush_env \<Rightarrow> bool \<Rightarrow> string option \<Rightarrow> ambient_conf" where
  "bucket_conf env scoped owner =
     effective_ambient_settings (fe_conf env) (fe_prefs env) (if scoped then owner else None)"

definition digest_flush :: "flush_env \<Rightarrow> instant \<Rightarrow> bool \<Rightarrow> string option \<Rightarrow> outbox \<Rightarrow> nat flush" where
  "digest_flush env now scoped owner s =
     (let allowed = max (ac_escalation (bucket_conf env scoped owner) - int (approvals_today now scoped owner (ob_rows s))) 0
      in deliver_batch (fe_send env) (fe_dies env) ''digest''
           (digest_choice allowed (pending_tier 2 scoped owner (ob_rows s))) now s)"

definition flush_tier1 :: "flush_env \<Rightarrow> instant \<Rightarrow> bool \<Rightarrow> bool \<Rightarrow> bool \<Rightarrow> string option \<Rightarrow> outbox \<Rightarrow> nat flush" where
  "flush_tier1 env now quiet forced scoped owner s =
     (let present = forced \<or> presence_active (fe_presence env) scoped owner;
          ready = filter (\<lambda>d. present \<or> (case dl_deadline d of None \<Rightarrow> False | Some t \<Rightarrow> t \<le> now))
                    (pending_tier 1 scoped owner (ob_rows s));
          ids = map dl_id ready
      in deliver_batch (fe_send env) (fe_dies env) ''notify'' (if quiet then [] else ids) now
           (demote (if quiet then ids else []) s))"

fun gate_interrupts :: "bool \<Rightarrow> int \<Rightarrow> int \<Rightarrow> delivery list \<Rightarrow> nat list \<times> nat list" where
  \<comment> \<open>the interrupts chosen and the ones demoted to the digest\<close>
  "gate_interrupts quiet budget used [] = ([], [])"
| "gate_interrupts quiet budget used (d # ds) =
     (if quiet \<or> budget \<le> used
      then (case gate_interrupts quiet budget used ds of (chosen, demoted) \<Rightarrow> (chosen, dl_id d # demoted))
      else (case gate_interrupts quiet budget (used + 1) ds of (chosen, demoted) \<Rightarrow> (dl_id d # chosen, demoted)))"

record flush_counts =
  fc_interrupt :: nat
  fc_notify :: nat
  fc_digest :: nat
  fc_demoted :: nat

definition flush_interrupts ::
    "flush_env \<Rightarrow> instant \<Rightarrow> bool \<Rightarrow> int \<Rightarrow> bool \<Rightarrow> string option \<Rightarrow> outbox \<Rightarrow> (nat \<times> nat) flush" where
  \<comment> \<open>how many were delivered and how many demoted\<close>
  "flush_interrupts env now quiet budget scoped owner s =
     (case gate_interrupts quiet budget (int (interrupts_delivered_today now scoped owner (ob_rows s)))
             (pending_tier 0 scoped owner (ob_rows s)) of
        (chosen, demoted) \<Rightarrow>
          then_flush (deliver_batch (fe_send env) (fe_dies env) ''interrupt'' chosen now (demote demoted s))
            (\<lambda>n s'. (Inr (n, length demoted), s')))"

definition flush_digest ::
    "flush_env \<Rightarrow> instant \<Rightarrow> bool \<Rightarrow> bool \<Rightarrow> string option \<Rightarrow> outbox \<Rightarrow> nat flush" where
  "flush_digest env now quiet scoped owner s =
     (if quiet then (Inr 0, s)
      else (let conf = bucket_conf env scoped owner
            in case digest_due (fe_zones env) now (ac_digest conf) (ac_zone conf) scoped owner (ob_rows s) of
                 Inl e \<Rightarrow> (Inl (Raised e), s)
               | Inr due \<Rightarrow> if due then digest_flush env now scoped owner s else (Inr 0, s)))"

definition flush_bucket ::
    "flush_env \<Rightarrow> instant \<Rightarrow> bool \<Rightarrow> string option \<Rightarrow> flush_counts \<Rightarrow> outbox \<Rightarrow> flush_counts flush" where
  "flush_bucket env now scoped owner out s =
     (let conf = bucket_conf env scoped owner
      in case in_quiet_hours (fe_zones env) now (ac_quiet conf) (ac_zone conf) of
           Inl e \<Rightarrow> (Inl (Raised e), s)
         | Inr quiet \<Rightarrow>
             then_flush (flush_interrupts env now quiet (ac_budget conf) scoped owner s) (\<lambda>(n, dem) s1.
             then_flush (flush_tier1 env now quiet False scoped owner s1) (\<lambda>m s2.
             then_flush (flush_digest env now quiet scoped owner s2) (\<lambda>k s3.
               (Inr (out\<lparr>fc_interrupt := fc_interrupt out + n, fc_notify := fc_notify out + m,
                         fc_digest := fc_digest out + k, fc_demoted := fc_demoted out + dem\<rparr>), s3)))))"

definition owner_name :: "string option \<Rightarrow> string" where
  "owner_name o' = (case o' of None \<Rightarrow> ''None'' | Some u \<Rightarrow> u)"

definition pending_owners :: "delivery list \<Rightarrow> string option list" where
  "pending_owners rows = sort_key owner_name (remdups (map dl_user (filter undelivered rows)))"

fun flush_owners ::
    "flush_env \<Rightarrow> instant \<Rightarrow> string option list \<Rightarrow> flush_counts \<Rightarrow> outbox \<Rightarrow> flush_counts flush" where
  "flush_owners env now [] out s = (Inr out, s)"
| "flush_owners env now (u # us) out s =
     then_flush (flush_bucket env now True u out s) (\<lambda>out' s'. flush_owners env now us out' s')"

definition no_counts :: flush_counts where
  "no_counts = \<lparr>fc_interrupt = 0, fc_notify = 0, fc_digest = 0, fc_demoted = 0\<rparr>"

definition flush_deliveries :: "flush_env \<Rightarrow> instant \<Rightarrow> bool \<Rightarrow> outbox \<Rightarrow> flush_counts flush" where
  "flush_deliveries env now tenancy s =
     (if \<not> tenancy then flush_bucket env now False None no_counts s
      else flush_owners env now (pending_owners (ob_rows s)) no_counts s)"

definition on_user_returned ::
    "flush_env \<Rightarrow> int \<Rightarrow> instant \<Rightarrow> bool \<Rightarrow> string option \<Rightarrow> outbox \<Rightarrow> nat flush" where
  \<comment> \<open>the absence in microseconds\<close>
  "on_user_returned env away now tenancy user s =
     then_flush (flush_tier1 env now False True tenancy user s) (\<lambda>n s'.
       if secs 3600 < away then digest_flush env now tenancy user s' else (Inr n, s'))"

section \<open>Feedback\<close>

definition FEEDBACK_VALUES :: "string list" where
  "FEEDBACK_VALUES = [''accepted'', ''dismissed'', ''ignored'']"

definition PRECISION_WINDOW :: nat where
  "PRECISION_WINDOW = 20"

definition PRECISION_MIN_SAMPLE :: nat where
  "PRECISION_MIN_SAMPLE = 5"

definition PRECISION_FLOOR :: real where
  "PRECISION_FLOOR = 1 / 4"

definition REPETITION_DECAY :: real where
  "REPETITION_DECAY = 4 / 5"

definition USEFULNESS_BONUS :: real where
  "USEFULNESS_BONUS = 1 / 2"

record talk_run =
  tr_id :: string
  tr_conversation :: string
  tr_started :: instant

definition repeats_before :: "delivery \<Rightarrow> instant \<Rightarrow> delivery list \<Rightarrow> nat" where
  "repeats_before d anchor rows =
     length (filter (\<lambda>e. dl_category e = dl_category d \<and> dl_id e \<noteq> dl_id d
       \<and> (case dl_delivered e of None \<Rightarrow> False | Some t \<Rightarrow> anchor - secs 86400 \<le> t \<and> t \<le> anchor)) rows)"

definition was_useful :: "delivery \<Rightarrow> talk_run list \<Rightarrow> bool" where
  \<comment> \<open>a later run of the same conversation\<close>
  "was_useful d runs = (case (Option.bind (dl_run d) (row_get tr_id runs), dl_delivered d) of
       (Some run, Some t) \<Rightarrow> list_ex (\<lambda>r. tr_conversation r = tr_conversation run \<and> t < tr_started r \<and> tr_id r \<noteq> tr_id run) runs
     | _ \<Rightarrow> False)"

definition compute_reward :: "delivery \<Rightarrow> string \<Rightarrow> instant \<Rightarrow> delivery list \<Rightarrow> talk_run list \<Rightarrow> real" where
  "compute_reward d feedback now rows runs =
     (let base = (if feedback = ''accepted'' then 1 else if feedback = ''dismissed'' then - 1 else 0 :: real);
          anchor = (case dl_delivered d of None \<Rightarrow> now | Some t \<Rightarrow> t);
          reward = (if 0 < base then base * REPETITION_DECAY ^ repeats_before d anchor rows else base);
          usefulness = (if feedback = ''accepted'' \<and> was_useful d runs then USEFULNESS_BONUS else 0)
      in round4 (reward + usefulness))"

definition category_precision :: "string \<Rightarrow> bool \<Rightarrow> string option \<Rightarrow> delivery list \<Rightarrow> real option \<times> nat" where
  \<comment> \<open>the table is in the order of \<open>created_at\<close>\<close>
  "category_precision category scoped user rows =
     (let judged = take PRECISION_WINDOW (rev (List.map_filter dl_feedback
            (filter (\<lambda>d. dl_category d = category \<and> dl_feedback d \<in> {Some ''accepted'', Some ''dismissed''}
               \<and> owner_clause scoped user d) rows)));
          n = length judged
      in if n = 0 then (None, 0) else (Some (real (count_list judged ''accepted'') / real n), n))"

definition base_tier :: "string \<Rightarrow> bool \<Rightarrow> string option \<Rightarrow> outbox \<Rightarrow> int" where
  "base_tier category scoped user s = (case fst (current_policy category (if scoped then user else None) s) of
       Some t \<Rightarrow> t
     | None \<Rightarrow> (case rev (filter (\<lambda>d. dl_category d = category) (ob_rows s)) of [] \<Rightarrow> 2 | d # _ \<Rightarrow> dl_tier d))"

definition apply_precision_rule :: "string \<Rightarrow> bool \<Rightarrow> string option \<Rightarrow> outbox \<Rightarrow> outbox" where
  "apply_precision_rule category scoped user s =
     (case category_precision category scoped user (ob_rows s) of
        (None, n) \<Rightarrow> s
      | (Some precision, n) \<Rightarrow>
          (let base = base_tier category scoped user s; target = min (base + 1) 3
           in if n < PRECISION_MIN_SAMPLE \<or> PRECISION_FLOOR \<le> precision \<or> target = base then s
              else s\<lparr>ob_policies := row_add
                     \<lparr>po_id = length (ob_policies s), po_user = (if scoped then user else None),
                      po_category = category, po_override = Some target, po_source = ''rule'',
                      po_precision = Some (precision, n)\<rparr> (ob_policies s)\<rparr>))"

definition record_feedback ::
    "bool \<Rightarrow> bool \<Rightarrow> bool \<Rightarrow> instant \<Rightarrow> talk_run list \<Rightarrow> nat \<Rightarrow> string \<Rightarrow> outbox \<Rightarrow> py_exc + outbox" where
  \<comment> \<open>learning off, rule enabled, tenancy\<close>
  "record_feedback learning_off rule_on tenancy now runs i feedback s =
     (if feedback \<notin> set FEEDBACK_VALUES then Inl ValueErr
      else (case row_get dl_id (ob_rows s) i of
          None \<Rightarrow> Inr s
        | Some d \<Rightarrow>
            (let reward = compute_reward (d\<lparr>dl_feedback := Some feedback\<rparr>) feedback now (ob_rows s) runs;
                 s1 = s\<lparr>ob_rows := row_upd dl_id i (\<lambda>d. d\<lparr>dl_feedback := Some feedback, dl_reward := Some reward\<rparr>) (ob_rows s)\<rparr>
             in Inr (if learning_off \<and> rule_on then apply_precision_rule (dl_category d) tenancy (dl_user d) s1 else s1))))"

section \<open>What every flush keeps\<close>

text \<open>
  A pass only demotes rows and delivers lawful batches: pending rows of the owner, interrupts within
  what the budget leaves. An invariant of these two steps is an invariant of every pass.
\<close>

definition lawful_batch ::
    "bool \<Rightarrow> string option \<Rightarrow> int \<Rightarrow> string \<Rightarrow> nat list \<Rightarrow> instant \<Rightarrow> outbox \<Rightarrow> bool" where
  "lawful_batch scoped owner budget mode ids now s \<longleftrightarrow>
     mode \<in> {''interrupt'', ''notify'', ''digest''}
     \<and> (\<forall>d \<in> set (ob_rows s). dl_id d \<in> set ids \<longrightarrow> undelivered d \<and> owner_clause scoped owner d)
     \<and> (mode = ''interrupt'' \<and> ids \<noteq> [] \<longrightarrow>
          int (interrupts_delivered_today now scoped owner (ob_rows s)) + int (length ids) \<le> budget)"

locale flush_system =
  fixes I :: "outbox \<Rightarrow> bool" and scoped :: bool and budget :: int
  assumes ids: "I s \<Longrightarrow> distinct (map dl_id (ob_rows s))"
    and demoted: "I s \<Longrightarrow> I (demote some_ids s)"
    and delivered: "I s \<Longrightarrow> lawful_batch scoped owner budget mode some_ids now s \<Longrightarrow>
      I (snd (deliver_batch env dies mode some_ids now s))"

lemma row_of_id:
  assumes "distinct (map dl_id rows)" "d \<in> set rows" "e \<in> set rows" "dl_id d = dl_id e"
  shows "d = e"
  using assms by (auto simp: distinct_map dest: inj_onD)

lemma set_pending: "set (pending_tier t scoped owner rows)
    = {d \<in> set rows. dl_tier d = t \<and> undelivered d \<and> owner_clause scoped owner d}"
  by (auto simp: pending_tier_def)

lemma pending_ids:
  assumes "distinct (map dl_id rows)" "set ids \<subseteq> dl_id ` set (pending_tier t scoped owner rows)" "d \<in> set rows" "dl_id d \<in> set ids"
  shows "undelivered d \<and> owner_clause scoped owner d"
proof -
  obtain e where "e \<in> set rows" "undelivered e" "owner_clause scoped owner e" "dl_id e = dl_id d"
    using assms(2,4) by (auto simp: set_pending)
  with row_of_id[OF assms(1)] assms(3) show ?thesis by metis
qed

lemma demote_rows: "d \<in> set (ob_rows (demote ids s)) \<Longrightarrow> \<exists>e \<in> set (ob_rows s). \<exists>t. d = e\<lparr>dl_tier := t\<rparr>"
proof -
  assume "d \<in> set (ob_rows (demote ids s))"
  then obtain e where "e \<in> set (ob_rows s)" "d = (if dl_id e \<in> set ids then e\<lparr>dl_tier := 2\<rparr> else e)"
    by (auto simp: demote_def)
  moreover have "e = e\<lparr>dl_tier := dl_tier e\<rparr>" by simp
  ultimately show ?thesis by metis
qed

lemma demote_ids [simp]: "map dl_id (ob_rows (demote ids s)) = map dl_id (ob_rows s)"
  by (simp add: demote_def)

lemma filter_demote:
  assumes "\<And>d t. P (d\<lparr>dl_tier := t\<rparr>) = P d"
  shows "length (filter P (ob_rows (demote ids s))) = length (filter P (ob_rows s))"
  unfolding demote_def by (induction "ob_rows s" arbitrary: s) (auto simp: assms filter_map comp_def)

lemma interrupts_demote [simp]:
  "interrupts_delivered_today now scoped owner (ob_rows (demote ids s)) = interrupts_delivered_today now scoped owner (ob_rows s)"
  unfolding interrupts_delivered_today_def by (rule filter_demote) (simp add: delivered_since_def owner_clause_def)

lemma gate_interrupts_facts:
  "gate_interrupts quiet b used ds = (chosen, demoted) \<Longrightarrow>
     set chosen \<subseteq> dl_id ` set ds \<and> (chosen \<noteq> [] \<longrightarrow> \<not> quiet \<and> used + int (length chosen) \<le> b)"
proof (induction ds arbitrary: used chosen demoted)
  case (Cons d ds)
  then show ?case by (fastforce split: if_splits prod.splits)
qed simp

lemma digest_choice_ids: "set (digest_choice n ds) \<subseteq> dl_id ` set ds"
  by (induction ds arbitrary: n) auto

lemma lawful_demoted:
  assumes "distinct (map dl_id (ob_rows s))" "set ids \<subseteq> dl_id ` set (pending_tier t scoped owner (ob_rows s))"
    and "mode \<in> {''interrupt'', ''notify'', ''digest''}"
    and "mode = ''interrupt'' \<and> ids \<noteq> [] \<longrightarrow>
      int (interrupts_delivered_today now scoped owner (ob_rows s)) + int (length ids) \<le> budget"
  shows "lawful_batch scoped owner budget mode ids now (demote dem s)"
proof -
  have "undelivered d \<and> owner_clause scoped owner d" if d: "d \<in> set (ob_rows (demote dem s))" "dl_id d \<in> set ids" for d
  proof -
    obtain e t where e: "e \<in> set (ob_rows s)" "d = e\<lparr>dl_tier := t\<rparr>" using demote_rows[OF d(1)] by blast
    with pending_ids[OF assms(1,2) e(1)] d(2) show ?thesis by (simp add: undelivered_def owner_clause_def)
  qed
  with assms(3,4) show ?thesis by (simp add: lawful_batch_def)
qed

lemma demote_none [simp]: "demote [] s = s"
  by (simp add: demote_def)

context flush_system begin

lemma deliver_pending:
  assumes "I s" "set some_ids \<subseteq> dl_id ` set (pending_tier t scoped owner (ob_rows s))"
    and "mode \<in> {''interrupt'', ''notify'', ''digest''}"
    and "mode = ''interrupt'' \<and> some_ids \<noteq> [] \<longrightarrow>
      int (interrupts_delivered_today now scoped owner (ob_rows s)) + int (length some_ids) \<le> budget"
  shows "I (snd (deliver_batch env dies mode some_ids now (demote dem s)))"
  by (rule delivered[OF demoted[OF assms(1)] lawful_demoted[OF ids[OF assms(1)] assms(2-4)]])

lemma tier1_inv: "I s \<Longrightarrow> I (snd (flush_tier1 env now quiet forced scoped owner s))"
  unfolding flush_tier1_def Let_def by (rule deliver_pending) auto

lemma digest_inv: "I s \<Longrightarrow> I (snd (digest_flush env now scoped owner s))"
proof -
  assume I: "I s"
  let ?rows = "pending_tier 2 scoped owner (ob_rows s)"
  have "I (snd (deliver_batch (fe_send env) (fe_dies env) ''digest'' (digest_choice n ?rows) now (demote [] s)))" for n
    by (rule deliver_pending[OF I digest_choice_ids]) auto
  then show ?thesis by (simp add: digest_flush_def Let_def)
qed

lemma interrupts_inv: "I s \<Longrightarrow> I (snd (flush_interrupts env now quiet budget scoped owner s))"
proof -
  assume I: "I s"
  let ?used = "int (interrupts_delivered_today now scoped owner (ob_rows s))"
  obtain chosen dem where g: "gate_interrupts quiet budget ?used (pending_tier 0 scoped owner (ob_rows s)) = (chosen, dem)"
    by (cases "gate_interrupts quiet budget ?used (pending_tier 0 scoped owner (ob_rows s))")
  have "I (snd (deliver_batch (fe_send env) (fe_dies env) ''interrupt'' chosen now (demote dem s)))"
    using I by (rule deliver_pending) (use gate_interrupts_facts[OF g] in auto)
  then show ?thesis
    by (auto simp: flush_interrupts_def g then_flush_def split: prod.splits sum.splits)
qed

lemma then_inv: "I (snd r) \<Longrightarrow> (\<And>x s. I s \<Longrightarrow> I (snd (f x s))) \<Longrightarrow> I (snd (then_flush r f))"
  by (auto simp: then_flush_def split: prod.splits sum.splits)

lemma bucket_inv:
  assumes "ac_budget (bucket_conf env scoped owner) = budget" "I s"
  shows "I (snd (flush_bucket env now scoped owner out s))"
proof -
  have dig: "I (snd (flush_digest env now quiet scoped owner s'))" if "I s'" for quiet s'
    using that digest_inv by (auto simp: flush_digest_def Let_def split: sum.splits)
  show ?thesis
    using assms dig tier1_inv interrupts_inv
    by (auto simp: flush_bucket_def Let_def split: sum.splits intro!: then_inv)
qed

lemma owners_inv:
  assumes "\<And>u. ac_budget (bucket_conf env True u) = budget" "scoped"
  shows "I s \<Longrightarrow> I (snd (flush_owners env now us out s))"
proof (induction us arbitrary: out s)
  case (Cons u us)
  show ?case using bucket_inv[OF _ Cons.prems] Cons.IH assms by (auto intro!: then_inv)
qed simp

end

lemma conf_budget [simp]: "ac_budget (bucket_conf env scoped owner) = ac_budget (fe_conf env)"
  by (simp add: bucket_conf_def effective_ambient_settings_def Let_def split: option.splits)

context flush_system begin

lemma flush_inv: "ac_budget (fe_conf env) = budget \<Longrightarrow> I s \<Longrightarrow> I (snd (flush_deliveries env now scoped s))"
  using bucket_inv[of env None] owners_inv[of env] by (cases scoped) (auto simp: flush_deliveries_def)

lemma returned_inv: "I s \<Longrightarrow> I (snd (on_user_returned env away now scoped user s))"
  unfolding on_user_returned_def using tier1_inv digest_inv by (auto intro!: then_inv)

end

section \<open>Histories of the outbox\<close>

datatype outbox_event =
    Adds owners delivery_request
  | Flushes flush_env
  | Returns flush_env int "string option"
  | Judges bool bool "talk_run list" nat string

definition with_budget :: "int \<Rightarrow> flush_env \<Rightarrow> flush_env" where
  "with_budget b env = env\<lparr>fe_conf := (fe_conf env)\<lparr>ac_budget := b\<rparr>\<rparr>"

fun outbox_act :: "bool \<Rightarrow> int \<Rightarrow> instant \<Rightarrow> outbox_event \<Rightarrow> outbox \<Rightarrow> outbox" where
  "outbox_act ten b now (Adds ow rq) s = add_delivery ow now rq s"
| "outbox_act ten b now (Flushes env) s = snd (flush_deliveries (with_budget b env) now ten s)"
| "outbox_act ten b now (Returns env away user) s = snd (on_user_returned (with_budget b env) away now ten user s)"
| "outbox_act ten b now (Judges off rule_on runs i v) s = (case record_feedback off rule_on ten now runs i v s of
       Inl e \<Rightarrow> s | Inr s' \<Rightarrow> s')"

definition outbox_step :: "bool \<Rightarrow> int \<Rightarrow> outbox \<Rightarrow> instant \<times> outbox_event \<Rightarrow> outbox" where
  \<comment> \<open>tenancy and the interrupt budget stay as they are set\<close>
  "outbox_step ten b s te = outbox_act ten b (fst te) (snd te) s"

lemma with_budget_conf [simp]: "ac_budget (fe_conf (with_budget b env)) = b"
  by (simp add: with_budget_def)

context flush_system begin

lemma act_inv:
  assumes "I s"
    and adds: "\<And>ow rq now. I (add_delivery ow now rq s)"
    and judges: "\<And>i v r. I (s\<lparr>ob_rows := row_upd dl_id i (\<lambda>d. d\<lparr>dl_feedback := v, dl_reward := r\<rparr>) (ob_rows s)\<rparr>)"
    and policies: "\<And>s ps. I s \<Longrightarrow> I (s\<lparr>ob_policies := ps\<rparr>)"
  shows "I (outbox_step scoped budget s te)"
proof -
  have rule: "I (apply_precision_rule c sc u s')" if "I s'" for c sc u s'
    using that policies by (auto simp: apply_precision_rule_def Let_def split: prod.splits option.splits)
  have "I s'" if "record_feedback off on ten now runs i v s = Inr s'" for off on ten now runs i v s'
    using that judges rule assms(1) by (auto simp: record_feedback_def Let_def split: if_splits option.splits)
  then show ?thesis
    using assms(1) adds flush_inv returned_inv
    by (cases "snd te") (auto simp: outbox_step_def split: sum.splits)
qed

end

definition numbered :: "outbox \<Rightarrow> bool" where
  "numbered s \<longleftrightarrow> map dl_id (ob_rows s) = [0..<length (ob_rows s)]"

lemma numbered_distinct: "numbered s \<Longrightarrow> distinct (map dl_id (ob_rows s))"
  by (simp add: numbered_def)

lemma deliver_ids [simp]: "map dl_id (ob_rows (snd (deliver_batch env dies mode ids now s))) = map dl_id (ob_rows s)"
  by (simp add: deliver_batch_def Let_def)

lemma deliver_length [simp]: "length (ob_rows (snd (deliver_batch env dies mode ids now s))) = length (ob_rows s)"
  by (metis deliver_ids length_map)

lemma demote_length [simp]: "length (ob_rows (demote ids s)) = length (ob_rows s)"
  by (metis demote_ids length_map)

lemma numbered_rows: "map dl_id rows = map dl_id (ob_rows s) \<Longrightarrow> numbered s \<Longrightarrow> numbered (s\<lparr>ob_rows := rows\<rparr>)"
proof -
  assume ids: "map dl_id rows = map dl_id (ob_rows s)" and n: "numbered s"
  then have "length rows = length (ob_rows s)" by (metis length_map)
  with ids n show ?thesis by (simp add: numbered_def)
qed

definition superseding :: "nat \<Rightarrow> string option \<Rightarrow> delivery \<Rightarrow> delivery" where
  "superseding i key d = (case key of
       None \<Rightarrow> d
     | Some k \<Rightarrow> if k \<noteq> [] \<and> dl_skey d = Some k \<and> undelivered d then d\<lparr>dl_superseded := Some i\<rparr> else d)"

lemma add_delivery_rows:
  "\<exists>row. ob_rows (add_delivery ow now rq s) = map (superseding (length (ob_rows s)) (dq_skey rq)) (ob_rows s) @ [row]
     \<and> dl_id row = length (ob_rows s) \<and> dl_superseded row = None \<and> dl_skey row = dq_skey rq
     \<and> (dl_delivered row = None \<and> dl_channel row = None \<or> dl_channel row = Some ''silent'')
     \<and> ob_sent (add_delivery ow now rq s) = ob_sent s"
proof -
  let ?i = "length (ob_rows s)"
  have "(case dq_skey rq of None \<Rightarrow> ob_rows s
      | Some k \<Rightarrow> if k = [] then ob_rows s
          else map (\<lambda>d. if dl_skey d = Some k \<and> undelivered d then d\<lparr>dl_superseded := Some ?i\<rparr> else d) (ob_rows s))
    = map (superseding ?i (dq_skey rq)) (ob_rows s)"
    by (cases "dq_skey rq") (auto simp: superseding_def map_idI)
  then show ?thesis
    unfolding add_delivery_def Let_def by (auto simp: row_add_def split: prod.splits)
qed

lemma superseding_keeps [simp]:
  "dl_id (superseding i key d) = dl_id d" "dl_delivered (superseding i key d) = dl_delivered d"
  "dl_channel (superseding i key d) = dl_channel d" "dl_user (superseding i key d) = dl_user d"
  "dl_skey (superseding i key d) = dl_skey d"
  by (simp_all add: superseding_def split: option.splits)

lemma numbered_add: "numbered s \<Longrightarrow> numbered (add_delivery ow now rq s)"
  using add_delivery_rows[of ow now rq s] by (auto simp: numbered_def comp_def)

subsection \<open>The interrupt budget\<close>

definition interrupts_on :: "bool \<Rightarrow> string option \<Rightarrow> instant \<Rightarrow> delivery list \<Rightarrow> nat" where
  \<comment> \<open>the interrupts of a day; with tenancy, of an owner\<close>
  "interrupts_on ten owner day rows =
     length (filter (\<lambda>d. dl_channel d = Some ''interrupt'' \<and> map_option midnight (dl_delivered d) = Some day
       \<and> owner_clause ten owner d) rows)"

definition budget_ok :: "bool \<Rightarrow> int \<Rightarrow> outbox \<Rightarrow> bool" where
  "budget_ok ten b s \<longleftrightarrow> numbered s \<and> (\<forall>owner day. int (interrupts_on ten owner day (ob_rows s)) \<le> max 0 b)"

lemma midnight_mono: "s \<le> t \<Longrightarrow> midnight s \<le> midnight t"
  by (simp add: midnight_def day_us_def zdiv_mono1)

lemma interrupts_on_today:
  "interrupts_on ten owner (midnight now) rows \<le> interrupts_delivered_today now ten owner rows"
proof -
  have "delivered_since (midnight now) d" if "map_option midnight (dl_delivered d) = Some (midnight now)" for d
    using that midnight_bounds[of "the (dl_delivered d)"] by (auto simp: delivered_since_def)
  then show ?thesis
    unfolding interrupts_on_def interrupts_delivered_today_def by (induction rows) auto
qed

lemma length_filter_map_le:
  assumes "\<And>d. d \<in> set rows \<Longrightarrow> P (f d) \<Longrightarrow> P d \<or> Q d"
  shows "length (filter P (map f rows)) \<le> length (filter P rows) + length (filter Q rows)"
  using assms by (induction rows) (auto simp: le_SucI)

lemma length_filter_ids:
  assumes "distinct (map dl_id rows)" "\<And>d. d \<in> set rows \<Longrightarrow> Q d \<Longrightarrow> dl_id d \<in> set ids"
  shows "length (filter Q rows) \<le> length ids"
proof -
  have "distinct (map dl_id (filter Q rows))" using assms(1) by (rule distinct_map_filter)
  then have "length (filter Q rows) = card (dl_id ` set (filter Q rows))"
    by (metis distinct_card length_map set_map)
  also have "\<dots> \<le> card (set ids)" using assms(2) by (intro card_mono) auto
  also have "\<dots> \<le> length ids" by (rule card_length)
  finally show ?thesis .
qed

lemma deliver_batch_rows:
  "ob_rows (snd (deliver_batch env dies mode ids now s)) = ob_rows s
   \<or> (\<exists>x. ob_rows (snd (deliver_batch env dies mode ids now s)) = map (\<lambda>d. if dl_id d \<in> set ids \<and> dl_delivered d = None
        then d\<lparr>dl_delivered := Some now, dl_channel := Some mode, dl_external := x d\<rparr> else d) (ob_rows s)
      \<and> (mode, ids) \<in> set (ob_sent (snd (deliver_batch env dies mode ids now s))))"
proof (cases "ids = [] \<or> dies mode")
  case False
  then show ?thesis
    by (intro disjI2 exI[of _ "\<lambda>d. foldl (\<lambda>x e. dict_set x (fst e) (snd e)) (dl_external d) (dispatch_delivered env mode ids now)"])
      (simp add: deliver_batch_def Let_def)
next
  case True
  then have "ob_rows (snd (deliver_batch env dies mode ids now s)) = ob_rows s"
    by (auto simp: deliver_batch_def Let_def)
  then show ?thesis ..
qed

lemma interrupts_on_deliver:
  assumes "distinct (map dl_id (ob_rows s))" "lawful_batch ten owner b mode ids now s"
  shows "int (interrupts_on ten owner' day (ob_rows (snd (deliver_batch env dies mode ids now s))))
    \<le> max (int (interrupts_on ten owner' day (ob_rows s))) (max 0 b)"
proof -
  let ?P = "\<lambda>d. dl_channel d = Some ''interrupt'' \<and> map_option midnight (dl_delivered d) = Some day \<and> owner_clause ten owner' d"
  let ?Q = "\<lambda>d. dl_id d \<in> set ids \<and> mode = ''interrupt'' \<and> day = midnight now \<and> owner_clause ten owner' d"
  consider "ob_rows (snd (deliver_batch env dies mode ids now s)) = ob_rows s"
    | (batch) x where "ob_rows (snd (deliver_batch env dies mode ids now s)) = map (\<lambda>d. if dl_id d \<in> set ids \<and> dl_delivered d = None
        then d\<lparr>dl_delivered := Some now, dl_channel := Some mode, dl_external := x d\<rparr> else d) (ob_rows s)"
    using deliver_batch_rows by blast
  then show ?thesis
  proof cases
    case batch
    let ?new = "length (filter ?Q (ob_rows s))"
    have le: "interrupts_on ten owner' day (ob_rows (snd (deliver_batch env dies mode ids now s)))
        \<le> interrupts_on ten owner' day (ob_rows s) + ?new"
      unfolding batch interrupts_on_def by (rule length_filter_map_le) (auto simp: owner_clause_def split: if_splits)
    show ?thesis
    proof (cases "?new = 0")
      case False
      then obtain d where d: "d \<in> set (ob_rows s)" "?Q d" by (fastforce simp: filter_empty_conv)
      have "owner_clause ten owner d" using assms(2) d by (simp add: lawful_batch_def)
      then have same: "owner_clause ten owner' = owner_clause ten owner"
        using d by (auto simp: owner_clause_def fun_eq_iff)
      have "int (interrupts_delivered_today now ten owner (ob_rows s)) + int (length ids) \<le> b"
        using assms(2) d by (auto simp: lawful_batch_def)
      moreover have "interrupts_on ten owner' day (ob_rows s) \<le> interrupts_delivered_today now ten owner (ob_rows s)"
        using interrupts_on_today[of ten owner now] d same by (simp add: interrupts_on_def)
      moreover have "?new \<le> length ids" using assms(1) by (rule length_filter_ids) simp
      ultimately show ?thesis using le by linarith
    qed (use le in simp)
  qed simp
qed

lemma interrupts_on_same:
  assumes "\<And>d. dl_channel (f d) = dl_channel d \<and> dl_delivered (f d) = dl_delivered d \<and> dl_user (f d) = dl_user d"
  shows "interrupts_on ten owner day (map f rows) = interrupts_on ten owner day rows"
  unfolding interrupts_on_def by (induction rows) (simp_all add: assms owner_clause_def)

lemma interrupts_on_demote [simp]:
  "interrupts_on ten owner day (ob_rows (demote ids s)) = interrupts_on ten owner day (ob_rows s)"
  unfolding demote_def by (simp add: interrupts_on_same)

lemma interrupts_on_add: "interrupts_on ten owner day (ob_rows (add_delivery ow now rq s)) = interrupts_on ten owner day (ob_rows s)"
proof -
  obtain row where row: "ob_rows (add_delivery ow now rq s) = map (superseding (length (ob_rows s)) (dq_skey rq)) (ob_rows s) @ [row]"
    "dl_channel row \<noteq> Some ''interrupt''" using add_delivery_rows[of ow now rq s] by force
  then have "interrupts_on ten owner day (ob_rows (add_delivery ow now rq s))
      = interrupts_on ten owner day (map (superseding (length (ob_rows s)) (dq_skey rq)) (ob_rows s))"
    by (simp add: interrupts_on_def)
  then show ?thesis by (simp add: interrupts_on_same)
qed

interpretation budgeted: flush_system "budget_ok ten b" ten b
proof
  show "distinct (map dl_id (ob_rows s))" if "budget_ok ten b s" for s
    using that by (simp add: budget_ok_def numbered_distinct)
  show "budget_ok ten b (demote ids s)" if "budget_ok ten b s" for ids s
    using that by (simp add: budget_ok_def numbered_def)
  show "budget_ok ten b (snd (deliver_batch env dies mode ids now s))"
    if ok: "budget_ok ten b s" and batch: "lawful_batch ten owner b mode ids now s" for owner mode ids now s env dies
  proof -
    have "int (interrupts_on ten owner' day (ob_rows (snd (deliver_batch env dies mode ids now s)))) \<le> max 0 b" for owner' day
      using interrupts_on_deliver[OF _ batch, of owner' day env dies] ok by (fastforce simp: budget_ok_def numbered_distinct)
    with ok show ?thesis by (simp add: budget_ok_def numbered_def)
  qed
qed

lemma budget_ok_step: "budget_ok ten b s \<Longrightarrow> budget_ok ten b (outbox_step ten b s te)"
proof (rule budgeted.act_inv)
  assume ok: "budget_ok ten b s"
  show "budget_ok ten b (add_delivery ow now rq s)" for ow rq now
    using ok by (simp add: budget_ok_def interrupts_on_add numbered_add)
  show "budget_ok ten b (s\<lparr>ob_rows := row_upd dl_id i (\<lambda>d. d\<lparr>dl_feedback := v, dl_reward := r\<rparr>) (ob_rows s)\<rparr>)" for i v r
    using ok by (auto simp: budget_ok_def row_upd_def interrupts_on_same intro!: numbered_rows)
  show "budget_ok ten b (s'\<lparr>ob_policies := ps\<rparr>)" if "budget_ok ten b s'" for s' ps
    using that by (simp add: budget_ok_def numbered_def)
qed

interpretation budget_history: inv_system "outbox_step ten b" "budget_ok ten b"
  by unfold_locales (rule budget_ok_step)

lemma budget_run: "budget_ok ten b (foldl (outbox_step ten b) outbox_init history)"
  by (rule budget_history.run_inv) (simp add: budget_ok_def numbered_def outbox_init_def interrupts_on_def)


subsection \<open>Delivered once, after a dispatch\<close>

definition delivery_ok :: "(string \<times> nat list) list \<Rightarrow> delivery list \<Rightarrow> delivery \<Rightarrow> bool" where
  "delivery_ok sent rows d \<longleftrightarrow>
     (case dl_superseded d of None \<Rightarrow> True
      | Some j \<Rightarrow> dl_delivered d = None \<and> dl_id d < j \<and> (\<exists>e \<in> set rows. dl_id e = j \<and> dl_skey e = dl_skey d))
     \<and> (dl_delivered d = None \<or> dl_channel d = Some ''silent''
        \<or> (\<exists>m ids. dl_channel d = Some m \<and> (m, ids) \<in> set sent \<and> dl_id d \<in> set ids))"

definition outbox_ok :: "outbox \<Rightarrow> bool" where
  "outbox_ok s \<longleftrightarrow> numbered s \<and> (\<forall>d \<in> set (ob_rows s). delivery_ok (ob_sent s) (ob_rows s) d)"

definition same_delivery :: "delivery \<Rightarrow> delivery \<Rightarrow> bool" where
  "same_delivery d e \<longleftrightarrow> dl_id e = dl_id d \<and> dl_delivered e = dl_delivered d \<and> dl_channel e = dl_channel d"

definition keeps_delivered :: "delivery list \<Rightarrow> outbox \<Rightarrow> bool" where
  "keeps_delivered old s \<longleftrightarrow> outbox_ok s
     \<and> (\<forall>d \<in> set old. dl_delivered d \<noteq> None \<longrightarrow> (\<exists>e \<in> set (ob_rows s). same_delivery d e))"

lemma delivery_ok_mono:
  assumes "delivery_ok sent rows d" "set sent \<subseteq> set sent'" "set rows \<subseteq> set rows'"
  shows "delivery_ok sent' rows' d"
proof -
  have "(\<exists>m ids. dl_channel d = Some m \<and> (m, ids) \<in> set sent \<and> dl_id d \<in> set ids) \<longrightarrow>
    (\<exists>m ids. dl_channel d = Some m \<and> (m, ids) \<in> set sent' \<and> dl_id d \<in> set ids)"
    using assms(2) by blast
  moreover have "(\<exists>e \<in> set rows. dl_id e = j \<and> dl_skey e = dl_skey d) \<longrightarrow> (\<exists>e \<in> set rows'. dl_id e = j \<and> dl_skey e = dl_skey d)" for j
    using assms(3) by blast
  ultimately show ?thesis using assms(1) unfolding delivery_ok_def by (auto split: option.splits)
qed

lemma delivery_ok_map:
  assumes "delivery_ok sent rows d"
    and "\<And>d. dl_id (f d) = dl_id d \<and> dl_skey (f d) = dl_skey d"
    and "dl_superseded e = dl_superseded d" "dl_delivered e = dl_delivered d" "dl_channel e = dl_channel d"
      "dl_id e = dl_id d" "dl_skey e = dl_skey d"
  shows "delivery_ok sent (map f rows) e"
  using assms by (auto simp: delivery_ok_def split: option.splits)

lemma outbox_ok_map:
  assumes ok: "outbox_ok s"
    and f: "\<And>d. dl_id (f d) = dl_id d \<and> dl_skey (f d) = dl_skey d \<and> dl_superseded (f d) = dl_superseded d
      \<and> dl_delivered (f d) = dl_delivered d \<and> dl_channel (f d) = dl_channel d"
  shows "outbox_ok (s\<lparr>ob_rows := map f (ob_rows s)\<rparr>)"
proof -
  have "delivery_ok (ob_sent s) (map f (ob_rows s)) (f d)" if "d \<in> set (ob_rows s)" for d
    using ok that f by (intro delivery_ok_map[where d = d]) (auto simp: outbox_ok_def)
  then show ?thesis using ok f by (auto simp: outbox_ok_def comp_def intro!: numbered_rows)
qed

lemma keeps_map:
  assumes "keeps_delivered old s" "outbox_ok s'"
    and "\<And>d. d \<in> set (ob_rows s) \<Longrightarrow> dl_delivered d \<noteq> None \<Longrightarrow> \<exists>e \<in> set (ob_rows s'). same_delivery d e"
  shows "keeps_delivered old s'"
proof -
  have "\<exists>e \<in> set (ob_rows s'). same_delivery d e" if d: "d \<in> set old" "dl_delivered d \<noteq> None" for d
  proof -
    obtain e where "e \<in> set (ob_rows s)" "same_delivery d e" using assms(1) d by (auto simp: keeps_delivered_def)
    with assms(3)[of e] d(2) show ?thesis by (fastforce simp: same_delivery_def)
  qed
  with assms(2) show ?thesis by (simp add: keeps_delivered_def)
qed

lemma keeps_by_map:
  assumes "keeps_delivered old s"
    and f: "\<And>d. dl_id (f d) = dl_id d \<and> dl_skey (f d) = dl_skey d \<and> dl_superseded (f d) = dl_superseded d
      \<and> dl_delivered (f d) = dl_delivered d \<and> dl_channel (f d) = dl_channel d"
  shows "keeps_delivered old (s\<lparr>ob_rows := map f (ob_rows s)\<rparr>)"
proof (rule keeps_map[OF assms(1)])
  show "outbox_ok (s\<lparr>ob_rows := map f (ob_rows s)\<rparr>)" using assms by (intro outbox_ok_map) (auto simp: keeps_delivered_def)
  show "\<exists>e \<in> set (ob_rows (s\<lparr>ob_rows := map f (ob_rows s)\<rparr>)). same_delivery d e" if "d \<in> set (ob_rows s)" for d
    using that f by (intro bexI[of _ "f d"]) (auto simp: same_delivery_def)
qed

lemma outbox_ok_deliver:
  assumes ok: "outbox_ok s" and batch: "lawful_batch scoped owner b mode ids now s"
  shows "outbox_ok (snd (deliver_batch env dies mode ids now s))"
proof -
  let ?s = "snd (deliver_batch env dies mode ids now s)"
  have sent: "ob_sent ?s = ob_sent s \<or> ob_sent ?s = ob_sent s @ [(mode, ids)]" "set (ob_sent s) \<subseteq> set (ob_sent ?s)"
    by (auto simp: deliver_batch_def Let_def)
  consider "ob_rows ?s = ob_rows s"
    | (batch) x where "ob_rows ?s = map (\<lambda>d. if dl_id d \<in> set ids \<and> dl_delivered d = None
        then d\<lparr>dl_delivered := Some now, dl_channel := Some mode, dl_external := x d\<rparr> else d) (ob_rows s)"
      "(mode, ids) \<in> set (ob_sent ?s)"
    using deliver_batch_rows by blast
  then have "\<forall>d \<in> set (ob_rows ?s). delivery_ok (ob_sent ?s) (ob_rows ?s) d"
  proof cases
    case 1
    with ok sent(2) show ?thesis unfolding outbox_ok_def by (auto intro: delivery_ok_mono)
  next
    case batch
    let ?f = "\<lambda>d. if dl_id d \<in> set ids \<and> dl_delivered d = None
        then d\<lparr>dl_delivered := Some now, dl_channel := Some mode, dl_external := x d\<rparr> else d"
    have "delivery_ok (ob_sent ?s) (map ?f (ob_rows s)) (?f d)" if d: "d \<in> set (ob_rows s)" for d
    proof (cases "dl_id d \<in> set ids \<and> dl_delivered d = None")
      case True
      with assms(2) d have "dl_superseded d = None" by (auto simp: lawful_batch_def undelivered_def)
      with True batch(2) show ?thesis by (auto simp: delivery_ok_def)
    next
      case False
      have "delivery_ok (ob_sent s) (ob_rows s) d" using ok d by (simp add: outbox_ok_def)
      then have "delivery_ok (ob_sent ?s) (ob_rows s) d" using sent(2) by (rule delivery_ok_mono) simp
      then show ?thesis by (rule delivery_ok_map) (use False in auto)
    qed
    then have "\<forall>e \<in> ?f ` set (ob_rows s). delivery_ok (ob_sent ?s) (map ?f (ob_rows s)) e" by blast
    then show ?thesis unfolding batch(1) set_map .
  qed
  then show ?thesis using ok by (simp add: outbox_ok_def numbered_def)
qed

lemma outbox_ok_add:
  assumes ok: "outbox_ok s"
  shows "outbox_ok (add_delivery ow now rq s)"
proof -
  let ?i = "length (ob_rows s)" and ?s = "add_delivery ow now rq s"
  let ?f = "superseding ?i (dq_skey rq)"
  obtain row where row: "ob_rows ?s = map ?f (ob_rows s) @ [row]" "dl_id row = ?i" "dl_superseded row = None"
    "dl_skey row = dq_skey rq" "dl_delivered row = None \<and> dl_channel row = None \<or> dl_channel row = Some ''silent''"
    "ob_sent ?s = ob_sent s" using add_delivery_rows by blast
  have "delivery_ok (ob_sent s) (map ?f (ob_rows s) @ [row]) (?f d)" if d: "d \<in> set (ob_rows s)" for d
  proof (cases "?f d = d")
    case True
    have "delivery_ok (ob_sent s) (ob_rows s) d" using ok d by (simp add: outbox_ok_def)
    then have "delivery_ok (ob_sent s) (map ?f (ob_rows s)) (?f d)" by (rule delivery_ok_map) (use True in simp_all)
    then show ?thesis by (rule delivery_ok_mono) auto
  next
    case False
    have "dl_id d < ?i" using ok d unfolding outbox_ok_def numbered_def
      by (metis atLeastLessThan_iff image_eqI set_map set_upt)
    with False row show ?thesis by (auto simp: delivery_ok_def superseding_def undelivered_def split: option.splits if_splits)
  qed
  moreover have "delivery_ok (ob_sent s) (map ?f (ob_rows s) @ [row]) row" using row by (auto simp: delivery_ok_def)
  ultimately show ?thesis using ok numbered_add[of s] row by (auto simp: outbox_ok_def)
qed

lemma deliver_keeps:
  assumes "d \<in> set (ob_rows s)" "dl_delivered d \<noteq> None"
  shows "\<exists>e \<in> set (ob_rows (snd (deliver_batch env dies mode ids now s))). same_delivery d e"
  using deliver_batch_rows[of env dies mode ids now s] assms by (force simp: same_delivery_def)

interpretation kept: flush_system "keeps_delivered old" scoped b
proof
  show "distinct (map dl_id (ob_rows s))" if "keeps_delivered old s" for s
    using that by (simp add: keeps_delivered_def outbox_ok_def numbered_distinct)
  show "keeps_delivered old (demote ids s)" if "keeps_delivered old s" for ids s
    using that unfolding demote_def by (rule keeps_by_map) simp
  show "keeps_delivered old (snd (deliver_batch env dies mode ids now s))"
    if ok: "keeps_delivered old s" and batch: "lawful_batch scoped owner b mode ids now s" for owner mode ids now s env dies
  proof (rule keeps_map[OF ok])
    show "outbox_ok (snd (deliver_batch env dies mode ids now s))"
      using ok batch by (auto simp: keeps_delivered_def intro: outbox_ok_deliver)
  qed (rule deliver_keeps)
qed

lemma keeps_step: "keeps_delivered old s \<Longrightarrow> keeps_delivered old (outbox_step ten b s te)"
proof (rule kept.act_inv)
  assume ok: "keeps_delivered old s"
  show "keeps_delivered old (add_delivery ow now rq s)" for ow rq now
  proof (rule keeps_map[OF ok outbox_ok_add])
    obtain row where "ob_rows (add_delivery ow now rq s) = map (superseding (length (ob_rows s)) (dq_skey rq)) (ob_rows s) @ [row]"
      using add_delivery_rows by blast
    then show "d \<in> set (ob_rows s) \<Longrightarrow> \<exists>e \<in> set (ob_rows (add_delivery ow now rq s)). same_delivery d e" for d
      by (force simp: same_delivery_def)
  qed (use ok in \<open>simp add: keeps_delivered_def\<close>)
  show "keeps_delivered old (s\<lparr>ob_rows := row_upd dl_id i (\<lambda>d. d\<lparr>dl_feedback := v, dl_reward := r\<rparr>) (ob_rows s)\<rparr>)" for i v r
    using ok unfolding row_upd_def by (rule keeps_by_map) simp
  show "keeps_delivered old (s'\<lparr>ob_policies := ps\<rparr>)" if "keeps_delivered old s'" for s' ps
    using that by (simp add: keeps_delivered_def outbox_ok_def numbered_def)
qed

interpretation kept_history: inv_system "outbox_step ten b" "keeps_delivered old"
  by unfold_locales (rule keeps_step)

text \<open>
  Over any history, with crashes between dispatch and commit, a row is marked delivered only by
  a channel its batch was dispatched to (or on insert, silently), stays delivered as it was, and is
  replaced only while undelivered, by a later row with the same key.
\<close>

theorem deliveries_are_final:
  fixes ten b past future
  defines "s \<equiv> foldl (outbox_step ten b) outbox_init past"
  defines "s' \<equiv> foldl (outbox_step ten b) s future"
  shows "list_all (\<lambda>d. dl_delivered d = None \<or> list_ex (same_delivery d) (ob_rows s')) (ob_rows s)
    \<and> list_all (delivery_ok (ob_sent s') (ob_rows s')) (ob_rows s')"
proof -
  have "keeps_delivered [] outbox_init" by (simp add: keeps_delivered_def outbox_ok_def outbox_init_def numbered_def)
  then have "keeps_delivered [] s" unfolding s_def by (rule kept_history.run_inv)
  then have "keeps_delivered (ob_rows s) s" by (auto simp: keeps_delivered_def same_delivery_def)
  then have "keeps_delivered (ob_rows s) s'" unfolding s'_def by (rule kept_history.run_inv)
  then show ?thesis by (auto simp: keeps_delivered_def outbox_ok_def list_all_iff list_ex_iff)
qed

section \<open>Quiet hours\<close>

lemma deliver_nothing [simp]: "deliver_batch env dies mode [] now s = (Inr 0, s)"
  by (simp add: deliver_batch_def)

lemma map_demote: "(\<And>d t. g (d\<lparr>dl_tier := t\<rparr>) = g d) \<Longrightarrow> map g (ob_rows (demote ids s)) = map g (ob_rows s)"
  by (simp add: demote_def comp_def)

lemma gate_quiet: "fst (gate_interrupts True b used ds) = []"
  by (induction ds) (auto split: prod.splits)

text \<open>
  In quiet hours a pass dispatches nothing and delivers nothing: it only moves rows to the digest.
\<close>

lemma quiet_hours_absolute:
  assumes "in_quiet_hours (fe_zones env) now (ac_quiet (bucket_conf env scoped owner)) (ac_zone (bucket_conf env scoped owner)) = Inr True"
  shows "ob_sent (snd (flush_bucket env now scoped owner out s)) = ob_sent s
    \<and> map dl_delivered (ob_rows (snd (flush_bucket env now scoped owner out s))) = map dl_delivered (ob_rows s)"
proof -
  let ?g = "gate_interrupts True (ac_budget (fe_conf env)) (int (interrupts_delivered_today now scoped owner (ob_rows s)))
      (pending_tier 0 scoped owner (ob_rows s))"
  obtain dem where g: "?g = ([], dem)" using gate_quiet by (metis prod.collapse)
  obtain ids where "snd (flush_bucket env now scoped owner out s) = demote ids (demote dem s)"
    using assms g
    by (simp add: flush_bucket_def flush_interrupts_def flush_tier1_def flush_digest_def then_flush_def Let_def)
  then show ?thesis by (simp add: map_demote) (simp add: demote_def)
qed

section \<open>Feedback re-tiers by one step\<close>

lemma precision_rule_effect:
  "apply_precision_rule c scoped user s = s
   \<or> (\<exists>p. ob_policies (apply_precision_rule c scoped user s) = ob_policies s @ [p] \<and> ob_rows (apply_precision_rule c scoped user s) = ob_rows s
        \<and> po_override p = Some (min (base_tier c scoped user s + 1) 3) \<and> po_override p \<noteq> Some (base_tier c scoped user s)
        \<and> po_user p = (if scoped then user else None) \<and> po_category p = c)"
  by (auto simp: apply_precision_rule_def Let_def row_add_def split: prod.splits option.splits)

section \<open>One user's preferences\<close>

text \<open>
  The hour of a preference is not checked beyond its first digit: a member whose quiet hours
  start at 24:00 (which the endpoint accepts) and whose id sorts first among the owners of pending
  rows makes every pass of the delivery plane fail, so nobody is delivered anything.
\<close>

theorem bad_preference_stops_all_deliveries:
  assumes "patch_prefs [(''ambient_quiet_hours'', JList [JStr ''24:00'', JStr ''07:00''])] prefs = Some (fe_prefs env u)"
    and "pending_owners (ob_rows s) = Some u # others"
  shows "flush_deliveries env now True s = (Inl (Raised ValueErr), s)"
proof -
  have "fe_prefs env u = dict_set prefs ''ambient_quiet_hours'' (JList [JStr ''24:00'', JStr ''07:00''])"
    using assms(1) by (auto simp: patch_prefs_def split: if_splits)
  then have "dict_get (fe_prefs env u) ''ambient_quiet_hours'' = JList [JStr ''24:00'', JStr ''07:00'']"
    by (simp add: dict_get_def map_of_dict_set)
  then have quiet: "ac_quiet (bucket_conf env True (Some u)) = [''24:00'', ''07:00'']"
    by (simp add: bucket_conf_def effective_ambient_settings_def Let_def list_pref_def)
  have "parse_clock ''24:00'' = Some (24, 0)" "parse_clock ''07:00'' = Some (7, 0)" by code_simp+
  then have "in_quiet_hours (fe_zones env) now [''24:00'', ''07:00''] tz = Inl ValueErr" for tz
    by (simp add: in_quiet_hours_def at_clock_def bind_r_def Let_def)
  with quiet assms(2) show ?thesis
    by (simp add: flush_deliveries_def then_flush_def flush_bucket_def Let_def)
qed

definition member_env :: flush_env where
  "member_env = \<lparr>fe_zones = \<lparr>zd_known = (\<lambda>tz. False), zd_offset = (\<lambda>tz t. 0), zd_wall = (\<lambda>tz t. 0)\<rparr>,
     fe_conf = \<lparr>ac_quiet = [], ac_digest = [''08:00''], ac_zone = ''UTC'', ac_budget = 3, ac_escalation = 3\<rparr>,
     fe_prefs = (\<lambda>u. if u = ''ann'' then [(''ambient_quiet_hours'', JList [JStr ''24:00'', JStr ''07:00''])] else []),
     fe_presence = (\<lambda>k. Some ''active''), fe_send = mute_env, fe_dies = (\<lambda>m. False)\<rparr>"

definition two_pending :: outbox where
  "two_pending = (let rq = \<lparr>dq_category = ''c'', dq_tier = 0, dq_urgency = 5, dq_title = ''t'', dq_body = None, dq_run = None,
       dq_intent = None, dq_skey = None, dq_deadline = None, dq_user = Some ''bob''\<rparr>;
       ow = \<lparr>ow_run = (\<lambda>r. None), ow_intent = (\<lambda>i. None), ow_current = None\<rparr>
     in add_delivery ow 1 (rq\<lparr>dq_user := Some ''ann''\<rparr>) (add_delivery ow 0 rq outbox_init))"

theorem bad_preference_stops_all_deliveries_witness:
  "flush_deliveries member_env (secs 3600) True two_pending = (Inl (Raised ValueErr), two_pending)
   \<and> list_ex (\<lambda>d. dl_user d = Some ''bob'' \<and> undelivered d) (ob_rows two_pending)
   \<and> ob_sent (snd (flush_deliveries (member_env\<lparr>fe_prefs := (\<lambda>u. [])\<rparr>) (secs 3600) True two_pending)) = [(''interrupt'', [1]), (''interrupt'', [0])]"
proof -
  have patch: "patch_prefs [(''ambient_quiet_hours'', JList [JStr ''24:00'', JStr ''07:00''])] [] = Some (fe_prefs member_env ''ann'')"
    by code_simp
  have owners: "pending_owners (ob_rows two_pending) = Some ''ann'' # [Some ''bob'']" by code_simp
  have "list_ex (\<lambda>d. dl_user d = Some ''bob'' \<and> undelivered d) (ob_rows two_pending)" by code_simp
  moreover have "ob_sent (snd (flush_deliveries (member_env\<lparr>fe_prefs := (\<lambda>u. [])\<rparr>) (secs 3600) True two_pending))
      = [(''interrupt'', [1]), (''interrupt'', [0])]" by code_simp
  ultimately show ?thesis using bad_preference_stops_all_deliveries[OF patch owners] by blast
qed

end
