(* ===== verification/Ambient_Triggers.thy ===== *)
theory Ambient_Triggers
  imports Ambient_Events Ambient_Delivery Workflow_Dag Run_Lifecycle
begin

text \<open>
  The trigger plane of the ambient mode: typed filters (\<open>backend/app/ambient/decide.py\<close>), schedules,
  adaptive pollers and state conditions (\<open>ambient/triggers.py\<close>), agent wake-ups (\<open>ambient/wakeups.py\<close>),
  presence (\<open>ambient/presence.py\<close>), composite patterns (\<open>ambient/patterns.py\<close>) and the routine endpoints
  (\<open>api/routines.py\<close>). Every evaluator is a function of the tables; parsing of ISO instants, cron
  expressions, the guarded regular expressions, poll sources and probes are arguments.
\<close>

section \<open>Tables\<close>

record routine =
  ro_id :: string
  ro_user :: "string option"
  ro_name :: string
  ro_description :: "string option"
  ro_prompt :: string
  ro_static :: bool
  ro_triggers :: "json list"
  ro_allowlist :: "pydict option"
  ro_model :: "string option"
  ro_memories :: bool
  ro_conversation :: "string option"
  ro_autonomy :: string
  ro_budgets :: pydict
  ro_token :: "string option"
  ro_stagger :: int
  ro_status :: string
  ro_reason :: "string option"
  ro_failures :: nat
  ro_last_fired :: "instant option"

record standing_intent =
  si_id :: string
  si_user :: "string option"
  si_text :: string
  si_condition :: string
  si_compiled :: pydict
  si_predicate :: string              \<comment> \<open>empty: none\<close>
  si_watermark :: "string option"
  si_base :: int
  si_current :: int
  si_max :: int
  si_backoff :: real
  si_quiet :: nat
  si_checked :: "instant option"
  si_expires :: "instant option"
  si_budget :: pydict
  si_delivery :: string
  si_status :: string

record wakeup =
  wk_id :: nat
  wk_routine :: "string option"
  wk_run :: "string option"
  wk_due :: instant
  wk_reason :: string
  wk_payload :: pydict
  wk_by :: string
  wk_status :: string
  wk_created :: instant
  wk_fired :: "instant option"

record pattern_instance =
  pi_rule :: string
  pi_partition :: string
  pi_state :: string
  pi_a_event :: nat
  pi_deadline :: instant

record user_presence =
  up_id :: string
  up_user :: "string option"
  up_state :: string
  up_visible :: bool
  up_activity :: "instant option"
  up_beat :: "instant option"
  up_since :: "instant option"

record amb_run =
  ar_id :: string
  ar_user :: "string option"
  ar_conversation :: string
  ar_prompt :: string
  ar_memories :: bool
  ar_trigger :: "pydict option"
  ar_status :: run_status
  ar_started :: instant
  ar_heartbeat :: "instant option"
  ar_finished :: "instant option"
  ar_error :: "string option"
  ar_answer :: "string option"

record amb_world =
  aw_events :: "amb_event list"
  aw_routines :: "routine list"
  aw_intents :: "standing_intent list"
  aw_wakeups :: "wakeup list"
  aw_patterns :: "pattern_instance list"
  aw_recent :: "((string \<times> string) \<times> instant) list"   \<comment> \<open>\<open>_recent_fires\<close>\<close>
  aw_presence :: "user_presence list"
  aw_outbox :: outbox
  aw_runs :: "amb_run list"
  aw_conversations :: "(string \<times> string option) list"   \<comment> \<open>id and owner\<close>

type_synonym failure = "py_exc + emit_error"

record amb_env =
  ae_enabled :: bool
  ae_iso :: "string \<Rightarrow> instant option"
  ae_cron_valid :: "string \<Rightarrow> bool"
  ae_cron_next :: "string \<Rightarrow> instant \<Rightarrow> instant"
  ae_search :: "string \<Rightarrow> string \<Rightarrow> bool"        \<comment> \<open>\<open>safe_search\<close>\<close>
  ae_render :: "json \<Rightarrow> string"
  ae_float :: "string \<Rightarrow> real option"           \<comment> \<open>\<open>float(text)\<close>\<close>
  ae_reason :: "py_exc + emit_error \<Rightarrow> string"  \<comment> \<open>the sanitized text of a failure\<close>
  ae_sources :: "string \<Rightarrow> (string option \<Rightarrow> pydict \<Rightarrow> (json list \<times> string option) option) option"
  ae_probes :: "string \<Rightarrow> (pydict \<Rightarrow> real option) option"
  ae_wakeups_per_day :: nat

definition emit_in ::
    "amb_env \<Rightarrow> instant \<Rightarrow> emit_request \<Rightarrow> amb_world \<Rightarrow> emit_error + amb_event option \<times> amb_world" where
  "emit_in env now rq w =
     (case emit_amb_event (ae_enabled env) (length (aw_events w)) now rq (aw_events w) of
        Inl e \<Rightarrow> Inl e
      | Inr (ev, evs) \<Rightarrow> Inr (ev, w\<lparr>aw_events := evs\<rparr>))"

definition is_guard :: "emit_error \<Rightarrow> bool" where
  \<comment> \<open>\<open>ChainGuardError\<close>\<close>
  "is_guard e \<longleftrightarrow> (case e of UnknownSource \<Rightarrow> False | AmbientDisabled \<Rightarrow> False | _ \<Rightarrow> True)"

section \<open>Typed filters\<close>

definition step_into :: "json \<Rightarrow> string \<Rightarrow> json" where
  "step_into raw part = (case raw of JDict d \<Rightarrow> dict_get d part | _ \<Rightarrow> JNull)"

definition field_text :: "amb_env \<Rightarrow> pydict \<Rightarrow> string \<Rightarrow> string" where
  \<comment> \<open>the value at a dotted path as text, empty when absent\<close>
  "field_text env data path =
     (let raw = foldl step_into (JDict data) (split_on CHR ''.'' path)
      in if raw = JNull then [] else py_str (ae_render env) raw)"

definition match_one :: "amb_env \<Rightarrow> pydict \<Rightarrow> json \<Rightarrow> py_exc + bool" where
  "match_one env data f = (case f of
       JDict d \<Rightarrow>
         (let v = field_text env data (py_str (ae_render env) (dict_get_or d ''field'' (JStr [])));
              expect = py_str (ae_render env) (dict_get_or d ''value'' (JStr []));
              op = dict_get_or d ''op'' (JStr ''equals'')
          in if op = JStr ''equals'' then Inr (v = expect)
             else if op = JStr ''contains'' then Inr (contains_str v expect)
             else if op = JStr ''starts_with'' then Inr (starts_with v expect)
             else if op = JStr ''one_of''
             then bind_r (iter_items (dict_get_or d ''values'' (JList []))) (\<lambda>vs. Inr (v \<in> set (map (py_str (ae_render env)) vs)))
             else if op = JStr ''regex'' then Inr (ae_search env expect v)
             else Inr False)
     | _ \<Rightarrow> Inl AttrErr)"

fun match_filters :: "amb_env \<Rightarrow> pydict \<Rightarrow> json list \<Rightarrow> py_exc + bool" where
  "match_filters env data [] = Inr True"
| "match_filters env data (f # fs) =
     bind_r (match_one env data f) (\<lambda>ok. if ok then match_filters env data fs else Inr False)"

section \<open>Schedules\<close>

definition dict_int :: "pydict \<Rightarrow> string \<Rightarrow> int \<Rightarrow> py_exc + int" where
  \<comment> \<open>\<open>int(d.get(k, default))\<close>\<close>
  "dict_int d k n = (case dict_get_or d k (JInt n) of
       JInt i \<Rightarrow> Inr i
     | JBool b \<Rightarrow> Inr (if b then 1 else 0)
     | JFloat x \<Rightarrow> Inr (if 0 \<le> x then \<lfloor>x\<rfloor> else \<lceil>x\<rceil>)
     | JStr s \<Rightarrow> (case py_int s of None \<Rightarrow> Inl ValueErr | Some i \<Rightarrow> Inr i)
     | _ \<Rightarrow> Inl TypeErr)"

definition schedule_due :: "amb_env \<Rightarrow> pydict \<Rightarrow> instant option \<Rightarrow> int \<Rightarrow> instant \<Rightarrow> py_exc + bool" where
  "schedule_due env trig last_fired stagger_s now =
     (if dict_get trig ''type'' = JStr ''interval'' then
        bind_r (dict_int trig ''seconds'' 3600) (\<lambda>n. Inr (case last_fired of
            None \<Rightarrow> True | Some anchor \<Rightarrow> secs (max n 60) \<le> now - anchor))
      else if dict_get trig ''type'' = JStr ''once'' then
        (case ae_iso env (py_str (ae_render env) (dict_get trig ''at'')) of
           None \<Rightarrow> Inl ValueErr
         | Some due \<Rightarrow> Inr (due + secs stagger_s \<le> now \<and> last_fired = None))
      else if dict_get trig ''type'' = JStr ''cron'' then
        (let expr = py_str (ae_render env) (dict_get_or trig ''cron'' (JStr []))
         in if \<not> ae_cron_valid env expr then Inr False
            else Inr (ae_cron_next env expr (case last_fired of None \<Rightarrow> now - secs 86400 | Some t \<Rightarrow> t)
                        + secs stagger_s \<le> now))
      else Inr False)"

definition QUARANTINE_AFTER :: nat where
  "QUARANTINE_AFTER = 3"

definition record_trigger_failure :: "amb_env \<Rightarrow> string \<Rightarrow> failure \<Rightarrow> amb_world \<Rightarrow> amb_world" where
  "record_trigger_failure env i e w =
     w\<lparr>aw_routines := row_upd ro_id i
        (\<lambda>r. let r1 = r\<lparr>ro_failures := ro_failures r + 1\<rparr>
             in if QUARANTINE_AFTER \<le> ro_failures r1
                then r1\<lparr>ro_status := ''error'', ro_reason := Some (take 500 (ae_reason env e))\<rparr> else r1)
        (aw_routines w)\<rparr>"

definition civil :: "int \<Rightarrow> int \<times> int \<times> int" where
  \<comment> \<open>year, month and day of a number of days since 1970-01-01 in the proleptic Gregorian calendar\<close>
  "civil days =
     (let z = days + 719468; era = z div 146097; doe = z mod 146097;
          yoe = (doe - doe div 1460 + doe div 36524 - doe div 146096) div 365;
          doy = doe - (365 * yoe + yoe div 4 - yoe div 100);
          mp = (5 * doy + 2) div 153;
          month = (if mp < 10 then mp + 3 else mp - 9)
      in (yoe + era * 400 + (if month \<le> 2 then 1 else 0), month, doy - (153 * mp + 2) div 5 + 1))"

definition two_digits :: "int \<Rightarrow> string" where
  "two_digits n = (if n < 10 then ''0'' else []) @ int_str n"

definition minute_slot :: "instant \<Rightarrow> string" where
  \<comment> \<open>\<open>now.strftime("%Y%m%d%H%M")\<close>\<close>
  "minute_slot now =
     (let (y, m, d) = civil (now div day_us); t = (now mod day_us) div secs 60
      in int_str y @ two_digits m @ two_digits d @ two_digits (t div 60) @ two_digits (t mod 60))"

definition schedule_request :: "routine \<Rightarrow> nat \<Rightarrow> json \<Rightarrow> instant \<Rightarrow> emit_request" where
  "schedule_request r i trig now =
     \<lparr>em_kind = ''routine_schedule'', em_source = ''schedule'',
      em_payload = [(''trigger_index'', JInt (int i)), (''trigger'', trig)],
      em_dedupe = Some (''sched:'' @ ro_id r @ '':'' @ nat_str i @ '':'' @ minute_slot now),
      em_routine = Some (ro_id r), em_intent = None, em_caused_by = None\<rparr>"

definition mark_fired :: "nat \<Rightarrow> json \<Rightarrow> instant \<Rightarrow> routine \<Rightarrow> routine" where
  \<comment> \<open>the watermark, and a one-off trigger its terminal type\<close>
  "mark_fired i trig now r =
     r\<lparr>ro_last_fired := Some now,
       ro_triggers := (if dict_get (as_dict trig) ''type'' = JStr ''once''
         then (ro_triggers r)[i := JDict (dict_set (as_dict trig) ''type'' (JStr ''once_fired''))] else ro_triggers r)\<rparr>"

fun eval_triggers ::
    "amb_env \<Rightarrow> instant \<Rightarrow> routine \<Rightarrow> nat \<Rightarrow> json list \<Rightarrow> amb_world \<Rightarrow> (failure option \<times> nat) \<times> amb_world" where
  \<comment> \<open>\<open>_evaluate_routine_schedules\<close> over the loaded row; an exception keeps what was done before it\<close>
  "eval_triggers env now r i [] w = ((None, 0), w)"
| "eval_triggers env now r i (trig # ts) w = (case trig of
       JDict d \<Rightarrow>
         (if \<not> hashable (dict_get d ''type'') then ((Some (Inl TypeErr), 0), w)
          else if dict_get d ''type'' \<notin> {JStr ''interval'', JStr ''once'', JStr ''cron''} then eval_triggers env now r (Suc i) ts w
          else (case schedule_due env d (ro_last_fired r) (ro_stagger r) now of
              Inl e \<Rightarrow> ((Some (Inl e), 0), w)
            | Inr False \<Rightarrow> eval_triggers env now r (Suc i) ts w
            | Inr True \<Rightarrow>
                (case emit_in env now (schedule_request r i trig now) w of
                   Inl e \<Rightarrow> if is_guard e then eval_triggers env now r (Suc i) ts w else ((Some (Inr e), 0), w)
                 | Inr (None, w') \<Rightarrow> eval_triggers env now r (Suc i) ts w'
                 | Inr (Some ev, w') \<Rightarrow>
                     (case eval_triggers env now r (Suc i) ts
                        (w'\<lparr>aw_routines := row_upd ro_id (ro_id r) (mark_fired i trig now) (aw_routines w')\<rparr>) of
                      ((e, n), w'') \<Rightarrow> ((e, n + 1), w'')))))
     | _ \<Rightarrow> ((Some (Inl AttrErr), 0), w))"

fun eval_routines :: "amb_env \<Rightarrow> instant \<Rightarrow> routine list \<Rightarrow> amb_world \<Rightarrow> nat \<times> amb_world" where
  \<comment> \<open>a routine that fails counts nothing and one failure\<close>
  "eval_routines env now [] w = (0, w)"
| "eval_routines env now (r # rs) w =
     (case eval_triggers env now r 0 (ro_triggers r) w of
        ((Some e, n), w') \<Rightarrow> eval_routines env now rs (record_trigger_failure env (ro_id r) e w')
      | ((None, n), w') \<Rightarrow> (case eval_routines env now rs w' of (m, w'') \<Rightarrow> (n + m, w'')))"

definition evaluate_schedules :: "amb_env \<Rightarrow> instant \<Rightarrow> amb_world \<Rightarrow> nat \<times> amb_world" where
  "evaluate_schedules env now w = eval_routines env now (filter (\<lambda>r. ro_status r = ''active'') (aw_routines w)) w"

section \<open>Poll sources\<close>

type_synonym 'f registry = "(string \<times> ('f \<times> string)) list"   \<comment> \<open>name, function and config shape\<close>

definition register_poll_source :: "string \<Rightarrow> 'f option \<Rightarrow> string \<Rightarrow> 'f registry \<Rightarrow> 'f registry" where
  "register_poll_source name fn shape reg = (case fn of
       None \<Rightarrow> filter (\<lambda>e. fst e \<noteq> name) reg | Some f \<Rightarrow> dict_set reg name (f, shape))"

definition registered_poll_sources :: "'f registry \<Rightarrow> string set" where
  "registered_poll_sources reg = fst ` set reg"

definition poll_source_specs :: "'f registry \<Rightarrow> (string \<times> string) list" where
  "poll_source_specs reg = map (\<lambda>(n, f, shape). (n, shape)) reg"

definition poll_name :: "standing_intent \<Rightarrow> string" where
  "poll_name i = as_str (dict_get (as_dict (dict_get (si_compiled i) ''poll'')) ''source'')"

definition effective_interval :: "instant \<Rightarrow> standing_intent \<Rightarrow> int" where
  "effective_interval now i = (case si_expires i of
       None \<Rightarrow> si_current i
     | Some t \<Rightarrow> if t - now \<le> 2 * secs (si_current i) then min (si_current i) (si_base i) else si_current i)"

definition poll_waits :: "instant \<Rightarrow> standing_intent \<Rightarrow> bool" where
  "poll_waits now i \<longleftrightarrow> (case si_checked i of None \<Rightarrow> False | Some t \<Rightarrow> now - t < secs (effective_interval now i))"

definition polled :: "instant \<Rightarrow> json list \<Rightarrow> string option \<Rightarrow> standing_intent \<Rightarrow> standing_intent" where
  "polled now items watermark i =
     (if items \<noteq> []
      then i\<lparr>si_checked := Some now, si_watermark := watermark, si_quiet := 0, si_current := si_base i\<rparr>
      else i\<lparr>si_checked := Some now, si_quiet := si_quiet i + 1,
             si_current := min \<lfloor>of_int (si_current i) * si_backoff i\<rfloor> (si_max i)\<rparr>)"

definition POLL_ITEMS_PER_CHECK :: nat where
  "POLL_ITEMS_PER_CHECK = 20"

definition poll_request :: "string \<Rightarrow> json \<Rightarrow> emit_request" where
  "poll_request i item =
     \<lparr>em_kind = ''intent_poll_item'', em_source = ''poll'', em_payload = [(''item'', item)], em_dedupe = None,
      em_routine = None, em_intent = Some i, em_caused_by = None\<rparr>"

fun emit_items :: "amb_env \<Rightarrow> instant \<Rightarrow> string \<Rightarrow> json list \<Rightarrow> amb_world \<Rightarrow> (failure option \<times> nat) \<times> amb_world" where
  "emit_items env now i [] w = ((None, 0), w)"
| "emit_items env now i (item # items) w = (case emit_in env now (poll_request i item) w of
       Inl e \<Rightarrow> ((Some (Inr e), 0), w)
     | Inr (ev, w') \<Rightarrow> (case emit_items env now i items w' of
         ((e, n), w'') \<Rightarrow> ((e, n + (if ev = None then 0 else 1)), w'')))"

definition poll_one :: "amb_env \<Rightarrow> instant \<Rightarrow> standing_intent \<Rightarrow> amb_world \<Rightarrow> (failure option \<times> nat) \<times> amb_world" where
  \<comment> \<open>the body of the loop over the loaded row\<close>
  "poll_one env now i w = (case ae_sources env (poll_name i) of
       None \<Rightarrow> ((None, 0), w)
     | Some source \<Rightarrow>
         (if (case si_expires i of None \<Rightarrow> False | Some t \<Rightarrow> t \<le> now)
          then ((None, 0), w\<lparr>aw_intents := row_upd si_id (si_id i) (\<lambda>r. r\<lparr>si_status := ''expired''\<rparr>) (aw_intents w)\<rparr>)
          else if poll_waits now i then ((None, 0), w)
          else (case source (si_watermark i) (as_dict (dict_get (as_dict (dict_get (si_compiled i) ''poll'')) ''config'')) of
              None \<Rightarrow> ((None, 0), w)
            | Some (items, watermark) \<Rightarrow>
                emit_items env now (si_id i) (take POLL_ITEMS_PER_CHECK items)
                  (w\<lparr>aw_intents := row_upd si_id (si_id i) (polled now items watermark) (aw_intents w)\<rparr>))))"

fun each_until ::
    "('a \<Rightarrow> 'w \<Rightarrow> (failure option \<times> nat) \<times> 'w) \<Rightarrow> 'a list \<Rightarrow> 'w \<Rightarrow> (failure option \<times> nat) \<times> 'w" where
  \<comment> \<open>a loop over loaded rows: an exception ends it, with what was done before it\<close>
  "each_until f [] w = ((None, 0), w)"
| "each_until f (x # xs) w = (case f x w of
       ((Some e, n), w') \<Rightarrow> ((Some e, n), w')
     | ((None, n), w') \<Rightarrow> (case each_until f xs w' of ((e, m), w'') \<Rightarrow> ((e, n + m), w'')))"

definition poll_due_intents :: "amb_env \<Rightarrow> instant \<Rightarrow> amb_world \<Rightarrow> (failure option \<times> nat) \<times> amb_world" where
  "poll_due_intents env now w =
     each_until (poll_one env now) (filter (\<lambda>i. si_status i = ''active'' \<and> si_condition i = ''event'') (aw_intents w)) w"

section \<open>State conditions\<close>

definition dict_float :: "amb_env \<Rightarrow> pydict \<Rightarrow> string \<Rightarrow> real \<Rightarrow> py_exc + real" where
  \<comment> \<open>\<open>float(d.get(k, default))\<close>\<close>
  "dict_float env d k x = (case dict_get_or d k (JFloat x) of
       JFloat y \<Rightarrow> Inr y
     | JInt i \<Rightarrow> Inr (of_int i)
     | JBool b \<Rightarrow> Inr (if b then 1 else 0)
     | JStr s \<Rightarrow> (case ae_float env s of None \<Rightarrow> Inl ValueErr | Some y \<Rightarrow> Inr y)
     | _ \<Rightarrow> Inl TypeErr)"

definition condition_holds :: "json \<Rightarrow> real \<Rightarrow> real \<Rightarrow> bool" where
  "condition_holds op v threshold =
     (if op = JStr ''>='' then threshold \<le> v else if op = JStr ''<='' then v \<le> threshold else v = threshold)"

definition state_request :: "string \<Rightarrow> string \<Rightarrow> real \<Rightarrow> json \<Rightarrow> real \<Rightarrow> emit_request" where
  "state_request i probe v op threshold =
     \<lparr>em_kind = ''state_condition'', em_source = ''internal'',
      em_payload = [(''probe'', JStr probe), (''value'', JFloat v), (''op'', op), (''threshold'', JFloat threshold)],
      em_dedupe = None, em_routine = None, em_intent = Some i, em_caused_by = None\<rparr>"

definition set_holding :: "string \<Rightarrow> bool \<Rightarrow> amb_world \<Rightarrow> amb_world" where
  "set_holding i holds w =
     w\<lparr>aw_intents := row_upd si_id i (\<lambda>r. r\<lparr>si_watermark := Some (if holds then ''holding'' else ''clear'')\<rparr>) (aw_intents w)\<rparr>"

definition state_one :: "amb_env \<Rightarrow> instant \<Rightarrow> standing_intent \<Rightarrow> amb_world \<Rightarrow> (failure option \<times> nat) \<times> amb_world" where
  "state_one env now i w =
     (let c = si_compiled i; name = as_str (dict_get c ''probe'') in
      case Option.bind (ae_probes env name) (\<lambda>probe. probe (as_dict (dict_get c ''config''))) of
        None \<Rightarrow> ((None, 0), w)
      | Some v \<Rightarrow>
          (case dict_float env c ''value'' 0 of
             Inl e \<Rightarrow> ((Some (Inl e), 0), w)
           | Inr threshold \<Rightarrow>
               (let op = dict_get_or c ''op'' (JStr ''>='');
                    holds = condition_holds op v threshold;
                    was = (si_watermark i = Some ''holding'')
                in if holds \<and> \<not> was
                   then (case emit_in env now (state_request (si_id i) name v op threshold) w of
                       Inl e \<Rightarrow> ((Some (Inr e), 0), w)
                     | Inr (ev, w') \<Rightarrow> ((None, if ev = None then 0 else 1), set_holding (si_id i) holds w'))
                   else ((None, 0), if holds \<noteq> was then set_holding (si_id i) holds w else w))))"

definition evaluate_state_conditions :: "amb_env \<Rightarrow> instant \<Rightarrow> amb_world \<Rightarrow> (failure option \<times> nat) \<times> amb_world" where
  "evaluate_state_conditions env now w =
     each_until (state_one env now) (filter (\<lambda>i. si_status i = ''active'' \<and> si_condition i = ''state'') (aw_intents w)) w"

section \<open>Wake-ups\<close>

definition WAKEUP_MIN_DELAY_S :: int where "WAKEUP_MIN_DELAY_S = 60"

definition WAKEUP_MAX_DELAY_S :: int where "WAKEUP_MAX_DELAY_S = 86400"

definition WAKEUP_MAX_PENDING :: nat where "WAKEUP_MAX_PENDING = 5"

datatype wakeup_error = BadInstant | PendingCap nat | DailyCap nat

record wakeup_request =
  wq_delay :: "int option"            \<comment> \<open>seconds\<close>
  wq_at :: "string option"
  wq_reason :: string
  wq_payload :: pydict
  wq_by :: string
  wq_run :: "string option"

definition wakeup_delay :: "amb_env \<Rightarrow> instant \<Rightarrow> wakeup_request \<Rightarrow> int option" where
  "wakeup_delay env now rq = (case wq_at rq of
       Some t \<Rightarrow> map_option (\<lambda>due. due - now) (ae_iso env t)
     | None \<Rightarrow> Some (secs (case wq_delay rq of Some n \<Rightarrow> n | None \<Rightarrow> WAKEUP_MIN_DELAY_S)))"

definition clamp_delay :: "int \<Rightarrow> int" where
  "clamp_delay d = min (max d (secs WAKEUP_MIN_DELAY_S)) (secs WAKEUP_MAX_DELAY_S)"

definition pending_wakeups :: "string \<Rightarrow> wakeup list \<Rightarrow> nat" where
  "pending_wakeups r ws = length (filter (\<lambda>k. wk_routine k = Some r \<and> wk_status k = ''pending'') ws)"

definition wakeups_since :: "string \<Rightarrow> instant \<Rightarrow> wakeup list \<Rightarrow> nat" where
  "wakeups_since r t ws = length (filter (\<lambda>k. wk_routine k = Some r \<and> t \<le> wk_created k) ws)"

definition schedule_wakeup ::
    "amb_env \<Rightarrow> string \<Rightarrow> wakeup_request \<Rightarrow> instant \<Rightarrow> wakeup list \<Rightarrow> wakeup_error + wakeup \<times> wakeup list" where
  "schedule_wakeup env r rq now ws = (case wakeup_delay env now rq of
       None \<Rightarrow> Inl BadInstant
     | Some delay \<Rightarrow>
         (if WAKEUP_MAX_PENDING \<le> pending_wakeups r ws then Inl (PendingCap (pending_wakeups r ws))
          else if ae_wakeups_per_day env \<le> wakeups_since r (midnight now) ws then Inl (DailyCap (ae_wakeups_per_day env))
          else (let k = \<lparr>wk_id = length ws, wk_routine = Some r, wk_run = wq_run rq, wk_due = now + clamp_delay delay,
                         wk_reason = wq_reason rq, wk_payload = wq_payload rq, wk_by = wq_by rq,
                         wk_status = ''pending'', wk_created = now, wk_fired = None\<rparr>
                in Inr (k, row_add k ws))))"

definition cancel_wakeup :: "nat \<Rightarrow> wakeup list \<Rightarrow> bool \<times> wakeup list" where
  "cancel_wakeup i ws = (case row_get wk_id ws i of
       None \<Rightarrow> (False, ws)
     | Some k \<Rightarrow> if wk_status k \<noteq> ''pending'' then (False, ws)
                 else (True, row_upd wk_id i (\<lambda>k. k\<lparr>wk_status := ''cancelled''\<rparr>) ws))"

definition wakeup_superseded :: "amb_run list \<Rightarrow> wakeup \<Rightarrow> bool" where
  \<comment> \<open>a completed run of the routine that started after the booking\<close>
  "wakeup_superseded runs k = (case wk_routine k of
       None \<Rightarrow> False
     | Some r \<Rightarrow> list_ex (\<lambda>x. (case ar_trigger x of None \<Rightarrow> False | Some d \<Rightarrow> dict_get d ''routine_id'' = JStr r)
                  \<and> ar_status x = Completed \<and> wk_created k \<le> ar_started x) runs)"

definition wakeup_event :: "wakeup \<Rightarrow> emit_request" where
  "wakeup_event k =
     \<lparr>em_kind = ''agent_wakeup'', em_source = ''wakeup'',
      em_payload = dict_merge [(''reason'', JStr (wk_reason k))] (wk_payload k),
      em_dedupe = Some (''wakeup:'' @ nat_str (wk_id k)), em_routine = wk_routine k, em_intent = None, em_caused_by = None\<rparr>"

definition settle_wakeup :: "instant \<Rightarrow> nat \<Rightarrow> bool \<Rightarrow> wakeup list \<Rightarrow> wakeup list" where
  "settle_wakeup now i fired ws = row_upd wk_id i
     (\<lambda>k. if wk_status k \<noteq> ''pending'' then k
          else if fired then k\<lparr>wk_status := ''fired'', wk_fired := Some now\<rparr> else k\<lparr>wk_status := ''expired''\<rparr>) ws"

definition fire_wakeup :: "amb_env \<Rightarrow> instant \<Rightarrow> wakeup \<Rightarrow> amb_world \<Rightarrow> (failure option \<times> nat) \<times> amb_world" where
  "fire_wakeup env now k w =
     (let settled = (\<lambda>fired w. w\<lparr>aw_wakeups := settle_wakeup now (wk_id k) fired (aw_wakeups w)\<rparr>)
      in if wk_routine k = None \<or> wakeup_superseded (aw_runs w) k then ((None, 0), settled False w)
         else (case emit_in env now (wakeup_event k) w of
             Inl e \<Rightarrow> if is_guard e then ((None, 0), settled False w) else ((Some (Inr e), 0), w)
           | Inr (None, w') \<Rightarrow> ((None, 0), settled False w')
           | Inr (Some ev, w') \<Rightarrow> ((None, 1), settled True w')))"

definition fire_due_wakeups :: "amb_env \<Rightarrow> instant \<Rightarrow> amb_world \<Rightarrow> (failure option \<times> nat) \<times> amb_world" where
  "fire_due_wakeups env now w =
     each_until (fire_wakeup env now) (filter (\<lambda>k. wk_status k = ''pending'' \<and> wk_due k \<le> now) (aw_wakeups w)) w"

section \<open>Presence\<close>

definition ACTIVE_INPUT_S :: int where "ACTIVE_INPUT_S = 300"

definition AWAY_BEAT_S :: int where "AWAY_BEAT_S = 120"

definition OFFLINE_BEAT_S :: int where "OFFLINE_BEAT_S = 1800"

definition presence_key :: "string option \<Rightarrow> string" where
  "presence_key user = (case user of None \<Rightarrow> ''default'' | Some u \<Rightarrow> ''user:'' @ u)"

definition record_heartbeat ::
    "string option \<Rightarrow> bool \<Rightarrow> bool \<Rightarrow> instant \<Rightarrow> user_presence list \<Rightarrow> user_presence list" where
  "record_heartbeat user visible activity now rows =
     (let key = presence_key user;
          rows1 = (if row_get up_id rows key = None
                   then row_add \<lparr>up_id = key, up_user = user, up_state = ''offline'', up_visible = False,
                                 up_activity = None, up_beat = None, up_since = None\<rparr> rows
                   else rows)
      in row_upd up_id key (\<lambda>r. r\<lparr>up_beat := Some now, up_visible := visible,
             up_activity := (if activity then Some now else up_activity r)\<rparr>) rows1)"

definition derive_state :: "instant \<Rightarrow> user_presence \<Rightarrow> string" where
  "derive_state now r = (case up_beat r of
       None \<Rightarrow> ''offline''
     | Some beat \<Rightarrow>
         (if secs OFFLINE_BEAT_S < now - beat then ''offline''
          else if secs AWAY_BEAT_S < now - beat \<or> \<not> up_visible r then ''away''
          else (case up_activity r of
              None \<Rightarrow> ''idle''
            | Some act \<Rightarrow> if now - act \<le> secs ACTIVE_INPUT_S then ''active'' else ''idle'')))"

definition transition_kind :: "string \<Rightarrow> string \<Rightarrow> string option" where
  "transition_kind old_state new_state =
     (if old_state \<in> {''idle'', ''away'', ''offline''} \<and> new_state = ''active'' then Some ''user_returned''
      else if old_state = ''active'' \<and> new_state \<in> {''idle'', ''away''} then Some ''user_idle''
      else None)"

definition presence_request :: "string \<Rightarrow> string \<Rightarrow> string \<Rightarrow> int \<Rightarrow> emit_request" where
  "presence_request kind old_state new_state away =
     \<lparr>em_kind = kind, em_source = ''presence'',
      em_payload = [(''from'', JStr old_state), (''to'', JStr new_state), (''away_s'', JFloat (real_of_int away / 1000000))],
      em_dedupe = None, em_routine = None, em_intent = None, em_caused_by = None\<rparr>"

datatype presence_stop = NotEmitted emit_error | FlushStopped flush_stop

definition presence_one ::
    "amb_env \<Rightarrow> flush_env \<Rightarrow> bool \<Rightarrow> instant \<Rightarrow> string \<Rightarrow> amb_world \<Rightarrow> (presence_stop + string option) \<times> amb_world" where
  \<comment> \<open>one row of \<open>evaluate_presence\<close>: the kind it emitted\<close>
  "presence_one env fenv tenancy now i w = (case row_get up_id (aw_presence w) i of
       None \<Rightarrow> (Inr None, w)
     | Some row \<Rightarrow>
         (let new_state = derive_state now row; old_state = up_state row;
              away = (case up_since row of None \<Rightarrow> 0 | Some t \<Rightarrow> now - t);
              w1 = w\<lparr>aw_presence := row_upd up_id i (\<lambda>r. r\<lparr>up_state := new_state, up_since := Some now\<rparr>) (aw_presence w)\<rparr>
          in if new_state = old_state then (Inr None, w)
             else (case transition_kind old_state new_state of
                 None \<Rightarrow> (Inr None, w1)
               | Some kind \<Rightarrow>
                   (case emit_in env now (presence_request kind old_state new_state away) w1 of
                      Inl e \<Rightarrow> (Inl (NotEmitted e), w1)
                    | Inr (ev, w2) \<Rightarrow>
                        (if kind \<noteq> ''user_returned'' then (Inr (Some kind), w2)
                         else (case on_user_returned fenv away now tenancy (up_user row) (aw_outbox w2) of
                             (Inl e, box) \<Rightarrow> (Inl (FlushStopped e), w2\<lparr>aw_outbox := box\<rparr>)
                           | (Inr n, box) \<Rightarrow> (Inr (Some kind), w2\<lparr>aw_outbox := box\<rparr>)))))))"

fun presence_rows ::
    "amb_env \<Rightarrow> flush_env \<Rightarrow> bool \<Rightarrow> instant \<Rightarrow> string list \<Rightarrow> string option \<Rightarrow> amb_world
      \<Rightarrow> (presence_stop + string option) \<times> amb_world" where
  "presence_rows env fenv tenancy now [] emitted w = (Inr emitted, w)"
| "presence_rows env fenv tenancy now (i # is) emitted w = (case presence_one env fenv tenancy now i w of
       (Inl e, w') \<Rightarrow> (Inl e, w')
     | (Inr kind, w') \<Rightarrow> presence_rows env fenv tenancy now is (if kind = None then emitted else kind) w')"

definition evaluate_presence ::
    "amb_env \<Rightarrow> flush_env \<Rightarrow> bool \<Rightarrow> instant \<Rightarrow> amb_world \<Rightarrow> (presence_stop + string option) \<times> amb_world" where
  "evaluate_presence env fenv tenancy now w =
     presence_rows env fenv tenancy now (map up_id (aw_presence w)) None w"

definition is_platform_idle :: "int \<Rightarrow> instant \<Rightarrow> amb_run list \<Rightarrow> bool" where
  "is_platform_idle idle_minutes now runs \<longleftrightarrow>
     \<not> list_ex (\<lambda>x. ar_status x \<in> {Running, PausedHitl}) runs
     \<and> list_all (\<lambda>x. ar_started x \<le> now - secs (idle_minutes * 60)) runs"

section \<open>Composite patterns\<close>

definition event_data :: "amb_event \<Rightarrow> pydict" where
  \<comment> \<open>\<open>{"kind": ..., "source": ..., **payload}\<close>\<close>
  "event_data e = dict_merge [(''kind'', JStr (ev_kind e)), (''source'', JStr (ev_source e))] (ev_payload e)"

definition pattern_of :: "standing_intent \<Rightarrow> pydict" where
  "pattern_of i = as_dict (dict_get (si_compiled i) ''pattern'')"

definition pattern_match :: "amb_env \<Rightarrow> pydict \<Rightarrow> string \<Rightarrow> pydict \<Rightarrow> py_exc + bool" where
  "pattern_match env spec side data =
     bind_r (iter_items (dict_get_or (as_dict (dict_get_or spec side (JDict []))) ''filters'' (JList []))) (match_filters env data)"

definition partition_of :: "amb_env \<Rightarrow> amb_event \<Rightarrow> pydict \<Rightarrow> string" where
  "partition_of env e spec =
     (if \<not> truthy (dict_get spec ''partition_field'') then []
      else field_text env (ev_payload e) (py_str (ae_render env) (dict_get spec ''partition_field'')))"

definition rule_key :: "string \<Rightarrow> string" where
  "rule_key i = ''intent:'' @ i"

definition COOLDOWN_DEFAULT_S :: int where "COOLDOWN_DEFAULT_S = 300"

definition cooled_down :: "string \<Rightarrow> string \<Rightarrow> pydict \<Rightarrow> instant \<Rightarrow> amb_world \<Rightarrow> py_exc + bool" where
  "cooled_down rule part spec now w =
     bind_r (dict_int spec ''cooldown_s'' COOLDOWN_DEFAULT_S) (\<lambda>c.
       Inr (case map_of (aw_recent w) (rule, part) of None \<Rightarrow> True | Some t \<Rightarrow> secs c \<le> now - t))"

definition pattern_request :: "string \<Rightarrow> string \<Rightarrow> string \<Rightarrow> string \<Rightarrow> amb_event option \<Rightarrow> emit_request" where
  "pattern_request kind i rule part cause =
     \<lparr>em_kind = kind, em_source = ''pattern'', em_payload = [(''rule'', JStr rule), (''partition'', JStr part)],
      em_dedupe = None, em_routine = None, em_intent = Some i, em_caused_by = cause\<rparr>"

definition emit_pattern ::
    "amb_env \<Rightarrow> instant \<Rightarrow> string \<Rightarrow> string \<Rightarrow> string \<Rightarrow> string \<Rightarrow> amb_event option \<Rightarrow> amb_world \<Rightarrow> (failure option \<times> nat) \<times> amb_world" where
  "emit_pattern env now kind i rule part cause w =
     (case emit_in env now (pattern_request kind i rule part cause) w of
        Inl e \<Rightarrow> ((if is_guard e then None else Some (Inr e), 0), w)
      | Inr (None, w') \<Rightarrow> ((None, 0), w')
      | Inr (Some ev, w') \<Rightarrow> ((None, 1), w'\<lparr>aw_recent := dict_set (aw_recent w') (rule, part) now\<rparr>))"

definition armed_for :: "string \<Rightarrow> string \<Rightarrow> pattern_instance \<Rightarrow> bool" where
  "armed_for rule part p \<longleftrightarrow> pi_rule p = rule \<and> pi_partition p = part \<and> pi_state p = ''armed''"

definition arm :: "string \<Rightarrow> string \<Rightarrow> nat \<Rightarrow> instant \<Rightarrow> amb_world \<Rightarrow> amb_world" where
  "arm rule part e deadline w = w\<lparr>aw_patterns := row_add
     \<lparr>pi_rule = rule, pi_partition = part, pi_state = ''armed'', pi_a_event = e, pi_deadline = deadline\<rparr> (aw_patterns w)\<rparr>"

definition disarm :: "string \<Rightarrow> string \<Rightarrow> string \<Rightarrow> amb_world \<Rightarrow> amb_world" where
  "disarm rule part st w = w\<lparr>aw_patterns :=
     map (\<lambda>p. if armed_for rule part p then p\<lparr>pi_state := st\<rparr> else p) (aw_patterns w)\<rparr>"

definition complete_pattern ::
    "amb_env \<Rightarrow> instant \<Rightarrow> standing_intent \<Rightarrow> amb_event \<Rightarrow> string \<Rightarrow> amb_world \<Rightarrow> (failure option \<times> nat) \<times> amb_world" where
  "complete_pattern env now i e part w =
     (let rule = rule_key (si_id i); w1 = disarm rule part ''matched'' w
      in case cooled_down rule part (pattern_of i) now w of
           Inl x \<Rightarrow> ((Some (Inl x), 0), w1)
         | Inr False \<Rightarrow> ((None, 0), w1)
         | Inr True \<Rightarrow> emit_pattern env now ''pattern_matched'' (si_id i) rule part (Some e) w1)"

definition conjunction_completes :: "amb_env \<Rightarrow> pydict \<Rightarrow> bool \<Rightarrow> bool \<Rightarrow> amb_event option \<Rightarrow> py_exc + bool" where
  "conjunction_completes env spec a_match b_match first =
     bind_r (case first of None \<Rightarrow> Inr False | Some f \<Rightarrow> pattern_match env spec ''a'' (event_data f)) (\<lambda>was_a.
       Inr (was_a \<and> b_match \<or> \<not> was_a \<and> a_match))"

definition advance_rule ::
    "amb_env \<Rightarrow> instant \<Rightarrow> amb_event \<Rightarrow> standing_intent \<Rightarrow> bool \<Rightarrow> bool \<Rightarrow> int \<Rightarrow> amb_world \<Rightarrow> (failure option \<times> nat) \<times> amb_world" where
  \<comment> \<open>the state change of one rule, from what the event matches\<close>
  "advance_rule env now e i a_match b_match window w =
     (let spec = pattern_of i; rule = rule_key (si_id i); part = partition_of env e spec;
          kind = dict_get spec ''kind'';
          armed = find (armed_for rule part) (aw_patterns w);
          start = arm rule part (ev_id e) (now + secs window) w
      in if kind = JStr ''sequence'' \<or> kind = JStr ''absence'' then
           (case armed of
              None \<Rightarrow> ((None, 0), if a_match then start else w)
            | Some p \<Rightarrow>
                (if \<not> b_match then ((None, 0), w)
                 else if kind = JStr ''sequence'' then complete_pattern env now i e part w
                 else ((None, 0), disarm rule part ''expired'' w)))
         else if kind = JStr ''conjunction'' then
           (case armed of
              None \<Rightarrow> ((None, 0), if a_match \<or> b_match then start else w)
            | Some p \<Rightarrow>
                (if (a_match \<or> b_match) \<and> pi_a_event p \<noteq> ev_id e
                 then (case conjunction_completes env spec a_match b_match (row_get ev_id (aw_events w) (pi_a_event p)) of
                     Inl x \<Rightarrow> ((Some (Inl x), 0), w)
                   | Inr True \<Rightarrow> complete_pattern env now i e part w
                   | Inr False \<Rightarrow> ((None, 0), w))
                 else ((None, 0), w)))
         else ((None, 0), w))"

definition advance_one ::
    "amb_env \<Rightarrow> instant \<Rightarrow> amb_event \<Rightarrow> standing_intent \<Rightarrow> amb_world \<Rightarrow> (failure option \<times> nat) \<times> amb_world" where
  "advance_one env now e i w =
     (if pattern_of i = [] then ((None, 0), w)
      else (case bind_r (pattern_match env (pattern_of i) ''a'' (event_data e)) (\<lambda>a.
                 bind_r (pattern_match env (pattern_of i) ''b'' (event_data e)) (\<lambda>b.
                 bind_r (dict_int (pattern_of i) ''window_s'' 3600) (\<lambda>n. Inr (a, b, n)))) of
          Inl x \<Rightarrow> ((Some (Inl x), 0), w)
        | Inr (a, b, n) \<Rightarrow> advance_rule env now e i a b n w))"

definition advance_patterns :: "amb_env \<Rightarrow> instant \<Rightarrow> amb_event \<Rightarrow> amb_world \<Rightarrow> (failure option \<times> nat) \<times> amb_world" where
  "advance_patterns env now e w =
     each_until (advance_one env now e) (filter (\<lambda>i. si_status i = ''active'') (aw_intents w)) w"

definition pattern_overdue :: "instant \<Rightarrow> pattern_instance \<Rightarrow> bool" where
  "pattern_overdue now p \<longleftrightarrow> pi_state p = ''armed'' \<and> pi_deadline p \<le> now"

definition expire_one :: "amb_env \<Rightarrow> instant \<Rightarrow> pattern_instance \<Rightarrow> amb_world \<Rightarrow> (failure option \<times> nat) \<times> amb_world" where
  "expire_one env now p w =
     (if \<not> starts_with (pi_rule p) ''intent:'' then ((None, 0), w)
      else (case row_get si_id (aw_intents w) (drop 7 (pi_rule p)) of
          None \<Rightarrow> ((None, 0), w)
        | Some i \<Rightarrow>
            (if dict_get (pattern_of i) ''kind'' \<noteq> JStr ''absence'' then ((None, 0), w)
             else (case cooled_down (pi_rule p) (pi_partition p) (pattern_of i) now w of
                 Inl x \<Rightarrow> ((Some (Inl x), 0), w)
               | Inr False \<Rightarrow> ((None, 0), w)
               | Inr True \<Rightarrow> emit_pattern env now ''pattern_absence'' (si_id i) (pi_rule p) (pi_partition p)
                   (row_get ev_id (aw_events w) (pi_a_event p)) w))))"

definition expire_pattern_deadlines :: "amb_env \<Rightarrow> instant \<Rightarrow> amb_world \<Rightarrow> (failure option \<times> nat) \<times> amb_world" where
  "expire_pattern_deadlines env now w =
     each_until (expire_one env now) (filter (pattern_overdue now) (aw_patterns w))
       (w\<lparr>aw_patterns := map (\<lambda>p. if pattern_overdue now p then p\<lparr>pi_state := ''expired''\<rparr> else p) (aw_patterns w)\<rparr>)"

section \<open>Routine endpoints\<close>

datatype routine_error = NotFound | Conflict | Unprocessable | Unauthorized | TooMany | EmitCrashed

definition ROUTINE_AUTONOMY :: "string list" where
  "ROUTINE_AUTONOMY = [''propose'', ''act_reversible'']"

definition create_routine ::
    "bool \<Rightarrow> (string \<Rightarrow> bool) \<Rightarrow> nat \<Rightarrow> routine \<Rightarrow> routine list \<Rightarrow> routine_error + routine list" where
  \<comment> \<open>the row as the body and the request give it: active, dynamic, with a random stagger\<close>
  "create_routine enabled model_ok cap row rows =
     (if \<not> enabled then Inl Conflict
      else if ro_autonomy row \<notin> set ROUTINE_AUTONOMY then Inl Unprocessable
      else if opt_truthy (ro_model row) \<and> \<not> model_ok (the (ro_model row)) then Inl Unprocessable
      else if cap \<le> length rows then Inl Conflict
      else if list_ex (\<lambda>r. ro_name r = ro_name row) rows then Inl Conflict
      else Inr (row_add (row\<lparr>ro_static := False, ro_token := None, ro_status := ''active'', ro_reason := None,
                             ro_failures := 0, ro_last_fired := None, ro_conversation := None\<rparr>) rows))"

record routine_patch =
  rp_status :: "string option"
  rp_prompt :: "string option"
  rp_description :: "string option"
  rp_triggers :: "json list option"
  rp_allowlist :: "pydict option"
  rp_model :: "string option"
  rp_memories :: "bool option"
  rp_autonomy :: "string option"
  rp_budgets :: "pydict option"

definition only_status :: "routine_patch \<Rightarrow> bool" where
  "only_status p \<longleftrightarrow> p = p\<lparr>rp_prompt := None, rp_description := None, rp_triggers := None, rp_allowlist := None, rp_model := None,
     rp_memories := None, rp_autonomy := None, rp_budgets := None\<rparr>"

definition set_if :: "'v option \<Rightarrow> 'v \<Rightarrow> 'v" where
  "set_if p old = (case p of None \<Rightarrow> old | Some v \<Rightarrow> v)"

definition apply_patch :: "routine_patch \<Rightarrow> routine \<Rightarrow> routine" where
  "apply_patch p r =
     (let r1 = r\<lparr>ro_status := set_if (rp_status p) (ro_status r), ro_prompt := set_if (rp_prompt p) (ro_prompt r),
                 ro_description := (case rp_description p of None \<Rightarrow> ro_description r | d \<Rightarrow> d),
                 ro_triggers := set_if (rp_triggers p) (ro_triggers r),
                 ro_allowlist := (case rp_allowlist p of None \<Rightarrow> ro_allowlist r | d \<Rightarrow> d),
                 ro_model := (case rp_model p of None \<Rightarrow> ro_model r | d \<Rightarrow> d),
                 ro_memories := set_if (rp_memories p) (ro_memories r),
                 ro_autonomy := set_if (rp_autonomy p) (ro_autonomy r), ro_budgets := set_if (rp_budgets p) (ro_budgets r)\<rparr>
      in if rp_status p = Some ''active'' then r1\<lparr>ro_failures := 0, ro_reason := None\<rparr> else r1)"

definition patch_routine ::
    "bool \<Rightarrow> principal option \<Rightarrow> (string \<Rightarrow> bool) \<Rightarrow> string \<Rightarrow> routine_patch \<Rightarrow> routine list \<Rightarrow> routine_error + routine list" where
  "patch_routine auth pr model_ok i p rows = (case row_get ro_id rows i of
       None \<Rightarrow> Inl NotFound
     | Some r \<Rightarrow>
         (if \<not> builtin_may_see auth (ro_user r) pr then Inl NotFound
          else if ro_static r \<and> \<not> only_status p then Inl Conflict
          else if rp_autonomy p \<noteq> None \<and> the (rp_autonomy p) \<notin> set ROUTINE_AUTONOMY then Inl Unprocessable
          else if opt_truthy (rp_model p) \<and> \<not> model_ok (the (rp_model p)) then Inl Unprocessable
          else if rp_status p \<noteq> None \<and> the (rp_status p) \<notin> {''active'', ''paused''} then Inl Unprocessable
          else Inr (row_upd ro_id i (apply_patch p) rows)))"

definition delete_routine ::
    "bool \<Rightarrow> principal option \<Rightarrow> string \<Rightarrow> routine list \<Rightarrow> routine_error + routine list" where
  "delete_routine auth pr i rows = (case row_get ro_id rows i of
       None \<Rightarrow> Inl NotFound
     | Some r \<Rightarrow> if \<not> builtin_may_see auth (ro_user r) pr then Inl NotFound
                 else if ro_static r then Inl Conflict else Inr (row_del ro_id i rows))"

definition issue_token ::
    "bool \<Rightarrow> bool \<Rightarrow> principal option \<Rightarrow> (string \<Rightarrow> string) \<Rightarrow> string \<Rightarrow> string \<Rightarrow> routine list \<Rightarrow> routine_error + routine list" where
  "issue_token enabled auth pr hash token i rows =
     (if \<not> enabled then Inl Conflict
      else (case row_get ro_id rows i of
          None \<Rightarrow> Inl NotFound
        | Some r \<Rightarrow> if \<not> builtin_may_see auth (ro_user r) pr then Inl NotFound
                    else Inr (row_upd ro_id i (\<lambda>r. r\<lparr>ro_token := Some (hash token)\<rparr>) rows)))"

definition revoke_token :: "bool \<Rightarrow> principal option \<Rightarrow> string \<Rightarrow> routine list \<Rightarrow> routine_error + routine list" where
  "revoke_token auth pr i rows = (case row_get ro_id rows i of
       None \<Rightarrow> Inl NotFound
     | Some r \<Rightarrow> if \<not> builtin_may_see auth (ro_user r) pr then Inl NotFound
                 else Inr (row_upd ro_id i (\<lambda>r. r\<lparr>ro_token := None\<rparr>) rows))"

definition bearer :: "string \<Rightarrow> string" where
  "bearer h = py_strip (remove_prefix ''Bearer '' h)"

definition fire_routine ::
    "amb_env \<Rightarrow> (string \<Rightarrow> string) \<Rightarrow> instant \<Rightarrow> string \<Rightarrow> json \<Rightarrow> json \<Rightarrow> string option \<Rightarrow> string option \<Rightarrow> amb_world
      \<Rightarrow> routine_error + nat option \<times> amb_world" where
  \<comment> \<open>the webhook: the id of the event, None when it was deduplicated\<close>
  "fire_routine env hash now i txt payload dedupe authorization w =
     (if \<not> ae_enabled env then Inl Conflict
      else (case row_get ro_id (aw_routines w) i of
          None \<Rightarrow> Inl NotFound
        | Some r \<Rightarrow>
            (if ro_status r \<noteq> ''active'' then Inl Conflict
             else if ro_token r = None then Inl Unauthorized
             else (let token = bearer (case authorization of None \<Rightarrow> [] | Some h \<Rightarrow> h)
                   in if token = [] \<or> Some (hash token) \<noteq> ro_token r then Inl Unauthorized
                      else (case emit_in env now
                              \<lparr>em_kind = ''routine_fire'', em_source = ''webhook'',
                               em_payload = [(''text'', txt), (''payload'', payload)], em_dedupe = dedupe,
                               em_routine = Some i, em_intent = None, em_caused_by = None\<rparr> w of
                          Inl e \<Rightarrow> Inl (if is_guard e then TooMany else EmitCrashed)
                        | Inr (None, w') \<Rightarrow> Inr (None, w')
                        | Inr (Some ev, w') \<Rightarrow> Inr (Some (ev_id ev),
                            w'\<lparr>aw_routines := row_upd ro_id i (\<lambda>r. r\<lparr>ro_last_fired := Some now\<rparr>) (aw_routines w')\<rparr>))))))"

end
