(* ===== verification/Ambient_Decide.thy ===== *)
theory Ambient_Decide
  imports Ambient_Triggers
begin

text \<open>
  The decision plane (\<open>backend/app/ambient/decide.py\<close>) and the execution plane
  (\<open>ambient/execute.py\<close>): the three-tier gate that turns an event into a verdict, the run a fired
  event becomes, its supervision under budgets, and the bookkeeping when it ends. The significance
  judge, the rendering of prompts and hashes and the spend ceiling are arguments.
\<close>

section \<open>The gate\<close>

record significance =
  sg_significant :: bool
  sg_urgency :: int
  sg_reason :: string

record decide_env =
  de_amb :: amb_env
  de_runs_per_day :: nat
  de_judge :: "standing_intent \<Rightarrow> amb_event \<Rightarrow> string + significance"   \<comment> \<open>\<open>Inl\<close>: the call failed\<close>
  de_error :: "failure \<Rightarrow> string"               \<comment> \<open>\<open>str(exc)\<close>\<close>
  de_hitl_hours :: int
  de_uuid :: "string \<Rightarrow> bool"
  de_owners :: owners

type_synonym verdict = "string \<times> string \<times> pydict"

definition FIRE_SOURCES :: "string list" where
  "FIRE_SOURCES = [''webhook'', ''schedule'', ''manual'', ''wakeup'']"

definition runs_today_cap_reached :: "nat \<Rightarrow> instant \<Rightarrow> amb_run list \<Rightarrow> bool" where
  "runs_today_cap_reached cap now runs \<longleftrightarrow>
     cap \<le> length (filter (\<lambda>x. ar_trigger x \<noteq> None \<and> midnight now \<le> ar_started x) runs)"

definition or_dict :: "json \<Rightarrow> py_exc + pydict" where
  \<comment> \<open>\<open>v or {}\<close>, about to be asked for a key\<close>
  "or_dict v = (if \<not> truthy v then Inr [] else case v of JDict d \<Rightarrow> Inr d | _ \<Rightarrow> Inl AttrErr)"

definition or_list :: "json \<Rightarrow> py_exc + json list" where
  \<comment> \<open>\<open>v or []\<close>, about to be iterated\<close>
  "or_list v = (if \<not> truthy v then Inr [] else iter_items v)"

fun any_match :: "amb_env \<Rightarrow> pydict \<Rightarrow> pydict list \<Rightarrow> py_exc + bool" where
  "any_match env data [] = Inr False"
| "any_match env data (t # ts) =
     bind_r (or_list (dict_get t ''filters'')) (\<lambda>fs. bind_r (match_filters env data fs) (\<lambda>ok.
       if ok then Inr True else any_match env data ts))"

definition webhook_triggers :: "routine \<Rightarrow> pydict list" where
  "webhook_triggers r = filter (\<lambda>d. dict_get d ''type'' = JStr ''webhook'') (map as_dict (filter is_dict (ro_triggers r)))"

definition base_decision :: pydict where
  "base_decision = [(''tier'', JInt 1), (''urgency'', JInt 2)]"

definition cap_verdict :: "nat \<Rightarrow> instant \<Rightarrow> amb_run list \<Rightarrow> pydict \<Rightarrow> string \<Rightarrow> pydict \<Rightarrow> verdict" where
  "cap_verdict cap now runs decision reason extra =
     (if runs_today_cap_reached cap now runs then (''dropped'', ''ambient_runs_per_day cap reached'', decision)
      else (''fired'', reason, dict_merge decision extra))"

definition decide_routine :: "decide_env \<Rightarrow> instant \<Rightarrow> amb_event \<Rightarrow> string \<Rightarrow> amb_world \<Rightarrow> py_exc + verdict" where
  "decide_routine env now e rid w = (case row_get ro_id (aw_routines w) rid of
       None \<Rightarrow> Inr (''dropped'', ''routine missing or not active'', base_decision)
     | Some r \<Rightarrow>
         (if ro_status r \<noteq> ''active'' then Inr (''dropped'', ''routine missing or not active'', base_decision)
          else (let payload = as_dict (dict_get (ev_payload e) ''payload'') in
            bind_r (or_dict (dict_get (ev_payload e) ''trigger'')) (\<lambda>trig.
            bind_r (or_list (dict_get trig ''filters'')) (\<lambda>filters.
            bind_r (match_filters (de_amb env) payload filters) (\<lambda>ok.
              if filters \<noteq> [] \<and> \<not> ok then Inr (''held'', ''tier-1 filters did not match'', base_decision)
              else bind_r (if filters = [] \<and> ev_source e = ''webhook'' \<and> webhook_triggers r \<noteq> []
                           then any_match (de_amb env) payload (webhook_triggers r) else Inr True) (\<lambda>admitted.
                if \<not> admitted then Inr (''held'', ''webhook trigger filters did not match'', base_decision)
                else Inr (cap_verdict (de_runs_per_day env) now (aw_runs w) base_decision ''routine trigger matched''
                            [(''fired_for'', JStr ''routine'')]))))))))"

definition intent_fire ::
    "decide_env \<Rightarrow> instant \<Rightarrow> standing_intent \<Rightarrow> amb_event \<Rightarrow> pydict \<Rightarrow> amb_run list \<Rightarrow> py_exc + verdict" where
  "intent_fire env now i e decision runs =
     (let cap = (\<lambda>d. cap_verdict (de_runs_per_day env) now runs d ''intent condition met''
                   [(''fired_for'', JStr ''intent''), (''intent_id'', JStr (si_id i))])
      in if si_predicate i = [] then Inr (cap decision)
         else (let d1 = dict_set decision ''tier'' (JInt 2) in
           case de_judge env i e of
             Inl x \<Rightarrow> Inr (''held'', ''significance judge failed: '' @ x, d1)
           | Inr j \<Rightarrow>
               (let d2 = dict_merge d1 [(''urgency'', JInt (sg_urgency j)), (''judge_reason'', JStr (sg_reason j))] in
                if \<not> sg_significant j then Inr (''held'', ''judged not significant'', d2)
                else bind_r (dict_int (si_budget i) ''min_urgency'' 0) (\<lambda>floor.
                  if sg_urgency j < floor
                  then Inr (''held'', ''urgency '' @ int_str (sg_urgency j) @ '' below intent min_urgency '' @ int_str floor, d2)
                  else Inr (cap d2)))))"

definition poll_data :: "amb_event \<Rightarrow> pydict" where
  \<comment> \<open>a poll item is unwrapped beside the kind and source\<close>
  "poll_data e = (case dict_get (ev_payload e) ''item'' of
       JDict item \<Rightarrow> dict_merge [(''kind'', JStr (ev_kind e)), (''source'', JStr (ev_source e))] item
     | _ \<Rightarrow> ev_payload e)"

definition decide_intent :: "decide_env \<Rightarrow> instant \<Rightarrow> amb_event \<Rightarrow> string \<Rightarrow> amb_world \<Rightarrow> py_exc + verdict" where
  "decide_intent env now e iid w = (case row_get si_id (aw_intents w) iid of
       None \<Rightarrow> Inr (''dropped'', ''intent missing or not active'', base_decision)
     | Some i \<Rightarrow>
         (if si_status i \<noteq> ''active'' then Inr (''dropped'', ''intent missing or not active'', base_decision)
          else bind_r (or_list (dict_get (si_compiled i) ''filters'')) (\<lambda>filters.
               bind_r (match_filters (de_amb env) (poll_data e) filters) (\<lambda>ok.
                 if filters \<noteq> [] \<and> \<not> ok then Inr (''held'', ''tier-1 filters did not match'', base_decision)
                 else intent_fire env now i e base_decision (aw_runs w)))))"

fun match_event_intents ::
    "decide_env \<Rightarrow> instant \<Rightarrow> amb_event \<Rightarrow> standing_intent list \<Rightarrow> amb_run list \<Rightarrow> py_exc + verdict option" where
  "match_event_intents env now e [] runs = Inr None"
| "match_event_intents env now e (i # is) runs =
     (if dict_get (si_compiled i) ''match'' \<noteq> JStr ''events'' then match_event_intents env now e is runs
      else bind_r (or_list (dict_get (si_compiled i) ''filters'')) (\<lambda>filters.
           bind_r (match_filters (de_amb env) (event_data e) filters) (\<lambda>ok.
             if filters = [] \<or> \<not> ok then match_event_intents env now e is runs
             else bind_r (intent_fire env now i e base_decision runs) (\<lambda>(v, reason, d).
               Inr (Some (v, reason, if v = ''fired'' then dict_set d ''matched_watch'' (JStr (take 120 (si_text i))) else d))))))"

definition hitl_delivery :: "int \<Rightarrow> string \<Rightarrow> delivery_request" where
  "hitl_delivery hours rid =
     \<lparr>dq_category = ''hitl'', dq_tier = 2, dq_urgency = 3, dq_title = ''[ambient] a run is waiting on your input'',
      dq_body = Some (''Run '' @ rid @ '' has been paused on a human-input gate for over '' @ int_str hours
                      @ ''h. It stays resumable from the run history.''),
      dq_run = Some rid, dq_intent = None, dq_skey = Some (''hitl:'' @ rid), dq_deadline = None, dq_user = None\<rparr>"

definition queue_hitl_delivery :: "decide_env \<Rightarrow> instant \<Rightarrow> amb_event \<Rightarrow> amb_world \<Rightarrow> (py_exc + verdict) \<times> amb_world" where
  "queue_hitl_delivery env now e w =
     (let raw = dict_get (ev_payload e) ''run_id'' in
      if \<not> truthy raw then (Inr (''dropped'', ''hitl_aged event without run_id'', base_decision), w)
      else (let rid = py_str (ae_render (de_amb env)) raw in
        if \<not> de_uuid env rid then (Inl ValueErr, w)
        else (Inr (''fired'', ''HITL question queued to the digest'',
                   dict_merge base_decision [(''action'', JStr ''delivery''), (''delivery_tier'', JInt 2)]),
              w\<lparr>aw_outbox := add_delivery (de_owners env) now (hitl_delivery (de_hitl_hours env) rid) (aw_outbox w)\<rparr>)))"

definition decide :: "decide_env \<Rightarrow> instant \<Rightarrow> amb_event \<Rightarrow> amb_world \<Rightarrow> (py_exc + verdict) \<times> amb_world" where
  "decide env now e w =
     (case (ev_routine e, ev_source e \<in> set FIRE_SOURCES) of
        (Some rid, True) \<Rightarrow> (decide_routine env now e rid w, w)
      | _ \<Rightarrow>
          (if ev_source e = ''internal'' \<and> ev_kind e = ''hitl_aged'' then queue_hitl_delivery env now e w
           else (case ev_intent e of
               Some iid \<Rightarrow> (decide_intent env now e iid w, w)
             | None \<Rightarrow>
                 (bind_r (match_event_intents env now e
                            (filter (\<lambda>i. si_status i = ''active'' \<and> si_condition i = ''event'') (aw_intents w)) (aw_runs w))
                    (\<lambda>m. Inr (case m of Some v \<Rightarrow> v
                       | None \<Rightarrow> (''held'', if ev_source e \<in> {''presence'', ''internal''}
                                           then ''informational event (no routine/intent addressee)'' else ''no addressee'',
                                  base_decision))), w))))"

definition process_event :: "decide_env \<Rightarrow> instant \<Rightarrow> amb_event \<Rightarrow> amb_world \<Rightarrow> verdict \<times> amb_world" where
  "process_event env now e w = (case decide env now e w of
       (Inl x, w') \<Rightarrow> ((''held'', ''decision error: '' @ de_error env (Inl x), [(''tier'', JInt 1)]), w')
     | (Inr v, w') \<Rightarrow> (v, w'))"

definition default_processor :: "decide_env \<Rightarrow> instant \<Rightarrow> amb_event \<Rightarrow> amb_world \<Rightarrow> proc_outcome \<times> amb_world" where
  \<comment> \<open>patterns first; their failure is the processor's, which the drain holds\<close>
  "default_processor env now e w = (case advance_patterns (de_amb env) now e w of
       ((Some x, n), w1) \<Rightarrow> (Verdict ''held'' (''processor error: '' @ de_error env x), w1)
     | ((None, n), w1) \<Rightarrow> (case process_event env now e w1 of ((v, r, d), w2) \<Rightarrow> (Decided v r d, w2)))"

fun process_batch :: "decide_env \<Rightarrow> instant \<Rightarrow> amb_event list \<Rightarrow> amb_world \<Rightarrow> proc_outcome list \<times> amb_world" where
  \<comment> \<open>the processing phase of one drain: the runs of the batch start after it\<close>
  "process_batch env now [] w = ([], w)"
| "process_batch env now (e # es) w = (case default_processor env now e w of
       (oc, w1) \<Rightarrow> (case process_batch env now es w1 of (ocs, w2) \<Rightarrow> (oc # ocs, w2)))"

definition hitl_event :: "amb_run \<Rightarrow> emit_request" where
  "hitl_event x =
     \<lparr>em_kind = ''hitl_aged'', em_source = ''internal'', em_payload = [(''run_id'', JStr (ar_id x))],
      em_dedupe = Some (''hitl_aged:'' @ ar_id x), em_routine = None, em_intent = None, em_caused_by = None\<rparr>"

definition sweep_one :: "amb_env \<Rightarrow> instant \<Rightarrow> amb_run \<Rightarrow> amb_world \<Rightarrow> (failure option \<times> nat) \<times> amb_world" where
  "sweep_one env now x w = (case emit_in env now (hitl_event x) w of
       Inl e \<Rightarrow> ((Some (Inr e), 0), w)
     | Inr (ev, w') \<Rightarrow> ((None, if ev = None then 0 else 1), w'))"

definition sweep_hitl_aging :: "decide_env \<Rightarrow> instant \<Rightarrow> amb_world \<Rightarrow> (failure option \<times> nat) \<times> amb_world" where
  "sweep_hitl_aging env now w =
     each_until (sweep_one (de_amb env) now)
       (filter (\<lambda>x. ar_status x = PausedHitl \<and> ar_started x \<le> now - secs (de_hitl_hours env * 3600) \<and> ar_trigger x \<noteq> None)
          (aw_runs w)) w"

end
