(* ===== verification/Ambient_Execute.thy ===== *)
theory Ambient_Execute
  imports Ambient_Decide
begin

text \<open>
  The execution plane (\<open>backend/app/ambient/execute.py\<close>): the run a fired event becomes, its
  supervision under budgets, and the bookkeeping when it ends. Rendering of prompts and hashes, the
  fresh identifiers and the spend ceiling are arguments. The supervisor is a partial function of the
  stream of its polls; the two sections after it hold what a fire may rely on and what three failures do.
\<close>

section \<open>From a fired event to a run\<close>

record exec_env =
  xe_decide :: decide_env
  xe_ceiling :: "string option"                 \<comment> \<open>the detail of \<open>SpendCeilingReached\<close>, None below it\<close>
  xe_draining :: bool                           \<comment> \<open>\<open>create_run\<close> refuses every run\<close>
  xe_auth :: bool
  xe_prompt_routine :: "routine \<Rightarrow> amb_event \<Rightarrow> string"
  xe_prompt_intent :: "standing_intent \<Rightarrow> amb_event \<Rightarrow> string"
  xe_payload_hash :: "pydict \<Rightarrow> string"
  xe_text_hash :: "string \<Rightarrow> string"
  xe_updated :: "string \<Rightarrow> json"                 \<comment> \<open>\<open>updated_at\<close> of a routine as text\<close>
  xe_threshold :: int                           \<comment> \<open>\<open>ambient_interrupt_threshold\<close>\<close>

datatype fire_target = ForRoutine routine | ForIntent standing_intent

definition fired_intent_id :: "decide_env \<Rightarrow> amb_event \<Rightarrow> py_exc + string" where
  \<comment> \<open>\<open>event.intent_id or UUID(str(decision.get("intent_id")))\<close>\<close>
  "fired_intent_id env e = (case ev_intent e of
       Some i \<Rightarrow> Inr i
     | None \<Rightarrow> (let s = py_str (ae_render (de_amb env)) (dict_get (ev_decision e) ''intent_id'')
               in if de_uuid env s then Inr s else Inl ValueErr))"

definition fire_target_of :: "decide_env \<Rightarrow> amb_event \<Rightarrow> amb_world \<Rightarrow> py_exc + fire_target option" where
  "fire_target_of env e w =
     (case (ev_routine e, dict_get (ev_decision e) ''fired_for'' = JStr ''routine'') of
        (Some rid, True) \<Rightarrow> Inr (case row_get ro_id (aw_routines w) rid of
             None \<Rightarrow> None | Some r \<Rightarrow> if ro_status r = ''active'' then Some (ForRoutine r) else None)
      | _ \<Rightarrow> (if dict_get (ev_decision e) ''fired_for'' = JStr ''intent''
              then bind_r (fired_intent_id env e) (\<lambda>iid. Inr (case row_get si_id (aw_intents w) iid of
                     None \<Rightarrow> None | Some i \<Rightarrow> if si_status i = ''active'' then Some (ForIntent i) else None))
              else Inr None))"

definition target_owner :: "fire_target \<Rightarrow> string option" where
  "target_owner t = (case t of ForRoutine r \<Rightarrow> ro_user r | ForIntent i \<Rightarrow> si_user i)"

definition target_memories :: "fire_target \<Rightarrow> bool" where
  "target_memories t = (case t of ForRoutine r \<Rightarrow> ro_memories r | ForIntent i \<Rightarrow> False)"

definition kept_conversation :: "fire_target \<Rightarrow> amb_world \<Rightarrow> string option" where
  \<comment> \<open>an \<open>include_memories\<close> routine reuses its conversation while it exists\<close>
  "kept_conversation t w = (case t of
       ForIntent i \<Rightarrow> None
     | ForRoutine r \<Rightarrow> if \<not> ro_memories r then None
         else (case ro_conversation r of None \<Rightarrow> None
               | Some c \<Rightarrow> if c \<in> fst ` set (aw_conversations w) then Some c else None))"

definition with_conversation :: "fire_target \<Rightarrow> string \<Rightarrow> amb_world \<Rightarrow> string \<times> amb_world" where
  \<comment> \<open>\<open>fresh\<close>: the id of the conversation that would be created\<close>
  "with_conversation t fresh w = (case kept_conversation t w of
       Some c \<Rightarrow> (c, w)
     | None \<Rightarrow> (fresh, (let w1 = w\<lparr>aw_conversations := aw_conversations w @ [(fresh, target_owner t)]\<rparr> in case t of
           ForRoutine r \<Rightarrow> if ro_memories r
             then w1\<lparr>aw_routines := row_upd ro_id (ro_id r) (\<lambda>r. r\<lparr>ro_conversation := Some fresh\<rparr>) (aw_routines w1)\<rparr> else w1
         | ForIntent i \<Rightarrow> w1)))"

definition as_principal :: "string option \<Rightarrow> principal option" where
  \<comment> \<open>\<open>visible_to\<close>: the rule judged for an owner\<close>
  "as_principal u = map_option (\<lambda>i. \<lparr>pr_id = Some i, pr_role = ''member'', pr_username = None\<rparr>) u"

definition create_run_refused :: "exec_env \<Rightarrow> string option \<Rightarrow> string \<Rightarrow> amb_world \<Rightarrow> bool" where
  \<comment> \<open>the guards of \<open>runner.create_run\<close> for an ambient run: conversation, admission, ceiling\<close>
  "create_run_refused env owner c w \<longleftrightarrow>
     (case map_of (aw_conversations w) c of
        None \<Rightarrow> True
      | Some u \<Rightarrow> \<not> builtin_may_see (xe_auth env) u (as_principal owner) \<or> xe_draining env \<or> xe_ceiling env \<noteq> None)"

definition opt_json :: "string option \<Rightarrow> json" where
  "opt_json s = (case s of None \<Rightarrow> JNull | Some x \<Rightarrow> JStr x)"

definition trigger_of :: "exec_env \<Rightarrow> fire_target \<Rightarrow> amb_event \<Rightarrow> pydict" where
  \<comment> \<open>the provenance copied onto the run\<close>
  "trigger_of env t e =
     [(''routine_id'', case t of ForRoutine r \<Rightarrow> JStr (ro_id r) | ForIntent i \<Rightarrow> JNull),
      (''intent_id'', case t of ForRoutine r \<Rightarrow> JNull | ForIntent i \<Rightarrow> JStr (si_id i)),
      (''event_id'', JStr (nat_str (ev_id e))), (''source'', JStr (ev_source e)), (''kind'', JStr (ev_kind e)),
      (''urgency'', dict_get_or (ev_decision e) ''urgency'' (JInt 2)),
      (''model_ref'', case t of ForRoutine r \<Rightarrow> opt_json (ro_model r) | ForIntent i \<Rightarrow> JNull),
      (''decision'', JDict (ev_decision e)), (''payload_hash'', JStr (xe_payload_hash env (ev_payload e))),
      (''routine'', case t of
          ForIntent i \<Rightarrow> JNull
        | ForRoutine r \<Rightarrow> JDict [(''name'', JStr (ro_name r)), (''prompt_hash'', JStr (xe_text_hash env (ro_prompt r))),
            (''allowlist'', case ro_allowlist r of None \<Rightarrow> JNull | Some d \<Rightarrow> JDict d), (''updated_at'', xe_updated env (ro_id r))])]"

definition new_run :: "exec_env \<Rightarrow> instant \<Rightarrow> string \<Rightarrow> string \<Rightarrow> fire_target \<Rightarrow> amb_event \<Rightarrow> amb_run" where
  "new_run env now c rid t e =
     \<lparr>ar_id = rid, ar_user = target_owner t, ar_conversation = c,
      ar_prompt = (case t of ForRoutine r \<Rightarrow> xe_prompt_routine env r e | ForIntent i \<Rightarrow> xe_prompt_intent env i e),
      ar_memories = target_memories t, ar_trigger = Some (trigger_of env t e), ar_status = Queued,
      ar_started = now, ar_heartbeat = Some now, ar_finished = None, ar_error = None, ar_answer = None\<rparr>"

datatype prepared = CeilingReached string | NoRun | Crashed | Prepared amb_run

definition prepare_run ::
    "exec_env \<Rightarrow> instant \<Rightarrow> string \<Rightarrow> string \<Rightarrow> amb_event \<Rightarrow> amb_world \<Rightarrow> prepared \<times> amb_world" where
  "prepare_run env now fresh rid e w = (case xe_ceiling env of
       Some detail \<Rightarrow> (CeilingReached detail, w)
     | None \<Rightarrow> (case fire_target_of (xe_decide env) e w of
           Inl x \<Rightarrow> (Crashed, w)
         | Inr None \<Rightarrow> (NoRun, w)
         | Inr (Some t) \<Rightarrow>
             (let (c, w1) = with_conversation t fresh w
              in if create_run_refused env (target_owner t) c w1 then (Crashed, w1)
                 else (let x = new_run env now c rid t e in (Prepared x, w1\<lparr>aw_runs := row_add x (aw_runs w1)\<rparr>)))))"

definition DEFAULT_BUDGETS :: pydict where
  "DEFAULT_BUDGETS = [(''max_steps'', JInt 40), (''max_tokens'', JInt 200000), (''wall_clock_s'', JInt 900),
     (''tokens_without_progress'', JInt 30000)]"

definition budgets_of :: "amb_event \<Rightarrow> amb_world \<Rightarrow> pydict" where
  "budgets_of e w = (case Option.bind (ev_routine e) (row_get ro_id (aw_routines w)) of
       None \<Rightarrow> DEFAULT_BUDGETS
     | Some r \<Rightarrow> dict_merge DEFAULT_BUDGETS (ro_budgets r))"

definition start_fired ::
    "exec_env \<Rightarrow> instant \<Rightarrow> string \<Rightarrow> string \<Rightarrow> nat \<Rightarrow> amb_world \<Rightarrow> (amb_run \<times> pydict) option \<times> amb_world" where
  \<comment> \<open>\<open>execute_fired_event\<close> up to \<open>start_run_task\<close>: the run to start and its budgets\<close>
  "start_fired env now fresh rid eid w = (case row_get ev_id (aw_events w) eid of
       None \<Rightarrow> (None, w)
     | Some e \<Rightarrow>
         (if ev_verdict e \<noteq> Some ''fired'' then (None, w)
          else (case prepare_run env now fresh rid e w of
              (CeilingReached detail, w1) \<Rightarrow>
                (None, w1\<lparr>aw_events := row_upd ev_id eid
                   (\<lambda>e. e\<lparr>ev_verdict := Some ''held'', ev_reason := ''spend ceiling: '' @ detail\<rparr>) (aw_events w1)\<rparr>)
            | (Prepared x, w1) \<Rightarrow> (Some (x, budgets_of e w1), w1)
            | (_, w1) \<Rightarrow> (None, w1))))"

section \<open>Supervision\<close>

definition terminal :: "run_status \<Rightarrow> bool" where
  "terminal s \<longleftrightarrow> s \<in> {Completed, Failed, Cancelled, Stalled}"

record poll =
  po_elapsed :: instant       \<comment> \<open>since the supervisor started\<close>
  po_row :: "(run_status \<times> int \<times> int) option"   \<comment> \<open>status, tokens and steps; None when the run is gone\<close>

record sup_state =
  ss_steps :: int
  ss_mark :: int              \<comment> \<open>\<open>tokens_at_progress\<close>\<close>

definition sup_start :: sup_state where
  "sup_start = \<lparr>ss_steps = -1, ss_mark = 0\<rparr>"

datatype sup_reply = SupStatus run_status | SupCancelled string | SupRaised py_exc

definition breach_of :: "amb_env \<Rightarrow> pydict \<Rightarrow> instant \<Rightarrow> int \<Rightarrow> int \<Rightarrow> int \<Rightarrow> py_exc + string option" where
  \<comment> \<open>wall clock, steps, tokens, tokens since the last new step\<close>
  "breach_of env budgets elapsed steps tokens idle =
     bind_r (dict_float env budgets ''wall_clock_s'' 900) (\<lambda>wall.
     if of_int (secs 1) * wall < of_int elapsed
     then Inr (Some (''wall_clock_s ('' @ int_str (elapsed div secs 1) @ ''s elapsed)''))
     else bind_r (dict_int budgets ''max_steps'' 40) (\<lambda>max_steps.
     if max_steps < steps then Inr (Some (''max_steps ('' @ int_str steps @ '' steps)''))
     else bind_r (dict_int budgets ''max_tokens'' 200000) (\<lambda>max_tokens.
     if max_tokens < tokens then Inr (Some (''max_tokens ('' @ int_str tokens @ '' tokens)''))
     else bind_r (dict_int budgets ''tokens_without_progress'' 30000) (\<lambda>max_idle.
     Inr (if max_idle < idle
          then Some (''tokens_without_progress ('' @ int_str idle @ '' tokens, no new steps)'') else None)))))"

definition sup_poll :: "amb_env \<Rightarrow> pydict \<Rightarrow> sup_state \<Rightarrow> poll \<Rightarrow> sup_reply + sup_state" where
  \<comment> \<open>one iteration: the reply that ends the loop, or its next state\<close>
  "sup_poll env budgets st p = (case po_row p of
       None \<Rightarrow> Inl (SupStatus Failed)
     | Some (status, tokens, steps) \<Rightarrow>
         (if terminal status then Inl (SupStatus status)
          else if status = PausedHitl then Inr st
          else (let st1 = (if steps \<noteq> ss_steps st then \<lparr>ss_steps = steps, ss_mark = tokens\<rparr> else st)
                in case breach_of env budgets (po_elapsed p) steps tokens (tokens - ss_mark st1) of
                     Inl x \<Rightarrow> Inl (SupRaised x)
                   | Inr (Some reason) \<Rightarrow> Inl (SupCancelled reason)
                   | Inr None \<Rightarrow> Inr st1)))"

partial_function (option) supervise ::
    "amb_env \<Rightarrow> pydict \<Rightarrow> (nat \<Rightarrow> poll) \<Rightarrow> nat \<Rightarrow> sup_state \<Rightarrow> sup_reply option" where
  "supervise env budgets polls n st = (case sup_poll env budgets st (polls n) of
       Inl reply \<Rightarrow> Some reply
     | Inr st1 \<Rightarrow> supervise env budgets polls (Suc n) st1)"

definition beat_run :: "instant \<Rightarrow> string \<Rightarrow> amb_world \<Rightarrow> amb_world" where
  \<comment> \<open>every poll of a live run is a heartbeat\<close>
  "beat_run now rid w = w\<lparr>aw_runs := row_upd ar_id rid
     (\<lambda>x. if terminal (ar_status x) then x else x\<lparr>ar_heartbeat := Some now\<rparr>) (aw_runs w)\<rparr>"

definition budget_cancel :: "instant \<Rightarrow> string \<Rightarrow> string \<Rightarrow> amb_world \<Rightarrow> amb_world" where
  \<comment> \<open>\<open>_cancel_run\<close> once its task is gone: a run that ended first keeps its status, not its error\<close>
  "budget_cancel now reason rid w = w\<lparr>aw_runs := row_upd ar_id rid
     (\<lambda>x. (if terminal (ar_status x) then x else x\<lparr>ar_status := Cancelled, ar_finished := Some now\<rparr>)
            \<lparr>ar_error := Some (''ambient budget exceeded: '' @ reason)\<rparr>) (aw_runs w)\<rparr>"

section \<open>When the run is over\<close>

definition is_line_break :: "char \<Rightarrow> bool" where
  "is_line_break c \<longleftrightarrow> (of_char c :: nat) \<in> {10, 11, 12, 13, 28, 29, 30, 133}"

definition first_line :: "nat \<Rightarrow> string \<Rightarrow> string" where
  "first_line limit s = take limit (takeWhile (\<lambda>c. \<not> is_line_break c) (py_strip s))"

definition status_text :: "run_status \<Rightarrow> string" where
  "status_text s = (case s of Queued \<Rightarrow> ''queued'' | Running \<Rightarrow> ''running'' | PausedHitl \<Rightarrow> ''paused_hitl''
     | Completed \<Rightarrow> ''completed'' | Failed \<Rightarrow> ''failed'' | Cancelled \<Rightarrow> ''cancelled'' | Stalled \<Rightarrow> ''stalled'')"

definition or_text :: "string option \<Rightarrow> string \<Rightarrow> string" where
  \<comment> \<open>\<open>v or default\<close>\<close>
  "or_text v d = (if opt_truthy v then the v else d)"

definition finish_intent :: "decide_env \<Rightarrow> amb_event \<Rightarrow> amb_world \<Rightarrow> py_exc + standing_intent option" where
  "finish_intent env e w =
     (if ev_intent e = None \<and> \<not> truthy (dict_get (ev_decision e) ''intent_id'') then Inr None
      else bind_r (fired_intent_id env e) (\<lambda>i. Inr (row_get si_id (aw_intents w) i)))"

definition fire_name :: "routine option \<Rightarrow> standing_intent option \<Rightarrow> string" where
  "fire_name r i = (case r of Some r \<Rightarrow> ro_name r
     | None \<Rightarrow> (case i of Some i \<Rightarrow> take 60 (si_text i) | None \<Rightarrow> ''ambient''))"

definition is_abstain :: "string \<Rightarrow> bool" where
  \<comment> \<open>\<open>answer.upper().startswith("ABSTAIN")\<close>\<close>
  "is_abstain answer \<longleftrightarrow> starts_with (py_lower answer) ''abstain''"

definition answer_tier :: "int \<Rightarrow> int \<Rightarrow> standing_intent option \<Rightarrow> string \<Rightarrow> int \<times> string" where
  "answer_tier threshold urgency i answer =
     (if is_abstain answer then (3, ''abstained'')
      else (case i of
          None \<Rightarrow> (2, ''routine'')
        | Some i \<Rightarrow> (if si_delivery i = ''interrupt'' \<or> si_delivery i = ''auto'' \<and> threshold \<le> urgency then 1 else 2, ''watch'')))"

definition answer_key :: "routine option \<Rightarrow> standing_intent option \<Rightarrow> string \<Rightarrow> string option" where
  "answer_key r i category = (case i of
       Some i \<Rightarrow> Some (''intent:'' @ si_id i @ '':'' @ category)
     | None \<Rightarrow> map_option (\<lambda>r. ''routine:'' @ ro_id r @ '':'' @ category) r)"

definition half_hour :: instant where
  "half_hour = secs 1800"

definition answer_request ::
    "exec_env \<Rightarrow> instant \<Rightarrow> amb_run \<Rightarrow> int \<Rightarrow> routine option \<Rightarrow> standing_intent option \<Rightarrow> delivery_request" where
  "answer_request env now x urgency r i =
     (let answer = py_strip (or_text (ar_answer x) []);
          (tier, category) = answer_tier (xe_threshold env) urgency i answer
      in \<lparr>dq_category = category, dq_tier = tier, dq_urgency = urgency,
          dq_title = ''['' @ fire_name r i @ ''] '' @ (if first_line 200 answer = [] then ''(no answer)'' else first_line 200 answer),
          dq_body = (if answer = [] then None else Some answer), dq_run = Some (ar_id x), dq_intent = map_option si_id i,
          dq_skey = answer_key r i category, dq_deadline = (if tier = 1 then Some (now + half_hour) else None), dq_user = None\<rparr>)"

definition has_delivery :: "string set \<Rightarrow> string \<Rightarrow> amb_world \<Rightarrow> bool" where
  "has_delivery categories rid w \<longleftrightarrow>
     list_ex (\<lambda>d. dl_run d = Some rid \<and> dl_category d \<in> categories) (ob_rows (aw_outbox w))"

definition deliver :: "exec_env \<Rightarrow> instant \<Rightarrow> delivery_request \<Rightarrow> amb_world \<Rightarrow> amb_world" where
  "deliver env now rq w = w\<lparr>aw_outbox := add_delivery (de_owners (xe_decide env)) now rq (aw_outbox w)\<rparr>"

definition finish_completed ::
    "exec_env \<Rightarrow> instant \<Rightarrow> amb_run \<Rightarrow> int \<Rightarrow> routine option \<Rightarrow> standing_intent option \<Rightarrow> amb_world \<Rightarrow> amb_world" where
  "finish_completed env now x urgency r i w =
     (let w1 = (case r of None \<Rightarrow> w
                | Some r \<Rightarrow> w\<lparr>aw_routines := row_upd ro_id (ro_id r) (\<lambda>r. r\<lparr>ro_failures := 0\<rparr>) (aw_routines w)\<rparr>)
      in if has_delivery {''routine'', ''watch'', ''abstained''} (ar_id x) w then w1
         else deliver env now (answer_request env now x urgency r i) w1)"

definition AUTO_PAUSE_AFTER :: nat where
  "AUTO_PAUSE_AFTER = 3"

definition last_error :: "amb_run \<Rightarrow> string" where
  "last_error x = first_line 120 (or_text (ar_error x) (status_text (ar_status x)))"

definition count_failure :: "amb_run \<Rightarrow> routine \<Rightarrow> routine" where
  "count_failure x r =
     (let r1 = r\<lparr>ro_failures := ro_failures r + 1\<rparr>
      in if AUTO_PAUSE_AFTER \<le> ro_failures r1 \<and> ro_status r1 = ''active''
         then r1\<lparr>ro_status := ''paused'',
                 ro_reason := Some (''auto-paused after 3 consecutive failures (last: '' @ last_error x @ '')'')\<rparr>
         else r1)"

definition self_wake :: "amb_run \<Rightarrow> wakeup_request" where
  "self_wake x =
     \<lparr>wq_delay = Some 60, wq_at = None,
      wq_reason = ''self-wake after failure: '' @ first_line 200 (or_text (ar_error x) ''?''),
      wq_payload = [(''failed_run_id'', JStr (ar_id x)), (''error'', JStr (take 500 (or_text (ar_error x) [])))],
      wq_by = ''system'', wq_run = Some (ar_id x)\<rparr>"

definition book_self_wake :: "amb_env \<Rightarrow> instant \<Rightarrow> amb_run \<Rightarrow> string \<Rightarrow> wakeup list \<Rightarrow> wakeup list" where
  \<comment> \<open>one per failed run; a cap drops it\<close>
  "book_self_wake env now x rid ws =
     (if list_ex (\<lambda>k. wk_run k = Some (ar_id x)) ws then ws
      else (case schedule_wakeup env rid (self_wake x) now ws of Inl e \<Rightarrow> ws | Inr (k, ws') \<Rightarrow> ws'))"

definition failure_request ::
    "instant \<Rightarrow> amb_run \<Rightarrow> bool \<Rightarrow> routine option \<Rightarrow> standing_intent option \<Rightarrow> delivery_request" where
  "failure_request now x paused r i =
     \<lparr>dq_category = ''failure'', dq_tier = (if paused then 0 else 1), dq_urgency = (if paused then 5 else 4),
      dq_title = ''['' @ fire_name r i @ (if paused then ''] auto-paused after repeated failures''
        else ''] run '' @ status_text (ar_status x) @ '': '' @ first_line 120 (or_text (ar_error x) [])),
      dq_body = ar_error x, dq_run = Some (ar_id x), dq_intent = map_option si_id i, dq_skey = None,
      dq_deadline = Some (now + half_hour), dq_user = None\<rparr>"

definition pauses :: "amb_run \<Rightarrow> routine option \<Rightarrow> bool" where
  "pauses x r \<longleftrightarrow> (case r of None \<Rightarrow> False | Some r \<Rightarrow> ro_status r = ''active'' \<and> ro_status (count_failure x r) = ''paused'')"

definition finish_failed ::
    "exec_env \<Rightarrow> instant \<Rightarrow> amb_run \<Rightarrow> routine option \<Rightarrow> standing_intent option \<Rightarrow> amb_world \<Rightarrow> amb_world" where
  "finish_failed env now x r i w =
     (let w1 = (case r of None \<Rightarrow> w
                | Some r \<Rightarrow> w\<lparr>aw_routines := row_upd ro_id (ro_id r) (count_failure x) (aw_routines w),
                             aw_wakeups := book_self_wake (de_amb (xe_decide env)) now x (ro_id r) (aw_wakeups w)\<rparr>)
      in if has_delivery {''failure''} (ar_id x) w then w1
         else deliver env now (failure_request now x (pauses x r) r i) w1)"

definition finish_ambient_run ::
    "exec_env \<Rightarrow> instant \<Rightarrow> string \<Rightarrow> nat \<Rightarrow> amb_world \<Rightarrow> py_exc option \<times> amb_world" where
  "finish_ambient_run env now rid eid w =
     (case (row_get ar_id (aw_runs w) rid, row_get ev_id (aw_events w) eid) of
        (Some x, Some e) \<Rightarrow>
          (case finish_intent (xe_decide env) e w of
             Inl err \<Rightarrow> (Some err, w)
           | Inr i \<Rightarrow>
               (case dict_int (ev_decision e) ''urgency'' 2 of
                  Inl err \<Rightarrow> (Some err, w)
                | Inr urgency \<Rightarrow>
                    (let r = Option.bind (ev_routine e) (row_get ro_id (aw_routines w))
                     in (None, if ar_status x = Completed then finish_completed env now x urgency r i w
                               else if ar_status x \<in> {Failed, Stalled, Cancelled} then finish_failed env now x r i w else w))))
      | _ \<Rightarrow> (None, w))"

definition settle_run ::
    "exec_env \<Rightarrow> instant \<Rightarrow> string \<Rightarrow> nat \<Rightarrow> sup_reply \<Rightarrow> amb_world \<Rightarrow> py_exc option \<times> amb_world" where
  \<comment> \<open>\<open>execute_fired_event\<close> after the run started: an exception of the supervisor skips the bookkeeping\<close>
  "settle_run env now rid eid reply w = (case reply of
       SupRaised x \<Rightarrow> (Some x, w)
     | SupCancelled reason \<Rightarrow> finish_ambient_run env now rid eid (budget_cancel now reason rid w)
     | SupStatus s \<Rightarrow> finish_ambient_run env now rid eid w)"

section \<open>The reaper\<close>

definition silent_run :: "instant \<Rightarrow> int \<Rightarrow> amb_run \<Rightarrow> bool" where
  "silent_run now stall_s x \<longleftrightarrow> ar_status x = Running
     \<and> (case ar_heartbeat x of Some t \<Rightarrow> t | None \<Rightarrow> ar_started x) \<le> now - secs stall_s"

definition stall_run :: "instant \<Rightarrow> int \<Rightarrow> amb_run \<Rightarrow> amb_run" where
  "stall_run now stall_s x =
     x\<lparr>ar_status := Stalled, ar_error := Some (''stalled: no heartbeat for over '' @ int_str stall_s @ ''s''),
       ar_finished := Some now\<rparr>"

definition pause_stalled :: "decide_env \<Rightarrow> amb_run \<Rightarrow> amb_world \<Rightarrow> (failure option \<times> nat) \<times> amb_world" where
  "pause_stalled env x w =
     (let raw = dict_get (case ar_trigger x of None \<Rightarrow> [] | Some d \<Rightarrow> d) ''routine_id''; i = py_str (ae_render (de_amb env)) raw
      in if \<not> truthy raw then ((None, 1), w)
         else if \<not> de_uuid env i then ((Some (Inl ValueErr), 0), w)
         else ((None, 1), w\<lparr>aw_routines := row_upd ro_id i
                (\<lambda>r. if ro_status r = ''active''
                     then r\<lparr>ro_status := ''paused'', ro_reason := Some (''auto-paused: run '' @ ar_id x @ '' stalled (no heartbeat)'')\<rparr>
                     else r) (aw_routines w)\<rparr>))"

definition reap_stalled_runs :: "decide_env \<Rightarrow> instant \<Rightarrow> int \<Rightarrow> amb_world \<Rightarrow> (failure option \<times> nat) \<times> amb_world" where
  \<comment> \<open>\<open>setting\<close>: \<open>run_stall_after_s\<close>; the rows are marked first, then the routines one by one\<close>
  "reap_stalled_runs env now setting w =
     (let stall_s = max setting 60; stale = filter (silent_run now stall_s) (aw_runs w)
      in each_until (pause_stalled env) stale
           (w\<lparr>aw_runs := map (\<lambda>x. if silent_run now stall_s x then stall_run now stall_s x else x) (aw_runs w)\<rparr>))"

end
