(* ===== verification/Ambient_Trigger_Laws.thy ===== *)
theory Ambient_Trigger_Laws
  imports Ambient_Triggers
begin

text \<open>
  What the trigger plane guarantees: caps and clamps of wake-ups over any history, edge detection of
  state conditions as a reference on the readings, at most one armed instance per pattern; and where
  it does not do what it says: one-off triggers next to other fires, late events and absence rules,
  the shared name space of dedupe keys.
\<close>

section \<open>Wake-ups\<close>

datatype wake_event =
    Books amb_env string wakeup_request instant
  | Cancels nat
  | FiresDue amb_env instant

definition with_cap :: "nat \<Rightarrow> amb_env \<Rightarrow> amb_env" where
  "with_cap cap env = env\<lparr>ae_wakeups_per_day := cap\<rparr>"

fun wake_act :: "nat \<Rightarrow> amb_world \<Rightarrow> wake_event \<Rightarrow> amb_world" where
  "wake_act cap w (Books env r rq now) =
     (case schedule_wakeup (with_cap cap env) r rq now (aw_wakeups w) of
        Inl e \<Rightarrow> w | Inr (k, ws) \<Rightarrow> w\<lparr>aw_wakeups := ws\<rparr>)"
| "wake_act cap w (Cancels i) = w\<lparr>aw_wakeups := snd (cancel_wakeup i (aw_wakeups w))\<rparr>"
| "wake_act cap w (FiresDue env now) = snd (fire_due_wakeups env now w)"

definition booked_on :: "string \<Rightarrow> instant \<Rightarrow> wakeup list \<Rightarrow> nat" where
  "booked_on r day ws = length (filter (\<lambda>k. wk_routine k = Some r \<and> midnight (wk_created k) = day) ws)"

definition wakeup_ok :: "wakeup \<Rightarrow> bool" where
  \<comment> \<open>booked for a minute to a day ahead, and fired, if at all, not before it is due\<close>
  "wakeup_ok k \<longleftrightarrow> wk_created k + secs 60 \<le> wk_due k \<and> wk_due k \<le> wk_created k + secs 86400
     \<and> wk_status k \<in> {''pending'', ''fired'', ''cancelled'', ''expired''}
     \<and> (case wk_fired k of None \<Rightarrow> wk_status k \<noteq> ''fired'' | Some t \<Rightarrow> wk_status k = ''fired'' \<and> wk_due k \<le> t)"

definition wakeups_ok :: "nat \<Rightarrow> wakeup list \<Rightarrow> bool" where
  "wakeups_ok cap ws \<longleftrightarrow> map wk_id ws = [0..<length ws] \<and> list_all wakeup_ok ws
     \<and> (\<forall>r. pending_wakeups r ws \<le> WAKEUP_MAX_PENDING) \<and> (\<forall>r day. booked_on r day ws \<le> cap)"

definition settles :: "wakeup \<Rightarrow> wakeup \<Rightarrow> bool" where
  \<comment> \<open>what may happen to a booked wake-up: only its end\<close>
  "settles k k' \<longleftrightarrow> wk_id k' = wk_id k \<and> wk_routine k' = wk_routine k \<and> wk_due k' = wk_due k \<and> wk_created k' = wk_created k
     \<and> (wakeup_ok k \<longrightarrow> wakeup_ok k') \<and> (wk_status k' = ''pending'' \<longrightarrow> wk_status k = ''pending'')"

lemma settles_map:
  assumes ok: "wakeups_ok cap ws" and s: "\<And>k. k \<in> set ws \<Longrightarrow> settles k (f k)"
  shows "wakeups_ok cap (map f ws)"
proof -
  have "pending_wakeups r (map f ws) \<le> pending_wakeups r ws \<and> booked_on r d (map f ws) = booked_on r d ws" for r d
    using s unfolding pending_wakeups_def booked_on_def
    by (induction ws) (auto simp: settles_def)
  then have "(\<forall>r. pending_wakeups r (map f ws) \<le> WAKEUP_MAX_PENDING) \<and> (\<forall>r d. booked_on r d (map f ws) \<le> cap)"
    using ok unfolding wakeups_ok_def by (metis order_trans)
  moreover have "map wk_id (map f ws) = map wk_id ws" using s by (simp add: settles_def)
  ultimately show ?thesis
    using ok s unfolding wakeups_ok_def by (auto simp: list_all_iff settles_def)
qed

lemma settles_upd:
  assumes "wakeups_ok cap ws" "\<And>k. k \<in> set ws \<Longrightarrow> wk_id k = i \<Longrightarrow> settles k (f k)"
  shows "wakeups_ok cap (row_upd wk_id i f ws)"
  unfolding row_upd_def by (rule settles_map[OF assms(1)]) (use assms(2) in \<open>simp add: settles_def\<close>)

lemma book_ok:
  assumes ok: "wakeups_ok cap ws" and b: "schedule_wakeup (with_cap cap env) r rq now ws = Inr (k, ws')"
  shows "wakeups_ok cap ws'"
proof -
  obtain delay where k: "k = \<lparr>wk_id = length ws, wk_routine = Some r, wk_run = wq_run rq, wk_due = now + clamp_delay delay,
        wk_reason = wq_reason rq, wk_payload = wq_payload rq, wk_by = wq_by rq, wk_status = ''pending'', wk_created = now, wk_fired = None\<rparr>"
      "ws' = row_add k ws" "pending_wakeups r ws < WAKEUP_MAX_PENDING" "wakeups_since r (midnight now) ws < cap"
    using b by (auto simp: schedule_wakeup_def with_cap_def Let_def split: option.splits if_splits)
  have "booked_on r (midnight now) ws \<le> wakeups_since r (midnight now) ws"
    unfolding booked_on_def wakeups_since_def
  proof (induction ws)
    case (Cons k ws)
    moreover have "midnight (wk_created k) = midnight now \<Longrightarrow> midnight now \<le> wk_created k"
      using midnight_bounds[of "wk_created k"] by simp
    ultimately show ?case by auto
  qed simp
  then have "booked_on s d ws' \<le> cap" for s d
    using ok k by (auto simp: wakeups_ok_def booked_on_def row_add_def)
  moreover have "pending_wakeups s ws' \<le> WAKEUP_MAX_PENDING" for s
    using ok k by (auto simp: wakeups_ok_def pending_wakeups_def row_add_def)
  moreover have "wakeup_ok k"
    by (auto simp: k wakeup_ok_def clamp_delay_def WAKEUP_MIN_DELAY_S_def WAKEUP_MAX_DELAY_S_def secs_def)
  ultimately show ?thesis
    using ok by (auto simp: wakeups_ok_def k row_add_def list_all_iff)
qed

definition same_due :: "wakeup list \<Rightarrow> wakeup list \<Rightarrow> bool" where
  "same_due ks ws \<longleftrightarrow> (\<forall>k \<in> set ks. \<forall>k' \<in> set ws. wk_id k' = wk_id k \<longrightarrow> wk_due k' = wk_due k)"

lemma settle_settles: "(fired \<longrightarrow> wk_due k \<le> now) \<Longrightarrow> settles k (if wk_status k \<noteq> ''pending'' then k
    else if fired then k\<lparr>wk_status := ''fired'', wk_fired := Some now\<rparr> else k\<lparr>wk_status := ''expired''\<rparr>)"
  by (auto simp: settles_def wakeup_ok_def split: option.splits)

lemma settle_ok:
  assumes "wakeups_ok cap ws" "same_due [k] ws" "wk_due k \<le> now"
  shows "wakeups_ok cap (settle_wakeup now (wk_id k) fired ws)"
  unfolding settle_wakeup_def
  by (rule settles_upd[OF assms(1)], rule settle_settles) (use assms(2,3) in \<open>auto simp: same_due_def\<close>)

lemma settle_due: "same_due ks ws \<Longrightarrow> same_due ks (settle_wakeup now i fired ws)"
  by (auto simp: same_due_def settle_wakeup_def row_upd_def)

lemma emit_in_rest:
  "emit_in env now rq w = Inr (ev, w') \<Longrightarrow> w' = w\<lparr>aw_events := aw_events w'\<rparr>"
  by (auto simp: emit_in_def split: sum.splits)

lemma emit_in_keeps:
  assumes "emit_in env now rq w = Inr (ev, w')"
  shows "aw_wakeups w' = aw_wakeups w" "aw_intents w' = aw_intents w" "aw_routines w' = aw_routines w"
    "aw_patterns w' = aw_patterns w"
  using assms by (auto simp: emit_in_def split: sum.splits)

lemma fire_wakeup_rows:
  "snd (fire_wakeup env now k w) = w \<or> (\<exists>fired. aw_wakeups (snd (fire_wakeup env now k w)) = settle_wakeup now (wk_id k) fired (aw_wakeups w))"
proof (cases "emit_in env now (wakeup_event k) w")
  case (Inl e)
  then show ?thesis by (auto simp: fire_wakeup_def Let_def)
next
  case (Inr p)
  obtain ev w' where p: "p = (ev, w')" by (cases p)
  with Inr emit_in_keeps(1)[of env now "wakeup_event k" w ev w'] show ?thesis
    by (cases ev) (auto simp: fire_wakeup_def Let_def)
qed

lemma fire_loop_ok:
  "wakeups_ok cap (aw_wakeups w) \<Longrightarrow> same_due ks (aw_wakeups w) \<Longrightarrow> (\<And>k. k \<in> set ks \<Longrightarrow> wk_due k \<le> now) \<Longrightarrow>
   wakeups_ok cap (aw_wakeups (snd (each_until (fire_wakeup env now) ks w)))"
proof (induction ks arbitrary: w)
  case (Cons k ks)
  obtain e n w1 where f: "fire_wakeup env now k w = ((e, n), w1)" by (metis prod.collapse)
  have "same_due [k] (aw_wakeups w)" using Cons.prems(2) by (simp add: same_due_def)
  then have "wakeups_ok cap (aw_wakeups w1) \<and> same_due ks (aw_wakeups w1)"
    using fire_wakeup_rows[of env now k w] Cons.prems settle_ok[of cap "aw_wakeups w" k now] settle_due[of "k # ks" "aw_wakeups w"]
    by (auto simp: f same_due_def)
  with Cons.IH[of w1] Cons.prems(3) f show ?case by (auto split: option.splits prod.splits)
qed simp

lemma wake_act_ok: "wakeups_ok cap (aw_wakeups w) \<Longrightarrow> wakeups_ok cap (aw_wakeups (wake_act cap w e))"
proof (cases e)
  case (Books env r rq now)
  then show "wakeups_ok cap (aw_wakeups w) \<Longrightarrow> ?thesis" by (auto split: sum.splits dest: book_ok)
next
  case (Cancels i)
  assume ok: "wakeups_ok cap (aw_wakeups w)"
  have "wakeups_ok cap (row_upd wk_id i (\<lambda>k. k\<lparr>wk_status := ''cancelled''\<rparr>) (aw_wakeups w))"
    if g: "row_get wk_id (aw_wakeups w) i = Some k" "wk_status k = ''pending''" for k
  proof (rule settles_upd[OF ok])
    fix k' assume k': "k' \<in> set (aw_wakeups w)" "wk_id k' = i"
    have "distinct (map wk_id (aw_wakeups w))" using ok by (simp add: wakeups_ok_def)
    then have "k' = k" using k' row_get_Some[OF g(1)] by (auto simp: distinct_map dest: inj_onD)
    with g(2) show "settles k' (k'\<lparr>wk_status := ''cancelled''\<rparr>)" by (auto simp: settles_def wakeup_ok_def split: option.splits)
  qed
  with ok Cancels show ?thesis by (auto simp: cancel_wakeup_def split: option.splits)
next
  case (FiresDue env now)
  assume ok: "wakeups_ok cap (aw_wakeups w)"
  then have "distinct (map wk_id (aw_wakeups w))" by (simp add: wakeups_ok_def)
  then have "same_due (filter (\<lambda>k. wk_status k = ''pending'' \<and> wk_due k \<le> now) (aw_wakeups w)) (aw_wakeups w)"
    by (auto simp: same_due_def distinct_map dest: inj_onD)
  with fire_loop_ok[OF ok this] FiresDue show ?thesis by (simp add: fire_due_wakeups_def)
qed

text \<open>
  Over any history of bookings, cancellations and ticks, whatever clocks and events they come
  with, a routine never has more than five pending wake-ups nor more bookings on a UTC day than the
  cap; every wake-up is due between a minute and a day after its booking, fires at most once and never
  before it is due.
\<close>

theorem wakeups_stay_capped:
  "wakeups_ok cap (aw_wakeups (foldl (wake_act cap) (w\<lparr>aw_wakeups := []\<rparr>) evs))"
proof -
  have "wakeups_ok cap (aw_wakeups v) \<Longrightarrow> wakeups_ok cap (aw_wakeups (foldl (wake_act cap) v evs))" for v
    by (induction evs arbitrary: v) (simp_all add: wake_act_ok)
  moreover have "wakeups_ok cap []" by (simp add: wakeups_ok_def pending_wakeups_def booked_on_def)
  ultimately show ?thesis by simp
qed

section \<open>State conditions\<close>

definition reading :: "pydict \<Rightarrow> amb_env \<Rightarrow> bool option" where
  \<comment> \<open>whether the condition holds at a tick, None when the probe or the threshold cannot be read\<close>
  "reading c env = Option.bind (Option.bind (ae_probes env (as_str (dict_get c ''probe''))) (\<lambda>probe. probe (as_dict (dict_get c ''config''))))
     (\<lambda>v. case dict_float env c ''value'' 0 of Inl e \<Rightarrow> None
        | Inr threshold \<Rightarrow> Some (condition_holds (dict_get_or c ''op'' (JStr ''>='')) v threshold))"

fun rising_edges :: "bool \<Rightarrow> bool option list \<Rightarrow> nat" where
  "rising_edges was [] = 0"
| "rising_edges was (None # rs) = rising_edges was rs"
| "rising_edges was (Some h # rs) = (if h \<and> \<not> was then 1 else 0) + rising_edges h rs"

definition watching :: "standing_intent \<Rightarrow> standing_intent" where
  "watching i = i\<lparr>si_status := ''active'', si_condition := ''state''\<rparr>"

definition state_tick :: "amb_world \<Rightarrow> amb_env \<times> instant \<Rightarrow> amb_world" where
  \<comment> \<open>a tick while the mode is on\<close>
  "state_tick w t = snd (evaluate_state_conditions ((fst t)\<lparr>ae_enabled := True\<rparr>) (snd t) w)"

definition conditions_met :: "string \<Rightarrow> amb_event list \<Rightarrow> nat" where
  "conditions_met i evs = length (filter (\<lambda>e. ev_intent e = Some i \<and> ev_kind e = ''state_condition'') evs)"

lemma emit_plain:
  assumes "ae_enabled env" "em_source rq \<in> set EVENT_SOURCES" "em_dedupe rq = None" "em_routine rq = None" "em_caused_by rq = None"
  shows "emit_in env now rq w = Inr (Some (new_event (length (aw_events w)) now rq),
           w\<lparr>aw_events := row_add (new_event (length (aw_events w)) now rq) (aw_events w)\<rparr>)"
  using assms by (simp add: emit_in_def emit_amb_event_def chain_guard_def deduped_def)

lemma state_tick_one:
  assumes w: "aw_intents w = [watching i]"
  shows "\<exists>i'. aw_intents (state_tick w (env, now)) = [watching i'] \<and> si_id i' = si_id i \<and> si_compiled i' = si_compiled i
    \<and> (case reading (si_compiled i) env of
         None \<Rightarrow> si_watermark i' = si_watermark i \<and> conditions_met (si_id i) (aw_events (state_tick w (env, now))) = conditions_met (si_id i) (aw_events w)
       | Some h \<Rightarrow> (si_watermark i' = Some ''holding'') = h
           \<and> conditions_met (si_id i) (aw_events (state_tick w (env, now)))
             = (if h \<and> si_watermark i \<noteq> Some ''holding'' then 1 else 0) + conditions_met (si_id i) (aw_events w))"
proof -
  let ?env = "env\<lparr>ae_enabled := True\<rparr>"
  have t: "state_tick w (env, now) = snd (state_one ?env now (watching i) w)"
  proof -
    obtain e n w' where "state_one ?env now (watching i) w = ((e, n), w')" by (metis prod.collapse)
    then show ?thesis by (simp add: state_tick_def evaluate_state_conditions_def w) (simp add: watching_def split: option.splits)
  qed
  have fl: "dict_float ?env c k x = dict_float env c k x" for c k x by (simp add: dict_float_def split: json.splits)
  have emit: "emit_in ?env now (state_request (si_id i) name v op th) w
      = Inr (Some (new_event (length (aw_events w)) now (state_request (si_id i) name v op th)),
          w\<lparr>aw_events := row_add (new_event (length (aw_events w)) now (state_request (si_id i) name v op th)) (aw_events w)\<rparr>)" for name v op th
    by (rule emit_plain) (simp_all add: state_request_def EVENT_SOURCES_def)
  have met: "conditions_met (si_id i) (row_add (new_event n now (state_request (si_id i) name v op th)) evs) = Suc (conditions_met (si_id i) evs)" for n name v op th evs
    by (simp add: conditions_met_def row_add_def new_event_def state_request_def)
  let ?b = "Option.bind (ae_probes env (as_str (dict_get (si_compiled i) ''probe''))) (\<lambda>probe. probe (as_dict (dict_get (si_compiled i) ''config'')))"
  consider "?b = None" | v e where "?b = Some v" "dict_float env (si_compiled i) ''value'' 0 = Inl e"
    | v th where "?b = Some v" "dict_float env (si_compiled i) ''value'' 0 = Inr th"
    by (cases "?b"; cases "dict_float env (si_compiled i) ''value'' 0") blast+
  then show ?thesis
  proof cases
    case 1
    then show ?thesis using w by (intro exI[of _ i]) (simp add: t state_one_def reading_def watching_def Let_def)
  next
    case 2
    then show ?thesis using w by (intro exI[of _ i]) (simp add: t state_one_def reading_def watching_def Let_def fl)
  next
    case 3
    obtain op where op: "op = dict_get_or (si_compiled i) ''op'' (JStr ''>='')" by blast
    obtain h where h: "h = condition_holds op v th" by blast
    have r: "reading (si_compiled i) env = Some h" using 3 by (simp add: reading_def h op)
    let ?i = "i\<lparr>si_watermark := (if h \<noteq> (si_watermark i = Some ''holding'') then Some (if h then ''holding'' else ''clear'') else si_watermark i)\<rparr>"
    show ?thesis
      using w 3 by (intro exI[of _ ?i])
        (auto simp: t state_one_def r watching_def Let_def fl emit met set_holding_def row_upd_def h[symmetric] op[symmetric])
  qed
qed


section \<open>One-off triggers\<close>

definition event_of_trigger :: "string \<Rightarrow> nat \<Rightarrow> amb_event \<Rightarrow> bool" where
  "event_of_trigger i n e \<longleftrightarrow> ev_routine e = Some i \<and> ev_kind e = ''routine_schedule''
     \<and> dict_get (ev_payload e) ''trigger_index'' = JInt (int n)"

definition one_off_pending :: "string \<Rightarrow> nat \<Rightarrow> pydict \<Rightarrow> routine \<Rightarrow> bool" where
  "one_off_pending i n d r \<longleftrightarrow> ro_id r = i \<and> ro_last_fired r \<noteq> None \<and> n < length (ro_triggers r)
     \<and> ro_triggers r ! n = JDict d \<and> dict_get d ''type'' = JStr ''once''"

definition waiting_for :: "string \<Rightarrow> nat \<Rightarrow> pydict \<Rightarrow> amb_event list \<Rightarrow> amb_world \<Rightarrow> bool" where
  "waiting_for i n d evs w \<longleftrightarrow> distinct (map ro_id (aw_routines w))
     \<and> (\<exists>r. row_get ro_id (aw_routines w) i = Some r \<and> one_off_pending i n d r)
     \<and> filter (event_of_trigger i n) (aw_events w) = evs"

lemma mark_fired_id [simp]: "ro_id (mark_fired j trig now r) = ro_id r"
  by (simp add: mark_fired_def)

lemma waiting_update:
  assumes "waiting_for i n d evs w" "\<And>r. ro_id (f r) = ro_id r"
    "\<And>r. one_off_pending i n d r \<Longrightarrow> k = i \<Longrightarrow> one_off_pending i n d (f r)"
  shows "waiting_for i n d evs (w\<lparr>aw_routines := row_upd ro_id k f (aw_routines w)\<rparr>)"
  using assms by (auto simp: waiting_for_def map_key_row_upd row_simps)

lemma once_not_due: "dict_get d ''type'' = JStr ''once'' \<Longrightarrow> last_fired \<noteq> None \<Longrightarrow> schedule_due env d last_fired st now \<noteq> Inr True"
  by (auto simp: schedule_due_def split: option.splits)

lemma schedule_events:
  assumes "emit_in env now (schedule_request r j trig now) w = Inr (ev, w')" "\<not> (ro_id r = i \<and> j = n)"
  shows "aw_routines w' = aw_routines w \<and> filter (event_of_trigger i n) (aw_events w') = filter (event_of_trigger i n) (aw_events w)"
  using assms by (auto simp: emit_in_def emit_amb_event_def schedule_request_def new_event_def event_of_trigger_def row_add_def
      dict_get_def split: if_splits option.splits sum.splits)

lemma triggers_keep_waiting:
  "waiting_for i n d evs w \<Longrightarrow> (ro_id r = i \<Longrightarrow> one_off_pending i n d r) \<Longrightarrow> ts = drop j (ro_triggers r) \<Longrightarrow>
   waiting_for i n d evs (snd (eval_triggers env now r j ts w))"
proof (induction ts arbitrary: j w)
  case (Cons trig ts)
  have ts: "ts = drop (Suc j) (ro_triggers r)" and trig: "trig = ro_triggers r ! j"
    using Cons.prems(3) by (metis drop_Suc list.sel(3) tl_drop, metis Cons_nth_drop_Suc drop_eq_Nil2 leI list.distinct(1) list.inject)
  note IH = Cons.IH[OF _ Cons.prems(2) ts]
  show ?case
  proof (cases "\<exists>td. trig = JDict td \<and> hashable (dict_get td ''type'')
      \<and> dict_get td ''type'' \<in> {JStr ''interval'', JStr ''once'', JStr ''cron''}
      \<and> schedule_due env td (ro_last_fired r) (ro_stagger r) now = Inr True")
    case False
    then show ?thesis using Cons.prems(1) IH[OF Cons.prems(1)]
      by (cases trig) (auto split: sum.splits bool.splits)
  next
    case True
    then obtain td where td: "trig = JDict td" "hashable (dict_get td ''type'')"
      "dict_get td ''type'' \<in> {JStr ''interval'', JStr ''once'', JStr ''cron''}"
      "schedule_due env td (ro_last_fired r) (ro_stagger r) now = Inr True" by blast
    have other: "\<not> (ro_id r = i \<and> j = n)"
    proof
      assume "ro_id r = i \<and> j = n"
      then have "one_off_pending i n d r" "td = d" using Cons.prems(2) trig td(1) by (auto simp: one_off_pending_def)
      then show False using once_not_due td(4) by (auto simp: one_off_pending_def)
    qed
    obtain v where v: "v = emit_in env now (schedule_request r j trig now) w" by blast
    have step: "eval_triggers env now r j (trig # ts) w = (case v of
         Inl e \<Rightarrow> if is_guard e then eval_triggers env now r (Suc j) ts w else ((Some (Inr e), 0), w)
       | Inr (None, w') \<Rightarrow> eval_triggers env now r (Suc j) ts w'
       | Inr (Some ev, w') \<Rightarrow>
           (case eval_triggers env now r (Suc j) ts
              (w'\<lparr>aw_routines := row_upd ro_id (ro_id r) (mark_fired j trig now) (aw_routines w')\<rparr>) of
            ((e, m), w'') \<Rightarrow> ((e, m + 1), w'')))"
      using td(2-4) unfolding v td(1) by simp
    have keep: "waiting_for i n d evs w'" if "v = Inr (ev, w')" for ev w'
      using schedule_events[OF that[unfolded v] other] Cons.prems(1) by (simp add: waiting_for_def)
    have upd: "waiting_for i n d evs (w'\<lparr>aw_routines := row_upd ro_id (ro_id r) (mark_fired j trig now) (aw_routines w')\<rparr>)"
      if "v = Inr (ev, w')" for ev w'
      by (rule waiting_update[OF keep[OF that]]) (use other in \<open>auto simp: mark_fired_def one_off_pending_def\<close>)
    show ?thesis
    proof (cases v)
      case (Inl e)
      then show ?thesis unfolding step using IH[OF Cons.prems(1)] Cons.prems(1) by simp
    next
      case (Inr p)
      obtain ev w' where p: "p = (ev, w')" by (cases p)
      show ?thesis
        using IH[OF keep] IH[OF upd] Inr p unfolding step
        by (cases ev) (auto simp: case_prod_beta)
    qed
  qed
qed simp

lemma failure_keeps_waiting: "waiting_for i n d evs w \<Longrightarrow> waiting_for i n d evs (record_trigger_failure env k e w)"
  unfolding record_trigger_failure_def
  by (rule waiting_update) (auto simp: one_off_pending_def Let_def)

lemma routines_keep_waiting:
  "waiting_for i n d evs w \<Longrightarrow> (\<And>r. r \<in> set rs \<Longrightarrow> ro_id r = i \<Longrightarrow> one_off_pending i n d r) \<Longrightarrow>
   waiting_for i n d evs (snd (eval_routines env now rs w))"
proof (induction rs arbitrary: w)
  case (Cons r rs)
  obtain e m w' where t: "eval_triggers env now r 0 (ro_triggers r) w = ((e, m), w')" by (metis prod.collapse)
  have w': "waiting_for i n d evs w'"
    using triggers_keep_waiting[OF Cons.prems(1), of r "ro_triggers r" 0 env now] Cons.prems(2) t by auto
  show ?case
    using Cons.IH[OF w'] Cons.IH[OF failure_keeps_waiting[OF w']] Cons.prems(2)
    by (cases e) (auto simp: t case_prod_beta)
qed simp

text \<open>
  The watermark \<open>last_fired_at\<close> belongs to the routine, not to the trigger. Once a routine has
  fired in any way -- another trigger, the webhook, an earlier one-off -- a pending \<open>once\<close> trigger of it
  never fires: after any ticks it is still pending and no event was emitted for it.
\<close>

theorem one_off_lost_after_a_fire:
  assumes "distinct (map ro_id (aw_routines w))" "row_get ro_id (aw_routines w) i = Some r"
    and "ro_last_fired r = Some t" "n < length (ro_triggers r)" "ro_triggers r ! n = JDict d" "dict_get d ''type'' = JStr ''once''"
    and w': "w' = foldl (\<lambda>w (env, now). snd (evaluate_schedules env now w)) w ticks"
  shows "(\<exists>r'. row_get ro_id (aw_routines w') i = Some r' \<and> ro_triggers r' ! n = JDict d)
    \<and> filter (event_of_trigger i n) (aw_events w') = filter (event_of_trigger i n) (aw_events w)"
proof -
  obtain evs where evs: "evs = filter (event_of_trigger i n) (aw_events w)" by blast
  have step: "waiting_for i n d evs (snd (evaluate_schedules env now v))" if v: "waiting_for i n d evs v" for env now v
    unfolding evaluate_schedules_def
  proof (rule routines_keep_waiting[OF v])
    fix s assume s: "s \<in> set (filter (\<lambda>r. ro_status r = ''active'') (aw_routines v))" "ro_id s = i"
    obtain r' where r': "row_get ro_id (aw_routines v) i = Some r'" "one_off_pending i n d r'"
      and ids: "distinct (map ro_id (aw_routines v))" using v by (auto simp: waiting_for_def)
    have "s = r'" using s row_get_Some[OF r'(1)] ids by (auto simp: distinct_map dest: inj_onD)
    with r'(2) show "one_off_pending i n d s" by simp
  qed
  have "waiting_for i n d evs v \<Longrightarrow> waiting_for i n d evs (foldl (\<lambda>w (env, now). snd (evaluate_schedules env now w)) v ticks)" for v
    by (induction ticks arbitrary: v) (auto intro: step)
  moreover have "ro_id r = i" using row_get_Some[OF assms(2)] by simp
  then have "waiting_for i n d evs w"
    using assms(1-6) by (simp add: waiting_for_def one_off_pending_def evs)
  ultimately have "waiting_for i n d evs w'" unfolding w' by blast
  then show ?thesis unfolding evs waiting_for_def one_off_pending_def by blast
qed

definition trigger_env :: amb_env where
  "trigger_env = \<lparr>ae_enabled = True, ae_iso = (\<lambda>t. Some (secs 60)), ae_cron_valid = (\<lambda>c. False), ae_cron_next = (\<lambda>c t. t),
     ae_search = (\<lambda>p t. False), ae_render = (\<lambda>v. []), ae_float = (\<lambda>t. None), ae_reason = (\<lambda>e. []),
     ae_sources = (\<lambda>n. None), ae_probes = (\<lambda>n. None), ae_wakeups_per_day = 10\<rparr>"

definition blank_world :: amb_world where
  "blank_world = \<lparr>aw_events = [], aw_routines = [], aw_intents = [], aw_wakeups = [], aw_patterns = [], aw_recent = [],
     aw_presence = [], aw_outbox = outbox_init, aw_runs = [], aw_conversations = []\<rparr>"

definition launch_trigger :: pydict where
  "launch_trigger = [(''type'', JStr ''once''), (''at'', JStr ''1970-01-01T00:01:00'')]"

definition launch_routine :: routine where
  \<comment> \<open>fired once through its webhook before the launch was put on its schedule\<close>
  "launch_routine = \<lparr>ro_id = ''r1'', ro_user = None, ro_name = ''launch'', ro_description = None, ro_prompt = ''go'', ro_static = False,
     ro_triggers = [JDict launch_trigger], ro_allowlist = None, ro_model = None, ro_memories = False, ro_conversation = None,
     ro_autonomy = ''propose'', ro_budgets = [], ro_token = None, ro_stagger = 0, ro_status = ''active'', ro_reason = None,
     ro_failures = 0, ro_last_fired = Some 0\<rparr>"

definition launch_world :: amb_world where
  "launch_world = blank_world\<lparr>aw_routines := [launch_routine]\<rparr>"

theorem one_off_lost_after_a_fire_witness:
  "ae_iso trigger_env ''1970-01-01T00:01:00'' = Some (secs 60)
   \<and> filter (event_of_trigger ''r1'' 0)
       (aw_events (foldl (\<lambda>w (env, now). snd (evaluate_schedules env now w)) launch_world
          [(trigger_env, secs 60), (trigger_env, secs 120), (trigger_env, secs 86400)])) = []"
proof -
  have h: "distinct (map ro_id (aw_routines launch_world))" "row_get ro_id (aw_routines launch_world) ''r1'' = Some launch_routine"
    "ro_last_fired launch_routine = Some 0" "0 < length (ro_triggers launch_routine)"
    "ro_triggers launch_routine ! 0 = JDict launch_trigger" "dict_get launch_trigger ''type'' = JStr ''once''"
    "aw_events launch_world = []" "ae_iso trigger_env ''1970-01-01T00:01:00'' = Some (secs 60)"
    by (simp_all add: launch_world_def blank_world_def launch_routine_def launch_trigger_def trigger_env_def row_get_def dict_get_def)
  show ?thesis
    using one_off_lost_after_a_fire[OF h(1-6) refl, of "[(trigger_env, secs 60), (trigger_env, secs 120), (trigger_env, secs 86400)]"] h(7,8)
    by simp
qed

section \<open>Dedupe keys\<close>

text \<open>
  The dedupe keys of schedules, wake-ups and webhook calls share one name space, and a webhook caller
  chooses its key: a fire of one routine under the key of another routine's next schedule slot makes
  that schedule emit nothing and leaves its watermark where it was.
\<close>

lemma webhook_key_suppresses_schedule:
  assumes "emit_in env now rq w = Inr (Some ev, w')" "em_dedupe rq = em_dedupe (schedule_request r i trig later)" "ae_enabled env'"
  shows "emit_in env' later (schedule_request r i trig later) w' = Inr (None, w')"
proof -
  have "em_dedupe rq \<noteq> None" "em_dedupe rq \<noteq> Some []" using assms(2) by (simp_all add: schedule_request_def)
  have "ev_dedupe ev = em_dedupe rq" "ev \<in> set (aw_events w')"
    using assms(1) by (auto simp: emit_in_def emit_amb_event_def new_event_def split: if_splits option.splits sum.splits)
  with assms(2) have "deduped (aw_events w') (schedule_request r i trig later)"
    by (auto simp: deduped_def list_ex_iff schedule_request_def)
  then show ?thesis
    using assms(3) by (simp add: emit_in_def emit_amb_event_def chain_guard_def schedule_request_def EVENT_SOURCES_def)
qed

section \<open>Absence rules\<close>

definition reports_absence :: "amb_env \<Rightarrow> standing_intent \<Rightarrow> amb_world \<Rightarrow> bool" where
  \<comment> \<open>an absence rule with nothing that would hold its report back\<close>
  "reports_absence env i w \<longleftrightarrow> ae_enabled env \<and> aw_intents w = [i] \<and> aw_recent w = []
     \<and> dict_get (pattern_of i) ''kind'' = JStr ''absence'' \<and> has_key (pattern_of i) ''cooldown_s'' = False
     \<and> list_all (\<lambda>e. ev_depth e = 0) (aw_events w)"

text \<open>
  An absence rule looks at its deadline only when the tick sweeps it. When the awaited event
  arrives after the deadline and before the next sweep, the absence is never reported: the sweep
  alone would have emitted one event, but once the late event has passed no later sweep emits any.
\<close>

theorem late_event_silences_absence:
  assumes p: "aw_patterns w = [p]" "armed_for (rule_key (si_id i)) (partition_of env e (pattern_of i)) p" "pi_deadline p \<le> now"
    and r: "reports_absence env i w"
    and w': "w' = snd (advance_rule env now e i a_match True window w)"
  shows "fst (expire_pattern_deadlines env now w) = (None, 1)
    \<and> aw_events w' = aw_events w \<and> expire_pattern_deadlines env later w' = ((None, 0), w')"
proof -
  have overdue: "pattern_overdue now p" "pi_rule p = rule_key (si_id i)" using p by (simp_all add: pattern_overdue_def armed_for_def)
  have key: "starts_with (rule_key x) ''intent:''" "drop 7 (rule_key x) = x" for x by (simp_all add: rule_key_def starts_with_def)
  have cool: "cooled_down rule part (pattern_of i) now (w\<lparr>aw_patterns := ps\<rparr>) = Inr True" for rule part ps
    using r by (simp add: cooled_down_def reports_absence_def dict_int_def dict_get_or_def has_key_def split: option.splits)
  have emit: "\<exists>ev v. emit_in env now (pattern_request ''pattern_absence'' (si_id i) rule part cause) (w\<lparr>aw_patterns := ps\<rparr>) = Inr (Some ev, v)"
    if "\<And>c. cause = Some c \<Longrightarrow> ev_depth c = 0" for rule part cause ps
    using that r by (auto simp: emit_in_def emit_amb_event_def pattern_request_def chain_guard_def deduped_def reports_absence_def
        EVENT_SOURCES_def MAX_DEPTH_def split: option.splits)
  have roots: "ev_depth c = 0" if "row_get ev_id (aw_events w) (pi_a_event p) = Some c" for c
    using r row_get_Some[OF that] by (simp add: reports_absence_def list_all_iff)
  obtain ev v where ev: "emit_in env now (pattern_request ''pattern_absence'' (si_id i) (pi_rule p) (pi_partition p)
      (row_get ev_id (aw_events w) (pi_a_event p))) (w\<lparr>aw_patterns := [p\<lparr>pi_state := ''expired''\<rparr>]\<rparr>) = Inr (Some ev, v)"
    using emit[OF roots] by blast
  have "fst (expire_pattern_deadlines env now w) = (None, 1)"
    using r ev by (simp add: expire_pattern_deadlines_def p(1) overdue expire_one_def key cool emit_pattern_def
        reports_absence_def row_get_def[of si_id])
  moreover have e: "w' = disarm (rule_key (si_id i)) (partition_of env e (pattern_of i)) ''expired'' w"
    using r p by (simp add: w' advance_rule_def Let_def reports_absence_def)
  moreover have "aw_patterns w' = [p\<lparr>pi_state := ''expired''\<rparr>]" using p by (simp add: e disarm_def)
  then have "expire_pattern_deadlines env later w' = ((None, 0), w')"
    by (simp add: expire_pattern_deadlines_def pattern_overdue_def)
  ultimately show ?thesis by (simp add: disarm_def)
qed

definition report_due :: standing_intent where
  "report_due = \<lparr>si_id = ''w1'', si_user = None, si_text = ''tell me when a deploy never reports back'', si_condition = ''event'',
     si_compiled = [(''pattern'', JDict [(''kind'', JStr ''absence''), (''window_s'', JInt 60)])],
     si_predicate = [], si_watermark = None, si_base = 300, si_current = 300, si_max = 3600, si_backoff = 3 / 2, si_quiet = 0,
     si_checked = None, si_expires = None, si_budget = [], si_delivery = ''auto'', si_status = ''active''\<rparr>"

definition late_report :: amb_event where
  "late_report = new_event 1 (secs 90) \<lparr>em_kind = ''report'', em_source = ''webhook'', em_payload = [], em_dedupe = None,
     em_routine = None, em_intent = None, em_caused_by = None\<rparr>"

definition armed_world :: amb_world where
  "armed_world = blank_world\<lparr>aw_intents := [report_due],
     aw_patterns := [\<lparr>pi_rule = ''intent:w1'', pi_partition = [], pi_state = ''armed'', pi_a_event = 0, pi_deadline = secs 60\<rparr>]\<rparr>"

theorem late_event_silences_absence_witness:
  "fst (expire_pattern_deadlines trigger_env (secs 90) armed_world) = (None, 1)
   \<and> fst (expire_pattern_deadlines trigger_env (secs 120)
        (snd (advance_rule trigger_env (secs 90) late_report report_due False True 60 armed_world))) = (None, 0)"
proof -
  let ?p = "\<lparr>pi_rule = ''intent:w1'', pi_partition = [], pi_state = ''armed'', pi_a_event = 0, pi_deadline = secs 60\<rparr>"
  have h: "aw_patterns armed_world = [?p]"
    "armed_for (rule_key (si_id report_due)) (partition_of trigger_env late_report (pattern_of report_due)) ?p"
    "pi_deadline ?p \<le> secs 90" "reports_absence trigger_env report_due armed_world"
    by (simp_all add: armed_world_def blank_world_def armed_for_def rule_key_def report_due_def partition_of_def pattern_of_def
        dict_get_def secs_def reports_absence_def trigger_env_def has_key_def)
  show ?thesis
    using late_event_silences_absence[OF h refl, of False 60 "secs 120"] by simp
qed

text \<open>A rule never has two armed instances for one partition, the index of the table included.\<close>

definition one_armed :: "pattern_instance list \<Rightarrow> bool" where
  "one_armed ps \<longleftrightarrow> distinct (map (\<lambda>p. (pi_rule p, pi_partition p)) (filter (\<lambda>p. pi_state p = ''armed'') ps))"

lemma one_armed_map:
  assumes "one_armed ps" "\<And>p. pi_rule (f p) = pi_rule p \<and> pi_partition (f p) = pi_partition p"
    "\<And>p. pi_state (f p) = ''armed'' \<Longrightarrow> pi_state p = ''armed''"
  shows "one_armed (map f ps)"
  using assms(1) unfolding one_armed_def
proof (induction ps)
  case (Cons p ps)
  have "set (map (\<lambda>p. (pi_rule p, pi_partition p)) (filter (\<lambda>p. pi_state p = ''armed'') (map f ps)))
      \<subseteq> set (map (\<lambda>p. (pi_rule p, pi_partition p)) (filter (\<lambda>p. pi_state p = ''armed'') ps))"
    using assms(2,3) by (fastforce simp: image_iff)
  with Cons assms(2,3) show ?case by (auto split: if_splits)
qed simp

lemma one_armed_arm:
  assumes "one_armed (aw_patterns w)" "find (armed_for rule part) (aw_patterns w) = None"
  shows "one_armed (aw_patterns (arm rule part e d w))"
  using assms by (fastforce simp: one_armed_def arm_def row_add_def find_None_iff armed_for_def)

lemma one_armed_disarm:
  assumes "one_armed (aw_patterns w)" "st \<noteq> ''armed''"
  shows "one_armed (aw_patterns (disarm rule part st w))"
proof -
  have "one_armed (map (\<lambda>p. if armed_for rule part p then p\<lparr>pi_state := st\<rparr> else p) (aw_patterns w))"
    by (rule one_armed_map[OF assms(1)]) (use assms(2) in \<open>simp_all split: if_splits\<close>)
  then show ?thesis by (simp add: disarm_def)
qed

lemma emit_pattern_rows [simp]: "aw_patterns (snd (emit_pattern env now kind i rule part cause w)) = aw_patterns w"
proof (cases "emit_in env now (pattern_request kind i rule part cause) w")
  case (Inr p)
  obtain ev w' where p: "p = (ev, w')" by (cases p)
  show ?thesis using emit_in_keeps(4)[of env now _ w ev w'] Inr p by (cases ev) (auto simp: emit_pattern_def)
qed (simp add: emit_pattern_def)

lemma complete_one_armed:
  "one_armed (aw_patterns w) \<Longrightarrow> one_armed (aw_patterns (snd (complete_pattern env now i e part w)))"
  using one_armed_disarm[of w "''matched''" "rule_key (si_id i)" part]
  by (cases "cooled_down (rule_key (si_id i)) part (pattern_of i) now w") (auto simp: complete_pattern_def Let_def split: bool.split)

lemma advance_one_armed:
  assumes "one_armed (aw_patterns w)"
  shows "one_armed (aw_patterns (snd (advance_rule env now e i a b n w)))"
proof (cases "find (armed_for (rule_key (si_id i)) (partition_of env e (pattern_of i))) (aw_patterns w)")
  case None
  note arm = one_armed_arm[OF assms None]
  show ?thesis unfolding advance_rule_def Let_def None using assms arm by simp
next
  case (Some p)
  note finish = complete_one_armed[OF assms, of env now i e "partition_of env e (pattern_of i)"]
  note expire = one_armed_disarm[OF assms, of "''expired''" "rule_key (si_id i)" "partition_of env e (pattern_of i)"]
  have conj: "one_armed (aw_patterns (snd (case c of Inl x \<Rightarrow> ((Some (Inl x), 0), w)
      | Inr True \<Rightarrow> complete_pattern env now i e (partition_of env e (pattern_of i)) w | Inr False \<Rightarrow> ((None, 0), w))))" for c
    using assms finish by (cases c) (auto split: bool.split)
  show ?thesis unfolding advance_rule_def Let_def Some by (simp add: assms finish expire conj)
qed

end
