(* ===== verification/Ambient_Execute_Laws.thy ===== *)
theory Ambient_Execute_Laws
  imports Ambient_Execute Ambient_Trigger_Laws
begin

text \<open>
  What the decision and execution planes guarantee: the supervisor of a run that is not paused for
  ever returns; an event fires only through every gate; bookkeeping done twice delivers once; an
  active routine always has failures to spare, so that the third failure in a row stops it. And one
  thing they do not: the daily cap does not bind the events of one batch.
\<close>

section \<open>The supervisor returns\<close>

definition paused_poll :: "poll \<Rightarrow> bool" where
  "paused_poll p \<longleftrightarrow> (case po_row p of None \<Rightarrow> False | Some (s, _, _) \<Rightarrow> s = PausedHitl)"

lemma late_poll_ends:
  assumes "\<not> paused_poll p" "\<And>wall. dict_float env budgets ''wall_clock_s'' 900 = Inr wall \<Longrightarrow> of_int (secs 1) * wall < of_int (po_elapsed p)"
  shows "\<exists>reply. sup_poll env budgets st p = Inl reply"
  using assms
  by (cases "dict_float env budgets ''wall_clock_s'' 900")
     (auto simp: sup_poll_def paused_poll_def breach_of_def Let_def split: option.splits)

lemma supervise_stops:
  assumes "\<And>st. \<exists>reply. sup_poll env budgets st (polls (n + k)) = Inl reply"
  shows "\<exists>reply. supervise env budgets polls n st = Some reply"
  using assms
proof (induction k arbitrary: n st)
  case 0
  then obtain reply where "sup_poll env budgets st (polls n) = Inl reply" by fastforce
  then show ?case by (subst supervise.simps) simp
next
  case (Suc k)
  show ?case
  proof (cases "sup_poll env budgets st (polls n)")
    case (Inl reply)
    then show ?thesis by (subst supervise.simps) simp
  next
    case (Inr st1)
    then show ?thesis
      using Suc.IH[of "Suc n" st1] Suc.prems by (subst supervise.simps) simp
  qed
qed


definition busy_poll :: "nat \<Rightarrow> poll" where
  \<comment> \<open>a run that pauses at every other poll and never ends by itself\<close>
  "busy_poll n = \<lparr>po_elapsed = int n * secs 15, po_row = Some (if even n then PausedHitl else Running, 0, 1)\<rparr>"

text \<open>A run that a human never answers is polled for ever.\<close>

lemma paused_polled_on: "paused_poll p \<Longrightarrow> sup_poll env budgets st p = Inr st"
  by (auto simp: sup_poll_def paused_poll_def terminal_def split: option.splits)

text \<open>The wall clock runs while a run waits: the first poll after a long answer cancels it.\<close>

lemma human_pause_counts:
  "900 < h \<Longrightarrow> sup_poll env [] sup_start \<lparr>po_elapsed = secs h, po_row = Some (Running, tokens, steps)\<rparr>
     = Inl (SupCancelled (''wall_clock_s ('' @ int_str h @ ''s elapsed)''))"
  by (simp add: sup_poll_def terminal_def breach_of_def dict_float_def dict_get_or_def secs_def)


section \<open>Bookkeeping twice\<close>

lemma add_delivery_fresh:
  "dq_run rq = Some rid \<Longrightarrow> has_delivery (insert (dq_category rq) cs) rid (deliver env now rq w)"
  by (auto simp: has_delivery_def deliver_def add_delivery_def row_add_def Let_def list_ex_iff split: prod.splits option.splits)

lemma deliver_rest [simp]:
  "aw_runs (deliver env now rq w) = aw_runs w" "aw_events (deliver env now rq w) = aw_events w"
  "aw_intents (deliver env now rq w) = aw_intents w" "aw_wakeups (deliver env now rq w) = aw_wakeups w"
  "aw_routines (deliver env now rq w) = aw_routines w"
  by (simp_all add: deliver_def)

lemma answer_category: "dq_category (answer_request env now x u r i) \<in> {''routine'', ''watch'', ''abstained''}"
  "dq_run (answer_request env now x u r i) = Some (ar_id x)"
  by (auto simp: answer_request_def answer_tier_def Let_def split: option.splits prod.splits)

lemma has_delivery_cong: "aw_outbox v = aw_outbox w \<Longrightarrow> has_delivery cs rid v = has_delivery cs rid w"
  by (simp add: has_delivery_def)

lemma completed_once: "has_delivery {''routine'', ''watch'', ''abstained''} (ar_id x) (finish_completed env now x u r i w)"
proof -
  have "has_delivery {''routine'', ''watch'', ''abstained''} (ar_id x) (deliver env now (answer_request env now x u r i) v)" for v
    using add_delivery_fresh[OF answer_category(2), where cs = "{''routine'', ''watch'', ''abstained''}"]
    by (metis insert_absorb answer_category(1))
  then show ?thesis
    by (auto simp: finish_completed_def Let_def split: option.splits intro: iffD1[OF has_delivery_cong, rotated])
qed

lemma failed_once: "has_delivery {''failure''} (ar_id x) (finish_failed env now x r i w)"
proof -
  have "has_delivery {''failure''} (ar_id x) (deliver env now (failure_request now x p r i) v)" for v p
    using add_delivery_fresh[where rq = "failure_request now x p r i" and cs = "{}" and rid = "ar_id x" and env = env and now = now and w = v]
    by (simp add: failure_request_def)
  then show ?thesis
    by (auto simp: finish_failed_def Let_def split: option.splits intro: iffD1[OF has_delivery_cong, rotated])
qed

lemma finish_rest [simp]:
  "aw_runs (finish_completed env now x u r i w) = aw_runs w" "aw_events (finish_completed env now x u r i w) = aw_events w"
  "aw_intents (finish_completed env now x u r i w) = aw_intents w" "aw_wakeups (finish_completed env now x u r i w) = aw_wakeups w"
  "aw_runs (finish_failed env now x r i w) = aw_runs w" "aw_events (finish_failed env now x r i w) = aw_events w"
  "aw_intents (finish_failed env now x r i w) = aw_intents w"
  by (simp_all add: finish_completed_def finish_failed_def Let_def split: option.splits)

lemma finish_completed_done:
  "has_delivery {''routine'', ''watch'', ''abstained''} (ar_id x) w \<Longrightarrow> aw_outbox (finish_completed env now x u r i w) = aw_outbox w"
  by (simp add: finish_completed_def Let_def split: option.splits)

lemma finish_failed_done: "has_delivery {''failure''} (ar_id x) w \<Longrightarrow> aw_outbox (finish_failed env now x r i w) = aw_outbox w"
  by (simp add: finish_failed_def Let_def split: option.splits)

definition self_wakes :: "string \<Rightarrow> wakeup list \<Rightarrow> nat" where
  "self_wakes rid ws = length (filter (\<lambda>k. wk_run k = Some rid) ws)"

lemma book_self_wake_once: "self_wakes (ar_id x) (book_self_wake env now x rid ws) \<le> max 1 (self_wakes (ar_id x) ws)"
  by (auto simp: book_self_wake_def self_wakes_def schedule_wakeup_def self_wake_def row_add_def Let_def list_ex_iff
      filter_empty_conv split: sum.splits option.splits if_splits)

lemma finish_failed_wakes: "self_wakes (ar_id x) (aw_wakeups (finish_failed env now x r i w)) \<le> max 1 (self_wakes (ar_id x) (aw_wakeups w))"
  using book_self_wake_once by (auto simp: finish_failed_def Let_def split: option.splits)

text \<open>
  The bookkeeping of an ended run is done once however often it is repeated: a second call leaves
  the outbox as the first left it, and no run has more than one self-wake from it.
\<close>

theorem bookkeeping_delivers_once:
  "aw_outbox (snd (finish_ambient_run (env\<lparr>xe_threshold := n\<rparr>) t2 rid eid (snd (finish_ambient_run env t1 rid eid w))))
     = aw_outbox (snd (finish_ambient_run env t1 rid eid w))
   \<and> self_wakes rid (aw_wakeups (snd (finish_ambient_run env t1 rid eid w))) \<le> max 1 (self_wakes rid (aw_wakeups w))"
proof (cases "\<exists>x e i u. row_get ar_id (aw_runs w) rid = Some x \<and> row_get ev_id (aw_events w) eid = Some e
                \<and> finish_intent (xe_decide env) e w = Inr i \<and> dict_int (ev_decision e) ''urgency'' 2 = Inr u")
  case False
  have "snd (finish_ambient_run v t rid eid w) = w" if "xe_decide v = xe_decide env" for v t
    using False that by (auto simp: finish_ambient_run_def split: option.splits sum.splits)
  then show ?thesis by simp
next
  case True
  then obtain x e i u where x: "row_get ar_id (aw_runs w) rid = Some x" "row_get ev_id (aw_events w) eid = Some e"
      "finish_intent (xe_decide env) e w = Inr i" "dict_int (ev_decision e) ''urgency'' 2 = Inr u" by blast
  have rid: "ar_id x = rid" using row_get_Some[OF x(1)] by simp
  obtain r where r: "r = Option.bind (ev_routine e) (row_get ro_id (aw_routines w))" by blast
  have once: "snd (finish_ambient_run env t1 rid eid w) =
      (if ar_status x = Completed then finish_completed env t1 x u r i w
       else if ar_status x \<in> {Failed, Stalled, Cancelled} then finish_failed env t1 x r i w else w)"
    using x r by (simp add: finish_ambient_run_def Let_def)
  have again: "\<exists>r'. snd (finish_ambient_run (env\<lparr>xe_threshold := n\<rparr>) t2 rid eid v) =
      (if ar_status x = Completed then finish_completed (env\<lparr>xe_threshold := n\<rparr>) t2 x u r' i v
       else if ar_status x \<in> {Failed, Stalled, Cancelled} then finish_failed (env\<lparr>xe_threshold := n\<rparr>) t2 x r' i v else v)"
    if "aw_runs v = aw_runs w" "aw_events v = aw_events w" "aw_intents v = aw_intents w" for v
  proof -
    have "finish_intent (xe_decide env) e v = Inr i"
      unfolding finish_intent_def that(3) by (fold finish_intent_def, rule x(3))
    then show ?thesis using x that by (auto simp: finish_ambient_run_def Let_def)
  qed
  consider (c) "ar_status x = Completed" | (f) "ar_status x \<in> {Failed, Stalled, Cancelled}"
    | (z) "ar_status x \<noteq> Completed" "ar_status x \<notin> {Failed, Stalled, Cancelled}" by blast
  then show ?thesis
  proof cases
    case c
    then show ?thesis
      using again[of "finish_completed env t1 x u r i w"] once finish_completed_done[OF completed_once] by auto
  next
    case f
    then have n: "ar_status x \<noteq> Completed" by auto
    obtain r' where r': "snd (finish_ambient_run (env\<lparr>xe_threshold := n\<rparr>) t2 rid eid (finish_failed env t1 x r i w)) =
        finish_failed (env\<lparr>xe_threshold := n\<rparr>) t2 x r' i (finish_failed env t1 x r i w)"
      using again[of "finish_failed env t1 x r i w"] f n by auto
    show ?thesis
      using once f n r' finish_failed_done[OF failed_once] finish_failed_wakes[of x env t1 r i w] rid by simp
  next
    case z
    then show ?thesis using again[of w] once by auto
  qed
qed

section \<open>What a fire has passed\<close>

lemma bind_Inl: "bind_r m f = Inl e \<longleftrightarrow> m = Inl e \<or> (\<exists>x. m = Inr x \<and> f x = Inl e)"
  by (cases m) auto

lemma cap_verdict_fired:
  "cap_verdict cap now runs d reason extra = (''fired'', q, d') \<Longrightarrow> \<not> runs_today_cap_reached cap now runs \<and> d' = dict_merge d extra"
  by (auto simp: cap_verdict_def split: if_splits)

definition routine_admits :: "decide_env \<Rightarrow> amb_event \<Rightarrow> routine \<Rightarrow> bool" where
  "routine_admits env e r \<longleftrightarrow> ro_status r = ''active''
     \<and> (\<exists>trig fs. or_dict (dict_get (ev_payload e) ''trigger'') = Inr trig \<and> or_list (dict_get trig ''filters'') = Inr fs
        \<and> match_filters (de_amb env) (as_dict (dict_get (ev_payload e) ''payload'')) fs = Inr True)"

definition intent_admits :: "decide_env \<Rightarrow> amb_event \<Rightarrow> standing_intent \<Rightarrow> bool" where
  "intent_admits env e i \<longleftrightarrow> si_status i = ''active''
     \<and> (\<exists>data fs. data \<in> {poll_data e, event_data e} \<and> or_list (dict_get (si_compiled i) ''filters'') = Inr fs
        \<and> match_filters (de_amb env) data fs = Inr True)
     \<and> (si_predicate i = [] \<or> (\<exists>j floor. de_judge env i e = Inr j \<and> sg_significant j
          \<and> dict_int (si_budget i) ''min_urgency'' 0 = Inr floor \<and> floor \<le> sg_urgency j))"

lemma decide_routine_fired:
  assumes "decide_routine env now e rid w = Inr (''fired'', q, d)"
  shows "\<not> runs_today_cap_reached (de_runs_per_day env) now (aw_runs w) \<and> dict_get d ''fired_for'' = JStr ''routine''
    \<and> (\<exists>r. row_get ro_id (aw_routines w) rid = Some r \<and> routine_admits env e r)"
proof -
  obtain r where r: "row_get ro_id (aw_routines w) rid = Some r" "ro_status r = ''active''"
    using assms by (auto simp: decide_routine_def split: option.splits if_splits)
  show ?thesis
    using assms r
    by (auto simp: decide_routine_def Let_def bind_r_Inr routine_admits_def base_decision_def dict_merge_def dict_get_def
        dest!: cap_verdict_fired split: if_splits)
qed

lemma intent_fire_fired:
  assumes "intent_fire env now i e base_decision runs = Inr (''fired'', q, d)"
  shows "\<not> runs_today_cap_reached (de_runs_per_day env) now runs \<and> dict_get d ''fired_for'' = JStr ''intent''
    \<and> dict_get d ''intent_id'' = JStr (si_id i)
    \<and> (si_predicate i = [] \<or> (\<exists>j floor. de_judge env i e = Inr j \<and> sg_significant j
          \<and> dict_int (si_budget i) ''min_urgency'' 0 = Inr floor \<and> floor \<le> sg_urgency j))"
  using assms
  by (auto simp: intent_fire_def Let_def bind_r_Inr base_decision_def dict_merge_def dict_get_def
      dest!: cap_verdict_fired split: if_splits sum.splits)

definition fired_for_intent :: "decide_env \<Rightarrow> instant \<Rightarrow> amb_event \<Rightarrow> pydict \<Rightarrow> amb_world \<Rightarrow> bool" where
  "fired_for_intent env now e d w \<longleftrightarrow> \<not> runs_today_cap_reached (de_runs_per_day env) now (aw_runs w)
     \<and> dict_get d ''fired_for'' = JStr ''intent''
     \<and> list_ex (\<lambda>i. dict_get d ''intent_id'' = JStr (si_id i) \<and> intent_admits env e i) (aw_intents w)"

lemma no_filters_match: "match_filters env data fs = Inr ok \<Longrightarrow> fs = [] \<or> ok \<Longrightarrow> match_filters env data fs = Inr True"
  by auto

lemma decide_intent_fired:
  assumes "decide_intent env now e iid w = Inr (''fired'', q, d)"
  shows "fired_for_intent env now e d w"
proof -
  obtain i where i: "row_get si_id (aw_intents w) iid = Some i" "si_status i = ''active''"
    using assms by (auto simp: decide_intent_def split: option.splits if_splits)
  obtain fs ok where fs: "or_list (dict_get (si_compiled i) ''filters'') = Inr fs" "match_filters (de_amb env) (poll_data e) fs = Inr ok"
      "fs = [] \<or> ok" "intent_fire env now i e base_decision (aw_runs w) = Inr (''fired'', q, d)"
    using assms i by (auto simp: decide_intent_def bind_r_Inr split: if_splits)
  have "intent_admits env e i"
    unfolding intent_admits_def using i(2) fs intent_fire_fired[OF fs(4)] no_filters_match[OF fs(2,3)] by blast
  then show ?thesis
    using intent_fire_fired[OF fs(4)] row_get_Some[OF i(1)] by (auto simp: fired_for_intent_def list_ex_iff)
qed

lemma match_event_intents_fired:
  assumes "match_event_intents env now e is runs = Inr (Some (''fired'', q, d))"
    and "\<And>i. i \<in> set is \<Longrightarrow> i \<in> set (aw_intents w) \<and> si_status i = ''active''" "runs = aw_runs w"
  shows "fired_for_intent env now e d w"
  using assms
proof (induction "is")
  case (Cons i "is")
  show ?case
  proof (cases "match_event_intents env now e is runs = Inr (Some (''fired'', q, d))")
    case True
    then show ?thesis using Cons by simp
  next
    case False
    then obtain fs d0 where fs: "or_list (dict_get (si_compiled i) ''filters'') = Inr fs"
        "match_filters (de_amb env) (event_data e) fs = Inr True"
        "intent_fire env now i e base_decision runs = Inr (''fired'', q, d0)"
        "d = dict_set d0 ''matched_watch'' (JStr (take 120 (si_text i)))"
      using Cons.prems(1) by (auto simp: bind_r_Inr split: if_splits)
    have "dict_get d k = dict_get d0 k" if "k \<noteq> ''matched_watch''" for k using that by (simp add: fs(4) dict_get_def)
    then have same: "dict_get d ''fired_for'' = dict_get d0 ''fired_for''" "dict_get d ''intent_id'' = dict_get d0 ''intent_id''" by auto
    have i: "i \<in> set (aw_intents w)" "si_status i = ''active''" using Cons.prems(2) by auto
    have "intent_admits env e i"
      unfolding intent_admits_def using i(2) fs(1,2) intent_fire_fired[OF fs(3)] by blast
    then show ?thesis
      using intent_fire_fired[OF fs(3)] i(1) Cons.prems(3) by (auto simp: fired_for_intent_def list_ex_iff same)
  qed
qed simp


definition gate_env :: decide_env where
  "gate_env = \<lparr>de_amb = trigger_env, de_runs_per_day = 5,
     de_judge = (\<lambda>i e. Inr \<lparr>sg_significant = True, sg_urgency = 4, sg_reason = ''a price fell''\<rparr>), de_error = (\<lambda>x. []), de_hitl_hours = 24,
     de_uuid = (\<lambda>s. True), de_owners = \<lparr>ow_run = (\<lambda>r. None), ow_intent = (\<lambda>i. None), ow_current = None\<rparr>\<rparr>"

definition price_watch :: standing_intent where
  "price_watch = \<lparr>si_id = ''w1'', si_user = None, si_text = ''tell me when it gets cheap'', si_condition = ''event'', si_compiled = [],
     si_predicate = ''cheap'', si_watermark = None, si_base = 60, si_current = 60, si_max = 3600, si_backoff = 2, si_quiet = 0,
     si_checked = None, si_expires = None, si_budget = [(''min_urgency'', JInt 3)], si_delivery = ''auto'', si_status = ''active''\<rparr>"

definition price_event :: amb_event where
  "price_event = new_event 0 0 \<lparr>em_kind = ''intent_poll_item'', em_source = ''poll'', em_payload = [], em_dedupe = None,
     em_routine = None, em_intent = Some ''w1'', em_caused_by = None\<rparr>"


section \<open>One batch\<close>

definition manual_event :: "string \<Rightarrow> nat \<Rightarrow> amb_event" where
  "manual_event rid n = new_event n 0 \<lparr>em_kind = ''routine_fire'', em_source = ''manual'', em_payload = [], em_dedupe = None,
     em_routine = Some rid, em_intent = None, em_caused_by = None\<rparr>"

definition calm_world :: "routine \<Rightarrow> amb_world \<Rightarrow> amb_world" where
  \<comment> \<open>one active routine, no watches and no runs\<close>
  "calm_world r v = v\<lparr>aw_intents := [], aw_runs := [], aw_routines := [r\<lparr>ro_status := ''active''\<rparr>]\<rparr>"

text \<open>
  The daily cap of ambient runs counts the runs there are, and the runs of a batch start after
  the batch was decided: with no run today and a cap of one or more, every one of any number of manual
  fires of a routine that one drain claims is fired.
\<close>

theorem batch_outruns_daily_cap:
  "map fires (fst (process_batch (env\<lparr>de_runs_per_day := Suc cap\<rparr>) now (map (manual_event (ro_id r)) [0..<k]) (calm_world r v)))
     = replicate k True"
proof -
  obtain w where w: "w = calm_world r v" by blast
  have one: "default_processor (env\<lparr>de_runs_per_day := Suc cap\<rparr>) now (manual_event (ro_id r) n) w
      = (Decided ''fired'' ''routine trigger matched'' (dict_merge base_decision [(''fired_for'', JStr ''routine'')]), w)" for n
    by (simp add: default_processor_def advance_patterns_def w calm_world_def process_event_def decide_def manual_event_def new_event_def
        FIRE_SOURCES_def decide_routine_def row_get_def or_dict_def or_list_def dict_get_def Let_def cap_verdict_def
        runs_today_cap_reached_def)
  have f: "fires (Decided ''fired'' ''routine trigger matched'' (dict_merge base_decision [(''fired_for'', JStr ''routine'')]))"
    by (simp add: fires_def base_decision_def dict_merge_def dict_get_def)
  have "map fires (fst (process_batch (env\<lparr>de_runs_per_day := Suc cap\<rparr>) now (map (manual_event (ro_id r)) ns) w))
      = replicate (length ns) True" for ns
    by (induction ns) (use one f in \<open>auto simp: case_prod_beta\<close>)
  then show ?thesis by (simp add: w)
qed

section \<open>Three failures\<close>

definition armed :: "routine \<Rightarrow> bool" where
  "armed r \<longleftrightarrow> (ro_status r = ''active'' \<longrightarrow> ro_failures r < 3)"

lemma armed_upd: "list_all armed rs \<Longrightarrow> (\<And>r. armed r \<Longrightarrow> armed (f r)) \<Longrightarrow> list_all armed (row_upd ro_id i f rs)"
  by (auto simp: list_all_iff row_upd_def)

lemma armed_mark: "armed r \<Longrightarrow> armed (mark_fired j trig now r)"
  by (simp add: armed_def mark_fired_def)

lemma armed_count: "armed r \<Longrightarrow> armed (count_failure x r)"
  by (auto simp: armed_def count_failure_def AUTO_PAUSE_AFTER_def Let_def)

lemma armed_patch: "armed r \<Longrightarrow> rp_status p \<in> {None, Some ''active'', Some ''paused''} \<Longrightarrow> armed (apply_patch p r)"
  by (auto simp: armed_def apply_patch_def set_if_def Let_def)

lemma emit_in_routines [simp]: "emit_in env now rq w = Inr (ev, w') \<Longrightarrow> aw_routines w' = aw_routines w"
  by (auto simp: emit_in_def split: sum.splits)

lemma triggers_inv:
  assumes emit: "\<And>rq ev w w'. P w \<Longrightarrow> emit_in env now rq w = Inr (ev, w') \<Longrightarrow> P w'"
    and mark: "\<And>j trig w. P w \<Longrightarrow> P (w\<lparr>aw_routines := row_upd ro_id (ro_id r) (mark_fired j trig now) (aw_routines w)\<rparr>)"
  shows "P w \<Longrightarrow> P (snd (eval_triggers env now r j ts w))"
proof (induction ts arbitrary: j w)
  case (Cons trig ts)
  obtain v where v: "v = emit_in env now (schedule_request r j trig now) w" by blast
  obtain fired where fired: "fired = (case v of
         Inl e \<Rightarrow> if is_guard e then eval_triggers env now r (Suc j) ts w else ((Some (Inr e), 0), w)
       | Inr (None, w') \<Rightarrow> eval_triggers env now r (Suc j) ts w'
       | Inr (Some ev, w') \<Rightarrow>
           (case eval_triggers env now r (Suc j) ts
              (w'\<lparr>aw_routines := row_upd ro_id (ro_id r) (mark_fired j trig now) (aw_routines w')\<rparr>) of
            ((e, m), w'') \<Rightarrow> ((e, m + 1), w'')))" by blast
  have step: "eval_triggers env now r j (trig # ts) w = fired \<or> eval_triggers env now r j (trig # ts) w = eval_triggers env now r (Suc j) ts w
      \<or> (\<exists>e. eval_triggers env now r j (trig # ts) w = ((Some (Inl e), 0), w))"
    unfolding fired v by (cases trig) (auto split: sum.splits bool.splits)
  have "P (snd fired)"
  proof (cases v)
    case (Inl e)
    then show ?thesis unfolding fired using Cons by simp
  next
    case (Inr p)
    obtain ev w' where p: "p = (ev, w')" by (cases p)
    have w': "P w'" using emit[OF Cons.prems] Inr p v by metis
    show ?thesis
      unfolding fired using Inr p Cons.IH[OF w'] Cons.IH[OF mark[OF w']] by (cases ev) (auto simp: case_prod_beta)
  qed
  then show ?case using step Cons by (elim disjE exE) auto
qed simp

lemma triggers_armed: "list_all armed (aw_routines w) \<Longrightarrow> list_all armed (aw_routines (snd (eval_triggers env now r j ts w)))"
  by (rule triggers_inv) (auto intro: armed_upd armed_mark)

lemma failure_armed: "list_all armed (aw_routines w) \<Longrightarrow> list_all armed (aw_routines (record_trigger_failure env i e w))"
  by (auto simp: record_trigger_failure_def Let_def QUARANTINE_AFTER_def armed_def intro!: armed_upd)

lemma routines_armed: "list_all armed (aw_routines w) \<Longrightarrow> list_all armed (aw_routines (snd (eval_routines env now rs w)))"
proof (induction rs arbitrary: w)
  case (Cons r rs)
  have t: "list_all armed (aw_routines (snd (eval_triggers env now r 0 (ro_triggers r) w)))" using Cons.prems by (rule triggers_armed)
  obtain e n w' where w': "eval_triggers env now r 0 (ro_triggers r) w = ((e, n), w')" by (metis surj_pair)
  show ?case
    using Cons.IH[of w'] Cons.IH[OF failure_armed] t by (cases e) (auto simp: w' case_prod_beta)
qed simp

lemma pause_stalled_armed: "list_all armed (aw_routines w) \<Longrightarrow> list_all armed (aw_routines (snd (pause_stalled env x w)))"
  by (auto simp: pause_stalled_def Let_def armed_def intro!: armed_upd)

lemma each_until_inv:
  assumes "\<And>x w. P w \<Longrightarrow> P (snd (f x w))"
  shows "P w \<Longrightarrow> P (snd (each_until f xs w))"
proof (induction xs arbitrary: w)
  case (Cons x xs)
  obtain e n w' where w': "f x w = ((e, n), w')" by (metis surj_pair)
  have "P w'" using assms[OF Cons.prems, of x] w' by simp
  then show ?case using Cons.IH[of w'] by (cases e) (auto simp: w' case_prod_beta)
qed simp

datatype routine_op =
    Ticks amb_env instant
  | Starts exec_env instant string string nat
  | RunEnds exec_env instant string nat sup_reply
  | Reaps decide_env instant int
  | Webhook amb_env "string \<Rightarrow> string" instant string json json "string option" "string option"
  | Creates bool "string \<Rightarrow> bool" nat routine
  | Patches bool "principal option" "string \<Rightarrow> bool" string routine_patch
  | Deletes bool "principal option" string

definition with_routines :: "amb_world \<Rightarrow> 'e + routine list \<Rightarrow> amb_world" where
  "with_routines w res = (case res of Inl e \<Rightarrow> w | Inr rs \<Rightarrow> w\<lparr>aw_routines := rs\<rparr>)"

fun routine_step :: "amb_world \<Rightarrow> routine_op \<Rightarrow> amb_world" where
  "routine_step w (Ticks env now) = snd (evaluate_schedules env now w)"
| "routine_step w (Starts env now fresh rid eid) = snd (start_fired env now fresh rid eid w)"
| "routine_step w (RunEnds env now rid eid reply) = snd (settle_run env now rid eid reply w)"
| "routine_step w (Reaps env now n) = snd (reap_stalled_runs env now n w)"
| "routine_step w (Webhook env h now i txt payload dedupe auth) =
     (case fire_routine env h now i txt payload dedupe auth w of Inl e \<Rightarrow> w | Inr (ev, w') \<Rightarrow> w')"
| "routine_step w (Creates enabled ok cap r) = with_routines w (create_routine enabled ok cap r (aw_routines w))"
| "routine_step w (Patches auth pr ok i p) = with_routines w (patch_routine auth pr ok i p (aw_routines w))"
| "routine_step w (Deletes auth pr i) = with_routines w (delete_routine auth pr i (aw_routines w))"

lemma conversation_armed: "list_all armed (aw_routines w) \<Longrightarrow> list_all armed (aw_routines (snd (with_conversation t fresh w)))"
  by (auto simp: with_conversation_def Let_def armed_def split: option.splits fire_target.splits intro!: armed_upd)

lemma prepare_armed: "list_all armed (aw_routines w) \<Longrightarrow> list_all armed (aw_routines (snd (prepare_run env now fresh rid e w)))"
  using conversation_armed[of w] by (auto simp: prepare_run_def Let_def case_prod_beta split: option.splits sum.splits)

lemma start_armed:
  assumes "list_all armed (aw_routines w)"
  shows "list_all armed (aw_routines (snd (start_fired env now fresh rid eid w)))"
  using assms prepare_armed[OF assms, of env now fresh rid]
  by (auto simp: start_fired_def split: option.splits prepared.splits prod.splits if_splits) (metis snd_conv)+

lemma finish_armed: "list_all armed (aw_routines w) \<Longrightarrow> list_all armed (aw_routines (snd (finish_ambient_run env now rid eid w)))"
  by (auto simp: finish_ambient_run_def finish_completed_def finish_failed_def Let_def armed_def
      split: option.splits sum.splits intro!: armed_upd armed_count[unfolded armed_def])

lemma budget_cancel_routines [simp]: "aw_routines (budget_cancel now reason rid w) = aw_routines w"
  by (simp add: budget_cancel_def)

lemma settle_armed: "list_all armed (aw_routines w) \<Longrightarrow> list_all armed (aw_routines (snd (settle_run env now rid eid reply w)))"
  by (cases reply) (auto simp: settle_run_def intro: finish_armed)

lemma webhook_armed:
  assumes "list_all armed (aw_routines w)" "fire_routine env h now i txt payload dedupe auth w = Inr (ev, w')"
  shows "list_all armed (aw_routines w')"
  using assms
  by (auto simp: fire_routine_def Let_def armed_def split: option.splits sum.splits if_splits intro!: armed_upd dest!: emit_in_routines)

lemma reap_armed: "list_all armed (aw_routines w) \<Longrightarrow> list_all armed (aw_routines (snd (reap_stalled_runs env now n w)))"
  unfolding reap_stalled_runs_def Let_def
  by (rule each_until_inv[where P = "\<lambda>w. list_all armed (aw_routines w)"]) (auto intro: pause_stalled_armed)

lemma tables_armed:
  assumes "list_all armed (aw_routines w)"
  shows "list_all armed (aw_routines (with_routines w (create_routine enabled ok cap r (aw_routines w))))"
    and "list_all armed (aw_routines (with_routines w (patch_routine auth pr ok i p (aw_routines w))))"
    and "list_all armed (aw_routines (with_routines w (delete_routine auth pr i (aw_routines w))))"
proof -
  show "list_all armed (aw_routines (with_routines w (create_routine enabled ok cap r (aw_routines w))))"
    using assms by (auto simp: with_routines_def create_routine_def row_add_def armed_def)
  show "list_all armed (aw_routines (with_routines w (delete_routine auth pr i (aw_routines w))))"
    using assms by (auto simp: with_routines_def delete_routine_def row_del_def list_all_iff split: option.splits)
  show "list_all armed (aw_routines (with_routines w (patch_routine auth pr ok i p (aw_routines w))))"
  proof (cases "patch_routine auth pr ok i p (aw_routines w)")
    case (Inr rs)
    then have "rs = row_upd ro_id i (apply_patch p) (aw_routines w)" "rp_status p \<in> {None, Some ''active'', Some ''paused''}"
      by (auto simp: patch_routine_def split: option.splits if_splits)
    then show ?thesis using assms by (simp add: Inr with_routines_def armed_upd armed_patch)
  qed (use assms in \<open>simp add: with_routines_def\<close>)
qed

lemma routine_step_armed: "list_all armed (aw_routines w) \<Longrightarrow> list_all armed (aw_routines (routine_step w op))"
  by (cases op)
     (auto simp: evaluate_schedules_def tables_armed split: sum.splits
      intro: routines_armed start_armed settle_armed reap_armed webhook_armed)

interpretation routine_plane: inv_system routine_step "\<lambda>w. list_all armed (aw_routines w)"
  by unfold_locales (rule routine_step_armed)

lemma finish_counts:
  assumes "row_get ar_id (aw_runs w) rid = Some x" "row_get ev_id (aw_events w) eid = Some e" "ev_decision e = []"
    and "ev_intent e = None" "ev_routine e = Some i" "ar_status x = Failed"
  shows "aw_routines (snd (finish_ambient_run env now rid eid w)) = row_upd ro_id i (count_failure x) (aw_routines w)
    \<and> aw_runs (snd (finish_ambient_run env now rid eid w)) = aw_runs w
    \<and> aw_events (snd (finish_ambient_run env now rid eid w)) = aw_events w"
proof -
  have "dict_get [] k = JNull" "dict_int [] k n = Inr n" for k n by (simp_all add: dict_get_def dict_int_def dict_get_or_def)
  moreover have "row_upd ro_id i (count_failure x) (aw_routines w) = aw_routines w" if "row_get ro_id (aw_routines w) i = None"
    using that by (simp add: row_get_None row_upd_def map_idI)
  ultimately show ?thesis
    using assms
    by (auto simp: finish_ambient_run_def finish_intent_def finish_failed_def Let_def split: option.splits dest: row_get_Some)
qed

text \<open>
  Over any history of schedule ticks, webhooks, runs that start, end or are reaped, and edits of
  the routines: a routine with three failures in a row behind it is not active, so that the gate drops
  every further event addressed to it, whatever the source, and no run comes of it.
\<close>

theorem third_failure_stops_the_fires:
  assumes w: "w = foldl routine_step (v\<lparr>aw_routines := []\<rparr>) ops"
    and r: "row_get ro_id (aw_routines w) rid = Some r" "3 \<le> ro_failures r"
    and e: "ev_routine e = Some rid" "ev_source e \<in> set FIRE_SOURCES"
  shows "process_event env now e w = ((''dropped'', ''routine missing or not active'', base_decision), w)"
proof -
  have "list_all armed (aw_routines w)" unfolding w by (rule routine_plane.run_inv) simp
  then have "ro_status r \<noteq> ''active''"
    using row_get_Some[OF r(1)] r(2) by (auto simp: list_all_iff armed_def)
  then show ?thesis
    using e r(1) by (simp add: process_event_def decide_def decide_routine_def)
qed

definition failed_run :: "string \<Rightarrow> amb_run" where
  "failed_run rid = \<lparr>ar_id = rid, ar_user = None, ar_conversation = ''c1'', ar_prompt = ''go'', ar_memories = False, ar_trigger = None,
     ar_status = Failed, ar_started = 0, ar_heartbeat = None, ar_finished = Some 0, ar_error = Some ''boom'', ar_answer = None\<rparr>"

definition bad_week :: amb_world where
  "bad_week = blank_world\<lparr>aw_events := [manual_event ''r1'' 0], aw_runs := [failed_run ''a'', failed_run ''b'', failed_run ''c'']\<rparr>"

definition run_env :: exec_env where
  "run_env = \<lparr>xe_decide = gate_env, xe_ceiling = None, xe_draining = False, xe_auth = False, xe_prompt_routine = (\<lambda>r e. ro_prompt r),
     xe_prompt_intent = (\<lambda>i e. si_text i), xe_payload_hash = (\<lambda>d. []), xe_text_hash = (\<lambda>t. t), xe_updated = (\<lambda>i. JNull),
     xe_threshold = 4\<rparr>"

definition bad_week_ops :: "routine_op list" where
  "bad_week_ops = [Creates True (\<lambda>m. True) 10 launch_routine, RunEnds run_env 0 ''a'' 0 (SupStatus Failed),
     RunEnds run_env 1 ''b'' 0 (SupStatus Failed), RunEnds run_env 2 ''c'' 0 (SupStatus Failed)]"

lemma bad_week_routines:
  "aw_routines (foldl routine_step (bad_week\<lparr>aw_routines := []\<rparr>) bad_week_ops)
     = [count_failure (failed_run ''c'') (count_failure (failed_run ''b'') (count_failure (failed_run ''a'')
         (launch_routine\<lparr>ro_last_fired := None\<rparr>)))]"
proof -
  obtain u where u: "u = launch_routine\<lparr>ro_last_fired := None\<rparr>" by blast
  have ids: "ro_id (count_failure x r) = ro_id r" for x r by (simp add: count_failure_def Let_def)
  have uid: "ro_id u = ''r1''" by (simp add: u launch_routine_def)
  obtain w0 where w0: "w0 = with_routines (bad_week\<lparr>aw_routines := []\<rparr>) (create_routine True (\<lambda>m. True) 10 launch_routine [])" by blast
  have base: "aw_routines w0 = [u] \<and> aw_runs w0 = aw_runs bad_week \<and> aw_events w0 = aw_events bad_week"
    by (simp add: w0 u bad_week_def with_routines_def create_routine_def launch_routine_def ROUTINE_AUTONOMY_def opt_truthy_def row_add_def)
  have step: "aw_routines (snd (settle_run run_env t rid 0 (SupStatus Failed) w)) = [count_failure (failed_run rid) q]
      \<and> aw_runs (snd (settle_run run_env t rid 0 (SupStatus Failed) w)) = aw_runs bad_week
      \<and> aw_events (snd (settle_run run_env t rid 0 (SupStatus Failed) w)) = aw_events bad_week"
    if "aw_routines w = [q]" "ro_id q = ''r1''" "rid \<in> {''a'', ''b'', ''c''}" "aw_runs w = aw_runs bad_week" "aw_events w = aw_events bad_week"
    for t rid w q
    using finish_counts[of w rid "failed_run rid" 0 "manual_event ''r1'' 0" "''r1''" run_env t] that
    by (auto simp: settle_run_def bad_week_def row_get_def failed_run_def manual_event_def new_event_def row_upd_def)
  show ?thesis
    unfolding bad_week_ops_def u[symmetric] using base step uid ids by (simp add: w0[symmetric])
qed

theorem third_failure_stops_the_fires_witness:
  "fst (process_event gate_env 3 (manual_event ''r1'' 1) (foldl routine_step (bad_week\<lparr>aw_routines := []\<rparr>) bad_week_ops))
     = (''dropped'', ''routine missing or not active'', base_decision)"
proof -
  have e: "ev_routine (manual_event ''r1'' 1) = Some ''r1''" "ev_source (manual_event ''r1'' 1) \<in> set FIRE_SOURCES"
    by (simp_all add: manual_event_def new_event_def FIRE_SOURCES_def)
  show ?thesis
    using third_failure_stops_the_fires[OF refl _ _ e, of bad_week bad_week_ops] bad_week_routines
    by (simp add: row_get_def count_failure_def launch_routine_def AUTO_PAUSE_AFTER_def Let_def)
qed

end
