(* ===== verification/Memory_Recall.thy ===== *)
theory Memory_Recall
  imports Access
begin

text \<open>
  Memory retrieval (\<open>backend/app/memory/rank.py\<close>): the visibility predicate, the two candidate legs
  and their reciprocal-rank fusion, the composite score with its floor, the entity hop and the pinned
  profile. What PostgreSQL ranks (text search, vector distance) is an argument; \<open>status\<close>, \<open>scope\<close>,
  \<open>kind\<close> and \<open>source\<close> are the strings of the columns.
\<close>

section \<open>Memories\<close>

record memory =
  me_id :: nat
  me_user :: "string option"
  me_scope :: string
  me_conversation :: "string option"
  me_project :: "string option"
  me_kind :: string
  me_text :: string
  me_payload :: "pydict option"
  me_entity_key :: "string option"
  me_importance :: int
  me_confidence :: real
  me_source :: string
  me_status :: string
  me_valid_from :: instant
  me_valid_to :: "instant option"
  me_recorded :: instant
  me_superseded_at :: "instant option"
  me_supersedes :: "nat option"
  me_superseded_by :: "nat option"
  me_run :: "string option"
  me_step :: "string option"
  me_accessed :: instant
  me_access_count :: nat
  me_pinned :: bool
  me_half_life :: "real option"     \<comment> \<open>in days\<close>
  me_note :: "string option"

section \<open>Visibility\<close>

record recall_scope =
  rs_scopes :: "string list"           \<comment> \<open>empty: no filter\<close>
  rs_kinds :: "string list"
  rs_conversation :: "string option"
  rs_project :: "string option"
  rs_as_of :: "instant option"

definition temporal_predicate :: "instant option \<Rightarrow> memory \<Rightarrow> bool" where
  "temporal_predicate as_of m \<longleftrightarrow> (case as_of of
       None \<Rightarrow> me_status m = ''active''
     | Some t \<Rightarrow> me_status m \<notin> {''quarantined'', ''rejected''} \<and> me_recorded m \<le> t
         \<and> (case me_superseded_at m of None \<Rightarrow> True | Some u \<Rightarrow> t < u)
         \<and> me_valid_from m \<le> t \<and> (case me_valid_to m of None \<Rightarrow> True | Some u \<Rightarrow> t < u))"

definition sql_eq :: "string option \<Rightarrow> string option \<Rightarrow> bool" where
  \<comment> \<open>equality with NULL is not true\<close>
  "sql_eq a b \<longleftrightarrow> a \<noteq> None \<and> a = b"

definition filters_hold :: "recall_scope \<Rightarrow> memory \<Rightarrow> bool" where
  "filters_hold rs m \<longleftrightarrow>
     (rs_scopes rs = [] \<or> me_scope m \<in> set (rs_scopes rs))
     \<and> (rs_kinds rs = [] \<or> me_kind m \<in> set (rs_kinds rs))
     \<and> (me_scope m \<noteq> ''conversation'' \<or> sql_eq (me_conversation m) (rs_conversation rs))
     \<and> (me_scope m \<noteq> ''project'' \<or> sql_eq (me_project m) (rs_project rs))"

definition memory_visibility :: "bool \<Rightarrow> principal option \<Rightarrow> memory \<Rightarrow> bool" where
  \<comment> \<open>the builtin provider's clause: unowned rows are visible to everyone\<close>
  "memory_visibility enabled p m \<longleftrightarrow> \<not> enabled
     \<or> sql_eq (me_user m) (case p of None \<Rightarrow> None | Some q \<Rightarrow> pr_id q) \<or> me_user m = None"

definition memory_visible :: "bool \<Rightarrow> principal option \<Rightarrow> recall_scope \<Rightarrow> memory \<Rightarrow> bool" where
  \<comment> \<open>\<open>visibility_sql\<close>\<close>
  "memory_visible enabled p rs m \<longleftrightarrow>
     temporal_predicate (rs_as_of rs) m \<and> filters_hold rs m \<and> memory_visibility enabled p m"

section \<open>Recall\<close>

definition RRF_K :: nat where
  "RRF_K = 60"

definition CANDIDATES_PER_LEG :: nat where
  "CANDIDATES_PER_LEG = 40"

definition W_REL :: real where "W_REL = 1"

definition W_REC :: real where "W_REC = 4 / 5"

definition W_IMP :: real where "W_IMP = 3 / 5"

definition DEFAULT_HALF_LIFE_HOURS :: real where
  "DEFAULT_HALF_LIFE_HOURS = 720"

record recall_hit =
  rh_memory :: memory
  rh_score :: real
  rh_relevance :: real
  rh_recency :: real
  rh_importance :: real
  rh_linked :: bool

type_synonym leg = "string \<Rightarrow> memory \<Rightarrow> real option"
  \<comment> \<open>the rank of a row for a query, higher first; None when it does not match or has no vector\<close>

definition leg_ids :: "leg \<Rightarrow> string \<Rightarrow> memory list \<Rightarrow> nat list" where
  "leg_ids leg q rows =
     map me_id (take CANDIDATES_PER_LEG
       (sort_key (\<lambda>m. - the (leg q m)) (filter (\<lambda>m. leg q m \<noteq> None) rows)))"

definition rank_score :: "nat list \<Rightarrow> nat \<Rightarrow> real" where
  \<comment> \<open>what one ranking adds to a row; the ids of a ranking are distinct\<close>
  "rank_score ranking i =
     sum_list (map (\<lambda>(n, j). if j = i then 1 / real (RRF_K + n + 1) else 0) (enumerate 0 ranking))"

definition fuse :: "nat list list \<Rightarrow> nat \<Rightarrow> real" where
  "fuse rankings i = sum_list (map (\<lambda>r. rank_score r i) rankings)"

definition half_life_hours :: "memory \<Rightarrow> real" where
  "half_life_hours m = (case me_half_life m of
       None \<Rightarrow> DEFAULT_HALF_LIFE_HOURS | Some d \<Rightarrow> if d = 0 then DEFAULT_HALF_LIFE_HOURS else d * 24)"

definition hours_since :: "instant \<Rightarrow> instant \<Rightarrow> real" where
  "hours_since now t = max (real_of_int (now - t) / 1000000 / 3600) 0"

definition recency_of :: "instant \<Rightarrow> memory \<Rightarrow> real" where
  \<comment> \<open>\<open>last_accessed_at\<close> has a server default, so it is the anchor of every stored row\<close>
  "recency_of now m = exp (- ln 2 / half_life_hours m * hours_since now (me_accessed m))"

definition score_of :: "real \<Rightarrow> real \<Rightarrow> real \<Rightarrow> real" where
  "score_of relevance recency importance =
     (W_REL * relevance + W_REC * recency + W_IMP * importance) / (W_REL + W_REC + W_IMP)"

definition hit_of :: "instant \<Rightarrow> real \<Rightarrow> real \<Rightarrow> memory \<Rightarrow> recall_hit option" where
  "hit_of now floor_at relevance m =
     (let recency = recency_of now m;
          importance = real_of_int (me_importance m) / 10;
          score = score_of relevance recency importance
      in if me_pinned m \<or> floor_at \<le> score
         then Some \<lparr>rh_memory = m, rh_score = round4 score, rh_relevance = round4 relevance, rh_recency = round4 recency,
                    rh_importance = importance, rh_linked = False\<rparr>
         else None)"

definition top_hits :: "nat \<Rightarrow> recall_hit list \<Rightarrow> recall_hit list" where
  "top_hits k hits = take k (sort_key (\<lambda>h. - rh_score h) hits)"

record entity_link =
  el_memory :: nat
  el_entity :: nat

definition shares_entity :: "entity_link list \<Rightarrow> nat list \<Rightarrow> nat \<Rightarrow> bool" where
  "shares_entity links ids i \<longleftrightarrow>
     list_ex (\<lambda>l1. el_memory l1 = i \<and> list_ex (\<lambda>l2. el_entity l2 = el_entity l1 \<and> el_memory l2 \<in> set ids) links) links"

definition hop_rows :: "recall_scope \<Rightarrow> entity_link list \<Rightarrow> nat list \<Rightarrow> memory list \<Rightarrow> memory list" where
  \<comment> \<open>the entity-hop query\<close>
  "hop_rows rs links ids rows =
     take 2 (filter (\<lambda>m. shares_entity links ids (me_id m) \<and> me_id m \<notin> set ids \<and> me_status m = ''active''
       \<and> (me_scope m \<noteq> ''conversation'' \<or> sql_eq (me_conversation m) (rs_conversation rs))) rows)"

definition hop_hits :: "recall_hit list \<Rightarrow> memory list \<Rightarrow> recall_hit list" where
  "hop_hits hits ms =
     (let score = round4 (Min (set (map rh_score hits)) * (4 / 5))
      in map (\<lambda>m. \<lparr>rh_memory = m, rh_score = score, rh_relevance = 0, rh_recency = 0,
                   rh_importance = real_of_int (me_importance m) / 10, rh_linked = True\<rparr>) ms)"

record recall_env =
  re_enabled :: bool                  \<comment> \<open>authentication\<close>
  re_principal :: "principal option"
  re_lexical :: leg
  re_vector :: leg                    \<comment> \<open>nowhere defined without an embedding model\<close>
  re_links :: "entity_link list"

definition recall_rankings :: "recall_env \<Rightarrow> recall_scope \<Rightarrow> string \<Rightarrow> memory list \<Rightarrow> nat list list" where
  \<comment> \<open>the non-empty legs over the visible rows\<close>
  "recall_rankings env rs q rows =
     (let seen = filter (memory_visible (re_enabled env) (re_principal env) rs) rows
      in filter (\<lambda>r. r \<noteq> []) [leg_ids (re_lexical env) q seen, leg_ids (re_vector env) q seen])"

definition best_fused :: "nat list list \<Rightarrow> real" where
  "best_fused rankings = Max (insert 0 (fuse rankings ` set (concat rankings)))"

definition direct_hits :: "instant \<Rightarrow> nat \<Rightarrow> real \<Rightarrow> nat list list \<Rightarrow> memory list \<Rightarrow> recall_hit list" where
  "direct_hits now k floor_at rankings rows =
     top_hits k (List.map_filter (\<lambda>m. hit_of now floor_at (fuse rankings (me_id m) / best_fused rankings) m)
       (filter (\<lambda>m. me_id m \<in> set (concat rankings)) rows))"

definition recall ::
    "recall_env \<Rightarrow> recall_scope \<Rightarrow> instant \<Rightarrow> nat \<Rightarrow> real \<Rightarrow> string \<Rightarrow> memory list \<Rightarrow> recall_hit list" where
  "recall env rs now k floor_at query rows =
     (let q = squeeze query;
          rankings = recall_rankings env rs q rows;
          direct = direct_hits now k floor_at rankings rows
      in if q = [] \<or> rankings = [] then []
         else if direct \<noteq> [] \<and> (rs_as_of rs = None \<and> rs_kinds rs = [])
         then direct @ hop_hits direct (hop_rows rs (re_links env) (map (\<lambda>h. me_id (rh_memory h)) direct) rows)
         else direct)"

definition bump_access :: "instant \<Rightarrow> recall_scope \<Rightarrow> recall_hit list \<Rightarrow> memory list \<Rightarrow> memory list" where
  \<comment> \<open>what a recall writes\<close>
  "bump_access now rs hits rows =
     (if hits = [] \<or> rs_as_of rs \<noteq> None then rows
      else map (\<lambda>m. if me_id m \<in> (\<lambda>h. me_id (rh_memory h)) ` set hits
                   then m\<lparr>me_accessed := now, me_access_count := me_access_count m + 1\<rparr> else m) rows)"

definition pinned_memories :: "recall_env \<Rightarrow> recall_scope \<Rightarrow> memory list \<Rightarrow> memory list" where
  \<comment> \<open>newest first; the table is in the order of \<open>recorded_at\<close>\<close>
  "pinned_memories env rs rows =
     rev (filter (\<lambda>m. me_pinned m \<and> memory_visible (re_enabled env) (re_principal env)
       \<lparr>rs_scopes = [], rs_kinds = [], rs_conversation = rs_conversation rs, rs_project = rs_project rs, rs_as_of = None\<rparr> m) rows)"

definition is_token_char :: "char \<Rightarrow> bool" where
  "is_token_char c \<longleftrightarrow> (let n = of_char c :: nat in 97 \<le> n \<and> n \<le> 122 \<or> 48 \<le> n \<and> n \<le> 57)"

definition query_tokens :: "string \<Rightarrow> string list" where
  \<comment> \<open>\<open>[a-z0-9]+\<close>, each once, in order of first occurrence\<close>
  "query_tokens q =
     rev (remdups (rev (py_words (map (\<lambda>c. if is_token_char c then c else CHR '' '') (py_lower q)))))"

definition or_tsquery :: "string \<Rightarrow> string" where
  "or_tsquery q = (case take 24 (query_tokens q) of [] \<Rightarrow> ''x_no_terms'' | ts \<Rightarrow> join '' | '' ts)"

section \<open>What a recall returns\<close>

definition memory_row_ok :: "memory \<Rightarrow> bool" where
  "memory_row_ok m \<longleftrightarrow> 0 \<le> me_importance m \<and> me_importance m \<le> 10
     \<and> (case me_half_life m of None \<Rightarrow> True | Some d \<Rightarrow> 0 \<le> d)"

lemma recency_bounds: "memory_row_ok m \<Longrightarrow> 0 < recency_of now m \<and> recency_of now m \<le> 1"
proof -
  assume "memory_row_ok m"
  then have "0 < half_life_hours m"
    by (auto simp: memory_row_ok_def half_life_hours_def DEFAULT_HALF_LIFE_HOURS_def split: option.splits)
  then have "0 \<le> ln 2 / half_life_hours m * hours_since now (me_accessed m)" by (simp add: hours_since_def)
  then show ?thesis by (simp add: recency_of_def)
qed

lemma score_bounds:
  assumes "0 \<le> r" "r \<le> 1" "0 \<le> c" "c \<le> 1" "0 \<le> i" "i \<le> 1"
  shows "0 \<le> score_of r c i \<and> score_of r c i \<le> 1"
proof -
  have "0 \<le> W_REL * r + W_REC * c + W_IMP * i" "W_REL * r + W_REC * c + W_IMP * i \<le> W_REL + W_REC + W_IMP"
    using assms by (simp_all add: W_REL_def W_REC_def W_IMP_def)
  then show ?thesis by (simp add: score_of_def W_REL_def W_REC_def W_IMP_def divide_le_eq)
qed

lemma rank_score_nonneg: "0 \<le> rank_score r i"
  unfolding rank_score_def by (intro sum_list_nonneg) auto

lemma fuse_nonneg: "0 \<le> fuse rs i"
  unfolding fuse_def by (intro sum_list_nonneg) (auto simp: rank_score_nonneg)

lemma relevance_bounds:
  assumes "i \<in> set (concat rs)"
  shows "0 \<le> fuse rs i / best_fused rs \<and> fuse rs i / best_fused rs \<le> 1"
proof -
  have "finite (insert 0 (fuse rs ` set (concat rs)))" by simp
  then have "0 \<le> best_fused rs" "fuse rs i \<le> best_fused rs"
    using assms unfolding best_fused_def by (auto intro!: Max_ge simp del: set_concat)
  then show ?thesis using fuse_nonneg[of rs i] by (auto simp: divide_le_eq_1)
qed

lemma round4_bounds: "0 \<le> x \<Longrightarrow> x \<le> 1 \<Longrightarrow> 0 \<le> round4 x \<and> round4 x \<le> 1"
  using round4_mono[of 0 x] round4_mono[of x 1] by (simp add: round4_def)

lemma round4_idem [simp]: "round4 (round4 x) = round4 x"
  by (simp add: round4_def)

definition hit_ok :: "real \<Rightarrow> (memory \<Rightarrow> bool) \<Rightarrow> recall_hit \<Rightarrow> bool" where
  "hit_ok floor_at seen h \<longleftrightarrow> seen (rh_memory h) \<and> 0 \<le> rh_score h \<and> rh_score h \<le> 1
     \<and> (me_pinned (rh_memory h) \<or> round4 floor_at \<le> rh_score h) \<and> \<not> rh_linked h
     \<and> round4 (rh_score h) = rh_score h"

lemma hit_of_ok:
  assumes "hit_of now floor_at r m = Some h" "memory_row_ok m" "0 \<le> r" "r \<le> 1" "seen m"
  shows "hit_ok floor_at seen h"
proof -
  let ?s = "score_of r (recency_of now m) (real_of_int (me_importance m) / 10)"
  have "0 \<le> ?s \<and> ?s \<le> 1"
    using assms(2-4) recency_bounds[OF assms(2), of now] by (intro score_bounds) (auto simp: memory_row_ok_def)
  then have "0 \<le> round4 ?s \<and> round4 ?s \<le> 1" using round4_bounds by blast
  with assms(1,5) show ?thesis
    by (auto simp: hit_of_def Let_def hit_ok_def round4_mono split: if_splits)
qed

lemma hit_of_memory: "hit_of now floor_at r m = Some h \<Longrightarrow> rh_memory h = m"
  by (auto simp: hit_of_def Let_def split: if_splits)

lemma leg_ids_seen: "i \<in> set (leg_ids leg q rows) \<Longrightarrow> \<exists>m \<in> set rows. me_id m = i"
  by (auto simp: leg_ids_def dest!: in_set_takeD)

lemma sorted_top_hits: "sorted_wrt (\<lambda>a b. b \<le> a) (map rh_score (top_hits k hits))"
proof -
  have "sorted (map (\<lambda>h. - rh_score h) (sort_key (\<lambda>h. - rh_score h) hits))" by (rule sorted_sort_key)
  then have "sorted_wrt (\<lambda>a b. rh_score b \<le> rh_score a) (sort_key (\<lambda>h. - rh_score h) hits)"
    by (simp add: sorted_map)
  then show ?thesis unfolding top_hits_def sorted_wrt_map by (rule sorted_wrt_take)
qed

lemma in_top_hits: "h \<in> set (top_hits k hits) \<Longrightarrow> h \<in> set hits"
  by (auto simp: top_hits_def dest: in_set_takeD)

lemma min_score_ge:
  assumes "hits \<noteq> []" "\<forall>h \<in> set hits. 0 \<le> rh_score h \<and> rh_score h \<le> 1"
  shows "0 \<le> Min (set (map rh_score hits)) \<and> Min (set (map rh_score hits)) \<le> 1 \<and> (\<forall>h \<in> set hits. Min (set (map rh_score hits)) \<le> rh_score h)"
proof -
  have "Min (set (map rh_score hits)) \<in> set (map rh_score hits)" using assms(1) by (intro Min_in) auto
  with assms(2) show ?thesis by auto
qed

lemma hop_hits_facts:
  assumes "hits \<noteq> []" "\<forall>h \<in> set hits. hit_ok floor_at seen h" "h \<in> set (hop_hits hits ms)"
  shows "rh_linked h \<and> rh_memory h \<in> set ms \<and> 0 \<le> rh_score h \<and> rh_score h \<le> 1 \<and> (\<forall>d \<in> set hits. rh_score h \<le> rh_score d)"
proof -
  let ?m = "Min (set (map rh_score hits))"
  have m: "0 \<le> ?m \<and> ?m \<le> 1 \<and> (\<forall>d \<in> set hits. ?m \<le> rh_score d)"
    using assms(1,2) by (intro min_score_ge) (auto simp: hit_ok_def)
  have "?m \<in> set (map rh_score hits)" using assms(1) by (intro Min_in) auto
  then have idem: "round4 ?m = ?m" using assms(2) by (auto simp: hit_ok_def)
  have "round4 (?m * (4 / 5)) \<le> ?m" using round4_mono[of "?m * (4 / 5)" ?m] m idem by simp
  moreover have "0 \<le> round4 (?m * (4 / 5))" using round4_mono[of 0 "?m * (4 / 5)"] m by (simp add: round4_def)
  moreover have "rh_score h = round4 (?m * (4 / 5))" "rh_linked h" "rh_memory h \<in> set ms"
    using assms(3) by (auto simp: hop_hits_def Let_def)
  ultimately have le: "rh_score h \<le> ?m" "0 \<le> rh_score h" and rest: "rh_linked h" "rh_memory h \<in> set ms" by simp_all
  have "rh_score h \<le> rh_score d" if "d \<in> set hits" for d using le(1) m that by (meson order_trans)
  moreover have "rh_score h \<le> 1" using le(1) m by linarith
  ultimately show ?thesis using le rest by blast
qed

definition recalled_ok :: "recall_env \<Rightarrow> recall_scope \<Rightarrow> real \<Rightarrow> memory list \<Rightarrow> recall_hit \<Rightarrow> bool" where
  "recalled_ok env rs floor_at rows h \<longleftrightarrow> rh_memory h \<in> set rows \<and> 0 \<le> rh_score h \<and> rh_score h \<le> 1
     \<and> (rh_linked h \<and> me_status (rh_memory h) = ''active''
        \<or> \<not> rh_linked h \<and> memory_visible (re_enabled env) (re_principal env) rs (rh_memory h)
          \<and> (me_pinned (rh_memory h) \<or> round4 floor_at \<le> rh_score h))"

definition ranked :: "recall_env \<Rightarrow> recall_scope \<Rightarrow> nat \<Rightarrow> real \<Rightarrow> memory list \<Rightarrow> recall_hit list \<Rightarrow> bool" where
  "ranked env rs k floor_at rows hits \<longleftrightarrow>
     length (filter (\<lambda>h. \<not> rh_linked h) hits) \<le> k \<and> length (filter rh_linked hits) \<le> 2
     \<and> sorted_wrt (\<lambda>a b. b \<le> a) (map rh_score hits) \<and> list_all (recalled_ok env rs floor_at rows) hits"

lemma ranked_direct:
  assumes "\<forall>h \<in> set direct. hit_ok floor_at (memory_visible (re_enabled env) (re_principal env) rs) h \<and> rh_memory h \<in> set rows"
    and "length direct \<le> k" "sorted_wrt (\<lambda>a b. b \<le> a) (map rh_score direct)"
  shows "ranked env rs k floor_at rows direct"
proof -
  have "filter rh_linked direct = []" "filter (\<lambda>h. \<not> rh_linked h) direct = direct"
    using assms(1) by (auto simp: filter_empty_conv filter_id_conv hit_ok_def)
  moreover have "list_all (recalled_ok env rs floor_at rows) direct"
    using assms(1) by (auto simp: list_all_iff recalled_ok_def hit_ok_def)
  ultimately show ?thesis using assms(2,3) by (simp add: ranked_def)
qed

lemma ranked_hops:
  assumes direct: "\<forall>h \<in> set direct. hit_ok floor_at (memory_visible (re_enabled env) (re_principal env) rs) h \<and> rh_memory h \<in> set rows"
    and "length direct \<le> k" "sorted_wrt (\<lambda>a b. b \<le> a) (map rh_score direct)" "direct \<noteq> []"
    and "\<forall>m \<in> set ms. m \<in> set rows \<and> me_status m = ''active''" "length ms \<le> 2"
  shows "ranked env rs k floor_at rows (direct @ hop_hits direct ms)"
proof -
  have hops: "rh_linked h \<and> rh_memory h \<in> set ms \<and> 0 \<le> rh_score h \<and> rh_score h \<le> 1 \<and> (\<forall>d \<in> set direct. rh_score h \<le> rh_score d)"
    if "h \<in> set (hop_hits direct ms)" for h
    using hop_hits_facts[OF assms(4) _ that] direct by blast
  have "filter rh_linked (hop_hits direct ms) = hop_hits direct ms" "filter (\<lambda>h. \<not> rh_linked h) (hop_hits direct ms) = []"
    using hops by (auto simp: filter_empty_conv filter_id_conv)
  moreover have "length (hop_hits direct ms) \<le> 2" using assms(6) by (simp add: hop_hits_def Let_def)
  moreover have "sorted_wrt (\<lambda>a b. b \<le> a) (map rh_score (hop_hits direct ms))"
    unfolding hop_hits_def Let_def by (simp add: comp_def sorted_wrt_iff_nth_less)
  then have "sorted_wrt (\<lambda>a b. b \<le> a) (map rh_score (direct @ hop_hits direct ms))"
    using assms(3) hops by (simp add: sorted_wrt_append)
  moreover have "list_all (recalled_ok env rs floor_at rows) (hop_hits direct ms)"
    using hops assms(5) by (simp add: list_all_iff recalled_ok_def)
  moreover have "filter rh_linked direct = []" "ranked env rs k floor_at rows direct"
    using direct ranked_direct[OF assms(1-3)] by (auto simp: filter_empty_conv hit_ok_def)
  ultimately show ?thesis by (simp add: ranked_def)
qed

lemma ranked_are_visible:
  assumes "i \<in> set (concat (recall_rankings env rs q rows))"
  shows "\<exists>m \<in> set rows. memory_visible (re_enabled env) (re_principal env) rs m \<and> me_id m = i"
proof -
  let ?seen = "filter (memory_visible (re_enabled env) (re_principal env) rs) rows"
  have "i \<in> set (leg_ids (re_lexical env) q ?seen) \<or> i \<in> set (leg_ids (re_vector env) q ?seen)"
    using assms unfolding recall_rankings_def Let_def by (auto split: if_splits)
  then have "\<exists>m \<in> set ?seen. me_id m = i" using leg_ids_seen by blast
  then show ?thesis by auto
qed

lemma three_ways:
  "P [] \<Longrightarrow> P d \<Longrightarrow> (d \<noteq> [] \<Longrightarrow> P (d @ h)) \<Longrightarrow> P (if a then [] else if d \<noteq> [] \<and> b then d @ h else d)"
  by simp

text \<open>
  A recall returns at most \<open>k\<close> similar rows, each visible to the requester, scored within
  \<open>[0, 1]\<close>, best first, and above the floor unless pinned, followed by at most two active rows
  reached by an entity, scored no better than any of them.
\<close>

theorem recall_is_ranked:
  fixes env rs now k floor_at query
  assumes "list_all memory_row_ok rows" "distinct (map me_id rows)"
  defines "hits \<equiv> recall env rs now k floor_at query rows"
  shows "length (filter (\<lambda>h. \<not> rh_linked h) hits) \<le> k \<and> length (filter rh_linked hits) \<le> 2
    \<and> sorted_wrt (\<lambda>a b. b \<le> a) (map rh_score hits) \<and> list_all (recalled_ok env rs floor_at rows) hits"
proof -
  let ?q = "squeeze query" and ?seen = "memory_visible (re_enabled env) (re_principal env) rs"
  obtain rankings where rankings: "rankings = recall_rankings env rs ?q rows" by blast
  obtain direct where direct_def: "direct = direct_hits now k floor_at rankings rows" by blast
  let ?hop = "hop_rows rs (re_links env) (map (\<lambda>h. me_id (rh_memory h)) direct) rows"
  have vis: "?seen m" if m: "m \<in> set rows" "me_id m \<in> set (concat rankings)" for m
  proof -
    obtain n where "n \<in> set rows" "?seen n" "me_id n = me_id m"
      using ranked_are_visible m(2) unfolding rankings by blast
    with m(1) assms(2) show ?thesis by (metis distinct_map inj_on_eq_iff)
  qed
  have direct: "\<forall>h \<in> set direct. hit_ok floor_at ?seen h \<and> rh_memory h \<in> set rows"
  proof
    fix h assume "h \<in> set direct"
    then obtain m where m: "m \<in> set rows" "me_id m \<in> set (concat rankings)"
      and h: "hit_of now floor_at (fuse rankings (me_id m) / best_fused rankings) m = Some h"
      unfolding direct_def direct_hits_def by (auto simp: in_map_filter simp del: set_concat dest!: in_top_hits)
    have "memory_row_ok m" using assms(1) m(1) by (simp add: list_all_iff)
    from hit_of_ok[OF h this, of ?seen] relevance_bounds[OF m(2)] vis[OF m] m(1) hit_of_memory[OF h]
    show "hit_ok floor_at ?seen h \<and> rh_memory h \<in> set rows" by blast
  qed
  have len: "length direct \<le> k" and srt: "sorted_wrt (\<lambda>a b. b \<le> a) (map rh_score direct)"
    unfolding direct_def direct_hits_def by (simp add: top_hits_def) (rule sorted_top_hits)
  have hop: "\<forall>m \<in> set ?hop. m \<in> set rows \<and> me_status m = ''active''" "length ?hop \<le> 2"
    by (auto simp: hop_rows_def dest: in_set_takeD)
  have "ranked env rs k floor_at rows []" by (simp add: ranked_def)
  then have "ranked env rs k floor_at rows hits"
    unfolding hits_def recall_def Let_def rankings[symmetric] direct_def[symmetric]
    using ranked_direct[OF direct len srt] ranked_hops[OF direct len srt _ hop]
    by (rule three_ways[where P = "ranked env rs k floor_at rows"])
  then show ?thesis by (simp only: ranked_def)
qed

definition note_of :: "nat \<Rightarrow> string \<Rightarrow> string \<Rightarrow> memory" where
  "note_of i user text = \<lparr>me_id = i, me_user = Some user, me_scope = ''global'', me_conversation = None, me_project = None,
     me_kind = ''fact'', me_text = text, me_payload = None, me_entity_key = None, me_importance = 5, me_confidence = 1,
     me_source = ''user_stated'', me_status = ''active'', me_valid_from = 0, me_valid_to = None, me_recorded = 0,
     me_superseded_at = None, me_supersedes = None, me_superseded_by = None, me_run = None, me_step = None,
     me_accessed = 0, me_access_count = 0, me_pinned = False, me_half_life = None, me_note = None\<rparr>"

definition two_notes :: "memory list" where
  "two_notes = [(note_of 0 ''ann'' ''acme'')\<lparr>me_pinned := True\<rparr>,
     (note_of 1 ''bob'' ''salary'')\<lparr>me_scope := ''project'', me_project := Some ''hr''\<rparr>]"

definition ann_recalls :: recall_env where
  \<comment> \<open>both rows mention the entity 7\<close>
  "ann_recalls = \<lparr>re_enabled = True,
     re_principal = Some \<lparr>pr_id = Some ''ann'', pr_role = ''member'', pr_username = Some ''ann''\<rparr>,
     re_lexical = (\<lambda>q m. if me_text m = q then Some 1 else None), re_vector = (\<lambda>q m. None),
     re_links = [\<lparr>el_memory = 0, el_entity = 7\<rparr>, \<lparr>el_memory = 1, el_entity = 7\<rparr>]\<rparr>"

definition anywhere :: recall_scope where
  "anywhere = \<lparr>rs_scopes = [], rs_kinds = [], rs_conversation = None, rs_project = None, rs_as_of = None\<rparr>"

lemma two_notes_recalled:
  "map (\<lambda>h. (rh_linked h, rh_memory h)) (recall ann_recalls anywhere 0 6 (7 / 20) ''acme'' two_notes)
   = [(False, two_notes ! 0), (True, two_notes ! 1)]"
proof -
  have q: "squeeze ''acme'' = ''acme''" by code_simp
  have seen: "filter (memory_visible (re_enabled ann_recalls) (re_principal ann_recalls) anywhere) two_notes = [two_notes ! 0]"
    by (simp add: memory_visible_def memory_visibility_def two_notes_def note_of_def ann_recalls_def anywhere_def
        temporal_predicate_def filters_hold_def sql_eq_def)
  have rank: "recall_rankings ann_recalls anywhere ''acme'' two_notes = [[0]]"
    unfolding recall_rankings_def Let_def seen
    by (simp add: leg_ids_def ann_recalls_def two_notes_def note_of_def CANDIDATES_PER_LEG_def)
  obtain h where h: "hit_of 0 (7 / 20) r (two_notes ! 0) = Some (h r) \<and> rh_memory (h r) = two_notes ! 0 \<and> \<not> rh_linked (h r)" for r
  proof -
    have "\<exists>h. hit_of 0 (7 / 20) r (two_notes ! 0) = Some h \<and> rh_memory h = two_notes ! 0 \<and> \<not> rh_linked h" for r
      by (simp add: hit_of_def two_notes_def Let_def)
    then show thesis using that by metis
  qed
  obtain r where direct: "direct_hits 0 6 (7 / 20) [[0]] two_notes = [h r]"
    using h unfolding direct_hits_def
    by (auto simp: two_notes_def note_of_def top_hits_def List.map_filter_simps)
  have hop: "hop_rows anywhere (re_links ann_recalls) [0] two_notes = [two_notes ! 1]"
    by (simp add: hop_rows_def shares_entity_def ann_recalls_def two_notes_def note_of_def anywhere_def sql_eq_def)
  have zero: "me_id (two_notes ! 0) = 0" and anywhere: "rs_as_of anywhere = None" "rs_kinds anywhere = []"
    by (simp_all add: two_notes_def note_of_def anywhere_def)
  have "map (\<lambda>h. me_id (rh_memory h)) [h r] = [0]" using h zero by simp
  then show ?thesis
    unfolding recall_def q Let_def rank direct using h
    by (simp add: hop hop_hits_def Let_def anywhere zero del: nth_Cons_0)
qed

theorem recall_is_ranked_witness:
  "list_all memory_row_ok two_notes \<and> distinct (map me_id two_notes)
   \<and> list_all (recalled_ok ann_recalls anywhere (7 / 20) two_notes) (recall ann_recalls anywhere 0 6 (7 / 20) ''acme'' two_notes)
   \<and> length (recall ann_recalls anywhere 0 6 (7 / 20) ''acme'' two_notes) = 2"
proof -
  have ok: "list_all memory_row_ok two_notes" "distinct (map me_id two_notes)"
    by (simp_all add: two_notes_def note_of_def memory_row_ok_def)
  have "length (map (\<lambda>h. (rh_linked h, rh_memory h)) (recall ann_recalls anywhere 0 6 (7 / 20) ''acme'' two_notes)) = 2"
    unfolding two_notes_recalled by simp
  with ok recall_is_ranked[OF ok, of ann_recalls anywhere 0 6 "7 / 20" "''acme''"] show ?thesis by simp
qed

text \<open>
  The entity hop asks neither for the owner nor for the project: with authentication on, a
  member is handed another user's project memory that the visibility predicate hides, because both
  mention the same entity.
\<close>

theorem entity_hop_leaks:
  "map (\<lambda>h. (me_user (rh_memory h), me_text (rh_memory h)))
     (recall ann_recalls anywhere 0 6 (7 / 20) ''acme'' two_notes) = [(Some ''ann'', ''acme''), (Some ''bob'', ''salary'')]
   \<and> filter (memory_visible True (re_principal ann_recalls) anywhere) two_notes = [two_notes ! 0]"
proof -
  have "map (\<lambda>h. (me_user (rh_memory h), me_text (rh_memory h))) hits
      = map ((\<lambda>m. (me_user m, me_text m)) \<circ> snd) (map (\<lambda>h. (rh_linked h, rh_memory h)) hits)" for hits :: "recall_hit list"
    by (simp add: comp_def)
  then have "map (\<lambda>h. (me_user (rh_memory h), me_text (rh_memory h))) (recall ann_recalls anywhere 0 6 (7 / 20) ''acme'' two_notes)
      = map ((\<lambda>m. (me_user m, me_text m)) \<circ> snd) [(False, two_notes ! 0), (True, two_notes ! 1)]"
    by (simp only: two_notes_recalled)
  then show ?thesis
    by (simp add: memory_visible_def memory_visibility_def two_notes_def note_of_def ann_recalls_def anywhere_def
        temporal_predicate_def filters_hold_def sql_eq_def)
qed

end
