(* ===== verification/Memory_Store.thy ===== *)
theory Memory_Store
  imports Memory_Recall Settings
begin

text \<open>
  The semantic store (\<open>backend/app/memory/store.py\<close>), reconciliation of extracted candidates
  (\<open>memory/extract.py\<close>), the decay and contradiction sweeps (\<open>memory/lifecycle.py\<close>), typed vector
  columns (\<open>memory/dims.py\<close>) and the memory endpoints (\<open>api/memories.py\<close>). The hash function, the
  embedding model and the identity verdicts of the reconciling model are arguments; token hashes are
  a duplicate-free list in text order.
\<close>

section \<open>Embeddings\<close>

definition EMBEDDING_DIMS :: "nat list" where
  "EMBEDDING_DIMS = [64, 256, 384, 512, 768, 1024, 1536, 3072]"

definition HALFVEC_ABOVE :: nat where
  "HALFVEC_ABOVE = 2000"

definition embedding_column :: "nat \<Rightarrow> string option" where
  "embedding_column dims = (if dims \<in> set EMBEDDING_DIMS then Some (''emb_'' @ nat_str dims) else None)"

definition vector_type :: "nat \<Rightarrow> string" where
  "vector_type dims = (if HALFVEC_ABOVE < dims then ''halfvec'' else ''vector'')"

definition dims_of :: "string option \<Rightarrow> nat option" where
  "dims_of key = (case key of
       None \<Rightarrow> None
     | Some k \<Rightarrow>
         (if CHR ''@'' \<notin> set k then None
          else (let tail = last (split_on CHR ''@'' k)
                in if tail \<noteq> [] \<and> list_all is_digit tail then Some (digits_val tail) else None)))"

definition vector_column :: "string option \<Rightarrow> (string \<times> string) option" where
  "vector_column key = (case dims_of key of
       None \<Rightarrow> None
     | Some dims \<Rightarrow> (case embedding_column dims of None \<Rightarrow> None | Some c \<Rightarrow> Some (c, vector_type dims)))"

record store_env =
  sv_now :: instant
  sv_user :: "string option"                   \<comment> \<open>\<open>current_user_id()\<close>\<close>
  sv_sha :: "string \<Rightarrow> string"                 \<comment> \<open>the hexadecimal SHA-256\<close>
  sv_model :: "string option"
  sv_embed :: "string \<Rightarrow> real list option"     \<comment> \<open>None: the call failed\<close>
  sv_distance :: "real list \<Rightarrow> real list \<Rightarrow> real"
  sv_forget_enabled :: bool
  sv_forget_similarity :: real
  sv_routed_kinds :: "string list"             \<comment> \<open>\<open>memory_quarantine_kinds\<close>\<close>
  sv_min_confidence :: real
  sv_half_life :: real

definition embed_text :: "store_env \<Rightarrow> string \<Rightarrow> (string \<times> real list) option" where
  "embed_text env text = (case sv_model env of
       None \<Rightarrow> None
     | Some model \<Rightarrow>
         (if model = [] then None
          else (case sv_embed env text of
              None \<Rightarrow> None | Some vec \<Rightarrow> Some (model @ ''@'' @ nat_str (length vec), vec))))"

definition active_model_key :: "store_env \<Rightarrow> string option" where
  "active_model_key env = map_option fst (embed_text env ''dims probe'')"

definition cosine :: "real list \<Rightarrow> real list \<Rightarrow> real" where
  "cosine a b =
     (if a = [] \<or> b = [] \<or> length a \<noteq> length b then 0
      else (let dot = sum_list (map (\<lambda>(x, y). x * y) (zip a b));
                na = sqrt (sum_list (map (\<lambda>x. x * x) a));
                nb = sqrt (sum_list (map (\<lambda>x. x * x) b))
            in if na = 0 \<or> nb = 0 then 0 else dot / (na * nb)))"

section \<open>The store\<close>

record embedding_row =
  er_ref :: nat
  er_key :: string
  er_vec :: "real list"

record tombstone =
  ts_id :: nat
  ts_user :: "string option"
  ts_scope :: string
  ts_project :: "string option"
  ts_conversation :: "string option"
  ts_kind :: string
  ts_source :: string
  ts_confidence :: real
  ts_importance :: int
  ts_age_days :: real
  ts_access_count :: nat
  ts_pinned :: bool
  ts_hash :: string
  ts_tokens :: "string list"
  ts_embedding :: "(string \<times> real list) option"
  ts_suppressed :: nat
  ts_last_suppressed :: "instant option"

record mem_store =
  ms_next :: nat                               \<comment> \<open>ids already allocated\<close>
  ms_rows :: "memory list"
  ms_embeddings :: "embedding_row list"
  ms_tombstones :: "tombstone list"
  ms_entities :: "(nat \<times> string) list"
  ms_links :: "entity_link list"

datatype mem_error =
    BadField | NeedsProject | NeedsProvenance | NeedsConversation | EmptyText | NoSuchMemory
  | AlreadySuperseded | SessionBroken

definition SCOPES :: "string list" where
  "SCOPES = [''global'', ''conversation'', ''project'']"

definition SOURCES :: "string list" where
  "SOURCES = [''extracted'', ''user_stated'', ''user_edited'', ''hitl_note'', ''inferred'']"

definition MACHINE_SOURCES :: "string list" where
  "MACHINE_SOURCES = [''extracted'', ''inferred'', ''hitl_note'']"

definition fields_valid :: "string \<Rightarrow> string \<Rightarrow> string \<Rightarrow> bool" where
  "fields_valid kind scope source \<longleftrightarrow> kind \<in> set MEMORY_KINDS \<and> scope \<in> set SCOPES \<and> source \<in> set SOURCES"

definition store_embedding :: "nat \<Rightarrow> (string \<times> real list) option \<Rightarrow> mem_store \<Rightarrow> mem_store" where
  "store_embedding ref embedded s = (case embedded of
       None \<Rightarrow> s
     | Some (key, vec) \<Rightarrow>
         (if vector_column (Some key) = None then s
          else if list_ex (\<lambda>e. er_ref e = ref \<and> er_key e = key) (ms_embeddings s)
          then s\<lparr>ms_embeddings := map (\<lambda>e. if er_ref e = ref \<and> er_key e = key then e\<lparr>er_vec := vec\<rparr> else e) (ms_embeddings s)\<rparr>
          else s\<lparr>ms_embeddings := row_add \<lparr>er_ref = ref, er_key = key, er_vec = vec\<rparr> (ms_embeddings s)\<rparr>))"

fun link_names :: "nat \<Rightarrow> string list \<Rightarrow> mem_store \<Rightarrow> mem_store option" where
  \<comment> \<open>None: two names of one entity insert the same link twice, and the failed flush leaves the session
      unusable for the commit that follows\<close>
  "link_names i [] s = Some s"
| "link_names i (raw # names) s =
     (let name = squeeze raw
      in if length name < 2 then link_names i names s
         else (let (e, s1) = (case find (\<lambda>en. py_lower (snd en) = py_lower name) (ms_entities s) of
                     Some en \<Rightarrow> (fst en, s)
                   | None \<Rightarrow> (ms_next s, s\<lparr>ms_next := ms_next s + 1, ms_entities := row_add (ms_next s, name) (ms_entities s)\<rparr>));
                   link = \<lparr>el_memory = i, el_entity = e\<rparr>
               in if link \<in> set (ms_links s1) then None
                  else link_names i names (s1\<lparr>ms_links := row_add link (ms_links s1)\<rparr>)))"

definition link_entities :: "nat \<Rightarrow> string list \<Rightarrow> mem_store \<Rightarrow> mem_store option" where
  "link_entities i names s = link_names i (take 3 names) s"

section \<open>Tombstones\<close>

definition normalized_hash :: "(string \<Rightarrow> string) \<Rightarrow> string \<Rightarrow> string" where
  "normalized_hash sha text = sha (py_lower (squeeze text))"

definition is_mark :: "char \<Rightarrow> bool" where
  "is_mark c \<longleftrightarrow> c \<in> {CHR ''.'', CHR ''-'', CHR ''_''}"

definition strip_marks :: "string \<Rightarrow> string" where
  "strip_marks s = rev (dropWhile is_mark (rev (dropWhile is_mark s)))"

definition distinctive_token_hashes :: "(string \<Rightarrow> string) \<Rightarrow> string \<Rightarrow> string list" where
  "distinctive_token_hashes sha text =
     (let toks = map strip_marks (py_words (map (\<lambda>c. if is_token_char c \<or> is_mark c then c else CHR '' '')
                  (py_lower (squeeze text))))
      in remdups (map (\<lambda>t. take 16 (sha t))
           (filter (\<lambda>t. 10 \<le> length t \<or> (6 \<le> length t \<and> list_ex (\<lambda>c. is_digit c \<or> is_mark c) t)) toks)))"

definition tombstone_near :: "store_env \<Rightarrow> string \<Rightarrow> real list \<Rightarrow> tombstone \<Rightarrow> bool" where
  \<comment> \<open>the hybrid gate over the nearest rows\<close>
  "tombstone_near env text vec t = (case ts_embedding t of
       None \<Rightarrow> False
     | Some (key, v) \<Rightarrow>
         (let cos = 1 - sv_distance env v vec
          in sv_forget_similarity env \<le> cos
             \<or> (7 / 10 \<le> cos \<and> set (distinctive_token_hashes (sv_sha env) text) \<inter> set (ts_tokens t) \<noteq> {})))"

definition matching_tombstones :: "store_env \<Rightarrow> string \<Rightarrow> string \<Rightarrow> string option \<Rightarrow> mem_store \<Rightarrow> tombstone list" where
  "matching_tombstones env text scope user s =
     (let own = filter (\<lambda>t. ts_scope t = scope \<and> ts_user t = user) (ms_tombstones s);
          exact = filter (\<lambda>t. ts_hash t = normalized_hash (sv_sha env) text) own
      in if exact \<noteq> [] then exact
         else (case (active_model_key env, embed_text env (squeeze text)) of
             (Some key, Some (_, vec)) \<Rightarrow>
               filter (tombstone_near env text vec)
                 (take 3 (sort_key (\<lambda>t. sv_distance env (snd (the (ts_embedding t))) vec)
                   (filter (\<lambda>t. map_option fst (ts_embedding t) = Some key) own)))
           | _ \<Rightarrow> []))"

definition unforget :: "nat \<Rightarrow> mem_store \<Rightarrow> bool \<times> mem_store" where
  "unforget i s = (row_get ts_id (ms_tombstones s) i \<noteq> None, s\<lparr>ms_tombstones := row_del ts_id i (ms_tombstones s)\<rparr>)"

definition check_suppressed :: "store_env \<Rightarrow> string \<Rightarrow> string \<Rightarrow> string option \<Rightarrow> mem_store \<Rightarrow> bool \<times> mem_store" where
  "check_suppressed env text scope user s =
     (let ms = matching_tombstones env text scope user s
      in if \<not> sv_forget_enabled env \<or> ms = [] then (False, s)
         else (True, s\<lparr>ms_tombstones := map (\<lambda>t. if ts_id t \<in> ts_id ` set ms
                 then t\<lparr>ts_suppressed := ts_suppressed t + 1, ts_last_suppressed := Some (sv_now env)\<rparr> else t) (ms_tombstones s)\<rparr>))"

definition unforget_by_assertion :: "store_env \<Rightarrow> string \<Rightarrow> string \<Rightarrow> string option \<Rightarrow> mem_store \<Rightarrow> mem_store" where
  "unforget_by_assertion env text scope user s =
     (if \<not> sv_forget_enabled env then s
      else foldl (\<lambda>s t. snd (unforget (ts_id t) s)) s (matching_tombstones env text scope user s))"

section \<open>Writes\<close>

record remember_request =
  rm_text :: string
  rm_kind :: string
  rm_scope :: string
  rm_source :: string
  rm_conversation :: "string option"
  rm_payload :: "pydict option"
  rm_entity_key :: "string option"
  rm_importance :: int
  rm_confidence :: real
  rm_valid_from :: "instant option"
  rm_run :: "string option"
  rm_step :: "string option"
  rm_supersedes :: "nat option"
  rm_via_tool :: bool
  rm_entities :: "string list"
  rm_project :: "string option"
  rm_user :: "string option"

definition initial_status :: "store_env \<Rightarrow> remember_request \<Rightarrow> string \<times> string option" where
  "initial_status env rq =
     (if rm_kind rq = ''instruction'' \<and> (rm_source rq \<in> {''extracted'', ''inferred''} \<or> rm_via_tool rq)
      then (''quarantined'', None)
      else if rm_source rq = ''inferred''
      then (''quarantined'', Some ''inferred by reflection -- review before it is injected'')
      else if rm_source rq \<in> set MACHINE_SOURCES \<and> rm_kind rq \<in> set (sv_routed_kinds env)
      then (''quarantined'', Some ''extraction learner: kind routed through review'')
      else (''active'', None))"

definition new_memory :: "store_env \<Rightarrow> nat \<Rightarrow> string option \<Rightarrow> remember_request \<Rightarrow> memory" where
  "new_memory env i user rq =
     (case initial_status env rq of (status, note) \<Rightarrow>
       \<lparr>me_id = i, me_user = user, me_scope = rm_scope rq, me_conversation = rm_conversation rq,
        me_project = (if rm_scope rq = ''project'' then rm_project rq else None), me_kind = rm_kind rq,
        me_text = squeeze (rm_text rq), me_payload = rm_payload rq, me_entity_key = rm_entity_key rq,
        me_importance = max 1 (min 10 (rm_importance rq)), me_confidence = max 0 (min 1 (rm_confidence rq)),
        me_source = rm_source rq, me_status = status,
        me_valid_from = (case rm_valid_from rq of None \<Rightarrow> sv_now env | Some t \<Rightarrow> t), me_valid_to = None,
        me_recorded = sv_now env, me_superseded_at = None, me_supersedes = rm_supersedes rq,
        me_superseded_by = None, me_run = rm_run rq, me_step = rm_step rq, me_accessed = sv_now env,
        me_access_count = 0, me_pinned = False, me_half_life = None, me_note = note\<rparr>)"

definition remember_error :: "remember_request \<Rightarrow> mem_error option" where
  "remember_error rq =
     (if \<not> fields_valid (rm_kind rq) (rm_scope rq) (rm_source rq) then Some BadField
      else if rm_scope rq = ''project'' \<and> \<not> opt_truthy (rm_project rq) then Some NeedsProject
      else if rm_source rq \<in> set MACHINE_SOURCES \<and> rm_run rq = None
              \<and> \<not> (rm_source rq = ''inferred''
                   \<and> (case rm_payload rq of None \<Rightarrow> False | Some d \<Rightarrow> truthy (dict_get d ''evidence'')))
      then Some NeedsProvenance
      else if rm_scope rq = ''conversation'' \<and> rm_conversation rq = None then Some NeedsConversation
      else if squeeze (rm_text rq) = [] then Some EmptyText
      else None)"

definition remember :: "store_env \<Rightarrow> remember_request \<Rightarrow> mem_store \<Rightarrow> mem_error + memory \<times> mem_store" where
  "remember env rq s = (case remember_error rq of
       Some e \<Rightarrow> Inl e
     | None \<Rightarrow>
         (let user = (case rm_user rq of None \<Rightarrow> sv_user env | Some u \<Rightarrow> Some u);
              s1 = (if rm_source rq = ''user_stated''
                    then unforget_by_assertion env (squeeze (rm_text rq)) (rm_scope rq) user s else s);
              row = new_memory env (ms_next s1) user rq;
              s2 = store_embedding (me_id row) (embed_text env (me_text row))
                     (s1\<lparr>ms_next := ms_next s1 + 1, ms_rows := row_add row (ms_rows s1)\<rparr>)
          in case link_entities (me_id row) (rm_entities rq) s2 of
               None \<Rightarrow> Inl SessionBroken
             | Some s3 \<Rightarrow> Inr (row, s3)))"

record supersede_request =
  sp_text :: string
  sp_source :: string
  sp_run :: "string option"
  sp_step :: "string option"
  sp_payload :: "pydict option"
  sp_importance :: "int option"
  sp_confidence :: "real option"
  sp_valid_from :: "instant option"

definition replacement :: "store_env \<Rightarrow> nat \<Rightarrow> supersede_request \<Rightarrow> memory \<Rightarrow> memory" where
  "replacement env i rq old =
     \<lparr>me_id = i, me_user = None, me_scope = me_scope old, me_conversation = me_conversation old,
      me_project = None, me_kind = me_kind old, me_text = squeeze (sp_text rq),
      me_payload = (case sp_payload rq of None \<Rightarrow> me_payload old | Some d \<Rightarrow> Some d),
      me_entity_key = me_entity_key old,
      me_importance = (case sp_importance rq of None \<Rightarrow> me_importance old | Some n \<Rightarrow> n),
      me_confidence = (case sp_confidence rq of None \<Rightarrow> me_confidence old | Some c \<Rightarrow> c),
      me_source = sp_source rq,
      me_status = (if me_status old \<in> {''active'', ''expired''} then ''active'' else me_status old),
      me_valid_from = (case sp_valid_from rq of None \<Rightarrow> sv_now env | Some t \<Rightarrow> t), me_valid_to = None,
      me_recorded = sv_now env, me_superseded_at = None, me_supersedes = Some (me_id old),
      me_superseded_by = None, me_run = sp_run rq, me_step = sp_step rq, me_accessed = sv_now env,
      me_access_count = 0, me_pinned = me_pinned old, me_half_life = me_half_life old, me_note = None\<rparr>"

definition close_old :: "instant \<Rightarrow> memory \<Rightarrow> memory \<Rightarrow> memory" where
  "close_old now new m = m\<lparr>me_superseded_at := Some now, me_superseded_by := Some (me_id new),
     me_valid_to := Some (me_valid_from new), me_status := ''superseded''\<rparr>"

definition supersede :: "store_env \<Rightarrow> nat \<Rightarrow> supersede_request \<Rightarrow> mem_store \<Rightarrow> mem_error + memory \<times> mem_store" where
  "supersede env old_id rq s = (case row_get me_id (ms_rows s) old_id of
       None \<Rightarrow> Inl NoSuchMemory
     | Some old \<Rightarrow>
         (if me_superseded_at old \<noteq> None then Inl AlreadySuperseded
          else if \<not> fields_valid (me_kind old) (me_scope old) (sp_source rq) then Inl BadField
          else if sp_source rq \<in> set MACHINE_SOURCES \<and> sp_run rq = None then Inl NeedsProvenance
          else (let new = replacement env (ms_next s) rq old
                in Inr (new, store_embedding (me_id new) (embed_text env (squeeze (sp_text rq)))
                     (s\<lparr>ms_next := ms_next s + 1,
                        ms_rows := row_upd me_id old_id (close_old (sv_now env) new) (row_add new (ms_rows s))\<rparr>)))))"

definition forget :: "instant \<Rightarrow> nat \<Rightarrow> mem_store \<Rightarrow> bool \<times> mem_store" where
  "forget now i s = (case row_get me_id (ms_rows s) i of
       None \<Rightarrow> (False, s)
     | Some m \<Rightarrow>
         (if me_status m \<in> {''active'', ''quarantined''}
          then (True, s\<lparr>ms_rows := row_upd me_id i (\<lambda>m. m\<lparr>me_status := ''expired'', me_valid_to := Some now\<rparr>) (ms_rows s)\<rparr>)
          else (False, s)))"

definition unlink :: "nat \<Rightarrow> memory \<Rightarrow> memory" where
  \<comment> \<open>the link fields are cleared when the row they name goes\<close>
  "unlink i m = m\<lparr>me_supersedes := (if me_supersedes m = Some i then None else me_supersedes m),
     me_superseded_by := (if me_superseded_by m = Some i then None else me_superseded_by m)\<rparr>"

definition hard_delete :: "nat \<Rightarrow> mem_store \<Rightarrow> bool \<times> mem_store" where
  "hard_delete i s = (case row_get me_id (ms_rows s) i of
       None \<Rightarrow> (False, s)
     | Some m \<Rightarrow>
         (True, s\<lparr>ms_rows := map (unlink i) (row_del me_id i (ms_rows s)),
                  ms_embeddings := filter (\<lambda>e. er_ref e \<noteq> i) (ms_embeddings s),
                  ms_links := filter (\<lambda>l. el_memory l \<noteq> i) (ms_links s)\<rparr>))"

definition tombstone_of :: "store_env \<Rightarrow> mem_store \<Rightarrow> memory \<Rightarrow> tombstone" where
  "tombstone_of env s m =
     \<lparr>ts_id = ms_next s, ts_user = me_user m, ts_scope = me_scope m, ts_project = me_project m,
      ts_conversation = me_conversation m, ts_kind = me_kind m, ts_source = me_source m,
      ts_confidence = me_confidence m, ts_importance = me_importance m,
      ts_age_days = max (real_of_int (sv_now env - me_recorded m) / 1000000 / 86400) 0,
      ts_access_count = me_access_count m, ts_pinned = me_pinned m,
      ts_hash = normalized_hash (sv_sha env) (me_text m),
      ts_tokens = distinctive_token_hashes (sv_sha env) (me_text m),
      ts_embedding = (case active_model_key env of
          None \<Rightarrow> None
        | Some key \<Rightarrow> map_option (\<lambda>e. (er_key e, er_vec e)) (find (\<lambda>e. er_ref e = me_id m \<and> er_key e = key) (ms_embeddings s))),
      ts_suppressed = 0, ts_last_suppressed = None\<rparr>"

definition tombstone_forget :: "store_env \<Rightarrow> nat \<Rightarrow> mem_store \<Rightarrow> bool \<times> mem_store" where
  "tombstone_forget env i s = (case row_get me_id (ms_rows s) i of
       None \<Rightarrow> (False, s)
     | Some m \<Rightarrow> hard_delete i (s\<lparr>ms_next := ms_next s + 1, ms_tombstones := row_add (tombstone_of env s m) (ms_tombstones s)\<rparr>))"

section \<open>The admission gate\<close>

record candidate =
  ca_text :: string
  ca_kind :: string
  ca_scope :: string
  ca_conversation :: "string option"
  ca_payload :: "pydict option"
  ca_entity_key :: "string option"
  ca_importance :: int
  ca_confidence :: real
  ca_entities :: "string list"

definition GATE_MIN_CHARS :: nat where "GATE_MIN_CHARS = 8"

definition GATE_MAX_CHARS :: nat where "GATE_MAX_CHARS = 600"

definition GATE_DUP_COSINE :: real where "GATE_DUP_COSINE = 19 / 20"

definition CITED_WORDS :: "string list" where
  "CITED_WORDS = [''episode'', ''memory'', ''fact'', ''entity'', ''preference'', ''instruction'']"

definition take_hex8 :: "string \<Rightarrow> string option" where
  \<comment> \<open>the rest after eight hexadecimal digits, in either case\<close>
  "take_hex8 s = (let d = take 8 s in
     if length d = 8 \<and> list_all (\<lambda>c. is_digit c \<or> (let n = of_char (lower_char c) :: nat in 97 \<le> n \<and> n \<le> 102)) d
     then Some (drop 8 s) else None)"

definition is_cite_gap :: "char \<Rightarrow> bool" where
  "is_cite_gap c \<longleftrightarrow> c = CHR '','' \<or> c = CHR '';'' \<or> is_space c"

fun cite_ids :: "nat \<Rightarrow> string \<Rightarrow> string" where
  \<comment> \<open>the further ids of a citation; fuel: the length of the text\<close>
  "cite_ids 0 s = s"
| "cite_ids (Suc n) s = (case s of
       [] \<Rightarrow> s
     | c # cs \<Rightarrow> if \<not> is_cite_gap c then s
                else (case take_hex8 (dropWhile is_cite_gap cs) of None \<Rightarrow> s | Some r \<Rightarrow> cite_ids n r))"

definition match_citation :: "string \<Rightarrow> string option" where
  \<comment> \<open>\<open>_CITATION_RE\<close> at the start of the text: what follows the match\<close>
  "match_citation s = (case dropWhile is_space s of
       [] \<Rightarrow> None
     | b # t \<Rightarrow>
         (if b \<noteq> CHR ''('' \<and> b \<noteq> CHR ''['' then None
          else (case find (\<lambda>w. starts_with (py_lower t) w) CITED_WORDS of
              None \<Rightarrow> None
            | Some w \<Rightarrow>
                (let u = drop (length w) t;
                     v = (case u of c # cs \<Rightarrow> if lower_char c = CHR ''s'' then cs else u | [] \<Rightarrow> u)
                 in case v of
                      [] \<Rightarrow> None
                    | c # cs \<Rightarrow>
                        (if \<not> is_space c then None
                         else (case take_hex8 (dropWhile is_space cs) of
                             None \<Rightarrow> None
                           | Some r \<Rightarrow> (case cite_ids (length r) r of
                                 c # rest \<Rightarrow> if c = CHR '')'' \<or> c = CHR '']'' then Some rest else None
                               | [] \<Rightarrow> None)))))))"

fun remove_citations :: "nat \<Rightarrow> string \<Rightarrow> string" where
  "remove_citations 0 s = s"
| "remove_citations (Suc n) s = (case s of
       [] \<Rightarrow> []
     | c # cs \<Rightarrow> (case match_citation s of Some rest \<Rightarrow> remove_citations n rest | None \<Rightarrow> c # remove_citations n cs))"

definition scrub_citation_ids :: "string \<Rightarrow> string" where
  "scrub_citation_ids text = py_strip (remove_citations (length text) text)"

definition scope_for :: "string \<Rightarrow> string \<Rightarrow> string option \<Rightarrow> recall_scope" where
  "scope_for scope kind conversation =
     \<lparr>rs_scopes = [scope], rs_kinds = [kind], rs_conversation = conversation, rs_project = None, rs_as_of = None\<rparr>"

definition recall_of :: "recall_env \<Rightarrow> store_env \<Rightarrow> candidate \<Rightarrow> nat \<Rightarrow> mem_store \<Rightarrow> memory list" where
  \<comment> \<open>the hybrid neighbours, nothing bumped\<close>
  "recall_of renv env c k s =
     map rh_memory (recall (renv\<lparr>re_links := ms_links s\<rparr>) (scope_for (ca_scope c) (ca_kind c) (ca_conversation c))
       (sv_now env) k 0 (ca_text c) (ms_rows s))"

definition near_duplicate :: "recall_env \<Rightarrow> store_env \<Rightarrow> candidate \<Rightarrow> mem_store \<Rightarrow> nat option" where
  "near_duplicate renv env c s = (case recall_of renv env c 1 s of
       [] \<Rightarrow> None
     | m # _ \<Rightarrow>
         (if py_lower (me_text m) = py_lower (ca_text c) then Some (me_id m)
          else (case (embed_text env (ca_text c), active_model_key env) of
              (Some (_, qvec), Some key) \<Rightarrow>
                (case find (\<lambda>e. er_ref e = me_id m \<and> er_key e = key) (ms_embeddings s) of
                   None \<Rightarrow> None
                 | Some e \<Rightarrow> if GATE_DUP_COSINE \<le> cosine qvec (er_vec e) then Some (me_id m) else None)
            | _ \<Rightarrow> None)))"

datatype drop_reason = InvalidKind | LowConfidence | BadLength | BatchDuplicate | NearDuplicate nat

definition gate_one :: "recall_env \<Rightarrow> store_env \<Rightarrow> mem_store \<Rightarrow> string list \<Rightarrow> candidate \<Rightarrow> drop_reason option" where
  "gate_one renv env s seen c =
     (if ca_kind c \<notin> set MEMORY_KINDS \<or> ca_scope c \<notin> set SCOPES then Some InvalidKind
      else if ca_confidence c < sv_min_confidence env then Some LowConfidence
      else if \<not> (GATE_MIN_CHARS \<le> length (ca_text c) \<and> length (ca_text c) \<le> GATE_MAX_CHARS) then Some BadLength
      else if py_lower (ca_text c) \<in> set seen then Some BatchDuplicate
      else map_option NearDuplicate (near_duplicate renv env c s))"

fun gate_loop ::
    "recall_env \<Rightarrow> store_env \<Rightarrow> mem_store \<Rightarrow> string list \<Rightarrow> candidate list \<Rightarrow> candidate list \<times> (candidate \<times> drop_reason) list" where
  "gate_loop renv env s seen [] = ([], [])"
| "gate_loop renv env s seen (c # cs) =
     (let c' = c\<lparr>ca_text := scrub_citation_ids (squeeze (ca_text c))\<rparr>
      in case gate_one renv env s seen c' of
           Some r \<Rightarrow> (case gate_loop renv env s seen cs of (acc, dropped) \<Rightarrow> (acc, (c', r) # dropped))
         | None \<Rightarrow> (case gate_loop renv env s (py_lower (ca_text c') # seen) cs of (acc, dropped) \<Rightarrow> (c' # acc, dropped)))"

definition gate_candidates ::
    "recall_env \<Rightarrow> store_env \<Rightarrow> candidate list \<Rightarrow> mem_store \<Rightarrow> candidate list \<times> (candidate \<times> drop_reason) list" where
  "gate_candidates renv env cs s = gate_loop renv env s [] cs"

section \<open>Reconciliation\<close>

definition RECONCILE_NEIGHBORS :: nat where "RECONCILE_NEIGHBORS = 4"

type_synonym judge = "candidate \<Rightarrow> memory list \<Rightarrow> memory \<Rightarrow> string"

definition extracted :: "candidate \<Rightarrow> string \<Rightarrow> remember_request" where
  "extracted c run =
     \<lparr>rm_text = ca_text c, rm_kind = ca_kind c, rm_scope = ca_scope c, rm_source = ''extracted'',
      rm_conversation = ca_conversation c, rm_payload = (if ca_kind c = ''instruction'' then None else ca_payload c),
      rm_entity_key = ca_entity_key c, rm_importance = ca_importance c, rm_confidence = ca_confidence c,
      rm_valid_from = None, rm_run = Some run, rm_step = None, rm_supersedes = None, rm_via_tool = False,
      rm_entities = (if ca_kind c = ''instruction'' then [] else ca_entities c), rm_project = None, rm_user = None\<rparr>"

definition re_extracted :: "candidate \<Rightarrow> string \<Rightarrow> supersede_request" where
  "re_extracted c run =
     \<lparr>sp_text = ca_text c, sp_source = ''extracted'', sp_run = Some run, sp_step = None, sp_payload = None,
      sp_importance = Some (ca_importance c), sp_confidence = Some (ca_confidence c), sp_valid_from = None\<rparr>"

definition newest :: "memory list \<Rightarrow> memory option" where
  \<comment> \<open>\<open>max(..., key=valid_from)\<close>, the first of equals\<close>
  "newest ms = (case ms of [] \<Rightarrow> None
     | m # rest \<Rightarrow> Some (foldl (\<lambda>b x. if me_valid_from b < me_valid_from x then x else b) m rest))"

definition replace_or_keep ::
    "store_env \<Rightarrow> candidate \<Rightarrow> string \<Rightarrow> memory \<Rightarrow> mem_store \<Rightarrow> mem_error + memory option \<times> mem_store" where
  "replace_or_keep env c run target s =
     (if py_lower (me_text target) = py_lower (ca_text c) then Inr (None, s)
      else map_sum id (\<lambda>(m, s'). (Some m, s')) (supersede env (me_id target) (re_extracted c run) s))"

definition reconcile_and_write ::
    "recall_env \<Rightarrow> store_env \<Rightarrow> judge \<Rightarrow> candidate \<Rightarrow> string \<Rightarrow> mem_store \<Rightarrow> mem_error + memory option \<times> mem_store" where
  "reconcile_and_write renv env judge c run s0 =
     (case check_suppressed env (ca_text c) (ca_scope c) (sv_user env) s0 of
        (True, s) \<Rightarrow> Inr (None, s)
      | (False, s) \<Rightarrow>
          (let add = map_sum id (\<lambda>(m, s'). (Some m, s')) (remember env (extracted c run) s);
               keyed = (if opt_truthy (ca_entity_key c)
                        then find (\<lambda>m. me_entity_key m = ca_entity_key c \<and> me_status m = ''active'' \<and> me_scope m = ca_scope c) (ms_rows s)
                        else None)
           in if ca_kind c = ''instruction'' then add
              else (case keyed of
                  Some m \<Rightarrow> replace_or_keep env c run m s
                | None \<Rightarrow>
                    (let neighbors = recall_of renv env c RECONCILE_NEIGHBORS s
                     in case newest (filter (\<lambda>m. judge c neighbors m = ''same'') neighbors) of
                          Some m \<Rightarrow> replace_or_keep env c run m s
                        | None \<Rightarrow> add))))"

fun write_accepted ::
    "recall_env \<Rightarrow> store_env \<Rightarrow> judge \<Rightarrow> string \<Rightarrow> candidate list \<Rightarrow> mem_store \<Rightarrow> memory list \<times> mem_store" where
  \<comment> \<open>the loop of \<open>extract_from_run\<close>: a failing candidate loses only itself\<close>
  "write_accepted renv env judge run [] s = ([], s)"
| "write_accepted renv env judge run (c # cs) s =
     (case reconcile_and_write renv env judge c run s of
        Inl e \<Rightarrow> write_accepted renv env judge run cs s
      | Inr (m, s') \<Rightarrow> (case write_accepted renv env judge run cs s' of
            (ms, s'') \<Rightarrow> (case m of None \<Rightarrow> ms | Some x \<Rightarrow> x # ms, s'')))"

definition extract_from_run ::
    "recall_env \<Rightarrow> store_env \<Rightarrow> judge \<Rightarrow> string \<Rightarrow> candidate list \<Rightarrow> mem_store \<Rightarrow> memory list \<times> mem_store" where
  \<comment> \<open>of a completed run, with memory and extraction on, from the candidates the model proposed\<close>
  "extract_from_run renv env judge run proposed s =
     write_accepted renv env judge run (fst (gate_candidates renv env proposed s)) s"

section \<open>Endpoints\<close>

datatype http_reply = Http404 | Http409 | Http422 | Http500

record memory_patch =
  mp_pinned :: "bool option"
  mp_text :: "string option"
  mp_importance :: "int option"
  mp_approve :: "bool option"          \<comment> \<open>the review decision\<close>
  mp_note :: "string option"

definition set_pinned :: "nat \<Rightarrow> bool option \<Rightarrow> mem_store \<Rightarrow> mem_store" where
  "set_pinned i p s = (case p of None \<Rightarrow> s
     | Some b \<Rightarrow> s\<lparr>ms_rows := row_upd me_id i (\<lambda>m. m\<lparr>me_pinned := b\<rparr>) (ms_rows s)\<rparr>)"

definition edited :: "string \<Rightarrow> int option \<Rightarrow> supersede_request" where
  "edited text importance =
     \<lparr>sp_text = text, sp_source = ''user_edited'', sp_run = None, sp_step = None, sp_payload = None,
      sp_importance = importance, sp_confidence = None, sp_valid_from = None\<rparr>"

definition review :: "instant \<Rightarrow> bool \<Rightarrow> string option \<Rightarrow> memory \<Rightarrow> memory" where
  "review now approve note m =
     m\<lparr>me_status := (if approve then ''active'' else ''rejected''), me_note := note,
       me_valid_to := (if approve then me_valid_to m else Some now)\<rparr>"

definition patch_row :: "instant \<Rightarrow> memory_patch \<Rightarrow> memory \<Rightarrow> memory" where
  "patch_row now body m =
     (let m1 = (case mp_approve body of None \<Rightarrow> m | Some a \<Rightarrow> review now a (mp_note body) m);
          m2 = (case mp_pinned body of None \<Rightarrow> m1 | Some b \<Rightarrow> m1\<lparr>me_pinned := b\<rparr>)
      in (case mp_importance body of None \<Rightarrow> m2 | Some n \<Rightarrow> m2\<lparr>me_importance := n\<rparr>))"

definition patch_fields :: "store_env \<Rightarrow> nat \<Rightarrow> memory_patch \<Rightarrow> memory \<Rightarrow> mem_store \<Rightarrow> http_reply + mem_store" where
  "patch_fields env i body m s =
     (if mp_approve body \<noteq> None \<and> me_status m \<noteq> ''quarantined'' then Inl Http409
      else Inr (s\<lparr>ms_rows := row_upd me_id i (patch_row (sv_now env) body) (ms_rows s)\<rparr>))"

definition patch_memory ::
    "bool \<Rightarrow> principal option \<Rightarrow> store_env \<Rightarrow> nat \<Rightarrow> memory_patch \<Rightarrow> mem_store \<Rightarrow> http_reply + mem_store" where
  "patch_memory enabled p env i body s = (case row_get me_id (ms_rows s) i of
       None \<Rightarrow> Inl Http404
     | Some m \<Rightarrow>
         (if \<not> builtin_may_see enabled (me_user m) p then Inl Http404
          else (case mp_text body of
              Some text \<Rightarrow>
                (if text \<noteq> me_text m
                 then (case supersede env i (edited text (mp_importance body)) s of
                     Inl e \<Rightarrow> Inl Http409 | Inr (new, s') \<Rightarrow> Inr (set_pinned (me_id new) (mp_pinned body) s'))
                 else patch_fields env i body m s)
            | None \<Rightarrow> patch_fields env i body m s)))"

definition create_memory ::
    "store_env \<Rightarrow> remember_request \<Rightarrow> bool \<Rightarrow> mem_store \<Rightarrow> http_reply + mem_store" where
  \<comment> \<open>the body is a user's: its source, confidence and provenance are fixed\<close>
  "create_memory env body pinned s =
     (case remember env (body\<lparr>rm_source := ''user_stated'', rm_confidence := 1, rm_valid_from := None, rm_run := None,
            rm_step := None, rm_supersedes := None, rm_via_tool := False, rm_entities := [], rm_project := None,
            rm_user := None\<rparr>) s of
        Inl e \<Rightarrow> Inl (if e = SessionBroken then Http500 else Http422)
      | Inr (m, s') \<Rightarrow> Inr (if pinned then set_pinned (me_id m) (Some True) s' else s'))"

definition delete_memory :: "store_env \<Rightarrow> bool \<Rightarrow> nat \<Rightarrow> mem_store \<Rightarrow> http_reply + mem_store" where
  \<comment> \<open>\<open>forget\<close> or \<open>erase\<close>\<close>
  "delete_memory env forgets i s =
     (if forgets \<and> \<not> sv_forget_enabled env then Inl Http422
      else (case (if forgets then tombstone_forget env i s else hard_delete i s) of
          (found, s') \<Rightarrow> if found then Inr s' else Inl Http404))"

definition unforget_one :: "bool \<Rightarrow> principal option \<Rightarrow> nat \<Rightarrow> mem_store \<Rightarrow> http_reply + mem_store" where
  "unforget_one enabled p i s = (case row_get ts_id (ms_tombstones s) i of
       None \<Rightarrow> Inl Http404
     | Some t \<Rightarrow> if \<not> builtin_may_see enabled (ts_user t) p then Inl Http404 else Inr (snd (unforget i s)))"

definition purge_memories :: "mem_store \<Rightarrow> mem_store" where
  "purge_memories s = s\<lparr>ms_rows := [], ms_embeddings := [], ms_tombstones := [], ms_links := []\<rparr>"

section \<open>Sweeps\<close>

definition DECAY_EFFECTIVE_FLOOR :: real where "DECAY_EFFECTIVE_FLOOR = 1"

definition effective_importance :: "instant \<Rightarrow> real \<Rightarrow> memory \<Rightarrow> real" where
  "effective_importance now default_hl m =
     (let hl = (case me_half_life m of None \<Rightarrow> default_hl | Some d \<Rightarrow> if d = 0 then default_hl else d)
      in real_of_int (me_importance m)
         * exp (- ln 2 / hl * max (real_of_int (now - me_accessed m) / 1000000 / 86400) 0))"

definition decays :: "instant \<Rightarrow> real \<Rightarrow> memory \<Rightarrow> bool" where
  "decays now default_hl m \<longleftrightarrow> me_status m = ''active'' \<and> \<not> me_pinned m
     \<and> effective_importance now default_hl m < DECAY_EFFECTIVE_FLOOR"

definition expire_row :: "instant \<Rightarrow> memory \<Rightarrow> memory" where
  "expire_row now m = m\<lparr>me_status := ''expired'',
     me_valid_to := (case me_valid_to m of None \<Rightarrow> Some now | Some t \<Rightarrow> Some t)\<rparr>"

definition decay_sweep :: "bool \<Rightarrow> store_env \<Rightarrow> mem_store \<Rightarrow> mem_store" where
  "decay_sweep enabled env s =
     (if \<not> enabled then s
      else s\<lparr>ms_rows := map (\<lambda>m. if decays (sv_now env) (sv_half_life env) m then expire_row (sv_now env) m else m) (ms_rows s)\<rparr>)"

definition newer_rival :: "memory \<Rightarrow> memory \<Rightarrow> bool" where
  \<comment> \<open>ranks before: same group, later validity, then later recording, then the order of the table\<close>
  "newer_rival m r \<longleftrightarrow> me_status r = ''active'' \<and> me_entity_key r = me_entity_key m \<and> me_scope r = me_scope m \<and> me_id r \<noteq> me_id m
     \<and> (me_valid_from m < me_valid_from r \<or> (me_valid_from r = me_valid_from m
         \<and> (me_recorded m < me_recorded r \<or> (me_recorded r = me_recorded m \<and> me_id r < me_id m))))"

definition contradiction_sweep :: "bool \<Rightarrow> mem_store \<Rightarrow> mem_store" where
  "contradiction_sweep enabled s =
     (if \<not> enabled then s
      else s\<lparr>ms_rows := map (\<lambda>m. if me_status m = ''active'' \<and> me_entity_key m \<noteq> None \<and> list_ex (newer_rival m) (ms_rows s)
             then m\<lparr>me_status := ''quarantined'',
                    me_note := Some ''contradiction sweep: older duplicate of an active entity_key''\<rparr>
             else m) (ms_rows s)\<rparr>)"

end
