(* ===== verification/Memory_History.thy ===== *)
theory Memory_History
  imports Memory_Store
begin

text \<open>
  Histories of the semantic store: every write path of \<open>memory/store.py\<close>, \<open>memory/extract.py\<close>,
  \<open>memory/lifecycle.py\<close> and \<open>api/memories.py\<close> as an event. The locale names what an invariant of the
  rows has to survive; its interpretations give the two-clock history of corrections and the
  immutability of what was recorded.
\<close>

section \<open>Histories of the store\<close>

datatype mem_event =
    Remembers store_env remember_request
  | Extracts recall_env store_env judge string "candidate list"
  | Supersedes store_env nat supersede_request
  | Forgets instant nat
  | Deletes store_env bool nat
  | Patches bool "principal option" store_env nat memory_patch
  | Creates store_env remember_request bool
  | Unforgets bool "principal option" nat
  | Purges
  | Decays bool store_env
  | Sweeps bool
  | Recalled instant recall_scope "recall_hit list"

definition after_failed_write :: "store_env \<Rightarrow> remember_request \<Rightarrow> mem_error \<Rightarrow> mem_store \<Rightarrow> mem_store" where
  \<comment> \<open>the tombstones a user's statement lifts go in a session of their own, before the write that may break\<close>
  "after_failed_write env rq e s =
     (if e = SessionBroken \<and> rm_source rq = ''user_stated''
      then unforget_by_assertion env (squeeze (rm_text rq)) (rm_scope rq)
             (case rm_user rq of None \<Rightarrow> sv_user env | Some u \<Rightarrow> Some u) s
      else s)"

fun mem_step :: "mem_store \<Rightarrow> mem_event \<Rightarrow> mem_store" where
  \<comment> \<open>a failed operation changes no row\<close>
  "mem_step s (Remembers env rq) = (case remember env rq s of Inl e \<Rightarrow> after_failed_write env rq e s | Inr (m, s') \<Rightarrow> s')"
| "mem_step s (Extracts renv env judge run cs) = snd (extract_from_run renv env judge run cs s)"
| "mem_step s (Supersedes env i rq) = (case supersede env i rq s of Inl e \<Rightarrow> s | Inr (m, s') \<Rightarrow> s')"
| "mem_step s (Forgets now i) = snd (forget now i s)"
| "mem_step s (Deletes env f i) = (case delete_memory env f i s of Inl e \<Rightarrow> s | Inr s' \<Rightarrow> s')"
| "mem_step s (Patches en p env i body) = (case patch_memory en p env i body s of Inl e \<Rightarrow> s | Inr s' \<Rightarrow> s')"
| "mem_step s (Creates env body pinned) = (case create_memory env body pinned s of Inl e \<Rightarrow> s | Inr s' \<Rightarrow> s')"
| "mem_step s (Unforgets en p i) = (case unforget_one en p i s of Inl e \<Rightarrow> s | Inr s' \<Rightarrow> s')"
| "mem_step s Purges = purge_memories s"
| "mem_step s (Decays on env) = decay_sweep on env s"
| "mem_step s (Sweeps on) = contradiction_sweep on s"
| "mem_step s (Recalled now rs hits) = s\<lparr>ms_rows := bump_access now rs hits (ms_rows s)\<rparr>"

definition empty_store :: mem_store where
  "empty_store = \<lparr>ms_next = 0, ms_rows = [], ms_embeddings = [], ms_tombstones = [], ms_entities = [], ms_links = []\<rparr>"

text \<open>
  The steps a history is made of: an invariant of a fresh row, of a replacement with the closing of
  what it replaces, of a change of one row's fields and of the removals is an invariant of them all.
\<close>

lemma store_embedding_rest [simp]:
  "ms_rows (store_embedding i e s) = ms_rows s" "ms_tombstones (store_embedding i e s) = ms_tombstones s"
  "ms_next (store_embedding i e s) = ms_next s"
  by (simp_all add: store_embedding_def split: option.splits prod.splits)

lemma link_names_rest:
  "link_names i names s = Some s' \<Longrightarrow> ms_rows s' = ms_rows s \<and> ms_tombstones s' = ms_tombstones s \<and> ms_next s \<le> ms_next s'"
proof (induction i names s rule: link_names.induct)
  case (2 i raw names s)
  then show ?case by (fastforce simp: Let_def split: if_splits option.splits)
qed simp

lemma unforget_rest [simp]: "ms_rows (snd (unforget i s)) = ms_rows s" "ms_next (snd (unforget i s)) = ms_next s"
  by (simp_all add: unforget_def)

lemma unforget_all_rest: "ms_rows (foldl (\<lambda>s t. snd (unforget (ts_id t) s)) s ts) = ms_rows s
    \<and> ms_next (foldl (\<lambda>s t. snd (unforget (ts_id t) s)) s ts) = ms_next s"
  by (induction ts arbitrary: s) auto

lemma assertion_rest [simp]:
  "ms_rows (unforget_by_assertion env t sc u s) = ms_rows s" "ms_next (unforget_by_assertion env t sc u s) = ms_next s"
  by (simp_all add: unforget_by_assertion_def unforget_all_rest)

lemma failed_write_rest [simp]:
  "ms_rows (after_failed_write env rq e s) = ms_rows s" "ms_next (after_failed_write env rq e s) = ms_next s"
  by (simp_all add: after_failed_write_def)

lemma suppressed_rest:
  "check_suppressed env t sc u s = (b, s') \<Longrightarrow> ms_rows s' = ms_rows s \<and> ms_next s' = ms_next s"
  by (auto simp: check_suppressed_def Let_def split: if_splits)

lemma remember_rows:
  assumes "remember env rq s = Inr (m, s')"
  shows "m = new_memory env (ms_next s) (case rm_user rq of None \<Rightarrow> sv_user env | Some u \<Rightarrow> Some u) rq
    \<and> ms_rows s' = ms_rows s @ [m] \<and> ms_next s < ms_next s'"
  using assms by (auto simp: remember_def Let_def link_entities_def row_add_def
      split: option.splits if_splits dest!: link_names_rest)

lemma supersede_rows:
  assumes "supersede env i rq s = Inr (new, s')"
  shows "\<exists>old. row_get me_id (ms_rows s) i = Some old \<and> me_superseded_at old = None \<and> new = replacement env (ms_next s) rq old
    \<and> ms_rows s' = row_upd me_id i (close_old (sv_now env) new) (ms_rows s @ [new]) \<and> ms_next s' = ms_next s + 1
    \<and> ms_tombstones s' = ms_tombstones s"
  using assms by (auto simp: supersede_def Let_def row_add_def split: option.splits if_splits)

definition touches :: "memory \<Rightarrow> memory \<Rightarrow> bool" where
  \<comment> \<open>what an operation on one row may change: not its content, and a closed row stays closed\<close>
  "touches m m' \<longleftrightarrow> me_id m' = me_id m \<and> me_text m' = me_text m \<and> me_kind m' = me_kind m \<and> me_scope m' = me_scope m
     \<and> me_entity_key m' = me_entity_key m \<and> me_recorded m' = me_recorded m \<and> me_valid_from m' = me_valid_from m
     \<and> me_supersedes m' = me_supersedes m \<and> me_superseded_by m' = me_superseded_by m
     \<and> me_superseded_at m' = me_superseded_at m
     \<and> (if me_superseded_at m = None then me_status m' \<noteq> ''superseded''
        else me_status m' = me_status m \<and> me_valid_to m' = me_valid_to m)"

definition open_row :: "nat \<Rightarrow> memory \<Rightarrow> bool" where
  "open_row n m \<longleftrightarrow> me_id m = n \<and> me_superseded_at m = None \<and> me_superseded_by m = None \<and> me_status m \<noteq> ''superseded''"

definition statuses_ok :: "memory list \<Rightarrow> bool" where
  "statuses_ok rows \<longleftrightarrow> distinct (map me_id rows) \<and> (\<forall>m \<in> set rows. me_status m = ''superseded'' \<longleftrightarrow> me_superseded_at m \<noteq> None)"

locale row_history =
  fixes I :: "nat \<Rightarrow> memory list \<Rightarrow> bool"
  assumes statuses: "I n rows \<Longrightarrow> statuses_ok rows"
    and later: "I n rows \<Longrightarrow> n \<le> n' \<Longrightarrow> I n' rows"
    and fresh: "I n rows \<Longrightarrow> open_row n m \<Longrightarrow> I (n + 1) (rows @ [m])"
    and replaced: "I n rows \<Longrightarrow> row_get me_id rows i = Some old \<Longrightarrow> me_superseded_at old = None \<Longrightarrow>
      I (n + 1) (row_upd me_id i (close_old now (replacement env n rq old)) (rows @ [replacement env n rq old]))"
    and touched: "I n rows \<Longrightarrow> (\<And>m. m \<in> set rows \<Longrightarrow> touches m (f m)) \<Longrightarrow> I n (map f rows)"
    and erased: "I n rows \<Longrightarrow> I n (map (unlink i) (row_del me_id i rows))"
    and purged: "I n rows \<Longrightarrow> I n []"
begin

lemma upd_inv:
  assumes "I n rows" "row_get me_id rows i = Some m" "touches m (f m)"
  shows "I n (row_upd me_id i f rows)"
  unfolding row_upd_def
proof (rule touched[OF assms(1)])
  fix r assume r: "r \<in> set rows"
  have "distinct (map me_id rows)" using statuses[OF assms(1)] by (simp add: statuses_ok_def)
  then have "me_id r = i \<Longrightarrow> r = m" using r row_get_Some[OF assms(2)] by (auto simp: distinct_map dest: inj_onD)
  moreover have "touches r r" using r statuses[OF assms(1)] by (auto simp: touches_def statuses_ok_def)
  ultimately show "touches r (if me_id r = i then f r else r)" using assms(3) by auto
qed

lemma pinned_inv: "I n (ms_rows s) \<Longrightarrow> I n (ms_rows (set_pinned i b s))"
proof -
  assume I: "I n (ms_rows s)"
  have "touches r (if me_id r = i then r\<lparr>me_pinned := v\<rparr> else r)" if "r \<in> set (ms_rows s)" for r v
    using that statuses[OF I] by (auto simp: touches_def statuses_ok_def)
  then have "I n (row_upd me_id i (\<lambda>m. m\<lparr>me_pinned := v\<rparr>) (ms_rows s))" for v
    unfolding row_upd_def by (rule touched[OF I])
  then show ?thesis using I by (auto simp: set_pinned_def split: option.splits)
qed

lemma remember_inv: "I (ms_next s) (ms_rows s) \<Longrightarrow> remember env rq s = Inr (m, s') \<Longrightarrow> I (ms_next s') (ms_rows s')"
proof -
  assume I: "I (ms_next s) (ms_rows s)" and r: "remember env rq s = Inr (m, s')"
  note rows = remember_rows[OF r]
  have "me_status m \<noteq> ''superseded''"
    using rows by (auto simp: new_memory_def initial_status_def)
  then have "open_row (ms_next s) m" using rows by (auto simp: open_row_def new_memory_def split: prod.splits)
  with fresh[OF I] have "I (ms_next s + 1) (ms_rows s @ [m])" by blast
  then show ?thesis using later rows by (metis Suc_eq_plus1 Suc_leI)
qed

lemma supersede_inv: "I (ms_next s) (ms_rows s) \<Longrightarrow> supersede env i rq s = Inr (m, s') \<Longrightarrow> I (ms_next s') (ms_rows s')"
  using supersede_rows[of env i rq s m s'] replaced by auto

lemma reconcile_inv:
  "I (ms_next s) (ms_rows s) \<Longrightarrow> reconcile_and_write renv env judge c run s = Inr (m, s') \<Longrightarrow> I (ms_next s') (ms_rows s')"
proof -
  assume I: "I (ms_next s) (ms_rows s)" and r: "reconcile_and_write renv env judge c run s = Inr (m, s')"
  obtain b s1 where c: "check_suppressed env (ca_text c) (ca_scope c) (sv_user env) s = (b, s1)" by fastforce
  have I1: "I (ms_next s1) (ms_rows s1)" using I suppressed_rest[OF c] by simp
  have add: "I (ms_next s') (ms_rows s')" if "map_sum id (\<lambda>(m, s'). (Some m, s')) (remember env rq s1) = Inr (m, s')" for rq
    using that remember_inv[OF I1] by (cases "remember env rq s1") auto
  have rep: "I (ms_next s') (ms_rows s')" if "replace_or_keep env c run t s1 = Inr (m, s')" for t
    using that I1 supersede_inv[OF I1, of env "me_id t" "re_extracted c run"]
    by (cases "supersede env (me_id t) (re_extracted c run) s1") (auto simp: replace_or_keep_def split: if_splits)
  show ?thesis
    using r c I1 add rep
    by (cases b) (auto simp: reconcile_and_write_def Let_def split: if_splits option.splits)
qed

lemma write_accepted_inv:
  "I (ms_next s) (ms_rows s) \<Longrightarrow> I (ms_next (snd (write_accepted renv env judge run cs s))) (ms_rows (snd (write_accepted renv env judge run cs s)))"
proof (induction cs arbitrary: s)
  case (Cons c cs)
  show ?case
  proof (cases "reconcile_and_write renv env judge c run s")
    case (Inr p)
    obtain m s' where p: "p = (m, s')" by (cases p)
    have I: "I (ms_next s') (ms_rows s')" using reconcile_inv[OF Cons.prems] Inr p by blast
    obtain ms s'' where w: "write_accepted renv env judge run cs s' = (ms, s'')" by fastforce
    show ?thesis using Cons.IH[OF I] by (simp add: Inr p w)
  qed (use Cons in simp)
qed simp

lemma hard_delete_inv: "I n (ms_rows s) \<Longrightarrow> I n (ms_rows (snd (hard_delete i s)))"
  using erased[of n "ms_rows s" i] by (simp add: hard_delete_def split: option.splits)

lemma delete_inv: "I (ms_next s) (ms_rows s) \<Longrightarrow> delete_memory env f i s = Inr s' \<Longrightarrow> I (ms_next s') (ms_rows s')"
proof -
  assume I: "I (ms_next s) (ms_rows s)" and d: "delete_memory env f i s = Inr s'"
  have keep: "ms_next (snd (hard_delete i x)) = ms_next x" for x by (simp add: hard_delete_def split: option.splits)
  have "I (ms_next (snd (tombstone_forget env i s))) (ms_rows (snd (tombstone_forget env i s)))"
    using I later[of "ms_next s" "ms_rows s" "ms_next s + 1"] hard_delete_inv
    by (auto simp: tombstone_forget_def keep split: option.splits)
  moreover have "I (ms_next (snd (hard_delete i s))) (ms_rows (snd (hard_delete i s)))"
    using hard_delete_inv[OF I] by (simp add: keep)
  moreover have "s' = snd (if f then tombstone_forget env i s else hard_delete i s)"
    using d by (auto simp: delete_memory_def split: if_splits prod.splits)
  ultimately show ?thesis by auto
qed

lemma row_same: "I n rows \<Longrightarrow> m \<in> set rows \<Longrightarrow> touches m m"
  using statuses by (auto simp: touches_def statuses_ok_def)

lemma patch_fields_inv:
  assumes I: "I (ms_next s) (ms_rows s)" and g: "row_get me_id (ms_rows s) i = Some m"
    and p: "patch_fields env i body m s = Inr s'"
  shows "I (ms_next s') (ms_rows s')"
proof -
  have st: "me_status m = ''superseded'' \<longleftrightarrow> me_superseded_at m \<noteq> None"
    using statuses[OF I] row_get_Some[OF g] by (auto simp: statuses_ok_def)
  have "me_status m = ''quarantined''" if "mp_approve body = Some a" for a
    using p that by (auto simp: patch_fields_def split: if_splits)
  then have "touches m (patch_row (sv_now env) body m)"
    using st by (auto simp: touches_def review_def patch_row_def Let_def split: option.splits)
  then have "I (ms_next s) (row_upd me_id i (patch_row (sv_now env) body) (ms_rows s))" by (rule upd_inv[OF I g])
  then show ?thesis using p by (auto simp: patch_fields_def split: if_splits)
qed

lemma patch_inv:
  assumes I: "I (ms_next s) (ms_rows s)" and p: "patch_memory en pr env i body s = Inr s'"
  shows "I (ms_next s') (ms_rows s')"
proof -
  obtain m where g: "row_get me_id (ms_rows s) i = Some m" using p by (auto simp: patch_memory_def split: option.splits)
  have pf: "I (ms_next s') (ms_rows s')" if "patch_fields env i body m s = Inr s'" by (rule patch_fields_inv[OF I g that])
  have ed: "I (ms_next s') (ms_rows s')"
    if s: "supersede env i rq s = Inr (new, s1)" and e: "s' = set_pinned (me_id new) (mp_pinned body) s1" for new s1 rq
    using pinned_inv[OF supersede_inv[OF I s], of "me_id new" "mp_pinned body"] unfolding e
    by (cases "mp_pinned body") (simp_all add: set_pinned_def)
  show ?thesis
    using p g pf ed by (auto simp: patch_memory_def split: option.splits if_splits sum.splits)
qed

lemma create_inv:
  assumes I: "I (ms_next s) (ms_rows s)" and c: "create_memory env body pinned s = Inr s'"
  shows "I (ms_next s') (ms_rows s')"
proof -
  obtain rq m s1 where r: "remember env rq s = Inr (m, s1)" and e: "s' = (if pinned then set_pinned (me_id m) (Some True) s1 else s1)"
    using c by (auto simp: create_memory_def split: sum.splits)
  show ?thesis using pinned_inv[OF remember_inv[OF I r], of "me_id m" "Some True"] remember_inv[OF I r]
    by (simp add: e set_pinned_def)
qed

lemma forget_inv: "I n (ms_rows s) \<Longrightarrow> I n (ms_rows (snd (forget now i s)))"
proof -
  assume I: "I n (ms_rows s)"
  show ?thesis
  proof (cases "row_get me_id (ms_rows s) i")
    case (Some m)
    have "me_status m \<noteq> ''superseded'' \<Longrightarrow> touches m (m\<lparr>me_status := ''expired'', me_valid_to := Some now\<rparr>)"
      using statuses[OF I] row_get_Some[OF Some] by (auto simp: touches_def statuses_ok_def)
    with upd_inv[OF I Some] I Some show ?thesis by (auto simp: forget_def)
  qed (simp add: forget_def I)
qed

lemma sweep_inv: "I n (ms_rows s) \<Longrightarrow> I n (ms_rows (decay_sweep b env s))" "I n (ms_rows s) \<Longrightarrow> I n (ms_rows (contradiction_sweep b s))"
proof -
  assume I: "I n (ms_rows s)"
  have a: "touches m (if decays (sv_now env) (sv_half_life env) m then expire_row (sv_now env) m else m)"
    if "m \<in> set (ms_rows s)" for m
    using that statuses[OF I] by (auto simp: touches_def statuses_ok_def decays_def expire_row_def)
  show "I n (ms_rows (decay_sweep b env s))"
    using I touched[OF I a] by (simp add: decay_sweep_def)
  have "touches m (if me_status m = ''active'' \<and> me_entity_key m \<noteq> None \<and> list_ex (newer_rival m) (ms_rows s)
             then m\<lparr>me_status := ''quarantined'',
                    me_note := Some ''contradiction sweep: older duplicate of an active entity_key''\<rparr> else m)"
    if "m \<in> set (ms_rows s)" for m
    using that statuses[OF I] by (auto simp: touches_def statuses_ok_def)
  from touched[OF I this] I show "I n (ms_rows (contradiction_sweep b s))" by (simp add: contradiction_sweep_def)
qed

lemma bump_inv: "I n rows \<Longrightarrow> I n (bump_access now rs hits rows)"
  using touched row_same by (auto simp: bump_access_def touches_def statuses_ok_def dest: statuses)

lemma step_inv: "I (ms_next s) (ms_rows s) \<Longrightarrow> I (ms_next (mem_step s e)) (ms_rows (mem_step s e))"
proof (cases e)
  case (Extracts renv env judge run cs)
  then show "I (ms_next s) (ms_rows s) \<Longrightarrow> ?thesis" by (simp add: extract_from_run_def write_accepted_inv)
next
  case (Unforgets en p i)
  then show "I (ms_next s) (ms_rows s) \<Longrightarrow> ?thesis" by (auto simp: unforget_one_def split: option.splits)
next
  case (Forgets now i)
  have "ms_next (snd (forget now i s)) = ms_next s" by (simp add: forget_def split: option.splits)
  with Forgets forget_inv show "I (ms_next s) (ms_rows s) \<Longrightarrow> ?thesis" by simp
next
  case (Decays b env)
  have "ms_next (decay_sweep b env s) = ms_next s" by (simp add: decay_sweep_def)
  with Decays sweep_inv show "I (ms_next s) (ms_rows s) \<Longrightarrow> ?thesis" by simp
next
  case (Sweeps b)
  have "ms_next (contradiction_sweep b s) = ms_next s" by (simp add: contradiction_sweep_def)
  with Sweeps sweep_inv show "I (ms_next s) (ms_rows s) \<Longrightarrow> ?thesis" by simp
qed (auto simp: purge_memories_def purged bump_inv split: sum.splits
       dest: remember_inv supersede_inv delete_inv patch_inv create_inv)

lemma history_inv: "I (ms_next s) (ms_rows s) \<Longrightarrow> I (ms_next (foldl mem_step s evs)) (ms_rows (foldl mem_step s evs))"
  by (induction evs arbitrary: s) (simp_all add: step_inv)

lemma every_history: "I 0 [] \<Longrightarrow> I (ms_next (foldl mem_step empty_store evs)) (ms_rows (foldl mem_step empty_store evs))"
  by (rule history_inv) (simp add: empty_store_def)

end

section \<open>Corrections\<close>

definition numbered :: "nat \<Rightarrow> memory list \<Rightarrow> bool" where
  "numbered n rows \<longleftrightarrow> statuses_ok rows \<and> (\<forall>m \<in> set rows. me_id m < n)"

lemma row_upd_append: "row_upd key k f (xs @ [x]) = row_upd key k f xs @ [if key x = k then f x else x]"
  by (simp add: row_upd_def)

lemma numbered_history: "row_history numbered"
proof unfold_locales
  show "numbered n rows \<Longrightarrow> statuses_ok rows" for n rows by (simp add: numbered_def)
  show "numbered n rows \<Longrightarrow> n \<le> n' \<Longrightarrow> numbered n' rows" for n n' rows by (fastforce simp: numbered_def)
  show "numbered n rows \<Longrightarrow> open_row n m \<Longrightarrow> numbered (n + 1) (rows @ [m])" for n rows m
    by (fastforce simp: numbered_def statuses_ok_def open_row_def)
  show "numbered n rows \<Longrightarrow> (\<And>m. m \<in> set rows \<Longrightarrow> touches m (f m)) \<Longrightarrow> numbered n (map f rows)" for n rows f
  proof -
    assume n: "numbered n rows" and t: "\<And>m. m \<in> set rows \<Longrightarrow> touches m (f m)"
    have "map me_id (map f rows) = map me_id rows" using t by (simp add: touches_def)
    then have "distinct (map me_id (map f rows))" using n by (simp only: numbered_def statuses_ok_def)
    moreover have "me_status (f m) = ''superseded'' \<longleftrightarrow> me_superseded_at (f m) \<noteq> None" if "m \<in> set rows" for m
      using t[OF that] n that by (auto simp: touches_def numbered_def statuses_ok_def split: if_splits)
    moreover have "me_id (f m) < n" if "m \<in> set rows" for m
      using t[OF that] n that by (auto simp: touches_def numbered_def)
    ultimately show "numbered n (map f rows)" by (simp add: numbered_def statuses_ok_def)
  qed
  show "numbered n (map (unlink i) (row_del me_id i rows))" if "numbered n rows" for n rows i
  proof -
    have "map me_id (map (unlink i) (row_del me_id i rows)) = filter (\<lambda>j. j \<noteq> i) (map me_id rows)"
      by (induction rows) (auto simp: row_del_def unlink_def)
    then have "distinct (map me_id (map (unlink i) (row_del me_id i rows)))"
      using that by (simp add: numbered_def statuses_ok_def)
    then show ?thesis using that by (simp add: numbered_def statuses_ok_def row_del_def unlink_def)
  qed
  show "numbered n []" for n by (simp add: numbered_def statuses_ok_def)
  fix n rows i old now env rq
  assume n: "numbered n rows" and g: "row_get me_id rows i = Some old" and o: "me_superseded_at old = None"
  show "numbered (n + 1) (row_upd me_id i (close_old now (replacement env n rq old)) (rows @ [replacement env n rq old]))"
  proof -
    let ?new = "replacement env n rq old"
    have i: "i < n" "old \<in> set rows" "me_id old = i" using n row_get_Some[OF g] by (auto simp: numbered_def)
    have ids: "map me_id (row_upd me_id i (close_old now ?new) rows) = map me_id rows"
      by (rule map_key_row_upd) (simp add: close_old_def)
    have st: "me_status old \<noteq> ''superseded''" using n i o by (auto simp: numbered_def statuses_ok_def)
    have "me_status m = ''superseded'' \<longleftrightarrow> me_superseded_at m \<noteq> None" "me_id m < n"
      if "m \<in> set (row_upd me_id i (close_old now ?new) rows)" for m
      using that n by (auto simp: row_upd_def close_old_def numbered_def statuses_ok_def)
    moreover have "me_status ?new \<noteq> ''superseded''" using st by (simp add: replacement_def)
    moreover have "distinct (map me_id (row_upd me_id i (close_old now ?new) rows))"
      using n by (simp only: ids) (simp add: numbered_def statuses_ok_def)
    moreover have "me_id ?new = n" "me_superseded_at ?new = None" by (simp_all add: replacement_def)
    ultimately show ?thesis
      using i(1) unfolding numbered_def statuses_ok_def row_upd_append by fastforce
  qed
qed

text \<open>A law of the rows that are numbered: what a particular invariant has to show.\<close>

locale row_law =
  fixes L :: "nat \<Rightarrow> memory list \<Rightarrow> bool"
  assumes law_later: "L n rows \<Longrightarrow> n \<le> n' \<Longrightarrow> L n' rows"
    and law_fresh: "numbered n rows \<Longrightarrow> L n rows \<Longrightarrow> open_row n m \<Longrightarrow> L (n + 1) (rows @ [m])"
    and law_replaced: "numbered n rows \<Longrightarrow> L n rows \<Longrightarrow> old \<in> set rows \<Longrightarrow> me_superseded_at old = None \<Longrightarrow>
      new = replacement env n rq old \<Longrightarrow> me_id old < n \<Longrightarrow>
      (\<And>m. m \<in> set rows \<Longrightarrow> me_id m = me_id old \<Longrightarrow> m = old) \<Longrightarrow>
      L (n + 1) (map (\<lambda>m. if me_id m = me_id old then close_old now new m else m) rows @ [new])"
    and law_touched: "numbered n rows \<Longrightarrow> L n rows \<Longrightarrow> (\<And>m. m \<in> set rows \<Longrightarrow> touches m (f m)) \<Longrightarrow> L n (map f rows)"
    and law_erased: "numbered n rows \<Longrightarrow> L n rows \<Longrightarrow> L n (map (unlink i) (row_del me_id i rows))"
    and law_purged: "L n rows \<Longrightarrow> L n []"

sublocale row_law \<subseteq> hist: row_history "\<lambda>n rows. numbered n rows \<and> L n rows"
proof
  fix n n' rows m f i old now env rq
  show "numbered n rows \<and> L n rows \<Longrightarrow> statuses_ok rows" by (simp add: numbered_def)
  show "numbered n rows \<and> L n rows \<Longrightarrow> n \<le> n' \<Longrightarrow> numbered n' rows \<and> L n' rows"
    by (elim conjE, intro conjI) (rule row_history.later[OF numbered_history], assumption+, rule law_later)
  show "numbered n rows \<and> L n rows \<Longrightarrow> open_row n m \<Longrightarrow> numbered (n + 1) (rows @ [m]) \<and> L (n + 1) (rows @ [m])"
    by (elim conjE, intro conjI) (rule row_history.fresh[OF numbered_history], assumption+, rule law_fresh)
  show "numbered n rows \<and> L n rows \<Longrightarrow> (\<And>m. m \<in> set rows \<Longrightarrow> touches m (f m)) \<Longrightarrow> numbered n (map f rows) \<and> L n (map f rows)"
    by (elim conjE, intro conjI) (rule row_history.touched[OF numbered_history], assumption, blast, rule law_touched)
  show "numbered n rows \<and> L n rows \<Longrightarrow>
      numbered n (map (unlink i) (row_del me_id i rows)) \<and> L n (map (unlink i) (row_del me_id i rows))"
    by (elim conjE, intro conjI) (rule row_history.erased[OF numbered_history], assumption, rule law_erased)
  show "numbered n rows \<and> L n rows \<Longrightarrow> numbered n [] \<and> L n []"
    using law_purged row_history.purged[OF numbered_history] by blast
  assume I: "numbered n rows \<and> L n rows" and g: "row_get me_id rows i = Some old" and o: "me_superseded_at old = None"
  let ?new = "replacement env n rq old"
  have old: "old \<in> set rows" "me_id old = i" using row_get_Some[OF g] by auto
  have one: "m = old" if "m \<in> set rows" "me_id m = me_id old" for m
    using I that old by (auto simp: numbered_def statuses_ok_def distinct_map dest: inj_onD)
  have lt: "me_id old < n" using I old by (auto simp: numbered_def)
  have e: "row_upd me_id i (close_old now ?new) (rows @ [?new])
      = map (\<lambda>m. if me_id m = me_id old then close_old now ?new m else m) rows @ [?new]"
    using lt old by (simp add: row_upd_def replacement_def)
  have "numbered (n + 1) (row_upd me_id i (close_old now ?new) (rows @ [?new]))"
    by (rule row_history.replaced[OF numbered_history _ g o]) (use I in blast)
  moreover have "L (n + 1) (row_upd me_id i (close_old now ?new) (rows @ [?new]))"
    unfolding e using I by (intro law_replaced[OF _ _ old(1) o refl lt one]) auto
  ultimately show "numbered (n + 1) (row_upd me_id i (close_old now ?new) (rows @ [?new]))
      \<and> L (n + 1) (row_upd me_id i (close_old now ?new) (rows @ [?new]))" by blast
qed

definition closed_by :: "memory \<Rightarrow> memory \<Rightarrow> bool" where
  "closed_by m r \<longleftrightarrow> me_superseded_by m = Some (me_id r) \<and> me_supersedes r = Some (me_id m) \<and> me_id m < me_id r
     \<and> me_valid_to m = Some (me_valid_from r) \<and> me_kind r = me_kind m \<and> me_scope r = me_scope m
     \<and> me_entity_key r = me_entity_key m"

definition linked_rows :: "memory list \<Rightarrow> bool" where
  \<comment> \<open>a row that names its replacement is closed, and the named row is there, points back and takes over
      where the validity of the closed one ends\<close>
  "linked_rows rows \<longleftrightarrow>
     (\<forall>m \<in> set rows. me_superseded_by m \<noteq> None \<longrightarrow> me_superseded_at m \<noteq> None \<and> (\<exists>r \<in> set rows. closed_by m r))"

definition chain_ok :: "nat \<Rightarrow> memory list \<Rightarrow> bool" where
  "chain_ok n rows \<longleftrightarrow> numbered n rows \<and> linked_rows rows"

definition same_record :: "memory \<Rightarrow> memory \<Rightarrow> bool" where
  "same_record m m' \<longleftrightarrow> me_text m' = me_text m \<and> me_kind m' = me_kind m \<and> me_scope m' = me_scope m
     \<and> me_entity_key m' = me_entity_key m \<and> me_recorded m' = me_recorded m \<and> me_valid_from m' = me_valid_from m
     \<and> (me_superseded_at m = None \<or> me_superseded_at m' = me_superseded_at m \<and> me_valid_to m' = me_valid_to m
          \<and> me_status m' = me_status m)"

definition unaltered :: "memory list \<Rightarrow> memory list \<Rightarrow> bool" where
  "unaltered old rows \<longleftrightarrow> (\<forall>m \<in> set old. \<forall>m' \<in> set rows. me_id m' = me_id m \<longrightarrow> same_record m m')"

lemma closed_by_touched: "closed_by m r \<Longrightarrow> me_superseded_at m \<noteq> None \<Longrightarrow> touches m m' \<Longrightarrow> touches r r' \<Longrightarrow> closed_by m' r'"
  by (auto simp: closed_by_def touches_def)

interpretation chain: row_law "\<lambda>_. linked_rows"
proof
  fix n n' :: nat and rows m f i old new now env rq
  show "linked_rows rows \<Longrightarrow> n \<le> n' \<Longrightarrow> linked_rows rows" .
  show "linked_rows rows \<Longrightarrow> open_row n m \<Longrightarrow> linked_rows (rows @ [m])"
    by (fastforce simp: linked_rows_def open_row_def)
  show "linked_rows []" by (simp add: linked_rows_def)
  show "linked_rows (map f rows)" if c: "linked_rows rows" and t: "\<And>m. m \<in> set rows \<Longrightarrow> touches m (f m)"
    unfolding linked_rows_def
  proof (intro ballI impI)
    fix m' assume m': "m' \<in> set (map f rows)" "me_superseded_by m' \<noteq> None"
    then obtain m where m: "m \<in> set rows" "m' = f m" by auto
    then have s: "me_superseded_by m \<noteq> None" "me_superseded_at m' = me_superseded_at m"
      using t[OF m(1)] m'(2) by (auto simp: touches_def)
    with c m obtain r where r: "r \<in> set rows" "closed_by m r" "me_superseded_at m \<noteq> None" by (auto simp: linked_rows_def)
    then have "closed_by m' (f r)" using closed_by_touched t m by blast
    with r s show "me_superseded_at m' \<noteq> None \<and> (\<exists>r\<in>set (map f rows). closed_by m' r)" by auto
  qed
  show "linked_rows (map (unlink i) (row_del me_id i rows))" if c: "linked_rows rows"
    unfolding linked_rows_def
  proof (intro ballI impI)
    fix m' assume m': "m' \<in> set (map (unlink i) (row_del me_id i rows))" "me_superseded_by m' \<noteq> None"
    then obtain m where m: "m \<in> set rows" "me_id m \<noteq> i" "m' = unlink i m" by (auto simp: row_del_def)
    then have s: "me_superseded_by m \<noteq> None" "me_superseded_by m \<noteq> Some i"
      using m'(2) by (auto simp: unlink_def split: if_splits)
    with c m obtain r where r: "r \<in> set rows" "closed_by m r" "me_superseded_at m \<noteq> None" by (auto simp: linked_rows_def)
    with s have "me_id r \<noteq> i" by (auto simp: closed_by_def)
    with r have "unlink i r \<in> set (map (unlink i) (row_del me_id i rows))" by (simp add: row_del_def)
    moreover have "closed_by m' (unlink i r)" using r s m by (auto simp: closed_by_def unlink_def)
    moreover have "me_superseded_at m' \<noteq> None" using r m by (simp add: unlink_def)
    ultimately show "me_superseded_at m' \<noteq> None \<and> (\<exists>r\<in>set (map (unlink i) (row_del me_id i rows)). closed_by m' r)"
      by blast
  qed
  assume c: "linked_rows rows" and old: "old \<in> set rows" "me_superseded_at old = None" and new: "new = replacement env n rq old"
    and lt: "me_id old < n" and one: "\<And>m. m \<in> set rows \<Longrightarrow> me_id m = me_id old \<Longrightarrow> m = old"
  let ?g = "\<lambda>m. if me_id m = me_id old then close_old now new m else m"
  show "linked_rows (map ?g rows @ [new])"
    unfolding linked_rows_def
  proof (intro ballI impI)
    fix m' assume m': "m' \<in> set (map ?g rows @ [new])" "me_superseded_by m' \<noteq> None"
    then obtain m where m: "m \<in> set rows" "m' = ?g m" by (auto simp: new replacement_def)
    show "me_superseded_at m' \<noteq> None \<and> (\<exists>r\<in>set (map ?g rows @ [new]). closed_by m' r)"
    proof (cases "me_id m = me_id old")
      case True
      with one m(1) have "m = old" by blast
      then have "closed_by m' new"
        using m lt by (simp add: closed_by_def close_old_def new replacement_def)
      with True m show ?thesis by (simp add: close_old_def)
    next
      case False
      then have e: "m' = m" using m by simp
      with c m m'(2) obtain r where r: "r \<in> set rows" "closed_by m r" "me_superseded_at m \<noteq> None" by (auto simp: linked_rows_def)
      have "closed_by m' (?g r)" using r e by (auto simp: closed_by_def close_old_def)
      with r e show ?thesis by auto
    qed
  qed
qed

lemma close_old_id [simp]: "me_id (close_old now new m) = me_id m"
  by (simp add: close_old_def)

lemma same_record_step: "same_record p m \<Longrightarrow> touches m m' \<Longrightarrow> same_record p m'"
  by (auto simp: same_record_def touches_def split: if_splits)

lemma same_record_close: "same_record p m \<Longrightarrow> me_superseded_at m = None \<Longrightarrow> same_record p (close_old now new m)"
  by (auto simp: same_record_def close_old_def)

interpretation kept: row_law "\<lambda>n rows. (\<forall>p \<in> set old. me_id p < n) \<and> unaltered old rows" for old
proof
  fix n n' :: nat and rows m f i prev new now env rq
  let ?L = "\<lambda>n rows. (\<forall>p \<in> set old. me_id p < n) \<and> unaltered old rows"
  show "?L n rows \<Longrightarrow> n \<le> n' \<Longrightarrow> ?L n' rows" by fastforce
  show "?L n rows \<Longrightarrow> open_row n m \<Longrightarrow> ?L (n + 1) (rows @ [m])"
    by (fastforce simp: unaltered_def open_row_def)
  show "?L n (map f rows)" if "?L n rows" "\<And>m. m \<in> set rows \<Longrightarrow> touches m (f m)"
  proof -
    have "same_record p (f m)" if "p \<in> set old" "m \<in> set rows" "me_id (f m) = me_id p" for p m
    proof -
      have "touches m (f m)" using that \<open>\<And>m. m \<in> set rows \<Longrightarrow> touches m (f m)\<close> by blast
      moreover from this that \<open>?L n rows\<close> have "same_record p m" by (auto simp: unaltered_def touches_def)
      ultimately show ?thesis by (rule same_record_step[rotated])
    qed
    with that show ?thesis by (simp add: unaltered_def)
  qed
  show "?L n rows \<Longrightarrow> ?L n (map (unlink i) (row_del me_id i rows))"
    by (simp add: unaltered_def row_del_def unlink_def same_record_def)
  let ?g = "\<lambda>m :: memory. if me_id m = me_id (prev :: memory) then close_old now new m else m"
  have step: "?L n (map ?g rows @ [new])"
    if l: "?L n rows" and open_prev: "me_superseded_at prev = None"
      and one: "\<And>m. m \<in> set rows \<Longrightarrow> me_id m = me_id prev \<Longrightarrow> m = prev" and new: "new = replacement env n rq prev"
  proof -
    have id: "me_id (?g m) = me_id m" for m by simp
    have a: "same_record p (?g m)" if "p \<in> set old" "m \<in> set rows" "me_id m = me_id p" for p m
      using that l one[OF that(2)] open_prev same_record_close by (auto simp: unaltered_def)
    have "same_record p r" if p: "p \<in> set old" "me_id r = me_id p" and r: "r \<in> set (map ?g rows @ [new])" for p r
    proof -
      have "me_id new \<noteq> me_id p" using p l by (auto simp: new replacement_def)
      with p r have "r \<in> ?g ` set rows" by auto
      then obtain m where m: "m \<in> set rows" "r = ?g m" by blast
      have "me_id m = me_id p" using p(2) unfolding m(2) id .
      then show ?thesis using a p(1) m by blast
    qed
    with l show ?thesis unfolding unaltered_def by fastforce
  qed
  assume l: "?L n rows" and open_prev: "me_superseded_at prev = None" and new: "new = replacement env n rq prev"
    and one: "\<And>m. m \<in> set rows \<Longrightarrow> me_id m = me_id prev \<Longrightarrow> m = prev"
  show "?L (n + 1) (map ?g rows @ [new])" using step[OF l open_prev one new] by fastforce
qed (simp_all add: unaltered_def)


section \<open>Forgetting\<close>

interpretation gone: row_law "\<lambda>n rows. i < n \<and> i \<notin> me_id ` set rows" for i
proof
  fix n :: nat and rows m f j and prev :: memory and new now env rq
  let ?L = "\<lambda>n rows. i < n \<and> i \<notin> me_id ` set rows"
  show "?L n rows \<Longrightarrow> (\<And>m. m \<in> set rows \<Longrightarrow> touches m (f m)) \<Longrightarrow> ?L n (map f rows)"
    by (auto simp: touches_def)
  show "?L n rows \<Longrightarrow> prev \<in> set rows \<Longrightarrow> new = replacement env n rq prev \<Longrightarrow>
      ?L (n + 1) (map (\<lambda>m. if me_id m = me_id prev then close_old now new m else m) rows @ [new])"
    by (auto simp: replacement_def image_iff split: if_splits)
qed (auto simp: open_row_def row_del_def unlink_def)

definition tombstone_key :: "tombstone \<Rightarrow> nat \<times> string option \<times> string \<times> string" where
  "tombstone_key t = (ts_id t, ts_user t, ts_scope t, ts_hash t)"

definition keys_of :: "mem_store \<Rightarrow> (nat \<times> string option \<times> string \<times> string) set" where
  "keys_of s = set (map tombstone_key (ms_tombstones s))"

fun keeps_tombstones :: "mem_event \<Rightarrow> bool" where
  \<comment> \<open>everything but a user's own statement, an explicit unforget and a purge\<close>
  "keeps_tombstones (Remembers env rq) = (rm_source rq \<noteq> ''user_stated'')"
| "keeps_tombstones (Creates env body pinned) = False"
| "keeps_tombstones (Unforgets en p i) = False"
| "keeps_tombstones Purges = False"
| "keeps_tombstones e = True"

lemma keys_of_rows [simp]: "keys_of (s\<lparr>ms_rows := rows\<rparr>) = keys_of s"
  by (simp add: keys_of_def)

lemma keys_of_tombstones: "keys_of (s\<lparr>ms_tombstones := ts\<rparr>) = set (map tombstone_key ts)"
  by (simp add: keys_of_def)

lemma suppressed_keys: "check_suppressed env t sc u s = (b, s') \<Longrightarrow> keys_of s' = keys_of s"
proof -
  assume c: "check_suppressed env t sc u s = (b, s')"
  have "map tombstone_key (map (\<lambda>t. if ts_id t \<in> A then t\<lparr>ts_suppressed := n t, ts_last_suppressed := w\<rparr> else t) ts)
      = map tombstone_key ts" for A n w ts by (simp add: tombstone_key_def)
  then have "keys_of (s\<lparr>ms_tombstones := map (\<lambda>t. if ts_id t \<in> A then t\<lparr>ts_suppressed := n t, ts_last_suppressed := w\<rparr> else t) (ms_tombstones s)\<rparr>)
      = keys_of s" for A n w
    by (simp only: keys_of_tombstones) (simp only: keys_of_def)
  with c show ?thesis unfolding check_suppressed_def Let_def by (cases "\<not> sv_forget_enabled env \<or> matching_tombstones env t sc u s = []") auto
qed

lemma remember_keys: "remember env rq s = Inr (m, s') \<Longrightarrow> rm_source rq \<noteq> ''user_stated'' \<Longrightarrow> keys_of s' = keys_of s"
  by (auto simp: remember_def Let_def link_entities_def keys_of_def split: option.splits dest!: link_names_rest)

lemma supersede_keys: "supersede env i rq s = Inr (m, s') \<Longrightarrow> keys_of s' = keys_of s"
  using supersede_rows[of env i rq s m s'] by (auto simp: keys_of_def)

lemma replace_keys: "replace_or_keep env c run t s = Inr (m, s') \<Longrightarrow> keys_of s' = keys_of s"
  using supersede_keys[of env "me_id t" "re_extracted c run" s]
  by (cases "supersede env (me_id t) (re_extracted c run) s") (auto simp: replace_or_keep_def split: if_splits)

lemma reconcile_keys: "reconcile_and_write renv env judge c run s = Inr (m, s') \<Longrightarrow> keys_of s' = keys_of s"
proof -
  assume r: "reconcile_and_write renv env judge c run s = Inr (m, s')"
  obtain b s1 where c: "check_suppressed env (ca_text c) (ca_scope c) (sv_user env) s = (b, s1)" by fastforce
  note k = suppressed_keys[OF c]
  have add: "keys_of s' = keys_of s1" if "map_sum id (\<lambda>(m, s'). (Some m, s')) (remember env (extracted c run) s1) = Inr (m, s')"
    using that remember_keys[of env "extracted c run" s1]
    by (cases "remember env (extracted c run) s1") (auto simp: extracted_def)
  have rep: "keys_of s' = keys_of s1" if "replace_or_keep env c run t s1 = Inr (m, s')" for t
    using that by (rule replace_keys)
  show ?thesis
    using r c k add rep by (cases b) (auto simp: reconcile_and_write_def Let_def split: if_splits option.splits)
qed

lemma write_accepted_keys: "keys_of (snd (write_accepted renv env judge run cs s)) = keys_of s"
proof (induction cs arbitrary: s)
  case (Cons c cs)
  show ?case
  proof (cases "reconcile_and_write renv env judge c run s")
    case (Inr p)
    obtain m s' where p: "p = (m, s')" by (cases p)
    obtain ms s'' where w: "write_accepted renv env judge run cs s' = (ms, s'')" by fastforce
    show ?thesis using Cons.IH[of s'] reconcile_keys[of renv env judge c run s m s'] by (simp add: Inr p w)
  qed (use Cons in simp)
qed simp

lemma hard_delete_keys [simp]: "keys_of (snd (hard_delete i s)) = keys_of s"
  by (simp add: hard_delete_def keys_of_def split: option.splits)

lemma tombstone_forget_keys: "keys_of s \<subseteq> keys_of (snd (tombstone_forget env i s))"
proof (cases "row_get me_id (ms_rows s) i")
  case (Some m)
  then show ?thesis by (simp add: tombstone_forget_def) (auto simp: keys_of_def row_add_def)
qed (simp add: tombstone_forget_def)

lemma patch_keys: "patch_memory en p env i body s = Inr s' \<Longrightarrow> keys_of s' = keys_of s"
proof -
  assume p: "patch_memory en p env i body s = Inr s'"
  have "keys_of (set_pinned j b x) = keys_of x" for j b x by (simp add: set_pinned_def keys_of_def split: option.splits)
  moreover have "keys_of s' = keys_of s" if "patch_fields env i body m s = Inr s'" for m
    using that by (auto simp: patch_fields_def keys_of_def split: if_splits)
  ultimately show ?thesis
    using p by (auto simp: patch_memory_def dest: supersede_keys split: option.splits if_splits sum.splits)
qed

lemma step_keys: "keeps_tombstones e \<Longrightarrow> keys_of s \<subseteq> keys_of (mem_step s e)"
proof (induction s e rule: mem_step.induct)
  case (5 s env f i)
  have "keys_of s \<subseteq> keys_of s'" if "delete_memory env f i s = Inr s'" for s'
  proof -
    have "s' = snd (if f then tombstone_forget env i s else hard_delete i s)"
      using that by (auto simp: delete_memory_def split: if_splits prod.splits)
    then show ?thesis using tombstone_forget_keys[of s env i] by simp
  qed
  then show ?case by (auto split: sum.splits)
qed (auto simp: extract_from_run_def write_accepted_keys remember_keys supersede_keys patch_keys forget_def after_failed_write_def
    decay_sweep_def contradiction_sweep_def split: sum.splits option.splits)

lemma quiet_keys: "list_all keeps_tombstones evs \<Longrightarrow> keys_of s \<subseteq> keys_of (foldl mem_step s evs)"
  by (induction evs arbitrary: s) (auto dest: step_keys)

lemma delete_found:
  "row_get me_id (ms_rows s) i = Some m \<Longrightarrow> sv_forget_enabled env \<Longrightarrow>
   delete_memory env True i s = Inr (snd (tombstone_forget env i s))"
  by (simp add: delete_memory_def tombstone_forget_def hard_delete_def)

lemma tombstone_written:
  "row_get me_id (ms_rows s) i = Some m \<Longrightarrow>
   (ms_next s, me_user m, me_scope m, normalized_hash (sv_sha env) (me_text m)) \<in> keys_of (snd (tombstone_forget env i s))"
  by (simp add: tombstone_forget_def) (simp add: keys_of_def row_add_def tombstone_of_def tombstone_key_def)

lemma exact_match_suppresses:
  assumes "(j, u, sc, normalized_hash (sv_sha env) text) \<in> keys_of s" "sv_forget_enabled env"
  shows "\<exists>s'. check_suppressed env text sc u s = (True, s') \<and> ms_rows s' = ms_rows s"
proof -
  obtain t where "t \<in> set (ms_tombstones s)" "ts_user t = u" "ts_scope t = sc" "ts_hash t = normalized_hash (sv_sha env) text"
    using assms by (auto simp: keys_of_def tombstone_key_def)
  then have "filter (\<lambda>t. ts_hash t = normalized_hash (sv_sha env) text)
      (filter (\<lambda>t. ts_scope t = sc \<and> ts_user t = u) (ms_tombstones s)) \<noteq> []"
    by (auto simp: filter_empty_conv)
  then have "matching_tombstones env text sc u s \<noteq> []" unfolding matching_tombstones_def Let_def by (simp only: if_True not_False_eq_True)
  then show ?thesis using assms(2) by (simp add: check_suppressed_def Let_def)
qed


definition ann_env :: store_env where
  "ann_env = \<lparr>sv_now = 0, sv_user = Some ''ann'', sv_sha = id, sv_model = None, sv_embed = (\<lambda>t. None),
     sv_distance = (\<lambda>u v. 1), sv_forget_enabled = True, sv_forget_similarity = 9 / 10, sv_routed_kinds = [],
     sv_min_confidence = 1 / 2, sv_half_life = 30\<rparr>"

definition tea_request :: remember_request where
  "tea_request = \<lparr>rm_text = ''Tea'', rm_kind = ''preference'', rm_scope = ''global'', rm_source = ''user_stated'',
     rm_conversation = None, rm_payload = None, rm_entity_key = None, rm_importance = 5, rm_confidence = 1,
     rm_valid_from = None, rm_run = None, rm_step = None, rm_supersedes = None, rm_via_tool = False,
     rm_entities = [], rm_project = None, rm_user = None\<rparr>"

definition tea_candidate :: candidate where
  "tea_candidate = \<lparr>ca_text = ''tea '', ca_kind = ''fact'', ca_scope = ''global'', ca_conversation = None,
     ca_payload = None, ca_entity_key = None, ca_importance = 5, ca_confidence = 1, ca_entities = []\<rparr>"

lemma new_memory_fields [simp]: "me_id (new_memory env i u rq) = i" "me_user (new_memory env i u rq) = u"
  "me_scope (new_memory env i u rq) = rm_scope rq"
  by (simp_all add: new_memory_def split: prod.splits)

lemma tea_created: "ms_rows (mem_step empty_store (Creates ann_env tea_request False)) = [new_memory ann_env 0 (Some ''ann'') tea_request]"
proof -
  have "squeeze ''Tea'' = ''Tea''" by code_simp
  moreover have "fields_valid ''preference'' ''global'' ''user_stated''" by code_simp
  ultimately show ?thesis
    by (simp add: create_memory_def remember_def remember_error_def unforget_by_assertion_def matching_tombstones_def
        tea_request_def ann_env_def empty_store_def new_memory_def initial_status_def store_embedding_def embed_text_def
        link_entities_def row_add_def active_model_key_def MACHINE_SOURCES_def Let_def)
qed


section \<open>Identity by entity key\<close>

lemma keyed_reconcile:
  assumes keyed: "find (\<lambda>r. me_entity_key r = ca_entity_key c \<and> me_status r = ''active'' \<and> me_scope r = ca_scope c) (ms_rows s) = Some m"
    and row: "row_get me_id (ms_rows s) (me_id m) = Some m" "me_superseded_at m = None" "fields_valid (me_kind m) (me_scope m) ''extracted''"
    and c: "ca_entity_key c = Some k" "k \<noteq> []" "ca_kind c \<noteq> ''instruction''"
    and differ: "py_lower (me_text m) \<noteq> py_lower (ca_text c)" and no_tombstones: "ms_tombstones s = []"
  shows "\<exists>s'. reconcile_and_write renv env judge c run s = Inr (Some (replacement env (ms_next s) (re_extracted c run) m), s')
    \<and> ms_rows s' = row_upd me_id (me_id m) (close_old (sv_now env) (replacement env (ms_next s) (re_extracted c run) m))
        (row_add (replacement env (ms_next s) (re_extracted c run) m) (ms_rows s))"
proof -
  have k: "check_suppressed env (ca_text c) (ca_scope c) (sv_user env) s = (False, s)"
    using no_tombstones by (simp add: check_suppressed_def matching_tombstones_def Let_def split: option.splits prod.splits)
  let ?new = "replacement env (ms_next s) (re_extracted c run) m"
  obtain s' where sup: "supersede env (me_id m) (re_extracted c run) s = Inr (?new, s')"
      "ms_rows s' = row_upd me_id (me_id m) (close_old (sv_now env) ?new) (row_add ?new (ms_rows s))"
    using row by (simp add: supersede_def re_extracted_def Let_def)
  have rep: "replace_or_keep env c run m s = Inr (Some ?new, s')" using differ sup(1) by (simp add: replace_or_keep_def)
  have "reconcile_and_write renv env judge c run s = Inr (Some ?new, s')"
    using keyed c by (simp add: reconcile_and_write_def k Let_def opt_truthy_def rep)
  with sup(2) show ?thesis by blast
qed

text \<open>
  The deterministic shortcut of reconciliation ignores kind and owner. When the first active row
  under a candidate's entity key and scope is somebody's instruction, an extracted candidate of any
  other kind with another text closes it and puts an active instruction in its place, with the
  candidate's text, without review, without an owner and so visible to everyone.
\<close>

theorem extraction_replaces_foreign_instruction:
  assumes keyed: "find (\<lambda>r. me_entity_key r = ca_entity_key c \<and> me_status r = ''active'' \<and> me_scope r = ca_scope c) (ms_rows s) = Some m"
    and row: "row_get me_id (ms_rows s) (me_id m) = Some m" "me_kind m = ''instruction''" "me_superseded_at m = None"
    and c: "ca_entity_key c = Some k" "k \<noteq> []" "ca_kind c \<noteq> ''instruction''" "ca_scope c \<in> set SCOPES"
    and differ: "py_lower (me_text m) \<noteq> py_lower (ca_text c)" and no_tombstones: "ms_tombstones s = []"
  shows "\<exists>new s'. reconcile_and_write renv env judge c run s = Inr (Some new, s')
    \<and> me_kind new = ''instruction'' \<and> me_status new = ''active'' \<and> me_source new = ''extracted''
    \<and> me_text new = squeeze (ca_text c) \<and> memory_visibility True p new
    \<and> row_get me_id (ms_rows s') (me_id m) = Some (close_old (sv_now env) new m)"
proof -
  have m: "me_status m = ''active''" "me_scope m = ca_scope c" using keyed by (auto simp: find_Some_iff)
  let ?new = "replacement env (ms_next s) (re_extracted c run) m"
  have v: "fields_valid (me_kind m) (me_scope m) ''extracted''"
    using row(2) m(2) c(4) by (simp add: fields_valid_def SOURCES_def MEMORY_KINDS_def)
  obtain s' where rec: "reconcile_and_write renv env judge c run s = Inr (Some ?new, s')"
      and sup: "ms_rows s' = row_upd me_id (me_id m) (close_old (sv_now env) ?new) (row_add ?new (ms_rows s))"
    using keyed_reconcile[OF keyed row(1) row(3) v c(1-3) differ no_tombstones, of renv env judge run] by blast
  have "row_get me_id (ms_rows s') (me_id m) = Some (close_old (sv_now env) ?new m)"
    unfolding sup by (simp add: row_simps row(1))
  with rec show ?thesis
    using m row(2) by (auto simp: replacement_def re_extracted_def memory_visibility_def)
qed

definition house_rule :: memory where
  "house_rule = (note_of 0 ''ann'' ''always ask'')\<lparr>me_kind := ''instruction'', me_entity_key := Some ''deploy''\<rparr>"

definition one_rule :: mem_store where
  "one_rule = empty_store\<lparr>ms_next := 1, ms_rows := [house_rule]\<rparr>"

definition bob_fact :: candidate where
  "bob_fact = tea_candidate\<lparr>ca_text := ''never ask'', ca_entity_key := Some ''deploy''\<rparr>"

theorem extraction_replaces_foreign_instruction_witness:
  "\<exists>new s'. reconcile_and_write ann_recalls (ann_env\<lparr>sv_user := Some ''bob''\<rparr>) (\<lambda>c ns m. ''unrelated'') bob_fact ''run-2'' one_rule
      = Inr (Some new, s')
    \<and> me_kind new = ''instruction'' \<and> me_status new = ''active'' \<and> me_source new = ''extracted''
    \<and> me_text new = ''never ask'' \<and> memory_visibility True None new
    \<and> row_get me_id (ms_rows s') 0 = Some (close_old 0 new house_rule)"
proof -
  have t: "py_lower (me_text house_rule) \<noteq> py_lower (ca_text bob_fact)" "squeeze (ca_text bob_fact) = ''never ask''" by code_simp+
  have h: "find (\<lambda>r. me_entity_key r = ca_entity_key bob_fact \<and> me_status r = ''active'' \<and> me_scope r = ca_scope bob_fact)
        (ms_rows one_rule) = Some house_rule"
      "row_get me_id (ms_rows one_rule) (me_id house_rule) = Some house_rule" "me_kind house_rule = ''instruction''"
      "me_superseded_at house_rule = None" "ca_entity_key bob_fact = Some ''deploy''" "''deploy'' \<noteq> []"
      "ca_kind bob_fact \<noteq> ''instruction''" "ca_scope bob_fact \<in> set SCOPES" "ms_tombstones one_rule = []"
      "me_id house_rule = 0" "sv_now (ann_env\<lparr>sv_user := Some ''bob''\<rparr>) = 0"
    by (simp_all add: bob_fact_def tea_candidate_def one_rule_def house_rule_def note_of_def empty_store_def row_get_def
        SCOPES_def ann_env_def)
  show ?thesis
    using extraction_replaces_foreign_instruction[OF h(1-8) t(1) h(9), of ann_recalls "ann_env\<lparr>sv_user := Some ''bob''\<rparr>"
        "\<lambda>c ns m. ''unrelated''" "''run-2''" None]
    unfolding t(2) h(10,11) .
qed

end
