(* ===== verification/Upkeep.thy ===== *)
theory Upkeep
  imports Ambient_Triggers Settings
begin

text \<open>
  The periodic jobs and the retention purges: the persisted job clock (\<open>backend/app/jobclock.py\<close>), the
  gated, locked job loop (\<open>memory/lifecycle.run_due_jobs\<close>, \<open>memory/scheduler.py\<close>) and the deletion of
  finished rows (\<open>retention.py\<close>). The work of a job is an argument; the replicas that compete for a
  job are a step function over the clock and the advisory locks.
\<close>

section \<open>The job clock\<close>

type_synonym job_clock = "(string \<times> instant) list"

definition last_run :: "job_clock \<Rightarrow> string \<Rightarrow> instant option" where
  "last_run clock job = map_of clock job"

definition job_due :: "job_clock \<Rightarrow> string \<Rightarrow> int \<Rightarrow> instant \<Rightarrow> bool" where
  "job_due clock job interval_s now = (case last_run clock job of
       None \<Rightarrow> True | Some t \<Rightarrow> secs interval_s \<le> now - t)"

definition job_ran :: "string \<Rightarrow> instant \<Rightarrow> job_clock \<Rightarrow> job_clock" where
  "job_ran job now clock = dict_set clock job now"

section \<open>Jobs, gates and intervals\<close>

datatype job = Decay | Reflect | Contradict | Mine | Compact | Communities | Backfill | ExtractTune | OverlapAudit | ExemplarSettle

definition JOB_GATES :: "job \<Rightarrow> string" where
  "JOB_GATES j = (case j of Decay \<Rightarrow> ''memory_decay_enabled'' | Reflect \<Rightarrow> ''memory_reflection_enabled''
     | Contradict \<Rightarrow> ''memory_contradiction_enabled'' | Mine \<Rightarrow> ''procedural_learning_enabled''
     | Compact \<Rightarrow> ''memory_compaction_enabled'' | Communities \<Rightarrow> ''memory_communities_enabled''
     | Backfill \<Rightarrow> ''embedding_model'' | ExtractTune \<Rightarrow> ''memory_extraction_learning''
     | OverlapAudit \<Rightarrow> ''registry_overlap_audit_enabled'' | ExemplarSettle \<Rightarrow> ''procedural_learning_enabled'')"

definition INTERVALS_S :: "job \<Rightarrow> int" where
  "INTERVALS_S j = (case j of Decay \<Rightarrow> 21600 | Reflect \<Rightarrow> 3600 | Contradict \<Rightarrow> 86400 | Mine \<Rightarrow> 43200 | Compact \<Rightarrow> 21600
     | Communities \<Rightarrow> 3600 | Backfill \<Rightarrow> 3600 | ExtractTune \<Rightarrow> 3600 | OverlapAudit \<Rightarrow> 21600 | ExemplarSettle \<Rightarrow> 300)"

definition JOB_NAMES :: "job \<Rightarrow> string" where
  "JOB_NAMES j = (case j of Decay \<Rightarrow> ''memory:decay'' | Reflect \<Rightarrow> ''memory:reflect'' | Contradict \<Rightarrow> ''memory:contradict''
     | Mine \<Rightarrow> ''memory:mine'' | Compact \<Rightarrow> ''memory:compact'' | Communities \<Rightarrow> ''memory:communities''
     | Backfill \<Rightarrow> ''memory:backfill'' | ExtractTune \<Rightarrow> ''memory:extract_tune''
     | OverlapAudit \<Rightarrow> ''registry:overlap_audit'' | ExemplarSettle \<Rightarrow> ''memory:exemplar_settle'')"

definition gate_open :: "pydict \<Rightarrow> string \<Rightarrow> bool" where
  \<comment> \<open>a switch, an \<open>off|propose|auto\<close> mode or a nullable reference\<close>
  "gate_open settings key = (case dict_get settings key of JStr s \<Rightarrow> s \<noteq> ''off'' | v \<Rightarrow> truthy v)"

definition job_clock_due :: "job_clock \<Rightarrow> job \<Rightarrow> instant \<Rightarrow> bool" where
  "job_clock_due clock j now = job_due clock (JOB_NAMES j) (INTERVALS_S j) now"

definition MEMORY_JOBS :: "(job \<times> string) list" where
  "MEMORY_JOBS = [(Decay, ''decay''), (Reflect, ''reflect''), (Contradict, ''contradict''), (Compact, ''compact''),
     (Communities, ''communities''), (Backfill, ''backfill''), (ExtractTune, ''extract_tune''), (ExemplarSettle, ''exemplar_settle'')]"

definition job_admitted :: "pydict \<Rightarrow> job_clock \<Rightarrow> instant \<Rightarrow> job \<Rightarrow> bool" where
  \<comment> \<open>the guards of the loop before the lock\<close>
  "job_admitted settings clock now j \<longleftrightarrow> gate_open settings (JOB_GATES j)
     \<and> \<not> (j = Communities \<and> (case dict_get settings ''memory_community_budget_tokens'' of JInt n \<Rightarrow> n \<le> 0 | v \<Rightarrow> \<not> truthy v))
     \<and> job_clock_due clock j now"

type_synonym job_work = "job \<Rightarrow> nat option"   \<comment> \<open>what the job does: its count, None when it raises\<close>

definition run_locked ::
    "(job \<Rightarrow> bool) \<Rightarrow> job_work \<Rightarrow> instant \<Rightarrow> job \<Rightarrow> string \<Rightarrow> (string \<times> nat) list \<times> job_clock \<Rightarrow> (string \<times> nat) list \<times> job_clock" where
  \<comment> \<open>\<open>locked\<close>: another session holds the advisory lock; a job that raises is not marked as run\<close>
  "run_locked locked work now j name rc = (case rc of (results, clock) \<Rightarrow>
     (if locked j then (results, clock)
      else (case work j of
          None \<Rightarrow> (results, clock)
        | Some n \<Rightarrow> (dict_set results name n, job_ran (JOB_NAMES j) now clock))))"

definition job_step ::
    "pydict \<Rightarrow> (job \<Rightarrow> bool) \<Rightarrow> job_work \<Rightarrow> instant \<Rightarrow> (string \<times> nat) list \<times> job_clock \<Rightarrow> job \<times> string \<Rightarrow> (string \<times> nat) list \<times> job_clock" where
  "job_step settings locked work now rc jn =
     (if job_admitted settings (snd rc) now (fst jn) then run_locked locked work now (fst jn) (snd jn) rc else rc)"

definition run_due_jobs ::
    "pydict \<Rightarrow> (job \<Rightarrow> bool) \<Rightarrow> job_work \<Rightarrow> instant \<Rightarrow> job_clock \<Rightarrow> (string \<times> nat) list \<times> job_clock" where
  \<comment> \<open>mining is not gated here, its own body is\<close>
  "run_due_jobs settings locked work now clock =
     (if \<not> truthy (dict_get settings ''memory_enabled'') then ([], clock)
      else (let rc = foldl (job_step settings locked work now) ([], clock) MEMORY_JOBS
            in if job_clock_due (snd rc) Mine now then run_locked locked work now Mine ''mine'' rc else rc))"

definition maybe_run_overlap_audit ::
    "pydict \<Rightarrow> (job \<Rightarrow> bool) \<Rightarrow> job_work \<Rightarrow> instant \<Rightarrow> job_clock \<Rightarrow> nat option \<times> job_clock" where
  "maybe_run_overlap_audit settings locked work now clock =
     (if \<not> gate_open settings (JOB_GATES OverlapAudit) \<or> \<not> job_clock_due clock OverlapAudit now \<or> locked OverlapAudit
      then (None, clock)
      else (case work OverlapAudit of
          None \<Rightarrow> (None, clock) | Some n \<Rightarrow> (Some n, job_ran (JOB_NAMES OverlapAudit) now clock)))"

section \<open>Replicas and locks\<close>

text \<open>
  One job on several replicas: a replica reads the clock, then tries the advisory lock, works, marks the
  clock and unlocks. Each of these is one database statement, and other replicas act between them.
\<close>

datatype pass_phase = SawDue instant | Holds instant

record job_cluster =
  jc_clock :: "instant option"                      \<comment> \<open>\<open>last_run_at\<close>\<close>
  jc_lock :: "string option"                        \<comment> \<open>the replica whose session holds the lock\<close>
  jc_pass :: "(string \<times> pass_phase) list"          \<comment> \<open>what each replica is doing\<close>
  jc_runs :: "(string \<times> instant) list"             \<comment> \<open>the completed runs\<close>

datatype job_event = ReadsClock string instant | TriesLock string | Completes string | Raises string | ReplicaDies string

definition drop_pass :: "string \<Rightarrow> (string \<times> pass_phase) list \<Rightarrow> (string \<times> pass_phase) list" where
  "drop_pass r ps = filter (\<lambda>p. fst p \<noteq> r) ps"

fun job_race :: "int \<Rightarrow> job_cluster \<Rightarrow> job_event \<Rightarrow> job_cluster" where
  "job_race interval c (ReadsClock r now) =
     (if map_of (jc_pass c) r = None \<and> (case jc_clock c of None \<Rightarrow> True | Some t \<Rightarrow> secs interval \<le> now - t)
      then c\<lparr>jc_pass := dict_set (jc_pass c) r (SawDue now)\<rparr> else c)"
| "job_race interval c (TriesLock r) = (case map_of (jc_pass c) r of
       Some (SawDue now) \<Rightarrow>
         (if jc_lock c = None then c\<lparr>jc_lock := Some r, jc_pass := dict_set (jc_pass c) r (Holds now)\<rparr>
          else c\<lparr>jc_pass := drop_pass r (jc_pass c)\<rparr>)
     | _ \<Rightarrow> c)"
| "job_race interval c (Completes r) = (case map_of (jc_pass c) r of
       Some (Holds now) \<Rightarrow> c\<lparr>jc_clock := Some now, jc_lock := None, jc_pass := drop_pass r (jc_pass c), jc_runs := jc_runs c @ [(r, now)]\<rparr>
     | _ \<Rightarrow> c)"
| "job_race interval c (Raises r) = (case map_of (jc_pass c) r of
       Some (Holds now) \<Rightarrow> c\<lparr>jc_lock := None, jc_pass := drop_pass r (jc_pass c)\<rparr>
     | _ \<Rightarrow> c)"
| "job_race interval c (ReplicaDies r) =
     c\<lparr>jc_lock := (if jc_lock c = Some r then None else jc_lock c), jc_pass := drop_pass r (jc_pass c)\<rparr>"

definition idle_jobs :: job_cluster where
  "idle_jobs = \<lparr>jc_clock = None, jc_lock = None, jc_pass = [], jc_runs = []\<rparr>"

section \<open>Retention\<close>

datatype retention_table = AmbientEvents | Deliveries | AmbientPolicies | PatternInstances | A2aTasks | AuthSessions

definition RETENTION_TABLES :: "retention_table list" where
  "RETENTION_TABLES = [AmbientEvents, Deliveries, AmbientPolicies, PatternInstances, A2aTasks, AuthSessions]"

definition table_name :: "retention_table \<Rightarrow> string" where
  "table_name t = (case t of AmbientEvents \<Rightarrow> ''ambient_events'' | Deliveries \<Rightarrow> ''deliveries''
     | AmbientPolicies \<Rightarrow> ''ambient_policies'' | PatternInstances \<Rightarrow> ''pattern_instances''
     | A2aTasks \<Rightarrow> ''a2a_tasks'' | AuthSessions \<Rightarrow> ''auth_sessions'')"

definition retention_gate :: "pydict \<Rightarrow> retention_table \<Rightarrow> bool" where
  "retention_gate settings t = truthy (dict_get settings (''retention_'' @ table_name t @ ''_enabled''))"

definition window_days :: "pydict \<Rightarrow> retention_table \<Rightarrow> int" where
  "window_days settings t = (case dict_get settings (''retention_'' @ table_name t @ ''_days'') of JInt n \<Rightarrow> max n 1 | _ \<Rightarrow> 1)"

definition retention_cutoff :: "pydict \<Rightarrow> retention_table \<Rightarrow> instant \<Rightarrow> instant" where
  "retention_cutoff settings t now = now - window_days settings t * day_us"

record a2a_row =
  a2_id :: nat
  a2_state :: string
  a2_updated :: instant

definition A2A_TERMINAL_STATES :: "string list" where
  "A2A_TERMINAL_STATES = [''completed'', ''canceled'', ''failed'', ''rejected'']"

definition event_finished :: "instant \<Rightarrow> amb_event list \<Rightarrow> amb_event \<Rightarrow> bool" where
  "event_finished cutoff rows e \<longleftrightarrow> ev_verdict e \<noteq> None \<and> ev_received e < cutoff"

definition delivery_finished :: "instant \<Rightarrow> delivery list \<Rightarrow> delivery \<Rightarrow> bool" where
  "delivery_finished cutoff rows d \<longleftrightarrow> (dl_delivered d \<noteq> None \<or> dl_superseded d \<noteq> None) \<and> dl_created d < cutoff"

definition same_policy :: "policy \<Rightarrow> policy \<Rightarrow> bool" where
  "same_policy p q \<longleftrightarrow> po_category p = po_category q \<and> po_user p = po_user q"

fun latest_policies :: "(instant \<times> policy) list \<Rightarrow> nat list" where
  \<comment> \<open>\<open>DISTINCT ON (category, user_id) ... ORDER BY created_at DESC\<close>; the rows are in the order of \<open>created_at\<close>\<close>
  "latest_policies [] = []"
| "latest_policies (p # ps) =
     (if list_ex (\<lambda>q. same_policy (snd p) (snd q)) ps then latest_policies ps else po_id (snd p) # latest_policies ps)"

definition policy_finished :: "instant \<Rightarrow> (instant \<times> policy) list \<Rightarrow> instant \<times> policy \<Rightarrow> bool" where
  "policy_finished cutoff rows p \<longleftrightarrow> fst p < cutoff \<and> po_id (snd p) \<notin> set (latest_policies rows)"

definition pattern_finished :: "instant \<Rightarrow> (instant \<times> nat \<times> pattern_instance) list \<Rightarrow> instant \<times> nat \<times> pattern_instance \<Rightarrow> bool" where
  "pattern_finished cutoff rows p \<longleftrightarrow> pi_state (snd (snd p)) \<noteq> ''armed'' \<and> fst p < cutoff"

definition task_finished :: "instant \<Rightarrow> a2a_row list \<Rightarrow> a2a_row \<Rightarrow> bool" where
  "task_finished cutoff rows t \<longleftrightarrow> a2_state t \<in> set A2A_TERMINAL_STATES \<and> a2_updated t < cutoff"

definition session_finished :: "instant \<Rightarrow> (nat \<times> auth_session) list \<Rightarrow> nat \<times> auth_session \<Rightarrow> bool" where
  "session_finished cutoff rows s \<longleftrightarrow> as_expires (snd s) < cutoff"

definition BATCH :: nat where
  "BATCH = 5000"

function purge_rows :: "nat \<Rightarrow> ('r \<Rightarrow> nat) \<Rightarrow> ('r list \<Rightarrow> 'r \<Rightarrow> bool) \<Rightarrow> 'r list \<Rightarrow> nat \<times> 'r list" where
  \<comment> \<open>the loop of \<open>purge_table\<close>: ids of one batch, deletion by id, until a batch is short\<close>
  "purge_rows batch key eligible rows =
     (let ids = map key (take batch (filter (eligible rows) rows))
      in if ids = [] then (0, rows)
         else (let rest = filter (\<lambda>r. key r \<notin> set ids) rows
               in if length ids < batch then (length ids, rest)
                  else (case purge_rows batch key eligible rest of (n, rest') \<Rightarrow> (length ids + n, rest'))))"
  by pat_completeness auto
termination
proof (relation "measure (\<lambda>(batch, key, eligible, rows). length rows)", simp)
  fix batch :: nat and key :: "'r \<Rightarrow> nat" and eligible :: "'r list \<Rightarrow> 'r \<Rightarrow> bool" and rows :: "'r list" and ids rest
  assume ids: "ids = map key (take batch (filter (eligible rows) rows))" "ids \<noteq> []" and rest: "rest = filter (\<lambda>r. key r \<notin> set ids) rows"
  then obtain r where "r \<in> set (take batch (filter (eligible rows) rows))" by (metis list.set_intros(1) map_is_Nil_conv neq_Nil_conv)
  then have "r \<in> set rows" "key r \<in> set ids" unfolding ids(1) using in_set_takeD by fastforce+
  then have "length rest < length rows" unfolding rest by (intro length_filter_less) auto
  then show "((batch, key, eligible, rest), batch, key, eligible, rows) \<in> measure (\<lambda>(batch, key, eligible, rows). length rows)" by simp
qed

declare purge_rows.simps [simp del]

record retained =
  rt_events :: "amb_event list"
  rt_deliveries :: "delivery list"
  rt_policies :: "(instant \<times> policy) list"
  rt_patterns :: "(instant \<times> nat \<times> pattern_instance) list"
  rt_tasks :: "a2a_row list"
  rt_sessions :: "(nat \<times> auth_session) list"

definition purge_table :: "pydict \<Rightarrow> instant \<Rightarrow> retention_table \<Rightarrow> retained \<Rightarrow> nat \<times> retained" where
  "purge_table settings now t s =
     (let c = retention_cutoff settings t now in
      if \<not> retention_gate settings t then (0, s)
      else (case t of
          AmbientEvents \<Rightarrow> (case purge_rows BATCH ev_id (event_finished c) (rt_events s) of (n, rs) \<Rightarrow> (n, s\<lparr>rt_events := rs\<rparr>))
        | Deliveries \<Rightarrow> (case purge_rows BATCH dl_id (delivery_finished c) (rt_deliveries s) of (n, rs) \<Rightarrow> (n, s\<lparr>rt_deliveries := rs\<rparr>))
        | AmbientPolicies \<Rightarrow>
            (case purge_rows BATCH (\<lambda>p. po_id (snd p)) (policy_finished c) (rt_policies s) of (n, rs) \<Rightarrow> (n, s\<lparr>rt_policies := rs\<rparr>))
        | PatternInstances \<Rightarrow>
            (case purge_rows BATCH (\<lambda>p. fst (snd p)) (pattern_finished c) (rt_patterns s) of (n, rs) \<Rightarrow> (n, s\<lparr>rt_patterns := rs\<rparr>))
        | A2aTasks \<Rightarrow> (case purge_rows BATCH a2_id (task_finished c) (rt_tasks s) of (n, rs) \<Rightarrow> (n, s\<lparr>rt_tasks := rs\<rparr>))
        | AuthSessions \<Rightarrow> (case purge_rows BATCH fst (session_finished c) (rt_sessions s) of (n, rs) \<Rightarrow> (n, s\<lparr>rt_sessions := rs\<rparr>))))"

fun purge_tables :: "pydict \<Rightarrow> instant \<Rightarrow> retention_table list \<Rightarrow> retained \<Rightarrow> (string \<times> nat) list \<times> retained" where
  "purge_tables settings now [] s = ([], s)"
| "purge_tables settings now (t # ts) s = (case purge_table settings now t s of
       (n, s1) \<Rightarrow> (case purge_tables settings now ts s1 of (results, s2) \<Rightarrow> ((table_name t, n) # results, s2)))"

definition run_retention :: "bool \<Rightarrow> pydict \<Rightarrow> instant \<Rightarrow> retained \<Rightarrow> (string \<times> nat) list \<times> retained" where
  "run_retention locked settings now s = (if locked then ([], s) else purge_tables settings now RETENTION_TABLES s)"

definition RETENTION_INTERVAL_S :: int where
  "RETENTION_INTERVAL_S = 3600"

definition maybe_run_retention ::
    "bool \<Rightarrow> pydict \<Rightarrow> instant \<Rightarrow> job_clock \<Rightarrow> retained \<Rightarrow> (string \<times> nat) list option \<times> job_clock \<times> retained" where
  "maybe_run_retention locked settings now clock s =
     (if \<not> job_due clock ''retention'' RETENTION_INTERVAL_S now then (None, clock, s)
      else (case run_retention locked settings now s of (results, s1) \<Rightarrow> (Some results, job_ran ''retention'' now clock, s1)))"

definition eligible_counts :: "pydict \<Rightarrow> instant \<Rightarrow> retained \<Rightarrow> (string \<times> nat) list" where
  \<comment> \<open>what each purge would delete, whatever its gate\<close>
  "eligible_counts settings now s = map (\<lambda>t. (table_name t, let c = retention_cutoff settings t now in case t of
          AmbientEvents \<Rightarrow> length (filter (event_finished c (rt_events s)) (rt_events s))
        | Deliveries \<Rightarrow> length (filter (delivery_finished c (rt_deliveries s)) (rt_deliveries s))
        | AmbientPolicies \<Rightarrow> length (filter (policy_finished c (rt_policies s)) (rt_policies s))
        | PatternInstances \<Rightarrow> length (filter (pattern_finished c (rt_patterns s)) (rt_patterns s))
        | A2aTasks \<Rightarrow> length (filter (task_finished c (rt_tasks s)) (rt_tasks s))
        | AuthSessions \<Rightarrow> length (filter (session_finished c (rt_sessions s)) (rt_sessions s)))) RETENTION_TABLES"

end
