(* ===== verification/Upkeep_Laws.thy ===== *)
theory Upkeep_Laws
  imports Upkeep
begin

text \<open>
  What the upkeep guarantees: batched purges delete exactly the finished rows of the gated tables, and
  one replica at a time holds a job. And what it does not: a job can run twice in one interval, and the
  policy in force can be purged behind a newer proposal.
\<close>

section \<open>Batched deletion\<close>

locale purging =
  fixes key :: "'r \<Rightarrow> nat" and eligible :: "'r list \<Rightarrow> 'r \<Rightarrow> bool"
  assumes stable: "(\<And>r. r \<in> set rows \<Longrightarrow> \<not> eligible rows r \<Longrightarrow> Q (key r)) \<Longrightarrow> r \<in> set rows
    \<Longrightarrow> eligible (filter (\<lambda>r. Q (key r)) rows) r = eligible rows r"
begin

lemma batch_rest:
  assumes d: "distinct (map key rows)" and ids: "ids = map key (take batch (filter (eligible rows) rows))"
    and rest: "rest = filter (\<lambda>r. key r \<notin> set ids) rows"
  shows "filter (eligible rest) rest = drop batch (filter (eligible rows) rows)"
    and "filter (\<lambda>r. \<not> eligible rest r) rest = filter (\<lambda>r. \<not> eligible rows r) rows"
    and "distinct (map key rest)"
proof -
  obtain hits where hits: "hits = filter (eligible rows) rows" by blast
  have taken: "key r \<notin> set ids \<longleftrightarrow> r \<notin> set (take batch hits)" if "r \<in> set rows" for r
    using that d set_take_subset[of batch hits] unfolding ids hits by (auto simp: distinct_map dest: inj_onD)
  then have rest': "rest = filter (\<lambda>r. r \<notin> set (take batch hits)) rows" unfolding rest by (intro filter_cong) auto
  have "eligible rest r = eligible rows r" if "r \<in> set rows" for r
    unfolding rest
  proof (rule stable[OF _ that])
    fix r assume "r \<in> set rows" "\<not> eligible rows r"
    then show "key r \<notin> set ids" using taken set_take_subset[of batch hits] unfolding hits by auto
  qed
  then have same: "filter (eligible rest) rest = filter (eligible rows) rest"
    "filter (\<lambda>r. \<not> eligible rest r) rest = filter (\<lambda>r. \<not> eligible rows r) rest"
    unfolding rest by (auto intro!: filter_cong)
  have split: "filter (\<lambda>r. r \<notin> set (take n xs)) xs = drop n xs" if "distinct xs" for n and xs :: "'r list"
  proof -
    have "set (take n xs) \<inter> set (drop n xs) = {}" using that by (rule set_take_disj_set_drop_if_distinct) simp
    then have "filter (\<lambda>r. r \<notin> set (take n xs)) (take n xs @ drop n xs) = drop n xs"
      unfolding filter_append by (simp add: filter_empty_conv disjoint_iff filter_id_conv) (metis filter_True)
    then show ?thesis by simp
  qed
  have "filter (eligible rows) rest = filter (\<lambda>r. r \<notin> set (take batch hits)) hits"
    unfolding rest' hits by (simp add: conj_commute)
  also have "\<dots> = drop batch hits" using d unfolding hits by (intro split) (simp add: distinct_map)
  finally show "filter (eligible rest) rest = drop batch (filter (eligible rows) rows)" by (simp add: same hits)
  have "filter (\<lambda>r. \<not> eligible rows r) rest = filter (\<lambda>r. \<not> eligible rows r) rows"
    unfolding rest' filter_filter using set_take_subset[of batch hits] unfolding hits by (intro filter_cong) auto
  then show "filter (\<lambda>r. \<not> eligible rest r) rest = filter (\<lambda>r. \<not> eligible rows r) rows" by (simp add: same)
  show "distinct (map key rest)" using d unfolding rest by (rule distinct_map_filter)
qed

lemma purge_is_filter:
  "distinct (map key rows) \<Longrightarrow> 0 < batch \<Longrightarrow>
   purge_rows batch key eligible rows = (length (filter (eligible rows) rows), filter (\<lambda>r. \<not> eligible rows r) rows)"
proof (induction "length rows" arbitrary: rows rule: less_induct)
  case less
  obtain hits where hits: "hits = filter (eligible rows) rows" by blast
  obtain ids where ids: "ids = map key (take batch hits)" by blast
  obtain rest where rest: "rest = filter (\<lambda>r. key r \<notin> set ids) rows" by blast
  note facts = batch_rest[OF less.prems(1) ids[unfolded hits] rest]
  show ?case
  proof (cases "ids = []")
    case True
    then have "hits = []" using less.prems(2) ids by (cases hits; cases batch) auto
    moreover have "filter (\<lambda>r. \<not> eligible rows r) rows = rows"
      using calculation unfolding hits by (auto simp: filter_empty_conv intro: filter_True)
    ultimately show ?thesis using True ids hits by (subst purge_rows.simps) (simp add: Let_def)
  next
    case False
    then obtain r where "r \<in> set (take batch hits)" using ids by (cases "take batch hits") auto
    then have "r \<in> set rows" "key r \<in> set ids" using in_set_takeD[of r batch hits] ids hits by auto
    then have shrink: "length rest < length rows" unfolding rest by (intro length_filter_less) auto
    have step: "purge_rows batch key eligible rows = (if length ids < batch then (length ids, rest)
        else (case purge_rows batch key eligible rest of (n, rest') \<Rightarrow> (length ids + n, rest')))"
      using False ids hits rest by (subst purge_rows.simps) (simp add: Let_def)
    show ?thesis
    proof (cases "length ids < batch")
      case True
      then have "length hits \<le> batch" "length ids = length hits" using ids by auto
      then have "filter (eligible rest) rest = []" using facts(1) unfolding hits[symmetric] by simp
      then have "filter (\<lambda>r. \<not> eligible rest r) rest = rest" by (auto simp: filter_empty_conv intro: filter_True)
      then show ?thesis using step True facts(2) \<open>length ids = length hits\<close> hits by simp
    next
      case False
      then have "length ids = batch" "batch \<le> length hits" using ids by auto
      then show ?thesis
        using step False less.hyps[OF shrink facts(3) less.prems(2)] facts(1,2) hits by simp
    qed
  qed
qed

end

lemma latest_exists:
  "q \<in> set ps \<Longrightarrow> \<exists>q' \<in> set ps. same_policy (snd q) (snd q') \<and> po_id (snd q') \<in> set (latest_policies ps)"
proof (induction ps arbitrary: q)
  case (Cons p ps)
  have keeps: "set (latest_policies ps) \<subseteq> set (latest_policies (p # ps))" by auto
  show ?case
  proof (cases "list_ex (\<lambda>r. same_policy (snd q) (snd r)) ps")
    case True
    then obtain r where r: "r \<in> set ps" "same_policy (snd q) (snd r)" by (auto simp: list_ex_iff)
    then show ?thesis using Cons.IH[OF r(1)] keeps by (auto simp: same_policy_def)
  next
    case False
    then have "q = p" using Cons.prems by (auto simp: same_policy_def list_ex_iff)
    then show ?thesis using False by (simp add: same_policy_def)
  qed
qed simp

lemma latest_kept:
  assumes "\<And>i. i \<in> set (latest_policies rows) \<Longrightarrow> Q i"
  shows "latest_policies (filter (\<lambda>p. Q (po_id (snd p))) rows) = latest_policies rows"
  using assms
proof (induction rows)
  case (Cons p ps)
  have IH: "latest_policies (filter (\<lambda>p. Q (po_id (snd p))) ps) = latest_policies ps"
    using Cons.IH Cons.prems by (metis latest_policies.simps(2) list.set_intros(2))
  have later: "list_ex (\<lambda>q. same_policy (snd p) (snd q)) (filter (\<lambda>p. Q (po_id (snd p))) ps)"
    if l: "list_ex (\<lambda>q. same_policy (snd p) (snd q)) ps"
  proof -
    obtain r where r: "r \<in> set ps" "same_policy (snd p) (snd r)" using l by (auto simp: list_ex_iff)
    obtain q where "q \<in> set ps" "same_policy (snd r) (snd q)" "po_id (snd q) \<in> set (latest_policies ps)"
      using latest_exists[OF r(1)] by blast
    moreover have "Q (po_id (snd q))" using Cons.prems l calculation(3) by simp
    ultimately show ?thesis using r(2) unfolding list_ex_iff by (intro bexI[of _ q]) (auto simp: same_policy_def)
  qed
  show ?case
  proof (cases "list_ex (\<lambda>q. same_policy (snd p) (snd q)) ps")
    case True
    then show ?thesis using IH later by simp
  next
    case False
    then have "Q (po_id (snd p))" "\<not> list_ex (\<lambda>q. same_policy (snd p) (snd q)) (filter (\<lambda>p. Q (po_id (snd p))) ps)"
      using Cons.prems by (auto simp: list_ex_iff)
    then show ?thesis using IH False by simp
  qed
qed simp

interpretation events: purging ev_id "event_finished c" by unfold_locales (simp add: event_finished_def)
interpretation outbox: purging dl_id "delivery_finished c" by unfold_locales (simp add: delivery_finished_def)
interpretation patterns: purging "\<lambda>p. fst (snd p)" "pattern_finished c" by unfold_locales (simp add: pattern_finished_def)
interpretation tasks: purging a2_id "task_finished c" by unfold_locales (simp add: task_finished_def)
interpretation sessions: purging fst "session_finished c" by unfold_locales (simp add: session_finished_def)

interpretation policies: purging "\<lambda>p. po_id (snd p)" "policy_finished c"
proof unfold_locales
  fix rows Q and r :: "instant \<times> policy"
  assume keep: "\<And>r. r \<in> set rows \<Longrightarrow> \<not> policy_finished c rows r \<Longrightarrow> Q (po_id (snd r))"
  have in_rows: "\<exists>r \<in> set rows. po_id (snd r) = i" if "i \<in> set (latest_policies rows)" for i and rows :: "(instant \<times> policy) list"
    using that by (induction rows) (auto split: if_splits)
  have "Q i" if "i \<in> set (latest_policies rows)" for i
    using in_rows[OF that] keep that by (auto simp: policy_finished_def)
  then show "policy_finished c (filter (\<lambda>r. Q (po_id (snd r))) rows) r = policy_finished c rows r"
    by (simp add: policy_finished_def latest_kept)
qed

definition ids_distinct :: "retained \<Rightarrow> bool" where
  \<comment> \<open>primary keys\<close>
  "ids_distinct s \<longleftrightarrow> distinct (map ev_id (rt_events s)) \<and> distinct (map dl_id (rt_deliveries s))
     \<and> distinct (map (\<lambda>p. po_id (snd p)) (rt_policies s)) \<and> distinct (map (\<lambda>p. fst (snd p)) (rt_patterns s))
     \<and> distinct (map a2_id (rt_tasks s)) \<and> distinct (map fst (rt_sessions s))"

definition unfinished :: "bool \<Rightarrow> ('r list \<Rightarrow> 'r \<Rightarrow> bool) \<Rightarrow> 'r list \<Rightarrow> 'r list" where
  \<comment> \<open>the reference: what a purge behind this gate leaves\<close>
  "unfinished on finished rows = (if on then filter (\<lambda>r. \<not> finished rows r) rows else rows)"

lemma batch_pos: "0 < BATCH"
  by (simp add: BATCH_def)

lemma purge_one:
  "distinct (map ev_id (rt_events s)) \<Longrightarrow> snd (purge_table settings now AmbientEvents s)
     = s\<lparr>rt_events := unfinished (retention_gate settings AmbientEvents) (event_finished (retention_cutoff settings AmbientEvents now)) (rt_events s)\<rparr>"
  "distinct (map dl_id (rt_deliveries s)) \<Longrightarrow> snd (purge_table settings now Deliveries s)
     = s\<lparr>rt_deliveries := unfinished (retention_gate settings Deliveries) (delivery_finished (retention_cutoff settings Deliveries now)) (rt_deliveries s)\<rparr>"
  "distinct (map (\<lambda>p. po_id (snd p)) (rt_policies s)) \<Longrightarrow> snd (purge_table settings now AmbientPolicies s)
     = s\<lparr>rt_policies := unfinished (retention_gate settings AmbientPolicies) (policy_finished (retention_cutoff settings AmbientPolicies now)) (rt_policies s)\<rparr>"
  "distinct (map (\<lambda>p. fst (snd p)) (rt_patterns s)) \<Longrightarrow> snd (purge_table settings now PatternInstances s)
     = s\<lparr>rt_patterns := unfinished (retention_gate settings PatternInstances) (pattern_finished (retention_cutoff settings PatternInstances now)) (rt_patterns s)\<rparr>"
  "distinct (map a2_id (rt_tasks s)) \<Longrightarrow> snd (purge_table settings now A2aTasks s)
     = s\<lparr>rt_tasks := unfinished (retention_gate settings A2aTasks) (task_finished (retention_cutoff settings A2aTasks now)) (rt_tasks s)\<rparr>"
  "distinct (map fst (rt_sessions s)) \<Longrightarrow> snd (purge_table settings now AuthSessions s)
     = s\<lparr>rt_sessions := unfinished (retention_gate settings AuthSessions) (session_finished (retention_cutoff settings AuthSessions now)) (rt_sessions s)\<rparr>"
  by (simp_all add: purge_table_def Let_def unfinished_def case_prod_beta events.purge_is_filter[OF _ batch_pos]
      outbox.purge_is_filter[OF _ batch_pos] policies.purge_is_filter[OF _ batch_pos] patterns.purge_is_filter[OF _ batch_pos]
      tasks.purge_is_filter[OF _ batch_pos] sessions.purge_is_filter[OF _ batch_pos])

text \<open>
  One retention pass, batch by batch, leaves exactly what the reference leaves: in a table whose
  gate is on the rows that are not finished or not older than its window, in order, and every row of a
  table whose gate is off. So no pending event, undelivered delivery, armed pattern, open task or
  current session is ever deleted, nor the newest policy row of a category and owner.
\<close>

theorem retention_deletes_only_finished:
  assumes "ids_distinct s"
  shows "snd (run_retention False settings now s) =
     \<lparr>rt_events = unfinished (retention_gate settings AmbientEvents) (event_finished (retention_cutoff settings AmbientEvents now)) (rt_events s),
      rt_deliveries = unfinished (retention_gate settings Deliveries) (delivery_finished (retention_cutoff settings Deliveries now)) (rt_deliveries s),
      rt_policies = unfinished (retention_gate settings AmbientPolicies) (policy_finished (retention_cutoff settings AmbientPolicies now)) (rt_policies s),
      rt_patterns = unfinished (retention_gate settings PatternInstances) (pattern_finished (retention_cutoff settings PatternInstances now)) (rt_patterns s),
      rt_tasks = unfinished (retention_gate settings A2aTasks) (task_finished (retention_cutoff settings A2aTasks now)) (rt_tasks s),
      rt_sessions = unfinished (retention_gate settings AuthSessions) (session_finished (retention_cutoff settings AuthSessions now)) (rt_sessions s)\<rparr>"
proof -
  have "snd (run_retention False settings now s) = snd (purge_table settings now AuthSessions (snd (purge_table settings now A2aTasks
      (snd (purge_table settings now PatternInstances (snd (purge_table settings now AmbientPolicies
      (snd (purge_table settings now Deliveries (snd (purge_table settings now AmbientEvents s)))))))))))"
    by (simp add: run_retention_def RETENTION_TABLES_def case_prod_beta)
  then show ?thesis
    using assms unfolding ids_distinct_def
    by (cases s) (simp add: purge_one)
qed

definition old_policies :: "int \<Rightarrow> string \<Rightarrow> (instant \<times> policy) list" where
  \<comment> \<open>the override in force and a proposal the learner made a microsecond later\<close>
  "old_policies tier category =
     [(0, \<lparr>po_id = 0, po_user = None, po_category = category, po_override = Some tier, po_source = ''user'', po_precision = None\<rparr>),
      (1, \<lparr>po_id = 1, po_user = None, po_category = category, po_override = Some 3, po_source = ''learner_proposal'', po_precision = None\<rparr>)]"

definition month_settings :: pydict where
  "month_settings = [(''retention_ambient_policies_enabled'', JBool True), (''retention_ambient_policies_days'', JInt 30)]"

definition quiet_tables :: retained where
  "quiet_tables = \<lparr>rt_events = [], rt_deliveries = [], rt_policies = [], rt_patterns = [], rt_tasks = [],
     rt_sessions = [(0, \<lparr>as_user = ''u'', as_hash = ''h'', as_expires = 5\<rparr>), (1, \<lparr>as_user = ''v'', as_hash = ''k'', as_expires = 100 * day_us\<rparr>)]\<rparr>"

definition session_settings :: pydict where
  "session_settings = [(''retention_auth_sessions_enabled'', JBool True), (''retention_auth_sessions_days'', JInt 1)]"

theorem retention_deletes_only_finished_witness:
  "rt_sessions (snd (run_retention False session_settings (10 * day_us) quiet_tables))
     = [(1, \<lparr>as_user = ''v'', as_hash = ''k'', as_expires = 100 * day_us\<rparr>)]"
proof -
  have "ids_distinct quiet_tables" by (simp add: ids_distinct_def quiet_tables_def)
  moreover have "retention_gate session_settings AuthSessions"
    "retention_cutoff session_settings AuthSessions (10 * day_us) = 9 * day_us"
    by (simp_all add: retention_gate_def session_settings_def table_name_def dict_get_def retention_cutoff_def window_days_def)
  ultimately show ?thesis
    using retention_deletes_only_finished[of quiet_tables session_settings "10 * day_us"]
    by (simp add: unfinished_def quiet_tables_def session_finished_def day_us_def)
qed

text \<open>
  The policy in force can be purged: \<open>current_policy\<close> skips a learner's proposals, retention does
  not. With an override set by the user and a newer proposal that nobody accepted, one pass with the
  gate of the policy table on deletes the override, and the category falls back to no policy.
\<close>

theorem retention_forgets_policy_in_force:
  "let s = quiet_tables\<lparr>rt_policies := old_policies tier category\<rparr>;
       s' = snd (run_retention False month_settings (100 * day_us) s)
   in current_policy category None (outbox_init\<lparr>ob_policies := map snd (rt_policies s)\<rparr>) = (Some tier, Some 0)
    \<and> current_policy category None (outbox_init\<lparr>ob_policies := map snd (rt_policies s')\<rparr>) = (None, None)"
proof -
  obtain s where s: "s = quiet_tables\<lparr>rt_policies := old_policies tier category\<rparr>" by blast
  have gate: "retention_gate month_settings AmbientPolicies"
    "retention_cutoff month_settings AmbientPolicies (100 * day_us) = 70 * day_us"
    by (simp_all add: retention_gate_def month_settings_def table_name_def dict_get_def retention_cutoff_def window_days_def)
  have off: "\<not> retention_gate month_settings t" if "t \<noteq> AmbientPolicies" for t
    using that by (cases t) (simp_all add: retention_gate_def month_settings_def table_name_def dict_get_def)
  have "rt_policies (snd (run_retention False month_settings (100 * day_us) s))
      = filter (\<lambda>p. \<not> policy_finished (70 * day_us) (rt_policies s) p) (rt_policies s)"
    using purge_one(3)[of s month_settings "100 * day_us"]
    by (simp add: run_retention_def RETENTION_TABLES_def case_prod_beta s gate unfinished_def old_policies_def
        purge_table_def[of month_settings "100 * day_us" AmbientEvents] purge_table_def[of month_settings "100 * day_us" Deliveries]
        purge_table_def[of month_settings "100 * day_us" PatternInstances] purge_table_def[of month_settings "100 * day_us" A2aTasks]
        purge_table_def[of month_settings "100 * day_us" AuthSessions] off Let_def)
  then show ?thesis
    by (simp add: Let_def s[symmetric])
       (simp add: s old_policies_def policy_finished_def same_policy_def current_policy_def Let_def day_us_def)
qed

section \<open>One job, many replicas\<close>

fun is_holds :: "pass_phase \<Rightarrow> bool" where
  "is_holds (Holds t) = True"
| "is_holds (SawDue t) = False"

definition holders :: "job_cluster \<Rightarrow> string list" where
  "holders c = map fst (filter (\<lambda>p. is_holds (snd p)) (jc_pass c))"

definition locks_ok :: "job_cluster \<Rightarrow> bool" where
  "locks_ok c \<longleftrightarrow> distinct (map fst (jc_pass c))
     \<and> (\<forall>r. (\<exists>t. map_of (jc_pass c) r = Some (Holds t)) \<longleftrightarrow> jc_lock c = Some r)"

lemma drop_pass_simps [simp]:
  "map_of (drop_pass r ps) q = (if q = r then None else map_of ps q)"
  "distinct (map fst ps) \<Longrightarrow> distinct (map fst (drop_pass r ps))"
  by (induction ps) (auto simp: drop_pass_def)

lemma locks_ok_step: "locks_ok c \<Longrightarrow> locks_ok (job_race interval c e)"
  apply (cases e)
      apply (auto simp: locks_ok_def distinct_dict_set simp del: map_of_eq_Some_iff Some_eq_map_of_iff
      split: option.splits pass_phase.splits if_splits)
       apply (metis option.distinct(1) option.inject pass_phase.distinct(1))+
  done

interpretation locks: inv_system "job_race interval" locks_ok
  by unfold_locales (rule locks_ok_step)

lemma holder_locks:
  assumes ok: "locks_ok c" and r: "r \<in> set (holders c)"
  shows "jc_lock c = Some r"
proof -
  obtain ph where ph: "(r, ph) \<in> set (jc_pass c)" "is_holds ph" using r by (auto simp: holders_def)
  then obtain t where "ph = Holds t" by (cases ph) auto
  then have "map_of (jc_pass c) r = Some (Holds t)" using ph(1) ok by (simp add: locks_ok_def)
  then show ?thesis using ok by (auto simp: locks_ok_def simp del: map_of_eq_Some_iff Some_eq_map_of_iff)
qed

lemma holders_are_one:
  assumes "locks_ok c"
  shows "length (holders c) \<le> 1"
proof -
  have "set (holders c) \<subseteq> set_option (jc_lock c)" using holder_locks[OF assms] by auto
  then have "card (set (holders c)) \<le> card (set_option (jc_lock c))" by (rule card_mono[rotated]) simp
  also have "\<dots> \<le> 1" by (cases "jc_lock c") simp_all
  finally show ?thesis
    using assms distinct_card[of "holders c"] by (simp add: locks_ok_def holders_def distinct_map_filter)
qed

text \<open>
  Whatever the replicas do and whenever one of them dies, at most one replica at a time is inside
  a job, and it is the one whose session holds the advisory lock.
\<close>

theorem one_replica_per_job:
  "length (holders (foldl (job_race interval) idle_jobs es)) \<le> 1
   \<and> set (holders (foldl (job_race interval) idle_jobs es)) \<subseteq> set_option (jc_lock (foldl (job_race interval) idle_jobs es))"
proof -
  have ok: "locks_ok (foldl (job_race interval) idle_jobs es)"
    by (rule locks.run_inv) (simp add: locks_ok_def idle_jobs_def)
  show ?thesis using holders_are_one[OF ok] holder_locks[OF ok] by auto
qed

text \<open>
  The lock guards concurrency, not the interval: the clock is read before the lock is tried and
  not again under it. A replica that read the clock before another one finished runs the job a second
  time right after it, however long the interval is.
\<close>

theorem job_runs_twice_in_an_interval:
  "jc_runs (foldl (job_race interval) idle_jobs
      [ReadsClock ''a'' t, ReadsClock ''b'' t, TriesLock ''a'', Completes ''a'', TriesLock ''b'', Completes ''b''])
     = [(''a'', t), (''b'', t)]"
  by (simp add: idle_jobs_def drop_pass_def)

end
