(* ===== verification/Procedural.thy ===== *)
theory Procedural
  imports Memory_Store Run_Lifecycle
begin

text \<open>
  Procedural learning (\<open>backend/app/memory/procedural.py\<close>) and the overlap guard it asks
  (\<open>backend/app/overlap.py\<close>): routing statistics, plan exemplars with their votes, the deferred verdict
  of the next turn, and the mining of skill proposals from fallback runs. The two legs of the recall, the
  embedding and the judge are arguments; \<open>snapshot["exemplar_vote"]\<close> of a run is a record.
\<close>

section \<open>Tables\<close>

record vote_note =
  vn_ids :: "nat list"
  vn_harvested :: "nat list"
  vn_status :: string
  vn_at :: instant
  vn_by :: "string option"

record learn_run =
  lr_id :: string
  lr_conversation :: string
  lr_status :: run_status
  lr_mode :: string
  lr_message :: string
  lr_plan :: pydict
  lr_started :: instant
  lr_finished :: "instant option"
  lr_in :: nat
  lr_out :: nat
  lr_vote :: "vote_note option"

record learn_step =
  ls_run :: string
  ls_type :: string
  ls_node :: string
  ls_output :: pydict

record exemplar =
  ex_id :: nat
  ex_run :: string
  ex_task :: string
  ex_mode :: string
  ex_trace :: pydict
  ex_votes :: int
  ex_status :: string

record routing_stat =
  rs_key :: string
  rs_rung :: string
  rs_entity :: "string option"
  rs_name :: "string option"
  rs_total :: nat
  rs_completed :: nat
  rs_failed :: nat
  rs_denied :: nat
  rs_mean_in :: real
  rs_mean_out :: real
  rs_mean_ms :: real
  rs_last :: instant

record learning =
  lg_runs :: "learn_run list"
  lg_steps :: "learn_step list"
  lg_exemplars :: "exemplar list"
  lg_vectors :: "(nat \<times> string \<times> real list) list"   \<comment> \<open>exemplar, model key, vector\<close>
  lg_stats :: "routing_stat list"

definition steps_of :: "string \<Rightarrow> learning \<Rightarrow> learn_step list" where
  "steps_of rid s = filter (\<lambda>x. ls_run x = rid) (lg_steps s)"

definition any_denied :: "learn_step list \<Rightarrow> bool" where
  "any_denied steps \<longleftrightarrow> list_ex (\<lambda>x. ls_type x = ''hitl'' \<and> dict_get (ls_output x) ''status'' = JStr ''denied'') steps"

section \<open>Routing statistics\<close>

definition capability_key :: "(json \<Rightarrow> string) \<Rightarrow> pydict \<Rightarrow> string" where
  "capability_key render out =
     (let resolved = as_dict (dict_get out ''resolved_to'');
          i = dict_get resolved ''entity_id''; n = dict_get resolved ''entity_name''
      in take 320 (py_str render (dict_get out ''rung'') @ '':'' @
           (if truthy i then py_str render i else if truthy n then py_str render n else ''-'')))"

definition new_stat :: "(json \<Rightarrow> string) \<Rightarrow> instant \<Rightarrow> pydict \<Rightarrow> routing_stat" where
  "new_stat render now out =
     (let resolved = as_dict (dict_get out ''resolved_to'') in
      \<lparr>rs_key = capability_key render out, rs_rung = py_str render (dict_get out ''rung''),
       rs_entity = (if truthy (dict_get resolved ''entity_id'') then Some (py_str render (dict_get resolved ''entity_id'')) else None),
       rs_name = (case dict_get resolved ''entity_name'' of JStr n \<Rightarrow> Some n | _ \<Rightarrow> None),
       rs_total = 0, rs_completed = 0, rs_failed = 0, rs_denied = 0, rs_mean_in = 0, rs_mean_out = 0, rs_mean_ms = 0, rs_last = now\<rparr>)"

definition running_mean :: "real \<Rightarrow> nat \<Rightarrow> real \<Rightarrow> real" where
  "running_mean mean n x = (mean * real n + x) / real (n + 1)"

definition duration_ms :: "learn_run \<Rightarrow> real" where
  "duration_ms r = (case lr_finished r of None \<Rightarrow> 0 | Some t \<Rightarrow> real_of_int (t - lr_started r) / 1000)"

definition fold_run :: "instant \<Rightarrow> learn_run \<Rightarrow> bool \<Rightarrow> routing_stat \<Rightarrow> routing_stat" where
  "fold_run now r denied st =
     st\<lparr>rs_total := rs_total st + 1,
        rs_completed := rs_completed st + (if lr_status r = Completed then 1 else 0),
        rs_failed := rs_failed st + (if lr_status r = Completed then 0 else 1),
        rs_denied := rs_denied st + (if denied then 1 else 0),
        rs_mean_in := running_mean (rs_mean_in st) (rs_total st) (real (lr_in r)),
        rs_mean_out := running_mean (rs_mean_out st) (rs_total st) (real (lr_out r)),
        rs_mean_ms := running_mean (rs_mean_ms st) (rs_total st) (duration_ms r), rs_last := now\<rparr>"

definition fold_step :: "(json \<Rightarrow> string) \<Rightarrow> instant \<Rightarrow> learn_run \<Rightarrow> bool \<Rightarrow> learn_step \<Rightarrow> routing_stat list \<Rightarrow> routing_stat list" where
  "fold_step render now r denied x stats =
     (let key = capability_key render (ls_output x) in
      if \<not> truthy (dict_get (ls_output x) ''rung'') then stats
      else row_upd rs_key key (fold_run now r denied)
             (if row_get rs_key stats key = None then row_add (new_stat render now (ls_output x)) stats else stats))"

definition update_routing_stats :: "(json \<Rightarrow> string) \<Rightarrow> instant \<Rightarrow> string \<Rightarrow> learning \<Rightarrow> learning" where
  "update_routing_stats render now rid s = (case row_get lr_id (lg_runs s) rid of
       None \<Rightarrow> s
     | Some r \<Rightarrow>
         (if lr_status r \<noteq> Completed \<and> lr_status r \<noteq> Failed then s
          else s\<lparr>lg_stats := fold (fold_step render now r (any_denied (steps_of rid s)))
                  (filter (\<lambda>x. ls_type x = ''route'') (steps_of rid s)) (lg_stats s)\<rparr>))"

section \<open>Harvest\<close>

definition positive_signal :: "learn_run \<Rightarrow> learn_step list \<Rightarrow> bool" where
  "positive_signal r steps \<longleftrightarrow> lr_status r = Completed \<and> \<not> any_denied steps"

definition route_entry :: "learn_step \<Rightarrow> json" where
  "route_entry x = JDict [(''rung'', dict_get (ls_output x) ''rung''),
     (''entity'', dict_get (as_dict (dict_get (ls_output x) ''resolved_to'')) ''entity_name'')]"

definition routes_of :: "learn_step list \<Rightarrow> json list" where
  "routes_of steps = map route_entry (filter (\<lambda>x. ls_type x = ''route'' \<and> truthy (dict_get (ls_output x) ''rung'')) steps)"

definition task_text :: "learn_run \<Rightarrow> string" where
  "task_text r = take 1000 (squeeze (lr_message r))"

definition new_exemplar :: "nat \<Rightarrow> learn_run \<Rightarrow> learn_step list \<Rightarrow> exemplar" where
  "new_exemplar i r steps =
     \<lparr>ex_id = i, ex_run = lr_id r, ex_task = task_text r, ex_mode = lr_mode r,
      ex_trace = [(''routes'', JList (routes_of steps))] @
        (if lr_mode r = ''graph'' \<and> lr_plan r \<noteq> [] then [(''plan_entries'', dict_get_or (lr_plan r) ''entries'' (JList []))] else []),
      ex_votes = 1, ex_status = ''pending''\<rparr>"

definition open_vote :: "instant \<Rightarrow> vote_note option \<Rightarrow> vote_note" where
  \<comment> \<open>the pending note of a run, or a fresh one\<close>
  "open_vote now v = (case v of
       Some n \<Rightarrow> if vn_status n = ''pending'' then n
                 else \<lparr>vn_ids = [], vn_harvested = [], vn_status = ''pending'', vn_at = now, vn_by = None\<rparr>
     | None \<Rightarrow> \<lparr>vn_ids = [], vn_harvested = [], vn_status = ''pending'', vn_at = now, vn_by = None\<rparr>)"

definition harvest_exemplar ::
    "(string \<Rightarrow> (string \<times> real list) option) \<Rightarrow> instant \<Rightarrow> string \<Rightarrow> learning \<Rightarrow> exemplar option \<times> learning" where
  "harvest_exemplar emb_of now rid s = (case row_get lr_id (lg_runs s) rid of
       None \<Rightarrow> (None, s)
     | Some r \<Rightarrow>
         (if lr_mode r \<notin> {''graph'', ''agentic''} \<or> \<not> positive_signal r (steps_of rid s) then (None, s)
          else if routes_of (steps_of rid s) = [] \<and> \<not> truthy (dict_get (lr_plan r) ''entries'') then (None, s)
          else (case find (\<lambda>e. ex_run e = rid) (lg_exemplars s) of
              Some e \<Rightarrow> (Some e, s)
            | None \<Rightarrow>
                (let e = new_exemplar (length (lg_exemplars s)) r (steps_of rid s)
                 in (Some e, s\<lparr>lg_exemplars := row_add e (lg_exemplars s),
                      lg_vectors := (case emb_of (ex_task e) of None \<Rightarrow> lg_vectors s
                                     | Some (key, vec) \<Rightarrow> row_add (ex_id e, key, vec) (lg_vectors s)),
                      lg_runs := row_upd lr_id rid (\<lambda>r. r\<lparr>lr_vote := Some ((open_vote now (lr_vote r))\<lparr>vn_harvested := [ex_id e]\<rparr>)\<rparr>)
                        (lg_runs s)\<rparr>)))))"

section \<open>Votes\<close>

definition vote_one :: "bool \<Rightarrow> bool \<Rightarrow> exemplar \<Rightarrow> exemplar" where
  \<comment> \<open>the two updates of \<open>vote_exemplars\<close> on one row\<close>
  "vote_one success retire e =
     (let delta = (if success then 1 else - 1); floor = (if retire then 0 else 1);
          e1 = (if floor \<le> ex_votes e + delta then e\<lparr>ex_votes := ex_votes e + delta\<rparr> else e)
      in if ex_votes e1 \<le> 0 then e1\<lparr>ex_status := ''retired''\<rparr> else e1)"

definition vote_exemplars :: "nat list \<Rightarrow> bool \<Rightarrow> bool \<Rightarrow> exemplar list \<Rightarrow> exemplar list" where
  "vote_exemplars ids success retire es = map (\<lambda>e. if ex_id e \<in> set ids then vote_one success retire e else e) es"

definition settle_harvested :: "nat list \<Rightarrow> bool \<Rightarrow> exemplar list \<Rightarrow> exemplar list" where
  "settle_harvested ids confirmed es =
     map (\<lambda>e. if ex_id e \<in> set ids \<and> ex_status e = ''pending''
              then e\<lparr>ex_status := (if confirmed then ''active'' else ''retired'')\<rparr> else e) es"

definition settle_vote :: "vote_note \<Rightarrow> bool \<Rightarrow> exemplar list \<Rightarrow> exemplar list" where
  \<comment> \<open>\<open>_settle\<close>: a downvote of the heuristic never retires\<close>
  "settle_vote n corrected es =
     settle_harvested (vn_harvested n) (\<not> corrected) (vote_exemplars (vn_ids n) (\<not> corrected) (\<not> corrected) es)"

section \<open>Recall\<close>

definition EXEMPLAR_LEG_LIMIT :: nat where
  "EXEMPLAR_LEG_LIMIT = 15"

definition exemplar_leg :: "(exemplar \<Rightarrow> real option) \<Rightarrow> exemplar list \<Rightarrow> nat list" where
  \<comment> \<open>one ranking over the active exemplars, by descending score\<close>
  "exemplar_leg score es = map ex_id (take EXEMPLAR_LEG_LIMIT
     (sort_key (\<lambda>e. - the (score e)) (filter (\<lambda>e. ex_status e = ''active'' \<and> score e \<noteq> None) es)))"

definition vector_score :: "(string \<times> real list) option \<Rightarrow> learning \<Rightarrow> exemplar \<Rightarrow> real option" where
  "vector_score q s e = Option.bind q (\<lambda>(key, qvec).
     if vector_column (Some key) = None then None
     else map_option (\<lambda>(i, k, vec). cosine qvec vec) (find (\<lambda>(i, k, vec). i = ex_id e \<and> k = key) (lg_vectors s)))"

definition recall_exemplars ::
    "(string \<Rightarrow> exemplar \<Rightarrow> real option) \<Rightarrow> (string \<Rightarrow> (string \<times> real list) option) \<Rightarrow> string \<Rightarrow> nat \<Rightarrow> learning \<Rightarrow> exemplar list" where
  "recall_exemplars lexical query_vector task k s =
     (let q = squeeze task; rankings = [exemplar_leg (lexical (or_tsquery q)) (lg_exemplars s),
                                        exemplar_leg (vector_score (query_vector q) s) (lg_exemplars s)];
          ordered = take k (sort_key (\<lambda>i. - fuse rankings i) (remdups (concat rankings)))
      in if q = [] then [] else List.map_filter (\<lambda>i. row_get ex_id (lg_exemplars s) i) ordered)"

definition route_text :: "(json \<Rightarrow> string) \<Rightarrow> json \<Rightarrow> string" where
  "route_text render r = py_str render (dict_get (as_dict r) ''rung'') @ ''('' @ py_str render (dict_get (as_dict r) ''entity'') @ '')''"

definition exemplar_line :: "(json \<Rightarrow> string) \<Rightarrow> exemplar \<Rightarrow> string" where
  \<comment> \<open>the arrow of the source is written \<open>->\<close>\<close>
  "exemplar_line render e =
     (let routes = join '' -> '' (map (route_text render) (case dict_get_or (ex_trace e) ''routes'' (JList []) of JList rs \<Rightarrow> rs | _ \<Rightarrow> []))
      in ''- past ask: '' @ [CHR 0x22] @ take 160 (ex_task e) @ [CHR 0x22] @ '' -> what worked: '' @
         (if routes = [] then ''direct plan'' else routes))"

definition exemplar_block :: "bool \<Rightarrow> (json \<Rightarrow> string) \<Rightarrow> exemplar list \<Rightarrow> string \<times> nat list" where
  "exemplar_block enabled render recalled =
     (if \<not> enabled \<or> recalled = [] then ([], [])
      else ([CHR 0x0A] @ ''Similar past asks and the routing that worked (guidance, not law):'' @ [CHR 0x0A]
              @ join [CHR 0x0A] (map (exemplar_line render) recalled) @ [CHR 0x0A], map ex_id recalled))"

section \<open>The deferred verdict\<close>

definition CORRECTION_OPENERS :: "string list" where
  "CORRECTION_OPENERS = [''no,'', ''no.'', ''no!'', ''not what'', ''that'' @ [CHR 0x27] @ ''s wrong'', ''that is wrong'',
     ''that'' @ [CHR 0x27] @ ''s not right'', ''that is not right'', ''that doesn'' @ [CHR 0x27] @ ''t look right'',
     ''that does not look right'', ''wrong'', ''wrong,'', ''i meant'', ''try again'', ''redo'', ''do it again'', ''incorrect'',
     ''not correct'', ''didn'' @ [CHR 0x27] @ ''t ask'', ''did not ask'', ''are you sure'', ''hmm, are you sure'', ''still wrong'',
     ''that'' @ [CHR 0x27] @ ''s incorrect'']"

definition long_words :: "string \<Rightarrow> string set" where
  "long_words s = set (filter (\<lambda>w. 3 < length w) (py_words s))"

definition looks_like_correction :: "string \<Rightarrow> string \<Rightarrow> bool" where
  "looks_like_correction previous_ask next_ask =
     (let t = squeeze (py_lower next_ask); prev = long_words (py_lower previous_ask); nxt = long_words t
      in if list_ex (starts_with t) CORRECTION_OPENERS then True
         else 4 \<le> card prev \<and> 4 \<le> card nxt \<and> 3 / 5 \<le> real (card (prev \<inter> nxt)) / real (card prev))"

definition pending_vote :: "learn_run \<Rightarrow> bool" where
  "pending_vote r \<longleftrightarrow> (case lr_vote r of None \<Rightarrow> False | Some n \<Rightarrow> vn_status n = ''pending'')"

definition later_turn :: "learn_run \<Rightarrow> learn_run list \<Rightarrow> string option" where
  \<comment> \<open>the first message of the conversation after this run\<close>
  "later_turn r runs = map_option lr_message
     (case sort_key lr_started (filter (\<lambda>q. lr_conversation q = lr_conversation r \<and> lr_started r < lr_started q) runs) of
        [] \<Rightarrow> None | q # _ \<Rightarrow> Some q)"

definition settled_note :: "bool \<Rightarrow> string \<Rightarrow> vote_note \<Rightarrow> vote_note" where
  "settled_note corrected settled_by n = n\<lparr>vn_status := (if corrected then ''corrected'' else ''confirmed''), vn_by := Some settled_by\<rparr>"

definition judged_against :: "string \<Rightarrow> learn_run list \<Rightarrow> learn_run list \<Rightarrow> learn_run \<Rightarrow> string \<times> string" where
  \<comment> \<open>the newest pending run against the new message, the others against the turn that followed them\<close>
  "judged_against next_message pendings runs r =
     (if map lr_id (take 1 pendings) = [lr_id r] then (next_message, ''next_turn'')
      else (case later_turn r runs of None \<Rightarrow> next_message | Some m \<Rightarrow> m, ''later_turn''))"

definition settle_run_vote :: "string \<Rightarrow> bool \<Rightarrow> string \<Rightarrow> learning \<Rightarrow> learning" where
  "settle_run_vote rid corrected settled_by s = (case row_get lr_id (lg_runs s) rid of
       None \<Rightarrow> s
     | Some r \<Rightarrow> (case lr_vote r of
          None \<Rightarrow> s
        | Some n \<Rightarrow> s\<lparr>lg_runs := row_upd lr_id rid (\<lambda>r. r\<lparr>lr_vote := Some (settled_note corrected settled_by n)\<rparr>) (lg_runs s),
                      lg_exemplars := settle_vote n corrected (lg_exemplars s)\<rparr>))"

definition newest_first :: "learn_run list \<Rightarrow> learn_run list" where
  "newest_first runs = rev (sort_key lr_started runs)"

definition judge_pending_vote :: "bool \<Rightarrow> string \<Rightarrow> string \<Rightarrow> learning \<Rightarrow> string option \<times> learning" where
  "judge_pending_vote enabled conversation next_message s =
     (let pendings = newest_first (filter (\<lambda>r. lr_conversation r = conversation \<and> pending_vote r) (lg_runs s));
          corrected = (\<lambda>r. looks_like_correction (lr_message r) (fst (judged_against next_message pendings (lg_runs s) r)))
      in if \<not> enabled then (None, s)
         else (case pendings of
             [] \<Rightarrow> (None, s)
           | r0 # _ \<Rightarrow>
               (Some (if corrected r0 then ''corrected'' else ''confirmed''),
                fold (\<lambda>r. settle_run_vote (lr_id r) (corrected r) (snd (judged_against next_message pendings (lg_runs s) r))) pendings s)))"

definition QUIET_SETTLE_S :: int where
  "QUIET_SETTLE_S = 600"

definition quiet_vote :: "instant \<Rightarrow> learn_run \<Rightarrow> bool" where
  "quiet_vote now r \<longleftrightarrow> lr_status r = Completed
     \<and> (case lr_vote r of None \<Rightarrow> False | Some n \<Rightarrow> vn_status n = ''pending'' \<and> secs QUIET_SETTLE_S \<le> now - vn_at n)"

definition settle_exemplar_votes :: "bool \<Rightarrow> instant \<Rightarrow> learning \<Rightarrow> nat \<times> learning" where
  "settle_exemplar_votes enabled now s =
     (let rows = filter (quiet_vote now) (lg_runs s);
          corrected = (\<lambda>r. case later_turn r (lg_runs s) of None \<Rightarrow> False | Some m \<Rightarrow> looks_like_correction (lr_message r) m)
      in if \<not> enabled then (0, s)
         else (length rows,
               fold (\<lambda>r. settle_run_vote (lr_id r) (corrected r)
                      (if later_turn r (lg_runs s) = None then ''quiet'' else ''later_turn'')) rows s))"

definition defer_vote :: "instant \<Rightarrow> string \<Rightarrow> nat list \<Rightarrow> learning \<Rightarrow> learning" where
  \<comment> \<open>the vote on the exemplars a completed run reused\<close>
  "defer_vote now rid used s = s\<lparr>lg_runs := row_upd lr_id rid
     (\<lambda>r. r\<lparr>lr_vote := Some ((open_vote now (lr_vote r))\<lparr>vn_ids := used\<rparr>)\<rparr>) (lg_runs s)\<rparr>"

definition post_run_procedural ::
    "bool \<Rightarrow> (json \<Rightarrow> string) \<Rightarrow> (string \<Rightarrow> (string \<times> real list) option) \<Rightarrow> instant \<Rightarrow> nat list \<Rightarrow> string \<Rightarrow> learning \<Rightarrow> learning" where
  \<comment> \<open>\<open>used\<close>: the exemplars the planner of the run was shown\<close>
  "post_run_procedural enabled render emb_of now used rid s =
     (if \<not> enabled then s
      else (let s1 = snd (harvest_exemplar emb_of now rid (update_routing_stats render now rid s))
            in if used = [] then s1
               else (case row_get lr_id (lg_runs s1) rid of
                   None \<Rightarrow> s1
                 | Some r \<Rightarrow> if lr_status r \<noteq> Completed
                             then s1\<lparr>lg_exemplars := vote_exemplars used False True (lg_exemplars s1)\<rparr>
                             else defer_vote now rid used s1)))"

end
