(* ===== verification/Overlap_Mining.thy ===== *)
theory Overlap_Mining
  imports Procedural Ambient_Triggers Registry
begin

text \<open>
  The overlap guard of the registry (\<open>backend/app/overlap.py\<close>) and the mining of skill proposals
  (\<open>memory/procedural.mine_fallback_skills\<close>). The judge model, \<open>repr\<close>, the hash of a definition and
  SHA-256 are arguments; a judge call may fail.
\<close>

section \<open>Verdicts\<close>

record overlap_verdict =
  ov_percent :: int
  ov_type :: string
  ov_match :: "string option"
  ov_reason :: string
  ov_available :: bool

record overlap_check =
  oc_overlap :: bool
  oc_threshold :: int
  oc_verdict :: overlap_verdict

record skill_entry =
  se_row :: skill_row
  se_origin :: string
  se_audited :: "string option"          \<comment> \<open>\<open>overlap_audited_hash\<close>\<close>

record agent_entry =
  ge_row :: agent_row
  ge_audited :: "string option"

record overlap_env =
  oe_repr :: "string \<Rightarrow> string"
  oe_judge :: "string \<Rightarrow> string \<Rightarrow> string list \<Rightarrow> string + overlap_verdict"   \<comment> \<open>kind of draft, draft, candidates\<close>
  oe_threshold :: json                                       \<comment> \<open>\<open>overlap_threshold_percent\<close>\<close>
  oe_skill_hash :: "skill_row \<Rightarrow> string"
  oe_agent_hash :: "agent_row \<Rightarrow> string"

definition OVERLAP_THRESHOLD_PERCENT :: int where
  "OVERLAP_THRESHOLD_PERCENT = 70"

definition overlap_threshold :: "json \<Rightarrow> int" where
  "overlap_threshold v = (case dict_int [(''v'', v)] ''v'' 0 of
       Inl e \<Rightarrow> OVERLAP_THRESHOLD_PERCENT | Inr n \<Rightarrow> max 0 (min n 100))"

definition to_out :: "int \<Rightarrow> overlap_verdict \<Rightarrow> overlap_check" where
  "to_out threshold v = \<lparr>oc_overlap = threshold \<le> ov_percent v, oc_threshold = threshold, oc_verdict = v\<rparr>"

definition candidate_line :: "overlap_env \<Rightarrow> string \<Rightarrow> string \<Rightarrow> string \<Rightarrow> string \<Rightarrow> string \<Rightarrow> string" where
  "candidate_line env kind i name desc extra =
     ''- ['' @ kind @ ''] id='' @ i @ '' name='' @ oe_repr env name @ '': '' @ take 300 (squeeze desc) @ extra"

definition or_else :: "string \<Rightarrow> string \<Rightarrow> string" where
  \<comment> \<open>\<open>a or b\<close>\<close>
  "or_else a b = (if a = [] then b else a)"

definition live_skills :: "skill_entry list \<Rightarrow> skill_row list" where
  "live_skills es = filter (\<lambda>r. s_deleted_at r = None \<and> s_status r = ''active'') (map se_row es)"

definition live_agents :: "agent_entry list \<Rightarrow> agent_row list" where
  "live_agents es = filter (\<lambda>r. a_deleted_at r = None \<and> a_status r = ''active'') (map ge_row es)"

definition skill_lines :: "overlap_env \<Rightarrow> string option \<Rightarrow> skill_entry list \<Rightarrow> string list" where
  "skill_lines env excluded es =
     map (\<lambda>r. candidate_line env ''skill'' (s_id r) (s_name r) (or_else (s_description r) (s_instructions r)) [])
       (filter (\<lambda>r. Some (s_id r) \<noteq> excluded) (live_skills es))"

definition skill_candidates :: "overlap_env \<Rightarrow> string option \<Rightarrow> skill_entry list \<Rightarrow> tool_row list \<Rightarrow> string list" where
  "skill_candidates env excluded es tools = skill_lines env excluded es
     @ map (\<lambda>t. candidate_line env ''tool'' (t_id t) (t_tool_key t) (t_description t) [])
         (filter (\<lambda>t. t_deleted_at t = None \<and> t_status t = ''active'') tools)"

definition sub_agent_candidates :: "overlap_env \<Rightarrow> string option \<Rightarrow> agent_entry list \<Rightarrow> skill_entry list \<Rightarrow> string list" where
  "sub_agent_candidates env excluded agents es =
     map (\<lambda>a. candidate_line env ''sub_agent'' (a_id a) (a_name a) (a_description a)
                ('' (skills: '' @ or_else (join '', '' (a_skill_names a)) ''code-defined'' @ '')''))
       (filter (\<lambda>a. Some (a_id a) \<noteq> excluded) (live_agents agents))
     @ skill_lines env None es"

definition overlap_judge :: "overlap_env \<Rightarrow> string \<Rightarrow> string \<Rightarrow> string list \<Rightarrow> overlap_verdict" where
  \<comment> \<open>\<open>_judge\<close>: no candidates is no overlap, a failed call is no judge\<close>
  "overlap_judge env kind draft candidates =
     (if candidates = []
      then \<lparr>ov_percent = 0, ov_type = ''none'', ov_match = None, ov_reason = ''registry has no candidates to compare'', ov_available = True\<rparr>
      else (case oe_judge env kind draft candidates of
          Inl x \<Rightarrow> \<lparr>ov_percent = 0, ov_type = ''none'', ov_match = None, ov_reason = ''judge unavailable: '' @ x, ov_available = False\<rparr>
        | Inr v \<Rightarrow> v))"

definition nl :: string where
  "nl = [CHR 0x0A]"

definition skill_draft :: "overlap_env \<Rightarrow> string \<Rightarrow> string \<Rightarrow> string \<Rightarrow> string list \<Rightarrow> string" where
  "skill_draft env name desc instr keys =
     ''name: '' @ oe_repr env name @ nl @ ''description: '' @ or_else desc ''(none)'' @ nl
     @ ''instructions: '' @ or_else (take 600 (squeeze instr)) ''(none)'' @ nl
     @ ''bound tools: '' @ or_else (join '', '' keys) ''(none)''"

definition check_skill_overlap ::
    "overlap_env \<Rightarrow> string \<Rightarrow> string \<Rightarrow> string \<Rightarrow> string list \<Rightarrow> string option \<Rightarrow> skill_entry list \<Rightarrow> tool_row list \<Rightarrow> overlap_check" where
  "check_skill_overlap env name desc instr keys excluded es tools =
     to_out (overlap_threshold (oe_threshold env))
       (overlap_judge env ''skill'' (skill_draft env name desc instr keys) (skill_candidates env excluded es tools))"

definition check_sub_agent_overlap ::
    "overlap_env \<Rightarrow> string \<Rightarrow> string \<Rightarrow> string list \<Rightarrow> string option \<Rightarrow> agent_entry list \<Rightarrow> skill_entry list \<Rightarrow> overlap_check" where
  "check_sub_agent_overlap env name desc skill_names excluded agents es =
     to_out (overlap_threshold (oe_threshold env))
       (overlap_judge env ''sub agent''
          (''name: '' @ oe_repr env name @ nl @ ''description: '' @ or_else desc ''(none)'' @ nl
             @ ''workflow skills: '' @ or_else (join '', '' skill_names) ''(none)'')
          (sub_agent_candidates env excluded agents es))"

section \<open>The audit\<close>

record audit_state =
  au_skills :: "skill_entry list"
  au_agents :: "agent_entry list"
  au_outbox :: outbox

definition stamp_agent :: "string \<Rightarrow> agent_row \<Rightarrow> agent_row" where
  \<comment> \<open>the first stamp of a row from before definitions were versioned\<close>
  "stamp_agent h a = a\<lparr>a_definition_hash := Some h,
     a_definition_version := (if a_definition_version a = None then Some 1 else a_definition_version a)\<rparr>"

definition stamp_missing :: "overlap_env \<Rightarrow> audit_state \<Rightarrow> audit_state" where
  "stamp_missing env s =
     s\<lparr>au_skills := map (\<lambda>e. let r = se_row e in
          if r \<in> set (live_skills (au_skills s)) \<and> s_definition_hash r = None
          then e\<lparr>se_row := snd (stamp_definition (oe_skill_hash env (r\<lparr>s_tools := filter (\<lambda>t. t_deleted_at t = None) (s_tools r)\<rparr>)) r)\<rparr>
          else e) (au_skills s),
       au_agents := map (\<lambda>e. let a = ge_row e in
          if a \<in> set (live_agents (au_agents s)) \<and> a_definition_hash a = None
          then e\<lparr>ge_row := stamp_agent (oe_agent_hash env a) a\<rparr> else e) (au_agents s)\<rparr>"

definition audit_delivery :: "overlap_env \<Rightarrow> string \<Rightarrow> string \<Rightarrow> overlap_check \<Rightarrow> delivery_request" where
  \<comment> \<open>the sign of the source's title is written \<open>~\<close>\<close>
  "audit_delivery env i name c =
     (let v = oc_verdict c; other = (case ov_match v of None \<Rightarrow> ''None'' | Some n \<Rightarrow> n)
      in \<lparr>dq_category = ''ops'', dq_tier = 1, dq_urgency = 3,
          dq_title = ''Registry overlap: '' @ name @ '' ~ '' @ other @ '' ('' @ int_str (ov_percent v) @ ''%)'',
          dq_body = Some (''The overlap audit judged '' @ oe_repr env name @ '' against the registry after a definition change: ''
            @ int_str (ov_percent v) @ ''% overlap with '' @ ov_type v @ '' '' @ oe_repr env other @ ''. '' @ take 400 (ov_reason v)),
          dq_run = None, dq_intent = None, dq_skey = Some (''overlap-audit:'' @ i), dq_deadline = None, dq_user = None\<rparr>)"

definition flag_overlap :: "overlap_env \<Rightarrow> owners \<Rightarrow> instant \<Rightarrow> string \<Rightarrow> string \<Rightarrow> overlap_check \<Rightarrow> audit_state \<Rightarrow> audit_state" where
  "flag_overlap env ow now i name c s =
     (if oc_overlap c then s\<lparr>au_outbox := add_delivery ow now (audit_delivery env i name c) (au_outbox s)\<rparr> else s)"

definition audit_skill :: "overlap_env \<Rightarrow> owners \<Rightarrow> instant \<Rightarrow> tool_row list \<Rightarrow> skill_row \<Rightarrow> audit_state \<Rightarrow> audit_state" where
  \<comment> \<open>the judgement of one skill and \<open>_record_audit\<close>\<close>
  "audit_skill env ow now tools r s =
     (let c = check_skill_overlap env (s_name r) (s_description r) (s_instructions r)
                (sort_key id (map t_tool_key (s_tools r))) (Some (s_id r)) (au_skills s) tools
      in if \<not> ov_available (oc_verdict c) then s
         else flag_overlap env ow now (s_id r) (s_name r) c
                (s\<lparr>au_skills := row_upd (\<lambda>e. s_id (se_row e)) (s_id r) (\<lambda>e. e\<lparr>se_audited := s_definition_hash r\<rparr>) (au_skills s)\<rparr>))"

definition audit_agent :: "overlap_env \<Rightarrow> owners \<Rightarrow> instant \<Rightarrow> agent_row \<Rightarrow> audit_state \<Rightarrow> audit_state" where
  "audit_agent env ow now a s =
     (let c = check_sub_agent_overlap env (a_name a) (a_description a) (a_skill_names a) (Some (a_id a)) (au_agents s) (au_skills s)
      in if \<not> ov_available (oc_verdict c) then s
         else flag_overlap env ow now (a_id a) (a_name a) c
                (s\<lparr>au_agents := row_upd (\<lambda>e. a_id (ge_row e)) (a_id a) (\<lambda>e. e\<lparr>ge_audited := a_definition_hash a\<rparr>) (au_agents s)\<rparr>))"

fun audit_rows :: "(nat \<Rightarrow> bool) \<Rightarrow> ('r \<Rightarrow> audit_state \<Rightarrow> audit_state) \<Rightarrow> 'r list \<Rightarrow> nat \<Rightarrow> audit_state \<Rightarrow> bool \<times> nat \<times> audit_state" where
  \<comment> \<open>the gate is read again before each judgement: the \<open>n\<close>-th reading; False: stopped there\<close>
  "audit_rows gate audit [] n s = (True, n, s)"
| "audit_rows gate audit (r # rs) n s = (if gate n then audit_rows gate audit rs (Suc n) (audit r s) else (False, n, s))"

definition skills_to_audit :: "skill_entry list \<Rightarrow> skill_row list" where
  "skills_to_audit es = map se_row (filter (\<lambda>e. s_deleted_at (se_row e) = None \<and> s_status (se_row e) = ''active''
     \<and> opt_truthy (s_definition_hash (se_row e)) \<and> s_definition_hash (se_row e) \<noteq> se_audited e) es)"

definition agents_to_audit :: "agent_entry list \<Rightarrow> agent_row list" where
  "agents_to_audit es = map ge_row (filter (\<lambda>e. a_deleted_at (ge_row e) = None \<and> a_status (ge_row e) = ''active''
     \<and> opt_truthy (a_definition_hash (ge_row e)) \<and> a_definition_hash (ge_row e) \<noteq> ge_audited e) es)"

definition audit_registry_overlap ::
    "overlap_env \<Rightarrow> owners \<Rightarrow> instant \<Rightarrow> bool \<Rightarrow> (nat \<Rightarrow> bool) \<Rightarrow> tool_row list \<Rightarrow> audit_state \<Rightarrow> nat \<times> audit_state" where
  "audit_registry_overlap env ow now enabled gate tools s =
     (if \<not> enabled then (0, s)
      else (let s1 = stamp_missing env s in
        (case audit_rows gate (audit_skill env ow now tools) (skills_to_audit (au_skills s1)) 0 s1 of
           (False, n, s2) \<Rightarrow> (n, s2)
         | (True, n, s2) \<Rightarrow>
             (case audit_rows gate (audit_agent env ow now) (agents_to_audit (au_agents s1)) n s2 of (ok, m, s3) \<Rightarrow> (m, s3)))))"

section \<open>Mining\<close>

record run_digest =
  rd_run :: string
  rd_text :: string
  rd_rungs :: "string list"

definition PROPOSAL_PREFIX :: string where
  "PROPOSAL_PREFIX = ''[proposed from fallback mining] ''"

definition MIN_CLUSTER :: nat where
  "MIN_CLUSTER = 3"

definition digest_words :: "run_digest \<Rightarrow> string set" where
  "digest_words d = long_words (py_lower (rd_text d))"

definition joins_cluster :: "run_digest \<Rightarrow> run_digest list \<Rightarrow> bool" where
  \<comment> \<open>two fifths of the words of the cluster's first digest\<close>
  "joins_cluster d c = (case c of
       [] \<Rightarrow> False
     | seed # _ \<Rightarrow> 2 / 5 \<le> real (card (digest_words d \<inter> digest_words seed)) / real (max (card (digest_words seed)) 1))"

fun place_digest :: "run_digest \<Rightarrow> run_digest list list \<Rightarrow> run_digest list list" where
  "place_digest d [] = [[d]]"
| "place_digest d (c # cs) = (if joins_cluster d c then (c @ [d]) # cs else c # place_digest d cs)"

definition cluster_digests :: "run_digest list \<Rightarrow> run_digest list list" where
  "cluster_digests ds = fold place_digest ds []"

definition is_lower_digit :: "char \<Rightarrow> bool" where
  "is_lower_digit c \<longleftrightarrow> (let n = of_char c :: nat in 97 \<le> n \<and> n \<le> 122 \<or> 48 \<le> n \<and> n \<le> 57)"

definition skill_file_name :: "string \<Rightarrow> bool" where
  \<comment> \<open>\<open>[a-z0-9][a-z0-9-]{1,63}\<close>\<close>
  "skill_file_name name = (case name of
       [] \<Rightarrow> False
     | c # cs \<Rightarrow> is_lower_digit c \<and> list_all (\<lambda>c. is_lower_digit c \<or> c = CHR ''-'') cs \<and> 1 \<le> length cs \<and> length cs \<le> 63)"

definition proposal_lint :: "(string \<Rightarrow> string) \<Rightarrow> string \<Rightarrow> string \<Rightarrow> string \<Rightarrow> string list" where
  "proposal_lint rep name desc instr =
     (if skill_file_name name then [] else [''name '' @ rep name @ '' is not a skill-file name (lowercase, digits, hyphens)''])
     @ (if length (py_strip desc) < 20 then [''description is too short to route by''] else [])
     @ (if length (py_strip instr) < 20 then [''instructions are too short to execute''] else [])"

record proposal =
  pp_name :: string
  pp_description :: string
  pp_instructions :: string
  pp_tools :: "tool_row list"
  pp_keys :: "string list"
  pp_cluster :: "run_digest list"

definition cluster_keys :: "learn_step list \<Rightarrow> run_digest list \<Rightarrow> string set" where
  "cluster_keys steps c = {k \<in> ls_node ` set (filter (\<lambda>x. ls_type x = ''tool_call'' \<and> ls_run x \<in> rd_run ` set c) steps). k \<noteq> []}"

definition draft_of :: "(string \<Rightarrow> string) \<Rightarrow> learn_step list \<Rightarrow> tool_row list \<Rightarrow> run_digest list \<Rightarrow> proposal" where
  "draft_of sha steps tools c =
     (let txt = rd_text (hd c); keys = cluster_keys steps c
      in \<lparr>pp_name = ''mined-'' @ take 6 (sha txt),
          pp_description = PROPOSAL_PREFIX @ ''covers a recurring uncovered ask: '' @ take 160 txt,
          pp_instructions = ''Recurring ask cluster ('' @ nat_str (length c) @ '' fallback runs). Representative: '' @ take 160 txt,
          pp_tools = filter (\<lambda>t. t_tool_key t \<in> keys) tools, pp_keys = sorted_list_of_set keys, pp_cluster = c\<rparr>)"

definition drafts_of ::
    "(string \<Rightarrow> string) \<Rightarrow> learn_step list \<Rightarrow> tool_row list \<Rightarrow> skill_entry list \<Rightarrow> run_digest list list \<Rightarrow> proposal list" where
  "drafts_of sha steps tools es cs =
     filter (\<lambda>p. MIN_CLUSTER \<le> length (pp_cluster p) \<and> pp_tools p \<noteq> [] \<and> pp_name p \<notin> s_name ` se_row ` set es)
       (map (draft_of sha steps tools) cs)"

definition proposal_accepted :: "overlap_env \<Rightarrow> skill_entry list \<Rightarrow> tool_row list \<Rightarrow> proposal \<Rightarrow> bool" where
  "proposal_accepted env es tools p \<longleftrightarrow>
     proposal_lint (oe_repr env) (pp_name p) (pp_description p) (pp_instructions p) = []
     \<and> (let c = check_skill_overlap env (pp_name p) (pp_description p) (pp_instructions p) (pp_keys p) None es tools
        in ov_available (oc_verdict c) \<and> \<not> oc_overlap c)"

definition MINED_PERSONA :: string where
  "MINED_PERSONA = ''You handle a recurring request the registry did not cover. Follow the task precisely and use only your bound tools.''"

definition mined_skill :: "overlap_env \<Rightarrow> string \<Rightarrow> instant \<Rightarrow> proposal \<Rightarrow> skill_entry" where
  "mined_skill env i now p =
     (let row = \<lparr>s_id = i, s_name = pp_name p, s_description = pp_description p, s_source = ''dynamic'', s_status = ''inactive'',
            s_kind = ''custom'', s_persona = MINED_PERSONA, s_instructions = pp_instructions p, s_model = None, s_model_params = JNull,
            s_exposed = False, s_max_tool_iterations = None, s_definition_hash = None, s_definition_version = None,
            s_tools = pp_tools p, s_updated_at = Some now, s_deleted_at = None\<rparr>;
          stamped = snd (stamp_definition (oe_skill_hash env row) row)
      in \<lparr>se_row = stamped, se_origin = ''mined'', se_audited = s_definition_hash stamped\<rparr>)"

definition mine_fallback_skills ::
    "bool \<Rightarrow> overlap_env \<Rightarrow> (string \<Rightarrow> string) \<Rightarrow> (nat \<Rightarrow> string) \<Rightarrow> instant \<Rightarrow> run_digest list \<Rightarrow> learn_step list \<Rightarrow> tool_row list
      \<Rightarrow> skill_entry list \<Rightarrow> string list \<times> skill_entry list" where
  \<comment> \<open>\<open>digests\<close>: newest first; \<open>ids\<close>: the ids of new rows; the skills registry is invalidated when it grew\<close>
  "mine_fallback_skills enabled env sha ids now digests steps tools es =
     (let fallback = take 200 (filter (\<lambda>d. ''fallback'' \<in> set (rd_rungs d)) digests);
          accepted = filter (proposal_accepted env es tools) (drafts_of sha steps tools es (cluster_digests fallback))
      in if \<not> enabled \<or> length fallback < MIN_CLUSTER then ([], es)
         else (map pp_name accepted, es @ map (\<lambda>(i, p). mined_skill env (ids i) now p) (enumerate 0 accepted)))"

end
