(* ===== verification/Learning_Laws.thy ===== *)
theory Learning_Laws
  imports Overlap_Mining
begin

text \<open>
  What procedural learning guarantees: votes and states of the exemplars over any history, with the
  heuristic verdict of the next turn never retiring one, running means that are means, and mined skills
  that wait for a human. And what it does not: the vote of a run whose gate was denied still counts.
\<close>

section \<open>Exemplars\<close>

definition exemplar_ok :: "exemplar \<Rightarrow> bool" where
  "exemplar_ok e \<longleftrightarrow> ex_status e \<in> {''pending'', ''active'', ''retired''} \<and> 0 \<le> ex_votes e
     \<and> (ex_status e = ''retired'' \<or> 1 \<le> ex_votes e)"

definition exemplars_ok :: "exemplar list \<Rightarrow> bool" where
  "exemplars_ok es \<longleftrightarrow> map ex_id es = [0..<length es] \<and> list_all exemplar_ok es"

datatype learn_op =
    PostRun bool "json \<Rightarrow> string" "string \<Rightarrow> (string \<times> real list) option" instant "nat list" string
  | NextTurn bool string string
  | Sweeps bool instant
  | NewRun learn_run
  | RunEnds string run_status instant
  | NewStep learn_step

fun learn_act :: "learning \<Rightarrow> learn_op \<Rightarrow> learning" where
  "learn_act s (PostRun enabled render emb_of now used rid) = post_run_procedural enabled render emb_of now used rid s"
| "learn_act s (NextTurn enabled conversation m) = snd (judge_pending_vote enabled conversation m s)"
| "learn_act s (Sweeps enabled now) = snd (settle_exemplar_votes enabled now s)"
| "learn_act s (NewRun r) = s\<lparr>lg_runs := row_add r (lg_runs s)\<rparr>"
| "learn_act s (RunEnds rid st now) = s\<lparr>lg_runs := row_upd lr_id rid (\<lambda>r. r\<lparr>lr_status := st, lr_finished := Some now\<rparr>) (lg_runs s)\<rparr>"
| "learn_act s (NewStep x) = s\<lparr>lg_steps := row_add x (lg_steps s)\<rparr>"

definition learn_init :: learning where
  "learn_init = \<lparr>lg_runs = [], lg_steps = [], lg_exemplars = [], lg_vectors = [], lg_stats = []\<rparr>"

definition kept_active :: "(exemplar \<Rightarrow> exemplar) \<Rightarrow> bool" where
  \<comment> \<open>a change of exemplars that keeps them well-formed and retires no active one\<close>
  "kept_active f \<longleftrightarrow> (\<forall>e. exemplar_ok e \<longrightarrow> exemplar_ok (f e) \<and> ex_id (f e) = ex_id e
     \<and> (ex_status e = ''active'' \<longrightarrow> ex_status (f e) = ''active''))"

lemma vote_one_ok: "exemplar_ok e \<Longrightarrow> exemplar_ok (vote_one success retire e) \<and> ex_id (vote_one success retire e) = ex_id e"
  by (auto simp: vote_one_def exemplar_ok_def Let_def)

lemma soft_vote: "success \<or> \<not> retire \<Longrightarrow> kept_active (vote_one success retire)"
  using vote_one_ok by (auto simp: kept_active_def vote_one_def exemplar_ok_def Let_def)

lemma kept_map:
  assumes "kept_active f" "exemplars_ok es"
  shows "exemplars_ok (map f es)"
    and "row_get ex_id es i = Some e \<Longrightarrow> ex_status e = ''active'' \<Longrightarrow> \<exists>e'. row_get ex_id (map f es) i = Some e' \<and> ex_status e' = ''active''"
proof -
  have ok: "\<And>e. e \<in> set es \<Longrightarrow> exemplar_ok e" using assms(2) by (auto simp: exemplars_ok_def list_all_iff)
  then have same: "\<And>e. e \<in> set es \<Longrightarrow> ex_id (f e) = ex_id e" using assms(1) by (auto simp: kept_active_def)
  then have ids: "map ex_id (map f es) = map ex_id es" by simp
  show "exemplars_ok (map f es)"
    using assms ok ids by (auto simp: exemplars_ok_def list_all_iff kept_active_def simp del: map_map)
  show "\<exists>e'. row_get ex_id (map f es) i = Some e' \<and> ex_status e' = ''active''"
    if "row_get ex_id es i = Some e" "ex_status e = ''active''"
    using that same ok assms(1)
  proof (induction es)
    case (Cons a es)
    then show ?case by (auto simp: row_simps kept_active_def split: if_splits)
  qed (simp add: row_simps)
qed

definition quiet_change :: "exemplar list \<Rightarrow> exemplar list \<Rightarrow> bool" where
  "quiet_change es es' \<longleftrightarrow> (exemplars_ok es \<longrightarrow> exemplars_ok es'
     \<and> (\<forall>i e. row_get ex_id es i = Some e \<longrightarrow> ex_status e = ''active''
              \<longrightarrow> (\<exists>e'. row_get ex_id es' i = Some e' \<and> ex_status e' = ''active'')))"

lemma quiet_refl [simp]: "quiet_change es es"
  by (simp add: quiet_change_def)

lemma quiet_trans: "quiet_change es es' \<Longrightarrow> quiet_change es' es'' \<Longrightarrow> quiet_change es es''"
  unfolding quiet_change_def by metis

lemma quiet_map: "kept_active f \<Longrightarrow> quiet_change es (map f es)"
  using kept_map by (auto simp: quiet_change_def)

lemma quiet_settle_vote: "quiet_change es (settle_vote n corrected es)"
proof -
  have "quiet_change es (vote_exemplars (vn_ids n) (\<not> corrected) (\<not> corrected) es)"
    unfolding vote_exemplars_def
    by (rule quiet_map) (use soft_vote[of "\<not> corrected" "\<not> corrected"] in \<open>auto simp: kept_active_def\<close>)
  moreover have "quiet_change es' (settle_harvested (vn_harvested n) (\<not> corrected) es')" for es'
    unfolding settle_harvested_def
    by (rule quiet_map) (auto simp: kept_active_def exemplar_ok_def)
  ultimately show ?thesis unfolding settle_vote_def using quiet_trans by blast
qed

lemma quiet_settle_run: "quiet_change (lg_exemplars s) (lg_exemplars (settle_run_vote rid corrected settled_by s))"
  by (simp add: settle_run_vote_def quiet_settle_vote split: option.splits)

lemma quiet_settle_runs:
  "quiet_change (lg_exemplars s) (lg_exemplars (fold (\<lambda>r. settle_run_vote (lr_id r) (c r) (b r)) rs s))"
proof (induction rs arbitrary: s)
  case (Cons r rs)
  show ?case using quiet_trans[OF quiet_settle_run Cons.IH] by simp
qed simp

lemma row_get_add_kept: "row_get key t k = Some r \<Longrightarrow> row_get key (row_add x t) k = Some r"
  by (simp add: row_add_def row_get_append)

lemma quiet_harvest: "quiet_change (lg_exemplars s) (lg_exemplars (snd (harvest_exemplar emb_of now rid s)))"
proof -
  have "quiet_change es (row_add (new_exemplar (length es) r steps) es)" for es r steps
    by (auto simp: quiet_change_def exemplars_ok_def exemplar_ok_def new_exemplar_def row_add_def row_get_append)
  then show ?thesis
    by (auto simp: harvest_exemplar_def Let_def split: option.splits)
qed

lemma stats_exemplars [simp]: "lg_exemplars (update_routing_stats render now rid s) = lg_exemplars s"
  by (simp add: update_routing_stats_def split: option.splits)

lemma row_get_votes:
  "exemplars_ok es \<Longrightarrow> row_get ex_id (vote_exemplars used success retire es) i =
     map_option (\<lambda>e. if ex_id e \<in> set used then vote_one success retire e else e) (row_get ex_id es i)"
proof -
  have "list_all exemplar_ok es \<Longrightarrow> ?thesis"
    by (induction es) (auto simp: vote_exemplars_def row_simps vote_one_ok)
  then show "exemplars_ok es \<Longrightarrow> ?thesis" by (simp add: exemplars_ok_def)
qed

lemma votes_ok: "exemplars_ok es \<Longrightarrow> exemplars_ok (vote_exemplars used success retire es)"
proof -
  have "list_all exemplar_ok es \<Longrightarrow> map ex_id (vote_exemplars used success retire es) = map ex_id es
      \<and> list_all exemplar_ok (vote_exemplars used success retire es)"
    by (induction es) (auto simp: vote_exemplars_def vote_one_ok)
  then show "exemplars_ok es \<Longrightarrow> exemplars_ok (vote_exemplars used success retire es)"
    by (simp add: exemplars_ok_def) (simp add: vote_exemplars_def)
qed

lemma hard_vote:
  assumes "exemplars_ok es" "row_get ex_id es i = Some e" "row_get ex_id (vote_exemplars used success retire es) i = Some e'"
    and "ex_status e = ''active''" "ex_status e' \<noteq> ''active''"
  shows "i \<in> set used \<and> ex_votes e = 1 \<and> ex_votes e' = 0 \<and> ex_status e' = ''retired''"
proof -
  have e: "ex_id e = i" "exemplar_ok e" using row_get_Some[OF assms(2)] assms(1) by (auto simp: exemplars_ok_def list_all_iff)
  have "e' = (if i \<in> set used then vote_one success retire e else e)"
    using assms(2,3) e row_get_votes[OF assms(1)] by simp
  then show ?thesis
    using assms(4,5) e(2) by (auto simp: vote_one_def exemplar_ok_def Let_def split: if_splits)
qed

definition hard_failure :: "learning \<Rightarrow> learn_op \<Rightarrow> nat \<Rightarrow> bool" where
  \<comment> \<open>the operation ends a run that did not complete and that was shown this exemplar\<close>
  "hard_failure s op i \<longleftrightarrow> (case op of
       PostRun enabled render emb_of now used rid \<Rightarrow> enabled \<and> i \<in> set used
         \<and> (case row_get lr_id (lg_runs s) rid of None \<Rightarrow> False | Some r \<Rightarrow> lr_status r \<noteq> Completed)
     | _ \<Rightarrow> False)"

lemma stats_runs [simp]: "lg_runs (update_routing_stats render now rid s) = lg_runs s"
  by (simp add: update_routing_stats_def split: option.splits)

lemma harvest_status:
  "map_option lr_status (row_get lr_id (lg_runs (snd (harvest_exemplar emb_of now rid s))) rid) = map_option lr_status (row_get lr_id (lg_runs s) rid)"
  by (auto simp: harvest_exemplar_def Let_def row_simps split: option.splits)

lemma post_run_cases:
  "quiet_change (lg_exemplars s) (lg_exemplars (post_run_procedural enabled render emb_of now used rid s))
   \<or> enabled \<and> (\<exists>r. row_get lr_id (lg_runs s) rid = Some r \<and> lr_status r \<noteq> Completed)
     \<and> (\<exists>es. quiet_change (lg_exemplars s) es
            \<and> lg_exemplars (post_run_procedural enabled render emb_of now used rid s) = vote_exemplars used False True es)"
proof -
  obtain s1 where s1: "s1 = snd (harvest_exemplar emb_of now rid (update_routing_stats render now rid s))" by blast
  have q: "quiet_change (lg_exemplars s) (lg_exemplars s1)"
    using quiet_harvest[of "update_routing_stats render now rid s"] by (simp add: s1)
  have st: "map_option lr_status (row_get lr_id (lg_runs s1) rid) = map_option lr_status (row_get lr_id (lg_runs s) rid)"
    using harvest_status[of emb_of now rid "update_routing_stats render now rid s"] by (simp add: s1)
  have before: "\<exists>r. row_get lr_id (lg_runs s) rid = Some r \<and> lr_status r = lr_status x" if "row_get lr_id (lg_runs s1) rid = Some x" for x
    using st that by (cases "row_get lr_id (lg_runs s) rid") auto
  have "lg_exemplars (defer_vote now rid used s1) = lg_exemplars s1" by (simp add: defer_vote_def)
  then show ?thesis
    using q by (auto dest: before simp: post_run_procedural_def Let_def s1[symmetric] split: option.splits)
qed

lemma learn_step_facts:
  "exemplars_ok (lg_exemplars s) \<Longrightarrow> exemplars_ok (lg_exemplars (learn_act s op))
     \<and> (\<forall>i e e'. row_get ex_id (lg_exemplars s) i = Some e \<longrightarrow> ex_status e = ''active''
          \<longrightarrow> row_get ex_id (lg_exemplars (learn_act s op)) i = Some e' \<longrightarrow> ex_status e' \<noteq> ''active''
          \<longrightarrow> hard_failure s op i \<and> ex_votes e' = 0 \<and> ex_status e' = ''retired'')"
proof -
  assume ok: "exemplars_ok (lg_exemplars s)"
  have quiet: ?thesis if q: "quiet_change (lg_exemplars s) (lg_exemplars (learn_act s op))"
    using q ok unfolding quiet_change_def by fastforce
  show ?thesis
  proof (cases op)
    case (PostRun enabled render emb_of now used rid)
    then consider (q) "quiet_change (lg_exemplars s) (lg_exemplars (learn_act s op))"
      | (v) r es where "enabled" "row_get lr_id (lg_runs s) rid = Some r" "lr_status r \<noteq> Completed"
          "quiet_change (lg_exemplars s) es" "lg_exemplars (learn_act s op) = vote_exemplars used False True es"
      using post_run_cases[of s enabled render emb_of now used rid] by auto
    then show ?thesis
    proof cases
      case q
      then show ?thesis by (rule quiet)
    next
      case v
      have es: "exemplars_ok es" using v(4) ok by (simp add: quiet_change_def)
      have "hard_failure s op i \<and> ex_votes e' = 0 \<and> ex_status e' = ''retired''"
        if e: "row_get ex_id (lg_exemplars s) i = Some e" "ex_status e = ''active''"
          "row_get ex_id (lg_exemplars (learn_act s op)) i = Some e'" "ex_status e' \<noteq> ''active''" for i e e'
      proof -
        obtain m where m: "row_get ex_id es i = Some m" "ex_status m = ''active''"
          using v(4) ok e(1,2) unfolding quiet_change_def by blast
        show ?thesis
          using hard_vote[OF es m(1) e(3)[unfolded v(5)] m(2) e(4)] v(1-3) by (simp add: hard_failure_def PostRun)
      qed
      then show ?thesis using votes_ok[OF es] v(5) by auto
    qed
  next
    case (NextTurn enabled conversation m)
    have "quiet_change (lg_exemplars s) (lg_exemplars (learn_act s op))"
      by (auto simp: NextTurn judge_pending_vote_def Let_def split: list.splits intro: quiet_trans[OF quiet_settle_run quiet_settle_runs])
    then show ?thesis by (rule quiet)
  next
    case (Sweeps enabled now)
    have "quiet_change (lg_exemplars s) (lg_exemplars (learn_act s op))"
      by (auto simp: Sweeps settle_exemplar_votes_def Let_def intro: quiet_settle_runs)
    then show ?thesis by (rule quiet)
  qed (use ok in auto)
qed

interpretation learning: inv_system learn_act "\<lambda>s. exemplars_ok (lg_exemplars s)"
  by unfold_locales (use learn_step_facts in blast)

text \<open>
  C22: Over any history of runs, turns and sweeps, an exemplar in service is taken out of service only by a
  run that was shown it and did not complete, and only when that costs its last vote. A correction by
  the user, which a heuristic reads from the next turn, never retires one.
\<close>

theorem only_hard_failures_retire:
  assumes s: "s = foldl learn_act learn_init ops"
    and e: "row_get ex_id (lg_exemplars s) i = Some e" "ex_status e = ''active''"
    and e': "row_get ex_id (lg_exemplars (learn_act s op)) i = Some e'" "ex_status e' \<noteq> ''active''"
  shows "hard_failure s op i \<and> ex_votes e' = 0 \<and> ex_status e' = ''retired''"
proof -
  have "exemplars_ok (lg_exemplars s)"
    unfolding s by (rule learning.run_inv) (simp add: learn_init_def exemplars_ok_def)
  then show ?thesis using learn_step_facts e e' by blast
qed

definition routed_run :: learn_run where
  "routed_run = \<lparr>lr_id = ''r1'', lr_conversation = ''c'', lr_status = Completed, lr_mode = ''agentic'', lr_message = ''plan my week'',
     lr_plan = [], lr_started = 0, lr_finished = Some 5, lr_in = 10, lr_out = 20, lr_vote = None\<rparr>"

definition route_step :: learn_step where
  "route_step = \<lparr>ls_run = ''r1'', ls_type = ''route'', ls_node = ''plan'', ls_output = [(''rung'', JStr ''direct_skill'')]\<rparr>"

definition plain_post :: "nat list \<Rightarrow> string \<Rightarrow> learn_op" where
  "plain_post used rid = PostRun True (\<lambda>v. []) (\<lambda>t. None) 0 used rid"

definition confirmed_history :: "learn_op list" where
  \<comment> \<open>a routed run, ten quiet minutes, and a second run that fails\<close>
  "confirmed_history = [NewRun routed_run, NewStep route_step, plain_post [] ''r1'', Sweeps True (secs 600),
     NewRun (routed_run\<lparr>lr_id := ''r2'', lr_status := Failed\<rparr>)]"

definition week_exemplar :: exemplar where
  "week_exemplar = (new_exemplar 0 routed_run [route_step])\<lparr>ex_status := ''active''\<rparr>"

lemma confirmed_history_exemplars:
  "lg_exemplars (foldl learn_act learn_init confirmed_history) = [week_exemplar]
   \<and> row_get lr_id (lg_runs (foldl learn_act learn_init confirmed_history)) ''r2'' = Some (routed_run\<lparr>lr_id := ''r2'', lr_status := Failed\<rparr>)"
  by (simp add: confirmed_history_def learn_init_def plain_post_def post_run_procedural_def update_routing_stats_def
      harvest_exemplar_def routed_run_def route_step_def row_add_def row_get_def steps_of_def positive_signal_def any_denied_def
      routes_of_def dict_get_def new_exemplar_def open_vote_def row_upd_def settle_exemplar_votes_def quiet_vote_def
      QUIET_SETTLE_S_def later_turn_def settle_run_vote_def settle_vote_def vote_exemplars_def settle_harvested_def
      week_exemplar_def task_text_def Let_def)

theorem only_hard_failures_retire_witness:
  "ex_status (hd (lg_exemplars (learn_act (foldl learn_act learn_init confirmed_history) (plain_post [0] ''r2'')))) = ''retired''"
proof -
  obtain s where s: "s = foldl learn_act learn_init confirmed_history" by blast
  have e: "row_get ex_id (lg_exemplars s) 0 = Some week_exemplar" "ex_status week_exemplar = ''active''"
    using confirmed_history_exemplars by (simp_all add: s row_get_def week_exemplar_def new_exemplar_def)
  have r: "row_get lr_id (lg_runs s) ''r2'' = Some (routed_run\<lparr>lr_id := ''r2'', lr_status := Failed\<rparr>)"
    using confirmed_history_exemplars by (simp add: s)
  have es: "lg_exemplars s = [week_exemplar]" using confirmed_history_exemplars by (simp add: s)
  have post: "lg_exemplars (learn_act s (plain_post [0] ''r2'')) = [vote_one False True week_exemplar]"
    using r es
    by (simp add: plain_post_def post_run_procedural_def harvest_exemplar_def update_routing_stats_def positive_signal_def
        routed_run_def vote_exemplars_def week_exemplar_def new_exemplar_def Let_def)
  then have e': "row_get ex_id (lg_exemplars (learn_act s (plain_post [0] ''r2''))) 0 = Some (vote_one False True week_exemplar)"
    "ex_status (vote_one False True week_exemplar) \<noteq> ''active''"
    by (simp_all add: row_get_def vote_one_def week_exemplar_def new_exemplar_def Let_def)
  show ?thesis using only_hard_failures_retire[OF s e e'] post by (simp add: s)
qed

section \<open>Denied gates\<close>

definition denied_step :: learn_step where
  "denied_step = \<lparr>ls_run = ''r1'', ls_type = ''hitl'', ls_node = ''gate'', ls_output = [(''status'', JStr ''denied'')]\<rparr>"

definition denied_case :: "int \<Rightarrow> learning" where
  \<comment> \<open>a completed run whose gate was denied, and the exemplar its planner was shown\<close>
  "denied_case v = learn_init\<lparr>lg_runs := [routed_run], lg_steps := [denied_step], lg_exemplars := [week_exemplar\<lparr>ex_votes := v, ex_run := ''r0''\<rparr>]\<rparr>"

text \<open>
  A positive vote should need a run that completed without a denied gate. The reuse vote looks at
  the status only: an exemplar that led a run into a gate the user denied is upvoted once the
  conversation has been quiet for ten minutes.
\<close>

theorem denied_run_is_upvoted:
  "any_denied (steps_of ''r1'' (denied_case v)) \<and>
   map ex_votes (lg_exemplars (foldl learn_act (denied_case (1 + int n)) [plain_post [0] ''r1'', Sweeps True (secs 600)])) = [2 + int n]"
  by (simp add: denied_case_def learn_init_def plain_post_def post_run_procedural_def update_routing_stats_def harvest_exemplar_def
      routed_run_def denied_step_def row_get_def steps_of_def positive_signal_def any_denied_def dict_get_def open_vote_def row_upd_def
      defer_vote_def settle_exemplar_votes_def quiet_vote_def QUIET_SETTLE_S_def later_turn_def settle_run_vote_def settle_vote_def
      vote_exemplars_def vote_one_def settle_harvested_def week_exemplar_def new_exemplar_def Let_def)

section \<open>Statistics\<close>

definition stat_inputs :: "learn_run list \<Rightarrow> real" where
  "stat_inputs rs = sum_list (map (\<lambda>r. real (lr_in r)) rs)"

text \<open>The running mean of a capability is the mean of what was folded into it.\<close>

lemma running_mean_is_mean:
  assumes st: "rs_total st = 0" "rs_mean_in st = 0" and rs: "rs \<noteq> []"
  shows "rs_mean_in (fold (\<lambda>r. fold_run now r denied) rs st) = stat_inputs rs / real (length rs)
    \<and> rs_total (fold (\<lambda>r. fold_run now r denied) rs st) = length rs"
proof -
  have "rs_mean_in (fold (\<lambda>r. fold_run now r denied) rs t) * real (rs_total t + length rs) = rs_mean_in t * real (rs_total t) + stat_inputs rs
      \<and> rs_total (fold (\<lambda>r. fold_run now r denied) rs t) = rs_total t + length rs" for t
  proof (induction rs arbitrary: t)
    case (Cons r rs)
    obtain u where u: "u = fold_run now r denied t" by blast
    have "rs_total u = rs_total t + 1" by (simp add: u fold_run_def)
    moreover have "rs_mean_in u * real (rs_total u) = rs_mean_in t * real (rs_total t) + real (lr_in r)"
      by (simp add: u fold_run_def running_mean_def)
    ultimately show ?case
      using Cons.IH[of u] by (simp add: u[symmetric] stat_inputs_def add.commute)
  qed (simp add: stat_inputs_def)
  from this[of st] show ?thesis using st rs by (simp add: field_simps)
qed

section \<open>Mined skills\<close>

definition similar :: "run_digest \<Rightarrow> run_digest \<Rightarrow> bool" where
  "similar seed d \<longleftrightarrow> 2 / 5 \<le> real (card (digest_words d \<inter> digest_words seed)) / real (max (card (digest_words seed)) 1)"

definition cluster_ok :: "run_digest set \<Rightarrow> run_digest list \<Rightarrow> bool" where
  "cluster_ok D c \<longleftrightarrow> (case c of [] \<Rightarrow> False | seed # ds \<Rightarrow> seed \<in> D \<and> list_all (\<lambda>d. d \<in> D \<and> similar seed d) ds)"

lemma place_ok:
  "d \<in> D \<Longrightarrow> list_all (cluster_ok D) cs \<Longrightarrow> list_all (cluster_ok D) (place_digest d cs)"
proof (induction cs)
  case (Cons c cs)
  then show ?case by (cases c) (auto simp: cluster_ok_def joins_cluster_def similar_def)
qed (simp add: cluster_ok_def)

lemma cluster_ok_mono: "cluster_ok D c \<Longrightarrow> D \<subseteq> E \<Longrightarrow> cluster_ok E c"
  by (auto simp: cluster_ok_def list_all_iff split: list.splits)

lemma clusters_ok: "list_all (cluster_ok (set ds)) (cluster_digests ds)"
proof -
  have "set es \<subseteq> D \<Longrightarrow> list_all (cluster_ok D) cs \<Longrightarrow> list_all (cluster_ok D) (fold place_digest es cs)" for es D cs
    by (induction es arbitrary: cs) (auto intro: place_ok)
  then show ?thesis unfolding cluster_digests_def by simp
qed

definition proposal_sound ::
    "overlap_env \<Rightarrow> run_digest list \<Rightarrow> learn_step list \<Rightarrow> tool_row list \<Rightarrow> skill_entry list \<Rightarrow> proposal \<Rightarrow> bool" where
  \<comment> \<open>three similar fallback runs, tools that they used, a new name, and a judge that found no overlap\<close>
  "proposal_sound env digests steps tools es p \<longleftrightarrow>
     3 \<le> length (pp_cluster p) \<and> cluster_ok {d \<in> set digests. ''fallback'' \<in> set (rd_rungs d)} (pp_cluster p)
     \<and> pp_tools p \<noteq> [] \<and> list_all (\<lambda>t. t \<in> set tools \<and> t_tool_key t \<in> cluster_keys steps (pp_cluster p)) (pp_tools p)
     \<and> pp_name p \<notin> s_name ` se_row ` set es
     \<and> (let c = check_skill_overlap env (pp_name p) (pp_description p) (pp_instructions p) (pp_keys p) None es tools
        in ov_available (oc_verdict c) \<and> ov_percent (oc_verdict c) < oc_threshold c)"

definition awaits_review :: "proposal \<Rightarrow> skill_entry \<Rightarrow> bool" where
  "awaits_review p e \<longleftrightarrow> s_name (se_row e) = pp_name p \<and> s_status (se_row e) = ''inactive'' \<and> \<not> s_exposed (se_row e)
     \<and> s_source (se_row e) = ''dynamic'' \<and> se_origin e = ''mined'' \<and> s_tools (se_row e) = pp_tools p \<and> se_audited e = s_definition_hash (se_row e)"

lemma stamped_rest:
  "s_name (snd (stamp_definition h r)) = s_name r \<and> s_status (snd (stamp_definition h r)) = s_status r
   \<and> s_exposed (snd (stamp_definition h r)) = s_exposed r \<and> s_source (snd (stamp_definition h r)) = s_source r
   \<and> s_tools (snd (stamp_definition h r)) = s_tools r"
  by (simp add: stamp_definition_def Let_def)

lemma mined_awaits: "awaits_review p (mined_skill env i now p)"
  by (simp add: awaits_review_def mined_skill_def Let_def stamped_rest)

text \<open>
  Mining never changes the registry by itself: every skill there was stays as it is, and what one pass
  adds is inactive, not exposed, marked as mined, and bound to registry tools that the fallback runs of one
  cluster called -- three or more runs that share two fifths of the words of the first -- under a
  name no skill has, after a judge that was reachable found no overlap.
\<close>

theorem mined_skills_await_review:
  "\<exists>ps new. mine_fallback_skills enabled env sha ids now digests steps tools es = (map pp_name ps, es @ new)
     \<and> list_all2 awaits_review ps new \<and> list_all (proposal_sound env digests steps tools es) ps"
proof -
  obtain fallback where fb: "fallback = take 200 (filter (\<lambda>d. ''fallback'' \<in> set (rd_rungs d)) digests)" by blast
  obtain ps where ps: "ps = filter (proposal_accepted env es tools) (drafts_of sha steps tools es (cluster_digests fallback))" by blast
  obtain new where new: "new = map (\<lambda>(i, p). mined_skill env (ids i) now p) (enumerate 0 ps)" by blast
  have "set fallback \<subseteq> {d \<in> set digests. ''fallback'' \<in> set (rd_rungs d)}"
    unfolding fb using set_take_subset[of 200] by fastforce
  then have clusters: "cluster_ok {d \<in> set digests. ''fallback'' \<in> set (rd_rungs d)} c" if "c \<in> set (cluster_digests fallback)" for c
    using clusters_ok[of fallback] that cluster_ok_mono unfolding list_all_iff by blast
  have "proposal_sound env digests steps tools es p" if p: "p \<in> set ps" for p
  proof -
    obtain c where c: "c \<in> set (cluster_digests fallback)" "p = draft_of sha steps tools c" using p by (auto simp: ps drafts_of_def)
    have "pp_cluster p = c" "list_all (\<lambda>t. t \<in> set tools \<and> t_tool_key t \<in> cluster_keys steps c) (pp_tools p)"
      by (auto simp: c(2) draft_of_def Let_def list_all_iff)
    then show ?thesis
      using p clusters[OF c(1)]
      by (auto simp: ps drafts_of_def proposal_accepted_def proposal_sound_def MIN_CLUSTER_def Let_def check_skill_overlap_def to_out_def)
  qed
  then have sound: "list_all (proposal_sound env digests steps tools es) ps" by (simp add: list_all_iff)
  have waits: "list_all2 awaits_review ps new"
    unfolding new by (auto simp: list_all2_conv_all_nth nth_enumerate_eq mined_awaits)
  have "mine_fallback_skills enabled env sha ids now digests steps tools es
      = (if \<not> enabled \<or> length fallback < MIN_CLUSTER then ([], es) else (map pp_name ps, es @ new))"
    by (simp add: mine_fallback_skills_def fb ps new Let_def)
  then show ?thesis
    using sound waits by (cases "\<not> enabled \<or> length fallback < MIN_CLUSTER") force+
qed

end
