(* ===== verification/Retrieval.thy ===== *)
theory Retrieval
  imports Memory_Store Registry_Cache
begin

text \<open>
  Progressive disclosure of the registries (\<open>backend/app/retrieval.py\<close>): the text a record is
  indexed under, Okapi BM25 and reciprocal-rank fusion, the memo of query vectors, the ambient
  allowlist of a run, the gate that ranks a long catalog down to a slice, the planner's summaries
  (\<open>registry_summaries\<close> of \<open>backend/app/orchestrator/planner.py\<close>) and the upkeep of stored
  embeddings. The embedding model and SHA-256 are arguments; scores are reals.
\<close>

section \<open>Records and their text\<close>

text \<open>
  What the gate reads of a registry record. A key a record does not carry is \<open>None\<close>; the cards of
  sub agents (\<open>sub_agent_cards\<close>) carry neither a vector nor its hash.
\<close>

record reg_view =
  rv_id :: string
  rv_name :: string
  rv_description :: string
  rv_persona :: string
  rv_instructions :: string
  rv_tool_key :: "string option"
  rv_tool_keys :: "string list"
  rv_skill_names :: "string list"
  rv_embedding :: "real list option"
  rv_hash :: "string option option"

record vectors =
  \<comment> \<open>the \<open>embedding\<close> and \<open>embedding_hash\<close> columns of a registry, by record id\<close>
  vx_vector :: "string \<Rightarrow> real list option"
  vx_hash :: "string \<Rightarrow> string option"

definition tool_view :: "vectors \<Rightarrow> tool_row \<Rightarrow> reg_view" where
  "tool_view vx t = \<lparr>rv_id = t_id t, rv_name = t_name t, rv_description = t_description t, rv_persona = [],
     rv_instructions = [], rv_tool_key = Some (t_tool_key t), rv_tool_keys = [], rv_skill_names = [],
     rv_embedding = vx_vector vx (t_id t), rv_hash = Some (vx_hash vx (t_id t))\<rparr>"

definition skill_view :: "vectors \<Rightarrow> skill_row \<Rightarrow> reg_view" where
  "skill_view vx s = \<lparr>rv_id = s_id s, rv_name = s_name s, rv_description = s_description s, rv_persona = s_persona s,
     rv_instructions = s_instructions s, rv_tool_key = None, rv_tool_keys = map t_tool_key (s_tools s),
     rv_skill_names = [], rv_embedding = vx_vector vx (s_id s), rv_hash = Some (vx_hash vx (s_id s))\<rparr>"

record agent_card =
  ac_id :: string
  ac_name :: string
  ac_kind :: string
  ac_description :: string
  ac_skills :: "string list"

definition sub_agent_cards :: "agent_row list \<Rightarrow> agent_card list" where
  "sub_agent_cards agents = map (\<lambda>a. \<lparr>ac_id = a_id a, ac_name = a_name a, ac_kind = a_kind a,
     ac_description = a_description a, ac_skills = a_skill_names a\<rparr>) (active_agents agents)"

definition card_view :: "agent_card \<Rightarrow> reg_view" where
  "card_view c = \<lparr>rv_id = ac_id c, rv_name = ac_name c, rv_description = ac_description c, rv_persona = [],
     rv_instructions = [], rv_tool_key = None, rv_tool_keys = [], rv_skill_names = [],
     rv_embedding = None, rv_hash = None\<rparr>"

definition agent_view :: "vectors \<Rightarrow> agent_row \<Rightarrow> reg_view" where
  \<comment> \<open>the full record the write path embeds\<close>
  "agent_view vx a = \<lparr>rv_id = a_id a, rv_name = a_name a, rv_description = a_description a,
     rv_persona = a_persona a, rv_instructions = [], rv_tool_key = None, rv_tool_keys = [],
     rv_skill_names = a_skill_names a, rv_embedding = vx_vector vx (a_id a),
     rv_hash = Some (vx_hash vx (a_id a))\<rparr>"

definition token_char :: "char \<Rightarrow> bool" where
  "token_char c \<longleftrightarrow> (let n = of_char c :: nat in (97 \<le> n \<and> n \<le> 122) \<or> (48 \<le> n \<and> n \<le> 57))"

fun token_runs :: "string \<Rightarrow> string list" where
  \<comment> \<open>\<open>re.findall("[a-z0-9]+", s)\<close>\<close>
  "token_runs [] = []"
| "token_runs (c # cs) =
     (if \<not> token_char c then token_runs cs
      else (case cs of
          [] \<Rightarrow> [[c]]
        | d # ds \<Rightarrow> if \<not> token_char d then [c] # token_runs cs
                   else (case token_runs cs of [] \<Rightarrow> [[c]] | w # ws \<Rightarrow> (c # w) # ws)))"

definition tokenize :: "string \<Rightarrow> string list" where
  "tokenize s = token_runs (py_lower s)"

definition embed_text_for :: "string \<Rightarrow> reg_view \<Rightarrow> string" where
  "embed_text_for kind v =
     (let parts = [rv_name v, rv_description v]
        @ (if kind = ''skills'' then [rv_persona v, take 1000 (rv_instructions v)] @ rv_tool_keys v
           else if kind = ''sub_agents'' then take 500 (rv_persona v) # rv_skill_names v
           else if kind = ''tools'' then [case rv_tool_key v of None \<Rightarrow> [] | Some k \<Rightarrow> k]
           else [])
      in join [CHR 10] (filter (\<lambda>p. p \<noteq> []) parts))"

section \<open>Scores and ranks\<close>

definition term_count :: "string \<Rightarrow> string list \<Rightarrow> nat" where
  "term_count term toks = length (filter (\<lambda>t. t = term) toks)"

definition doc_count :: "string \<Rightarrow> string list list \<Rightarrow> nat" where
  "doc_count term docs = length (filter (\<lambda>toks. term \<in> set toks) docs)"

definition bm25_term :: "string list list \<Rightarrow> string list \<Rightarrow> string \<Rightarrow> real" where
  \<comment> \<open>\<open>k1 = 1.5\<close>, \<open>b = 0.75\<close>; the mean length is never 0 where a document contains the term\<close>
  "bm25_term docs toks term =
     (let n = real (length docs);
          d = real (doc_count term docs);
          total = real (sum_list (map length docs));
          avg = (if total / n = 0 then 1 else total / n);
          tf = real (term_count term toks)
      in if doc_count term docs = 0 \<or> term_count term toks = 0 then 0
         else ln (1 + (n - d + 1/2) / (d + 1/2))
              * (tf * (3/2 + 1)) / (tf + 3/2 * (1 - 3/4 + 3/4 * real (length toks) / avg)))"

definition bm25_scores :: "string \<Rightarrow> string list \<Rightarrow> real list" where
  "bm25_scores query docs =
     (let dt = map tokenize docs
      in map (\<lambda>toks. sum_list (map (bm25_term dt toks) (tokenize query))) dt)"

definition RRF_K :: nat where
  "RRF_K = 60"

definition rrf_score :: "nat list list \<Rightarrow> nat \<Rightarrow> real" where
  "rrf_score rankings i = sum_list (map (\<lambda>ranking.
     sum_list (map (\<lambda>(rank, idx). if idx = i then 1 / real (RRF_K + rank + 1) else 0)
       (enumerate 0 ranking))) rankings)"

definition rrf_fuse :: "nat list list \<Rightarrow> nat \<Rightarrow> nat list" where
  "rrf_fuse rankings n = sort_key (\<lambda>i. - rrf_score rankings i) [0..<n]"

definition by_score :: "real list \<Rightarrow> nat list" where
  "by_score scores = sort_key (\<lambda>i. - (scores ! i)) [0..<length scores]"

definition rank_text :: "reg_view \<Rightarrow> string" where
  "rank_text v = rv_name v @ '' '' @ rv_description v"

definition vector_scores :: "real list \<Rightarrow> reg_view list \<Rightarrow> real list" where
  "vector_scores q vs = map (\<lambda>v. case rv_embedding v of None \<Rightarrow> 0 | Some e \<Rightarrow> cosine q e) vs"

definition rank_records :: "string \<Rightarrow> reg_view list \<Rightarrow> real list option \<Rightarrow> nat list" where
  "rank_records query vs qvec =
     (let lex = bm25_scores query (map rank_text vs);
          vec = (case qvec of None \<Rightarrow> [] | Some q \<Rightarrow> vector_scores q vs);
          rankings = (if \<exists>x \<in> set lex. x \<noteq> 0 then [by_score lex] else [])
                   @ (if \<exists>x \<in> set vec. x \<noteq> 0 then [by_score vec] else [])
      in if rankings = [] then [0..<length vs] else rrf_fuse rankings (length vs))"

lemma rank_records_perm: "mset (rank_records query vs qvec) = mset [0..<length vs]"
  by (simp add: rank_records_def rrf_fuse_def Let_def)

lemma rank_records_set: "set (rank_records query vs qvec) = {0..<length vs}"
  using arg_cong[OF rank_records_perm[of query vs qvec], of set_mset] by simp

lemma rank_records_distinct: "distinct (rank_records query vs qvec)"
  by (simp add: rank_records_def rrf_fuse_def Let_def)

text \<open>Records without a vector are ranked by their text alone.\<close>

lemma rank_without_vectors:
  "(\<And>v. v \<in> set vs \<Longrightarrow> rv_embedding v = None) \<Longrightarrow> rank_records query vs qvec = rank_records query vs None"
proof (cases qvec)
  case (Some q)
  assume none: "\<And>v. v \<in> set vs \<Longrightarrow> rv_embedding v = None"
  have "vector_scores q vs = map (\<lambda>v. 0) vs"
    by (simp add: vector_scores_def none)
  then have "\<not> (\<exists>x \<in> set (vector_scores q vs). x \<noteq> 0)"
    by simp
  with Some show ?thesis by (simp add: rank_records_def Let_def)
qed simp

section \<open>The context of a run\<close>

record catalog_call =
  cc_step :: "nat option"
  cc_kind :: string
  cc_mode :: string
  cc_shown :: "string list"
  cc_repeats :: "int option"

record run_ctx =
  cx_full_catalog :: bool
  cx_query :: string
  cx_pinned :: "string list"
  cx_allowlist :: "pydict option"
  cx_resumed :: bool
  cx_calls :: "catalog_call list"
  cx_context :: "pydict list"
  cx_labels :: "string list"      \<comment> \<open>activity events without a step\<close>
  cx_step :: "nat option"         \<comment> \<open>the task-local \<open>CURRENT_STEP_ID\<close>\<close>

definition or_none :: "string option \<Rightarrow> string" where
  \<comment> \<open>\<open>str(record.get(key))\<close>\<close>
  "or_none k = (case k of None \<Rightarrow> ''None'' | Some s \<Rightarrow> s)"

definition named_in :: "reg_view \<Rightarrow> string list \<Rightarrow> bool" where
  "named_in v allowed \<longleftrightarrow> rv_id v \<in> set allowed \<or> rv_name v \<in> set allowed \<or> or_none (rv_tool_key v) \<in> set allowed"

definition apply_ambient_allowlist ::
    "(json \<Rightarrow> string) \<Rightarrow> ('r \<Rightarrow> reg_view) \<Rightarrow> run_ctx option \<Rightarrow> string \<Rightarrow> 'r list \<Rightarrow> 'r list" where
  "apply_ambient_allowlist render view ctx kind records =
     (case ctx of None \<Rightarrow> records
      | Some c \<Rightarrow> (case cx_allowlist c of None \<Rightarrow> records
          | Some d \<Rightarrow> (let allowed = dict_get d kind
              in if allowed = JNull then records
                 else filter (\<lambda>r. named_in (view r) (map (py_str render) (list_items allowed))) records)))"

section \<open>Query vectors\<close>

type_synonym query_memo = "((string \<times> string) \<times> real list) list"

definition QUERY_VECS_MAX :: nat where
  "QUERY_VECS_MAX = 128"

definition query_vector ::
    "(string \<Rightarrow> string) \<Rightarrow> (string \<Rightarrow> string \<Rightarrow> real list option) \<Rightarrow> string \<Rightarrow> string \<Rightarrow> query_memo
       \<Rightarrow> real list option \<times> query_memo" where
  \<comment> \<open>\<open>embed model text\<close> is None where the embedding call raises; the oldest entry makes room\<close>
  "query_vector sha get_embedding model query memo =
     (if model = [] then (None, memo)
      else (let key = (model, sha query)
            in case map_of memo key of
                 Some v \<Rightarrow> (Some v, memo)
               | None \<Rightarrow> (case get_embedding model query of
                     None \<Rightarrow> (None, memo)
                   | Some v \<Rightarrow> (Some v, dict_set (if QUERY_VECS_MAX \<le> length memo then tl memo else memo) key v))))"

definition memo_ok :: "query_memo \<Rightarrow> bool" where
  "memo_ok memo \<longleftrightarrow> length memo \<le> QUERY_VECS_MAX \<and> distinct (map fst memo)"

lemma length_dict_set: "length (dict_set d k v) = (if k \<in> fst ` set d then length d else length d + 1)"
  by (induction d k v rule: dict_set.induct) auto

lemma query_vector_bounded: "memo_ok memo \<Longrightarrow> memo_ok (snd (query_vector sha get_embedding model query memo))"
  by (cases memo)
    (auto simp: query_vector_def memo_ok_def Let_def length_dict_set distinct_dict_set QUERY_VECS_MAX_def
      split: option.split)

section \<open>The catalog gate\<close>

record gate_conf =
  gc_enabled :: bool
  gc_threshold :: int
  gc_top_k :: int
  gc_model :: string

definition upto_index :: "int \<Rightarrow> 'a list \<Rightarrow> 'a list" where
  \<comment> \<open>\<open>xs[:k]\<close>, counting from the end when \<open>k\<close> is negative\<close>
  "upto_index k xs = (if k < 0 then take (nat (int (length xs) + k)) xs else take (nat k) xs)"

definition stale_vector :: "(string \<Rightarrow> string) \<Rightarrow> string \<Rightarrow> string \<Rightarrow> reg_view \<Rightarrow> bool" where
  \<comment> \<open>a vector built by another model, or from a text that has changed since\<close>
  "stale_vector sha model kind v \<longleftrightarrow> rv_embedding v \<noteq> None
     \<and> (case rv_hash v of None \<Rightarrow> False | Some h \<Rightarrow> h \<noteq> Some (sha (model @ '':'' @ embed_text_for kind v)))"

definition ranked_view :: "(string \<Rightarrow> string) \<Rightarrow> string \<Rightarrow> string \<Rightarrow> reg_view \<Rightarrow> reg_view" where
  "ranked_view sha model kind v =
     (if model \<noteq> [] \<and> stale_vector sha model kind v then v\<lparr>rv_embedding := None\<rparr> else v)"

definition stale_ids :: "(string \<Rightarrow> string) \<Rightarrow> string \<Rightarrow> string \<Rightarrow> reg_view list \<Rightarrow> string list" where
  \<comment> \<open>the records the gate schedules for a new embedding\<close>
  "stale_ids sha model kind vs = (if model = [] then [] else map rv_id (filter (stale_vector sha model kind) vs))"

definition selected_indices :: "gate_conf \<Rightarrow> string list \<Rightarrow> reg_view list \<Rightarrow> nat list \<Rightarrow> nat list" where
  \<comment> \<open>the top slice and the pinned records beyond it, in catalog order\<close>
  "selected_indices cfg pinned vs order =
     (let top = upto_index (gc_top_k cfg) order
      in sort (top @ filter (\<lambda>i. rv_id (vs ! i) \<in> set pinned \<and> i \<notin> set top) [0..<length vs]))"

definition gate_query :: "string option \<Rightarrow> run_ctx option \<Rightarrow> string" where
  "gate_query query ctx = (case query of Some q \<Rightarrow> q
     | None \<Rightarrow> (case ctx of None \<Rightarrow> [] | Some c \<Rightarrow> cx_query c))"

definition apply_retrieval ::
    "(string \<Rightarrow> string) \<Rightarrow> (string \<Rightarrow> string \<Rightarrow> real list option) \<Rightarrow> gate_conf \<Rightarrow> ('r \<Rightarrow> reg_view)
       \<Rightarrow> run_ctx option \<Rightarrow> string \<Rightarrow> string option \<Rightarrow> 'r list \<Rightarrow> 'r list \<times> nat" where
  \<comment> \<open>\<open>qvec model query\<close> is the query's vector, from the memo or the model\<close>
  "apply_retrieval sha qvec cfg view ctx kind query records =
     (let q = gate_query query ctx
      in if \<not> gc_enabled cfg \<or> int (length records) \<le> gc_threshold cfg \<or> q = [] then (records, 0)
         else (let vs = map view records;
                   order = rank_records q (map (ranked_view sha (gc_model cfg) kind) vs)
                             (if gc_model cfg = [] then None else qvec (gc_model cfg) q);
                   sel = selected_indices cfg (case ctx of None \<Rightarrow> [] | Some c \<Rightarrow> cx_pinned c) vs order
               in (map (\<lambda>i. records ! i) sel, length records - length sel)))"

definition catalog_footer :: "string \<Rightarrow> nat \<Rightarrow> nat \<Rightarrow> string" where
  "catalog_footer kind shown whole =
     ''(showing '' @ nat_str shown @ '' of '' @ nat_str whole @ '' '' @ kind
     @ '' most relevant to the current task -- call use_full_catalog to widen if something you need seems missing)''"

lemma sorted_nths:
  assumes "sorted is" "distinct is" "set is \<subseteq> {0..<length xs}"
  shows "map (\<lambda>i. xs ! i) is = nths xs (set is)"
proof -
  have "is = filter (\<lambda>i. i \<in> set is) [0..<length xs]"
    using assms by (intro sorted_distinct_set_unique) (auto simp: sorted_wrt_filter)
  moreover have "nths xs A = map (\<lambda>i. xs ! i) (filter (\<lambda>i. i \<in> A) [0..<length xs])" for A
  proof -
    have "zip xs [0..<length xs] = map (\<lambda>i. (xs ! i, i)) [0..<length xs]"
      by (rule nth_equalityI) auto
    then show ?thesis by (simp add: nths_def filter_map o_def)
  qed
  ultimately show ?thesis by metis
qed

lemma upto_index_prefix: "\<exists>n. upto_index k xs = take n xs"
  by (auto simp: upto_index_def)

lemma selected_sorted: "sorted (selected_indices cfg pinned vs order)"
  by (simp add: selected_indices_def Let_def)

lemma selected_distinct: "distinct order \<Longrightarrow> distinct (selected_indices cfg pinned vs order)"
proof -
  obtain n where "upto_index (gc_top_k cfg) order = take n order" using upto_index_prefix by blast
  then show "distinct order \<Longrightarrow> ?thesis" by (auto simp: selected_indices_def Let_def)
qed

lemma selected_range:
  "set order = {0..<length vs} \<Longrightarrow> set (selected_indices cfg pinned vs order) \<subseteq> {0..<length vs}"
proof -
  obtain n where "upto_index (gc_top_k cfg) order = take n order" using upto_index_prefix by blast
  then show "set order = {0..<length vs} \<Longrightarrow> ?thesis"
    using set_take_subset[of n order] by (auto simp: selected_indices_def Let_def)
qed

lemma selected_pinned:
  "i < length vs \<Longrightarrow> rv_id (vs ! i) \<in> set pinned \<Longrightarrow> i \<in> set (selected_indices cfg pinned vs order)"
  by (auto simp: selected_indices_def Let_def)

lemma length_filter_mono: "(\<And>x. P x \<Longrightarrow> Q x) \<Longrightarrow> length (filter P xs) \<le> length (filter Q xs)"
  by (induction xs) auto

lemma length_filter_index: "length (filter (\<lambda>i. P (xs ! i)) [0..<length xs]) = length (filter P xs)"
proof -
  have "filter P xs = filter P (map (\<lambda>i. xs ! i) [0..<length xs])"
    by (simp add: map_nth)
  then show ?thesis by (simp add: filter_map o_def)
qed

lemma selected_length:
  assumes "0 \<le> gc_top_k cfg"
  shows "length (selected_indices cfg pinned vs order)
     \<le> nat (gc_top_k cfg) + length (filter (\<lambda>v. rv_id v \<in> set pinned) vs)"
proof -
  have "length (filter (\<lambda>i. rv_id (vs ! i) \<in> set pinned \<and> i \<notin> A) [0..<length vs])
      \<le> length (filter (\<lambda>v. rv_id v \<in> set pinned) vs)" for A
    unfolding length_filter_index[of "\<lambda>v. rv_id v \<in> set pinned", symmetric]
    by (rule length_filter_mono) simp
  then show ?thesis using assms by (simp add: selected_indices_def Let_def upto_index_def add_mono)
qed

section \<open>What the gate lets through\<close>

definition pinned_ids :: "run_ctx option \<Rightarrow> string list" where
  "pinned_ids ctx = (case ctx of None \<Rightarrow> [] | Some c \<Rightarrow> cx_pinned c)"

lemma retrieval_nths:
  obtains A where "fst (apply_retrieval sha qvec cfg view ctx kind query records) = nths records A"
    "\<And>i. i < length records \<Longrightarrow> rv_id (view (records ! i)) \<in> set (pinned_ids ctx) \<Longrightarrow> i \<in> A"
    "length (fst (apply_retrieval sha qvec cfg view ctx kind query records))
       + snd (apply_retrieval sha qvec cfg view ctx kind query records) = length records"
    "\<lbrakk>0 \<le> gc_top_k cfg; snd (apply_retrieval sha qvec cfg view ctx kind query records) \<noteq> 0\<rbrakk> \<Longrightarrow>
       length (fst (apply_retrieval sha qvec cfg view ctx kind query records))
       \<le> nat (gc_top_k cfg) + length (filter (\<lambda>r. rv_id (view r) \<in> set (pinned_ids ctx)) records)"
proof (cases "\<not> gc_enabled cfg \<or> int (length records) \<le> gc_threshold cfg \<or> gate_query query ctx = []")
  case True
  then have "apply_retrieval sha qvec cfg view ctx kind query records = (records, 0)"
    by (auto simp: apply_retrieval_def Let_def)
  then show ?thesis by (intro that[of UNIV]) (simp_all add: nths_all)
next
  case False
  obtain order where order: "order = rank_records (gate_query query ctx)
      (map (ranked_view sha (gc_model cfg) kind) (map view records))
      (if gc_model cfg = [] then None else qvec (gc_model cfg) (gate_query query ctx))" by blast
  obtain sel where sel: "sel = selected_indices cfg (pinned_ids ctx) (map view records) order" by blast
  have res: "apply_retrieval sha qvec cfg view ctx kind query records
      = (map (\<lambda>i. records ! i) sel, length records - length sel)"
    using False by (simp add: apply_retrieval_def Let_def order sel pinned_ids_def)
  have order_ok: "distinct order" "set order = {0..<length (map view records)}"
    by (simp_all add: order rank_records_distinct rank_records_set)
  have props: "sorted sel" "distinct sel" "set sel \<subseteq> {0..<length records}"
    using order_ok selected_range[OF order_ok(2)] by (simp_all add: sel selected_sorted selected_distinct)
  then have "length sel \<le> length records"
    using card_mono[of "{0..<length records}" "set sel"] by (simp add: distinct_card)
  moreover have "length sel \<le> nat (gc_top_k cfg) + length (filter (\<lambda>r. rv_id (view r) \<in> set (pinned_ids ctx)) records)"
    if "0 \<le> gc_top_k cfg"
    using selected_length[OF that, of "pinned_ids ctx" "map view records" order]
    by (simp add: sel filter_map o_def)
  moreover have "i \<in> set sel" if "i < length records" "rv_id (view (records ! i)) \<in> set (pinned_ids ctx)" for i
    using selected_pinned[of i "map view records" "pinned_ids ctx"] that by (simp add: sel)
  ultimately show ?thesis
    by (intro that[of "set sel"]) (simp_all add: res flip: sorted_nths[OF props])
qed

definition plain_rec :: "string \<Rightarrow> string \<Rightarrow> reg_view" where
  "plain_rec i n = \<lparr>rv_id = i, rv_name = n, rv_description = [], rv_persona = [], rv_instructions = [],
     rv_tool_key = None, rv_tool_keys = [], rv_skill_names = [], rv_embedding = None, rv_hash = None\<rparr>"

definition one_shown :: gate_conf where
  "one_shown = \<lparr>gc_enabled = True, gc_threshold = 2, gc_top_k = 1, gc_model = []\<rparr>"

definition ctx_pinning :: "string list \<Rightarrow> run_ctx" where
  "ctx_pinning ids = \<lparr>cx_full_catalog = False, cx_query = ''hello'', cx_pinned = ids, cx_allowlist = None,
     cx_resumed = False, cx_calls = [], cx_context = [], cx_labels = [], cx_step = None\<rparr>"

text \<open>
  Whatever the ranking says, the gate shows a part of the catalog in catalog order that
  contains every record already used in the run, counts exactly what it left out, and when it
  leaves anything out shows at most the configured slice and the pinned records.
\<close>

theorem retrieval_shows_a_slice:
  assumes "apply_retrieval sha qvec cfg view ctx kind query records = (shown, dropped)"
    and "0 \<le> gc_top_k cfg"
  shows "(\<exists>A. shown = nths records A)
    \<and> {r \<in> set records. rv_id (view r) \<in> set (pinned_ids ctx)} \<subseteq> set shown
    \<and> length shown + dropped = length records
    \<and> (dropped = 0 \<or> length shown
         \<le> nat (gc_top_k cfg) + length (filter (\<lambda>r. rv_id (view r) \<in> set (pinned_ids ctx)) records))"
proof -
  obtain A where A: "shown = nths records A" "length shown + dropped = length records"
    "\<And>i. i < length records \<Longrightarrow> rv_id (view (records ! i)) \<in> set (pinned_ids ctx) \<Longrightarrow> i \<in> A"
    "dropped \<noteq> 0 \<Longrightarrow> length shown
       \<le> nat (gc_top_k cfg) + length (filter (\<lambda>r. rv_id (view r) \<in> set (pinned_ids ctx)) records)"
    by (rule retrieval_nths[of sha qvec cfg view ctx kind query records]) (use assms in \<open>auto intro!: that\<close>)
  have "r \<in> set shown" if "r \<in> set records" "rv_id (view r) \<in> set (pinned_ids ctx)" for r
    using that A(3) unfolding A(1) set_nths in_set_conv_nth by blast
  with A show ?thesis by blast
qed

theorem retrieval_shows_a_slice_witness:
  "{r \<in> set [plain_rec ''a'' ''x'', plain_rec ''b'' ''y'', plain_rec ''c'' ''z'']. rv_id r \<in> set [''c'']}
     \<subseteq> set [plain_rec ''a'' ''x'', plain_rec ''c'' ''z'']"
proof -
  have "bm25_scores ''hello'' [''x '', ''y '', ''z ''] = [0, 0, 0]"
    by (simp add: bm25_scores_def tokenize_def token_char_def py_lower_def lower_char_def bm25_term_def Let_def
        term_count_def doc_count_def)
  then have "apply_retrieval (\<lambda>x. x) (\<lambda>m q. None) one_shown (\<lambda>v. v) (Some (ctx_pinning [''c''])) ''tools'' None
      [plain_rec ''a'' ''x'', plain_rec ''b'' ''y'', plain_rec ''c'' ''z'']
    = ([plain_rec ''a'' ''x'', plain_rec ''c'' ''z''], 1)"
    by (simp add: apply_retrieval_def one_shown_def gate_query_def ctx_pinning_def rank_records_def ranked_view_def
        rank_text_def plain_rec_def selected_indices_def upto_index_def Let_def)
  from retrieval_shows_a_slice[OF this] show ?thesis
    by (simp add: one_shown_def pinned_ids_def ctx_pinning_def)
qed

section \<open>Summaries for the planner\<close>

record summary_line =
  sl_id :: string
  sl_type :: string
  sl_name :: string
  sl_description :: string

record summaries =
  su_cards :: "agent_card list"
  su_direct :: "summary_line list"
  su_notes :: "string list"

definition note_of :: "string \<Rightarrow> 'r list \<times> nat \<Rightarrow> string list" where
  "note_of kind slice = (if snd slice \<noteq> 0
     then [catalog_footer kind (length (fst slice)) (length (fst slice) + snd slice)] else [])"

definition registry_summaries ::
    "(string \<Rightarrow> string) \<Rightarrow> (string \<Rightarrow> string \<Rightarrow> real list option) \<Rightarrow> gate_conf \<Rightarrow> vectors \<Rightarrow> run_ctx option
       \<Rightarrow> tool_row list \<Rightarrow> skill_row list \<Rightarrow> agent_row list \<Rightarrow> summaries" where
  "registry_summaries sha qvec cfg vx ctx tools skills agents =
     (let cards = apply_retrieval sha qvec cfg card_view ctx ''sub_agents'' None (sub_agent_cards agents);
          ts = apply_retrieval sha qvec cfg (tool_view vx) ctx ''tools'' None (cached_tools True tools);
          ss = apply_retrieval sha qvec cfg (skill_view vx) ctx ''skills'' None (cached_skills True skills)
      in \<lparr>su_cards = fst cards,
          su_direct = map (\<lambda>t. \<lparr>sl_id = t_id t, sl_type = ''direct_tool'', sl_name = t_tool_key t,
                           sl_description = t_description t\<rparr>) (fst ts)
                    @ map (\<lambda>s. \<lparr>sl_id = s_id s, sl_type = ''direct_skill'', sl_name = s_name s,
                           sl_description = s_description s\<rparr>) (fst ss),
          su_notes = note_of ''sub agents'' cards @ note_of ''tools'' ts @ note_of ''skills'' ss\<rparr>)"

text \<open>
  The cards carry no vector, so the vectors the write path stores for sub agents never
  influence a ranking.
\<close>

lemma cards_ranked_by_text_only:
  "apply_retrieval sha qvec cfg card_view ctx kind query cards
   = apply_retrieval sha (\<lambda>m q. None) cfg card_view ctx kind query cards"
proof -
  have "rank_records q (map (ranked_view sha m kind) (map card_view cards)) v
      = rank_records q (map (ranked_view sha m kind) (map card_view cards)) None" for q m v
    by (rule rank_without_vectors) (auto simp: ranked_view_def card_view_def stale_vector_def)
  from this[of "gate_query query ctx" "gc_model cfg" "qvec (gc_model cfg) (gate_query query ctx)"]
  show ?thesis by (simp add: apply_retrieval_def Let_def)
qed

section \<open>Stored embeddings\<close>

text \<open>
  The rows of one registry that are not deleted, with their vectors. \<open>get_embedding model text\<close>
  is None where the call, the database or the registry cache raises.
\<close>

definition digest_of :: "(string \<Rightarrow> string) \<Rightarrow> string \<Rightarrow> string \<Rightarrow> reg_view \<Rightarrow> string" where
  "digest_of sha model kind v = sha (model @ '':'' @ embed_text_for kind v)"

definition fresh_vector :: "(string \<Rightarrow> string) \<Rightarrow> string \<Rightarrow> string \<Rightarrow> reg_view \<Rightarrow> bool" where
  "fresh_vector sha model kind v \<longleftrightarrow>
     rv_hash v = Some (Some (digest_of sha model kind v)) \<and> rv_embedding v \<noteq> None"

definition refresh_record_embedding ::
    "(string \<Rightarrow> string) \<Rightarrow> (string \<Rightarrow> string \<Rightarrow> real list option) \<Rightarrow> string \<Rightarrow> string \<Rightarrow> string
       \<Rightarrow> reg_view list \<Rightarrow> bool \<times> reg_view list" where
  "refresh_record_embedding sha get_embedding model kind rid rows =
     (if model = [] then (False, rows)
      else (case row_get rv_id rows rid of
          None \<Rightarrow> (False, rows)
        | Some v \<Rightarrow>
            (if fresh_vector sha model kind v then (False, rows)
             else (case get_embedding model (embed_text_for kind v) of
                 None \<Rightarrow> (False, rows)
               | Some vec \<Rightarrow> (True, row_upd rv_id rid
                   (\<lambda>r. r\<lparr>rv_embedding := Some vec, rv_hash := Some (Some (digest_of sha model kind v))\<rparr>) rows)))))"

fun refresh_all ::
    "(string \<Rightarrow> string) \<Rightarrow> (string \<Rightarrow> string \<Rightarrow> real list option) \<Rightarrow> string \<Rightarrow> string \<Rightarrow> string list
       \<Rightarrow> reg_view list \<Rightarrow> nat \<times> reg_view list" where
  "refresh_all sha get_embedding model kind [] rows = (0, rows)"
| "refresh_all sha get_embedding model kind (rid # rids) rows =
     (case refresh_record_embedding sha get_embedding model kind rid rows of
        (b, rows') \<Rightarrow> (case refresh_all sha get_embedding model kind rids rows' of
           (n, rows'') \<Rightarrow> ((if b then n + 1 else n), rows'')))"

definition EMBED_KINDS :: "string list" where
  "EMBED_KINDS = [''tools'', ''skills'', ''sub_agents'']"

definition backfill_embeddings ::
    "(string \<Rightarrow> string) \<Rightarrow> (string \<Rightarrow> string \<Rightarrow> real list option) \<Rightarrow> gate_conf
       \<Rightarrow> (string \<Rightarrow> reg_view list) \<Rightarrow> (string \<times> nat) list \<times> (string \<Rightarrow> reg_view list)" where
  \<comment> \<open>the updated count of each registry that changed, and the registries after it\<close>
  "backfill_embeddings sha get_embedding cfg regs =
     (if \<not> gc_enabled cfg \<or> gc_model cfg = [] then ([], regs)
      else (let res = (\<lambda>kind. refresh_all sha get_embedding (gc_model cfg) kind (map rv_id (regs kind)) (regs kind))
            in (filter (\<lambda>(kind, n). n \<noteq> 0) (map (\<lambda>kind. (kind, fst (res kind))) EMBED_KINDS),
                \<lambda>kind. if kind \<in> set EMBED_KINDS then snd (res kind) else regs kind)))"

definition dependents_of :: "string \<Rightarrow> string \<Rightarrow> skill_row list \<Rightarrow> agent_row list \<Rightarrow> (string \<times> string) list" where
  \<comment> \<open>\<open>schedule_dependents\<close>: the records whose text names the renamed one\<close>
  "dependents_of kind rid skills agents =
     (if kind = ''tools'' then map (\<lambda>s. (''skills'', s_id s))
          (filter (\<lambda>s. \<exists>t \<in> set (s_tools s). t_id t = rid) (cached_skills False skills))
      else if kind = ''skills'' then map (\<lambda>a. (''sub_agents'', a_id a))
          (filter (\<lambda>a. rid \<in> set (a_skill_ids a)) (active_agents agents))
      else [])"

lemma embed_text_update [simp]:
  "embed_text_for kind (v\<lparr>rv_embedding := e, rv_hash := h\<rparr>) = embed_text_for kind v"
  by (simp add: embed_text_for_def Let_def)

lemma refresh_ids: "map rv_id (snd (refresh_record_embedding sha emb model kind rid rows)) = map rv_id rows"
  by (auto simp: refresh_record_embedding_def row_upd_def split: option.split)

lemma refresh_freshens:
  assumes "model \<noteq> []" "\<And>x. emb model x \<noteq> None" "distinct (map rv_id rows)"
    and "(b, rows') = refresh_record_embedding sha emb model kind rid rows"
  shows "\<forall>v \<in> set rows'. rv_id v = rid \<longrightarrow> fresh_vector sha model kind v"
    and "\<forall>v \<in> set rows'. rv_id v \<noteq> rid \<longrightarrow> v \<in> set rows"
proof -
  have only: "row_get rv_id rows rid = Some w \<longleftrightarrow> w \<in> set rows \<and> rv_id w = rid" for w
    using assms(3) by (induction rows) (auto simp: row_get_def)
  consider "row_get rv_id rows rid = None" | w where "row_get rv_id rows rid = Some w" by fastforce
  then have "(\<forall>v \<in> set rows'. rv_id v = rid \<longrightarrow> fresh_vector sha model kind v)
    \<and> (\<forall>v \<in> set rows'. rv_id v \<noteq> rid \<longrightarrow> v \<in> set rows)"
  proof cases
    case 1
    then have "rows' = rows" using assms(4) by (simp add: refresh_record_embedding_def assms(1))
    with 1 show ?thesis by (auto simp: row_get_None)
  next
    case (2 w)
    obtain vec where vec: "emb model (embed_text_for kind w) = Some vec" using assms(2) by auto
    have w: "w \<in> set rows" "rv_id w = rid" "v \<in> set rows \<Longrightarrow> rv_id v = rid \<Longrightarrow> v = w" for v
      using 2 only[of w] only[of v] by auto
    show ?thesis
    proof (cases "fresh_vector sha model kind w")
      case True
      then have "rows' = rows" using assms(1,4) 2 by (simp add: refresh_record_embedding_def)
      with True w show ?thesis by blast
    next
      case False
      then have "rows' = row_upd rv_id rid
          (\<lambda>r. r\<lparr>rv_embedding := Some vec, rv_hash := Some (Some (digest_of sha model kind w))\<rparr>) rows"
        using assms(1,4) 2 vec by (simp add: refresh_record_embedding_def)
      moreover have "fresh_vector sha model kind (v\<lparr>rv_embedding := Some vec,
          rv_hash := Some (Some (digest_of sha model kind w))\<rparr>)" if "v \<in> set rows" "rv_id v = rid" for v
        using w(3)[OF that] by (simp add: fresh_vector_def digest_of_def)
      ultimately show ?thesis by (auto simp: row_upd_def)
    qed
  qed
  then show "\<forall>v \<in> set rows'. rv_id v = rid \<longrightarrow> fresh_vector sha model kind v"
    "\<forall>v \<in> set rows'. rv_id v \<noteq> rid \<longrightarrow> v \<in> set rows" by blast+
qed

lemma refresh_all_freshens:
  assumes "model \<noteq> []" "\<And>x. emb model x \<noteq> None"
  shows "\<lbrakk>distinct (map rv_id rows); (n, rows') = refresh_all sha emb model kind rids rows\<rbrakk> \<Longrightarrow>
    map rv_id rows' = map rv_id rows
    \<and> (\<forall>v \<in> set rows'. rv_id v \<in> set rids \<longrightarrow> fresh_vector sha model kind v)
    \<and> (\<forall>v \<in> set rows'. rv_id v \<notin> set rids \<longrightarrow> v \<in> set rows)"
proof (induction rids arbitrary: rows n rows')
  case (Cons rid rids)
  obtain b rows1 where r1: "refresh_record_embedding sha emb model kind rid rows = (b, rows1)" by fastforce
  obtain m rows2 where r2: "refresh_all sha emb model kind rids rows1 = (m, rows2)" by fastforce
  have ids1: "map rv_id rows1 = map rv_id rows" using refresh_ids[of sha emb model kind rid rows] r1 by simp
  then have "distinct (map rv_id rows1)" using Cons.prems(1) by simp
  from Cons.IH[OF this r2[symmetric]] refresh_freshens[OF assms Cons.prems(1) r1[symmetric]] ids1 Cons.prems(2) r1 r2
  show ?case by auto
qed simp

lemma refresh_fresh:
  assumes "\<forall>v \<in> set rows. fresh_vector sha model kind v"
  shows "refresh_all sha emb model kind rids rows = (0, rows)"
proof -
  have "refresh_record_embedding sha emb model kind rid rows = (False, rows)" for rid
    using assms by (auto simp: refresh_record_embedding_def split: option.split dest!: row_get_Some)
  then show ?thesis by (induction rids) simp_all
qed

definition embed_ones :: "string \<Rightarrow> string \<Rightarrow> real list option" where
  "embed_ones model x = Some [1]"

definition lone_tool :: "string \<Rightarrow> reg_view list" where
  "lone_tool kind = (if kind = ''tools'' then [plain_rec ''a'' ''x''] else [])"

definition gate_on :: gate_conf where
  "gate_on = \<lparr>gc_enabled = True, gc_threshold = 2, gc_top_k = 1, gc_model = ''m''\<rparr>"

text \<open>
  When the embedding model answers, the backfill leaves every record of the three registries
  with a vector built from its current text by the configured model: the gate finds nothing stale
  and a second backfill embeds nothing.
\<close>

theorem backfill_is_complete:
  assumes "gc_enabled cfg" "gc_model cfg \<noteq> []" "\<And>x. emb (gc_model cfg) x \<noteq> None"
    and "\<And>kind. distinct (map rv_id (regs kind))" "kind \<in> set EMBED_KINDS"
  shows "stale_ids sha (gc_model cfg) kind (snd (backfill_embeddings sha emb cfg regs) kind) = []
    \<and> list_all (\<lambda>v. rv_embedding v \<noteq> None) (snd (backfill_embeddings sha emb cfg regs) kind)
    \<and> fst (backfill_embeddings sha emb cfg (snd (backfill_embeddings sha emb cfg regs))) = []"
proof -
  obtain regs' where regs': "regs' = snd (backfill_embeddings sha emb cfg regs)" by blast
  have fresh: "\<forall>v \<in> set (regs' k). fresh_vector sha (gc_model cfg) k v" if "k \<in> set EMBED_KINDS" for k
  proof -
    obtain n rows' where r: "refresh_all sha emb (gc_model cfg) k (map rv_id (regs k)) (regs k) = (n, rows')"
      by fastforce
    have "regs' k = rows'" using assms(1,2) that r by (simp add: regs' backfill_embeddings_def Let_def)
    with refresh_all_freshens[OF assms(2,3,4) r[symmetric]] show ?thesis
      by (metis image_eqI set_map)
  qed
  then have "stale_ids sha (gc_model cfg) kind (regs' kind) = []" "list_all (\<lambda>v. rv_embedding v \<noteq> None) (regs' kind)"
    using assms(5) by (auto simp: stale_ids_def filter_empty_conv stale_vector_def fresh_vector_def digest_of_def list_all_iff)
  moreover have "fst (backfill_embeddings sha emb cfg regs') = []"
    using fresh refresh_fresh by (auto simp: backfill_embeddings_def Let_def filter_empty_conv assms(1,2))
  ultimately show ?thesis by (simp add: regs')
qed

theorem backfill_is_complete_witness:
  "stale_ids (\<lambda>x. x) ''m'' ''tools'' (snd (backfill_embeddings (\<lambda>x. x) embed_ones gate_on lone_tool) ''tools'') = []"
  using backfill_is_complete[of gate_on embed_ones lone_tool "''tools''" "\<lambda>x. x"]
  by (simp add: gate_on_def embed_ones_def lone_tool_def EMBED_KINDS_def)

end
