(* ===== verification/Middleware.thy ===== *)
theory Middleware
  imports Execution Retrieval
begin

text \<open>
  The middleware layer of every tool loop (\<open>backend/app/orchestrator/middleware.py\<close>): the tools
  projection in its three modes with the calls it guards, the skills and sub agents projections,
  the stack each loop gets, and the dispatch of a sub agent from the agentic loop. What a tool, a
  skill loop or a worker does is an argument; counters and log lines are left out, except the
  reports that reach the run.
\<close>

section \<open>The catalog a model call saw\<close>

datatype tools_mode = Scoped | Exposed | Full_Catalog

fun mode_name :: "tools_mode \<Rightarrow> string" where
  "mode_name Scoped = ''scoped''"
| "mode_name Exposed = ''exposed''"
| "mode_name Full_Catalog = ''full_catalog''"

definition CATALOG_CALLS_MAX :: nat where
  "CATALOG_CALLS_MAX = 200"

definition CONTEXT_LOG_MAX :: nat where
  "CONTEXT_LOG_MAX = 50"

fun repeat_last :: "string \<Rightarrow> catalog_call list \<Rightarrow> catalog_call list" where
  \<comment> \<open>one more repeat on the first entry of a kind, in a list read from its end\<close>
  "repeat_last kind [] = []"
| "repeat_last kind (c # cs) =
     (if cc_kind c = kind
      then c\<lparr>cc_repeats := Some ((case cc_repeats c of Some n \<Rightarrow> if n \<noteq> 0 then n else 1 | None \<Rightarrow> 1) + 1)\<rparr> # cs
      else c # repeat_last kind cs)"

definition log_catalog_call :: "string \<Rightarrow> string \<Rightarrow> string list \<Rightarrow> run_ctx \<Rightarrow> run_ctx" where
  "log_catalog_call kind mode shown c =
     (case find (\<lambda>e. cc_kind e = kind) (rev (cx_calls c)) of
        Some e \<Rightarrow>
          (if cc_shown e = shown \<and> cc_mode e = mode
           then c\<lparr>cx_calls := rev (repeat_last kind (rev (cx_calls c)))\<rparr>
           else if length (cx_calls c) < CATALOG_CALLS_MAX
           then c\<lparr>cx_calls := cx_calls c @ [\<lparr>cc_step = cx_step c, cc_kind = kind, cc_mode = mode,
                    cc_shown = shown, cc_repeats = None\<rparr>]\<rparr>
           else c)
      | None \<Rightarrow>
          (if length (cx_calls c) < CATALOG_CALLS_MAX
           then c\<lparr>cx_calls := cx_calls c @ [\<lparr>cc_step = cx_step c, cc_kind = kind, cc_mode = mode,
                    cc_shown = shown, cc_repeats = None\<rparr>]\<rparr>
           else c))"

definition log_context :: "pydict \<Rightarrow> run_ctx \<Rightarrow> run_ctx" where
  "log_context entry c = (if length (cx_context c) < CONTEXT_LOG_MAX then c\<lparr>cx_context := cx_context c @ [entry]\<rparr> else c)"

section \<open>The tools projection\<close>

record reg_env =
  \<comment> \<open>the cached registries and the settings of the gate\<close>
  ev_tools :: "tool_row list"
  ev_skills :: "skill_row list"
  ev_agents :: "agent_row list"
  ev_natives :: "string list"
  ev_vectors :: vectors
  ev_conf :: gate_conf
  ev_sha :: "string \<Rightarrow> string"
  ev_qvec :: "string \<Rightarrow> string \<Rightarrow> real list option"
  ev_render :: "json \<Rightarrow> string"

record tool_meta =
  tm_kind :: string
  tm_source :: string
  tm_id :: string
  tm_tool_key :: string
  tm_version :: "int option"
  tm_hash :: "string option"

record tools_mw =
  mw_mode :: tools_mode
  mw_scoped :: "string list"
  mw_strict :: bool
  mw_current :: "(string \<times> tool_row) list"
  mw_meta :: "(string \<times> tool_meta) list"
  mw_reported :: "string list"              \<comment> \<open>a set\<close>
  mw_missing :: "(string \<times> string) list"    \<comment> \<open>sanitized name and reason\<close>
  mw_last_shown :: "string list"

definition new_tools_mw :: "tools_mode \<Rightarrow> string list \<Rightarrow> bool \<Rightarrow> tools_mw" where
  "new_tools_mw mode ids strict = \<lparr>mw_mode = mode, mw_scoped = ids, mw_strict = strict, mw_current = [], mw_meta = [],
     mw_reported = [], mw_missing = [], mw_last_shown = []\<rparr>"

definition effective_mode :: "run_ctx option \<Rightarrow> tools_mode \<Rightarrow> tools_mode" where
  "effective_mode ctx mode = (case ctx of
       Some c \<Rightarrow> (if mode = Exposed \<and> cx_full_catalog c then Full_Catalog else mode)
     | None \<Rightarrow> mode)"

definition mode_records :: "reg_env \<Rightarrow> run_ctx option \<Rightarrow> tools_mw \<Rightarrow> tool_row list" where
  \<comment> \<open>the records of the effective mode: bound ids, exposed and ranked, or every active tool\<close>
  "mode_records ev ctx mw = (case effective_mode ctx (mw_mode mw) of
       Scoped \<Rightarrow> tools_by_ids (ev_tools ev) (mw_scoped mw)
     | m \<Rightarrow>
         (let allowed = apply_ambient_allowlist (ev_render ev) (tool_view (ev_vectors ev)) ctx ''tools''
                          (cached_tools (m = Exposed) (ev_tools ev))
          in if m = Exposed
             then fst (apply_retrieval (ev_sha ev) (ev_qvec ev) (ev_conf ev) (tool_view (ev_vectors ev)) ctx ''tools'' None allowed)
             else allowed))"

definition missing_reason :: "reg_env \<Rightarrow> string \<Rightarrow> string" where
  "missing_reason ev i = (case tool_by_id (ev_tools ev) i of
       None \<Rightarrow> ''deleted''
     | Some t \<Rightarrow>
         (if t_ingest_state t = ''changed'' then ''quarantined''
          else if t_ingest_state t = ''missing'' then ''missing''
          else if t_status t \<noteq> [] then t_status t else ''inactive''))"

definition missing_names :: "reg_env \<Rightarrow> string list \<Rightarrow> (string \<times> string) list" where
  \<comment> \<open>a later tool with the same sanitized name takes the entry\<close>
  "missing_names ev missing = foldl (\<lambda>d i. case tool_by_id (ev_tools ev) i of
       None \<Rightarrow> d | Some t \<Rightarrow> dict_set d (sanitize_tool_name (t_tool_key t)) (missing_reason ev i)) [] missing"

definition missing_label :: "nat \<Rightarrow> string" where
  "missing_label n = ''skill: '' @ nat_str n @ '' bound tool(s) unavailable at bind time''"

definition report_missing :: "reg_env \<Rightarrow> tool_row list \<Rightarrow> tools_mw \<Rightarrow> run_ctx option \<Rightarrow> tools_mw \<times> run_ctx option" where
  \<comment> \<open>bound tools that did not resolve, reported once per set\<close>
  "report_missing ev records mw ctx =
     (let missing = filter (\<lambda>i. i \<notin> tool_row.t_id ` set records) (mw_scoped mw)
      in if missing = [] \<or> set missing = set (mw_reported mw) then (mw, ctx)
         else (mw\<lparr>mw_reported := missing, mw_missing := missing_names ev missing\<rparr>,
               map_option (\<lambda>c. log_context
                   [(''surface'', JStr ''skill_bind''),
                    (''step_id'', case cx_step c of None \<Rightarrow> JNull | Some i \<Rightarrow> JStr (nat_str i)),
                    (''missing'', JDict (foldl (\<lambda>d i. dict_set d i (JStr (missing_reason ev i))) [] missing)),
                    (''resolved'', JList (map JStr (sort (remdups (map tool_row.t_id records)))))]
                   (c\<lparr>cx_labels := cx_labels c @ [missing_label (length missing)]\<rparr>)) ctx))"

definition meta_of :: "tool_row \<Rightarrow> tool_meta" where
  "meta_of t = \<lparr>tm_kind = t_kind t, tm_source = t_source t, tm_id = tool_row.t_id t, tm_tool_key = t_tool_key t,
     tm_version = t_schema_version t, tm_hash = t_schema_hash t\<rparr>"

fun bind_tools :: "string list \<Rightarrow> tool_row list \<Rightarrow> (string \<times> tool_row) list \<Rightarrow> (string \<times> tool_meta) list
    \<Rightarrow> (string \<times> tool_row) list \<times> (string \<times> tool_meta) list" where
  \<comment> \<open>first wins: a later record with a bound name is skipped, its metadata too\<close>
  "bind_tools natives [] cur meta = (cur, meta)"
| "bind_tools natives (t # ts) cur meta = (case materialize_tool natives t of
       None \<Rightarrow> bind_tools natives ts cur meta
     | Some (name, row) \<Rightarrow>
         (if name \<in> fst ` set cur then bind_tools natives ts cur meta
          else bind_tools natives ts (dict_set cur name row) (dict_set meta name (meta_of t))))"

definition resolve_tools :: "reg_env \<Rightarrow> tools_mw \<Rightarrow> run_ctx option \<Rightarrow> tools_mw \<times> run_ctx option" where
  "resolve_tools ev mw ctx =
     (let records = mode_records ev ctx mw;
          (mw1, ctx1) = (if effective_mode ctx (mw_mode mw) = Scoped then report_missing ev records mw ctx else (mw, ctx));
          (cur, meta) = bind_tools (ev_natives ev) records [] []
      in (mw1\<lparr>mw_current := cur, mw_meta := meta, mw_last_shown := map tool_row.t_id records\<rparr>, ctx1))"

definition tools_model_call :: "reg_env \<Rightarrow> tools_mw \<Rightarrow> run_ctx option \<Rightarrow> (string \<times> tool_row) list \<times> tools_mw \<times> run_ctx option" where
  \<comment> \<open>\<open>awrap_model_call\<close>: the tools attached to this model call\<close>
  "tools_model_call ev mw ctx = (case resolve_tools ev mw ctx of (mw1, ctx1) \<Rightarrow>
     (mw_current mw1, mw1,
      map_option (log_catalog_call ''tools'' (mode_name (effective_mode ctx1 (mw_mode mw1))) (mw_last_shown mw1)) ctx1))"

subsection \<open>A guarded tool call\<close>

datatype tool_answer =
    Raised string
  | Interrupted
  | Returned string bool     \<comment> \<open>the text and whether the message is an error\<close>

datatype call_result =
    Message string bool
  | ToolExecutionFailed string
  | GraphInterrupt
  | OtherException string

type_synonym tool_handler = "tool_row option \<Rightarrow> run_record \<Rightarrow> run_record \<times> tool_answer \<times> int \<times> int"

definition KNOWN_LOOP_TOOLS :: "string list" where
  "KNOWN_LOOP_TOOLS = [''spin_worker'', ''use_full_catalog'', ''write_todos'']"

definition sibling_name :: "string \<Rightarrow> bool" where
  "sibling_name name \<longleftrightarrow> starts_with name ''use_skill_'' \<or> starts_with name ''dispatch_''"

definition call_step :: "string \<Rightarrow> tool_meta option \<Rightarrow> nat option \<Rightarrow> step_args" where
  "call_step name m parent = \<lparr>sa_type = ''tool_call'', sa_tier = ''tool'', sa_kind = map_option tm_kind m,
     sa_entity_id = map_option tm_id m, sa_entity_name = Some name, sa_node = Some name, sa_parent = parent,
     sa_version = Option.bind m tm_version, sa_hash = Option.bind m tm_hash, sa_dispatch = False\<rparr>"

definition record_tool_call :: "run_ctx option \<Rightarrow> string \<Rightarrow> tool_meta option \<Rightarrow> run_record \<Rightarrow> nat option \<times> run_record" where
  "record_tool_call ctx name m rr = (case ctx of
       None \<Rightarrow> (None, rr)
     | Some c \<Rightarrow> (case start_step (call_step name m (cx_step c)) rr of (i, rr1) \<Rightarrow> (Some i, rr1)))"

definition finish_tool_call ::
    "(string option \<Rightarrow> string option) \<Rightarrow> nat option \<Rightarrow> string \<Rightarrow> string option \<Rightarrow> string option \<Rightarrow> int \<times> int
       \<Rightarrow> run_record \<Rightarrow> run_record" where
  "finish_tool_call clean step status outp err usage rr = (case step of
       None \<Rightarrow> rr
     | Some i \<Rightarrow> finish_step clean i status
         (case outp of Some x \<Rightarrow> (if x \<noteq> [] then JDict [(''result'', JStr (take 4000 x))] else JNull) | None \<Rightarrow> JNull)
         err (fst usage) (snd usage) False rr)"

definition paused_schema :: "run_ctx option \<Rightarrow> string \<Rightarrow> tool_meta option \<Rightarrow> run_record
    \<Rightarrow> (string \<times> int option \<times> int option) list" where
  \<comment> \<open>\<open>_check_paused_schema\<close>: the warning it logs, with the version the call was made against\<close>
  "paused_schema ctx name m rr = (case Option.bind m tm_hash of
       None \<Rightarrow> []
     | Some h \<Rightarrow>
         (if ctx = None \<or> h = [] then []
          else (case find (\<lambda>s. rs_type s = ''tool_call'' \<and> rs_node s = Some name \<and> rs_status s = ''running'')
                      (rev (rr_steps rr)) of
              None \<Rightarrow> []
            | Some s \<Rightarrow> (case rs_hash s of
                None \<Rightarrow> []
              | Some old \<Rightarrow> (if old \<noteq> [] \<and> old \<noteq> h then [(name, rs_version s, Option.bind m tm_version)] else [])))))"

definition quoted :: "string \<Rightarrow> string" where
  "quoted s = [CHR 0x27] @ s @ [CHR 0x27]"

definition unavailable_text :: "string \<Rightarrow> string \<Rightarrow> string" where
  "unavailable_text name reason =
     ''tool '' @ quoted name @ '' is bound to this skill but unavailable ('' @ reason @ '')''"

definition unknown_text :: "string \<Rightarrow> string list \<Rightarrow> string" where
  "unknown_text name names = ''tool '' @ quoted name @ '' is not a tool of this loop; use one of ''
     @ (if names = [] then ''(none)'' else ''['' @ join '', '' (map quoted (sort names)) @ '']'')"

definition failed_text :: "string \<Rightarrow> string \<Rightarrow> string" where
  "failed_text name e = ''tool '' @ quoted name @ '' failed: '' @ e"

definition passed_on :: "tool_answer \<Rightarrow> call_result" where
  "passed_on a = (case a of Raised e \<Rightarrow> OtherException e | Interrupted \<Rightarrow> GraphInterrupt | Returned x b \<Rightarrow> Message x b)"

definition refuse_call ::
    "(string option \<Rightarrow> string option) \<Rightarrow> string \<Rightarrow> string option \<Rightarrow> tools_mw \<Rightarrow> run_ctx option \<Rightarrow> run_record
       \<Rightarrow> call_result \<times> run_record" where
  \<comment> \<open>a call of a tool this loop does not have: a failed step and an error, or the node's error edge\<close>
  "refuse_call clean name reason mw ctx rr =
     (let bound = opt_truthy reason;
          err = (case reason of Some r \<Rightarrow> (if r \<noteq> [] then unavailable_text name r
                     else unknown_text name (map fst (mw_current mw)))
                 | None \<Rightarrow> unknown_text name (map fst (mw_current mw)));
          (step, rr1) = record_tool_call ctx name None rr;
          rr2 = finish_tool_call clean step ''failed'' None (Some err) (0, 0) rr1
      in ((if mw_strict mw \<and> bound then ToolExecutionFailed err else Message err True), rr2))"

definition run_call ::
    "(string option \<Rightarrow> string option) \<Rightarrow> tool_handler \<Rightarrow> string \<Rightarrow> tool_row \<Rightarrow> tools_mw \<Rightarrow> run_ctx option \<Rightarrow> run_record
       \<Rightarrow> call_result \<times> run_record" where
  "run_call clean handler name t mw ctx rr =
     (let meta = map_of (mw_meta mw) name;
          (step, rr1) = record_tool_call ctx name meta rr
      in case handler (Some t) rr1 of (rr2, answer, usage) \<Rightarrow> (case answer of
           Interrupted \<Rightarrow> (GraphInterrupt, rr2)
         | Raised e \<Rightarrow>
             ((if mw_strict mw then ToolExecutionFailed (failed_text name e) else Message (failed_text name e) True),
              finish_tool_call clean step ''failed'' None (Some e) usage rr2)
         | Returned x is_error \<Rightarrow>
             ((if mw_strict mw \<and> is_error then ToolExecutionFailed (failed_text name x) else Message x is_error),
              finish_tool_call clean step (if is_error then ''failed'' else ''completed'')
                (if is_error then None else Some x) (if is_error then Some x else None) usage rr2)))"

record call_state =
  cs_mw :: tools_mw
  cs_ctx :: "run_ctx option"
  cs_rr :: run_record
  cs_warnings :: "(string \<times> int option \<times> int option) list"

definition tool_call ::
    "(string option \<Rightarrow> string option) \<Rightarrow> reg_env \<Rightarrow> tool_handler \<Rightarrow> string \<Rightarrow> bool \<Rightarrow> call_state
       \<Rightarrow> call_result \<times> call_state" where
  \<comment> \<open>\<open>awrap_tool_call\<close>; \<open>own\<close>: the loop itself registered a tool of this name\<close>
  "tool_call clean ev handler name own s =
     (let s1 = (if map_of (mw_current (cs_mw s)) name = None
                then (case resolve_tools ev (cs_mw s) (cs_ctx s) of (mw1, ctx1) \<Rightarrow> s\<lparr>cs_mw := mw1, cs_ctx := ctx1\<rparr>)
                else s)
      in case map_of (mw_current (cs_mw s1)) name of
           None \<Rightarrow>
             (let reason = map_of (mw_missing (cs_mw s1)) name
              in if reason = None \<and> (own \<or> name \<in> set KNOWN_LOOP_TOOLS \<or> sibling_name name)
                 then (case handler None (cs_rr s1) of (rr1, answer, usage) \<Rightarrow> (passed_on answer, s1\<lparr>cs_rr := rr1\<rparr>))
                 else (case refuse_call clean name reason (cs_mw s1) (cs_ctx s1) (cs_rr s1) of
                         (r, rr1) \<Rightarrow> (r, s1\<lparr>cs_rr := rr1\<rparr>)))
         | Some t \<Rightarrow>
             (let replayed = (case cs_ctx s1 of None \<Rightarrow> False | Some c \<Rightarrow> cx_resumed c);
                  warn = (if replayed then paused_schema (cs_ctx s1) name (map_of (mw_meta (cs_mw s1)) name) (cs_rr s1) else [])
              in case run_call clean handler name t (cs_mw s1) (map_option (\<lambda>c. c\<lparr>cx_resumed := False\<rparr>) (cs_ctx s1)) (cs_rr s1) of
                   (r, rr1) \<Rightarrow> (r, s1\<lparr>cs_ctx := map_option (\<lambda>c. c\<lparr>cx_resumed := False\<rparr>) (cs_ctx s1), cs_rr := rr1,
                                     cs_warnings := cs_warnings s1 @ warn\<rparr>)))"

end
