(* ===== verification/Projections.thy ===== *)
theory Projections
  imports Middleware
begin

text \<open>
  The skills and sub agents projections of \<open>backend/app/orchestrator/middleware.py\<close>: the names
  they bind, the catalog lines of the system prompt, what a call runs, and
  \<open>build_middleware_stack\<close> with the capabilities a stack attaches to a model call.
\<close>

section \<open>Bound names\<close>

fun bind_names ::
    "string \<Rightarrow> ('r \<Rightarrow> string) \<Rightarrow> ('r \<Rightarrow> string) \<Rightarrow> 'r list \<Rightarrow> (string \<times> 'r) list
       \<Rightarrow> (string \<times> 'r) list \<times> (string \<times> 'r) list" where
  \<comment> \<open>the loop of \<open>_refresh\<close>: the tools attached, and \<open>_current\<close>; a taken name gets the start of the id\<close>
  "bind_names prefix nm idf [] cur = ([], cur)"
| "bind_names prefix nm idf (r # rs) cur =
     (let base = prefix @ sanitize_tool_name (nm r);
          name = (if base \<in> fst ` set cur then base @ ''_'' @ take 6 (idf r) else base)
      in case bind_names prefix nm idf rs (dict_set cur name r) of (tools, cur') \<Rightarrow> ((name, r) # tools, cur'))"

section \<open>Skills\<close>

record skills_mw =
  sk_full :: bool
  sk_current :: "(string \<times> skill_row) list"
  sk_total :: nat

definition new_skills_mw :: "bool \<Rightarrow> skills_mw" where
  "new_skills_mw full = \<lparr>sk_full = full, sk_current = [], sk_total = 0\<rparr>"

definition effective_full :: "run_ctx option \<Rightarrow> skills_mw \<Rightarrow> bool" where
  "effective_full ctx mw \<longleftrightarrow> sk_full mw \<or> (case ctx of None \<Rightarrow> False | Some c \<Rightarrow> cx_full_catalog c)"

definition skill_snapshots :: "reg_env \<Rightarrow> run_ctx option \<Rightarrow> bool \<Rightarrow> skill_row list \<times> nat" where
  "skill_snapshots ev ctx full =
     (let view = skill_view (ev_vectors ev);
          records = apply_ambient_allowlist (ev_render ev) view ctx ''skills'' (cached_skills (\<not> full) (ev_skills ev))
      in (if full then records
          else fst (apply_retrieval (ev_sha ev) (ev_qvec ev) (ev_conf ev) view ctx ''skills'' None records),
          length records))"

definition refresh_skills :: "reg_env \<Rightarrow> run_ctx option \<Rightarrow> skills_mw \<Rightarrow> (string \<times> skill_row) list \<times> skills_mw" where
  "refresh_skills ev ctx mw =
     (case skill_snapshots ev ctx (effective_full ctx mw) of (snaps, whole) \<Rightarrow>
      case bind_names ''use_skill_'' s_name s_id snaps [] of (tools, cur) \<Rightarrow>
        (tools, mw\<lparr>sk_current := cur, sk_total := whole\<rparr>))"

definition skill_line :: "string \<times> skill_row \<Rightarrow> string" where
  \<comment> \<open>only an exposed skill shows the id \<open>spin_worker\<close> asks for\<close>
  "skill_line p = (case p of (name, s) \<Rightarrow>
     (let desc = (if s_description s \<noteq> [] then s_description s else s_name s)
      in if s_exposed s then ''- '' @ name @ '' (skill id: '' @ s_id s @ ''): '' @ desc
         else ''- '' @ name @ '' (fallback only -- call it directly; it cannot be composed into an ephemeral worker): '' @ desc))"

definition skill_section :: "(string \<times> skill_row) list \<Rightarrow> skills_mw \<Rightarrow> string" where
  "skill_section tools mw =
     (let lines = List.map_filter (\<lambda>(name, r). map_option (\<lambda>s. skill_line (name, s)) (map_of (sk_current mw) name)) tools
                @ (if length tools < sk_total mw then [catalog_footer ''skills'' (length tools) (sk_total mw)] else [])
      in [CHR 10, CHR 10] @ ''Available skills (each runs an isolated specialist loop):'' @ [CHR 10]
         @ (if lines = [] then ''(none)'' else join [CHR 10] lines))"

definition skills_model_call ::
    "reg_env \<Rightarrow> skills_mw \<Rightarrow> run_ctx option \<Rightarrow> string option
       \<Rightarrow> (string \<times> skill_row) list \<times> string \<times> skills_mw \<times> run_ctx option" where
  \<comment> \<open>the tools attached and the system message\<close>
  "skills_model_call ev mw ctx system =
     (case refresh_skills ev ctx mw of (tools, mw1) \<Rightarrow>
       (tools, (case system of None \<Rightarrow> [] | Some b \<Rightarrow> b) @ skill_section tools mw1, mw1,
        map_option (log_catalog_call ''skills'' (if effective_full ctx mw1 then ''full_catalog'' else ''exposed'')
          (map (s_id \<circ> snd) (sk_current mw1))) ctx))"

definition skill_route :: "skill_row \<Rightarrow> unit resolution" where
  "skill_route s = \<lparr>res_rung = ''direct_skill'', res_tier = ''skill'', res_kind = ''skill'', res_source = [],
     res_entity_id = Some (s_id s), res_entity_name = s_name s, res_payload = (),
     res_version = s_definition_version s, res_hash = s_definition_hash s\<rparr>"

definition run_skill_tool ::
    "(string option \<Rightarrow> string option) \<Rightarrow> (skill_row \<Rightarrow> string \<Rightarrow> (string + string \<times> model_params option) \<times> inline_outcome)
       \<Rightarrow> bool \<Rightarrow> skill_row \<Rightarrow> string \<Rightarrow> run_ctx option \<Rightarrow> run_record \<Rightarrow> tool_answer \<times> run_record" where
  \<comment> \<open>the coroutine behind \<open>use_skill_*\<close>\<close>
  "run_skill_tool clean inline full s task ctx rr =
     (let rr1 = (case ctx of None \<Rightarrow> rr
                 | Some c \<Rightarrow> record_route clean (if full then ''fallback'' else ''direct_skill'') (skill_route s) rr)
      in case run_inline_skill clean (fst (inline s task)) (snd (inline s task)) s (Option.bind ctx cx_step) rr1 of
           (ExecOk x, rr2) \<Rightarrow> (Returned x False, rr2)
         | (ExecError e, rr2) \<Rightarrow> (Returned (''skill failed: '' @ e) False, rr2)
         | (ExecDenied d, rr2) \<Rightarrow> (Returned (''skill failed: '' @ dr_output d) False, rr2)
         | (ExecPaused p, rr2) \<Rightarrow> (Interrupted, rr2)
         | (ExecRaised e, rr2) \<Rightarrow> (Raised e, rr2))"

definition skill_call :: "reg_env \<Rightarrow> run_ctx option \<Rightarrow> string \<Rightarrow> skills_mw \<Rightarrow> skill_row option \<times> skills_mw" where
  \<comment> \<open>\<open>awrap_tool_call\<close>: the skill the call is rebound to; a fresh instance resolves its registry first\<close>
  "skill_call ev ctx name mw =
     (let mw1 = (if map_of (sk_current mw) name = None \<and> starts_with name ''use_skill_''
                 then snd (refresh_skills ev ctx mw) else mw)
      in (map_of (sk_current mw1) name, mw1))"

section \<open>Sub agents\<close>

definition agent_cards :: "reg_env \<Rightarrow> run_ctx option \<Rightarrow> agent_card list" where
  "agent_cards ev ctx = fst (apply_retrieval (ev_sha ev) (ev_qvec ev) (ev_conf ev) card_view ctx ''sub_agents'' None
     (apply_ambient_allowlist (ev_render ev) card_view ctx ''sub_agents'' (sub_agent_cards (ev_agents ev))))"

definition refresh_agents :: "reg_env \<Rightarrow> run_ctx option \<Rightarrow> (string \<times> agent_card) list \<times> (string \<times> agent_card) list" where
  "refresh_agents ev ctx = bind_names ''dispatch_'' ac_name ac_id (agent_cards ev ctx) []"

definition agents_model_call ::
    "reg_env \<Rightarrow> run_ctx option \<Rightarrow> (string \<times> agent_card) list \<times> (string \<times> agent_card) list \<times> run_ctx option" where
  "agents_model_call ev ctx = (case refresh_agents ev ctx of (tools, cur) \<Rightarrow>
     (tools, cur, map_option (log_catalog_call ''sub_agents'' ''exposed'' (map (ac_id \<circ> snd) cur)) ctx))"

definition agent_call ::
    "reg_env \<Rightarrow> run_ctx option \<Rightarrow> string \<Rightarrow> (string \<times> agent_card) list \<Rightarrow> agent_card option \<times> (string \<times> agent_card) list" where
  "agent_call ev ctx name cur =
     (let cur1 = (if map_of cur name = None \<and> starts_with name ''dispatch_'' then snd (refresh_agents ev ctx) else cur)
      in (map_of cur1 name, cur1))"

definition agentic_node :: "string \<Rightarrow> string" where
  "agentic_node name = ''agentic:'' @ name"

definition dispatch_step_pin :: "run_record \<Rightarrow> nat \<Rightarrow> string option \<times> int option" where
  "dispatch_step_pin rr i = (case row_get rs_id (rr_steps rr) i of None \<Rightarrow> (None, None) | Some s \<Rightarrow> (rs_hash s, rs_version s))"

definition dispatch_answer :: "exec_result \<Rightarrow> tool_answer" where
  "dispatch_answer r = (case r of
       ExecOk x \<Rightarrow> Returned x False
     | ExecDenied d \<Rightarrow> Returned (dr_output d) False
     | ExecError e \<Rightarrow> Returned (''sub agent failed: '' @ e) False
     | ExecPaused p \<Rightarrow> Interrupted
     | ExecRaised e \<Rightarrow> Raised e)"

definition definition_changed :: "run_record \<Rightarrow> nat option \<Rightarrow> payload resolution \<Rightarrow> bool" where
  \<comment> \<open>the warning of a replay: the agent is not the one the paused step pinned\<close>
  "definition_changed rr replay r = (case replay of None \<Rightarrow> False
     | Some i \<Rightarrow> fst (dispatch_step_pin rr i) \<noteq> None \<and> fst (dispatch_step_pin rr i) \<noteq> res_hash r)"

definition run_dispatch_tool ::
    "(string option \<Rightarrow> string option) \<Rightarrow> ((string \<times> string option \<times> string \<times> instant option) list \<Rightarrow> string)
       \<Rightarrow> registries \<Rightarrow> (string \<Rightarrow> string \<Rightarrow> dispatch_env) \<Rightarrow> agent_card \<Rightarrow> string
       \<Rightarrow> worker_cache \<times> run_record \<Rightarrow> resolution_error + tool_answer \<times> worker_cache \<times> run_record" where
  \<comment> \<open>the coroutine behind \<open>dispatch_*\<close>; \<open>env node task\<close>: what runs on the thread of \<open>node\<close>\<close>
  "run_dispatch_tool clean sha rg env ac task st =
     bind_r (resolve_agent rg (ac_id ac)) (\<lambda>r.
       (let node = agentic_node (ac_name ac);
            rr = snd st;
            replay = find_running_dispatch rr node;
            rr1 = (if replay = None then record_route clean (res_rung r) r rr else rr)
        in case execute_resolution clean sha (env node task) r node (fst st, rr1) of
             (res, st') \<Rightarrow> Inr (dispatch_answer res, st')))"

section \<open>The agentic loop's own tools\<close>

definition catalog_route :: "unit resolution" where
  "catalog_route = \<lparr>res_rung = ''fallback'', res_tier = ''orchestrator'', res_kind = ''orchestrator'', res_source = [],
     res_entity_id = None, res_entity_name = ''full-catalog escalation'', res_payload = (), res_version = None, res_hash = None\<rparr>"

definition use_full_catalog ::
    "(string option \<Rightarrow> string option) \<Rightarrow> run_ctx \<Rightarrow> run_record \<Rightarrow> string \<times> run_ctx \<times> run_record" where
  "use_full_catalog clean c rr =
     (''Full catalog unlocked: every active tool and skill is now available on your next step.'',
      c\<lparr>cx_full_catalog := True\<rparr>, record_route clean ''fallback'' catalog_route rr)"

definition spin_worker ::
    "(string option \<Rightarrow> string option) \<Rightarrow> ((string \<times> string option \<times> string \<times> instant option) list \<Rightarrow> string)
       \<Rightarrow> (string \<Rightarrow> bool) \<Rightarrow> (resolution_error \<Rightarrow> string) \<Rightarrow> registries \<Rightarrow> (string \<Rightarrow> string \<Rightarrow> dispatch_env)
       \<Rightarrow> string list \<Rightarrow> string \<Rightarrow> nat \<Rightarrow> worker_cache \<times> run_record \<Rightarrow> tool_answer \<times> nat \<times> worker_cache \<times> run_record" where
  \<comment> \<open>\<open>n\<close>: the workers this run has already called; \<open>describe\<close>: the text of a resolution error\<close>
  "spin_worker clean sha is_uuid describe rg env ids task n st =
     (case dynamic_resolution is_uuid (fst (next_worker_callsign n)) rg ids of
        Inl e \<Rightarrow> (Returned (''could not spin a worker: '' @ describe e) False, n, st)
      | Inr r \<Rightarrow>
          (let node = agentic_node (fst (next_worker_callsign n));
               rr1 = record_route clean (res_rung r) r (snd st)
           in case execute_resolution clean sha (env node task) r node (fst st, rr1) of
                (res, st') \<Rightarrow> ((case res of ExecError e \<Rightarrow> Returned (''worker failed: '' @ e) False | _ \<Rightarrow> dispatch_answer res),
                              snd (next_worker_callsign n), st')))"

section \<open>The stack of a loop\<close>

datatype loop_context =
    Skill_Loop "string list" int bool
  | Fallback_Loop int
  | Agentic_Loop int

datatype middleware =
    Todo_List
  | Summarization
  | Model_Call_Limit int
  | Tools_Registry tools_mw
  | Skills_Registry skills_mw
  | Sub_Agents_Registry

fun build_middleware_stack :: "loop_context \<Rightarrow> middleware list" where
  "build_middleware_stack (Skill_Loop ids iterations strict) =
     [Summarization, Model_Call_Limit (iterations + 1), Tools_Registry (new_tools_mw Scoped ids strict)]"
| "build_middleware_stack (Fallback_Loop iterations) =
     [Summarization, Model_Call_Limit (iterations + 1), Tools_Registry (new_tools_mw Full_Catalog [] False),
      Skills_Registry (new_skills_mw True)]"
| "build_middleware_stack (Agentic_Loop iterations) =
     [Todo_List, Summarization, Model_Call_Limit (max (iterations * 3) 12), Tools_Registry (new_tools_mw Exposed [] False),
      Skills_Registry (new_skills_mw False), Sub_Agents_Registry]"

datatype capability =
    Cap_Tool string tool_row
  | Cap_Skill string skill_row
  | Cap_Agent string agent_card

fun attached :: "reg_env \<Rightarrow> run_ctx option \<Rightarrow> middleware \<Rightarrow> capability list" where
  "attached ev ctx (Tools_Registry mw) = map (\<lambda>(n, t). Cap_Tool n t) (fst (tools_model_call ev mw ctx))"
| "attached ev ctx (Skills_Registry mw) = map (\<lambda>(n, s). Cap_Skill n s) (fst (refresh_skills ev ctx mw))"
| "attached ev ctx Sub_Agents_Registry = map (\<lambda>(n, c). Cap_Agent n c) (fst (refresh_agents ev ctx))"
| "attached ev ctx _ = []"

definition stack_capabilities :: "reg_env \<Rightarrow> run_ctx option \<Rightarrow> middleware list \<Rightarrow> capability list" where
  "stack_capabilities ev ctx stack = concat (map (attached ev ctx) stack)"

end
