(* ===== verification/Middleware_Laws.thy ===== *)
theory Middleware_Laws
  imports Projections
begin

text \<open>
  What the middleware guarantees: which capabilities each loop's stack attaches, that a call is
  recorded under the tool that runs, and that it closes its step; and where it does not hold what
  it promises: the allowlist is not applied to the planner, and the threads of agentic dispatches
  are shared by name.
\<close>

section \<open>Isolation of the loops\<close>

definition allows :: "(json \<Rightarrow> string) \<Rightarrow> run_ctx option \<Rightarrow> string \<Rightarrow> reg_view \<Rightarrow> bool" where
  "allows render ctx kind v \<longleftrightarrow> apply_ambient_allowlist render (\<lambda>v. v) ctx kind [v] = [v]"

lemma allowlist_set:
  "r \<in> set (apply_ambient_allowlist render view ctx kind rs) \<longleftrightarrow> r \<in> set rs \<and> allows render ctx kind (view r)"
  by (auto simp: apply_ambient_allowlist_def allows_def Let_def split: option.splits)

lemma retrieval_subset: "r \<in> set (fst (apply_retrieval sha qvec cfg view ctx kind query rs)) \<Longrightarrow> r \<in> set rs"
  using retrieval_nths[of sha qvec cfg view ctx kind query rs] set_nths_subset by (metis subsetD)

lemma set_dict_set_sub: "set (dict_set d k v) \<subseteq> insert (k, v) (set d)"
  by (induction d k v rule: dict_set.induct) auto

lemma materialize_row: "materialize_tool natives t = Some (name, row) \<Longrightarrow> row = t"
  by (simp add: materialize_tool_def split: if_splits)

lemma bind_tools_from: "set (fst (bind_tools natives ts cur meta)) \<subseteq> set cur \<union> UNIV \<times> set ts"
proof (induction ts arbitrary: cur meta)
  case (Cons t ts)
  show ?case
  proof (cases "materialize_tool natives t")
    case None
    then show ?thesis using Cons[of cur meta] by auto
  next
    case (Some p)
    obtain nm where p: "p = (nm, t)" using Some materialize_row by (cases p) blast
    show ?thesis
      using Cons[of cur meta] Cons[of "dict_set cur nm t" "dict_set meta nm (meta_of t)"] set_dict_set_sub[of cur nm t]
      by (auto simp: Some p)
  qed
qed simp

lemma bind_names_records: "map snd (fst (bind_names prefix nm idf rs cur)) = rs"
  by (induction rs arbitrary: cur) (simp_all add: Let_def split: prod.splits, metis fst_conv)

lemma bind_names_from: "(name, r) \<in> set (fst (bind_names prefix nm idf rs cur)) \<Longrightarrow> r \<in> set rs"
  using bind_names_records[of prefix nm idf rs cur] by (metis image_eqI set_map snd_conv)

lemma tools_by_ids_bound: "t \<in> set (tools_by_ids rows ids) \<Longrightarrow> t_status t = ''active'' \<and> tool_row.t_id t \<in> set ids"
  by (auto simp: tools_by_ids_def in_map_filter dest!: find_Some_in)

fun skill_loop_may :: "string list \<Rightarrow> capability \<Rightarrow> bool" where
  "skill_loop_may ids (Cap_Tool name t) \<longleftrightarrow> t_status t = ''active'' \<and> tool_row.t_id t \<in> set ids"
| "skill_loop_may ids _ \<longleftrightarrow> False"

definition full_catalog :: "run_ctx option \<Rightarrow> bool" where
  "full_catalog ctx \<longleftrightarrow> (case ctx of None \<Rightarrow> False | Some c \<Rightarrow> cx_full_catalog c)"

fun agentic_may :: "reg_env \<Rightarrow> run_ctx option \<Rightarrow> bool \<Rightarrow> capability \<Rightarrow> bool" where
  "agentic_may ev ctx full (Cap_Tool name t) \<longleftrightarrow> t_status t = ''active'' \<and> (t_exposed t \<or> full)
     \<and> allows (ev_render ev) ctx ''tools'' (tool_view (ev_vectors ev) t)"
| "agentic_may ev ctx full (Cap_Skill name s) \<longleftrightarrow> s_status s = ''active'' \<and> (s_exposed s \<or> full)
     \<and> allows (ev_render ev) ctx ''skills'' (skill_view (ev_vectors ev) s)"
| "agentic_may ev ctx full (Cap_Agent name c) \<longleftrightarrow> ac_id c \<in> a_id ` set (active_agents (ev_agents ev))
     \<and> allows (ev_render ev) ctx ''sub_agents'' (card_view c)"

lemma tools_attached:
  "Cap_Tool name t \<in> set (attached ev ctx (Tools_Registry mw)) \<Longrightarrow> t \<in> set (mode_records ev ctx mw)"
  using bind_tools_from[of "ev_natives ev" "mode_records ev ctx mw" "[]" "[]"]
  by (auto simp: tools_model_call_def resolve_tools_def Let_def split: prod.splits if_splits)

lemma attached_tools_only:
  "c \<in> set (attached ev ctx (Tools_Registry mw)) \<Longrightarrow> \<exists>name t. c = Cap_Tool name t"
  by auto

lemma agentic_tools:
  assumes "c \<in> set (attached ev ctx (Tools_Registry (new_tools_mw mode [] False)))" "mode \<noteq> Scoped"
  shows "agentic_may ev ctx (mode = Full_Catalog \<or> full_catalog ctx) c"
proof -
  obtain name t where c: "c = Cap_Tool name t" using attached_tools_only[OF assms(1)] by blast
  have t: "t \<in> set (mode_records ev ctx (new_tools_mw mode [] False))" using tools_attached assms(1) c by blast
  have "effective_mode ctx mode = Full_Catalog \<longleftrightarrow> mode = Full_Catalog \<or> full_catalog ctx"
    using assms(2) by (cases mode) (auto simp: effective_mode_def full_catalog_def split: option.splits)
  moreover have "effective_mode ctx mode \<noteq> Scoped"
    using assms(2) by (cases mode) (auto simp: effective_mode_def split: option.splits)
  ultimately show ?thesis
    using t by (cases "effective_mode ctx mode")
      (auto simp: c mode_records_def new_tools_mw_def Let_def allowlist_set cached_tools_def dest!: retrieval_subset)
qed

lemma agentic_skills:
  assumes "c \<in> set (attached ev ctx (Skills_Registry (new_skills_mw full)))"
  shows "agentic_may ev ctx (full \<or> full_catalog ctx) c"
proof -
  obtain name s where c: "c = Cap_Skill name s" "(name, s) \<in> set (fst (refresh_skills ev ctx (new_skills_mw full)))"
    using assms by auto
  have "s \<in> set (fst (skill_snapshots ev ctx (effective_full ctx (new_skills_mw full))))"
    using c(2) bind_names_from[of name s]
    by (auto simp: refresh_skills_def split: prod.splits) (metis fst_conv)
  moreover have "effective_full ctx (new_skills_mw full) \<longleftrightarrow> full \<or> full_catalog ctx"
    by (auto simp: effective_full_def new_skills_mw_def full_catalog_def)
  ultimately show ?thesis
    by (auto simp: c skill_snapshots_def Let_def allowlist_set cached_skills_def split: if_splits dest!: retrieval_subset)
qed

lemma agentic_agents:
  assumes "c \<in> set (attached ev ctx Sub_Agents_Registry)"
  shows "agentic_may ev ctx full c"
proof -
  obtain name a where c: "c = Cap_Agent name a" "(name, a) \<in> set (fst (refresh_agents ev ctx))"
    using assms by auto
  then have "a \<in> set (agent_cards ev ctx)"
    by (auto simp: refresh_agents_def dest: bind_names_from)
  then show ?thesis
    by (auto simp: c agent_cards_def allowlist_set sub_agent_cards_def dest!: retrieval_subset)
qed

lemma loops_agentic:
  "list_all (agentic_may ev ctx (full_catalog ctx)) (stack_capabilities ev ctx (build_middleware_stack (Agentic_Loop n)))"
  using agentic_tools[of _ ev ctx Exposed] agentic_skills[of _ ev ctx False] agentic_agents[of _ ev ctx]
  by (auto simp: stack_capabilities_def list_all_iff simp del: attached.simps(1-3))


section \<open>Calls\<close>

text \<open>The metadata of every bound name is that of the tool bound to it.\<close>

definition metas :: "(string \<times> tool_row) list \<Rightarrow> (string \<times> tool_meta) list" where
  "metas cur = map (\<lambda>(name, t). (name, meta_of t)) cur"

definition meta_matches :: "tools_mw \<Rightarrow> bool" where
  "meta_matches mw \<longleftrightarrow> mw_meta mw = metas (mw_current mw)"

lemma dict_set_new: "k \<notin> fst ` set d \<Longrightarrow> dict_set d k v = d @ [(k, v)]"
  by (induction d k v rule: dict_set.induct) auto

lemma fst_metas: "fst ` set (metas cur) = fst ` set cur"
  by (force simp: metas_def)

lemma map_of_metas: "map_of (metas cur) name = map_option meta_of (map_of cur name)"
  by (induction cur) (auto simp: metas_def)

lemma bind_tools_metas: "snd (bind_tools natives ts cur (metas cur)) = metas (fst (bind_tools natives ts cur (metas cur)))"
proof (induction ts arbitrary: cur)
  case (Cons t ts)
  show ?case
  proof (cases "materialize_tool natives t")
    case None
    then show ?thesis using Cons[of cur] by simp
  next
    case (Some p)
    obtain nm where p: "p = (nm, t)" using Some materialize_row by (cases p) blast
    have "dict_set (metas cur) nm (meta_of t) = metas (dict_set cur nm t)" if "nm \<notin> fst ` set cur"
      using that by (simp add: dict_set_new fst_metas) (simp add: metas_def)
    then show ?thesis using Cons by (simp add: Some p)
  qed
qed simp

lemma resolve_meta: "meta_matches (fst (resolve_tools ev mw ctx))"
  using bind_tools_metas[of "ev_natives ev" "mode_records ev ctx mw" "[]"]
  by (auto simp: resolve_tools_def Let_def meta_matches_def metas_def split: prod.splits)

datatype loop_event =
    Model_Call reg_env
  | Tool_Call reg_env tool_handler string bool

fun loop_step :: "(string option \<Rightarrow> string option) \<Rightarrow> call_state \<Rightarrow> loop_event \<Rightarrow> call_state" where
  "loop_step clean s (Model_Call ev) = (case tools_model_call ev (cs_mw s) (cs_ctx s) of
     (tools, mw, ctx) \<Rightarrow> s\<lparr>cs_mw := mw, cs_ctx := ctx\<rparr>)"
| "loop_step clean s (Tool_Call ev handler name own) = snd (tool_call clean ev handler name own s)"

definition resolved_state :: "reg_env \<Rightarrow> string \<Rightarrow> call_state \<Rightarrow> call_state" where
  \<comment> \<open>the state after the lookup of a call, with the registry resolved where the name is unknown\<close>
  "resolved_state ev name s = (if map_of (mw_current (cs_mw s)) name = None
     then (case resolve_tools ev (cs_mw s) (cs_ctx s) of (mw1, ctx1) \<Rightarrow> s\<lparr>cs_mw := mw1, cs_ctx := ctx1\<rparr>) else s)"

lemma resolved_meta: "meta_matches (cs_mw s) \<Longrightarrow> meta_matches (cs_mw (resolved_state ev name s))"
  using resolve_meta[of ev "cs_mw s" "cs_ctx s"] by (auto simp: resolved_state_def split: prod.splits)

lemma resolved_rr [simp]: "cs_rr (resolved_state ev name s) = cs_rr s"
  by (simp add: resolved_state_def split: prod.splits)

lemma call_unbound:
  assumes "map_of (mw_current (cs_mw (resolved_state ev name s))) name = None"
  shows "tool_call clean ev handler name own s =
    (let s1 = resolved_state ev name s; reason = map_of (mw_missing (cs_mw s1)) name
     in if reason = None \<and> (own \<or> name \<in> set KNOWN_LOOP_TOOLS \<or> sibling_name name)
        then (case handler None (cs_rr s1) of (rr1, answer, usage) \<Rightarrow> (passed_on answer, s1\<lparr>cs_rr := rr1\<rparr>))
        else (case refuse_call clean name reason (cs_mw s1) (cs_ctx s1) (cs_rr s1) of (r, rr1) \<Rightarrow> (r, s1\<lparr>cs_rr := rr1\<rparr>)))"
  using assms unfolding tool_call_def resolved_state_def Let_def by (simp only: option.case)

lemma call_bound:
  assumes "map_of (mw_current (cs_mw (resolved_state ev name s))) name = Some t"
  obtains ctx warn where
    "tool_call clean ev handler name own s =
       (fst (run_call clean handler name t (cs_mw (resolved_state ev name s)) ctx (cs_rr s)),
        (resolved_state ev name s)\<lparr>cs_ctx := ctx,
           cs_rr := snd (run_call clean handler name t (cs_mw (resolved_state ev name s)) ctx (cs_rr s)),
           cs_warnings := cs_warnings (resolved_state ev name s) @ warn\<rparr>)"
    "ctx = None \<longleftrightarrow> cs_ctx (resolved_state ev name s) = None"
proof -
  obtain s1 where s1: "s1 = resolved_state ev name s" by blast
  obtain ctx where ctx: "ctx = map_option (\<lambda>c. c\<lparr>cx_resumed := False\<rparr>) (cs_ctx s1)" by blast
  obtain warn where warn: "warn = (if (case cs_ctx s1 of None \<Rightarrow> False | Some c \<Rightarrow> cx_resumed c)
      then paused_schema (cs_ctx s1) name (map_of (mw_meta (cs_mw s1)) name) (cs_rr s1) else [])" by blast
  have rr: "cs_rr s1 = cs_rr s" by (simp add: s1)
  have "tool_call clean ev handler name own s =
      (case run_call clean handler name t (cs_mw s1) ctx (cs_rr s1) of
         (r, rr1) \<Rightarrow> (r, s1\<lparr>cs_ctx := ctx, cs_rr := rr1, cs_warnings := cs_warnings s1 @ warn\<rparr>))"
    using assms unfolding tool_call_def resolved_state_def[symmetric] s1[symmetric] Let_def ctx warn
    by (simp only: option.case)
  then show ?thesis using that[of ctx warn] ctx s1 rr by (simp add: case_prod_beta)
qed

lemma call_state_mw: "cs_mw (snd (tool_call clean ev handler name own s)) = cs_mw (resolved_state ev name s)"
proof (cases "map_of (mw_current (cs_mw (resolved_state ev name s))) name")
  case None
  then show ?thesis by (simp add: call_unbound Let_def split: prod.splits)
next
  case (Some t)
  show ?thesis by (rule call_bound[OF Some, of clean handler own]) simp
qed

interpretation loop_calls: inv_system "loop_step clean" "\<lambda>s. meta_matches (cs_mw s)"
proof unfold_locales
  fix s :: call_state and e
  assume ok: "meta_matches (cs_mw s)"
  show "meta_matches (cs_mw (loop_step clean s e))"
  proof (cases e)
    case (Model_Call ev)
    then show ?thesis using resolve_meta[of ev "cs_mw s" "cs_ctx s"] by (auto simp: tools_model_call_def split: prod.splits)
  next
    case (Tool_Call ev handler name own)
    then show ?thesis using resolved_meta[OF ok] by (simp add: call_state_mw)
  qed
qed

definition fresh_loop :: "tools_mode \<Rightarrow> string list \<Rightarrow> bool \<Rightarrow> run_ctx option \<Rightarrow> run_record \<Rightarrow> call_state" where
  "fresh_loop mode ids strict ctx rr =
     \<lparr>cs_mw = new_tools_mw mode ids strict, cs_ctx = ctx, cs_rr = rr, cs_warnings = []\<rparr>"

definition pins :: "run_record \<Rightarrow> string \<Rightarrow> tool_row \<Rightarrow> run_record \<Rightarrow> bool" where
  \<comment> \<open>one more row, running, under the name of the call and the schema of the tool\<close>
  "pins rr name t rr1 \<longleftrightarrow> (\<exists>row. rr_steps rr1 = rr_steps rr @ [row] \<and> rs_type row = ''tool_call'' \<and> rs_status row = ''running''
     \<and> rs_node row = Some name \<and> rs_version row = t_schema_version t \<and> rs_hash row = t_schema_hash t)"

definition probe_env :: "tool_row list \<Rightarrow> reg_env" where
  "probe_env tools = \<lparr>ev_tools = tools, ev_skills = [], ev_agents = [], ev_natives = [],
     ev_vectors = \<lparr>vx_vector = (\<lambda>_. None), vx_hash = (\<lambda>_. None)\<rparr>, ev_conf = one_shown, ev_sha = (\<lambda>x. x),
     ev_qvec = (\<lambda>m q. None), ev_render = (\<lambda>j. [])\<rparr>"

definition nested_handler :: tool_handler where
  \<comment> \<open>a tool that records a step of its own and then fails\<close>
  "nested_handler t rr = (case start_step (call_step ''inner'' None None) rr of
     (i, rr1) \<Rightarrow> (finish_step (\<lambda>e. e) i ''completed'' JNull None 3 4 False rr1, Raised ''boom'', 0, 0))"

text \<open>
  Over any history of model calls and tool calls, with the registry changing between them, a call of a
  bound name runs the tool bound to it on a record whose last row is running under that name and
  pins that tool's schema version and hash, never those of another tool with the same sanitized name.
\<close>

theorem call_records_the_tool_it_runs:
  assumes "s = foldl (loop_step clean) (fresh_loop mode ids strict ctx rr) es"
    and "map_of (mw_current (cs_mw (resolved_state ev name s))) name = Some t"
    and "cs_ctx (resolved_state ev name s) \<noteq> None"
  shows "\<exists>rr1. pins (cs_rr s) name t rr1
    \<and> tool_call clean ev handler name own s = tool_call clean ev (\<lambda>_ _. handler (Some t) rr1) name own s"
proof -
  have "meta_matches (cs_mw (fresh_loop mode ids strict ctx rr))"
    by (simp add: fresh_loop_def new_tools_mw_def meta_matches_def metas_def)
  then have "meta_matches (cs_mw (resolved_state ev name s))"
    unfolding assms(1) by (intro resolved_meta loop_calls.run_inv)
  then have m: "map_of (mw_meta (cs_mw (resolved_state ev name s))) name = Some (meta_of t)"
    using assms(2) by (simp add: meta_matches_def map_of_metas)
  obtain c where c: "cs_ctx (resolved_state ev name s) = Some c" using assms(3) by blast
  obtain i rr1 where i: "start_step (call_step name (Some (meta_of t)) (cx_step c)) (cs_rr s) = (i, rr1)" by fastforce
  have "tool_call clean ev handler name own s = tool_call clean ev (\<lambda>_ _. handler (Some t) rr1) name own s"
    using assms(2) by (simp add: tool_call_def resolved_state_def[symmetric] Let_def m c run_call_def record_tool_call_def i)
  moreover have "pins (cs_rr s) name t rr1"
    using i by (auto simp: pins_def start_step_def Let_def row_add_def new_step_def call_step_def meta_of_def)
  ultimately show ?thesis by blast
qed

theorem call_records_the_tool_it_runs_witness:
  "\<exists>rr1. pins empty_record ''mcp_fetch'' sample_tool rr1"
proof -
  have r: "map_of (mw_current (cs_mw (resolved_state (probe_env [sample_tool]) ''mcp_fetch''
      (fresh_loop Scoped [''t1''] True (Some (ctx_pinning [])) empty_record)))) ''mcp_fetch'' = Some sample_tool"
    "cs_ctx (resolved_state (probe_env [sample_tool]) ''mcp_fetch''
      (fresh_loop Scoped [''t1''] True (Some (ctx_pinning [])) empty_record)) \<noteq> None"
    by (simp_all add: resolved_state_def fresh_loop_def new_tools_mw_def resolve_tools_def mode_records_def effective_mode_def
        probe_env_def sample_tool_def tools_by_ids_def report_missing_def materialize_tool_def sanitize_tool_name_def
        tool_char_def Let_def List.map_filter_simps)
  have s: "fresh_loop Scoped [''t1''] True (Some (ctx_pinning [])) empty_record
      = foldl (loop_step (\<lambda>e. e)) (fresh_loop Scoped [''t1''] True (Some (ctx_pinning [])) empty_record) []" by simp
  show ?thesis
    using call_records_the_tool_it_runs[OF s r, of nested_handler False] by (auto simp: fresh_loop_def)
qed

lemma finish_running: "status \<noteq> ''running'' \<Longrightarrow>
    running_ids (finish_tool_call clean (Some i) status outp err usage rr) = running_ids rr - {i}"
  by (simp add: finish_tool_call_def finish_step_running)

text \<open>
  When what tools do leaves no step of its own running, a tool call closes the step it opened on every
  path: refused, failed, answered with an error, or answered; only an interrupt for a human gate leaves
  it open.
\<close>

theorem call_closes_its_step:
  assumes "record_ok (cs_rr s)" and "tool_call clean ev handler name own s = (r, s')" and "r \<noteq> GraphInterrupt"
    and handler: "\<And>t rr. record_ok rr \<Longrightarrow> running_ids (fst (handler t rr)) = running_ids rr"
  shows "running_ids (cs_rr s') = running_ids (cs_rr s)"
proof (cases "map_of (mw_current (cs_mw (resolved_state ev name s))) name")
  case None
  obtain s1 where s1: "s1 = resolved_state ev name s" by blast
  have refused: "running_ids (snd (refuse_call clean name reason (cs_mw s1) (cs_ctx s1) (cs_rr s))) = running_ids (cs_rr s)" for reason
    using start_step_running[OF assms(1)]
    by (auto simp: refuse_call_def Let_def record_tool_call_def finish_running split: prod.splits option.splits)
      (auto simp: finish_tool_call_def)
  show ?thesis
    using assms(2) call_unbound[OF None, of clean handler own] handler[OF assms(1), of None] refused
    by (auto simp: Let_def s1 split: prod.splits if_splits) (metis fst_conv snd_conv)+
next
  case (Some t)
  obtain mw where mw: "mw = cs_mw (resolved_state ev name s)" by blast
  obtain ctx warn where call: "tool_call clean ev handler name own s =
       (fst (run_call clean handler name t mw ctx (cs_rr s)),
        (resolved_state ev name s)\<lparr>cs_ctx := ctx, cs_rr := snd (run_call clean handler name t mw ctx (cs_rr s)),
           cs_warnings := cs_warnings (resolved_state ev name s) @ warn\<rparr>)"
    unfolding mw by (rule call_bound[OF Some, of clean handler own])
  obtain step rr1 where step: "record_tool_call ctx name (map_of (mw_meta mw) name) (cs_rr s) = (step, rr1)" by fastforce
  obtain rr2 answer usage where h: "handler (Some t) rr1 = (rr2, answer, usage)" by (cases "handler (Some t) rr1")
  have started: "record_ok rr1 \<and> running_ids rr1 = (case step of None \<Rightarrow> {} | Some i \<Rightarrow> {i}) \<union> running_ids (cs_rr s)
      \<and> (\<forall>i. step = Some i \<longrightarrow> i \<notin> running_ids (cs_rr s))"
    using step assms(1) start_step_running[OF assms(1)]
    by (auto simp: record_tool_call_def split: option.splits prod.splits)
  have "running_ids rr2 = running_ids rr1" using handler[of rr1 "Some t"] started h by simp
  with started have closed: "running_ids (finish_tool_call clean step status outp err usage rr2) = running_ids (cs_rr s)"
    if "status \<noteq> ''running''" for status outp err
    using that by (cases step) (auto simp: finish_running, auto simp: finish_tool_call_def)
  show ?thesis
    using assms(2,3) closed by (auto simp: call run_call_def step h Let_def split: tool_answer.splits)
qed

theorem call_closes_its_step_witness:
  "running_ids (cs_rr (snd (tool_call (\<lambda>e. e) (probe_env [sample_tool]) nested_handler ''mcp_fetch'' False
     (fresh_loop Scoped [''t1''] True (Some (ctx_pinning [])) empty_record)))) = {}"
proof -
  let ?s = "fresh_loop Scoped [''t1''] True (Some (ctx_pinning [])) empty_record"
  let ?out = "tool_call (\<lambda>e. e) (probe_env [sample_tool]) nested_handler ''mcp_fetch'' False ?s"
  have ok: "record_ok (cs_rr ?s)" by (simp add: fresh_loop_def record_ok_def empty_record_def)
  have h: "running_ids (fst (nested_handler t rr)) = running_ids rr" if "record_ok rr" for t rr
    using start_finish_running[OF that] by (simp add: nested_handler_def split: prod.splits)
  have "fst ?out \<noteq> GraphInterrupt"
    by (simp add: tool_call_def fresh_loop_def new_tools_mw_def resolve_tools_def mode_records_def effective_mode_def
        probe_env_def sample_tool_def tools_by_ids_def report_missing_def materialize_tool_def sanitize_tool_name_def
        tool_char_def Let_def List.map_filter_simps run_call_def nested_handler_def split: prod.splits)
  then have "running_ids (cs_rr (snd ?out)) = running_ids (cs_rr ?s)"
    by (intro call_closes_its_step[OF ok _ _ h]) simp_all
  then show ?thesis by (simp add: fresh_loop_def running_ids_def is_running_def empty_record_def row_simps)
qed

section \<open>Where the promises end\<close>

fun is_tool :: "capability \<Rightarrow> bool" where
  "is_tool (Cap_Tool name t) = True"
| "is_tool _ = False"

definition no_tools :: "run_ctx \<Rightarrow> run_ctx" where
  \<comment> \<open>a routine whose allowlist names no tool\<close>
  "no_tools c = c\<lparr>cx_allowlist := Some [(''tools'', JList [])]\<rparr>"

text \<open>
  C36: The allowlist of a routine binds the tool loops but not the planner of graph mode: a run that may use
  no tool is offered none by the agentic loop, even after the full-catalog escalation, while its
  planner is shown exactly the tools, skills and sub agents it would be shown without an allowlist.
\<close>

theorem planner_ignores_allowlist:
  "\<not> list_ex is_tool (stack_capabilities ev (Some (no_tools c)) (build_middleware_stack (Agentic_Loop n)))
   \<and> registry_summaries sha qvec cfg vx (Some (no_tools c)) tools skills agents
     = registry_summaries sha qvec cfg vx (Some (c\<lparr>cx_allowlist := None\<rparr>)) tools skills agents"
proof
  have "\<not> allows render (Some (no_tools c)) ''tools'' v" for render v
    by (simp add: allows_def apply_ambient_allowlist_def no_tools_def dict_get_def list_items_def Let_def named_in_def)
  then have "list_all (\<lambda>cap. \<not> is_tool cap) (stack_capabilities ev (Some (no_tools c)) (build_middleware_stack (Agentic_Loop n)))"
    using loops_agentic[of ev "Some (no_tools c)" n]
    by (force simp: list_all_iff elim!: is_tool.elims)
  then show "\<not> list_ex is_tool (stack_capabilities ev (Some (no_tools c)) (build_middleware_stack (Agentic_Loop n)))"
    by (simp add: list_all_iff list_ex_iff)
  show "registry_summaries sha qvec cfg vx (Some (no_tools c)) tools skills agents
     = registry_summaries sha qvec cfg vx (Some (c\<lparr>cx_allowlist := None\<rparr>)) tools skills agents"
    by (simp add: registry_summaries_def apply_retrieval_def gate_query_def no_tools_def Let_def)
qed

text \<open>Two skills whose names differ only by an id can be bound under one name.\<close>

lemma bound_skill_names_collide:
  "let skills = [(sample_skill ''a1b2c3d4'')\<lparr>s_name := ''web_e5f6a7''\<rparr>, (sample_skill ''b1'')\<lparr>s_name := ''web''\<rparr>,
                 (sample_skill ''e5f6a7b8'')\<lparr>s_name := ''web''\<rparr>]
   in map fst (fst (bind_names ''use_skill_'' s_name s_id skills [])) = [''use_skill_web_e5f6a7'', ''use_skill_web'', ''use_skill_web_e5f6a7'']
      \<and> length (snd (bind_names ''use_skill_'' s_name s_id skills [])) = 2"
  by (simp add: sanitize_tool_name_def tool_char_def Let_def sample_skill_def)

subsection \<open>Threads of agentic dispatches\<close>

definition run_of :: "'w hitl_run \<Rightarrow> worker_run" where
  "run_of h = (case snd (snd h) of PausedAt p w \<Rightarrow> WorkerPaused p | Finished d \<Rightarrow> WorkerDone d)"

definition thread_env ::
    "'w invoker \<Rightarrow> ('w \<Rightarrow> worker_state option) \<Rightarrow> (json \<Rightarrow> string) \<Rightarrow> json list \<Rightarrow> (string \<Rightarrow> 'w) \<Rightarrow> dispatch_env
       \<Rightarrow> string \<Rightarrow> string \<Rightarrow> dispatch_env" where
  \<comment> \<open>workers run on the checkpoint of the thread of their node\<close>
  "thread_env invoke state render resumes threads base node task =
     base\<lparr>de_native := (\<lambda>name. map_option (\<lambda>_. run_of (invoke_worker_with_hitl invoke state render task resumes (threads node)))
                         (de_native base name)),
          de_worker := (\<lambda>g. run_of (invoke_worker_with_hitl invoke state render task resumes (threads node)))\<rparr>"

lemma finished_thread:
  "state w = Some st \<Longrightarrow> \<not> ws_next st \<Longrightarrow> ws_outputs st \<noteq> [] \<Longrightarrow>
   run_of (invoke_worker_with_hitl invoke state render task resumes w) = WorkerDone (worker_result render (ws_outputs st))"
  by (simp add: invoke_worker_with_hitl_def run_of_def)

text \<open>
  In agentic mode the thread of a dispatch is named after the sub agent alone. Once a run has dispatched
  to an agent and its worker has finished, dispatching to it again with any other task returns the answer of
  the first dispatch: the worker is not run, no route and no step are recorded.
\<close>

theorem second_dispatch_replays_first:
  assumes "resolve_agent rg (ac_id ag) = Inr r"
    and "\<forall>e. fst (worker_of sha (thread_env invoke state render resumes threads base (agentic_node (ac_name ag)) task)
                  cache (res_payload r)) \<noteq> WorkerFailed e"
    and "find_running_dispatch rr (agentic_node (ac_name ag)) = Some i"
    and "state (threads (agentic_node (ac_name ag))) = Some st" and "\<not> ws_next st" and "ws_outputs st \<noteq> []"
  shows "\<exists>cache' rr'. run_dispatch_tool clean sha rg (thread_env invoke state render resumes threads base) ag task (cache, rr)
      = Inr (Returned (dr_output (worker_result render (ws_outputs st))) False, cache', rr')
    \<and> map rs_id (rr_steps rr') = map rs_id (rr_steps rr)"
proof -
  obtain node where node: "node = agentic_node (ac_name ag)" by blast
  obtain d where d: "d = worker_result render (ws_outputs st)" by blast
  obtain env where env: "env = thread_env invoke state render resumes threads base node task" by blast
  have run: "run_of (invoke_worker_with_hitl invoke state render task resumes (threads node)) = WorkerDone d"
    using finished_thread[of state "threads node" st invoke render task resumes] assms(4-6) by (simp add: d node)
  have no_tool: "\<forall>t s. res_payload r \<noteq> ToolPayload t \<and> res_payload r \<noteq> SkillPayload s"
    using assms(1) by (auto simp: resolve_agent_def native_resolution_def custom_resolution_def split: option.splits if_splits)
  have "fst (worker_of sha env cache (res_payload r)) = WorkerDone d"
    using assms(2) run unfolding node[symmetric] env[symmetric]
    by (auto simp: worker_of_def compiled_run_def env thread_env_def
        split: payload.splits option.splits sum.splits prod.splits)
  then obtain cache' where w: "worker_of sha env cache (res_payload r) = (WorkerDone d, cache')"
    by (cases "worker_of sha env cache (res_payload r)") simp
  have "execute_resolution clean sha env r node (cache, rr) = execute_worker clean sha env r node (cache, rr)"
    using no_tool by (cases "res_payload r") (simp_all add: execute_resolution_def)
  moreover have "map rs_id (row_upd rs_id i (close_row clean status outp err x y) steps) = map rs_id steps" for status outp err x y steps
    by (simp add: row_upd_def close_row_def)
  ultimately show ?thesis
    using assms(1,3) w unfolding run_dispatch_tool_def node[symmetric] d[symmetric]
    by (auto simp: execute_worker_def env[symmetric] dispatch_answer_def finish_step_def Let_def)
qed

definition answered :: worker_state where
  \<comment> \<open>the checkpoint of a worker that has answered\<close>
  "answered = \<lparr>ws_next = False, ws_outputs = [(''n'', JDict [(''status'', JStr ''ok''), (''output'', JStr ''sunny'')])],
     ws_interrupt = None\<rparr>"

definition native_base :: dispatch_env where
  "native_base = quiet_env\<lparr>de_native := (\<lambda>_. Some (WorkerFailed []))\<rparr>"

definition agents_only :: registries where
  "agents_only = \<lparr>rg_tools = [], rg_skills = [], rg_agents = [native_sample], rg_dynamic_enabled = False\<rparr>"

definition native_card :: agent_card where
  "native_card = \<lparr>ac_id = ''n'', ac_name = ''n'', ac_kind = ''native'', ac_description = [], ac_skills = []\<rparr>"

definition after_first :: run_record where
  \<comment> \<open>the run after its first dispatch to the agent\<close>
  "after_first = snd (start_step (dispatch_step (native_resolution native_sample) (agentic_node ''n'')) empty_record)"

theorem second_dispatch_replays_first_witness:
  "\<exists>st. run_dispatch_tool (\<lambda>e. e) (\<lambda>_. []) agents_only
     (thread_env (\<lambda>w i. (w, [], None)) (\<lambda>w. Some answered) (\<lambda>j. []) [] (\<lambda>node. ()) native_base)
     native_card ''what is the capital of Peru?'' (\<lambda>_. None, after_first) = Inr (Returned ''sunny'' False, st)"
proof -
  have "resolve_agent agents_only (ac_id native_card) = Inr (native_resolution native_sample)"
    by (simp add: resolve_agent_def agents_only_def native_card_def native_sample_def agent_by_id_def)
  moreover have "\<forall>e. fst (worker_of (\<lambda>_. []) (thread_env (\<lambda>w i. (w, [], None)) (\<lambda>w. Some answered) (\<lambda>j. []) [] (\<lambda>node. ())
      native_base (agentic_node (ac_name native_card)) ''what is the capital of Peru?'') (\<lambda>_. None)
      (res_payload (native_resolution native_sample))) \<noteq> WorkerFailed e"
    by (simp add: worker_of_def native_resolution_def thread_env_def native_base_def finished_thread answered_def)
  moreover have "find_running_dispatch after_first (agentic_node (ac_name native_card)) = Some 0"
    by (simp add: find_running_dispatch_def after_first_def start_step_def dispatch_step_def new_step_def row_add_def
        empty_record_def native_card_def Let_def)
  moreover have "dr_output (worker_result (\<lambda>j. []) (ws_outputs answered)) = ''sunny''"
    by (simp add: worker_result_def answered_def result_nodes_def is_route_key_def starts_with_def result_part_def denial_def
        dict_get_def dict_get_or_def Let_def)
  ultimately show ?thesis
    using second_dispatch_replays_first[of agents_only native_card "native_resolution native_sample"]
    by (fastforce simp: answered_def)
qed

end
