(* ===== verification/Egress.thy ===== *)
theory Egress
  imports Prelude
begin

text \<open>
  The egress policy (\<open>backend/app/egress.py\<close>): the judgement of a URL by scheme, host, literal and
  resolved addresses, the request hook along a redirect chain, and bodies read under a cap. Parsing
  of URLs, the address classes of \<open>ipaddress\<close>, DNS and the transport are arguments.
\<close>

section \<open>Policy\<close>

datatype egress_kind = Denied | Too_Large | Timed_Out | Unreachable | Bad_Status | Redirects

record egress_conf =
  eg_policy :: string
  eg_allow_hosts :: string
  eg_max_bytes :: int

record egress_policy =
  eo_mode :: string
  eo_allow :: "string list"
  eo_cap :: nat

definition MAX_REDIRECTS :: nat where
  "MAX_REDIRECTS = 5"

definition LOCAL_NAMES :: "string list" where
  "LOCAL_NAMES = [''localhost'', ''localhost.localdomain'', ''ip6-localhost'', ''ip6-loopback'']"

fun split_commas :: "string \<Rightarrow> string list" where
  \<comment> \<open>\<open>s.split(",")\<close>\<close>
  "split_commas [] = [[]]"
| "split_commas (c # cs) =
     (if c = CHR '','' then [] # split_commas cs
      else (case split_commas cs of [] \<Rightarrow> [[c]] | w # ws \<Rightarrow> (c # w) # ws))"

definition policy_of :: "egress_conf \<Rightarrow> egress_policy" where
  "policy_of cfg =
     (let m = py_lower (py_strip (if eg_policy cfg \<noteq> [] then eg_policy cfg else ''public''))
      in \<lparr>eo_mode = (if m \<in> {''public'', ''allowlist'', ''open''} then m else ''public''),
          eo_allow = map (\<lambda>h. py_lower (py_strip h)) (filter (\<lambda>h. py_strip h \<noteq> []) (split_commas (eg_allow_hosts cfg))),
          eo_cap = nat (max (eg_max_bytes cfg) 1024)\<rparr>)"

record addr_class =
  ad_loopback :: bool
  ad_link_local :: bool
  ad_private :: bool
  ad_reserved :: bool
  ad_multicast :: bool
  ad_unspecified :: bool

definition is_forbidden_address :: "(string \<Rightarrow> addr_class option) \<Rightarrow> string \<Rightarrow> bool" where
  \<comment> \<open>\<open>classify\<close> is None where \<open>ipaddress\<close> raises\<close>
  "is_forbidden_address classify ip = (case classify ip of None \<Rightarrow> True
     | Some a \<Rightarrow> ad_loopback a \<or> ad_link_local a \<or> ad_private a \<or> ad_reserved a \<or> ad_multicast a \<or> ad_unspecified a)"

definition rstrip_dots :: "string \<Rightarrow> string" where
  "rstrip_dots h = rev (dropWhile (\<lambda>c. c = CHR ''.'') (rev h))"

definition allow_match :: "string \<Rightarrow> string \<Rightarrow> bool" where
  "allow_match host entry \<longleftrightarrow>
     (if starts_with entry ''.'' then ends_with host entry \<or> host = drop 1 entry
      else host = entry \<or> ends_with host (''.'' @ entry))"

definition allowlisted :: "string \<Rightarrow> string list \<Rightarrow> bool" where
  "allowlisted host allow = list_ex (allow_match (rstrip_dots (py_lower host))) allow"

record url =
  u_scheme :: string
  u_host :: string

definition bare_host :: "string \<Rightarrow> string" where
  \<comment> \<open>\<open>host.strip("[]").lower()\<close>\<close>
  "bare_host h = (let b = (\<lambda>c. c = CHR ''['' \<or> c = CHR '']'')
                  in py_lower (rev (dropWhile b (rev (dropWhile b h)))))"

definition is_local_name :: "string \<Rightarrow> bool" where
  "is_local_name host \<longleftrightarrow> host \<in> set LOCAL_NAMES \<or> ends_with host ''.localhost''"

definition check_url_static ::
    "egress_policy \<Rightarrow> (string \<Rightarrow> url option) \<Rightarrow> (string \<Rightarrow> addr_class option) \<Rightarrow> string \<Rightarrow> egress_kind option" where
  \<comment> \<open>the refusal, None where the URL passes\<close>
  "check_url_static p parse classify s = (case parse s of
       None \<Rightarrow> Some Denied
     | Some u \<Rightarrow>
         (let host = bare_host (u_host u)
          in if u_scheme u \<notin> {''http'', ''https''} then Some Denied
             else if host = [] then Some Denied
             else if eo_mode p = ''open'' then None
             else if eo_mode p = ''allowlist'' then (if allowlisted host (eo_allow p) then None else Some Denied)
             else if allowlisted host (eo_allow p) then None
             else if is_local_name host then Some Denied
             else (case classify host of
                 None \<Rightarrow> None
               | Some a \<Rightarrow> if is_forbidden_address classify host then Some Denied else None)))"

definition check_url ::
    "egress_policy \<Rightarrow> (string \<Rightarrow> url option) \<Rightarrow> (string \<Rightarrow> addr_class option) \<Rightarrow> (string \<Rightarrow> string list option) \<Rightarrow> string
       \<Rightarrow> egress_kind option" where
  \<comment> \<open>\<open>resolve\<close> is None where the name does not resolve\<close>
  "check_url p parse classify resolve s = (case check_url_static p parse classify s of
       Some e \<Rightarrow> Some e
     | None \<Rightarrow>
         (if eo_mode p \<noteq> ''public'' then None
          else (case parse s of
              None \<Rightarrow> None
            | Some u \<Rightarrow>
                (let host = bare_host (u_host u)
                 in if allowlisted host (eo_allow p) then None
                    else if classify host \<noteq> None then None
                    else (case resolve host of
                        None \<Rightarrow> Some Unreachable
                      | Some [] \<Rightarrow> Some Unreachable
                      | Some addrs \<Rightarrow> if list_ex (is_forbidden_address classify) addrs then Some Denied else None)))))"

section \<open>Requests and bodies\<close>

fun issued ::
    "nat \<Rightarrow> (string \<Rightarrow> egress_kind option) \<Rightarrow> (string \<Rightarrow> string option) \<Rightarrow> string \<Rightarrow> string list \<times> egress_kind option" where
  \<comment> \<open>the requests that leave the process, with the redirects left: the hook runs before every
      request; \<open>redirect url\<close> is the target a response points at\<close>
  "issued 0 hook redirect s = (case hook s of
       Some e \<Rightarrow> ([], Some e)
     | None \<Rightarrow> ([s], if redirect s = None then None else Some Redirects))"
| "issued (Suc n) hook redirect s = (case hook s of
       Some e \<Rightarrow> ([], Some e)
     | None \<Rightarrow> (case redirect s of
         None \<Rightarrow> ([s], None)
       | Some t \<Rightarrow> (case issued n hook redirect t of (sent, res) \<Rightarrow> (s # sent, res))))"

definition client_get ::
    "(string \<Rightarrow> egress_kind option) \<Rightarrow> (string \<Rightarrow> string option) \<Rightarrow> string \<Rightarrow> string list \<times> egress_kind option" where
  "client_get hook redirect s = issued MAX_REDIRECTS hook redirect s"

fun read_body :: "nat \<Rightarrow> nat \<Rightarrow> char list \<Rightarrow> char list list \<Rightarrow> egress_kind + char list" where
  \<comment> \<open>\<open>chunks\<close> and \<open>held\<close> of the streaming loop; bytes are characters\<close>
  "read_body cap held got [] = Inr got"
| "read_body cap held got (chunk # chunks) =
     (if cap < held + length chunk then Inl Too_Large
      else read_body cap (held + length chunk) (got @ chunk) chunks)"

datatype transport = Answer "nat option" "char list list" | Http_Status | Timeout_Exc | Redirect_Loop | Other_Exc

definition fetch_bytes ::
    "egress_policy \<Rightarrow> (string \<Rightarrow> url option) \<Rightarrow> (string \<Rightarrow> addr_class option) \<Rightarrow> nat option \<Rightarrow> transport \<Rightarrow> string
       \<Rightarrow> egress_kind + char list" where
  \<comment> \<open>the declared length when the header is a number, and the chunks; other exceptions by their class\<close>
  "fetch_bytes p parse classify cap answer s =
     (let limit = (case cap of None \<Rightarrow> eo_cap p | Some n \<Rightarrow> n)
      in case check_url_static p parse classify s of
           Some e \<Rightarrow> Inl e
         | None \<Rightarrow> (case answer of
               Answer declared chunks \<Rightarrow>
                 (if (case declared of None \<Rightarrow> False | Some n \<Rightarrow> limit < n) then Inl Too_Large
                  else read_body limit 0 [] chunks)
             | Http_Status \<Rightarrow> Inl Bad_Status
             | Timeout_Exc \<Rightarrow> Inl Timed_Out
             | Redirect_Loop \<Rightarrow> Inl Redirects
             | Other_Exc \<Rightarrow> Inl Unreachable))"

section \<open>What passes\<close>

text \<open>The declarative reading of the policy.\<close>

definition address_ok :: "(string \<Rightarrow> addr_class option) \<Rightarrow> string \<Rightarrow> bool" where
  "address_ok classify ip \<longleftrightarrow> (\<exists>a. classify ip = Some a \<and> \<not> ad_loopback a \<and> \<not> ad_link_local a \<and> \<not> ad_private a
     \<and> \<not> ad_reserved a \<and> \<not> ad_multicast a \<and> \<not> ad_unspecified a)"

definition public_host :: "(string \<Rightarrow> addr_class option) \<Rightarrow> (string \<Rightarrow> string list option) \<Rightarrow> string \<Rightarrow> bool" where
  "public_host classify resolve host \<longleftrightarrow> \<not> is_local_name host
     \<and> (if classify host = None
        then (\<exists>a addrs. resolve host = Some (a # addrs) \<and> list_all (address_ok classify) (a # addrs))
        else address_ok classify host)"

definition egress_allowed ::
    "egress_policy \<Rightarrow> (string \<Rightarrow> url option) \<Rightarrow> (string \<Rightarrow> addr_class option) \<Rightarrow> (string \<Rightarrow> string list option) \<Rightarrow> string \<Rightarrow> bool" where
  "egress_allowed p parse classify resolve s \<longleftrightarrow> (\<exists>u. parse s = Some u \<and> u_scheme u \<in> {''http'', ''https''}
     \<and> bare_host (u_host u) \<noteq> []
     \<and> (eo_mode p = ''open'' \<or> allowlisted (bare_host (u_host u)) (eo_allow p)
        \<or> eo_mode p = ''public'' \<and> public_host classify resolve (bare_host (u_host u))))"

lemma forbidden_iff: "is_forbidden_address classify ip \<longleftrightarrow> \<not> address_ok classify ip"
  by (auto simp: is_forbidden_address_def address_ok_def split: option.splits)

lemma policy_mode: "eo_mode (policy_of cfg) = ''open'' \<or> eo_mode (policy_of cfg) = ''allowlist'' \<or> eo_mode (policy_of cfg) = ''public''"
  by (auto simp: policy_of_def Let_def)

lemma check_url_spec:
  assumes "eo_mode p = ''open'' \<or> eo_mode p = ''allowlist'' \<or> eo_mode p = ''public''"
  shows "check_url p parse classify resolve s = None \<longleftrightarrow> egress_allowed p parse classify resolve s"
proof (cases "parse s")
  case None
  then show ?thesis by (simp add: check_url_def check_url_static_def egress_allowed_def)
next
  case (Some u)
  obtain host where host: "host = bare_host (u_host u)" by blast
  show ?thesis
  proof (cases "eo_mode p = ''public'' \<and> \<not> allowlisted host (eo_allow p)")
    case False
    with assms Some show ?thesis
      by (auto simp: check_url_def check_url_static_def egress_allowed_def host[symmetric] Let_def)
  next
    case True
    have modes: "eo_mode p = ''public''" "\<not> allowlisted host (eo_allow p)" "eo_mode p \<noteq> ''open''" "eo_mode p \<noteq> ''allowlist''"
      using True by simp_all
    have lhs: "check_url p parse classify resolve s = None \<longleftrightarrow>
        u_scheme u \<in> {''http'', ''https''} \<and> host \<noteq> [] \<and> \<not> is_local_name host
        \<and> (if classify host = None
           then (case resolve host of None \<Rightarrow> False | Some [] \<Rightarrow> False | Some addrs \<Rightarrow> \<not> list_ex (is_forbidden_address classify) addrs)
           else \<not> is_forbidden_address classify host)"
    proof (cases "classify host")
      case None
      then show ?thesis
        by (simp add: check_url_def check_url_static_def Some host[symmetric] modes Let_def split: option.split list.split)
    next
      case (Some a)
      then show ?thesis
        by (simp add: check_url_def check_url_static_def \<open>parse s = Some u\<close> host[symmetric] modes Let_def)
    qed
    have addrs: "(case resolve host of None \<Rightarrow> False | Some [] \<Rightarrow> False | Some addrs \<Rightarrow> \<not> list_ex (is_forbidden_address classify) addrs)
        \<longleftrightarrow> (\<exists>a addrs. resolve host = Some (a # addrs) \<and> list_all (address_ok classify) (a # addrs))"
      by (cases "resolve host"; cases "the (resolve host)") (simp_all add: forbidden_iff list_ex_iff list_all_iff)
    show ?thesis
      unfolding lhs addrs by (simp add: egress_allowed_def Some host[symmetric] modes public_host_def forbidden_iff)
  qed
qed

lemma issued_checked:
  "list_all (\<lambda>r. hook r = None) (fst (issued n hook redirect s)) \<and> length (fst (issued n hook redirect s)) \<le> n + 1"
proof (induction n arbitrary: s)
  case (Suc n)
  show ?case
  proof (cases "redirect s")
    case (Some t)
    with Suc[of t] show ?thesis by (auto split: option.split prod.splits)
  qed (simp split: option.split)
qed (simp split: option.split)

text \<open>
  C25: With the policy of any configuration, a request and every hop its redirects lead to leave the
  process only for http(s) URLs whose host the operator admitted, or which under the public policy is no
  local name and has only addresses outside the refused ranges; at most six requests leave.
\<close>

theorem requests_respect_policy:
  "list_all (egress_allowed (policy_of cfg) parse classify resolve)
     (fst (client_get (check_url (policy_of cfg) parse classify resolve) redirect s))
   \<and> length (fst (client_get (check_url (policy_of cfg) parse classify resolve) redirect s)) \<le> 6"
  using issued_checked[of "check_url (policy_of cfg) parse classify resolve" MAX_REDIRECTS redirect s]
    check_url_spec[OF policy_mode, of cfg parse classify resolve]
  by (simp add: client_get_def MAX_REDIRECTS_def)

lemma read_body_result:
  "length got = held \<Longrightarrow> read_body cap held got chunks =
     (if length (got @ concat chunks) \<le> cap \<or> chunks = [] then Inr (got @ concat chunks) else Inl Too_Large)"
  by (induction chunks arbitrary: held got) auto

text \<open>A body is returned whole or refused; what is returned is never above the cap.\<close>

lemma body_within_cap:
  "fetch_bytes p parse classify cap answer s = Inr b \<Longrightarrow>
   length b \<le> (case cap of None \<Rightarrow> eo_cap p | Some n \<Rightarrow> n) \<and> (\<exists>d chunks. answer = Answer d chunks \<and> b = concat chunks)"
  by (auto simp: fetch_bytes_def Let_def read_body_result split: option.splits transport.splits if_splits)

end
