(* ===== verification/Mcp.thy ===== *)
theory Mcp
  imports Worker
begin

text \<open>
  The MCP servers (\<open>backend/app/mcp/\<close>): write-only secrets, the ingest that reconciles the tools a
  server offers with the tools table, the reconnect budget with its circuit breaker, the health
  ping and the reconciliation of a replica's connections. Sessions, processes and whether a connection
  attempt succeeds are arguments; background tasks are the scheduled flag of a breaker.
\<close>

section \<open>Secrets\<close>

definition MASK :: string where
  "MASK = ''***''"

definition mask_map :: "pydict option \<Rightarrow> pydict option" where
  "mask_map vals = map_option (map (\<lambda>(k, v). (k, JStr MASK))) vals"

definition dict_del :: "('k \<times> 'v) list \<Rightarrow> 'k \<Rightarrow> ('k \<times> 'v) list" where
  "dict_del d k = filter (\<lambda>(k', v). k' \<noteq> k) d"

definition merge_one :: "pydict \<Rightarrow> string \<times> json \<Rightarrow> pydict" where
  "merge_one merged p = (case p of (k, v) \<Rightarrow>
     (if v = JNull then dict_del merged k else if v = JStr MASK then merged else dict_set merged k v))"

definition merge_secret_map :: "pydict option \<Rightarrow> pydict option \<Rightarrow> pydict option" where
  "merge_secret_map existing given = (case given of None \<Rightarrow> None
     | Some inc \<Rightarrow> Some (foldl merge_one (case existing of None \<Rightarrow> [] | Some d \<Rightarrow> d) inc))"

definition resolve_secret_map :: "(json \<Rightarrow> string) \<Rightarrow> (string \<Rightarrow> string) \<Rightarrow> pydict option \<Rightarrow> (string \<times> string) list" where
  \<comment> \<open>\<open>getenv\<close>: the process environment, empty where the variable is not set\<close>
  "resolve_secret_map render getenv vals = map (\<lambda>(k, v). (k, case v of
       JStr s \<Rightarrow> (if starts_with s ''env:'' then getenv (drop 4 s) else s)
     | _ \<Rightarrow> py_str render v)) (case vals of None \<Rightarrow> [] | Some d \<Rightarrow> d)"

definition secret_strings :: "(json \<Rightarrow> string) \<Rightarrow> (string \<Rightarrow> string) \<Rightarrow> pydict option \<Rightarrow> string list" where
  "secret_strings render getenv vals = filter (\<lambda>v. v \<noteq> []) (map snd (resolve_secret_map render getenv vals))"

lemma merge_masks [simp]: "foldl merge_one d (map (\<lambda>(k, v). (k, JStr MASK)) xs) = d"
  by (induction xs) (auto simp: merge_one_def)

text \<open>
  Reading a server's secrets and writing back what was read changes nothing, and nothing of a stored
  value is in what was read.
\<close>

theorem masked_round_trip:
  "merge_secret_map stored (mask_map stored) = stored
   \<and> (case mask_map stored of None \<Rightarrow> True | Some d \<Rightarrow> list_all (\<lambda>(k, v). v = JStr MASK) d)"
  by (auto simp: merge_secret_map_def mask_map_def list_all_iff split: option.splits)

text \<open>A mask for a key that is not stored adds nothing, and \<open>null\<close> removes.\<close>

lemma merge_one_lookup:
  "map_of (merge_one d (k, v)) k' = (if k' = k \<and> v = JNull then None
     else if k' = k \<and> v \<noteq> JStr MASK then Some v else map_of d k')"
proof -
  have "map_of (dict_del d k) k' = (if k' = k then None else map_of d k')"
    by (induction d) (auto simp: dict_del_def)
  then show ?thesis by (auto simp: merge_one_def)
qed

section \<open>Ingest\<close>

record mcp_server =
  ms_id :: string
  ms_name :: string
  ms_source :: string
  ms_transport :: string
  ms_command :: "string option"
  ms_args :: json
  ms_url :: "string option"
  ms_env :: "pydict option"
  ms_headers :: "pydict option"
  ms_config_hash :: "string option"
  ms_status :: string
  ms_last_error :: "string option"
  ms_deleted :: bool

definition config_fingerprint :: "(json \<Rightarrow> string) \<Rightarrow> mcp_server \<Rightarrow> string" where
  \<comment> \<open>\<open>fp\<close> hashes the canonical text; secrets enter by their keys alone\<close>
  "config_fingerprint fp s =
     (let keys = (\<lambda>d. JList (map JStr (sort (map fst (case d of None \<Rightarrow> [] | Some m \<Rightarrow> m)))));
          text = (\<lambda>x. case x of None \<Rightarrow> JNull | Some t \<Rightarrow> JStr t)
      in fp (JDict [(''transport'', JStr (ms_transport s)), (''command'', text (ms_command s)), (''args'', ms_args s),
           (''url'', text (ms_url s)), (''env_keys'', keys (ms_env s)), (''header_keys'', keys (ms_headers s))]))"

record offered =
  of_name :: string
  of_description :: string
  of_schema :: json

record ingest_env =
  ie_fp :: "json \<Rightarrow> string"
  ie_sha :: "string \<Rightarrow> string"
  ie_policy :: string
  ie_now :: instant
  ie_server :: mcp_server
  ie_ids :: "string list \<Rightarrow> string"       \<comment> \<open>a fresh id, away from the ids in use\<close>
  ie_suffix :: "string list \<Rightarrow> string"    \<comment> \<open>six hexadecimal digits\<close>

record ingest_state =
  is_rows :: "tool_row list"              \<comment> \<open>the tools of this server\<close>
  is_keys :: "string list"                \<comment> \<open>every tool key in use\<close>
  is_changed :: "string list"
  is_changed_ids :: "string list"

definition new_tool :: "ingest_env \<Rightarrow> offered \<Rightarrow> string \<Rightarrow> string \<Rightarrow> tool_row" where
  "new_tool env sp i key = \<lparr>t_id = i, t_name = of_name sp, t_description = of_description sp,
     t_source = ms_source (ie_server env), t_status = ''active'', t_kind = ''mcp'', t_tool_name = of_name sp, t_tool_key = key,
     t_exposed = False, t_ingest_state = ''present'', t_input_schema = of_schema sp,
     t_schema_hash = schema_fingerprint (ie_fp env) (of_schema sp), t_schema_version = Some 1, t_schema_changed_at = None,
     t_description_hash = text_fingerprint (ie_sha env) (Some (of_description sp)), t_description_source = ''server'',
     t_deleted_at = None\<rparr>"

definition fresh_key :: "ingest_env \<Rightarrow> string list \<Rightarrow> offered \<Rightarrow> string" where
  "fresh_key env keys sp =
     (let key = ms_name (ie_server env) @ ''.'' @ of_name sp
      in if key \<in> set keys \<or> sanitize_tool_name key \<in> sanitize_tool_name ` set keys
         then key @ ''-'' @ ie_suffix env keys else key)"

definition known_tool :: "ingest_env \<Rightarrow> offered \<Rightarrow> tool_row \<Rightarrow> bool \<times> bool \<times> tool_row" where
  \<comment> \<open>a tool the server still offers: described, changed, and the row\<close>
  "known_tool env sp row =
     (case apply_description (ie_sha env) ''server'' (of_description sp) row of (described, row1) \<Rightarrow>
      case apply_schema (ie_fp env) (ie_policy env) (ie_now env) (of_schema sp) row1 of (changed, row2) \<Rightarrow>
        (let row3 = (if t_ingest_state row2 = ''missing'' \<and> t_deleted_at row2 = None then row2\<lparr>t_status := ''active''\<rparr> else row2);
             row4 = (if t_ingest_state row3 \<noteq> QUARANTINED then row3\<lparr>t_ingest_state := ''present''\<rparr> else row3)
         in (described, changed, row4)))"

definition upsert_tool :: "ingest_env \<Rightarrow> offered \<Rightarrow> string \<Rightarrow> tool_row list \<Rightarrow> tool_row list" where
  \<comment> \<open>the insert; a row with the same tool name takes the schema\<close>
  "upsert_tool env sp key rows =
     (if of_name sp \<in> t_tool_name ` set rows
      then map (\<lambda>t. if t_tool_name t = of_name sp
                    then t\<lparr>t_input_schema := of_schema sp, t_ingest_state := ''present'',
                           t_schema_hash := schema_fingerprint (ie_fp env) (of_schema sp)\<rparr> else t) rows
      else rows @ [new_tool env sp (ie_ids env (map t_id rows)) key])"

definition ingest_spec :: "ingest_env \<Rightarrow> string list \<Rightarrow> ingest_state \<Rightarrow> offered \<Rightarrow> ingest_state" where
  \<comment> \<open>\<open>known\<close>: the tool names of the rows read before the loop\<close>
  "ingest_spec env known s sp =
     (if of_name sp \<in> set known
      then (case find (\<lambda>t. t_tool_name t = of_name sp) (is_rows s) of
          None \<Rightarrow> s
        | Some row \<Rightarrow> (case known_tool env sp row of (described, changed, row') \<Rightarrow>
            (let ch = is_changed s @ (if changed then [t_tool_key row] else [])
             in s\<lparr>is_rows := map (\<lambda>t. if t_tool_name t = of_name sp then row' else t) (is_rows s), is_changed := ch,
                  is_changed_ids := is_changed_ids s @ (if described \<or> t_tool_key row \<in> set ch then [t_id row] else [])\<rparr>)))
      else (let key = fresh_key env (is_keys s) sp
            in s\<lparr>is_rows := upsert_tool env sp key (is_rows s), is_keys := key # is_keys s\<rparr>))"

definition drop_tool :: "string list \<Rightarrow> string list \<Rightarrow> tool_row \<Rightarrow> tool_row" where
  \<comment> \<open>a row read before the loop that the server no longer offers\<close>
  "drop_tool known seen t =
     (if t_tool_name t \<in> set known \<and> t_tool_name t \<notin> set seen
      then (if t_status t = ''active'' then t\<lparr>t_status := ''inactive'', t_ingest_state := ''missing''\<rparr>
            else if t_ingest_state t = ''present'' then t\<lparr>t_ingest_state := []\<rparr> else t)
      else t)"

definition ingest :: "ingest_env \<Rightarrow> offered list \<Rightarrow> ingest_state \<Rightarrow> ingest_state" where
  "ingest env specs s =
     (let known = map t_tool_name (is_rows s);
          s1 = foldl (ingest_spec env known) (s\<lparr>is_changed := [], is_changed_ids := []\<rparr>) specs
      in s1\<lparr>is_rows := map (drop_tool known (map of_name specs)) (is_rows s1)\<rparr>)"

subsection \<open>The operator's word\<close>

definition operator_off :: "tool_row \<Rightarrow> bool" where
  \<comment> \<open>out of service for another reason than the server's absence\<close>
  "operator_off t \<longleftrightarrow> t_status t \<noteq> ''active'' \<and> (t_ingest_state t = ''missing'' \<longrightarrow> t_deleted_at t \<noteq> None)"

definition stays_off :: "string set \<Rightarrow> ingest_state \<Rightarrow> bool" where
  "stays_off names s \<longleftrightarrow> names \<subseteq> t_tool_name ` set (is_rows s)
     \<and> (\<forall>t \<in> set (is_rows s). t_tool_name t \<in> names \<longrightarrow> operator_off t)"

lemma described_row [simp]:
  "t_tool_name (snd (apply_description sha src d row)) = t_tool_name row"
  "operator_off (snd (apply_description sha src d row)) = operator_off row"
  by (simp_all add: apply_description_def Let_def operator_off_def)

lemma schema_row_name [simp]: "t_tool_name (snd (apply_schema fp policy now schema row)) = t_tool_name row"
  by (simp add: apply_schema_def Let_def)

lemma schema_row_off [intro]: "operator_off row \<Longrightarrow> operator_off (snd (apply_schema fp policy now schema row))"
  by (simp add: apply_schema_def Let_def operator_off_def quarantines_def QUARANTINED_def)

lemma known_tool_row: "snd (snd (known_tool env sp row)) =
     (let row2 = snd (apply_schema (ie_fp env) (ie_policy env) (ie_now env) (of_schema sp)
                       (snd (apply_description (ie_sha env) ''server'' (of_description sp) row)));
          row3 = (if t_ingest_state row2 = ''missing'' \<and> t_deleted_at row2 = None then row2\<lparr>t_status := ''active''\<rparr> else row2)
      in if t_ingest_state row3 \<noteq> QUARANTINED then row3\<lparr>t_ingest_state := ''present''\<rparr> else row3)"
  by (simp add: known_tool_def Let_def split_beta)

lemma known_tool_name: "t_tool_name (snd (snd (known_tool env sp row))) = t_tool_name row"
  by (simp add: known_tool_row Let_def)

lemma known_tool_off:
  assumes "operator_off row"
  shows "operator_off (snd (snd (known_tool env sp row)))"
proof -
  have "operator_off (snd (apply_schema (ie_fp env) (ie_policy env) (ie_now env) (of_schema sp)
                       (snd (apply_description (ie_sha env) ''server'' (of_description sp) row))))" (is "operator_off ?r")
    using assms by (intro schema_row_off) simp
  moreover have "operator_off r \<Longrightarrow> operator_off (let row3 = (if t_ingest_state r = ''missing'' \<and> t_deleted_at r = None
      then r\<lparr>t_status := ''active''\<rparr> else r) in if t_ingest_state row3 \<noteq> QUARANTINED then row3\<lparr>t_ingest_state := ''present''\<rparr> else row3)" for r
    by (simp add: operator_off_def Let_def QUARANTINED_def)
  ultimately show ?thesis unfolding known_tool_row Let_def by blast
qed

lemma drop_tool_off: "operator_off t \<Longrightarrow> operator_off (drop_tool known seen t)"
  by (auto simp: drop_tool_def operator_off_def)

lemma drop_tool_name [simp]: "t_tool_name (drop_tool known seen t) = t_tool_name t"
  by (simp add: drop_tool_def)

lemma upsert_names: "t_tool_name ` set rows \<subseteq> t_tool_name ` set (upsert_tool env sp key rows)"
proof -
  have "map t_tool_name (map (\<lambda>t. if t_tool_name t = n then t\<lparr>t_input_schema := a, t_ingest_state := b, t_schema_hash := c\<rparr> else t) rows)
      = map t_tool_name rows" for n a b c
    by simp
  then have "set (map t_tool_name (map (\<lambda>t. if t_tool_name t = n then t\<lparr>t_input_schema := a, t_ingest_state := b, t_schema_hash := c\<rparr> else t) rows))
      = set (map t_tool_name rows)" for n a b c
    by (rule arg_cong)
  then show ?thesis by (auto simp: upsert_tool_def simp del: map_map simp flip: set_map)
qed

lemma ingest_spec_off:
  assumes "stays_off names s"
  shows "stays_off names (ingest_spec env known s sp)"
proof (cases "of_name sp \<in> set known")
  case False
  have "t_tool_name ` set (is_rows s) \<subseteq> t_tool_name ` set (upsert_tool env sp key (is_rows s))" for key
    by (rule upsert_names)
  moreover have "operator_off t" if t: "t \<in> set (upsert_tool env sp key (is_rows s))" "t_tool_name t \<in> names" for t key
  proof (cases "of_name sp \<in> t_tool_name ` set (is_rows s)")
    case True
    with t obtain t0 where "t0 \<in> set (is_rows s)" "t_tool_name t0 = t_tool_name t" "operator_off t0"
      "t_status t = t_status t0" "t_ingest_state t = t_ingest_state t0 \<or> t_ingest_state t = ''present''"
      "t_deleted_at t = t_deleted_at t0"
      using assms by (auto simp: upsert_tool_def stays_off_def split: if_splits)
    then show ?thesis by (auto simp: operator_off_def)
  next
    case False
    with t assms show ?thesis by (auto simp: upsert_tool_def stays_off_def new_tool_def)
  qed
  ultimately show ?thesis
    using assms False by (fastforce simp: ingest_spec_def Let_def stays_off_def)
next
  case True
  show ?thesis
  proof (cases "find (\<lambda>t. t_tool_name t = of_name sp) (is_rows s)")
    case None
    with True assms show ?thesis by (simp add: ingest_spec_def)
  next
    case (Some row)
    then have row: "row \<in> set (is_rows s)" "t_tool_name row = of_name sp" by (auto dest!: find_Some_in)
    obtain b1 b2 row' where k: "known_tool env sp row = (b1, b2, row')" by (cases "known_tool env sp row")
    have n: "t_tool_name row' = of_name sp" using known_tool_name[of env sp row] row k by simp
    have off: "of_name sp \<in> names \<Longrightarrow> operator_off row'"
      using assms row known_tool_off[of row env sp] k by (auto simp: stays_off_def)
    have "map t_tool_name (map (\<lambda>t. if t_tool_name t = of_name sp then row' else t) (is_rows s)) = map t_tool_name (is_rows s)"
      using n by simp
    then have "t_tool_name ` set (map (\<lambda>t. if t_tool_name t = of_name sp then row' else t) (is_rows s)) = t_tool_name ` set (is_rows s)"
      by (metis list.set_map)
    then show ?thesis
      using assms off n by (auto simp: ingest_spec_def True Some k Let_def stays_off_def)
  qed
qed

lemma ingest_off:
  assumes "stays_off names s"
  shows "stays_off names (ingest env specs s)"
proof -
  have fold: "stays_off names s0 \<Longrightarrow> stays_off names (foldl (ingest_spec env known) s0 specs)" for s0 known
    by (induction specs arbitrary: s0) (auto intro: ingest_spec_off)
  have "stays_off names (s\<lparr>is_changed := [], is_changed_ids := []\<rparr>)"
    using assms by (simp add: stays_off_def)
  from fold[OF this, of "map t_tool_name (is_rows s)"]
  show ?thesis
    by (auto simp: ingest_def Let_def stays_off_def image_image drop_tool_off)
qed

interpretation off_duty: inv_system "\<lambda>s (env, specs). ingest env specs s" "stays_off names"
  by unfold_locales (auto intro: ingest_off)

text \<open>
  C26: Tools that are out of service by the operator's hand (disabled, deleted) or by the quarantine, not by
  the server's absence, stay out of service through any sequence of ingests, whatever the server
  offers, drops, brings back or changes, and whatever the policy at the time.
\<close>

theorem ingest_keeps_operator_word:
  assumes "\<forall>t \<in> set (is_rows s). t_tool_name t \<in> names \<longrightarrow> operator_off t" and "names \<subseteq> t_tool_name ` set (is_rows s)"
  shows "list_all (\<lambda>t. t_tool_name t \<in> names \<longrightarrow> t_status t \<noteq> ''active'')
     (is_rows (foldl (\<lambda>s (env, specs). ingest env specs s) s es))"
  using off_duty.run_inv[of names s es] assms by (auto simp: stays_off_def operator_off_def list_all_iff)

definition sample_server :: mcp_server where
  "sample_server = \<lparr>ms_id = ''s'', ms_name = ''srv'', ms_source = ''dynamic'', ms_transport = ''stdio'', ms_command = Some ''x'',
     ms_args = JList [], ms_url = None, ms_env = None, ms_headers = None, ms_config_hash = None, ms_status = ''active'',
     ms_last_error = None, ms_deleted = False\<rparr>"

definition sample_ingest :: "string \<Rightarrow> ingest_env" where
  "sample_ingest policy = \<lparr>ie_fp = (\<lambda>_. ''h1''), ie_sha = (\<lambda>x. x), ie_policy = policy, ie_now = 5, ie_server = sample_server,
     ie_ids = (\<lambda>_. ''new''), ie_suffix = (\<lambda>_. ''abcdef'')\<rparr>"

definition disabled_tools :: ingest_state where
  "disabled_tools = \<lparr>is_rows = [sample_tool\<lparr>t_status := ''inactive''\<rparr>], is_keys = [''mcp.fetch''], is_changed = [], is_changed_ids = []\<rparr>"

definition fetch_offer :: offered where
  "fetch_offer = \<lparr>of_name = ''fetch'', of_description = ''d'', of_schema = JDict []\<rparr>"

theorem ingest_keeps_operator_word_witness:
  "\<not> list_ex (\<lambda>t. t_tool_name t \<in> {''fetch''} \<and> t_status t = ''active'')
     (is_rows (foldl (\<lambda>s (env, specs). ingest env specs s) disabled_tools
        [(sample_ingest ''warn'', []), (sample_ingest ''quarantine'', [fetch_offer])]))"
  using ingest_keeps_operator_word[of disabled_tools "{''fetch''}"
      "[(sample_ingest ''warn'', []), (sample_ingest ''quarantine'', [fetch_offer])]"]
  by (simp add: disabled_tools_def sample_tool_def operator_off_def list_all_iff list_ex_iff)

section \<open>Connections, the reconnect budget and its circuit\<close>

text \<open>
  Breakers and retry tasks are objects: the manager maps a server to the index of its breaker, a task keeps
  the index it started with. A connection is its server and whether its session is up.
\<close>

record breaker =
  br_attempts :: nat
  br_open :: bool
  br_task :: "nat option"
  br_next :: "int option"

datatype retry_phase = Sleeping | Connecting | Ended

record retry_task =
  rt_server :: string
  rt_breaker :: nat
  rt_phase :: retry_phase

record mcp_manager =
  mm_conns :: "(string \<times> bool) list"
  mm_breakers :: "(string \<times> nat) list"
  mm_heap :: "breaker list"
  mm_tasks :: "retry_task list"
  mm_seen :: "string list"
  mm_rows :: "mcp_server list"

definition new_breaker :: breaker where
  "new_breaker = \<lparr>br_attempts = 0, br_open = False, br_task = None, br_next = None\<rparr>"

definition RECONNECT_BASE_S :: int where "RECONNECT_BASE_S = 5"

definition RECONNECT_CAP_S :: int where "RECONNECT_CAP_S = 300"

definition reconnect_policy :: "(json \<times> json) option \<Rightarrow> bool \<times> int" where
  \<comment> \<open>\<open>None\<close>: the settings cannot be read, or the number is none\<close>
  "reconnect_policy conf = (case conf of
       None \<Rightarrow> (True, 8)
     | Some (on, n) \<Rightarrow> (case (if truthy n then n else JInt 1) of
         JInt k \<Rightarrow> (truthy on, max k 1)
       | JBool b \<Rightarrow> (truthy on, 1)
       | _ \<Rightarrow> (True, 8)))"

definition on_breaker :: "nat \<Rightarrow> (breaker \<Rightarrow> breaker) \<Rightarrow> mcp_manager \<Rightarrow> mcp_manager" where
  "on_breaker r f m = m\<lparr>mm_heap := (mm_heap m)[r := f (mm_heap m ! r)]\<rparr>"

definition on_task :: "nat \<Rightarrow> retry_phase \<Rightarrow> mcp_manager \<Rightarrow> mcp_manager" where
  "on_task t p m = m\<lparr>mm_tasks := (mm_tasks m)[t := (mm_tasks m ! t)\<lparr>rt_phase := p\<rparr>]\<rparr>"

definition breaker_of :: "string \<Rightarrow> mcp_manager \<Rightarrow> nat \<times> mcp_manager" where
  "breaker_of sid m = (case map_of (mm_breakers m) sid of
       Some r \<Rightarrow> (r, m)
     | None \<Rightarrow> (length (mm_heap m), m\<lparr>mm_heap := mm_heap m @ [new_breaker],
                                      mm_breakers := (sid, length (mm_heap m)) # mm_breakers m\<rparr>))"

definition task_live :: "mcp_manager \<Rightarrow> breaker \<Rightarrow> bool" where
  "task_live m b = (case br_task b of None \<Rightarrow> False | Some t \<Rightarrow> rt_phase (mm_tasks m ! t) \<noteq> Ended)"

definition cancel_reconnect :: "nat \<Rightarrow> mcp_manager \<Rightarrow> nat option \<times> mcp_manager" where
  \<comment> \<open>with the task that is asked to stop\<close>
  "cancel_reconnect r m =
     ((if task_live m (mm_heap m ! r) then br_task (mm_heap m ! r) else None),
      on_breaker r (\<lambda>b. b\<lparr>br_task := None, br_next := None\<rparr>) m)"

definition teardown :: "string \<Rightarrow> mcp_manager \<Rightarrow> mcp_manager" where
  "teardown sid m = m\<lparr>mm_conns := dict_del (mm_conns m) sid\<rparr>"

definition record_status :: "string \<Rightarrow> string \<Rightarrow> string option \<Rightarrow> mcp_manager \<Rightarrow> mcp_manager" where
  "record_status sid st err m = m\<lparr>mm_rows := map (\<lambda>s. if ms_id s = sid
     then s\<lparr>ms_status := st, ms_last_error := err\<rparr> else s) (mm_rows m)\<rparr>"

definition wanted_rows :: "mcp_server list \<Rightarrow> string list" where
  "wanted_rows rows = map ms_id (filter (\<lambda>s. \<not> ms_deleted s) rows)"

abbreviation wanted :: "mcp_manager \<Rightarrow> string list" where
  "wanted m \<equiv> wanted_rows (mm_rows m)"

definition connect_begin :: "string \<Rightarrow> mcp_manager \<Rightarrow> bool \<times> mcp_manager" where
  \<comment> \<open>false: there is nothing to connect\<close>
  "connect_begin sid m =
     (let m1 = teardown sid m
      in if sid \<in> set (wanted m1) then (True, m1\<lparr>mm_conns := (sid, False) # mm_conns m1\<rparr>) else (False, m1))"

definition session_up :: "string \<Rightarrow> mcp_manager \<Rightarrow> mcp_manager" where
  "session_up sid m = m\<lparr>mm_conns := map (\<lambda>(k, up). (k, up \<or> k = sid)) (mm_conns m)\<rparr>"

definition connect_end :: "string option \<Rightarrow> string \<Rightarrow> mcp_manager \<Rightarrow> bool \<times> mcp_manager" where
  \<comment> \<open>\<open>failure\<close>: what went wrong with the connection, described; the ingest needs the session\<close>
  "connect_end failure sid m =
     (let err = (if failure = None \<and> map_of (mm_conns m) sid \<noteq> Some True
                 then Some (''RuntimeError: server '' @ sid @ '' is not connected'') else failure)
      in case err of
           None \<Rightarrow> (True, record_status sid ''active'' None m)
         | Some e \<Rightarrow> (False, record_status sid ''error'' (Some e) (teardown sid m)))"

definition connect_once :: "string option \<Rightarrow> string \<Rightarrow> mcp_manager \<Rightarrow> bool \<times> mcp_manager" where
  "connect_once failure sid m =
     (case connect_begin sid m of (going, m1) \<Rightarrow>
        if \<not> going then (True, m1) else connect_end failure sid (if failure = None then session_up sid m1 else m1))"

definition circuit_text :: "nat \<Rightarrow> string" where
  "circuit_text n = ''circuit open after '' @ nat_str n @ '' failed reconnect attempts (mcp_reconnect_max_attempts) -- reconnect manually''"

definition retry_done :: "nat \<Rightarrow> mcp_manager \<Rightarrow> mcp_manager" where
  \<comment> \<open>the \<open>finally\<close> of the loop\<close>
  "retry_done t m = on_task t Ended (on_breaker (rt_breaker (mm_tasks m ! t)) (\<lambda>b. b\<lparr>br_task := None, br_next := None\<rparr>) m)"

definition retry_delay :: "nat \<Rightarrow> int" where
  "retry_delay attempts = min (RECONNECT_BASE_S * 2 ^ (attempts - 1)) RECONNECT_CAP_S"

definition retry_top :: "bool \<times> int \<Rightarrow> int \<Rightarrow> nat \<Rightarrow> mcp_manager \<Rightarrow> mcp_manager" where
  "retry_top policy now t m =
     (if \<not> fst policy then retry_done t m
      else on_task t Sleeping (on_breaker (rt_breaker (mm_tasks m ! t)) (\<lambda>b.
        b\<lparr>br_attempts := br_attempts b + 1, br_next := Some (now + retry_delay (br_attempts b + 1))\<rparr>) m))"

definition retry_wake :: "nat \<Rightarrow> mcp_manager \<Rightarrow> bool \<times> mcp_manager" where
  \<comment> \<open>the sleep is over: the attempt begins\<close>
  "retry_wake t m = connect_begin (rt_server (mm_tasks m ! t))
     (on_task t Connecting (on_breaker (rt_breaker (mm_tasks m ! t)) (\<lambda>b. b\<lparr>br_next := None\<rparr>) m))"

definition retry_after :: "int \<Rightarrow> bool \<times> int \<Rightarrow> int \<Rightarrow> nat \<Rightarrow> bool \<times> mcp_manager \<Rightarrow> mcp_manager" where
  \<comment> \<open>what the loop does with the result of an attempt; \<open>max_attempts\<close> was read at the top of the round,
      \<open>policy\<close> is what the next round reads\<close>
  "retry_after max_attempts policy now t res = (case res of (ok, m) \<Rightarrow>
     (let r = rt_breaker (mm_tasks m ! t); sid = rt_server (mm_tasks m ! t)
      in if ok then retry_done t (on_breaker r (\<lambda>b. b\<lparr>br_attempts := 0\<rparr>) m)
         else if max_attempts \<le> int (br_attempts (mm_heap m ! r))
         then retry_done t (record_status sid ''error'' (Some (circuit_text (br_attempts (mm_heap m ! r))))
                (on_breaker r (\<lambda>b. b\<lparr>br_open := True\<rparr>) m))
         else retry_top policy now t m))"

definition retry_round :: "bool \<times> int \<Rightarrow> nat \<Rightarrow> mcp_manager \<Rightarrow> string option \<times> int \<Rightarrow> mcp_manager" where
  "retry_round policy t m attempt = (case attempt of (failure, now) \<Rightarrow>
     (case retry_wake t m of (going, m1) \<Rightarrow>
        retry_after (snd policy) policy now t (if \<not> going then (True, m1)
          else connect_end failure (rt_server (mm_tasks m ! t)) (if failure = None then session_up (rt_server (mm_tasks m ! t)) m1 else m1))))"

definition retry_cancelled :: "bool \<times> int \<Rightarrow> int \<Rightarrow> nat \<Rightarrow> mcp_manager \<Rightarrow> mcp_manager" where
  \<comment> \<open>the cancellation arrives: in the sleep it ends the loop; in an attempt it is caught as a failed attempt\<close>
  "retry_cancelled policy now t m = (case rt_phase (mm_tasks m ! t) of
       Ended \<Rightarrow> m
     | Sleeping \<Rightarrow> retry_done t m
     | Connecting \<Rightarrow> retry_after (snd policy) policy now t (connect_end (Some ''CancelledError'') (rt_server (mm_tasks m ! t)) m))"

definition schedule_reconnect :: "bool \<times> int \<Rightarrow> int \<Rightarrow> string \<Rightarrow> mcp_manager \<Rightarrow> mcp_manager" where
  "schedule_reconnect policy now sid m =
     (case breaker_of sid m of (r, m1) \<Rightarrow>
        (let b = mm_heap m1 ! r in
         if br_open b \<or> task_live m1 b \<or> \<not> fst policy then m1
         else (let t = length (mm_tasks m1);
                   m2 = m1\<lparr>mm_tasks := mm_tasks m1 @ [\<lparr>rt_server = sid, rt_breaker = r, rt_phase = Sleeping\<rparr>]\<rparr>
               in retry_top policy now t (on_breaker r (\<lambda>b. b\<lparr>br_task := Some t\<rparr>) m2))))"

definition connect_reset :: "string \<Rightarrow> mcp_manager \<Rightarrow> nat option \<times> mcp_manager" where
  \<comment> \<open>an explicit connect: the budget starts over; with the retry task that is asked to stop\<close>
  "connect_reset sid m =
     (case breaker_of sid m of (r, m1) \<Rightarrow>
      case cancel_reconnect r m1 of (stopped, m2) \<Rightarrow>
        (let m3 = on_breaker r (\<lambda>b. b\<lparr>br_attempts := 0, br_open := False\<rparr>) m2
         in (stopped, m3\<lparr>mm_seen := List.insert sid (mm_seen m3)\<rparr>)))"

definition connect_server :: "bool \<times> int \<Rightarrow> int \<Rightarrow> string option \<Rightarrow> string \<Rightarrow> mcp_manager \<Rightarrow> nat option \<times> mcp_manager" where
  "connect_server policy now failure sid m =
     (case connect_reset sid m of (stopped, m1) \<Rightarrow>
        (case connect_once failure sid m1 of (ok, m2) \<Rightarrow>
          (stopped, if ok then m2 else schedule_reconnect policy now sid m2)))"

definition disconnect_server :: "string \<Rightarrow> mcp_manager \<Rightarrow> nat option \<times> mcp_manager" where
  "disconnect_server sid m =
     (case map_of (mm_breakers m) sid of
        None \<Rightarrow> (None, teardown sid m)
      | Some r \<Rightarrow> (case cancel_reconnect r (m\<lparr>mm_breakers := dict_del (mm_breakers m) sid\<rparr>) of
          (stopped, m1) \<Rightarrow> (stopped, teardown sid m1)))"

definition reconnect_state :: "string \<Rightarrow> mcp_manager \<Rightarrow> nat \<times> bool \<times> bool \<times> int option" where
  "reconnect_state sid m =
     (let b = (case map_of (mm_breakers m) sid of None \<Rightarrow> new_breaker | Some r \<Rightarrow> mm_heap m ! r)
      in (br_attempts b, br_open b, task_live m b, br_next b))"

definition ping_server :: "bool \<times> int \<Rightarrow> int \<Rightarrow> (string \<Rightarrow> bool) \<Rightarrow> mcp_manager \<Rightarrow> string \<times> bool \<Rightarrow> mcp_manager" where
  "ping_server policy now pong m c = (case c of (sid, up) \<Rightarrow>
     (if up \<and> pong sid then m
      else schedule_reconnect policy now sid (record_status sid ''error'' (Some ''health ping failed'') (teardown sid m))))"

definition ping_all :: "bool \<times> int \<Rightarrow> int \<Rightarrow> (string \<Rightarrow> bool) \<Rightarrow> mcp_manager \<Rightarrow> mcp_manager" where
  "ping_all policy now pong m = foldl (ping_server policy now pong) m (mm_conns m)"

definition reconcile_drop :: "string list \<Rightarrow> mcp_manager \<Rightarrow> string \<times> bool \<Rightarrow> mcp_manager" where
  "reconcile_drop want m c =
     (if fst c \<in> set want then m
      else (let m1 = snd (disconnect_server (fst c) m) in m1\<lparr>mm_seen := removeAll (fst c) (mm_seen m1)\<rparr>))"

definition reconcile_add :: "bool \<times> int \<Rightarrow> int \<Rightarrow> (string \<Rightarrow> string option) \<Rightarrow> mcp_manager \<Rightarrow> string \<Rightarrow> mcp_manager" where
  "reconcile_add policy now fails m sid =
     (if sid \<in> fst ` set (mm_conns m) \<or> sid \<in> set (mm_seen m) then m
      else snd (connect_server policy now (fails sid) sid (m\<lparr>mm_seen := List.insert sid (mm_seen m)\<rparr>)))"

definition reconcile :: "bool \<times> int \<Rightarrow> int \<Rightarrow> (string \<Rightarrow> string option) \<Rightarrow> mcp_manager \<Rightarrow> mcp_manager" where
  "reconcile policy now fails m =
     foldl (reconcile_add policy now fails) (foldl (reconcile_drop (wanted m)) m (mm_conns m)) (wanted m)"

definition boot_hash :: "(json \<Rightarrow> string) \<Rightarrow> mcp_server \<Rightarrow> mcp_server" where
  "boot_hash fp s = (if ms_config_hash s = None \<and> \<not> ms_deleted s then s\<lparr>ms_config_hash := Some (config_fingerprint fp s)\<rparr> else s)"

definition start_manager :: "(json \<Rightarrow> string) \<Rightarrow> bool \<times> int \<Rightarrow> int \<Rightarrow> (string \<Rightarrow> string option) \<Rightarrow> mcp_manager \<Rightarrow> mcp_manager" where
  "start_manager fp policy now fails m =
     (let m1 = m\<lparr>mm_rows := map (boot_hash fp) (mm_rows m)\<rparr>;
          m2 = m1\<lparr>mm_seen := fold List.insert (wanted m1) (mm_seen m1)\<rparr>
      in foldl (\<lambda>m sid. snd (connect_server policy now (fails sid) sid m)) m2 (wanted m1))"

subsection \<open>The circuit\<close>

text \<open>A server that is being retried: its loop sleeps before attempt \<open>a\<close>.\<close>

definition retrying :: "string \<Rightarrow> nat \<Rightarrow> nat \<Rightarrow> nat \<Rightarrow> mcp_manager \<Rightarrow> bool" where
  "retrying sid r t a m \<longleftrightarrow> map_of (mm_breakers m) sid = Some r \<and> r < length (mm_heap m) \<and> t < length (mm_tasks m)
     \<and> mm_tasks m ! t = \<lparr>rt_server = sid, rt_breaker = r, rt_phase = Sleeping\<rparr>
     \<and> br_attempts (mm_heap m ! r) = a \<and> \<not> br_open (mm_heap m ! r) \<and> br_task (mm_heap m ! r) = Some t \<and> sid \<in> set (wanted m)"

definition given_up :: "string \<Rightarrow> nat \<Rightarrow> nat \<Rightarrow> nat \<Rightarrow> mcp_manager \<Rightarrow> bool" where
  "given_up sid r t a m \<longleftrightarrow> map_of (mm_breakers m) sid = Some r \<and> r < length (mm_heap m) \<and> t < length (mm_tasks m)
     \<and> rt_phase (mm_tasks m ! t) = Ended \<and> mm_heap m ! r = \<lparr>br_attempts = a, br_open = True, br_task = None, br_next = None\<rparr>
     \<and> (\<forall>s \<in> set (mm_rows m). ms_id s = sid \<longrightarrow> ms_status s = ''error'' \<and> ms_last_error s = Some (circuit_text a))"

lemma wanted_map [simp]:
  "wanted_rows (map (\<lambda>s. if ms_id s = sid then s\<lparr>ms_status := st, ms_last_error := err\<rparr> else s) rows) = wanted_rows rows"
  by (induction rows) (simp_all add: wanted_rows_def)

lemmas manager_steps = retry_round_def retry_wake_def retry_after_def retry_done_def retry_top_def connect_begin_def
  connect_end_def teardown_def on_task_def on_breaker_def record_status_def

lemma failed_round:
  assumes "retrying sid r t a m" and "int a < n"
  shows "retrying sid r t (a + 1) (retry_round (True, n) t m (Some e, now))"
    and "br_next (mm_heap (retry_round (True, n) t m (Some e, now)) ! r) = Some (now + retry_delay (a + 1))"
  using assms by (auto simp: retrying_def manager_steps Let_def)

lemma last_round:
  assumes "retrying sid r t a m" and "n \<le> int a"
  shows "given_up sid r t a (retry_round (True, n) t m (Some e, now))"
proof -
  have "sid \<in> set (wanted m)" and m: "map_of (mm_breakers m) sid = Some r" "r < length (mm_heap m)" "t < length (mm_tasks m)"
    "mm_tasks m ! t = \<lparr>rt_server = sid, rt_breaker = r, rt_phase = Sleeping\<rparr>" "br_attempts (mm_heap m ! r) = a"
    using assms(1) by (simp_all add: retrying_def)
  then show ?thesis
    using assms(2) by (simp add: given_up_def manager_steps Let_def del: if_image_distrib)
qed

lemma failing_rounds:
  assumes "retrying sid r t a m" and "int a + int (length es) \<le> n"
  shows "retrying sid r t (a + length es) (foldl (retry_round (True, n) t) m (map (\<lambda>(e, now). (Some e, now)) es))"
  using assms
proof (induction es arbitrary: m a)
  case (Cons x es)
  have "retrying sid r t (a + 1) (retry_round (True, n) t m (Some (fst x), snd x))"
    using Cons.prems by (intro failed_round) auto
  from Cons.IH[OF this] Cons.prems show ?case by (simp add: split_beta)
qed simp

definition sound_heap :: "mcp_manager \<Rightarrow> bool" where
  "sound_heap m \<longleftrightarrow> (\<forall>(s, r) \<in> set (mm_breakers m). r < length (mm_heap m))"

lemma failed_connect:
  assumes "sound_heap m" and "sid \<in> set (wanted m)"
  shows "retrying sid (fst (breaker_of sid m)) (length (mm_tasks m)) 1 (snd (connect_server (True, n) now (Some e) sid m))" (is ?A)
    and "br_next (mm_heap (snd (connect_server (True, n) now (Some e) sid m)) ! fst (breaker_of sid m)) = Some (now + retry_delay 1)" (is ?B)
proof -
  have "?A \<and> ?B"
  proof (cases "map_of (mm_breakers m) sid")
    case None
    with assms(2) show ?thesis
      by (simp add: connect_server_def connect_reset_def connect_once_def breaker_of_def cancel_reconnect_def schedule_reconnect_def
          task_live_def retrying_def manager_steps new_breaker_def Let_def nth_append)
  next
    case (Some r)
    with assms(1) have "r < length (mm_heap m)" by (auto simp: sound_heap_def dest: map_of_SomeD)
    with Some assms(2) show ?thesis
      by (simp add: connect_server_def connect_reset_def connect_once_def breaker_of_def cancel_reconnect_def schedule_reconnect_def
          task_live_def retrying_def manager_steps Let_def nth_append)
  qed
  then show ?A and ?B by auto
qed

text \<open>
  C27: A server whose every attempt fails after an explicit connect is retried exactly as often as the
  settings allow, with attempt \<open>a\<close> announced \<open>min (5 * 2 ^ (a - 1)) 300\<close> seconds ahead; then its circuit is
  open, its row says so, nothing is scheduled, and a later failure schedules nothing. \<open>es\<close>: the errors
  and times of the attempts.
\<close>

theorem retries_end_with_open_circuit:
  assumes "sound_heap m" and "sid \<in> set (wanted m)" and "k < length es"
  shows "case foldl (retry_round (True, int (length es)) (length (mm_tasks m)))
             (snd (connect_server (True, int (length es)) now (Some e) sid m)) (map (\<lambda>(e, now). (Some e, now)) es) of m' \<Rightarrow>
       reconnect_state sid m' = (length es, True, False, None) \<and> schedule_reconnect policy now' sid m' = m'
     \<and> list_all (\<lambda>s. ms_id s = sid \<longrightarrow> ms_status s = ''error'' \<and> ms_last_error s = Some (circuit_text (length es))) (mm_rows m')
     \<and> reconnect_state sid (foldl (retry_round (True, int (length es)) (length (mm_tasks m)))
             (snd (connect_server (True, int (length es)) now (Some e) sid m)) (map (\<lambda>(e, now). (Some e, now)) (take k es)))
       = (k + 1, False, True, Some ((now # map snd es) ! k + retry_delay (k + 1)))"
proof -
  let ?t = "length (mm_tasks m)" and ?n = "int (length es)" and ?r = "fst (breaker_of sid m)"
  let ?rounds = "\<lambda>es'. foldl (retry_round (True, ?n) ?t) (snd (connect_server (True, ?n) now (Some e) sid m)) (map (\<lambda>(e, now). (Some e, now)) es')"
  have run: "retrying sid ?r ?t (1 + length es') (?rounds es')" if "length es' < length es" for es'
    using failing_rounds[OF failed_connect(1)[OF assms(1,2), of ?n now e], of es' ?n] that by simp
  have ahead: "br_next (mm_heap (?rounds (take k es)) ! ?r) = Some ((now # map snd es) ! k + retry_delay (k + 1))"
  proof (cases k)
    case (Suc j)
    then have take: "take (Suc j) es = take j es @ [es ! j]" using assms(3) by (simp add: take_Suc_conv_app_nth)
    show ?thesis
      using failed_round(2)[OF run[of "take j es"], of ?n "fst (es ! j)" "snd (es ! j)"] Suc assms(3)
      by (simp add: take split_beta)
  qed (simp add: failed_connect(2)[OF assms(1,2)])
  have "es \<noteq> []" using assms(3) by auto
  then obtain es' x where es: "es = es' @ [x]" by (metis rev_exhaust)
  then have len: "length es = Suc (length es')" by simp
  have "?rounds es = retry_round (True, ?n) ?t (?rounds es') (Some (fst x), snd x)"
    using arg_cong[OF es, of ?rounds] by (simp add: split_beta)
  then have over: "given_up sid ?r ?t (length es) (?rounds es)"
    using last_round[OF run[of es'], of ?n "fst x" "snd x"] by (simp add: len)
  have early: "reconnect_state sid (?rounds (take k es)) = (k + 1, False, True, Some ((now # map snd es) ! k + retry_delay (k + 1)))"
    using run[of "take k es"] assms(3) ahead by (auto simp: retrying_def reconnect_state_def task_live_def Let_def)
  from over show ?thesis
    by (simp only: early) (simp add: given_up_def reconnect_state_def task_live_def schedule_reconnect_def breaker_of_def list_all_iff Let_def)
qed

definition fresh_manager :: mcp_manager where
  "fresh_manager = \<lparr>mm_conns = [], mm_breakers = [], mm_heap = [], mm_tasks = [], mm_seen = [], mm_rows = [sample_server]\<rparr>"

theorem retries_end_with_open_circuit_witness:
  "reconnect_state ''s'' (foldl (retry_round (True, 2) 0) (snd (connect_server (True, 2) 0 (Some ''e'') ''s'' fresh_manager))
     [(Some ''e'', 5), (Some ''e'', 15)]) = (2, True, False, None)"
  using retries_end_with_open_circuit[of fresh_manager "''s''" 0 "[(''e'', 5), (''e'', 15)]" 0 "''e''"]
  by (simp add: sound_heap_def fresh_manager_def wanted_rows_def sample_server_def)

text \<open>
  An explicit connect asks the retry loop of the server to stop. A loop that is in the middle of an
  attempt does not: the cancellation is caught as a failed attempt, the loop goes back to sleep
  with no handle left to stop it, and when it wakes it tears down the connection the explicit
  connect has made.
\<close>

theorem cancelled_retry_goes_on:
  assumes "map_of (mm_breakers m) sid = Some r" "r < length (mm_heap m)" "t < length (mm_tasks m)"
    and "mm_tasks m ! t = \<lparr>rt_server = sid, rt_breaker = r, rt_phase = Connecting\<rparr>" "br_task (mm_heap m ! r) = Some t"
    and "sid \<in> set (wanted m)" "0 < n"
  shows "case connect_reset sid m of (stopped, m1) \<Rightarrow> stopped = Some t \<and>
     (case connect_once None sid (retry_cancelled (True, n) now t m1) of (ok, m2) \<Rightarrow>
        ok \<and> map_of (mm_conns m2) sid = Some True \<and> rt_phase (mm_tasks m2 ! t) = Sleeping \<and> br_task (mm_heap m2 ! r) = None
        \<and> (case retry_wake t m2 of (going, m3) \<Rightarrow> going \<and> map_of (mm_conns m3) sid = Some False))"
proof -
  have reset: "connect_reset sid m = (Some t, m\<lparr>mm_heap := (mm_heap m)[r := \<lparr>br_attempts = 0, br_open = False, br_task = None, br_next = None\<rparr>],
      mm_seen := List.insert sid (mm_seen m)\<rparr>)" (is "_ = (_, ?m1)")
    using assms(1-5) by (cases "mm_heap m ! r") (simp add: connect_reset_def breaker_of_def cancel_reconnect_def task_live_def on_breaker_def Let_def)
  have loop: "retrying sid r t 1 (retry_cancelled (True, n) now t ?m1\<lparr>mm_heap := (mm_heap (retry_cancelled (True, n) now t ?m1))
      [r := (mm_heap (retry_cancelled (True, n) now t ?m1) ! r)\<lparr>br_task := Some t\<rparr>]\<rparr>)"
    and idle: "br_task (mm_heap (retry_cancelled (True, n) now t ?m1) ! r) = None"
    using assms by (simp_all add: retry_cancelled_def retrying_def manager_steps Let_def)
  have once: "connect_once None sid m' = (True, record_status sid ''active'' None (session_up sid (teardown sid m'\<lparr>mm_conns := (sid, False) # mm_conns (teardown sid m')\<rparr>)))"
    if "sid \<in> set (wanted m')" for m'
    using that by (simp add: connect_once_def connect_begin_def connect_end_def session_up_def teardown_def Let_def)
  show ?thesis
    using loop idle assms(6)
    by (simp add: reset retrying_def once record_status_def session_up_def retry_wake_def connect_begin_def teardown_def on_task_def on_breaker_def Let_def)
qed

definition busy_manager :: mcp_manager where
  "busy_manager = fresh_manager\<lparr>mm_breakers := [(''s'', 0)], mm_conns := [(''s'', False)],
     mm_heap := [\<lparr>br_attempts = 3, br_open = False, br_task = Some 0, br_next = None\<rparr>],
     mm_tasks := [\<lparr>rt_server = ''s'', rt_breaker = 0, rt_phase = Connecting\<rparr>]\<rparr>"

theorem cancelled_retry_goes_on_witness:
  "fst (connect_reset ''s'' busy_manager) = Some 0"
  using cancelled_retry_goes_on[of busy_manager "''s''" 0 0 8 0]
  by (simp add: busy_manager_def fresh_manager_def wanted_rows_def sample_server_def split_beta)

section \<open>The edit of a server\<close>

definition secrets_written :: "pydict option \<Rightarrow> pydict option \<Rightarrow> bool" where
  "secrets_written env headers =
     (let dict = (\<lambda>d. case d of None \<Rightarrow> [] | Some m \<Rightarrow> m)
      in list_ex (\<lambda>(k, v). v \<noteq> JStr MASK) (foldl (\<lambda>d (k, v). dict_set d k v) (dict env) (dict headers)))"

definition patch_secrets :: "pydict option option \<Rightarrow> pydict option option \<Rightarrow> mcp_server \<Rightarrow> mcp_server" where
  "patch_secrets env headers s =
     (let s1 = (case env of None \<Rightarrow> s | Some e \<Rightarrow> s\<lparr>ms_env := merge_secret_map (ms_env s) e\<rparr>)
      in case headers of None \<Rightarrow> s1 | Some h \<Rightarrow> s1\<lparr>ms_headers := merge_secret_map (ms_headers s1) h\<rparr>)"

definition patch_reconnects :: "(json \<Rightarrow> string) \<Rightarrow> pydict option option \<Rightarrow> pydict option option \<Rightarrow> mcp_server \<Rightarrow> bool \<times> mcp_server" where
  \<comment> \<open>the secrets of a patch and whether the edit reconnects the server; the other fields are set before
      the hash is taken\<close>
  "patch_reconnects fp env headers s =
     (let s1 = patch_secrets env headers s; h = config_fingerprint fp s1;
          body = (\<lambda>x. case x of None \<Rightarrow> None | Some d \<Rightarrow> d);
          edited = ms_config_hash s = None \<or> ms_config_hash s \<noteq> Some h
      in ((edited \<or> secrets_written (body env) (body headers)) \<and> ms_status s \<noteq> ''inactive'', s1\<lparr>ms_config_hash := Some h\<rparr>))"

lemma all_masked_set: "list_all (\<lambda>(k, v). v = x) d \<Longrightarrow> list_all (\<lambda>(k, v). v = x) (dict_set d k x)"
  by (induction d) auto

lemma all_masked_union:
  "list_all (\<lambda>(k, v). v = x) a \<Longrightarrow> list_all (\<lambda>(k, v). v = x) b \<Longrightarrow>
   list_all (\<lambda>(k, v). v = x) (foldl (\<lambda>d (k, v). dict_set d k v) a b)"
  by (induction b arbitrary: a) (auto intro: all_masked_set)

text \<open>Saving a form that was filled from a read leaves the server and its session alone.\<close>

lemma masked_patch_keeps_session:
  assumes "ms_config_hash s = Some (config_fingerprint fp s)"
  shows "patch_reconnects fp (Some (mask_map (ms_env s))) (Some (mask_map (ms_headers s))) s = (False, s)"
proof -
  have "merge_secret_map d (mask_map d) = d" for d
    by (auto simp: merge_secret_map_def mask_map_def split: option.splits)
  then have same: "patch_secrets (Some (mask_map (ms_env s))) (Some (mask_map (ms_headers s))) s = s"
    by (simp add: patch_secrets_def)
  have masked: "list_all (\<lambda>(k, v). v = JStr MASK) (case mask_map d of None \<Rightarrow> [] | Some m \<Rightarrow> m)" for d
    by (auto simp: mask_map_def list_all_iff split: option.splits)
  have "\<not> secrets_written (mask_map (ms_env s)) (mask_map (ms_headers s))"
    using all_masked_union[OF masked[of "ms_env s"] masked[of "ms_headers s"]]
    by (simp add: secrets_written_def list_all_iff list_ex_iff split_beta)
  then show ?thesis using assms by (simp add: patch_reconnects_def same Let_def)
qed

text \<open>A new value of \<open>TOKEN\<close> in the environment is not seen when a header of that name is masked.\<close>

lemma rotation_behind_mask:
  "\<not> secrets_written (Some [(''TOKEN'', JStr ''new'')]) (Some [(''TOKEN'', JStr MASK)])"
  by (simp add: secrets_written_def)

end
