(* ===== verification/A2a.thy ===== *)
theory A2a
  imports Mcp
begin

text \<open>
  Remote agents (\<open>backend/app/a2a/manager.py\<close>, \<open>a2a/auth.py\<close>, \<open>backend/app/api/remote_agents.py\<close>): the fetch
  of a card and what it does to the agent's row, the projection of the card's skills into the tools table,
  the start and the refresh tick, the operator's edit with its cascade to the tools, and the credentials a
  call carries. Fetches, fingerprints and fresh identifiers are arguments.
\<close>

section \<open>Cards\<close>

datatype scheme = Api_Key string string | Http_Auth string | OAuth2 bool | OpenId | Other_Scheme string
  \<comment> \<open>place and name of a key; the http scheme; whether a client-credentials flow is declared\<close>

record card_skill =
  cs_id :: string
  cs_name :: string
  cs_description :: string
  cs_tags :: "string list"

record card =
  cd_dump :: json
  cd_skills :: "card_skill list"
  cd_schemes :: "(string \<times> scheme) list"
  cd_security :: "string list list"          \<comment> \<open>the scheme names of each requirement\<close>

fun scheme_supported :: "scheme \<Rightarrow> bool" where
  "scheme_supported (Api_Key place nm) = True"
| "scheme_supported (Http_Auth s) = (py_lower s \<in> {''bearer'', ''basic''})"
| "scheme_supported (OAuth2 flow) = flow"
| "scheme_supported _ = False"

fun scheme_type :: "scheme \<Rightarrow> string" where
  "scheme_type (Api_Key place nm) = ''apiKey''"
| "scheme_type (Http_Auth s) = ''http''"
| "scheme_type (OAuth2 flow) = ''oauth2''"
| "scheme_type OpenId = ''openIdConnect''"
| "scheme_type (Other_Scheme t) = t"

definition project_auth_schemes :: "card \<Rightarrow> (string \<times> string \<times> bool) list" where
  "project_auth_schemes c = map (\<lambda>(n, s). (n, scheme_type s, scheme_supported s)) (cd_schemes c)"

definition auth_status :: "(string \<times> string \<times> bool) list \<Rightarrow> string list \<Rightarrow> string" where
  \<comment> \<open>of the projected schemes and the schemes with credentials\<close>
  "auth_status schemes configured =
     (if schemes = [] then ''open''
      else if list_ex (\<lambda>(n, t, sup). sup \<and> n \<in> set configured) schemes then ''ok''
      else if list_ex (\<lambda>(n, t, sup). sup) schemes then ''unconfigured'' else ''unsupported'')"

definition ends_json :: "string \<Rightarrow> bool" where
  "ends_json p = ends_with p ''.json''"

definition split_card_url :: "string \<Rightarrow> string \<Rightarrow> string \<times> string" where
  \<comment> \<open>of the origin and the path of a card URL: the base and the card path\<close>
  "split_card_url base path =
     (if ends_json path then (base, path)
      else (base @ rev (dropWhile (\<lambda>c. c = CHR ''/'') (rev path)), ''/.well-known/agent-card.json''))"

definition rstrip_colons :: "string \<Rightarrow> string" where
  "rstrip_colons s = rev (dropWhile (\<lambda>c. c = CHR '':'') (rev s))"

definition skill_description :: "card_skill \<Rightarrow> string" where
  "skill_description k =
     (let first = py_strip (rstrip_colons (py_strip (cs_name k @ '': '' @ cs_description k)));
          parts = first # (if cs_tags k \<noteq> [] then [''[tags: '' @ join '', '' (cs_tags k) @ '']''] else [])
      in join '' '' (filter (\<lambda>p. p \<noteq> []) parts))"

section \<open>Agents and their tools\<close>

record agent_row =
  ra_id :: string
  ra_name :: string
  ra_source :: string
  ra_card_url :: string
  ra_card :: "card option"
  ra_auth :: "(string \<times> string \<times> bool) list"
  ra_credentials :: pydict
  ra_status :: string
  ra_error :: "string option"
  ra_hash :: "string option"
  ra_version :: int
  ra_fetched :: "instant option"
  ra_deleted :: bool

record a2a_state =
  as_agents :: "agent_row list"
  as_tools :: "(string \<times> tool_row) list"       \<comment> \<open>each with its agent\<close>

record a2a_env =
  ae_fetch :: "string \<Rightarrow> string + card"         \<comment> \<open>the described failure, or the card\<close>
  ae_fingerprint :: "json \<Rightarrow> string"
  ae_fp :: "json \<Rightarrow> string"
  ae_sha :: "string \<Rightarrow> string"
  ae_now :: instant
  ae_id :: "string list \<Rightarrow> string"
  ae_suffix :: "string list \<Rightarrow> string"

definition AGENT_INACTIVE :: string where
  "AGENT_INACTIVE = ''agentoff''"

definition A2A_TOOL_INPUT_SCHEMA :: json where
  "A2A_TOOL_INPUT_SCHEMA = JDict [(''type'', JStr ''object''),
     (''properties'', JDict [
       (''message'', JDict [(''type'', JStr ''string''),
          (''description'', JStr ''The task or question to send to the remote agent, in plain language.'')]),
       (''data'', JDict [(''type'', JStr ''object''),
          (''description'', JStr ''Optional structured data to attach to the message.'')])]),
     (''required'', JList [JStr ''message''])]"

definition agent_of :: "string \<Rightarrow> a2a_state \<Rightarrow> agent_row option" where
  "agent_of aid s = find (\<lambda>a. ra_id a = aid) (as_agents s)"

definition on_agent :: "string \<Rightarrow> (agent_row \<Rightarrow> agent_row) \<Rightarrow> a2a_state \<Rightarrow> a2a_state" where
  "on_agent aid f s = s\<lparr>as_agents := map (\<lambda>a. if ra_id a = aid then f a else a) (as_agents s)\<rparr>"

definition on_tools :: "string \<Rightarrow> (tool_row \<Rightarrow> tool_row) \<Rightarrow> a2a_state \<Rightarrow> a2a_state" where
  "on_tools aid f s = s\<lparr>as_tools := map (\<lambda>(a, t). (a, if a = aid then f t else t)) (as_tools s)\<rparr>"

definition record_agent_status :: "string \<Rightarrow> string \<Rightarrow> string option \<Rightarrow> a2a_state \<Rightarrow> a2a_state" where
  "record_agent_status aid st err = on_agent aid (\<lambda>a. a\<lparr>ra_status := st, ra_error := err\<rparr>)"

definition take_card :: "a2a_env \<Rightarrow> bool \<Rightarrow> card \<Rightarrow> agent_row \<Rightarrow> agent_row" where
  \<comment> \<open>what a good fetch does to the row\<close>
  "take_card env activate c a =
     (let h = ae_fingerprint env (cd_dump c);
          a1 = (if ra_hash a \<noteq> None \<and> ra_hash a \<noteq> Some h then a\<lparr>ra_version := (if ra_version a = 0 then 1 else ra_version a) + 1\<rparr> else a)
      in a1\<lparr>ra_hash := Some h, ra_card := Some c, ra_fetched := Some (ae_now env), ra_auth := project_auth_schemes c,
            ra_status := (if ra_status a = ''error'' \<or> activate \<and> ra_status a = ''inactive'' then ''active'' else ra_status a),
            ra_error := None\<rparr>)"

definition known_skill :: "a2a_env \<Rightarrow> card_skill \<Rightarrow> tool_row \<Rightarrow> tool_row" where
  "known_skill env k row =
     (let row1 = snd (apply_description (ae_sha env) ''server'' (skill_description k) row);
          row2 = snd (apply_schema (ae_fp env) ''warn'' (ae_now env) A2A_TOOL_INPUT_SCHEMA row1);
          row3 = (if t_ingest_state row2 = ''missing'' \<and> t_deleted_at row2 = None then row2\<lparr>t_status := ''active''\<rparr> else row2)
      in if t_ingest_state row3 \<noteq> AGENT_INACTIVE then row3\<lparr>t_ingest_state := ''present''\<rparr> else row3)"

definition new_skill_tool :: "a2a_env \<Rightarrow> agent_row \<Rightarrow> card_skill \<Rightarrow> string list \<Rightarrow> string list \<Rightarrow> tool_row" where
  \<comment> \<open>\<open>keys\<close>: every tool key in use\<close>
  "new_skill_tool env a k ids keys =
     (let key0 = ra_name a @ ''.'' @ cs_name k;
          key = (if key0 \<in> set keys \<or> sanitize_tool_name key0 \<in> sanitize_tool_name ` set keys
                 then key0 @ ''-'' @ ae_suffix env keys else key0)
      in \<lparr>t_id = ae_id env ids, t_name = cs_name k, t_description = skill_description k, t_source = ra_source a,
          t_status = ''active'', t_kind = ''a2a'', t_tool_name = cs_id k, t_tool_key = key, t_exposed = False,
          t_ingest_state = ''present'', t_input_schema = A2A_TOOL_INPUT_SCHEMA,
          t_schema_hash = schema_fingerprint (ae_fp env) A2A_TOOL_INPUT_SCHEMA, t_schema_version = Some 1,
          t_schema_changed_at = None, t_description_hash = text_fingerprint (ae_sha env) (Some (skill_description k)),
          t_description_source = ''server'', t_deleted_at = None\<rparr>)"

definition ingest_skill :: "a2a_env \<Rightarrow> agent_row \<Rightarrow> string list \<Rightarrow> (string \<times> tool_row) list \<Rightarrow> card_skill \<Rightarrow> (string \<times> tool_row) list" where
  \<comment> \<open>\<open>known\<close>: the skill ids of the agent's rows before the loop\<close>
  "ingest_skill env a known tools k =
     (if cs_id k \<in> set known
      then map (\<lambda>(o', t). (o', if o' = ra_id a \<and> t_tool_name t = cs_id k then known_skill env k t else t)) tools
      else tools @ [(ra_id a, new_skill_tool env a k (map (tool_row.t_id \<circ> snd) tools) (map (t_tool_key \<circ> snd) tools))])"

definition ingest_card :: "a2a_env \<Rightarrow> string \<Rightarrow> card \<Rightarrow> a2a_state \<Rightarrow> a2a_state" where
  "ingest_card env aid c s = (case agent_of aid s of
       None \<Rightarrow> s
     | Some a \<Rightarrow>
         (let known = map (t_tool_name \<circ> snd) (filter (\<lambda>(o', t). o' = aid) (as_tools s));
              tools = foldl (ingest_skill env a known) (as_tools s) (cd_skills c)
          in on_tools aid (drop_tool known (map cs_id (cd_skills c))) (s\<lparr>as_tools := tools\<rparr>)))"

definition refresh_agent :: "a2a_env \<Rightarrow> bool \<Rightarrow> a2a_state \<Rightarrow> string \<Rightarrow> a2a_state" where
  "refresh_agent env activate s aid = (case agent_of aid s of
       None \<Rightarrow> s
     | Some a \<Rightarrow> if ra_deleted a then s
         else (case ae_fetch env (ra_card_url a) of
             Inl e \<Rightarrow> record_agent_status aid ''error'' (Some e) s
           | Inr c \<Rightarrow> ingest_card env aid c (on_agent aid (take_card env activate c) s)))"

definition start_agents :: "a2a_env \<Rightarrow> bool \<Rightarrow> a2a_state \<Rightarrow> a2a_state" where
  \<comment> \<open>at boot, when a2a is on: every agent that is not deleted\<close>
  "start_agents env on s = (if on then foldl (refresh_agent env False) s (map ra_id (filter (\<lambda>a. \<not> ra_deleted a) (as_agents s))) else s)"

definition refresh_tick :: "a2a_env \<Rightarrow> bool \<Rightarrow> a2a_state \<Rightarrow> a2a_state" where
  "refresh_tick env on s = (if on then foldl (refresh_agent env False) s
     (map ra_id (filter (\<lambda>a. \<not> ra_deleted a \<and> ra_status a \<noteq> ''inactive'') (as_agents s))) else s)"

datatype client_error = Not_Registered | Agent_Disabled

definition build_client :: "string \<Rightarrow> a2a_state \<Rightarrow> client_error + card" where
  "build_client aid s = (case agent_of aid s of
       None \<Rightarrow> Inl Not_Registered
     | Some a \<Rightarrow> if ra_deleted a then Inl Not_Registered
         else (case ra_card a of
             None \<Rightarrow> Inl Not_Registered
           | Some c \<Rightarrow> if ra_status a = ''inactive'' then Inl Agent_Disabled else Inr c))"

section \<open>The operator's edit\<close>

definition merge_credentials :: "pydict \<Rightarrow> pydict \<Rightarrow> pydict" where
  "merge_credentials old given = foldl (\<lambda>m (k, v). if v = JNull then dict_del m k else dict_set m k v) old given"

definition tool_off :: "tool_row \<Rightarrow> tool_row" where
  "tool_off t = (if t_deleted_at t = None \<and> t_status t = ''active'' then t\<lparr>t_status := ''inactive'', t_ingest_state := AGENT_INACTIVE\<rparr> else t)"

definition tool_on :: "tool_row \<Rightarrow> tool_row" where
  "tool_on t = (if t_deleted_at t = None \<and> t_ingest_state t = AGENT_INACTIVE then t\<lparr>t_status := ''active'', t_ingest_state := ''present''\<rparr> else t)"

record agent_patch =
  gp_name :: "string option"
  gp_status :: "string option"
  gp_credentials :: "pydict option"

datatype patch_error = A2a_Off | No_Agent | Static_Locked

definition set_fields :: "agent_patch \<Rightarrow> agent_row \<Rightarrow> agent_row" where
  "set_fields p a =
     (let a1 = (case gp_credentials p of None \<Rightarrow> a | Some g \<Rightarrow> a\<lparr>ra_credentials := merge_credentials (ra_credentials a) g\<rparr>);
          a2 = (case gp_name p of None \<Rightarrow> a1 | Some n \<Rightarrow> a1\<lparr>ra_name := n\<rparr>)
      in case gp_status p of None \<Rightarrow> a2 | Some st \<Rightarrow> a2\<lparr>ra_status := st\<rparr>)"

definition patch_agent :: "bool \<Rightarrow> string \<Rightarrow> agent_patch \<Rightarrow> a2a_state \<Rightarrow> patch_error + a2a_state" where
  "patch_agent on aid p s =
     (if \<not> on then Inl A2a_Off
      else (case agent_of aid s of
          None \<Rightarrow> Inl No_Agent
        | Some a \<Rightarrow>
            if ra_deleted a then Inl No_Agent
            else if ra_source a = ''static'' \<and> (gp_name p \<noteq> None \<or> gp_credentials p \<noteq> None) then Inl Static_Locked
            else (let a' = set_fields p a; s1 = on_agent aid (set_fields p) s
                  in Inr (if ra_status a = ''active'' \<and> ra_status a' \<noteq> ''active'' then on_tools aid tool_off s1
                          else if ra_status a \<noteq> ''active'' \<and> ra_status a' = ''active'' then on_tools aid tool_on s1 else s1))))"

definition delete_agent :: "bool \<Rightarrow> (string \<Rightarrow> bool) \<Rightarrow> instant \<Rightarrow> string \<Rightarrow> a2a_state \<Rightarrow> a2a_state option" where
  \<comment> \<open>\<open>bound\<close>: a tool id that a live skill uses; None is a refusal\<close>
  "delete_agent on bound now aid s =
     (if \<not> on then None
      else (case agent_of aid s of
          None \<Rightarrow> None
        | Some a \<Rightarrow> if ra_deleted a \<or> ra_source a = ''static'' \<or> list_ex (\<lambda>(o', t). o' = aid \<and> bound (tool_row.t_id t)) (as_tools s) then None
            else Some (on_tools aid (\<lambda>t. t\<lparr>t_deleted_at := Some now\<rparr>) (on_agent aid (\<lambda>a. a\<lparr>ra_deleted := True\<rparr>) s))))"

section \<open>Disabling and enabling\<close>

lemma tools_update [simp]: "as_tools (on_agent aid f s) = as_tools s" "as_agents (on_tools aid g s) = as_agents s"
  by (simp_all add: on_agent_def on_tools_def)

lemma agent_of_on_agent [simp]:
  "(\<And>a. ra_id (f a) = ra_id a) \<Longrightarrow> agent_of aid (on_agent aid f s) = map_option f (agent_of aid s)"
proof -
  assume f: "\<And>a. ra_id (f a) = ra_id a"
  have "find (\<lambda>x. ra_id x = aid) (map (\<lambda>x. if ra_id x = aid then f x else x) xs) = map_option f (find (\<lambda>x. ra_id x = aid) xs)" for xs
    by (induction xs) (auto simp: f)
  then show ?thesis by (simp add: agent_of_def on_agent_def)
qed

lemma agent_of_on_tools [simp]: "agent_of aid (on_tools b g s) = agent_of aid s"
  by (simp add: agent_of_def)

lemma set_fields_id [simp]: "ra_id (set_fields p a) = ra_id a"
  by (simp add: set_fields_def Let_def split: option.split)

definition service :: "tool_row \<Rightarrow> tool_row" where
  \<comment> \<open>a tool up to its ingest state\<close>
  "service t = t\<lparr>t_ingest_state := []\<rparr>"

lemma off_on: "t_ingest_state t \<noteq> AGENT_INACTIVE \<Longrightarrow> service (tool_on (tool_off t)) = service t"
  by (simp add: tool_off_def tool_on_def service_def)


lemma disable_in_error_leaves_tools:
  \<comment> \<open>an agent that is disabled while its card cannot be fetched keeps its tools in service\<close>
  assumes "agent_of aid s = Some a" and "\<not> ra_deleted a" and "ra_status a = ''error''"
  shows "\<exists>s1. patch_agent True aid \<lparr>gp_name = None, gp_status = Some ''inactive'', gp_credentials = None\<rparr> s = Inr s1
    \<and> as_tools s1 = as_tools s"
  using assms by (simp add: patch_agent_def set_fields_def)

definition sample_agent :: agent_row where
  "sample_agent = \<lparr>ra_id = ''a'', ra_name = ''helper'', ra_source = ''dynamic'', ra_card_url = ''https://h/x'', ra_card = None, ra_auth = [],
     ra_credentials = [], ra_status = ''active'', ra_error = None, ra_hash = None, ra_version = 1, ra_fetched = None, ra_deleted = False\<rparr>"

definition one_agent :: a2a_state where
  "one_agent = \<lparr>as_agents = [sample_agent], as_tools = [(''a'', sample_tool), (''b'', sample_tool)]\<rparr>"


subsection \<open>A disabled agent whose card cannot be fetched\<close>

definition kept_off :: "string list \<Rightarrow> (string \<times> tool_row) list \<Rightarrow> bool" where
  "kept_off names tools \<longleftrightarrow> (\<forall>p \<in> set tools. t_tool_name (snd p) \<in> set names \<longrightarrow> operator_off (snd p))"

lemma known_skill_off: "operator_off row \<Longrightarrow> operator_off (known_skill env k row)"
proof -
  assume "operator_off row"
  then have "operator_off (snd (apply_schema (ae_fp env) ''warn'' (ae_now env) A2A_TOOL_INPUT_SCHEMA
      (snd (apply_description (ae_sha env) ''server'' (skill_description k) row))))" (is "operator_off ?r")
    by (intro schema_row_off) simp
  then show ?thesis
    unfolding known_skill_def Let_def by (simp add: operator_off_def AGENT_INACTIVE_def)
qed

lemma known_skill_name [simp]: "t_tool_name (known_skill env k row) = t_tool_name row"
  by (simp add: known_skill_def Let_def)

lemma ingest_skills_off: "kept_off known tools \<Longrightarrow> kept_off known (foldl (ingest_skill env a known) tools ks)"
proof (induction ks arbitrary: tools)
  case (Cons k ks)
  have "kept_off known (ingest_skill env a known tools k)"
    using Cons.prems by (fastforce simp: kept_off_def ingest_skill_def new_skill_tool_def Let_def intro: known_skill_off)
  with Cons.IH show ?case by simp
qed simp

lemma drop_tools_off: "kept_off names tools \<Longrightarrow> kept_off names (map (\<lambda>(o', t). (o', if o' = aid then drop_tool known seen t else t)) tools)"
  by (fastforce simp: kept_off_def intro: drop_tool_off)

text \<open>
  C37: A failed fetch overwrites the operator's word. An agent the operator disabled is fetched at boot like
  every other; when that fails it is in error instead of inactive, so calls to it are no longer
  refused, and the next good fetch makes it active, while the tools that its disabling took out of
  service stay out.
\<close>

theorem boot_undoes_disable:
  assumes "as_agents s = [a]" and "\<not> ra_deleted a" and "ra_status a = ''inactive''" and "ra_card a = Some c0"
    and tools: "list_all (\<lambda>(o', t). o' = ra_id a \<and> operator_off t) (as_tools s)"
    and "ae_fetch env (ra_card_url a) = Inl e" and "ae_fetch env' (ra_card_url a) = Inr c"
    and s1: "s1 = start_agents env True s" and s2: "s2 = refresh_tick env' True s1"
  shows "build_client (ra_id a) s = Inl Agent_Disabled \<and> build_client (ra_id a) s1 = Inr c0
    \<and> map ra_status (as_agents s2) = [''active'']
    \<and> list_all (\<lambda>(o', t). t_tool_name t \<in> t_tool_name ` snd ` set (as_tools s) \<longrightarrow> t_status t \<noteq> ''active'') (as_tools s2)"
proof -
  have s1': "s1 = record_agent_status (ra_id a) ''error'' (Some e) s"
    using assms(1-3,6) by (simp add: s1 start_agents_def refresh_agent_def agent_of_def)
  have agents1: "as_agents s1 = [a\<lparr>ra_status := ''error'', ra_error := Some e\<rparr>]" and tools1: "as_tools s1 = as_tools s"
    using assms(1) by (simp_all add: s1' record_agent_status_def on_agent_def)
  have s2': "s2 = ingest_card env' (ra_id a) c (on_agent (ra_id a) (take_card env' False c) s1)"
    using assms(2,7) by (simp add: s2 refresh_tick_def refresh_agent_def agent_of_def agents1)
  obtain a2 where agents2: "as_agents (on_agent (ra_id a) (take_card env' False c) s1) = [a2]" and a2: "ra_id a2 = ra_id a" "ra_status a2 = ''active''"
    by (simp add: on_agent_def agents1 take_card_def Let_def)
  obtain known where known: "known = map (t_tool_name \<circ> snd) (filter (\<lambda>(o', t). o' = ra_id a) (as_tools s))" by blast
  have all: "filter (\<lambda>(o', t). o' = ra_id a) (as_tools s) = as_tools s"
    using tools by (auto simp: list_all_iff intro!: filter_True)
  have names: "set known = t_tool_name ` snd ` set (as_tools s)"
    by (simp add: known all image_image)
  have "kept_off known (as_tools s)" using tools by (auto simp: kept_off_def list_all_iff)
  then have off: "kept_off known (map (\<lambda>(o', t). (o', if o' = ra_id a then drop_tool known (map cs_id (cd_skills c)) t else t))
      (foldl (ingest_skill env' a2 known) (as_tools s) (cd_skills c)))"
    by (intro drop_tools_off ingest_skills_off)
  have found: "agent_of (ra_id a) (on_agent (ra_id a) (take_card env' False c) s1) = Some a2"
    by (simp add: agent_of_def agents2 a2)
  have "as_tools s2 = map (\<lambda>(o', t). (o', if o' = ra_id a then drop_tool known (map cs_id (cd_skills c)) t else t))
      (foldl (ingest_skill env' a2 known) (as_tools s) (cd_skills c))"
    unfolding s2' ingest_card_def found option.case Let_def by (simp add: on_tools_def tools1 known[symmetric])
  then have "kept_off known (as_tools s2)" using off by simp
  then have end_tools: "list_all (\<lambda>(o', t). t_tool_name t \<in> t_tool_name ` snd ` set (as_tools s) \<longrightarrow> t_status t \<noteq> ''active'') (as_tools s2)"
    unfolding kept_off_def names list_all_iff split_beta operator_off_def by blast
  have "as_agents s2 = [a2]"
    unfolding s2' ingest_card_def found option.case Let_def by (simp add: agents2)
  moreover have "build_client (ra_id a) s = Inl Agent_Disabled" "build_client (ra_id a) s1 = Inr c0"
    using assms(1-4) by (simp_all add: build_client_def agent_of_def agents1)
  ultimately show ?thesis using end_tools a2 by simp
qed

definition sample_card :: card where
  "sample_card = \<lparr>cd_dump = JDict [], cd_skills = [], cd_schemes = [], cd_security = []\<rparr>"

definition flaky :: "(string + card) \<Rightarrow> a2a_env" where
  "flaky answer = \<lparr>ae_fetch = (\<lambda>u. answer), ae_fingerprint = (\<lambda>j. ''h''), ae_fp = (\<lambda>j. ''h''), ae_sha = (\<lambda>x. x), ae_now = 5,
     ae_id = (\<lambda>ids. ''new''), ae_suffix = (\<lambda>keys. ''abcdef'')\<rparr>"

definition disabled_agent :: a2a_state where
  "disabled_agent = \<lparr>as_agents = [sample_agent\<lparr>ra_status := ''inactive'', ra_card := Some sample_card\<rparr>],
     as_tools = [(''a'', sample_tool\<lparr>t_status := ''inactive'', t_ingest_state := AGENT_INACTIVE\<rparr>)]\<rparr>"

theorem boot_undoes_disable_witness:
  "map ra_status (as_agents (refresh_tick (flaky (Inr sample_card)) True (start_agents (flaky (Inl ''timeout'')) True disabled_agent))) = [''active'']"
  using boot_undoes_disable[of disabled_agent "sample_agent\<lparr>ra_status := ''inactive'', ra_card := Some sample_card\<rparr>" sample_card
      "flaky (Inl ''timeout'')" "''timeout''" "flaky (Inr sample_card)" sample_card, OF _ _ _ _ _ _ _ refl refl]
  by (simp add: disabled_agent_def sample_agent_def flaky_def operator_off_def AGENT_INACTIVE_def)

section \<open>Credentials of a call\<close>

fun resolve_credential :: "(string \<Rightarrow> string) \<Rightarrow> json \<Rightarrow> json" where
  "resolve_credential getenv (JStr s) = (if starts_with s ''env:'' then JStr (getenv (drop 4 s)) else JStr s)"
| "resolve_credential getenv (JDict d) = JDict (map (\<lambda>p. (fst p, resolve_credential getenv (snd p))) d)"
| "resolve_credential getenv v = v"

type_synonym token_cache = "((string \<times> string) \<times> string \<times> real) list"
  \<comment> \<open>of an agent and a scheme: the token and when it expires on the monotonic clock\<close>

record auth_env =
  au_getenv :: "string \<Rightarrow> string"
  au_render :: "json \<Rightarrow> string"
  au_clock :: real
  au_fetch :: "string \<Rightarrow> string \<Rightarrow> string \<times> real"  \<comment> \<open>client id and secret: the access token, empty for none, and its lifetime\<close>
  au_b64 :: "string \<Rightarrow> string"

definition str_or_empty :: "(json \<Rightarrow> string) \<Rightarrow> json \<Rightarrow> string" where
  "str_or_empty render v = (if truthy v then py_str render v else [])"

definition oauth2_token :: "auth_env \<Rightarrow> string \<Rightarrow> string \<Rightarrow> bool \<Rightarrow> json \<Rightarrow> token_cache \<Rightarrow> string option \<times> token_cache" where
  \<comment> \<open>\<open>flow\<close>: the scheme declares client credentials\<close>
  "oauth2_token env agent scheme flow v cache =
     (let fresh =
        (case v of JDict d \<Rightarrow>
          (let cid = str_or_empty (au_render env) (dict_get d ''client_id''); sec = str_or_empty (au_render env) (dict_get d ''client_secret'')
           in if \<not> flow \<or> cid = [] \<or> sec = [] then (None, cache)
              else (case au_fetch env cid sec of (token, ttl) \<Rightarrow>
                if token = [] then (None, cache)
                else (Some token, dict_set cache (agent, scheme) (token, au_clock env + max (ttl - 60) 30))))
         | _ \<Rightarrow> (None, cache))
      in case map_of cache (agent, scheme) of
           Some (token, expires) \<Rightarrow> if au_clock env < expires then (Some token, cache) else fresh
         | None \<Rightarrow> fresh)"

definition get_credentials :: "auth_env \<Rightarrow> agent_row \<Rightarrow> card \<Rightarrow> token_cache \<Rightarrow> string \<Rightarrow> string option \<times> token_cache" where
  "get_credentials env a c cache nm = (case dict_get (ra_credentials a) nm of
       JNull \<Rightarrow> (None, cache)
     | raw \<Rightarrow> (let v = resolve_credential (au_getenv env) raw in
         (case map_of (cd_schemes c) nm of
            Some (OAuth2 flow) \<Rightarrow> oauth2_token env (ra_id a) nm flow v cache
          | _ \<Rightarrow> ((case v of JStr t \<Rightarrow> if t = [] then None else Some t | _ \<Rightarrow> None), cache))))"

record http_kwargs =
  hk_headers :: "(string \<times> string) list"
  hk_params :: "(string \<times> string) list"
  hk_cookies :: "(string \<times> string) list"

fun apply_scheme :: "auth_env \<Rightarrow> scheme \<Rightarrow> string \<Rightarrow> http_kwargs \<Rightarrow> http_kwargs option" where
  "apply_scheme env (Http_Auth s) cred h =
     (if py_lower s = ''bearer'' then Some (h\<lparr>hk_headers := dict_set (hk_headers h) ''Authorization'' (''Bearer '' @ cred)\<rparr>)
      else if py_lower s = ''basic'' then Some (h\<lparr>hk_headers := dict_set (hk_headers h) ''Authorization'' (''Basic '' @ au_b64 env cred)\<rparr>)
      else None)"
| "apply_scheme env (OAuth2 flow) cred h = Some (h\<lparr>hk_headers := dict_set (hk_headers h) ''Authorization'' (''Bearer '' @ cred)\<rparr>)"
| "apply_scheme env OpenId cred h = Some (h\<lparr>hk_headers := dict_set (hk_headers h) ''Authorization'' (''Bearer '' @ cred)\<rparr>)"
| "apply_scheme env (Api_Key place nm) cred h =
     (if place = ''header'' then Some (h\<lparr>hk_headers := dict_set (hk_headers h) nm cred\<rparr>)
      else if place = ''query'' then Some (h\<lparr>hk_params := dict_set (hk_params h) nm cred\<rparr>)
      else if place = ''cookie'' then Some (h\<lparr>hk_cookies := dict_set (hk_cookies h) nm cred\<rparr>) else None)"
| "apply_scheme env (Other_Scheme t) cred h = None"

fun try_schemes :: "auth_env \<Rightarrow> agent_row \<Rightarrow> card \<Rightarrow> string list \<Rightarrow> http_kwargs \<Rightarrow> token_cache \<Rightarrow> http_kwargs option \<times> token_cache" where
  "try_schemes env a c [] h cache = (None, cache)"
| "try_schemes env a c (nm # nms) h cache = (case map_of (cd_schemes c) nm of
       None \<Rightarrow> try_schemes env a c nms h cache
     | Some sc \<Rightarrow> (case get_credentials env a c cache nm of
         (None, cache') \<Rightarrow> try_schemes env a c nms h cache'
       | (Some cred, cache') \<Rightarrow> (case apply_scheme env sc cred h of
           Some h' \<Rightarrow> (Some h', cache') | None \<Rightarrow> try_schemes env a c nms h cache')))"

definition intercept :: "auth_env \<Rightarrow> agent_row \<Rightarrow> card \<Rightarrow> http_kwargs \<Rightarrow> token_cache \<Rightarrow> http_kwargs \<times> token_cache" where
  \<comment> \<open>requirement after requirement, scheme after scheme, until one is applied\<close>
  "intercept env a c h cache =
     (if cd_security c = [] \<or> cd_schemes c = [] then (h, cache)
      else (case try_schemes env a c (concat (cd_security c)) h cache of
          (Some h', cache') \<Rightarrow> (h', cache') | (None, cache') \<Rightarrow> (h, cache')))"

lemma cached_token_outlives_credentials:
  \<comment> \<open>a token is used until it expires, whatever the credentials have become\<close>
  assumes "map_of cache (ra_id a, nm) = Some (token, expires)" and "au_clock env < expires"
    and "map_of (cd_schemes c) nm = Some (OAuth2 flow)" and "dict_get (ra_credentials a) nm \<noteq> JNull"
  shows "get_credentials env a c cache nm = (Some token, cache)"
  using assms by (simp add: get_credentials_def oauth2_token_def Let_def split: json.split)

lemma requirement_half_applied:
  \<comment> \<open>a requirement that names two schemes is met with the first alone\<close>
  "fst (intercept env (sample_agent\<lparr>ra_credentials := [(''k'', JStr ''x''), (''b'', JStr ''y'')]\<rparr>)
     (sample_card\<lparr>cd_schemes := [(''k'', Api_Key ''header'' ''X-Key''), (''b'', Http_Auth ''bearer'')], cd_security := [[''k'', ''b'']]\<rparr>)
     \<lparr>hk_headers = [], hk_params = [], hk_cookies = []\<rparr> cache)
   = \<lparr>hk_headers = [(''X-Key'', ''x'')], hk_params = [], hk_cookies = []\<rparr>"
  by (simp add: intercept_def sample_card_def sample_agent_def get_credentials_def dict_get_def Let_def starts_with_def)

end
