(* ===== verification/A2a_Tasks.thy ===== *)
theory A2a_Tasks
  imports A2a Ambient_Delivery
begin

text \<open>
  Calls of remote agents (\<open>backend/app/a2a/proxy.py\<close>, \<open>client_port.py\<close>, \<open>tasks.py\<close>, \<open>poller.py\<close>): the
  a2a_tasks table, the draining of a send, the wait for a settle point under a budget, the question
  and answer loop of a human gate with its replays, parking, cancellation and the poller of parked
  tasks. What a remote agent does with a message is an argument; a budget is the number of polls that
  fit into it, or the stream of a send that does not end in time.
\<close>

section \<open>Outcomes\<close>

record remote_outcome =
  ro_state :: string
  ro_text :: string
  ro_task :: "string option"
  ro_context :: "string option"
  ro_question :: "string option"
  ro_error :: "string option"

definition TERMINAL_STATES :: "string list" where
  "TERMINAL_STATES = [''completed'', ''canceled'', ''failed'', ''rejected'']"

definition OPEN_STATES :: "string list" where
  "OPEN_STATES = [''submitted'', ''working'', ''input-required'', ''auth-required'', ''parked'']"

definition SETTLED_STATES :: "string list" where
  "SETTLED_STATES = TERMINAL_STATES @ [''input-required'', ''auth-required'']"

record remote_task =
  rt_state :: "string option"           \<comment> \<open>of its status, if it has one\<close>
  rt_status_text :: string
  rt_artifacts :: "string list"
  rt_id :: string
  rt_context :: "string option"

definition outcome_from_task :: "remote_task \<Rightarrow> remote_outcome" where
  "outcome_from_task t =
     (let st = (case rt_state t of None \<Rightarrow> ''unknown'' | Some x \<Rightarrow> x);
          txt = join [CHR 0x0A] (filter (\<lambda>x. x \<noteq> []) (rt_artifacts t))
      in \<lparr>ro_state = st, ro_text = (if txt \<noteq> [] then txt else if st = ''input-required'' then [] else rt_status_text t),
          ro_task = Some (rt_id t), ro_context = rt_context t,
          ro_question = (if st = ''input-required'' then Some (rt_status_text t) else None),
          ro_error = (if st \<in> {''failed'', ''rejected''} \<and> rt_status_text t \<noteq> [] then Some (rt_status_text t) else None)\<rparr>)"

datatype event = Reply_Message string "string option" "string option" | Task_Update remote_task

datatype stream_end = Stream_End | Broke string | Late

datatype got = Got remote_outcome | Failed_Call string | Out_Of_Time

definition plain_outcome :: "string \<Rightarrow> string \<Rightarrow> remote_outcome" where
  "plain_outcome st txt = \<lparr>ro_state = st, ro_text = txt, ro_task = None, ro_context = None, ro_question = None, ro_error = None\<rparr>"

fun drain :: "event list \<Rightarrow> stream_end \<Rightarrow> remote_outcome option \<Rightarrow> remote_outcome option \<Rightarrow> remote_outcome option \<times> got" where
  \<comment> \<open>with the last outcome and the first one, which the caller is told of\<close>
  "drain [] fin prev seen = (seen, case fin of
       Broke e \<Rightarrow> Failed_Call e
     | Late \<Rightarrow> Out_Of_Time
     | Stream_End \<Rightarrow> Got (case prev of Some r \<Rightarrow> r | None \<Rightarrow> (plain_outcome ''unknown'' [])\<lparr>ro_error := Some ''no response events''\<rparr>))"
| "drain (Reply_Message txt task ctx # es) fin prev seen =
     (seen, Got ((plain_outcome ''completed'' txt)\<lparr>ro_task := task, ro_context := ctx\<rparr>))"
| "drain (Task_Update t # es) fin prev seen =
     (let r = outcome_from_task t; seen' = (if seen = None then Some r else seen)
      in if ro_state r \<in> set SETTLED_STATES then (seen', Got r) else drain es fin (Some r) seen')"

section \<open>The tasks table\<close>

record a2a_task =
  at_id :: nat
  at_agent :: string
  at_run :: "string option"
  at_key :: string
  at_remote :: "string option"
  at_context :: "string option"
  at_state :: string
  at_question :: "string option"
  at_result :: "string option"
  at_error :: "string option"
  at_parked :: "instant option"
  at_delivered :: bool

definition find_open_task :: "string option \<Rightarrow> string \<Rightarrow> a2a_task list \<Rightarrow> a2a_task option" where
  \<comment> \<open>the newest; the table is in the order of creation\<close>
  "find_open_task run key tasks = (if run = None then None
     else find (\<lambda>t. at_run t = run \<and> at_key t = key \<and> at_state t \<in> set OPEN_STATES) (rev tasks))"

definition record_task :: "string \<Rightarrow> string option \<Rightarrow> string \<Rightarrow> remote_outcome \<Rightarrow> a2a_task list \<Rightarrow> a2a_task list" where
  "record_task agent run key r tasks = tasks @ [\<lparr>at_id = length tasks, at_agent = agent, at_run = run, at_key = key, at_remote = ro_task r,
     at_context = ro_context r, at_state = ro_state r, at_question = ro_question r, at_result = None, at_error = None, at_parked = None,
     at_delivered = False\<rparr>]"

record task_update =
  tu_state :: "string option"
  tu_question :: "string option"
  tu_result :: "string option"
  tu_error :: "string option"
  tu_parked :: bool
  tu_delivered :: "bool option"

definition no_update :: task_update where
  "no_update = \<lparr>tu_state = None, tu_question = None, tu_result = None, tu_error = None, tu_parked = False, tu_delivered = None\<rparr>"

definition update_task :: "(string \<Rightarrow> string) \<Rightarrow> instant \<Rightarrow> nat \<Rightarrow> task_update \<Rightarrow> a2a_task list \<Rightarrow> a2a_task list" where
  \<comment> \<open>the question is always written, the rest when given\<close>
  "update_task clean now i u tasks = map (\<lambda>t. if at_id t = i
     then t\<lparr>at_state := (if tu_parked u then ''parked'' else case tu_state u of None \<Rightarrow> at_state t | Some x \<Rightarrow> x),
            at_question := tu_question u,
            at_result := (case tu_result u of None \<Rightarrow> at_result t | Some x \<Rightarrow> Some x),
            at_error := (case tu_error u of None \<Rightarrow> at_error t | Some x \<Rightarrow> Some (clean x)),
            at_parked := (if tu_parked u then Some now else at_parked t),
            at_delivered := (case tu_delivered u of None \<Rightarrow> at_delivered t | Some x \<Rightarrow> x)\<rparr>
     else t) tasks"

definition parked_count :: "a2a_task list \<Rightarrow> nat" where
  "parked_count tasks = length (filter (\<lambda>t. at_state t = ''parked'' \<and> \<not> at_delivered t) tasks)"

section \<open>The call\<close>

datatype wire = Start string | Say string "string option" | Ask string | Cancel string

record 'r remote =
  rm_send :: "'r \<Rightarrow> string \<Rightarrow> string option \<Rightarrow> (event list \<times> stream_end) \<times> 'r"   \<comment> \<open>a text for a new or an open task\<close>
  rm_get :: "'r \<Rightarrow> string \<Rightarrow> (string + remote_task) \<times> 'r"
  rm_cancel :: "'r \<Rightarrow> string \<Rightarrow> 'r"

record 'r line =
  ln_remote :: 'r
  ln_tasks :: "a2a_task list"
  ln_wire :: "wire list"                \<comment> \<open>what has been sent, in order\<close>

record call_env =
  ce_enabled :: bool
  ce_agent :: "string option"
  ce_name :: "string option"           \<comment> \<open>of the agent, None where it is gone\<close>
  ce_tool_key :: string
  ce_message :: string
  ce_run :: "string option"
  ce_key :: string                     \<comment> \<open>the hash of the tool and its arguments\<close>
  ce_timeout :: int
  ce_polls :: nat
  ce_ambient :: bool
  ce_max_parked :: int
  ce_fence :: "string \<Rightarrow> string \<Rightarrow> string"     \<comment> \<open>a state and a text\<close>
  ce_render :: "json \<Rightarrow> string"
  ce_clean :: "string \<Rightarrow> string"
  ce_now :: instant

datatype call_end = Call_Returned string | Call_Raised string | Call_Interrupted string

definition on_tasks :: "(a2a_task list \<Rightarrow> a2a_task list) \<Rightarrow> 'r line \<Rightarrow> 'r line" where
  "on_tasks f w = w\<lparr>ln_tasks := f (ln_tasks w)\<rparr>"

definition note_task :: "call_env \<Rightarrow> nat option \<Rightarrow> task_update \<Rightarrow> 'r line \<Rightarrow> 'r line" where
  \<comment> \<open>where the call has a row\<close>
  "note_task env i u w = (case i of None \<Rightarrow> w | Some n \<Rightarrow> on_tasks (update_task (ce_clean env) (ce_now env) n u) w)"

definition get_outcome :: "'r remote \<Rightarrow> string \<Rightarrow> 'r line \<Rightarrow> got \<times> 'r line" where
  "get_outcome rm task w = (case rm_get rm (ln_remote w) task of (res, r') \<Rightarrow>
     ((case res of Inl e \<Rightarrow> Failed_Call e | Inr t \<Rightarrow> Got (outcome_from_task t)), w\<lparr>ln_remote := r', ln_wire := ln_wire w @ [Ask task]\<rparr>))"

definition settled :: "remote_outcome \<Rightarrow> bool" where
  "settled r \<longleftrightarrow> ro_state r \<in> set SETTLED_STATES \<or> ro_task r = None"

fun settle :: "'r remote \<Rightarrow> nat \<Rightarrow> remote_outcome \<Rightarrow> 'r line \<Rightarrow> got \<times> 'r line" where
  "settle rm 0 r w = (if settled r then Got r else Out_Of_Time, w)"
| "settle rm (Suc n) r w = (if settled r then (Got r, w)
     else (case get_outcome rm (the (ro_task r)) w of
         (Got r', w') \<Rightarrow> settle rm n r' w'
       | (g, w') \<Rightarrow> (g, w')))"

definition settle_got :: "'r remote \<Rightarrow> nat \<Rightarrow> got \<times> 'r line \<Rightarrow> got \<times> 'r line" where
  "settle_got rm n x = (case x of (Got r, w) \<Rightarrow> settle rm n r w | (g, w) \<Rightarrow> (g, w))"

definition first_send :: "call_env \<Rightarrow> 'r remote \<Rightarrow> string \<Rightarrow> 'r line \<Rightarrow> nat option \<times> got \<times> 'r line" where
  "first_send env rm agent w = (case rm_send rm (ln_remote w) (ce_message env) None of ((es, fin), r') \<Rightarrow>
     (case drain es fin None None of (seen, g) \<Rightarrow>
        (let w1 = w\<lparr>ln_remote := r', ln_wire := ln_wire w @ [Start (ce_message env)]\<rparr>
         in case seen of
              None \<Rightarrow> (None, settle_got rm (ce_polls env) (g, w1))
            | Some r \<Rightarrow> (Some (length (ln_tasks w1)),
                settle_got rm (ce_polls env) (g, on_tasks (record_task agent (ce_run env) (ce_key env) r) w1)))))"

definition first_outcome :: "call_env \<Rightarrow> 'r remote \<Rightarrow> string \<Rightarrow> 'r line \<Rightarrow> nat option \<times> got \<times> 'r line" where
  \<comment> \<open>adopt the open task of this call, or send\<close>
  "first_outcome env rm agent w = (case find_open_task (ce_run env) (ce_key env) (ln_tasks w) of
       None \<Rightarrow> first_send env rm agent w
     | Some t \<Rightarrow> (Some (at_id t),
         (case at_remote t of
            None \<Rightarrow> (Got ((plain_outcome (at_state t) [])\<lparr>ro_question := at_question t\<rparr>), w)
          | Some task \<Rightarrow> if task = [] then (Got ((plain_outcome (at_state t) [])\<lparr>ro_question := at_question t\<rparr>), w)
              else settle_got rm (ce_polls env) (get_outcome rm task w))))"

definition reply_of :: "call_env \<Rightarrow> pydict \<Rightarrow> string" where
  "reply_of env answer =
     (let r = dict_get (as_dict (dict_get answer ''answers'')) ''reply''; n = dict_get answer ''note''
      in py_str (ce_render env) (if truthy r then r else if truthy n then n else JStr ''approved -- proceed''))"

definition send_reply :: "call_env \<Rightarrow> 'r remote \<Rightarrow> pydict \<Rightarrow> remote_outcome \<Rightarrow> 'r line \<Rightarrow> got \<times> 'r line" where
  "send_reply env rm answer r w = (case rm_send rm (ln_remote w) (reply_of env answer) (ro_task r) of ((es, fin), r') \<Rightarrow>
     settle_got rm (ce_polls env) (snd (drain es fin None None),
       w\<lparr>ln_remote := r', ln_wire := ln_wire w @ [Say (reply_of env answer) (ro_task r)]\<rparr>))"

definition deny_call :: "call_env \<Rightarrow> 'r remote \<Rightarrow> nat option \<Rightarrow> pydict \<Rightarrow> remote_outcome \<Rightarrow> 'r line \<Rightarrow> call_end \<times> 'r line" where
  "deny_call env rm i answer r w =
     (let w1 = (case ro_task r of None \<Rightarrow> w | Some task \<Rightarrow> if task = [] then w
                  else w\<lparr>ln_remote := rm_cancel rm (ln_remote w) task, ln_wire := ln_wire w @ [Cancel task]\<rparr>);
          w2 = note_task env i (no_update\<lparr>tu_state := Some ''canceled'', tu_error := Some ''denied by human reviewer''\<rparr>) w1;
          n = dict_get answer ''note''; note = py_strip (if truthy n then py_str (ce_render env) n else [])
      in (Call_Raised (''remote agent task denied by human reviewer'' @ (if note \<noteq> [] then '': '' @ note else [])), w2))"

definition finish_call :: "call_env \<Rightarrow> nat option \<Rightarrow> remote_outcome \<Rightarrow> 'r line \<Rightarrow> call_end \<times> 'r line" where
  "finish_call env i r w =
     (if ro_state r = ''completed''
      then (Call_Returned (ce_fence env ''completed'' (ro_text r)),
            note_task env i (no_update\<lparr>tu_state := Some ''completed'', tu_result := Some (ro_text r)\<rparr>) w)
      else (let err = (case ro_error r of Some e \<Rightarrow> (if e \<noteq> [] then e else if ro_text r \<noteq> [] then ro_text r else ''task ended '' @ ro_state r)
                       | None \<Rightarrow> (if ro_text r \<noteq> [] then ro_text r else ''task ended '' @ ro_state r))
            in (Call_Raised (''remote agent task '' @ ro_state r @ '': '' @ ce_fence env (ro_state r) err),
                note_task env i (no_update\<lparr>tu_state := Some (ro_state r), tu_error := Some err\<rparr>) w)))"

definition expire_call :: "call_env \<Rightarrow> nat option \<Rightarrow> 'r line \<Rightarrow> call_end \<times> 'r line" where
  \<comment> \<open>the budget is spent: parked under ambient and below the cap, an error otherwise\<close>
  "expire_call env i w =
     (if ce_run env \<noteq> None \<and> i \<noteq> None \<and> ce_ambient env \<and> int (parked_count (ln_tasks w)) < ce_max_parked env
      then (Call_Returned (''The remote agent '' @ [CHR 0x27] @ the (ce_name env) @ [CHR 0x27] @ '' is still working after '' @ int_str (ce_timeout env)
              @ ''s. The task was parked; its result will be delivered ambiently when it finishes -- do not wait for it.''),
            note_task env i (no_update\<lparr>tu_parked := True\<rparr>) w)
      else (Call_Raised (''remote agent call timed out after '' @ int_str (ce_timeout env) @ ''s (a2a_task_timeout_s; parking needs ambient_enabled)''),
            note_task env i (no_update\<lparr>tu_state := Some ''unknown'', tu_error := Some (''timed out after '' @ int_str (ce_timeout env) @ ''s'')\<rparr>) w))"

definition gate_text :: "call_env \<Rightarrow> remote_outcome \<Rightarrow> string" where
  "gate_text env r =
     (let q = py_strip (case ro_question r of None \<Rightarrow> [] | Some x \<Rightarrow> x)
      in ''Remote agent '' @ [CHR 0x27] @ the (ce_name env) @ [CHR 0x27] @ '' asks (untrusted, its own words): ''
         @ (if q \<noteq> [] then q else ''(no question text)''))"

definition asked :: "remote_outcome \<Rightarrow> task_update" where
  "asked r = no_update\<lparr>tu_state := Some ''input-required'', tu_question := ro_question r\<rparr>"

fun gate_loop :: "call_env \<Rightarrow> 'r remote \<Rightarrow> nat option \<Rightarrow> json list \<Rightarrow> remote_outcome \<Rightarrow> 'r line \<Rightarrow> call_end \<times> 'r line" where
  \<comment> \<open>the answers a resumed run replays, in the order of the interrupts\<close>
  "gate_loop env rm i [] r w =
     (if ro_state r \<noteq> ''input-required'' then finish_call env i r w
      else (Call_Interrupted (gate_text env r), note_task env i (asked r) w))"
| "gate_loop env rm i (d # ds) r w =
     (if ro_state r \<noteq> ''input-required'' then finish_call env i r w
      else (let w1 = note_task env i (asked r) w; answer = as_dict d
            in if dict_get answer ''decision'' = JStr ''deny'' then deny_call env rm i answer r w1
               else (case send_reply env rm answer r w1 of
                   (Got r', w2) \<Rightarrow> gate_loop env rm i ds r' w2
                 | (Failed_Call e, w2) \<Rightarrow> (Call_Raised e, w2)
                 | (Out_Of_Time, w2) \<Rightarrow> expire_call env i w2)))"

definition proxy_call :: "call_env \<Rightarrow> 'r remote \<Rightarrow> json list \<Rightarrow> 'r line \<Rightarrow> call_end \<times> 'r line" where
  "proxy_call env rm ds w =
     (if \<not> ce_enabled env then (Call_Raised ''a2a is disabled (a2a_enabled=false)'', w)
      else (case ce_agent env of
          None \<Rightarrow> (Call_Raised (''tool '' @ ce_tool_key env @ '' has no remote agent''), w)
        | Some agent \<Rightarrow>
            if ce_message env = [] then (Call_Raised ''a2a tool requires a non-empty message'', w)
            else if ce_name env = None then (Call_Raised (''remote agent for '' @ ce_tool_key env @ '' is gone''), w)
            else (case first_outcome env rm agent w of (i, g, w1) \<Rightarrow>
              (case g of
                 Got r \<Rightarrow> gate_loop env rm i ds r w1
               | Failed_Call e \<Rightarrow> (Call_Raised e, w1)
               | Out_Of_Time \<Rightarrow> expire_call env i w1))))"

definition cancel_cleanup :: "call_env \<Rightarrow> 'r remote \<Rightarrow> nat \<Rightarrow> 'r line \<Rightarrow> 'r line" where
  \<comment> \<open>the run was stopped\<close>
  "cancel_cleanup env rm i w =
     (let w1 = (case find (\<lambda>t. at_id t = i) (ln_tasks w) of
          None \<Rightarrow> w
        | Some t \<Rightarrow> (case at_remote t of None \<Rightarrow> w | Some task \<Rightarrow> if task = [] then w
            else w\<lparr>ln_remote := rm_cancel rm (ln_remote w) task, ln_wire := ln_wire w @ [Cancel task]\<rparr>))
      in note_task env (Some i) (no_update\<lparr>tu_state := Some ''canceled'', tu_error := Some ''run cancelled''\<rparr>) w1)"

section \<open>The poller and the task drawer\<close>

record poll_env =
  pl_owners :: owners
  pl_name :: "string \<Rightarrow> string option"                      \<comment> \<open>of an agent that is not deleted\<close>
  pl_fence :: "string \<Rightarrow> string \<Rightarrow> string \<Rightarrow> string"       \<comment> \<open>a name, a state and a text\<close>
  pl_skey :: "nat \<Rightarrow> string"                              \<comment> \<open>\<open>a2a:\<close> and the id of the row\<close>
  pl_clean :: "string \<Rightarrow> string"
  pl_now :: instant

definition or_text :: "string option \<Rightarrow> string \<Rightarrow> string" where
  "or_text x d = (case x of None \<Rightarrow> d | Some t \<Rightarrow> if t \<noteq> [] then t else d)"

definition deliver_outcome :: "poll_env \<Rightarrow> nat \<Rightarrow> string \<Rightarrow> string option \<Rightarrow> remote_outcome \<Rightarrow> outbox \<times> 'r line \<Rightarrow> outbox \<times> 'r line" where
  "deliver_outcome env i name run r st =
     (let failed = ro_state r \<noteq> ''completed'';
          body = pl_fence env name (ro_state r) (if ro_text r \<noteq> [] then ro_text r else or_text (ro_error r) (''task ended '' @ ro_state r));
          rq = \<lparr>dq_category = ''a2a'', dq_tier = (if failed then 1 else 2), dq_urgency = (if failed then 4 else 2),
                dq_title = ''['' @ name @ ''] remote task '' @ ro_state r, dq_body = Some body, dq_run = run, dq_intent = None,
                dq_skey = Some (pl_skey env i), dq_deadline = None, dq_user = None\<rparr>
      in (add_delivery (pl_owners env) (pl_now env) rq (fst st),
          on_tasks (update_task (pl_clean env) (pl_now env) i (no_update\<lparr>tu_state := Some (ro_state r),
            tu_result := (if ro_text r = [] then None else Some (ro_text r)), tu_error := ro_error r, tu_delivered := Some True\<rparr>)) (snd st)))"

definition ask_operator :: "poll_env \<Rightarrow> nat \<Rightarrow> string \<Rightarrow> string option \<Rightarrow> remote_outcome \<Rightarrow> outbox \<times> 'r line \<Rightarrow> outbox \<times> 'r line" where
  "ask_operator env i name run r st =
     (let body = pl_fence env name ''input-required'' (or_text (ro_question r) ''(no question text)'')
                 @ [CHR 0x0A, CHR 0x0A] @ ''Reply from the Remote Agents page (task drawer) to continue it.'';
          rq = \<lparr>dq_category = ''a2a'', dq_tier = 1, dq_urgency = 4, dq_title = ''['' @ name @ ''] remote task needs your input'',
                dq_body = Some body, dq_run = run, dq_intent = None, dq_skey = Some (pl_skey env i), dq_deadline = None, dq_user = None\<rparr>
      in (add_delivery (pl_owners env) (pl_now env) rq (fst st),
          on_tasks (update_task (pl_clean env) (pl_now env) i (asked r)) (snd st)))"

definition poll_row :: "poll_env \<Rightarrow> 'r remote \<Rightarrow> nat \<times> outbox \<times> 'r line \<Rightarrow> a2a_task \<Rightarrow> nat \<times> outbox \<times> 'r line" where
  "poll_row env rm x t = (case x of (n, ob, w) \<Rightarrow>
     (let i = at_id t; upd = (\<lambda>u. on_tasks (update_task (pl_clean env) (pl_now env) i u)) in
      (case at_remote t of
         None \<Rightarrow> (n, ob, upd (no_update\<lparr>tu_state := Some ''unknown'', tu_error := Some ''parked without a remote task id'', tu_delivered := Some True\<rparr>) w)
       | Some task \<Rightarrow> (case pl_name env (at_agent t) of
           None \<Rightarrow> (n, ob, upd (no_update\<lparr>tu_state := Some ''canceled'', tu_error := Some ''remote agent was deleted'', tu_delivered := Some True\<rparr>) w)
         | Some name \<Rightarrow> (case get_outcome rm task w of
             (Got r, w1) \<Rightarrow>
               (if ro_state r \<in> set TERMINAL_STATES then (n + 1, deliver_outcome env i name (at_run t) r (ob, w1))
                else if ro_state r = ''input-required'' then (n + 1, ask_operator env i name (at_run t) r (ob, w1))
                else (n, ob, upd (no_update\<lparr>tu_parked := True, tu_question := ro_question r\<rparr>) w1))
           | (Failed_Call e, w1) \<Rightarrow> (n, ob, upd (no_update\<lparr>tu_parked := True, tu_error := Some (''recheck failed: '' @ e)\<rparr>) w1)
           | (Out_Of_Time, w1) \<Rightarrow> (n, ob, w1))))))"

definition parked_tasks :: "a2a_task list \<Rightarrow> a2a_task list" where
  "parked_tasks tasks = take 50 (sort_key (\<lambda>t. case at_parked t of None \<Rightarrow> 0 | Some x \<Rightarrow> x)
     (filter (\<lambda>t. at_state t = ''parked'' \<and> \<not> at_delivered t) tasks))"

definition poll_parked_tasks :: "poll_env \<Rightarrow> bool \<Rightarrow> int \<Rightarrow> real \<Rightarrow> real option \<Rightarrow> 'r remote \<Rightarrow> outbox \<times> 'r line
    \<Rightarrow> real option \<times> nat \<times> outbox \<times> 'r line" where
  \<comment> \<open>\<open>every\<close>: the poll interval; \<open>mark\<close>: the monotonic time of the last pass\<close>
  "poll_parked_tasks env on every clock mark rm st =
     (if \<not> on then (mark, 0, st)
      else if (case mark of None \<Rightarrow> False | Some t \<Rightarrow> clock - t < real_of_int (max every 1)) then (mark, 0, st)
      else (Some clock, foldl (poll_row env rm) (0, st) (parked_tasks (ln_tasks (snd st)))))"

datatype drawer_error = A2a_Disabled | No_Task | Wrong_State | Empty_Reply | Reply_Failed string

definition reply_task :: "poll_env \<Rightarrow> bool \<Rightarrow> 'r remote \<Rightarrow> nat \<Rightarrow> string \<Rightarrow> nat \<Rightarrow> string \<Rightarrow> outbox \<times> 'r line
    \<Rightarrow> drawer_error + outbox \<times> 'r line" where
  "reply_task env on rm polls agent i txt st =
     (if \<not> on then Inl A2a_Disabled
      else (case find (\<lambda>t. at_id t = i \<and> at_agent t = agent) (ln_tasks (snd st)) of
          None \<Rightarrow> Inl No_Task
        | Some t \<Rightarrow>
            if at_state t \<noteq> ''input-required'' \<or> at_remote t = None \<or> at_remote t = Some [] then Inl Wrong_State
            else if py_strip txt = [] then Inl Empty_Reply
            else (case rm_send rm (ln_remote (snd st)) (py_strip txt) (at_remote t) of ((es, fin), r') \<Rightarrow>
              (let w1 = (snd st)\<lparr>ln_remote := r', ln_wire := ln_wire (snd st) @ [Say (py_strip txt) (at_remote t)]\<rparr>;
                   park = on_tasks (update_task (pl_clean env) (pl_now env) i (no_update\<lparr>tu_parked := True\<rparr>)) w1
               in (case snd (drain es fin None None) of
                     Failed_Call e \<Rightarrow> Inl (Reply_Failed e)
                   | Out_Of_Time \<Rightarrow> Inr (fst st, park)
                   | Got r \<Rightarrow> Inr (if ro_state r \<in> set TERMINAL_STATES
                        then deliver_outcome env i (case pl_name env agent of None \<Rightarrow> [] | Some n \<Rightarrow> n) (at_run t) r (fst st, w1)
                        else if ro_state r = ''input-required''
                        then (fst st, on_tasks (update_task (pl_clean env) (pl_now env) i (asked r)) w1)
                        else (fst st, park)))))))"

section \<open>One remote task for a call\<close>

definition starts :: "'r line \<Rightarrow> nat" where
  "starts w = length (filter (\<lambda>x. case x of Start t \<Rightarrow> True | _ \<Rightarrow> False) (ln_wire w))"

lemma note_task_wire [simp]: "starts (note_task env i u w) = starts w" "ln_wire (note_task env i u w) = ln_wire w"
  by (simp_all add: note_task_def on_tasks_def starts_def split: option.split)

lemma get_outcome_starts [simp]: "starts (snd (get_outcome rm task w)) = starts w"
  by (simp add: get_outcome_def starts_def split_beta)

lemma settle_starts [simp]: "starts (snd (settle rm n r w)) = starts w"
proof (induction n arbitrary: r w)
  case (Suc n)
  obtain g w' where g: "get_outcome rm (the (ro_task r)) w = (g, w')" by fastforce
  then have "starts w' = starts w" using get_outcome_starts[of rm "the (ro_task r)" w] by simp
  with Suc g show ?case by (cases g) auto
qed simp

lemma settle_got_starts [simp]: "starts (snd (settle_got rm n x)) = starts (snd x)"
  by (cases x; cases "fst x") (auto simp: settle_got_def)

lemma send_reply_starts: "starts (snd (send_reply env rm answer r w)) = starts w"
  by (simp add: send_reply_def split_beta) (simp add: starts_def)

lemma finish_starts [simp]: "starts (snd (finish_call env i r w)) = starts w" "starts (snd (expire_call env i w)) = starts w"
  "starts (snd (deny_call env rm i answer r w)) = starts w"
  by (simp_all add: finish_call_def expire_call_def deny_call_def Let_def split: option.split) (simp add: starts_def)

lemma gate_loop_starts [simp]: "starts (snd (gate_loop env rm i ds r w)) = starts w"
proof (induction ds arbitrary: r w)
  case (Cons d ds)
  obtain g w2 where g: "send_reply env rm (as_dict d) r (note_task env i (asked r) w) = (g, w2)" by fastforce
  then have "starts w2 = starts w" using send_reply_starts[of env rm "as_dict d" r "note_task env i (asked r) w"] by simp
  with Cons g show ?case by (cases g) (auto simp: Let_def)
qed simp

subsection \<open>The row of the call\<close>

definition has_row :: "nat \<Rightarrow> string option \<Rightarrow> string \<Rightarrow> 'r line \<Rightarrow> bool" where
  "has_row n run key w \<longleftrightarrow> (\<exists>t \<in> set (ln_tasks w). at_id t = n \<and> at_run t = run \<and> at_key t = key)"

definition adopted :: "string option \<Rightarrow> string \<Rightarrow> 'r line \<Rightarrow> bool" where
  "adopted run key w \<longleftrightarrow> find_open_task run key (ln_tasks w) \<noteq> None"

lemma adopted_iff: "adopted run key w \<longleftrightarrow> run \<noteq> None \<and> (\<exists>t \<in> set (ln_tasks w). at_run t = run \<and> at_key t = key \<and> at_state t \<in> set OPEN_STATES)"
  unfolding adopted_def find_open_task_def by (simp add: find_None_iff del: not_None_eq) blast

lemma has_row_note [simp, intro]: "has_row n run key w \<Longrightarrow> has_row n run key (note_task env i u w)"
proof -
  assume "has_row n run key w"
  then obtain t where t: "t \<in> set (ln_tasks w)" "at_id t = n" "at_run t = run" "at_key t = key" by (auto simp: has_row_def)
  have "\<exists>g. update_task (ce_clean env) (ce_now env) k u = map g \<and> (\<forall>t. at_id (g t) = at_id t \<and> at_run (g t) = at_run t \<and> at_key (g t) = at_key t)" for k
    unfolding update_task_def by (rule exI, rule conjI, rule ext, rule refl) simp
  then obtain g where g: "update_task (ce_clean env) (ce_now env) (the i) u = map g"
    "\<And>t. at_id (g t) = at_id t \<and> at_run (g t) = at_run t \<and> at_key (g t) = at_key t" by blast
  show ?thesis
  proof (cases i)
    case (Some k)
    then have "g t \<in> set (ln_tasks (note_task env i u w))"
      using g(1) t(1) by (simp add: note_task_def on_tasks_def)
    with g(2) t(2-4) show ?thesis unfolding has_row_def by metis
  qed (use t in \<open>auto simp: has_row_def note_task_def\<close>)
qed

lemma get_outcome_tasks [simp]: "ln_tasks (snd (get_outcome rm task w)) = ln_tasks w"
  by (simp add: get_outcome_def split_beta)

lemma settle_tasks [simp]: "ln_tasks (snd (settle rm n r w)) = ln_tasks w"
proof (induction n arbitrary: r w)
  case (Suc n)
  obtain g w' where g: "get_outcome rm (the (ro_task r)) w = (g, w')" by fastforce
  then have "ln_tasks w' = ln_tasks w" using get_outcome_tasks[of rm "the (ro_task r)" w] by simp
  with Suc g show ?case by (cases g) auto
qed simp

lemma settle_got_tasks [simp]: "ln_tasks (snd (settle_got rm n x)) = ln_tasks (snd x)"
  by (cases x; cases "fst x") (auto simp: settle_got_def)

lemma send_reply_tasks: "ln_tasks (snd (send_reply env rm answer r w)) = ln_tasks w"
  by (simp add: send_reply_def split_beta)

lemma not_interrupted [simp]:
  "finish_call env i r w \<noteq> (Call_Interrupted q, w')" "expire_call env i w \<noteq> (Call_Interrupted q, w')"
  "deny_call env rm i answer r w \<noteq> (Call_Interrupted q, w')"
  by (simp_all add: finish_call_def expire_call_def deny_call_def Let_def)

lemma asked_adopted: "has_row n run key w \<Longrightarrow> run \<noteq> None \<Longrightarrow> adopted run key (note_task env (Some n) (asked r) w)"
proof -
  assume "has_row n run key w" and run: "run \<noteq> None"
  then obtain t where t: "t \<in> set (ln_tasks w)" "at_id t = n" "at_run t = run" "at_key t = key" by (auto simp: has_row_def)
  obtain f :: "a2a_task \<Rightarrow> a2a_task" where f: "f = (\<lambda>t. if at_id t = n
     then t\<lparr>at_state := ''input-required'', at_question := ro_question r\<rparr> else t)" by blast
  have "ln_tasks (note_task env (Some n) (asked r) w) = map f (ln_tasks w)"
    by (auto simp: note_task_def on_tasks_def update_task_def asked_def no_update_def f)
  moreover have "f t \<in> set (map f (ln_tasks w))" using t(1) by simp
  moreover have "at_run (f t) = run" "at_key (f t) = key" "at_state (f t) \<in> set OPEN_STATES"
    using t by (simp_all add: f OPEN_STATES_def)
  ultimately show ?thesis using run unfolding adopted_iff by metis
qed

lemma gate_loop_adopted:
  assumes "has_row n run key w" and "run \<noteq> None" and "gate_loop env rm (Some n) ds r w = (Call_Interrupted q, w')"
  shows "adopted run key w'"
  using assms
proof (induction ds arbitrary: r w)
  case Nil
  then show ?case
    using asked_adopted[of n run key w env r] by (auto split: if_splits)
next
  case (Cons d ds)
  have input: "ro_state r = ''input-required''" "dict_get (as_dict d) ''decision'' \<noteq> JStr ''deny''"
    using Cons.prems(3) by (auto simp: Let_def split: if_splits)
  obtain g w2 where g: "send_reply env rm (as_dict d) r (note_task env (Some n) (asked r) w) = (g, w2)" by fastforce
  have row: "has_row n run key w2"
    using has_row_note[OF Cons.prems(1), of env "Some n" "asked r"] send_reply_tasks[of env rm "as_dict d" r "note_task env (Some n) (asked r) w"] g
    by (simp add: has_row_def)
  show ?case
    using Cons.prems(2,3) input g Cons.IH[OF row Cons.prems(2)]
    by (cases g) (auto simp: Let_def)
qed

lemma drain_seen [simp]: "fst (drain es fin prev (Some r)) = Some r"
  by (induction es fin prev "Some r" rule: drain.induct) (auto simp: Let_def)

lemma drain_unseen:
  "drain es fin prev seen = (None, Got r) \<Longrightarrow> prev = None \<Longrightarrow> settled r \<and> ro_state r \<noteq> ''input-required''"
proof (induction es fin prev seen rule: drain.induct)
  case (1 fin prev seen)
  then show ?case by (cases fin) (auto simp: plain_outcome_def settled_def)
next
  case (2 body task ctx es fin prev seen)
  then show ?case by (auto simp: plain_outcome_def settled_def SETTLED_STATES_def TERMINAL_STATES_def)
next
  case (3 t es fin prev seen)
  have "fst (drain (Task_Update t # es) fin prev seen) \<noteq> None" by (cases seen) (simp_all add: Let_def)
  with 3 show ?case by simp
qed

lemma settle_settled: "settled r \<Longrightarrow> settle rm n r w = (Got r, w)"
  by (cases n) auto

lemma gate_loop_no_row: "ro_state r \<noteq> ''input-required'' \<Longrightarrow> gate_loop env rm i ds r w = finish_call env i r w"
  by (cases ds) auto

lemma first_outcome_adopted:
  assumes "adopted (ce_run env) (ce_key env) w"
  shows "starts (snd (snd (first_outcome env rm agent w))) = starts w"
  using assms by (auto simp: adopted_def first_outcome_def split: option.split)

lemma first_send_starts: "starts (snd (snd (first_send env rm agent w))) = starts w + 1"
proof -
  have on: "starts (on_tasks f v) = starts v" for f and v :: "'a line" by (simp add: on_tasks_def starts_def)
  have new: "starts (v\<lparr>ln_remote := x, ln_wire := ln_wire v @ [Start t]\<rparr>) = starts v + 1" for v :: "'a line" and x t by (simp add: starts_def)
  show ?thesis
    by (auto simp: first_send_def Let_def on new split: prod.split option.split)
qed

lemma first_outcome_row:
  assumes "ce_run env \<noteq> None" and "first_outcome env rm agent w = (i, Got r, w1)"
  shows "(\<exists>n. i = Some n \<and> has_row n (ce_run env) (ce_key env) w1) \<or> ro_state r \<noteq> ''input-required''"
proof (cases "find_open_task (ce_run env) (ce_key env) (ln_tasks w)")
  case None
  obtain es fin r' where send: "rm_send rm (ln_remote w) (ce_message env) None = ((es, fin), r')" by (metis surj_pair)
  obtain seen g where d: "drain es fin None None = (seen, g)" by fastforce
  have first: "first_send env rm agent w = (i, Got r, w1)" using assms(2) None by (simp add: first_outcome_def)
  show ?thesis
  proof (cases seen)
    case None
    with first send d have "settle_got rm (ce_polls env) (g, w\<lparr>ln_remote := r', ln_wire := ln_wire w @ [Start (ce_message env)]\<rparr>) = (Got r, w1)"
      by (simp add: first_send_def Let_def)
    moreover from this obtain r0 where g: "g = Got r0" by (cases g) (auto simp: settle_got_def)
    moreover have "settled r0 \<and> ro_state r0 \<noteq> ''input-required''"
      using drain_unseen[of es fin None None r0] d None g by simp
    ultimately show ?thesis by (simp add: settle_got_def settle_settled)
  next
    case (Some s0)
    with first send d have i: "i = Some (length (ln_tasks w))" and w1: "w1 = snd (settle_got rm (ce_polls env)
        (g, on_tasks (record_task agent (ce_run env) (ce_key env) s0) (w\<lparr>ln_remote := r', ln_wire := ln_wire w @ [Start (ce_message env)]\<rparr>)))"
      by (auto simp: first_send_def Let_def)
    then have "has_row (length (ln_tasks w)) (ce_run env) (ce_key env) w1"
      by (simp add: has_row_def on_tasks_def record_task_def)
    with i show ?thesis by blast
  qed
next
  case (Some t)
  then have t: "t \<in> set (ln_tasks w)" "at_run t = ce_run env" "at_key t = ce_key env"
    by (auto simp: find_open_task_def dest!: find_Some_in split: if_splits)
  have "i = Some (at_id t)" "ln_tasks w1 = ln_tasks w"
  proof -
    show "i = Some (at_id t)" using assms(2) Some by (simp add: first_outcome_def)
    have "w1 = snd (snd (first_outcome env rm agent w))" using assms(2) by simp
    also have "ln_tasks \<dots> = ln_tasks w"
      using Some by (simp add: first_outcome_def split: option.split)
    finally show "ln_tasks w1 = ln_tasks w" .
  qed
  with t have "has_row (at_id t) (ce_run env) (ce_key env) w1" by (auto simp: has_row_def)
  with \<open>i = Some (at_id t)\<close> show ?thesis by blast
qed

fun interrupted :: "call_end \<Rightarrow> bool" where
  "interrupted (Call_Interrupted q) = True"
| "interrupted _ = False"

lemma proxy_call_starts:
  "starts (snd (proxy_call env rm ds w)) \<le> (if adopted (ce_run env) (ce_key env) w then starts w else starts w + 1)"
proof -
  have "starts (snd (snd (first_outcome env rm agent w))) \<le> (if adopted (ce_run env) (ce_key env) w then starts w else starts w + 1)" for agent
    using first_outcome_adopted[of env w rm agent] first_send_starts[of env rm agent w]
    by (auto simp: adopted_def first_outcome_def)
  then show ?thesis
    by (auto simp: proxy_call_def split: option.split prod.split got.split) (metis snd_conv)+
qed

lemma proxy_call_adopts:
  assumes "ce_run env \<noteq> None" and "proxy_call env rm ds w = (e, w')" and "interrupted e"
  shows "adopted (ce_run env) (ce_key env) w'"
proof -
  obtain q where q: "e = Call_Interrupted q" using assms(3) by (cases e) auto
  obtain agent i g w1 where f: "first_outcome env rm agent w = (i, g, w1)"
    and rest: "(case g of Got r \<Rightarrow> gate_loop env rm i ds r w1 | Failed_Call e \<Rightarrow> (Call_Raised e, w1) | Out_Of_Time \<Rightarrow> expire_call env i w1) = (e, w')"
    using assms(2) q by (auto simp: proxy_call_def split: if_splits option.splits prod.splits)
  obtain r where r: "g = Got r" "gate_loop env rm i ds r w1 = (Call_Interrupted q, w')"
    using rest q by (cases g) auto
  then have "ro_state r = ''input-required''" using gate_loop_no_row[of r env rm i ds w1] not_interrupted(1)[of env i r w1 q w'] by metis
  then obtain n where "i = Some n" "has_row n (ce_run env) (ce_key env) w1"
    using first_outcome_row[OF assms(1)] f r by blast
  then show ?thesis using gate_loop_adopted[OF _ assms(1)] r(2) by blast
qed

fun executions :: "call_env \<Rightarrow> 'r remote \<Rightarrow> json list list \<Rightarrow> 'r line \<Rightarrow> call_end list \<times> 'r line" where
  \<comment> \<open>a call and its replays, each with the answers given so far\<close>
  "executions env rm [] w = ([], w)"
| "executions env rm (ds # dss) w = (case proxy_call env rm ds w of (e, w1) \<Rightarrow>
     (case executions env rm dss w1 of (es, w2) \<Rightarrow> (e # es, w2)))"

lemma executions_length [simp]: "length (fst (executions env rm dss w)) = length dss"
proof (induction dss arbitrary: w)
  case (Cons ds dss)
  then show ?case by (simp add: split_beta)
qed simp

lemma executions_starts:
  assumes "ce_run env \<noteq> None" and "list_all interrupted (butlast (fst (executions env rm dss w)))"
  shows "starts (snd (executions env rm dss w)) \<le> (if adopted (ce_run env) (ce_key env) w then starts w else starts w + 1)"
  using assms(2)
proof (induction dss arbitrary: w)
  case (Cons ds dss)
  obtain e w1 where p: "proxy_call env rm ds w = (e, w1)" by fastforce
  have one: "starts w1 \<le> (if adopted (ce_run env) (ce_key env) w then starts w else starts w + 1)"
    using proxy_call_starts[of env rm ds w] p by simp
  show ?case
  proof (cases dss)
    case Nil
    with one p show ?thesis by simp
  next
    case (Cons ds' dss')
    then have "fst (executions env rm dss w1) \<noteq> []" by (metis executions_length length_0_conv list.distinct(1))
    then have e: "interrupted e" and rest: "list_all interrupted (butlast (fst (executions env rm dss w1)))"
      using Cons.prems p by (auto split: prod.splits)
    have "adopted (ce_run env) (ce_key env) w1" using proxy_call_adopts[OF assms(1) p e] .
    with Cons.IH[OF rest] one p show ?thesis by (auto split: prod.splits)
  qed
qed simp

text \<open>
  C30: A tool call of a remote agent that is paused at questions and resumed any number of times sends its
  message once: as long as every execution but the last was interrupted, at most one new remote task is
  started, whatever the remote answers, however it streams and whenever a budget runs out.
\<close>

theorem one_remote_task_per_call:
  assumes "ce_run env \<noteq> None" and "list_all interrupted (butlast (fst (executions env rm dss w)))"
  shows "starts (snd (executions env rm dss w)) \<le> starts w + 1"
  using executions_starts[OF assms] by (simp split: if_splits)

section \<open>The second question\<close>

text \<open>A remote agent that asks twice and then answers; its state is the replies it was given.\<close>

definition two_questions :: "string list remote" where
  "two_questions =
     (let view = (\<lambda>rs. if length rs < 2
          then \<lparr>rt_state = Some ''input-required'', rt_status_text = (if rs = [] then ''Which city?'' else ''Which date?''), rt_artifacts = [],
                rt_id = ''T'', rt_context = None\<rparr>
          else \<lparr>rt_state = Some ''completed'', rt_status_text = [], rt_artifacts = [''booked''], rt_id = ''T'', rt_context = None\<rparr>)
      in \<lparr>rm_send = (\<lambda>rs t task. let rs' = (if task = None then rs else rs @ [t]) in (([Task_Update (view rs')], Stream_End), rs')),
          rm_get = (\<lambda>rs task. (Inr (view rs), rs)), rm_cancel = (\<lambda>rs task. rs)\<rparr>)"

definition booking :: call_env where
  "booking = \<lparr>ce_enabled = True, ce_agent = Some ''a'', ce_name = Some ''travel'', ce_tool_key = ''travel.book'', ce_message = ''book'',
     ce_run = Some ''r'', ce_key = ''k'', ce_timeout = 60, ce_polls = 3, ce_ambient = False, ce_max_parked = 5, ce_fence = (\<lambda>st t. t),
     ce_render = (\<lambda>j. []), ce_clean = (\<lambda>t. t), ce_now = 0\<rparr>"

definition idle_line :: "string list line" where
  "idle_line = \<lparr>ln_remote = [], ln_tasks = [], ln_wire = []\<rparr>"

definition answer_with :: "string \<Rightarrow> json" where
  "answer_with t = JDict [(''decision'', JStr ''approve''), (''answers'', JDict [(''reply'', JStr t)])]"


theorem one_remote_task_per_call_witness:
  "starts (snd (executions booking two_questions [[], [answer_with ''Oslo''], [answer_with ''Oslo'', answer_with ''May'']] idle_line)) \<le> 1"
proof -
  have run: "list_all interrupted (butlast (fst (executions booking two_questions [[], [answer_with ''Oslo''],
      [answer_with ''Oslo'', answer_with ''May'']] idle_line)))"
    by (simp add: proxy_call_def booking_def two_questions_def idle_line_def first_outcome_def first_send_def find_open_task_def
        outcome_from_task_def on_tasks_def record_task_def settle_got_def settle_settled settled_def SETTLED_STATES_def TERMINAL_STATES_def
        OPEN_STATES_def get_outcome_def send_reply_def reply_of_def answer_with_def dict_get_def note_task_def update_task_def asked_def
        no_update_def finish_call_def plain_outcome_def Let_def)
  show ?thesis
    using one_remote_task_per_call[OF _ run] by (simp add: booking_def idle_line_def starts_def)
qed

lemma update_delivered:
  assumes "t \<in> set (update_task clean now i u tasks)" and "at_id t = i" and "tu_delivered u = Some b"
  shows "at_delivered t = b"
  using assms(1) unfolding update_task_def set_map
proof (rule imageE)
  fix t0 assume "t = (if at_id t0 = i
     then t0\<lparr>at_state := (if tu_parked u then ''parked'' else case tu_state u of None \<Rightarrow> at_state t0 | Some x \<Rightarrow> x),
            at_question := tu_question u,
            at_result := (case tu_result u of None \<Rightarrow> at_result t0 | Some x \<Rightarrow> Some x),
            at_error := (case tu_error u of None \<Rightarrow> at_error t0 | Some x \<Rightarrow> Some (clean x)),
            at_parked := (if tu_parked u then Some now else at_parked t0),
            at_delivered := (case tu_delivered u of None \<Rightarrow> at_delivered t0 | Some x \<Rightarrow> x)\<rparr>
     else t0)"
  then show ?thesis using assms(2,3) by (cases "at_id t0 = i") simp_all
qed

lemma polled_outcome_leaves_queue:
  \<comment> \<open>a parked task whose outcome has been delivered is not polled again\<close>
  assumes "t \<in> set (parked_tasks (ln_tasks (snd (deliver_outcome env i name run r (ob, w)))))"
  shows "at_id t \<noteq> i"
proof -
  have tasks: "ln_tasks (snd (deliver_outcome env i name run r (ob, w))) = update_task (pl_clean env) (pl_now env) i
      (no_update\<lparr>tu_state := Some (ro_state r), tu_result := (if ro_text r = [] then None else Some (ro_text r)), tu_error := ro_error r,
        tu_delivered := Some True\<rparr>) (ln_tasks w)"
    by (simp add: deliver_outcome_def on_tasks_def Let_def)
  have "t \<in> set (ln_tasks (snd (deliver_outcome env i name run r (ob, w))))" and "\<not> at_delivered t"
    using in_set_takeD[OF assms[unfolded parked_tasks_def]] by simp_all
  then show ?thesis unfolding tasks by (auto dest: update_delivered[where b = True])
qed

end
