(* ===== verification/Cost.thy ===== *)
theory Cost
  imports Prelude
begin

text \<open>
  Prices and the shared spend ceiling (\<open>backend/app/llm/pricing.py\<close>, \<open>backend/app/cost.py\<close>): the price of
  a model, the cost of a run from its captured usage, the stamp a finished run carries, the spend of the
  UTC day over every kind of run and the refusal past the ceiling. What a provider reports, \<open>float\<close> on a
  setting, \<open>str\<close> on a number and the rounding to six places are arguments.
\<close>

section \<open>Prices\<close>

type_synonym price = "real \<times> real"

record price_env =
  pe_float :: "json \<Rightarrow> real option"                 \<comment> \<open>None where \<open>float\<close> raises\<close>
  pe_provider :: "string \<Rightarrow> price option"
  pe_render :: "json \<Rightarrow> string"
  pe_round :: "real \<Rightarrow> real"
  pe_settings :: pydict

definition DEFAULT_PRICES :: "(string \<times> price) list" where
  "DEFAULT_PRICES =
     [(''anthropic:claude-sonnet-4-6'', 3, 15), (''anthropic:claude-opus-4-6'', 15, 75),
      (''anthropic:claude-haiku-4-5'', 1, 5), (''anthropic:claude-sonnet-5'', 3, 15), (''anthropic:claude-opus-5'', 15, 75),
      (''google_genai:gemini-2.5-pro'', 5 / 4, 10), (''google_genai:gemini-2.5-flash'', 3 / 10, 5 / 2),
      (''google_genai:gemini-3.1-flash-lite'', 1 / 10, 2 / 5), (''google_genai:gemini-3.5-flash'', 3 / 10, 5 / 2),
      (''google_genai:gemini-3.6-flash'', 3 / 10, 5 / 2), (''openai:gpt-5'', 5 / 4, 10), (''openai:gpt-5-mini'', 1 / 4, 2),
      (''fake:scripted'', 0, 0)]"

definition overrides_of :: "pydict \<Rightarrow> pydict option" where
  "overrides_of settings = (case dict_get settings ''model_prices'' of JDict d \<Rightarrow> Some d | _ \<Rightarrow> None)"

definition override_price :: "(json \<Rightarrow> real option) \<Rightarrow> pydict option \<Rightarrow> string \<Rightarrow> price option" where
  "override_price fl overrides ref = (case overrides of
       None \<Rightarrow> None
     | Some d \<Rightarrow> (case dict_get d ref of
         JDict row \<Rightarrow> (case (fl (dict_get_or row ''input_per_m'' (JFloat 0)), fl (dict_get_or row ''output_per_m'' (JFloat 0))) of
             (Some i, Some u) \<Rightarrow> Some (i, u)
           | _ \<Rightarrow> None)
       | _ \<Rightarrow> None))"

definition price_for :: "price_env \<Rightarrow> string \<Rightarrow> price option" where
  "price_for pe ref = (case override_price (pe_float pe) (overrides_of (pe_settings pe)) ref of
       Some p \<Rightarrow> Some p
     | None \<Rightarrow> (case pe_provider pe ref of Some p \<Rightarrow> Some p | None \<Rightarrow> map_of DEFAULT_PRICES ref))"

definition price_source :: "price_env \<Rightarrow> string \<Rightarrow> string option" where
  "price_source pe ref =
     (if override_price (pe_float pe) (overrides_of (pe_settings pe)) ref \<noteq> None then Some ''override''
      else if pe_provider pe ref \<noteq> None then Some ''provider''
      else if map_of DEFAULT_PRICES ref \<noteq> None then Some ''builtin'' else None)"

definition cost_usd :: "price_env \<Rightarrow> string \<Rightarrow> int \<Rightarrow> int \<Rightarrow> real option" where
  "cost_usd pe ref tin tout =
     map_option (\<lambda>(i, u). (real_of_int (max tin 0) * i + real_of_int (max tout 0) * u) / 1000000) (price_for pe ref)"

lemma source_iff_price: "price_source pe ref = None \<longleftrightarrow> price_for pe ref = None"
  by (cases "map_of DEFAULT_PRICES ref") (auto simp: price_source_def price_for_def split: option.split)

section \<open>The cost of a run\<close>

type_synonym usage = "string option \<times> int \<times> int"

definition bill :: "price_env \<Rightarrow> usage \<Rightarrow> real option" where
  \<comment> \<open>a usage without a model, or of a model nobody prices, has no bill\<close>
  "bill pe u = (case u of (model, tin, tout) \<Rightarrow>
     (case model of None \<Rightarrow> None | Some m \<Rightarrow> if m = [] then None else cost_usd pe m tin tout))"

record tally =
  ta_usd :: real
  ta_any :: bool
  ta_unpriced :: int

definition tally_usage :: "price_env \<Rightarrow> tally \<Rightarrow> usage \<Rightarrow> tally" where
  "tally_usage pe a u = (case u of (model, tin, tout) \<Rightarrow>
     (if tin = 0 \<and> tout = 0 then a
      else (case bill pe u of
          None \<Rightarrow> a\<lparr>ta_unpriced := ta_unpriced a + (tin + tout)\<rparr>
        | Some usd \<Rightarrow> a\<lparr>ta_usd := ta_usd a + usd, ta_any := True\<rparr>)))"

record run_price =
  rp_cost :: "real option"
  rp_priced :: bool
  rp_unpriced :: int

definition ref_model :: "price_env \<Rightarrow> string" where
  "ref_model pe =
     (let f = dict_get (pe_settings pe) ''formatter_model''; d = dict_get (pe_settings pe) ''default_model'';
          v = (if truthy f then f else if truthy d then d else JStr [])
      in py_str (pe_render pe) v)"

definition run_cost :: "price_env \<Rightarrow> int \<times> int \<Rightarrow> usage list \<Rightarrow> run_price" where
  "run_cost pe totals steps =
     (let a = foldl (tally_usage pe) \<lparr>ta_usd = 0, ta_any = False, ta_unpriced = 0\<rparr> steps;
          rest_in = max (fst totals - sum_list (map (\<lambda>(m, i, u). i) steps)) 0;
          rest_out = max (snd totals - sum_list (map (\<lambda>(m, i, u). u) steps)) 0;
          b = tally_usage pe a (Some (ref_model pe), rest_in, rest_out)
      in \<lparr>rp_cost = (if ta_any b then Some (pe_round pe (ta_usd b)) else None),
          rp_priced = (ta_unpriced b = 0 \<and> (ta_any b \<or> fst totals + snd totals = 0)), rp_unpriced = ta_unpriced b\<rparr>)"

record cost_step =
  ct_run :: string
  ct_model :: "string option"
  ct_in :: int
  ct_out :: int

definition usage_of :: "cost_step list \<Rightarrow> string option \<Rightarrow> usage" where
  "usage_of steps m = (m, sum_list (map ct_in (filter (\<lambda>s. ct_model s = m) steps)),
                          sum_list (map ct_out (filter (\<lambda>s. ct_model s = m) steps)))"

definition step_usage :: "cost_step list \<Rightarrow> string \<Rightarrow> usage list" where
  \<comment> \<open>the groups of one run, by model\<close>
  "step_usage steps rid = (let mine = filter (\<lambda>s. ct_run s = rid) steps in map (usage_of mine) (remdups (map ct_model mine)))"

record cost_run =
  cr_id :: string
  cr_eval :: bool
  cr_trigger :: "string option"
  cr_mode :: string
  cr_in :: int
  cr_out :: int
  cr_started :: instant
  cr_cost :: "real option"
  cr_priced :: "bool option"
  cr_snapshot :: "((string \<times> price option \<times> string option) list \<times> int) option"

definition run_kind :: "cost_run \<Rightarrow> string" where
  "run_kind r = (if cr_eval r then ''eval'' else if cr_trigger r \<noteq> None \<and> cr_trigger r \<noteq> Some [] then ''ambient''
                 else if cr_mode r = ''direct'' then ''direct'' else ''chat'')"

definition price_of_run :: "price_env \<Rightarrow> cost_step list \<Rightarrow> cost_run \<Rightarrow> run_price" where
  "price_of_run pe steps r = run_cost pe (cr_in r, cr_out r) (step_usage steps (cr_id r))"

definition stamp_run_cost :: "price_env \<Rightarrow> cost_step list \<Rightarrow> cost_run \<Rightarrow> cost_run" where
  "stamp_run_cost pe steps r =
     (let p = price_of_run pe steps r;
          models = [m. (Some m, i, u) \<leftarrow> step_usage steps (cr_id r), m \<noteq> []]
      in r\<lparr>cr_cost := rp_cost p, cr_priced := Some (rp_priced p),
           cr_snapshot := Some (map (\<lambda>m. (m, price_for pe m, price_source pe m))
              (sort (remdups (models @ (if ref_model pe \<noteq> [] then [ref_model pe] else [])))), rp_unpriced p)\<rparr>)"

section \<open>The spend of the day\<close>

definition counted_price :: "price_env \<Rightarrow> cost_step list \<Rightarrow> cost_run \<Rightarrow> run_price" where
  "counted_price pe steps r = (case cr_priced r of
       Some p \<Rightarrow> \<lparr>rp_cost = cr_cost r, rp_priced = p, rp_unpriced = (case cr_snapshot r of None \<Rightarrow> 0 | Some s \<Rightarrow> snd s)\<rparr>
     | None \<Rightarrow> price_of_run pe steps r)"

definition spend_of :: "price_env \<Rightarrow> cost_step list \<Rightarrow> real \<times> int \<times> (string \<times> real) list \<Rightarrow> cost_run \<Rightarrow> real \<times> int \<times> (string \<times> real) list" where
  "spend_of pe steps acc r = (case acc of (usd, unpriced, by_kind) \<Rightarrow>
     (let p = counted_price pe steps r; c = (case rp_cost p of None \<Rightarrow> 0 | Some x \<Rightarrow> x); k = run_kind r
      in (usd + c, unpriced + rp_unpriced p,
          if c \<noteq> 0 then dict_set by_kind k ((case map_of by_kind k of None \<Rightarrow> 0 | Some x \<Rightarrow> x) + c) else by_kind)))"

definition runs_today :: "instant \<Rightarrow> cost_run list \<Rightarrow> cost_run list" where
  "runs_today now runs = filter (\<lambda>r. midnight now \<le> cr_started r \<and> cr_started r < midnight now + day_us) runs"

record spend =
  sp_usd :: real
  sp_runs :: nat
  sp_unpriced :: int
  sp_by_kind :: "(string \<times> real) list"
  sp_enabled :: bool
  sp_ceiling :: real
  sp_remaining :: "real option"
  sp_reached :: bool

definition ceiling_of :: "price_env \<Rightarrow> real" where
  \<comment> \<open>the settings hold a number\<close>
  "ceiling_of pe = (let v = dict_get (pe_settings pe) ''spend_ceiling_usd_per_day''
     in if truthy v then (case pe_float pe v of None \<Rightarrow> 0 | Some x \<Rightarrow> x) else 0)"

definition read_spend :: "price_env \<Rightarrow> instant \<Rightarrow> cost_step list \<Rightarrow> cost_run list \<Rightarrow> spend" where
  "read_spend pe now steps runs =
     (case foldl (spend_of pe steps) (0, 0, []) (runs_today now runs) of (usd, unpriced, by_kind) \<Rightarrow>
        (let on = truthy (dict_get (pe_settings pe) ''spend_ceiling_enabled''); c = ceiling_of pe
         in \<lparr>sp_usd = pe_round pe usd, sp_runs = length (runs_today now runs), sp_unpriced = unpriced,
             sp_by_kind = map (\<lambda>(k, v). (k, pe_round pe v)) by_kind, sp_enabled = on, sp_ceiling = c,
             sp_remaining = (if on then Some (pe_round pe (max (c - usd) 0)) else None), sp_reached = (on \<and> c \<le> usd)\<rparr>))"

definition SPEND_CACHE :: instant where
  "SPEND_CACHE = secs 5"

definition spend_today :: "price_env \<Rightarrow> bool \<Rightarrow> instant \<Rightarrow> instant \<Rightarrow> cost_step list \<Rightarrow> cost_run list
    \<Rightarrow> (instant \<times> spend) option \<Rightarrow> spend \<times> (instant \<times> spend) option" where
  \<comment> \<open>\<open>clock\<close>: the monotonic clock of the process\<close>
  "spend_today pe fresh clock now steps runs cache =
     (let s = read_spend pe now steps runs in
      (case cache of
         Some (at0, s0) \<Rightarrow> if \<not> fresh \<and> clock - at0 < SPEND_CACHE then (s0, cache) else (s, Some (clock, s))
       | None \<Rightarrow> (s, Some (clock, s))))"

datatype spend_refusal = SpendCeilingReached real real   \<comment> \<open>429, to retry in 3600 seconds\<close>

definition enforce_spend_ceiling :: "price_env \<Rightarrow> instant \<Rightarrow> instant \<Rightarrow> cost_step list \<Rightarrow> cost_run list
    \<Rightarrow> (instant \<times> spend) option \<Rightarrow> spend_refusal option \<times> (instant \<times> spend) option" where
  "enforce_spend_ceiling pe clock now steps runs cache =
     (if \<not> truthy (dict_get (pe_settings pe) ''spend_ceiling_enabled'') then (None, cache)
      else (case spend_today pe False clock now steps runs cache of (s, cache') \<Rightarrow>
        ((if sp_reached s then Some (SpendCeilingReached (sp_usd s) (sp_ceiling s)) else None), cache')))"

section \<open>Every token once\<close>

definition tokens :: "usage \<Rightarrow> int" where
  "tokens u = fst (snd u) + snd (snd u)"

definition used :: "usage \<Rightarrow> bool" where
  "used u \<longleftrightarrow> fst (snd u) \<noteq> 0 \<or> snd (snd u) \<noteq> 0"

lemma tally_result:
  "foldl (tally_usage pe) a us =
     \<lparr>ta_usd = ta_usd a + sum_list (map (\<lambda>u. case bill pe u of None \<Rightarrow> 0 | Some c \<Rightarrow> c) us),
      ta_any = (ta_any a \<or> list_ex (\<lambda>u. used u \<and> bill pe u \<noteq> None) us),
      ta_unpriced = ta_unpriced a + sum_list (map tokens (filter (\<lambda>u. bill pe u = None) us))\<rparr>"
proof (induction us arbitrary: a)
  case (Cons u us)
  obtain m i t where u: "u = (m, i, t)" by (cases u)
  have zero: "case bill pe (m, 0, 0) of None \<Rightarrow> True | Some c \<Rightarrow> c = 0"
    by (auto simp: bill_def cost_usd_def split: option.split)
  show ?case
    using Cons[of "tally_usage pe a u"] zero
    by (cases "i = 0 \<and> t = 0"; cases "bill pe u") (auto simp: u tally_usage_def tokens_def used_def)
qed simp

text \<open>
  C28: For a run whose totals cover its steps, the usage that is judged is the steps and the rest at the
  presentation model; its tokens add up to the totals, each is billed at the price of its own model
  or reported as unpriced, and the run counts as priced only when none is unpriced.
\<close>

theorem every_token_is_priced_once:
  assumes "sum_list (map (\<lambda>(m, i, u). i) steps) \<le> tin" and "sum_list (map (\<lambda>(m, i, u). u) steps) \<le> tout"
    and "us = steps @ [(Some (ref_model pe), tin - sum_list (map (\<lambda>(m, i, u). i) steps), tout - sum_list (map (\<lambda>(m, i, u). u) steps))]"
  shows "sum_list (map tokens us) = tin + tout
    \<and> rp_unpriced (run_cost pe (tin, tout) steps) = sum_list (map tokens (filter (\<lambda>u. bill pe u = None) us))
    \<and> rp_cost (run_cost pe (tin, tout) steps) =
        (if list_ex (\<lambda>u. used u \<and> bill pe u \<noteq> None) us
         then Some (pe_round pe (sum_list (map (\<lambda>u. case bill pe u of None \<Rightarrow> 0 | Some c \<Rightarrow> c) us))) else None)
    \<and> (rp_priced (run_cost pe (tin, tout) steps) \<longrightarrow> sum_list (map tokens (filter (\<lambda>u. bill pe u = None) us)) = 0)"
proof -
  have "sum_list (map tokens steps) = sum_list (map (\<lambda>(m, i, u). i) steps) + sum_list (map (\<lambda>(m, i, u). u) steps)"
    by (induction steps) (auto simp: tokens_def)
  then have "sum_list (map tokens us) = tin + tout" by (simp add: assms(3) tokens_def)
  moreover obtain a0 where a0: "a0 = \<lparr>ta_usd = 0, ta_any = False, ta_unpriced = 0\<rparr>" by blast
  have rests: "max (tin - sum_list (map (\<lambda>(m, i, u). i) steps)) 0 = tin - sum_list (map (\<lambda>(m, i, u). i) steps)"
    "max (tout - sum_list (map (\<lambda>(m, i, u). u) steps)) 0 = tout - sum_list (map (\<lambda>(m, i, u). u) steps)"
    using assms(1,2) by simp_all
  have us: "foldl (tally_usage pe) a0 us = tally_usage pe (foldl (tally_usage pe) a0 steps) (Some (ref_model pe),
      tin - sum_list (map (\<lambda>(m, i, u). i) steps), tout - sum_list (map (\<lambda>(m, i, u). u) steps))"
    by (simp only: assms(3) foldl_append foldl_Cons foldl_Nil)
  have "run_cost pe (tin, tout) steps = (let b = foldl (tally_usage pe) a0 us in
      \<lparr>rp_cost = (if ta_any b then Some (pe_round pe (ta_usd b)) else None),
       rp_priced = (ta_unpriced b = 0 \<and> (ta_any b \<or> tin + tout = 0)), rp_unpriced = ta_unpriced b\<rparr>)"
    by (simp only: run_cost_def Let_def fst_conv snd_conv rests us[unfolded a0] a0)
  ultimately show ?thesis by (simp add: tally_result a0 Let_def)
qed

definition scripted_env :: price_env where
  "scripted_env = \<lparr>pe_float = (\<lambda>v. case v of JFloat x \<Rightarrow> Some x | JInt n \<Rightarrow> Some (real_of_int n) | _ \<Rightarrow> None), pe_provider = (\<lambda>m. None),
     pe_render = (\<lambda>v. []), pe_round = (\<lambda>x. x), pe_settings = [(''default_model'', JStr ''openai:gpt-5'')]\<rparr>"

theorem every_token_is_priced_once_witness:
  "rp_unpriced (run_cost scripted_env (30, 5) [(Some ''openai:gpt-5'', 10, 2), (Some ''x:y'', 7, 1)]) = 8"
  using every_token_is_priced_once[of "[(Some ''openai:gpt-5'', 10, 2), (Some ''x:y'', 7, 1)]" 30 5 _ scripted_env, OF _ _ refl]
  by (simp add: ref_model_def scripted_env_def dict_get_def bill_def cost_usd_def price_for_def override_price_def
      overrides_of_def DEFAULT_PRICES_def tokens_def)

section \<open>Grouping\<close>

lemma bill_group:
  assumes "\<forall>s \<in> set ss. ct_model s = m \<and> 0 \<le> ct_in s \<and> 0 \<le> ct_out s"
  shows "(case bill pe (m, sum_list (map ct_in ss), sum_list (map ct_out ss)) of None \<Rightarrow> 0 | Some c \<Rightarrow> c)
       = sum_list (map (\<lambda>s. case bill pe (ct_model s, ct_in s, ct_out s) of None \<Rightarrow> 0 | Some c \<Rightarrow> c) ss)"
  using assms
proof (induction ss)
  case Nil
  show ?case by (auto simp: bill_def cost_usd_def split: option.split)
next
  case (Cons s ss)
  have "0 \<le> sum_list (map ct_in ss)" "0 \<le> sum_list (map ct_out ss)"
    using Cons.prems by (auto intro!: sum_list_nonneg)
  with Cons show ?case
    by (auto simp: bill_def cost_usd_def max_def field_simps split: option.split)
qed

lemma sum_indicator: "distinct ms \<Longrightarrow> k \<in> set ms \<Longrightarrow> sum_list (map (\<lambda>m. if k = m then (c::'a::comm_monoid_add) else 0) ms) = c"
proof (induction ms)
  case (Cons m ms)
  have "k \<notin> set xs \<Longrightarrow> sum_list (map (\<lambda>m. if k = m then c else 0) xs) = 0" for xs
    by (induction xs) auto
  with Cons show ?case by auto
qed simp

lemma sum_groups:
  "distinct ms \<Longrightarrow> g ` set xs \<subseteq> set ms \<Longrightarrow>
   sum_list (map (\<lambda>m. sum_list (map f (filter (\<lambda>x. g x = m) xs))) ms) = sum_list (map (f :: 'b \<Rightarrow> 'a::comm_monoid_add) xs)"
proof (induction xs)
  case (Cons x xs)
  have "(\<lambda>m. sum_list (map f (filter (\<lambda>y. g y = m) (x # xs))))
      = (\<lambda>m. (if g x = m then f x else 0) + sum_list (map f (filter (\<lambda>y. g y = m) xs)))"
    by (auto simp: fun_eq_iff)
  with Cons show ?case by (simp add: sum_list_addf sum_indicator)
qed simp

definition raw_usage :: "cost_step list \<Rightarrow> string \<Rightarrow> usage list" where
  \<comment> \<open>the steps of a run one by one\<close>
  "raw_usage steps rid = map (\<lambda>s. (ct_model s, ct_in s, ct_out s)) (filter (\<lambda>s. ct_run s = rid) steps)"

lemma bill_None: "bill pe (m, i, t) = None \<longleftrightarrow> bill pe (m, 0, 0) = None"
  by (auto simp: bill_def cost_usd_def split: option.splits)

text \<open>
  Grouping the steps of a run by model before pricing changes nothing: cost, unpriced tokens and the
  priced flag are those of pricing the steps one by one.
\<close>

theorem grouping_keeps_the_price:
  assumes "list_all (\<lambda>s. 0 \<le> ct_in s \<and> 0 \<le> ct_out s) steps"
  shows "run_cost pe totals (step_usage steps rid) = run_cost pe totals (raw_usage steps rid)"
proof -
  obtain ss where ss: "ss = filter (\<lambda>s. ct_run s = rid) steps" by blast
  have pos: "\<forall>s \<in> set ss. 0 \<le> ct_in s \<and> 0 \<le> ct_out s" using assms by (auto simp: ss list_all_iff)
  obtain ms where ms: "ms = remdups (map ct_model ss)" by blast
  have m: "distinct ms" "ct_model ` set ss \<subseteq> set ms" by (auto simp: ms)
  have su: "step_usage steps rid = map (usage_of ss) ms" and ru: "raw_usage steps rid = map (\<lambda>s. (ct_model s, ct_in s, ct_out s)) ss"
    by (simp_all add: step_usage_def raw_usage_def ss ms Let_def)
  have "sum_list (map (\<lambda>(m, i, u). i) (map (usage_of ss) ms)) = sum_list (map ct_in ss)"
    "sum_list (map (\<lambda>(m, i, u). u) (map (usage_of ss) ms)) = sum_list (map ct_out ss)"
    using sum_groups[OF m, of ct_in] sum_groups[OF m, of ct_out] by (simp_all add: usage_of_def o_def)
  then have sums: "sum_list (map (\<lambda>(m, i, u). i) (step_usage steps rid)) = sum_list (map (\<lambda>(m, i, u). i) (raw_usage steps rid))"
    "sum_list (map (\<lambda>(m, i, u). u) (step_usage steps rid)) = sum_list (map (\<lambda>(m, i, u). u) (raw_usage steps rid))"
    by (simp_all add: su ru o_def)
  have usd: "sum_list (map (\<lambda>u. case bill pe u of None \<Rightarrow> 0 | Some c \<Rightarrow> c) (step_usage steps rid))
      = sum_list (map (\<lambda>u. case bill pe u of None \<Rightarrow> 0 | Some c \<Rightarrow> c) (raw_usage steps rid))"
  proof -
    have "sum_list (map (\<lambda>u. case bill pe u of None \<Rightarrow> 0 | Some c \<Rightarrow> c) (map (usage_of ss) ms))
        = sum_list (map (\<lambda>m. sum_list (map (\<lambda>s. case bill pe (ct_model s, ct_in s, ct_out s) of None \<Rightarrow> 0 | Some c \<Rightarrow> c)
            (filter (\<lambda>s. ct_model s = m) ss))) ms)"
      using pos by (auto simp: o_def usage_of_def intro!: arg_cong[where f = sum_list] map_cong bill_group)
    then show ?thesis by (simp add: sum_groups[OF m] su ru o_def)
  qed
  have unpriced: "sum_list (map tokens (filter (\<lambda>u. bill pe u = None) (step_usage steps rid)))
      = sum_list (map tokens (filter (\<lambda>u. bill pe u = None) (raw_usage steps rid)))"
  proof -
    obtain f :: "cost_step \<Rightarrow> int" where f: "f = (\<lambda>s. if bill pe (ct_model s, 0, 0) = None then ct_in s + ct_out s else 0)" by blast
    have filt: "sum_list (map tokens (filter (\<lambda>u. bill pe u = None) us)) = sum_list (map (\<lambda>u. if bill pe (fst u, 0, 0) = None then tokens u else 0) us)" for us
    proof (induction us)
      case (Cons u us)
      then show ?case using bill_None[of pe "fst u" "fst (snd u)" "snd (snd u)"] by simp
    qed simp
    have "(if bill pe (m, 0, 0) = None then tokens (usage_of ss m) else 0) = sum_list (map f (filter (\<lambda>s. ct_model s = m) ss))" for m
      unfolding f by (induction ss) (auto simp: usage_of_def tokens_def)
    then have "sum_list (map (\<lambda>m. if bill pe (m, 0, 0) = None then tokens (usage_of ss m) else 0) ms) = sum_list (map f ss)"
      using sum_groups[OF m, of f] by simp
    then show ?thesis by (simp add: filt su ru o_def f tokens_def usage_of_def cong: if_cong)
  qed
  have some: "list_ex (\<lambda>u. used u \<and> bill pe u \<noteq> None) (step_usage steps rid) \<longleftrightarrow> list_ex (\<lambda>u. used u \<and> bill pe u \<noteq> None) (raw_usage steps rid)"
  proof -
    have "used (usage_of ss m) \<longleftrightarrow> (\<exists>s \<in> set ss. ct_model s = m \<and> used (ct_model s, ct_in s, ct_out s))" for m
    proof -
      have "sum_list (map ct_in (filter (\<lambda>s. ct_model s = m) ss)) = 0 \<longleftrightarrow> (\<forall>s \<in> set ss. ct_model s = m \<longrightarrow> ct_in s = 0)"
        "sum_list (map ct_out (filter (\<lambda>s. ct_model s = m) ss)) = 0 \<longleftrightarrow> (\<forall>s \<in> set ss. ct_model s = m \<longrightarrow> ct_out s = 0)"
        using pos by (subst sum_list_nonneg_eq_0_iff; auto)+
      then show ?thesis by (auto simp: usage_of_def used_def)
    qed
    moreover have "bill pe (usage_of ss m) \<noteq> None \<longleftrightarrow> bill pe (m, 0, 0) \<noteq> None" for m
      unfolding usage_of_def by (subst bill_None) (rule refl)
    moreover have "set ms = ct_model ` set ss" by (simp add: ms)
    ultimately have "list_ex (\<lambda>u. used u \<and> bill pe u \<noteq> None) (map (usage_of ss) ms)
        \<longleftrightarrow> (\<exists>s \<in> set ss. used (ct_model s, ct_in s, ct_out s) \<and> bill pe (ct_model s, 0, 0) \<noteq> None)"
      by (simp add: list_ex_iff) metis
    also have "\<dots> \<longleftrightarrow> (\<exists>s \<in> set ss. used (ct_model s, ct_in s, ct_out s) \<and> bill pe (ct_model s, ct_in s, ct_out s) \<noteq> None)"
      using bill_None by metis
    finally show ?thesis by (simp add: su ru list_ex_iff)
  qed
  show ?thesis
    unfolding run_cost_def tally_result sums usd unpriced some by simp
qed

text \<open>The witness: three steps of two models.\<close>

theorem grouping_keeps_the_price_witness:
  "run_cost scripted_env (30, 5) (step_usage [\<lparr>ct_run = ''r'', ct_model = Some ''a'', ct_in = 1, ct_out = 1\<rparr>,
      \<lparr>ct_run = ''r'', ct_model = None, ct_in = 1, ct_out = 1\<rparr>, \<lparr>ct_run = ''r'', ct_model = Some ''a'', ct_in = 2, ct_out = 0\<rparr>] ''r'')
   = run_cost scripted_env (30, 5) [(Some ''a'', 1, 1), (None, 1, 1), (Some ''a'', 2, 0)]"
  using grouping_keeps_the_price[of "[\<lparr>ct_run = ''r'', ct_model = Some ''a'', ct_in = 1, ct_out = 1\<rparr>,
      \<lparr>ct_run = ''r'', ct_model = None, ct_in = 1, ct_out = 1\<rparr>, \<lparr>ct_run = ''r'', ct_model = Some ''a'', ct_in = 2, ct_out = 0\<rparr>]" scripted_env "(30, 5)" "''r''"]
  by (simp add: raw_usage_def)

section \<open>Stamps and the ceiling\<close>

lemma stamped_price: "counted_price pe' steps' (stamp_run_cost pe steps r) = price_of_run pe steps r"
  by (simp add: counted_price_def stamp_run_cost_def Let_def)

lemma stamped_kind: "run_kind (stamp_run_cost pe steps r) = run_kind r"
  by (simp add: stamp_run_cost_def run_kind_def Let_def)

lemma stamped_today: "runs_today now (map (stamp_run_cost pe steps) runs) = map (stamp_run_cost pe steps) (runs_today now runs)"
  by (simp add: runs_today_def filter_map o_def stamp_run_cost_def Let_def)

lemma spend_frozen:
  assumes "list_all (\<lambda>r. cr_priced r = None) runs"
  shows "foldl (spend_of pe' steps') acc (map (stamp_run_cost pe steps) runs) = foldl (spend_of pe steps) acc runs"
  using assms
proof (induction runs arbitrary: acc)
  case (Cons r runs)
  have "counted_price pe steps r = price_of_run pe steps r"
    using Cons.prems by (simp add: counted_price_def)
  then have "spend_of pe' steps' acc (stamp_run_cost pe steps r) = spend_of pe steps acc r"
    by (simp add: spend_of_def stamped_price stamped_kind)
  with Cons show ?case by simp
qed simp

text \<open>
  Once the runs of a day are stamped, what they count for (spend, unpriced tokens, spend by kind) is what
  they cost when they were stamped, whatever becomes of the price settings, the provider feeds and
  the steps.
\<close>

theorem stamped_spend_is_fixed:
  assumes "list_all (\<lambda>r. cr_priced r = None) runs"
  shows "foldl (spend_of pe' steps') (0, 0, []) (runs_today now (map (stamp_run_cost pe steps) runs))
       = foldl (spend_of pe steps) (0, 0, []) (runs_today now runs)"
  using spend_frozen[of "runs_today now runs" pe' steps' "(0, 0, [])" pe steps] assms
  by (simp add: stamped_today) (auto simp: runs_today_def list_all_iff)

theorem stamped_spend_is_fixed_witness:
  "foldl (spend_of (scripted_env\<lparr>pe_settings := []\<rparr>) []) (0, 0, []) (runs_today 0 (map (stamp_run_cost scripted_env []) [\<lparr>cr_id = ''r'', cr_eval = False, cr_trigger = None,
      cr_mode = ''agentic'', cr_in = 5, cr_out = 1, cr_started = 0, cr_cost = None, cr_priced = None, cr_snapshot = None\<rparr>]))
   = foldl (spend_of scripted_env []) (0, 0, []) (runs_today 0 [\<lparr>cr_id = ''r'', cr_eval = False, cr_trigger = None,
      cr_mode = ''agentic'', cr_in = 5, cr_out = 1, cr_started = 0, cr_cost = None, cr_priced = None, cr_snapshot = None\<rparr>])"
  by (rule stamped_spend_is_fixed) simp

text \<open>A run is admitted only below the ceiling that was read, at most five seconds ago.\<close>

lemma admitted_below_ceiling:
  assumes "enforce_spend_ceiling pe clock now steps runs cache = (None, cache')" and "truthy (dict_get (pe_settings pe) ''spend_ceiling_enabled'')"
  shows "\<exists>t s. cache' = Some (t, s) \<and> \<not> sp_reached s \<and> (clock - t < SPEND_CACHE \<or> t = clock \<and> s = read_spend pe now steps runs)"
  using assms by (auto simp: enforce_spend_ceiling_def spend_today_def Let_def split: option.splits if_splits prod.splits)

text \<open>The cached answer carries the ceiling it was read under: a raised ceiling is refused for as long.\<close>

lemma raised_ceiling_refused:
  assumes "clock - t < SPEND_CACHE" and "sp_reached s" and "truthy (dict_get (pe_settings pe) ''spend_ceiling_enabled'')"
  shows "fst (enforce_spend_ceiling pe clock now steps runs (Some (t, s))) = Some (SpendCeilingReached (sp_usd s) (sp_ceiling s))"
  using assms by (simp add: enforce_spend_ceiling_def spend_today_def Let_def)

end
