(* ===== verification/Answer_Ui.thy ===== *)
theory Answer_Ui
  imports Prelude
begin

text \<open>
  The generated answer interface (\<open>backend/app/orchestrator/answer_ui.py\<close>): the component tree of the
  formatter, its translation into A2UI messages, the ordered blocks with charts and native tables, the
  placement of the charts the tools produced and the two attempts of the formatter. The model and
  the coverage score are arguments.
\<close>

section \<open>Components\<close>

datatype component_type = Card | Text | Stat | Table | List_C | Badge | Divider | Link | Sources | Chart | Unknown_C

record ui_series =
  us_name :: "string option"
  us_values :: "real list"

record ui_props =
  \<comment> \<open>an absent list is empty: the code reads both alike\<close>
  up_title :: "string option"
  up_markdown :: "string option"
  up_label :: "string option"
  up_value :: "string option"
  up_hint :: "string option"
  up_columns :: "string list"
  up_rows :: "string list list"
  up_items :: "string list"
  up_ordered :: bool
  up_url :: "string option"
  up_urls :: "string list"
  up_chart_kind :: "string option"
  up_labels :: "string list"
  up_series :: "ui_series list"
  up_ref :: "int option"
  up_heat :: bool

datatype ui = Ui (ui_type: component_type) (ui_props: ui_props) (ui_children: "ui list")

definition or_empty :: "string option \<Rightarrow> string" where
  "or_empty x = (case x of None \<Rightarrow> [] | Some s \<Rightarrow> s)"

definition first_text :: "string option \<Rightarrow> string \<Rightarrow> string" where
  \<comment> \<open>\<open>x or d\<close>\<close>
  "first_text x d = (if or_empty x \<noteq> [] then or_empty x else d)"

section \<open>The A2UI builder\<close>

record a2_node =
  an_id :: string
  an_component :: string
  an_text :: "string option"
  an_variant :: "string option"
  an_children :: "string list option"
  an_child :: "string option"

type_synonym builder = "a2_node list"     \<comment> \<open>the sequence number is its length\<close>

definition node_id :: "nat \<Rightarrow> string" where
  "node_id n = ''c'' @ nat_str n"

definition bare_node :: "string \<Rightarrow> a2_node" where
  "bare_node kind = \<lparr>an_id = [], an_component = kind, an_text = None, an_variant = None, an_children = None, an_child = None\<rparr>"

definition add_node :: "a2_node \<Rightarrow> builder \<Rightarrow> string \<times> builder" where
  "add_node n b = (let i = node_id (Suc (length b)) in (i, b @ [n\<lparr>an_id := i\<rparr>]))"

definition add_text :: "string \<Rightarrow> string option \<Rightarrow> builder \<Rightarrow> string \<times> builder" where
  "add_text t variant b = add_node ((bare_node ''Text'')\<lparr>an_text := Some t, an_variant := variant\<rparr>) b"

definition add_column :: "string list \<Rightarrow> builder \<Rightarrow> string \<times> builder" where
  "add_column ids b = add_node ((bare_node ''Column'')\<lparr>an_children := Some ids\<rparr>) b"

fun add_texts :: "string list \<Rightarrow> builder \<Rightarrow> string list \<times> builder" where
  "add_texts [] b = ([], b)"
| "add_texts (t # ts) b = (case add_text t None b of (i, b1) \<Rightarrow> (case add_texts ts b1 of (is, b2) \<Rightarrow> (i # is, b2)))"

definition add_row :: "string list \<Rightarrow> builder \<Rightarrow> string \<times> builder" where
  "add_row cells b = (case add_texts cells b of (ids, b1) \<Rightarrow> add_node ((bare_node ''Row'')\<lparr>an_children := Some ids\<rparr>) b1)"

fun add_rows :: "string list list \<Rightarrow> builder \<Rightarrow> string list \<times> builder" where
  "add_rows [] b = ([], b)"
| "add_rows (r # rs) b = (case add_row r b of (i, b1) \<Rightarrow> (case add_rows rs b1 of (is, b2) \<Rightarrow> (i # is, b2)))"

definition bold :: "string \<Rightarrow> string" where
  "bold t = ''**'' @ t @ ''**''"

definition bullet :: string where
  \<comment> \<open>the source's bullet is beyond the characters of the model\<close>
  "bullet = ''* ''"

definition emit_leaf :: "component_type \<Rightarrow> ui_props \<Rightarrow> builder \<Rightarrow> string option \<times> builder" where
  "emit_leaf ty p b = (case ty of
       Text \<Rightarrow> apfst Some (add_text (first_text (up_markdown p) (or_empty (up_label p))) None b)
     | Stat \<Rightarrow> (case add_text (or_empty (up_value p)) (Some ''h3'') b of (i, b1) \<Rightarrow>
         (case add_texts (or_empty (up_label p) # (if or_empty (up_hint p) \<noteq> [] then [''_'' @ or_empty (up_hint p) @ ''_''] else [])) b1 of
            (is, b2) \<Rightarrow> apfst Some (add_column (i # is) b2)))
     | Table \<Rightarrow> (case add_rows ((if up_columns p \<noteq> [] then [map bold (up_columns p)] else []) @ up_rows p) b of
         (is, b1) \<Rightarrow> apfst Some (add_column is b1))
     | List_C \<Rightarrow> (case add_texts (map (\<lambda>(i, t). (if up_ordered p then nat_str (i + 1) @ ''. '' else bullet) @ t) (enumerate 0 (up_items p))) b of
         (is, b1) \<Rightarrow> apfst Some (add_node ((bare_node ''List'')\<lparr>an_children := Some is\<rparr>) b1))
     | Badge \<Rightarrow> apfst Some (add_text (''**['' @ or_empty (up_label p) @ '']**'') None b)
     | Divider \<Rightarrow> apfst Some (add_node (bare_node ''Divider'') b)
     | Link \<Rightarrow> apfst Some (add_text (first_text (up_label p) (or_empty (up_url p)) @ '' -- '' @ or_empty (up_url p)) None b)
     | Sources \<Rightarrow> (case add_texts (bold ''Sources'' # map (\<lambda>u. bullet @ u) (up_urls p)) b of
         (is, b1) \<Rightarrow> apfst Some (add_column is b1))
     | _ \<Rightarrow> (None, b))"

fun emit :: "ui \<Rightarrow> builder \<Rightarrow> string option \<times> builder" and emit_all :: "ui list \<Rightarrow> builder \<Rightarrow> string list \<times> builder" where
  "emit (Ui ty p kids) b =
     (if ty \<noteq> Card then emit_leaf ty p b
      else (case emit_all kids b of (is, b1) \<Rightarrow>
        (case (if or_empty (up_title p) \<noteq> [] then (case add_text (bold (or_empty (up_title p))) None b1 of (i, b2) \<Rightarrow> (i # is, b2)) else (is, b1)) of
           (is', b2) \<Rightarrow> (case add_column is' b2 of (col, b3) \<Rightarrow>
             apfst Some (add_node ((bare_node ''Card'')\<lparr>an_child := Some col\<rparr>) b3)))))"
| "emit_all [] b = ([], b)"
| "emit_all (u # us) b = (case emit u b of (i, b1) \<Rightarrow> (case emit_all us b1 of (is, b2) \<Rightarrow>
     ((case i of None \<Rightarrow> is | Some x \<Rightarrow> x # is), b2)))"

definition ROOT :: string where
  "ROOT = ''root''"

definition surface_components :: "ui list \<Rightarrow> a2_node list" where
  \<comment> \<open>the components of the update message\<close>
  "surface_components us = (case emit_all us [] of (ids, b) \<Rightarrow>
     b @ [(bare_node ''Column'')\<lparr>an_id := ROOT, an_children := Some ids\<rparr>])"

datatype a2_message = Create_Surface string string string | Update_Components string string "a2_node list"

definition to_a2ui_messages :: "ui list \<Rightarrow> a2_message list" where
  "to_a2ui_messages us =
     [Create_Surface ''v0.9'' ''answer'' ''https://a2ui.org/specification/v0_9/catalogs/basic/catalog.json'',
      Update_Components ''v0.9'' ''answer'' (surface_components us)]"

section \<open>The surface is a tree\<close>

definition refs_of :: "a2_node \<Rightarrow> string list" where
  "refs_of n = (case an_children n of None \<Rightarrow> [] | Some is \<Rightarrow> is) @ (case an_child n of None \<Rightarrow> [] | Some i \<Rightarrow> [i])"

definition all_refs :: "builder \<Rightarrow> string list" where
  "all_refs b = concat (map refs_of b)"

definition numbered_nodes :: "builder \<Rightarrow> bool" where
  "numbered_nodes b \<longleftrightarrow> map an_id b = map node_id [1..<Suc (length b)]"

text \<open>Open: the ids that no node refers to yet.\<close>

definition open_nodes :: "builder \<Rightarrow> string multiset \<Rightarrow> bool" where
  "open_nodes b ids \<longleftrightarrow> numbered_nodes b \<and> mset (map an_id b) = mset (all_refs b) + ids"

definition grows :: "builder \<Rightarrow> string multiset \<Rightarrow> builder \<Rightarrow> bool" where
  \<comment> \<open>the step adds nodes and leaves \<open>ids\<close> open\<close>
  "grows b ids b' \<longleftrightarrow> (\<forall>rest. open_nodes b rest \<longrightarrow> open_nodes b' (ids + rest))"

lemma grows_refl [intro, simp]: "grows b {#} b"
  by (simp add: grows_def)

lemma grows_trans: "grows b is b1 \<Longrightarrow> grows b1 js b2 \<Longrightarrow> grows b (js + is) b2"
  by (auto simp: grows_def add.assoc)

lemma add_node_grows:
  assumes "grows b (mset (refs_of n)) b1"
  shows "grows b {#fst (add_node n b1)#} (snd (add_node n b1))"
proof -
  have num: "numbered_nodes b1 \<Longrightarrow> numbered_nodes (snd (add_node n b1))"
    by (auto simp: numbered_nodes_def add_node_def Let_def)
  have ref: "refs_of (n\<lparr>an_id := i\<rparr>) = refs_of n" for i
    by (simp add: refs_of_def)
  have "mset (map an_id b1) = mset (all_refs b1) + (mset (refs_of n) + rest) \<Longrightarrow>
      mset (map an_id (snd (add_node n b1))) = mset (all_refs (snd (add_node n b1))) + ({#fst (add_node n b1)#} + rest)" for rest
    by (simp add: add_node_def all_refs_def ref Let_def)
  with num have "open_nodes b1 (mset (refs_of n) + rest) \<Longrightarrow> open_nodes (snd (add_node n b1)) ({#fst (add_node n b1)#} + rest)" for rest
    unfolding open_nodes_def by blast
  with assms show ?thesis by (auto simp: grows_def)
qed

lemma add_text_grows: "grows b {#fst (add_text t v b)#} (snd (add_text t v b))"
  unfolding add_text_def by (rule add_node_grows) (simp add: refs_of_def bare_node_def)

lemma add_texts_grows: "grows b (mset (fst (add_texts ts b))) (snd (add_texts ts b))"
proof (induction ts arbitrary: b)
  case (Cons t ts)
  have "grows b (mset (fst (add_texts ts (snd (add_text t None b)))) + {#fst (add_text t None b)#}) (snd (add_texts ts (snd (add_text t None b))))"
    by (rule grows_trans[OF add_text_grows Cons])
  then show ?case by (simp add: split_beta)
qed simp

lemma add_column_grows: "grows b (mset ids) b1 \<Longrightarrow> grows b {#fst (add_column ids b1)#} (snd (add_column ids b1))"
  unfolding add_column_def by (rule add_node_grows) (simp add: refs_of_def bare_node_def)

lemma add_row_grows: "grows b {#fst (add_row cells b)#} (snd (add_row cells b))"
  unfolding add_row_def split_beta by (rule add_node_grows) (simp add: refs_of_def bare_node_def add_texts_grows)

lemma add_rows_grows: "grows b (mset (fst (add_rows rs b))) (snd (add_rows rs b))"
proof (induction rs arbitrary: b)
  case (Cons r rs)
  have "grows b (mset (fst (add_rows rs (snd (add_row r b)))) + {#fst (add_row r b)#}) (snd (add_rows rs (snd (add_row r b))))"
    by (rule grows_trans[OF add_row_grows Cons])
  then show ?case by (simp add: split_beta)
qed simp

definition opt_ids :: "string option \<Rightarrow> string multiset" where
  "opt_ids i = (case i of None \<Rightarrow> {#} | Some x \<Rightarrow> {#x#})"

lemma emit_leaf_grows: "grows b (opt_ids (fst (emit_leaf ty p b))) (snd (emit_leaf ty p b))"
proof -
  have one: "grows b {#fst x#} (snd x) \<Longrightarrow> grows b (opt_ids (fst (apfst Some x))) (snd (apfst Some x))" for x :: "string \<times> builder"
    by (cases x) (simp add: opt_ids_def)
  have stat: "grows b (add_mset (fst (add_text v w b)) (mset (fst (add_texts ts (snd (add_text v w b)))))) (snd (add_texts ts (snd (add_text v w b))))" for v w ts
  proof -
    have "grows b (mset (fst (add_texts ts (snd (add_text v w b)))) + {#fst (add_text v w b)#}) (snd (add_texts ts (snd (add_text v w b))))"
      by (rule grows_trans[OF add_text_grows add_texts_grows])
    then show ?thesis by simp
  qed
  have row: "grows b (mset (refs_of ((bare_node k)\<lparr>an_children := Some (fst (add_texts ts b))\<rparr>))) (snd (add_texts ts b))" for k ts
    by (simp add: refs_of_def bare_node_def add_texts_grows)
  have leaf: "grows b (mset (refs_of (bare_node k))) b" for k by (simp add: refs_of_def bare_node_def)
  show ?thesis
    by (cases ty) (simp_all only: emit_leaf_def component_type.case split_beta,
      simp_all add: one add_text_grows add_column_grows stat add_rows_grows add_texts_grows add_node_grows row leaf opt_ids_def del: add_texts.simps)
qed

lemma emit_grows:
  "grows b (opt_ids (fst (emit u b))) (snd (emit u b))"
  "grows b (mset (fst (emit_all us b))) (snd (emit_all us b))"
proof (induction u b and us b rule: emit_emit_all.induct)
  case (1 ty p kids b)
  show ?case
  proof (cases "ty = Card")
    case False
    then show ?thesis by (simp add: emit_leaf_grows)
  next
    case True
    obtain cs0 b1 where k: "emit_all kids b = (cs0, b1)" by fastforce
    have kids: "grows b (mset cs0) b1" using 1 True k by simp
    obtain cs1 b2 where t: "(if or_empty (up_title p) \<noteq> []
        then (case add_text (bold (or_empty (up_title p))) None b1 of (i, b2) \<Rightarrow> (i # cs0, b2)) else (cs0, b1)) = (cs1, b2)" by (metis surj_pair)
    have titled: "grows b (mset cs1) b2"
    proof (cases "or_empty (up_title p) \<noteq> []")
      case True
      then have "cs1 = fst (add_text (bold (or_empty (up_title p))) None b1) # cs0" "b2 = snd (add_text (bold (or_empty (up_title p))) None b1)"
        using t by (auto split: prod.splits)
      with grows_trans[OF kids add_text_grows, of "bold (or_empty (up_title p))" None] show ?thesis by simp
    qed (use t kids in auto)
    have col: "grows b {#fst (add_column cs1 b2)#} (snd (add_column cs1 b2))"
      by (rule add_column_grows[OF titled])
    have "grows b {#fst (add_node ((bare_node ''Card'')\<lparr>an_child := Some (fst (add_column cs1 b2))\<rparr>) (snd (add_column cs1 b2)))#}
        (snd (add_node ((bare_node ''Card'')\<lparr>an_child := Some (fst (add_column cs1 b2))\<rparr>) (snd (add_column cs1 b2))))"
      by (rule add_node_grows) (use col in \<open>simp add: refs_of_def bare_node_def\<close>)
    moreover have "emit (Ui ty p kids) b = apfst Some (add_node ((bare_node ''Card'')\<lparr>an_child := Some (fst (add_column cs1 b2))\<rparr>) (snd (add_column cs1 b2)))"
      by (simp only: emit.simps True simp_thms if_False k prod.case t) (simp only: split_beta)
    ultimately show ?thesis by (simp add: opt_ids_def)
  qed
next
  case (2 b)
  show ?case by simp
next
  case (3 u us b)
  obtain i b1 where u: "emit u b = (i, b1)" by fastforce
  obtain cs0 b2 where us: "emit_all us b1 = (cs0, b2)" by fastforce
  have "grows b (mset cs0 + opt_ids i) b2"
    using grows_trans[of b "opt_ids i" b1 "mset cs0" b2] 3 u us by simp
  then show ?case by (cases i) (simp_all add: u us opt_ids_def)
qed

lemma node_ids_distinct: "numbered_nodes b \<Longrightarrow> distinct (map an_id b)"
  by (auto simp: numbered_nodes_def distinct_map node_id_def inj_on_def)

text \<open>
  C31: Whatever the formatter produced, the components of the surface form a tree below the root: their ids
  are distinct, and every component but the root is the child of exactly one component.
\<close>

theorem surface_is_a_tree:
  "distinct (map an_id (surface_components us))
   \<and> mset (map an_id (surface_components us)) = add_mset ROOT (mset (concat (map refs_of (surface_components us))))"
proof -
  obtain ids b where e: "emit_all us [] = (ids, b)" by fastforce
  have "open_nodes [] {#}" by (simp add: open_nodes_def numbered_nodes_def all_refs_def)
  then have o': "open_nodes b (mset ids)" using emit_grows(2)[of "[]" us] e by (fastforce simp: grows_def)
  have "ROOT \<noteq> node_id n" for n by (simp add: ROOT_def node_id_def)
  then have "ROOT \<notin> set (map an_id b)" using o' by (auto simp: open_nodes_def numbered_nodes_def)
  then show ?thesis
    using o' node_ids_distinct[of b]
    by (simp add: surface_components_def e open_nodes_def all_refs_def) (simp add: refs_of_def bare_node_def)
qed

section \<open>Charts and blocks\<close>

record chart_spec =
  ch_kind :: string
  ch_title :: string
  ch_labels :: "string list"
  ch_series :: "(string \<times> real list) list"

definition extract_chart :: "ui \<Rightarrow> chart_spec option" where
  "extract_chart c = (let p = ui_props c in
     if ui_type c \<noteq> Chart \<or> or_empty (up_chart_kind p) = [] \<or> up_series p = [] then None
     else (let series = map (\<lambda>s. (or_empty (us_name s), us_values s)) (filter (\<lambda>s. us_values s \<noteq> []) (up_series p))
           in if series = [] then None
              else Some \<lparr>ch_kind = or_empty (up_chart_kind p), ch_title = or_empty (up_title p), ch_labels = up_labels p, ch_series = series\<rparr>))"

definition extract_charts :: "ui list \<Rightarrow> chart_spec list" where
  "extract_charts us = List.map_filter extract_chart us"

datatype block =
    Prose "ui list"                                  \<comment> \<open>rendered by \<open>to_a2ui_messages\<close>\<close>
  | Chart_Block chart_spec
  | Tool_Chart int
  | Table_Block "string list" "string list list" bool

record blocks_state =
  bs_blocks :: "block list"
  bs_group :: "ui list"
  bs_seen :: "int list"

definition flush_group :: "blocks_state \<Rightarrow> blocks_state" where
  "flush_group s = (if bs_group s = [] then s else s\<lparr>bs_blocks := bs_blocks s @ [Prose (bs_group s)], bs_group := []\<rparr>)"

definition block_step :: "nat \<Rightarrow> blocks_state \<Rightarrow> ui \<Rightarrow> blocks_state" where
  "block_step n s c = (let p = ui_props c; put = (\<lambda>b. (flush_group s)\<lparr>bs_blocks := bs_blocks (flush_group s) @ [b]\<rparr>) in
     if ui_type c = Table \<and> up_rows p \<noteq> [] then put (Table_Block (up_columns p) (up_rows p) (up_heat p))
     else if ui_type c \<noteq> Chart then s\<lparr>bs_group := bs_group s @ [c]\<rparr>
     else (case up_ref p of
         Some i \<Rightarrow> if 0 \<le> i \<and> i < int n \<and> i \<notin> set (bs_seen s) then (put (Tool_Chart i))\<lparr>bs_seen := i # bs_seen s\<rparr> else s
       | None \<Rightarrow> (case extract_chart c of None \<Rightarrow> s | Some spec \<Rightarrow> put (Chart_Block spec))))"

definition build_blocks :: "ui list \<Rightarrow> nat \<Rightarrow> block list" where
  "build_blocks us n = bs_blocks (flush_group (foldl (block_step n) \<lparr>bs_blocks = [], bs_group = [], bs_seen = []\<rparr> us))"

definition in_range_ref :: "nat \<Rightarrow> ui \<Rightarrow> int option" where
  "in_range_ref n c = (if ui_type c = Chart then (case up_ref (ui_props c) of
     None \<Rightarrow> None | Some i \<Rightarrow> if 0 \<le> i \<and> i < int n then Some i else None) else None)"

definition placed_refs :: "nat \<Rightarrow> ui list \<Rightarrow> int list" where
  "placed_refs n us = List.map_filter (in_range_ref n) us"

record tool_chart =
  tc_title :: string
  tc_labels :: "string list"

fun words :: "string \<Rightarrow> string \<Rightarrow> string list" where
  \<comment> \<open>\<open>s.split()\<close>, with the word read so far\<close>
  "words w [] = (if w = [] then [] else [w])"
| "words w (c # cs) = (if is_space c then (if w = [] then words [] cs else w # words [] cs) else words (w @ [c]) cs)"

fun sub_str :: "string \<Rightarrow> string \<Rightarrow> bool" where
  \<comment> \<open>\<open>t in s\<close>\<close>
  "sub_str t [] = (t = [])"
| "sub_str t (c # cs) = (starts_with (c # cs) t \<or> sub_str t cs)"

definition chart_tokens :: "tool_chart \<Rightarrow> string list" where
  "chart_tokens t = remdups (filter (\<lambda>w. 3 < length w) (words [] (py_lower (tc_title t @ '' '' @ join '' '' (tc_labels t)))))"

fun component_text :: "ui \<Rightarrow> string" where
  "component_text (Ui ty p kids) =
     py_lower (join '' '' ([or_empty (up_markdown p), or_empty (up_title p), or_empty (up_label p), or_empty (up_value p)]
       @ up_items p @ concat (up_rows p) @ map component_text kids))"

definition score :: "tool_chart \<Rightarrow> ui \<Rightarrow> nat" where
  "score t c = length (filter (\<lambda>w. sub_str w (component_text c)) (chart_tokens t))"

fun best_index :: "tool_chart \<Rightarrow> nat \<Rightarrow> ui list \<Rightarrow> nat option \<Rightarrow> nat \<Rightarrow> nat option" where
  \<comment> \<open>the first of the best-matching components; with the best so far\<close>
  "best_index t i [] best high = best"
| "best_index t i (c # cs) best high =
     (if ui_type c \<noteq> Chart \<and> high < score t c then best_index t (Suc i) cs (Some i) (score t c)
      else best_index t (Suc i) cs best high)"

definition ref_chart :: "nat \<Rightarrow> ui" where
  "ref_chart i = Ui Chart \<lparr>up_title = None, up_markdown = None, up_label = None, up_value = None, up_hint = None, up_columns = [],
     up_rows = [], up_items = [], up_ordered = False, up_url = None, up_urls = [], up_chart_kind = None, up_labels = [], up_series = [],
     up_ref = Some (int i), up_heat = False\<rparr> []"

definition place_chart :: "int set \<Rightarrow> ui list \<times> nat list \<Rightarrow> nat \<times> tool_chart \<Rightarrow> ui list \<times> nat list" where
  \<comment> \<open>\<open>placed\<close>: the refs of the document before; with the refs forced in\<close>
  "place_chart placed x it = (case x of (us, forced) \<Rightarrow> (case it of (i, t) \<Rightarrow>
     (if int i \<in> placed then x
      else (let k = (case best_index t 0 us None 0 of Some j \<Rightarrow> j + 1 | None \<Rightarrow> length us)
            in (take k us @ ref_chart i # drop k us, forced @ [i])))))"

definition place_missing_refs :: "ui list \<Rightarrow> tool_chart list \<Rightarrow> ui list \<times> nat list" where
  "place_missing_refs us charts = foldl (place_chart (set (placed_refs (length charts) us))) (us, []) (enumerate 0 charts)"

definition chart_deficiency :: "(string \<Rightarrow> bool) \<Rightarrow> string \<Rightarrow> ui list \<Rightarrow> nat \<Rightarrow> bool \<Rightarrow> string option" where
  \<comment> \<open>\<open>asks\<close>: the request asks for charts\<close>
  "chart_deficiency asks task us n charts_enabled =
     (if \<not> charts_enabled then None
      else (let missing = filter (\<lambda>i. int i \<notin> set (placed_refs n us)) [0..<n]
            in if missing \<noteq> []
               then Some (''tool charts '' @ join '', '' (map nat_str missing) @ '' are not placed'')
               else if n = 0 \<and> \<not> list_ex (\<lambda>c. ui_type c = Chart \<and> or_empty (up_chart_kind (ui_props c)) \<noteq> [] \<and> up_series (ui_props c) \<noteq> []) us
                    \<and> asks task
               then Some ''the request explicitly asks for charts but the document contains no chart components''
               else None))"

record formatted =
  fm_document :: "ui list option"
  fm_attempts :: nat
  fm_repair :: "string option"

definition formatter_attempts :: "(nat \<Rightarrow> string option \<Rightarrow> ui list option) \<Rightarrow> (ui list \<Rightarrow> string option) \<Rightarrow> formatted" where
  \<comment> \<open>\<open>ask attempt deficiency\<close>: the parsed answer, None or empty where there is none\<close>
  "formatter_attempts ask deficient =
     (let good = (\<lambda>x. case x of Some us \<Rightarrow> us \<noteq> [] | None \<Rightarrow> False);
          first = ask 0 None
      in if \<not> good first
         then (let second = ask 1 None in \<lparr>fm_document = (if good second then second else None), fm_attempts = 2, fm_repair = None\<rparr>)
         else (case deficient (the first) of
             None \<Rightarrow> \<lparr>fm_document = first, fm_attempts = 1, fm_repair = None\<rparr>
           | Some d \<Rightarrow> (let second = ask 1 (Some d)
               in \<lparr>fm_document = (if good second then second else first), fm_attempts = 2, fm_repair = Some d\<rparr>)))"

record ui_payload =
  uy_a2ui :: "a2_message list"
  uy_charts :: "chart_spec list"
  uy_blocks :: "block list option"
  uy_attempts :: nat
  uy_repair :: "string option"

definition media_block :: "block \<Rightarrow> bool" where
  "media_block b = (case b of Prose us \<Rightarrow> False | _ \<Rightarrow> True)"

definition generate_answer_ui ::
    "(nat \<Rightarrow> string option \<Rightarrow> ui list option) \<Rightarrow> (string \<Rightarrow> bool) \<Rightarrow> string \<Rightarrow> tool_chart list \<Rightarrow> bool \<Rightarrow> ui_payload option" where
  \<comment> \<open>None: no artifact; the text stays the answer\<close>
  "generate_answer_ui ask asks task charts charts_enabled =
     (let f = formatter_attempts ask (\<lambda>us. chart_deficiency asks task us (length charts) charts_enabled)
      in case fm_document f of
           None \<Rightarrow> None
         | Some us \<Rightarrow>
             (let us1 = (if charts_enabled then fst (place_missing_refs us charts) else filter (\<lambda>c. ui_type c \<noteq> Chart) us);
                  blocks = build_blocks us1 (if charts_enabled then length charts else 0)
              in if us1 = [] then None
                 else Some \<lparr>uy_a2ui = to_a2ui_messages us1, uy_charts = (if charts_enabled then extract_charts us1 else []),
                            uy_blocks = (if list_ex media_block blocks then Some blocks else None),
                            uy_attempts = fm_attempts f, uy_repair = fm_repair f\<rparr>))"

section \<open>Every tool chart once\<close>

definition tool_refs :: "block list \<Rightarrow> int list" where
  "tool_refs bs = List.map_filter (\<lambda>b. case b of Tool_Chart i \<Rightarrow> Some i | _ \<Rightarrow> None) bs"

lemma tool_refs_simps [simp]:
  "tool_refs [] = []" "tool_refs (bs @ cs) = tool_refs bs @ tool_refs cs"
  "tool_refs [Prose g] = []" "tool_refs [Chart_Block x] = []" "tool_refs [Table_Block a b h] = []" "tool_refs [Tool_Chart i] = [i]"
  by (simp_all add: tool_refs_def map_filter_def)

lemma flush_refs [simp]: "tool_refs (bs_blocks (flush_group s)) = tool_refs (bs_blocks s)" "bs_seen (flush_group s) = bs_seen s"
  by (simp_all add: flush_group_def)

definition refs_inv :: "blocks_state \<Rightarrow> bool" where
  "refs_inv s \<longleftrightarrow> distinct (bs_seen s) \<and> mset (tool_refs (bs_blocks s)) = mset (bs_seen s)"

lemma block_step_refs:
  assumes "refs_inv s"
  shows "refs_inv (block_step n s c) \<and> set (bs_seen (block_step n s c)) = set (bs_seen s) \<union> set_option (in_range_ref n c)"
  using assms by (auto simp: block_step_def refs_inv_def in_range_ref_def Let_def split: option.split)

lemma block_steps_refs:
  "refs_inv s \<Longrightarrow> refs_inv (foldl (block_step n) s us) \<and> set (bs_seen (foldl (block_step n) s us)) = set (bs_seen s) \<union> set (placed_refs n us)"
proof (induction us arbitrary: s)
  case Nil
  then show ?case by (simp add: placed_refs_def map_filter_def)
next
  case (Cons c us)
  from Cons.IH[of "block_step n s c"] block_step_refs[OF Cons.prems, of n c] show ?case
    by (auto simp: placed_refs_def map_filter_def split: option.splits)
qed

lemma build_blocks_refs: "distinct (tool_refs (build_blocks us n)) \<and> set (tool_refs (build_blocks us n)) = set (placed_refs n us)"
proof -
  have "refs_inv \<lparr>bs_blocks = [], bs_group = [], bs_seen = []\<rparr>" by (simp add: refs_inv_def)
  from block_steps_refs[OF this, of n us] show ?thesis
    by (auto simp: build_blocks_def refs_inv_def dest: mset_eq_setD) (metis mset_eq_imp_distinct_iff)
qed

lemma placed_append [simp]: "placed_refs n (us @ vs) = placed_refs n us @ placed_refs n vs"
  by (simp add: placed_refs_def map_filter_def)

lemma placed_ref_chart [simp]: "i < n \<Longrightarrow> placed_refs n (ref_chart i # us) = int i # placed_refs n us"
  by (simp add: placed_refs_def map_filter_def in_range_ref_def ref_chart_def)

lemma place_chart_refs:
  assumes "i < n"
  shows "set (placed_refs n (fst (place_chart P (us, f) (i, t)))) = set (placed_refs n us) \<union> ({int i} - P)"
proof -
  have "set (placed_refs n us) = set (placed_refs n (take k us)) \<union> set (placed_refs n (drop k us))" for k
    using placed_append[of n "take k us" "drop k us"] by (metis append_take_drop_id set_append)
  then show ?thesis using assms by (auto simp: place_chart_def Let_def)
qed

lemma place_charts_refs:
  assumes "\<forall>(i, t) \<in> set its. i < n"
  shows "set (placed_refs n (fst (foldl (place_chart P) x its))) = set (placed_refs n (fst x)) \<union> (int ` fst ` set its - P)"
  using assms
proof (induction its arbitrary: x)
  case (Cons it its)
  obtain i t where it: "it = (i, t)" by fastforce
  obtain us f where x: "x = (us, f)" by fastforce
  show ?case using Cons place_chart_refs[of i n P us f t] by (auto simp: it x)
qed simp

lemma all_placed: "set (placed_refs (length charts) (fst (place_missing_refs us charts))) = int ` {0..<length charts}"
proof -
  have idx: "fst ` set (enumerate 0 charts) = {0..<length charts}" by (metis add_0 list.set_map map_fst_enumerate set_upt)
  have "\<forall>(i, t) \<in> set (enumerate 0 charts). i < length charts" using idx by force
  from place_charts_refs[OF this, of "set (placed_refs (length charts) us)" "(us, [])"]
  have "set (placed_refs (length charts) (fst (place_missing_refs us charts)))
      = set (placed_refs (length charts) us) \<union> int ` {0..<length charts}"
    by (auto simp: place_missing_refs_def idx)
  moreover have "set (placed_refs n vs) \<subseteq> int ` {0..<n}" for n vs
  proof
    fix x assume "x \<in> set (placed_refs n vs)"
    then have "0 \<le> x" "x < int n"
      by (auto simp: placed_refs_def map_filter_def in_range_ref_def split: if_splits option.splits)
    then show "x \<in> int ` {0..<n}" by (intro image_eqI[of _ _ "nat x"]) auto
  qed
  ultimately show ?thesis by blast
qed

lemma place_nonempty: "us \<noteq> [] \<Longrightarrow> fst (place_missing_refs us charts) \<noteq> []"
proof -
  have "fst x \<noteq> [] \<Longrightarrow> fst (foldl (place_chart P) x its) \<noteq> []" for P x its
    by (induction its arbitrary: x) (auto simp: place_chart_def Let_def split: prod.splits)
  then show "us \<noteq> [] \<Longrightarrow> fst (place_missing_refs us charts) \<noteq> []" by (simp add: place_missing_refs_def)
qed

lemma formatter_document: "fm_document (formatter_attempts ask deficient) = Some us \<Longrightarrow> us \<noteq> []"
  by (auto simp: formatter_attempts_def Let_def split: if_splits option.splits)

text \<open>
  C32: With charts on, an artifact exists whenever one of the two attempts gave a document, and its blocks
  show every chart the tools of the run produced exactly once, whether the formatter placed it, placed
  it twice, placed one that does not exist or left it out.
\<close>

theorem every_tool_chart_shown_once:
  "(case generate_answer_ui ask asks task charts True of
      None \<Rightarrow> fm_document (formatter_attempts ask (\<lambda>us. chart_deficiency asks task us (length charts) True)) = None
    | Some p \<Rightarrow> (case uy_blocks p of None \<Rightarrow> charts = [] | Some bs \<Rightarrow> sort (tool_refs bs) = map int [0..<length charts]))"
proof (cases "fm_document (formatter_attempts ask (\<lambda>us. chart_deficiency asks task us (length charts) True))")
  case None
  then show ?thesis by (simp add: generate_answer_ui_def Let_def)
next
  case (Some us)
  let ?us1 = "fst (place_missing_refs us charts)"
  let ?bs = "build_blocks ?us1 (length charts)"
  have "?us1 \<noteq> []" using place_nonempty[OF formatter_document[OF Some]] .
  moreover have refs: "distinct (tool_refs ?bs)" "set (tool_refs ?bs) = int ` {0..<length charts}"
    using build_blocks_refs[of ?us1 "length charts"] all_placed[of charts us] by simp_all
  have "sorted (map int [0..<length charts])" "distinct (map int [0..<length charts])"
    by (simp_all add: sorted_map distinct_map)
  then have "sort (tool_refs ?bs) = map int [0..<length charts]"
    using refs by (intro sorted_distinct_set_unique) simp_all
  moreover have "charts \<noteq> [] \<Longrightarrow> list_ex media_block ?bs"
  proof -
    assume "charts \<noteq> []"
    then have "tool_refs ?bs \<noteq> []" using refs(2) by auto
    then show ?thesis
      by (auto simp: tool_refs_def map_filter_def list_ex_iff media_block_def filter_empty_conv split: block.splits)
  qed
  ultimately show ?thesis by (auto simp: generate_answer_ui_def Some Let_def)
qed

text \<open>Nothing but charts leaves the document: prose keeps its order, tables become native ones.\<close>

definition prose_of :: "block list \<Rightarrow> ui list" where
  "prose_of bs = concat (map (\<lambda>b. case b of Prose us \<Rightarrow> us | _ \<Rightarrow> []) bs)"

definition native_table :: "ui \<Rightarrow> bool" where
  "native_table c \<longleftrightarrow> ui_type c = Table \<and> up_rows (ui_props c) \<noteq> []"

lemma blocks_keep_prose:
  "prose_of (build_blocks us n) = filter (\<lambda>c. ui_type c \<noteq> Chart \<and> \<not> native_table c) us"
proof -
  have flush: "prose_of (bs_blocks (flush_group s)) = prose_of (bs_blocks s) @ bs_group s" "bs_group (flush_group s) = []" for s
    by (simp_all add: flush_group_def prose_of_def)
  have app: "prose_of (bs @ cs) = prose_of bs @ prose_of cs" for bs cs by (simp add: prose_of_def)
  have one: "prose_of [Chart_Block x] = []" "prose_of [Tool_Chart i] = []" "prose_of [Table_Block a b h] = []" for x i a b h
    by (simp_all add: prose_of_def)
  have step: "prose_of (bs_blocks (block_step n s c)) @ bs_group (block_step n s c)
      = prose_of (bs_blocks s) @ bs_group s @ (if ui_type c \<noteq> Chart \<and> \<not> native_table c then [c] else [])" for s c
    by (auto simp: block_step_def native_table_def flush app one Let_def split: option.split)
  have "prose_of (bs_blocks (foldl (block_step n) s us)) @ bs_group (foldl (block_step n) s us)
      = prose_of (bs_blocks s) @ bs_group s @ filter (\<lambda>c. ui_type c \<noteq> Chart \<and> \<not> native_table c) us" for s
  proof (induction us arbitrary: s)
    case (Cons c us)
    from Cons[of "block_step n s c"] step[of s c] show ?case by (simp split: if_splits)
  qed simp
  from this[of "\<lparr>bs_blocks = [], bs_group = [], bs_seen = []\<rparr>"] show ?thesis
    by (simp add: build_blocks_def flush) (simp add: prose_of_def)
qed

end
