(* ===== verification/Salience.thy ===== *)
theory Salience
  imports Memory_History Ambient_Delivery Untrusted
begin

text \<open>
  Delivery salience (\<open>backend/app/ambient/salience.py\<close>): the prefilter and the judge over real-time
  deliveries nobody saw, what each verdict does to its row, and the decisions a human takes on a
  verdict -- apply, decline and undo -- with the snapshot undo restores. The model's answer, the
  candidates the extraction proposes for a run and the fence token are arguments; the JSON ledger of
  a row is a record, its missing keys are \<open>None\<close>. The two halves of \<open>decide\<close>, the read that checks the
  ledger and the writes, are separate operations because no session spans them.
\<close>

section \<open>Rows and verdicts\<close>

record prior_state =
  pr_tier :: int
  pr_delivered :: "instant option"
  pr_channel :: "string option"
  pr_seen :: "instant option"

record verdict_ledger =
  vl_verdict :: string
  vl_reason :: string
  vl_confidence :: real
  vl_at :: instant
  vl_mode :: string
  vl_applied :: bool
  vl_decision :: "string option"
  vl_decided_at :: "instant option"
  vl_decided_by :: "string option"
  vl_prior :: "prior_state option"
  vl_memory_ids :: "nat list"
  vl_reward :: "real option"

record notice = delivery +
  nt_seen :: "instant option"
  nt_ledger :: "verdict_ledger option"

record salience_db =
  sd_rows :: "notice list"
  sd_memory :: mem_store

record verdict =
  vd_verdict :: string
  vd_reason :: string
  vd_confidence :: real

definition VERDICTS :: "string list" where
  "VERDICTS = [''escalate'', ''retain'', ''drop'']"

definition valid_verdict :: "verdict \<Rightarrow> bool" where
  \<comment> \<open>what the schema of the structured answer accepts\<close>
  "valid_verdict v \<longleftrightarrow> vd_verdict v \<in> set VERDICTS \<and> 0 \<le> vd_confidence v \<and> vd_confidence v \<le> 1"

section \<open>Prefilter and judge\<close>

definition MAX_JUDGED_CHARS :: int where "MAX_JUDGED_CHARS = 4000"

record judge_env =
  je_prompt :: string
  je_token :: string
  je_model :: "string \<Rightarrow> verdict option"     \<comment> \<open>None: the call failed\<close>

definition quote_attr :: "string \<Rightarrow> string" where
  \<comment> \<open>angle brackets become the single guillemets, here their UTF-8 bytes\<close>
  "quote_attr v = concat (map (\<lambda>c. if c = CHR 0x22 then [CHR 0x27]
     else if c = CHR ''<'' then [CHR 0xE2, CHR 0x80, CHR 0xB9]
     else if c = CHR ''>'' then [CHR 0xE2, CHR 0x80, CHR 0xBA] else [c]) v)"

definition fence_delivery_content :: "judge_env \<Rightarrow> string \<Rightarrow> string \<Rightarrow> int \<Rightarrow> nat \<Rightarrow> render_error + string" where
  "fence_delivery_content je body category urgency n =
     render (je_prompt je) ''replace'' ''content'' (Some body) MAX_JUDGED_CHARS
       [(''category'', quote_attr category), (''urgency'', int_str urgency), (''recurrence'', nat_str n)] (je_token je)"

definition recurrence :: "notice \<Rightarrow> notice list \<Rightarrow> nat" where
  "recurrence r rows =
     (if opt_truthy (dl_skey r) then max (length (filter (\<lambda>d. dl_skey d = dl_skey r) rows)) 1 else 1)"

datatype skip_reason = NotRealTime | AlreadySeen | SupersededRow | NeverDelivered | BelowFloor

definition prefilter :: "int \<Rightarrow> notice list \<Rightarrow> notice \<Rightarrow> skip_reason option" where
  \<comment> \<open>why a row is not a candidate\<close>
  "prefilter bar rows r =
     (if 1 < dl_tier r then Some NotRealTime
      else if nt_seen r \<noteq> None then Some AlreadySeen
      else if dl_superseded r \<noteq> None then Some SupersededRow
      else if dl_delivered r = None then Some NeverDelivered
      else if dl_urgency r < bar \<and> recurrence r rows < 3 then Some BelowFloor
      else None)"

definition judge_body :: "notice \<Rightarrow> string" where
  "judge_body r = (if opt_truthy (dl_body r) then the (dl_body r) else dl_title r)"

definition judge_delivery :: "judge_env \<Rightarrow> notice list \<Rightarrow> notice \<Rightarrow> render_error + verdict option" where
  \<comment> \<open>a fence that cannot be rendered raises; an answer that fails or is malformed leaves the row alone\<close>
  "judge_delivery je rows r =
     bind_r (fence_delivery_content je (judge_body r) (dl_category r) (dl_urgency r) (recurrence r rows)) (\<lambda>prompt.
       Inr (case je_model je prompt of None \<Rightarrow> None | Some v \<Rightarrow> if valid_verdict v then Some v else None))"

section \<open>Carrying out a verdict\<close>

record retain_env =
  rt_memory :: bool                                       \<comment> \<open>\<open>memory_enabled\<close>\<close>
  rt_extraction :: bool                                   \<comment> \<open>\<open>memory_extraction_enabled\<close>\<close>
  rt_completed :: "string \<Rightarrow> bool"                        \<comment> \<open>the status of a run\<close>
  rt_proposed :: "string \<Rightarrow> candidate list option"        \<comment> \<open>None: the extraction raised\<close>
  rt_recall :: recall_env
  rt_store :: store_env
  rt_judge :: judge

definition retain :: "retain_env \<Rightarrow> notice \<Rightarrow> mem_store \<Rightarrow> nat list \<times> mem_store" where
  "retain env r mem =
     (if \<not> rt_memory env then ([], mem)
      else (case dl_run r of
          None \<Rightarrow> ([], mem)
        | Some run \<Rightarrow>
            (if \<not> rt_extraction env \<or> \<not> rt_completed env run then ([], mem)
             else (case rt_proposed env run of
                 None \<Rightarrow> ([], mem)
               | Some cs \<Rightarrow> (case extract_from_run (rt_recall env) (rt_store env) (rt_judge env) run cs mem of
                     (written, mem') \<Rightarrow> (map me_id written, mem'))))))"

definition prior_of :: "notice \<Rightarrow> prior_state" where
  "prior_of r = \<lparr>pr_tier = dl_tier r, pr_delivered = dl_delivered r, pr_channel = dl_channel r, pr_seen = nt_seen r\<rparr>"

definition perform_row :: "instant \<Rightarrow> string \<Rightarrow> bool \<Rightarrow> notice \<Rightarrow> notice" where
  "perform_row now verdict by_human r =
     (if verdict = ''escalate'' then r\<lparr>dl_tier := 2, dl_delivered := None, dl_channel := None\<rparr>
      else if verdict = ''drop'' \<and> by_human \<and> nt_seen r = None then r\<lparr>nt_seen := Some now\<rparr>
      else r)"

definition perform ::
    "retain_env \<Rightarrow> instant \<Rightarrow> nat \<Rightarrow> string \<Rightarrow> bool \<Rightarrow> salience_db \<Rightarrow> (prior_state option \<times> nat list) \<times> salience_db" where
  "perform env now i verdict by_human s = (case row_get dl_id (sd_rows s) i of
       None \<Rightarrow> ((None, []), s)
     | Some r \<Rightarrow>
         (let s1 = s\<lparr>sd_rows := row_upd dl_id i (perform_row now verdict by_human) (sd_rows s)\<rparr>
          in if verdict = ''retain''
             then (case retain env r (sd_memory s) of (ids, mem) \<Rightarrow> ((Some (prior_of r), ids), s1\<lparr>sd_memory := mem\<rparr>))
             else ((Some (prior_of r), []), s1)))"

definition set_ledger :: "nat \<Rightarrow> verdict_ledger \<Rightarrow> salience_db \<Rightarrow> salience_db" where
  "set_ledger i l s = s\<lparr>sd_rows := row_upd dl_id i (\<lambda>r. r\<lparr>nt_ledger := Some l\<rparr>) (sd_rows s)\<rparr>"

definition new_ledger :: "instant \<Rightarrow> verdict \<Rightarrow> string \<Rightarrow> prior_state option \<Rightarrow> nat list \<Rightarrow> verdict_ledger" where
  "new_ledger now v mode prior ids =
     (let applied = (mode = ''auto'')
      in \<lparr>vl_verdict = vd_verdict v, vl_reason = take 500 (vd_reason v), vl_confidence = vd_confidence v, vl_at = now,
          vl_mode = mode, vl_applied = applied, vl_decision = (if applied then Some ''applied'' else None),
          vl_decided_at = (if applied then Some now else None), vl_decided_by = (if applied then Some ''system'' else None),
          vl_prior = prior, vl_memory_ids = ids, vl_reward = None\<rparr>)"

definition apply_verdict ::
    "retain_env \<Rightarrow> instant \<Rightarrow> nat \<Rightarrow> verdict \<Rightarrow> string \<Rightarrow> salience_db \<Rightarrow> string \<times> salience_db" where
  \<comment> \<open>\<open>_apply\<close>: in \<open>propose\<close> mode the verdict is only recorded\<close>
  "apply_verdict env now i v mode s =
     (case (if mode = ''auto'' then perform env now i (vd_verdict v) False s else ((None, []), s)) of
        ((prior, ids), s1) \<Rightarrow>
          (if row_get dl_id (sd_rows s1) i = None then (''gone'', s1)
           else (vd_verdict v, set_ledger i (new_ledger now v mode prior ids) s1)))"

section \<open>Decisions\<close>

datatype salience_action = Apply | Decline | Undo

datatype salience_outcome = Done | Noop | Conflict | Missing

definition TERMINAL :: "string list" where
  "TERMINAL = [''applied'', ''declined'', ''undone'']"

definition judge_reward :: "string \<Rightarrow> real" where
  "judge_reward decision = (if decision = ''applied'' then 1 else - 1)"

definition close_ledger :: "instant \<Rightarrow> nat \<Rightarrow> verdict_ledger \<Rightarrow> string \<Rightarrow> salience_db \<Rightarrow> salience_db" where
  "close_ledger now i l decision s =
     (if row_get dl_id (sd_rows s) i = None then s
      else set_ledger i (l\<lparr>vl_decision := Some decision, vl_decided_at := Some now, vl_decided_by := Some ''user'',
             vl_applied := (decision = ''applied''), vl_reward := Some (judge_reward decision)\<rparr>) s)"

definition decide_check :: "nat \<Rightarrow> salience_action \<Rightarrow> salience_db \<Rightarrow> (salience_outcome \<times> string) + verdict_ledger" where
  \<comment> \<open>the read: a refusal, or the ledger the rest works on\<close>
  "decide_check i action s = (case row_get dl_id (sd_rows s) i of
       None \<Rightarrow> Inl (Missing, ''no such delivery'')
     | Some r \<Rightarrow> (case nt_ledger r of
           None \<Rightarrow> Inl (Conflict, ''no salience verdict on this delivery'')
         | Some l \<Rightarrow> (case action of
               Apply \<Rightarrow> (if vl_decision l = Some ''applied'' then Inl (Noop, ''already applied'')
                         else if vl_decision l \<in> Some ` set TERMINAL then Inl (Conflict, ''already '' @ the (vl_decision l))
                         else Inr l)
             | Decline \<Rightarrow> (if vl_decision l = Some ''declined'' then Inl (Noop, ''already declined'')
                         else if vl_decision l \<in> Some ` set TERMINAL then Inl (Conflict, ''already '' @ the (vl_decision l))
                         else Inr l)
             | Undo \<Rightarrow> (if vl_decision l \<noteq> Some ''applied'' then Inl (Conflict, ''nothing applied to undo'') else Inr l))))"

definition undo_row :: "verdict_ledger \<Rightarrow> notice \<Rightarrow> notice" where
  "undo_row l r =
     (if vl_verdict l = ''escalate'' then
        (case vl_prior l of
           None \<Rightarrow> r\<lparr>dl_channel := None, dl_delivered := None\<rparr>
         | Some p \<Rightarrow> r\<lparr>dl_tier := pr_tier p, dl_channel := pr_channel p, dl_delivered := pr_delivered p\<rparr>)
      else if vl_verdict l = ''drop'' then r\<lparr>nt_seen := Option.bind (vl_prior l) pr_seen\<rparr>
      else r)"

definition undo_memories :: "verdict_ledger \<Rightarrow> mem_store \<Rightarrow> mem_store" where
  "undo_memories l mem =
     (if vl_verdict l = ''retain'' then foldl (\<lambda>m i. snd (hard_delete i m)) mem (vl_memory_ids l) else mem)"

definition decide_commit ::
    "retain_env \<Rightarrow> instant \<Rightarrow> nat \<Rightarrow> salience_action \<Rightarrow> verdict_ledger \<Rightarrow> salience_db \<Rightarrow> (salience_outcome \<times> string) \<times> salience_db" where
  \<comment> \<open>the writes, with the ledger as the check read it\<close>
  "decide_commit env now i action l s = (case action of
       Apply \<Rightarrow> (case perform env now i (vl_verdict l) True s of ((prior, ids), s1) \<Rightarrow>
           ((Done, vl_verdict l),
            close_ledger now i (l\<lparr>vl_applied := True, vl_prior := prior, vl_memory_ids := ids\<rparr>) ''applied'' s1))
     | Decline \<Rightarrow> ((Done, vl_verdict l), close_ledger now i l ''declined'' s)
     | Undo \<Rightarrow> (case row_get dl_id (sd_rows s) i of
           None \<Rightarrow> ((Missing, ''no such delivery''), s)
         | Some r \<Rightarrow>
             (if vl_verdict l = ''escalate'' \<and> dl_delivered r \<noteq> None
              then ((Conflict, ''already delivered in a digest''), s)
              else ((Done, vl_verdict l),
                    close_ledger now i l ''undone''
                      (s\<lparr>sd_rows := row_upd dl_id i (undo_row l) (sd_rows s), sd_memory := undo_memories l (sd_memory s)\<rparr>)))))"

definition decide :: "retain_env \<Rightarrow> instant \<Rightarrow> nat \<Rightarrow> salience_action \<Rightarrow> salience_db \<Rightarrow> (salience_outcome \<times> string) \<times> salience_db" where
  "decide env now i action s = (case decide_check i action s of
       Inl refusal \<Rightarrow> (refusal, s)
     | Inr l \<Rightarrow> decide_commit env now i action l s)"

section \<open>The pass\<close>

record salience_counts =
  sc_considered :: nat
  sc_judged :: nat
  sc_escalate :: nat
  sc_retain :: nat
  sc_drop :: nat
  sc_skipped :: nat

definition no_verdicts :: salience_counts where
  "no_verdicts = \<lparr>sc_considered = 0, sc_judged = 0, sc_escalate = 0, sc_retain = 0, sc_drop = 0, sc_skipped = 0\<rparr>"

definition skip_one :: "salience_counts \<Rightarrow> salience_counts" where
  "skip_one c = c\<lparr>sc_considered := sc_considered c + 1, sc_skipped := sc_skipped c + 1\<rparr>"

definition judge_one :: "string \<Rightarrow> salience_counts \<Rightarrow> salience_counts" where
  "judge_one result c =
     (let c1 = c\<lparr>sc_considered := sc_considered c + 1, sc_judged := sc_judged c + 1\<rparr>
      in if result = ''escalate'' then c1\<lparr>sc_escalate := sc_escalate c1 + 1\<rparr>
         else if result = ''retain'' then c1\<lparr>sc_retain := sc_retain c1 + 1\<rparr>
         else if result = ''drop'' then c1\<lparr>sc_drop := sc_drop c1 + 1\<rparr> else c1)"

record pass_env =
  pe_judge :: judge_env
  pe_retain :: retain_env
  pe_muted :: "string \<Rightarrow> string option \<Rightarrow> bool"     \<comment> \<open>\<open>salience_muted\<close>\<close>
  pe_mode :: string
  pe_bar :: int

definition missed_alert :: "notice \<Rightarrow> bool" where
  "missed_alert r \<longleftrightarrow> dl_tier r \<le> 1 \<and> nt_seen r = None \<and> dl_superseded r = None \<and> dl_delivered r \<noteq> None \<and> nt_ledger r = None"

fun judge_rows :: "pass_env \<Rightarrow> instant \<Rightarrow> notice list \<Rightarrow> salience_counts \<Rightarrow> salience_db \<Rightarrow> (render_error + salience_counts) \<times> salience_db" where
  \<comment> \<open>over the rows as they were selected\<close>
  "judge_rows pe now [] c s = (Inr c, s)"
| "judge_rows pe now (r # rs) c s =
     (if pe_muted pe (dl_category r) (dl_user r) \<or> prefilter (pe_bar pe) (sd_rows s) r \<noteq> None
      then judge_rows pe now rs (skip_one c) s
      else (case judge_delivery (pe_judge pe) (sd_rows s) r of
          Inl e \<Rightarrow> (Inl e, s)
        | Inr None \<Rightarrow> judge_rows pe now rs (skip_one c) s
        | Inr (Some v) \<Rightarrow> (case apply_verdict (pe_retain pe) now (dl_id r) v (pe_mode pe) s of
              (result, s1) \<Rightarrow> judge_rows pe now rs (judge_one result c) s1)))"

definition run_salience_pass :: "pass_env \<Rightarrow> instant \<Rightarrow> nat \<Rightarrow> salience_db \<Rightarrow> (render_error + salience_counts) \<times> salience_db" where
  \<comment> \<open>most urgent first, then oldest\<close>
  "run_salience_pass pe now limit s =
     (if pe_mode pe = ''off'' then (Inr no_verdicts, s)
      else judge_rows pe now
             (take limit (sort_key (\<lambda>r. - dl_urgency r) (sort_key dl_created (filter missed_alert (sd_rows s))))) no_verdicts s)"

section \<open>Decisions and their reversal\<close>

lemma row_upd_id: "(\<And>r. key r = k \<Longrightarrow> f r = r) \<Longrightarrow> row_upd key k f t = t"
  by (auto simp: row_upd_def intro: map_idI)

lemma row_upd_upd: "(\<And>r. key (g r) = key r) \<Longrightarrow> row_upd key k f (row_upd key k g t) = row_upd key k (\<lambda>r. f (g r)) t"
  by (auto simp: row_upd_def)

lemma perform_row_id [simp]: "dl_id (perform_row now v h r) = dl_id r"
  by (simp add: perform_row_def)

lemma undo_row_id [simp]: "dl_id (undo_row l r) = dl_id r"
  by (simp add: undo_row_def split: option.splits)

lemma perform_row_ledger [simp]: "nt_ledger (perform_row now v h r) = nt_ledger r"
  by (simp add: perform_row_def)

lemma undo_row_ledger [simp]: "undo_row l (r\<lparr>nt_ledger := x\<rparr>) = (undo_row l r)\<lparr>nt_ledger := x\<rparr>"
  by (simp add: undo_row_def split: option.splits)

lemma undo_perform: "vl_prior l = Some (prior_of r) \<Longrightarrow> undo_row l (perform_row now (vl_verdict l) h r) = r"
  by (simp add: undo_row_def perform_row_def prior_of_def)

lemma perform_found:
  "row_get dl_id (sd_rows s) i = Some r \<Longrightarrow> fst (fst (perform env now i v h s)) = Some (prior_of r)
     \<and> sd_rows (snd (perform env now i v h s)) = row_upd dl_id i (perform_row now v h) (sd_rows s)"
  by (simp add: perform_def Let_def split: prod.splits)

lemma perform_memory: "v \<noteq> ''retain'' \<Longrightarrow> sd_memory (snd (perform env now i v h s)) = sd_memory s"
  by (simp add: perform_def split: option.splits)

definition forget_ledger :: "notice \<Rightarrow> notice" where
  "forget_ledger r = r\<lparr>nt_ledger := None\<rparr>"

lemma forget_ledger_upd: "forget_ledger (r\<lparr>nt_ledger := x\<rparr>) = forget_ledger r"
  by (simp add: forget_ledger_def)

lemma rows_restored:
  assumes "distinct (map dl_id rows)" "row_get dl_id rows i = Some r" "forget_ledger (f r) = forget_ledger r"
  shows "map forget_ledger (row_upd dl_id i f rows) = map forget_ledger rows"
proof -
  have "r' = r" if "r' \<in> set rows" "dl_id r' = i" for r'
    using row_get_Some[OF assms(2)] assms(1) that by (auto simp: distinct_map inj_on_def)
  then show ?thesis using assms(3) by (auto simp: row_upd_def)
qed

lemma set_ledger_rows [simp]: "sd_rows (set_ledger i l s) = row_upd dl_id i (\<lambda>r. r\<lparr>nt_ledger := Some l\<rparr>) (sd_rows s)"
  by (simp add: set_ledger_def)

lemma set_ledger_memory [simp]: "sd_memory (set_ledger i l s) = sd_memory s"
  by (simp add: set_ledger_def)

lemma close_found:
  "row_get dl_id (sd_rows s) i \<noteq> None \<Longrightarrow> close_ledger now i l d s = set_ledger i (l\<lparr>vl_decision := Some d,
     vl_decided_at := Some now, vl_decided_by := Some ''user'', vl_applied := (d = ''applied''), vl_reward := Some (judge_reward d)\<rparr>) s"
  by (auto simp: close_ledger_def)

lemma apply_done:
  assumes "row_get dl_id (sd_rows s) i = Some r" "nt_ledger r = Some l" "vl_decision l = None"
  obtains l' where "fst (decide env now i Apply s) = (Done, vl_verdict l)"
    "sd_rows (snd (decide env now i Apply s)) = row_upd dl_id i (\<lambda>r. (perform_row now (vl_verdict l) True r)\<lparr>nt_ledger := Some l'\<rparr>) (sd_rows s)"
    "vl_decision l' = Some ''applied''" "vl_verdict l' = vl_verdict l" "vl_prior l' = Some (prior_of r)" "vl_reward l' = Some 1"
proof -
  obtain prior ids s1 where p: "perform env now i (vl_verdict l) True s = ((prior, ids), s1)" by (metis prod.exhaust)
  have f: "prior = Some (prior_of r)" "sd_rows s1 = row_upd dl_id i (perform_row now (vl_verdict l) True) (sd_rows s)"
    using perform_found[OF assms(1), of env now "vl_verdict l" True] p by simp_all
  have "decide_check i Apply s = Inr l" using assms by (auto simp: decide_check_def)
  then have d: "decide env now i Apply s = ((Done, vl_verdict l),
      close_ledger now i (l\<lparr>vl_applied := True, vl_prior := prior, vl_memory_ids := ids\<rparr>) ''applied'' s1)"
    using p by (simp add: decide_def decide_commit_def)
  have g: "row_get dl_id (sd_rows s1) i \<noteq> None" using assms(1) by (simp add: f row_simps)
  show ?thesis
    by (rule that[of "(l\<lparr>vl_applied := True, vl_prior := prior, vl_memory_ids := ids\<rparr>)\<lparr>vl_decision := Some ''applied'',
          vl_decided_at := Some now, vl_decided_by := Some ''user'', vl_applied := (''applied'' = ''applied''), vl_reward := Some (judge_reward ''applied'')\<rparr>"])
      (simp_all add: d close_found[OF g] f row_upd_upd judge_reward_def)
qed

lemma undo_done:
  assumes "row_get dl_id (sd_rows s) i = Some r" "nt_ledger r = Some l" "vl_decision l = Some ''applied''"
    "vl_verdict l = ''escalate'' \<Longrightarrow> dl_delivered r = None"
  obtains l' where "fst (decide env now i Undo s) = (Done, vl_verdict l)"
    "sd_rows (snd (decide env now i Undo s)) = row_upd dl_id i (\<lambda>r. (undo_row l r)\<lparr>nt_ledger := Some l'\<rparr>) (sd_rows s)"
    "sd_memory (snd (decide env now i Undo s)) = undo_memories l (sd_memory s)"
    "vl_decision l' = Some ''undone''" "vl_reward l' = Some (- 1)"
proof -
  let ?s1 = "s\<lparr>sd_rows := row_upd dl_id i (undo_row l) (sd_rows s), sd_memory := undo_memories l (sd_memory s)\<rparr>"
  have "decide_check i Undo s = Inr l" using assms(1-3) by (simp add: decide_check_def)
  then have d: "decide env now i Undo s = ((Done, vl_verdict l), close_ledger now i l ''undone'' ?s1)"
    using assms(1,4) by (auto simp: decide_def decide_commit_def)
  have g: "row_get dl_id (sd_rows ?s1) i \<noteq> None" using assms(1) by (simp add: row_simps)
  show ?thesis
    by (rule that[of "l\<lparr>vl_decision := Some ''undone'', vl_decided_at := Some now, vl_decided_by := Some ''user'',
          vl_applied := (''undone'' = ''applied''), vl_reward := Some (judge_reward ''undone'')\<rparr>"])
      (simp_all add: d close_found[OF g] row_upd_upd judge_reward_def)
qed

lemma forget_undo_perform:
  "vl_prior l = Some (prior_of r) \<Longrightarrow> vl_verdict l = v \<Longrightarrow>
   forget_ledger (undo_row l ((perform_row now v h r)\<lparr>nt_ledger := x\<rparr>)) = forget_ledger r"
  by (auto simp: forget_ledger_upd undo_perform)

lemma performed_not_delivered: "v = ''escalate'' \<Longrightarrow> dl_delivered ((perform_row now v h r)\<lparr>nt_ledger := x\<rparr>) = None"
  by (simp add: perform_row_def)

lemma auto_applied:
  assumes "row_get dl_id (sd_rows s) i = Some r"
  obtains l' where "sd_rows (snd (apply_verdict env now i v ''auto'' s))
      = row_upd dl_id i (\<lambda>r. (perform_row now (vd_verdict v) False r)\<lparr>nt_ledger := Some l'\<rparr>) (sd_rows s)"
    "vl_decision l' = Some ''applied''" "vl_verdict l' = vd_verdict v" "vl_prior l' = Some (prior_of r)"
proof -
  obtain prior ids s1 where p: "perform env now i (vd_verdict v) False s = ((prior, ids), s1)" by (metis prod.exhaust)
  have f: "prior = Some (prior_of r)" "sd_rows s1 = row_upd dl_id i (perform_row now (vd_verdict v) False) (sd_rows s)"
    using perform_found[OF assms, of env now "vd_verdict v" False] p by simp_all
  have "row_get dl_id (sd_rows s1) i \<noteq> None" using assms by (simp add: f row_simps)
  then have "snd (apply_verdict env now i v ''auto'' s) = set_ledger i (new_ledger now v ''auto'' prior ids) s1"
    by (auto simp: apply_verdict_def p)
  then show ?thesis
    by (intro that[of "new_ledger now v ''auto'' prior ids"]) (simp_all add: f row_upd_upd new_ledger_def Let_def)
qed

lemma undo_after_perform:
  assumes d: "distinct (map dl_id (sd_rows s))" and r: "row_get dl_id (sd_rows s) i = Some r"
    and s1: "sd_rows s1 = row_upd dl_id i (\<lambda>r. (perform_row now v h r)\<lparr>nt_ledger := Some l\<rparr>) (sd_rows s)"
    and l: "vl_decision l = Some ''applied''" "v = vl_verdict l" "vl_prior l = Some (prior_of r)"
  shows "fst (decide env now' i Undo s1) = (Done, v)
    \<and> map forget_ledger (sd_rows (snd (decide env now' i Undo s1))) = map forget_ledger (sd_rows s)"
proof -
  let ?r = "(perform_row now v h r)\<lparr>nt_ledger := Some l\<rparr>"
  have r1: "row_get dl_id (sd_rows s1) i = Some ?r" by (simp add: s1 row_simps r)
  have spent: "vl_verdict l = ''escalate'' \<Longrightarrow> dl_delivered ?r = None"
    by (rule performed_not_delivered) (simp add: l(2))
  have led: "nt_ledger ?r = Some l" by simp
  obtain l2 where u: "fst (decide env now' i Undo s1) = (Done, vl_verdict l)"
      "sd_rows (snd (decide env now' i Undo s1)) = row_upd dl_id i (\<lambda>r. (undo_row l r)\<lparr>nt_ledger := Some l2\<rparr>) (sd_rows s1)"
    using undo_done[OF r1 led l(1) spent, of env now'] by blast
  have "map forget_ledger (sd_rows (snd (decide env now' i Undo s1))) = map forget_ledger (sd_rows s)"
    unfolding u(2) s1 by (subst row_upd_upd, simp, rule rows_restored[OF d r])
      (simp add: forget_ledger_upd undo_perform l)
  with u(1) l(2) show ?thesis by simp
qed

text \<open>
  C34: Undo takes back what apply did. A queued verdict of any kind that a human applies and then undoes
  leaves every delivery as it was -- tier, channel, delivery time and whether it was seen -- up to the
  salience ledger, which records the undo as a vote against the judge; so does undoing a verdict that
  was carried out without asking.
\<close>

theorem undo_restores_the_delivery:
  assumes d: "distinct (map dl_id (sd_rows s))" and r: "row_get dl_id (sd_rows s) i = Some r"
    and l: "nt_ledger r = Some l" "vl_decision l = None"
  shows "fst (decide env now i Apply s) = (Done, vl_verdict l)
    \<and> fst (decide env now' i Undo (snd (decide env now i Apply s))) = (Done, vl_verdict l)
    \<and> map forget_ledger (sd_rows (snd (decide env now' i Undo (snd (decide env now i Apply s))))) = map forget_ledger (sd_rows s)
    \<and> map forget_ledger (sd_rows (snd (decide env now' i Undo (snd (apply_verdict env now i v ''auto'' s))))) = map forget_ledger (sd_rows s)"
proof -
  obtain l1 where a: "fst (decide env now i Apply s) = (Done, vl_verdict l)"
      "sd_rows (snd (decide env now i Apply s)) = row_upd dl_id i (\<lambda>r. (perform_row now (vl_verdict l) True r)\<lparr>nt_ledger := Some l1\<rparr>) (sd_rows s)"
      "vl_decision l1 = Some ''applied''" "vl_verdict l1 = vl_verdict l" "vl_prior l1 = Some (prior_of r)"
    using apply_done[OF r l] by metis
  have human: "map forget_ledger (sd_rows (snd (decide env now' i Undo (snd (decide env now i Apply s))))) = map forget_ledger (sd_rows s)
      \<and> fst (decide env now' i Undo (snd (decide env now i Apply s))) = (Done, vl_verdict l)"
    using undo_after_perform[OF d r a(2-3) a(4)[symmetric] a(5)] a(4) by simp
  obtain l3 where b: "sd_rows (snd (apply_verdict env now i v ''auto'' s))
        = row_upd dl_id i (\<lambda>r. (perform_row now (vd_verdict v) False r)\<lparr>nt_ledger := Some l3\<rparr>) (sd_rows s)"
      "vl_decision l3 = Some ''applied''" "vl_verdict l3 = vd_verdict v" "vl_prior l3 = Some (prior_of r)"
    by (rule auto_applied[OF r, of env now v]) metis
  have "map forget_ledger (sd_rows (snd (decide env now' i Undo (snd (apply_verdict env now i v ''auto'' s))))) = map forget_ledger (sd_rows s)"
    using undo_after_perform[OF d r b(1,2) b(3)[symmetric] b(4)] by simp
  with a(1) human show ?thesis by simp
qed

definition alert_row :: notice where
  "alert_row = \<lparr>dl_id = 0, dl_user = None, dl_run = Some ''run-1'', dl_intent = None, dl_category = ''ci'', dl_tier = 0,
     dl_urgency = 5, dl_title = ''Deploy failed'', dl_body = None, dl_deadline = None, dl_delivered = Some 40,
     dl_channel = Some ''interrupt'', dl_superseded = None, dl_policy = None, dl_skey = None, dl_external = [],
     dl_feedback = None, dl_reward = None, dl_created = 30, nt_seen = None, nt_ledger = None\<rparr>"

definition escalation :: verdict where
  "escalation = \<lparr>vd_verdict = ''escalate'', vd_reason = ''still failing'', vd_confidence = 1\<rparr>"

definition proposed_row :: notice where
  "proposed_row = alert_row\<lparr>nt_ledger := Some (new_ledger 50 escalation ''propose'' None [])\<rparr>"

definition no_retain :: retain_env where
  "no_retain = \<lparr>rt_memory = False, rt_extraction = False, rt_completed = (\<lambda>r. False), rt_proposed = (\<lambda>r. None),
     rt_recall = ann_recalls, rt_store = ann_env, rt_judge = (\<lambda>c ns m. ''unrelated'')\<rparr>"

theorem undo_restores_the_delivery_witness:
  "fst (decide no_retain 60 0 Apply \<lparr>sd_rows = [proposed_row], sd_memory = empty_store\<rparr>) = (Done, ''escalate'')
   \<and> map forget_ledger (sd_rows (snd (decide no_retain 70 0 Undo (snd (decide no_retain 60 0 Apply \<lparr>sd_rows = [proposed_row], sd_memory = empty_store\<rparr>)))))
       = [alert_row]"
  using undo_restores_the_delivery[of "\<lparr>sd_rows = [proposed_row], sd_memory = empty_store\<rparr>" 0 proposed_row
      "new_ledger 50 escalation ''propose'' None []" no_retain 60 70 escalation]
  by (simp add: proposed_row_def alert_row_def row_get_def forget_ledger_def escalation_def new_ledger_def Let_def)

lemma decided_ledger:
  assumes "fst (fst (decide env now i a s)) = Done" "a \<noteq> Undo"
  shows "\<exists>r l. row_get dl_id (sd_rows (snd (decide env now i a s))) i = Some r \<and> nt_ledger r = Some l
    \<and> vl_decision l = Some (if a = Apply then ''applied'' else ''declined'')"
proof -
  from assms(1) obtain l where c: "decide_check i a s = Inr l"
    by (cases "decide_check i a s") (auto simp: decide_def decide_check_def split: option.splits salience_action.splits if_splits)
  then obtain r where r: "row_get dl_id (sd_rows s) i = Some r" by (auto simp: decide_check_def split: option.splits)
  show ?thesis
  proof (cases a)
    case Apply
    obtain prior ids s1 where p: "perform env now i (vl_verdict l) True s = ((prior, ids), s1)" by (metis prod.exhaust)
    have "row_get dl_id (sd_rows s1) i \<noteq> None"
      using perform_found[OF r, of env now "vl_verdict l" True] p r by (auto simp: row_simps)
    then show ?thesis using c Apply
      by (auto simp: decide_def decide_commit_def p close_found row_simps)
  next
    case Decline
    then show ?thesis using c r by (auto simp: decide_def decide_commit_def close_found row_simps)
  qed (use assms(2) in simp)
qed

text \<open>
  The first decision wins. Once an apply or a decline went through, repeating it answers that it
  was already taken and changes nothing, and the opposite decision is refused and changes nothing.
\<close>

theorem first_decision_wins:
  assumes "fst (fst (decide env now i a s)) = Done" "a \<noteq> Undo"
  shows "decide env' now' i a (snd (decide env now i a s)) = ((Noop, if a = Apply then ''already applied'' else ''already declined''), snd (decide env now i a s))
    \<and> snd (decide env' now' i (if a = Apply then Decline else Apply) (snd (decide env now i a s))) = snd (decide env now i a s)
    \<and> fst (fst (decide env' now' i (if a = Apply then Decline else Apply) (snd (decide env now i a s)))) = Conflict"
proof -
  from decided_ledger[OF assms] obtain r l where
    "row_get dl_id (sd_rows (snd (decide env now i a s))) i = Some r" "nt_ledger r = Some l"
    "vl_decision l = Some (if a = Apply then ''applied'' else ''declined'')" by blast
  then show ?thesis using assms(2)
    by (cases a) (simp_all add: decide_def[of env' now'] decide_check_def TERMINAL_def)
qed

theorem first_decision_wins_witness:
  "fst (fst (decide no_retain 70 0 Decline (snd (decide no_retain 60 0 Apply \<lparr>sd_rows = [proposed_row], sd_memory = empty_store\<rparr>)))) = Conflict"
proof -
  have "fst (fst (decide no_retain 60 0 Apply \<lparr>sd_rows = [proposed_row], sd_memory = empty_store\<rparr>)) = Done"
    by (simp add: decide_def decide_check_def decide_commit_def perform_def proposed_row_def alert_row_def row_get_def
        new_ledger_def Let_def escalation_def)
  from first_decision_wins[OF this, of no_retain 70] show ?thesis by simp
qed

section \<open>What the pass may touch\<close>

definition touched :: "pass_env \<Rightarrow> notice \<Rightarrow> notice \<Rightarrow> bool" where
  "touched pe r r' \<longleftrightarrow> \<not> pe_muted pe (dl_category r) (dl_user r)
     \<and> (forget_ledger r' = forget_ledger r
        \<or> (pe_mode pe = ''auto'' \<and> forget_ledger r' = forget_ledger (r\<lparr>dl_tier := 2, dl_delivered := None, dl_channel := None\<rparr>)))"

lemma apply_verdict_touches:
  assumes "r \<in> set (sd_rows s)" "\<not> pe_muted pe (dl_category r) (dl_user r)"
  shows "\<exists>f. sd_rows (snd (apply_verdict env now (dl_id r) v (pe_mode pe) s)) = row_upd dl_id (dl_id r) f (sd_rows s)
    \<and> (\<forall>x. dl_id (f x) = dl_id x) \<and> touched pe r (f r)"
proof -
  obtain r0 where r0: "row_get dl_id (sd_rows s) (dl_id r) = Some r0"
    using assms(1) row_get_None[of dl_id "sd_rows s" "dl_id r"] by (cases "row_get dl_id (sd_rows s) (dl_id r)") auto
  show ?thesis
  proof (cases "pe_mode pe = ''auto''")
    case True
    obtain l where l: "sd_rows (snd (apply_verdict env now (dl_id r) v ''auto'' s))
        = row_upd dl_id (dl_id r) (\<lambda>r. (perform_row now (vd_verdict v) False r)\<lparr>nt_ledger := Some l\<rparr>) (sd_rows s)"
      by (rule auto_applied[OF r0, of env now v]) blast
    have "touched pe r ((perform_row now (vd_verdict v) False r)\<lparr>nt_ledger := Some l\<rparr>)"
      using assms(2) True by (simp add: touched_def forget_ledger_upd perform_row_def)
    then show ?thesis unfolding True l by (intro exI conjI allI) (rule refl, simp_all)
  next
    case False
    have "sd_rows (snd (apply_verdict env now (dl_id r) v (pe_mode pe) s))
        = row_upd dl_id (dl_id r) (\<lambda>x. x\<lparr>nt_ledger := Some (new_ledger now v (pe_mode pe) None [])\<rparr>) (sd_rows s)"
      using False r0 by (simp add: apply_verdict_def)
    then show ?thesis using assms(2) by (intro exI conjI allI) (assumption, simp_all add: touched_def forget_ledger_upd)
  qed
qed

lemma judge_rows_touch:
  "distinct (map dl_id rows) \<Longrightarrow> set rs \<subseteq> set rows \<Longrightarrow> distinct (map dl_id rs) \<Longrightarrow> sd_rows s = rows \<Longrightarrow>
   \<exists>g. sd_rows (snd (judge_rows pe now rs c s)) = map g rows
     \<and> (\<forall>r \<in> set rows. dl_id (g r) = dl_id r \<and> (g r = r \<or> (r \<in> set rs \<and> touched pe r (g r))))"
proof (induction rs arbitrary: rows c s)
  case Nil
  then show ?case by (auto intro!: exI[of _ id])
next
  case (Cons r rs)
  have keep: "\<exists>g. sd_rows (snd (judge_rows pe now rs c' s)) = map g rows
      \<and> (\<forall>x \<in> set rows. dl_id (g x) = dl_id x \<and> (g x = x \<or> (x \<in> set (r # rs) \<and> touched pe x (g x))))" for c'
  proof -
    from Cons.IH[of rows s c'] Cons.prems obtain g where
      "sd_rows (snd (judge_rows pe now rs c' s)) = map g rows"
      "\<forall>x \<in> set rows. dl_id (g x) = dl_id x \<and> (g x = x \<or> (x \<in> set rs \<and> touched pe x (g x)))" by auto
    then show ?thesis by (intro exI[of _ g]) auto
  qed
  show ?case
  proof (cases "pe_muted pe (dl_category r) (dl_user r) \<or> prefilter (pe_bar pe) (sd_rows s) r \<noteq> None")
    case True
    then show ?thesis using keep by simp
  next
    case False
    show ?thesis
    proof (cases "judge_delivery (pe_judge pe) (sd_rows s) r")
      case (Inl e)
      then show ?thesis using False Cons.prems(4) by (auto intro!: exI[of _ id])
    next
      case (Inr a)
      show ?thesis
      proof (cases a)
        case None
        then show ?thesis using False Inr keep by simp
      next
        case (Some v)
        obtain res s1 where s1: "apply_verdict (pe_retain pe) now (dl_id r) v (pe_mode pe) s = (res, s1)" by (metis prod.exhaust)
        have "r \<in> set (sd_rows s)" using Cons.prems by simp
        then obtain f where f: "sd_rows s1 = row_upd dl_id (dl_id r) f rows" "\<forall>x. dl_id (f x) = dl_id x" "touched pe r (f r)"
          using apply_verdict_touches[of r s pe "pe_retain pe" now v] False s1 Cons.prems(4) by auto
        let ?h = "\<lambda>x. if dl_id x = dl_id r then f x else x"
        have h: "sd_rows s1 = map ?h rows" using f(1) by (simp add: row_upd_def)
        have ids: "map dl_id (map ?h rows) = map dl_id rows" using f(2) by simp
        have one: "x = r" if "x \<in> set rows" "dl_id x = dl_id r" for x
          using that Cons.prems(1,2) by (auto simp: distinct_map inj_on_def)
        have later: "?h x = x" if "x \<in> set rs" for x
          using that Cons.prems(3) by (metis distinct.simps(2) image_eqI list.map(2) list.set_map)
        have sub: "set rs \<subseteq> set (map ?h rows)"
          using later Cons.prems(2) by (force simp: image_iff)
        have d2: "distinct (map dl_id (map ?h rows))" unfolding ids by (rule Cons.prems(1))
        have d3: "distinct (map dl_id rs)" using Cons.prems(3) by simp
        obtain g where g: "sd_rows (snd (judge_rows pe now rs (judge_one res c) s1)) = map g (map ?h rows)"
          "\<forall>x \<in> set (map ?h rows). dl_id (g x) = dl_id x \<and> (g x = x \<or> (x \<in> set rs \<and> touched pe x (g x)))"
          using Cons.IH[OF d2 sub d3 h, of "judge_one res c"] by blast
        have "dl_id (g (?h x)) = dl_id x \<and> (g (?h x) = x \<or> (x \<in> set (r # rs) \<and> touched pe x (g (?h x))))" if x: "x \<in> set rows" for x
        proof (cases "dl_id x = dl_id r")
          case True
          then have "x = r" using one x by blast
          have "f r \<notin> set rs" using f(2) Cons.prems(3) by (metis distinct.simps(2) image_eqI list.map(2) list.set_map)
          moreover have "f r \<in> set (map ?h rows)" using x \<open>x = r\<close> by (force simp: image_iff)
          ultimately have "g (f r) = f r" using g(2) by blast
          then show ?thesis using \<open>x = r\<close> f(2,3) by simp
        next
          case False
          then have "x \<in> set (map ?h rows)" using x by (force simp: image_iff)
          then show ?thesis using g(2) False by auto
        qed
        then show ?thesis using False Inr Some s1 g(1)
          by (intro exI[of _ "\<lambda>x. g (?h x)"]) (simp add: comp_def)
      qed
    qed
  qed
qed

lemma missed_taken:
  assumes "distinct (map dl_id rows)"
  shows "set (take n (sort_key (\<lambda>r. - dl_urgency r) (sort_key dl_created (filter missed_alert rows)))) \<subseteq> {r \<in> set rows. missed_alert r}"
    "distinct (map dl_id (take n (sort_key (\<lambda>r. - dl_urgency r) (sort_key dl_created (filter missed_alert rows)))))"
proof -
  show "set (take n (sort_key (\<lambda>r. - dl_urgency r) (sort_key dl_created (filter missed_alert rows)))) \<subseteq> {r \<in> set rows. missed_alert r}"
    by (auto dest!: in_set_takeD)
  have "distinct rows" "inj_on dl_id (set rows)" using assms by (auto simp: distinct_map)
  then show "distinct (map dl_id (take n (sort_key (\<lambda>r. - dl_urgency r) (sort_key dl_created (filter missed_alert rows)))))"
    by (auto simp: distinct_map distinct_sort intro!: distinct_take intro: inj_on_subset dest!: in_set_takeD)
qed


definition always_escalate :: pass_env where
  "always_escalate = \<lparr>pe_judge = \<lparr>je_prompt = [], je_token = [], je_model = (\<lambda>p. Some escalation)\<rparr>, pe_retain = no_retain,
     pe_muted = (\<lambda>c u. False), pe_mode = ''auto'', pe_bar = 3\<rparr>"

lemma forget_tier: "forget_ledger a = forget_ledger b \<Longrightarrow> dl_tier a = dl_tier b"
  by (cases a; cases b) (simp add: forget_ledger_def)


lemma pass_counts:
  "fst (judge_rows pe now rs c s) = Inr c' \<Longrightarrow> sc_considered c = sc_judged c + sc_skipped c \<Longrightarrow>
   sc_escalate c + sc_retain c + sc_drop c \<le> sc_judged c \<Longrightarrow>
   sc_considered c' = sc_considered c + length rs \<and> sc_considered c' = sc_judged c' + sc_skipped c'
     \<and> sc_escalate c' + sc_retain c' + sc_drop c' \<le> sc_judged c'"
proof (induction rs arbitrary: c s)
  case (Cons r rs)
  have k: "sc_considered (skip_one c) = sc_judged (skip_one c) + sc_skipped (skip_one c)"
      "sc_escalate (skip_one c) + sc_retain (skip_one c) + sc_drop (skip_one c) \<le> sc_judged (skip_one c)"
      "sc_considered (skip_one c) = sc_considered c + 1"
    using Cons.prems(2,3) by (simp_all add: skip_one_def)
  have j: "sc_considered (judge_one res c) = sc_judged (judge_one res c) + sc_skipped (judge_one res c)"
      "sc_escalate (judge_one res c) + sc_retain (judge_one res c) + sc_drop (judge_one res c) \<le> sc_judged (judge_one res c)"
      "sc_considered (judge_one res c) = sc_considered c + 1" for res
    using Cons.prems(2,3) by (simp_all add: judge_one_def Let_def)
  have "(\<exists>s'. fst (judge_rows pe now rs (skip_one c) s') = Inr c') \<or> (\<exists>res s'. fst (judge_rows pe now rs (judge_one res c) s') = Inr c')"
    using Cons.prems(1) by (auto split: if_splits sum.splits option.splits prod.splits)
  then show ?case
  proof (elim disjE exE)
    fix s' assume "fst (judge_rows pe now rs (skip_one c) s') = Inr c'"
    from Cons.IH[OF this k(1,2)] k(3) show ?thesis by simp
  next
    fix res s' assume "fst (judge_rows pe now rs (judge_one res c) s') = Inr c'"
    from Cons.IH[OF this j(1,2)] j(3) show ?thesis by simp
  qed
qed simp

section \<open>What undo and the budget miss\<close>

definition plain_rows :: "salience_db \<Rightarrow> delivery list" where
  "plain_rows s = map delivery.truncate (sd_rows s)"

lemma interrupts_split:
  "interrupts_delivered_today now scoped owner (xs @ ys) =
     interrupts_delivered_today now scoped owner xs + interrupts_delivered_today now scoped owner ys"
  by (simp add: interrupts_delivered_today_def)

lemma row_upd_split:
  assumes "distinct (map key t)" "row_get key t k = Some r"
  obtains xs ys where "t = xs @ r # ys" "\<And>f. row_upd key k f t = xs @ f r # ys"
  using row_split[OF assms(2,1)] by metis

text \<open>
  C40: An escalation reopens the interrupt budget. The daily budget counts the rows delivered as
  interrupts today by their channel and delivery time, and escalating a row clears both: whichever
  interrupt of today is escalated, the count a flush compares with the budget drops by one, so the day
  gets one interrupt more than the budget allows.
\<close>

theorem escalation_reopens_budget:
  assumes d: "distinct (map dl_id (sd_rows s))" and r: "row_get dl_id (sd_rows s) i = Some r"
    and today: "dl_channel r = Some ''interrupt''" "dl_delivered r = Some t" "midnight now \<le> t" "\<not> scoped \<or> dl_user r = owner"
    and v: "vd_verdict v = ''escalate''"
  shows "interrupts_delivered_today now scoped owner (plain_rows s)
    = Suc (interrupts_delivered_today now scoped owner (plain_rows (snd (apply_verdict env now i v ''auto'' s))))"
proof -
  obtain l where a: "sd_rows (snd (apply_verdict env now i v ''auto'' s))
      = row_upd dl_id i (\<lambda>r. (perform_row now (vd_verdict v) False r)\<lparr>nt_ledger := Some l\<rparr>) (sd_rows s)"
    by (rule auto_applied[OF r, of env now v]) blast
  obtain xs ys where x: "sd_rows s = xs @ r # ys" "\<And>f. row_upd dl_id i f (sd_rows s) = xs @ f r # ys"
    by (rule row_upd_split[OF d r]) blast
  have one: "interrupts_delivered_today now scoped owner (delivery.truncate r # map delivery.truncate ys)
      = Suc (interrupts_delivered_today now scoped owner (map delivery.truncate ys))"
    using today by (simp add: interrupts_delivered_today_def delivered_since_def owner_clause_def delivery.truncate_def)
  have none: "interrupts_delivered_today now scoped owner
        (delivery.truncate ((perform_row now (vd_verdict v) False r)\<lparr>nt_ledger := Some l\<rparr>) # map delivery.truncate ys)
      = interrupts_delivered_today now scoped owner (map delivery.truncate ys)"
    by (simp add: v perform_row_def interrupts_delivered_today_def delivery.truncate_def)
  show ?thesis unfolding plain_rows_def a x(2) by (simp add: x(1) interrupts_split one none)
qed

theorem escalation_reopens_budget_witness:
  "gate_interrupts False 1 (int (interrupts_delivered_today 60 False None (plain_rows \<lparr>sd_rows = [alert_row], sd_memory = empty_store\<rparr>)))
      [delivery.truncate (alert_row\<lparr>dl_id := 1\<rparr>)] = ([], [1])
   \<and> gate_interrupts False 1 (int (interrupts_delivered_today 60 False None (plain_rows (snd (apply_verdict no_retain 60 0 escalation ''auto''
       \<lparr>sd_rows = [alert_row], sd_memory = empty_store\<rparr>))))) [delivery.truncate (alert_row\<lparr>dl_id := 1\<rparr>)] = ([1], [])"
proof -
  have c: "interrupts_delivered_today 60 False None (plain_rows \<lparr>sd_rows = [alert_row], sd_memory = empty_store\<rparr>) = 1"
    by (simp add: plain_rows_def alert_row_def interrupts_delivered_today_def delivered_since_def owner_clause_def
        delivery.truncate_def midnight_def day_us_def)
  have "interrupts_delivered_today 60 False None (plain_rows (snd (apply_verdict no_retain 60 0 escalation ''auto''
       \<lparr>sd_rows = [alert_row], sd_memory = empty_store\<rparr>))) = 0"
    using escalation_reopens_budget[of "\<lparr>sd_rows = [alert_row], sd_memory = empty_store\<rparr>" 0 alert_row 40 60 False None escalation no_retain]
    by (simp add: c row_get_def) (simp add: alert_row_def midnight_def day_us_def escalation_def)
  with c show ?thesis by (simp add: delivery.truncate_def alert_row_def)
qed

text \<open>
  Two applies that both read the ledger before either wrote: nothing spans the two halves of a
  decision, so both carry the verdict out, and the second snapshots the row the first one left.
\<close>

definition racing_applies :: "retain_env \<Rightarrow> instant \<Rightarrow> nat \<Rightarrow> verdict_ledger \<Rightarrow> salience_db \<Rightarrow> salience_db" where
  "racing_applies env now i l s = snd (decide_commit env now i Apply l (snd (decide_commit env now i Apply l s)))"

text \<open>
  A double apply spends the snapshot. When two applies of one queued escalation both pass the
  check before either writes, both go through, and undo, which answers success, no longer brings the
  delivery back: it stays in the digest queue without its delivery time and channel.
\<close>

theorem double_apply_spends_the_snapshot:
  assumes r: "row_get dl_id (sd_rows s) i = Some r" and l: "nt_ledger r = Some l" "vl_decision l = None" "vl_verdict l = ''escalate''"
  shows "decide_check i Apply s = Inr l
    \<and> fst (decide env now' i Undo (racing_applies env now i l s)) = (Done, ''escalate'')
    \<and> map_option (\<lambda>r. (dl_tier r, dl_delivered r, dl_channel r))
        (row_get dl_id (sd_rows (snd (decide env now' i Undo (racing_applies env now i l s)))) i) = Some (2, None, None)"
proof -
  have commit: "\<exists>l'. sd_rows (snd (decide_commit env now i Apply l s'))
        = row_upd dl_id i (\<lambda>r. (perform_row now ''escalate'' True r)\<lparr>nt_ledger := Some l'\<rparr>) (sd_rows s')
      \<and> vl_decision l' = Some ''applied'' \<and> vl_verdict l' = ''escalate'' \<and> vl_prior l' = Some (prior_of r')"
    if r': "row_get dl_id (sd_rows s') i = Some r'" for s' r'
    using r' l(3) by (auto simp: decide_commit_def perform_def close_ledger_def row_simps row_upd_upd intro!: exI)
  obtain l1 where one: "sd_rows (snd (decide_commit env now i Apply l s))
      = row_upd dl_id i (\<lambda>r. (perform_row now ''escalate'' True r)\<lparr>nt_ledger := Some l1\<rparr>) (sd_rows s)" using commit[OF r] by blast
  let ?r1 = "(perform_row now ''escalate'' True r)\<lparr>nt_ledger := Some l1\<rparr>"
  have r1: "row_get dl_id (sd_rows (snd (decide_commit env now i Apply l s))) i = Some ?r1" by (simp add: one row_simps r)
  obtain l2 where two: "sd_rows (racing_applies env now i l s)
      = row_upd dl_id i (\<lambda>r. (perform_row now ''escalate'' True r)\<lparr>nt_ledger := Some l2\<rparr>) (sd_rows (snd (decide_commit env now i Apply l s)))"
      "vl_decision l2 = Some ''applied''" "vl_verdict l2 = ''escalate''" "vl_prior l2 = Some (prior_of ?r1)"
    using commit[OF r1] unfolding racing_applies_def by blast
  let ?r2 = "(perform_row now ''escalate'' True ?r1)\<lparr>nt_ledger := Some l2\<rparr>"
  have r2: "row_get dl_id (sd_rows (racing_applies env now i l s)) i = Some ?r2" by (simp add: two(1) row_simps r1)
  have spent: "dl_delivered ?r2 = None" by (simp add: perform_row_def)
  have led: "nt_ledger ?r2 = Some l2" by simp
  obtain l3 where u: "fst (decide env now' i Undo (racing_applies env now i l s)) = (Done, vl_verdict l2)"
      "sd_rows (snd (decide env now' i Undo (racing_applies env now i l s)))
        = row_upd dl_id i (\<lambda>r. (undo_row l2 r)\<lparr>nt_ledger := Some l3\<rparr>) (sd_rows (racing_applies env now i l s))"
    using undo_done[OF r2 led two(2) spent, of env now'] by blast
  have "decide_check i Apply s = Inr l" using r l by (auto simp: decide_check_def)
  then show ?thesis
    using u(1) two(3,4) by (simp add: u(2) row_simps r2 undo_row_def prior_of_def perform_row_def)
qed

theorem double_apply_spends_the_snapshot_witness:
  "dl_tier alert_row = 0 \<and> map_option dl_tier (row_get dl_id (sd_rows (snd (decide no_retain 70 0 Undo
     (racing_applies no_retain 60 0 (new_ledger 50 escalation ''propose'' None []) \<lparr>sd_rows = [proposed_row], sd_memory = empty_store\<rparr>)))) 0) = Some 2"
  using double_apply_spends_the_snapshot[of "\<lparr>sd_rows = [proposed_row], sd_memory = empty_store\<rparr>" 0 proposed_row
      "new_ledger 50 escalation ''propose'' None []" no_retain 70 60]
  by (auto simp: proposed_row_def alert_row_def row_get_def new_ledger_def escalation_def Let_def)


section \<open>Retention\<close>

lemma row_get_unlink: "row_get me_id (map (unlink i) t) k = map_option (unlink i) (row_get me_id t k)"
  by (induction t) (simp_all add: row_simps unlink_def)

lemma apply_retain:
  assumes r: "row_get dl_id (sd_rows s) i = Some r" and l: "nt_ledger r = Some l" "vl_decision l = None" "vl_verdict l = ''retain''"
    and k: "retain env r (sd_memory s) = (ids, mem)"
  shows "sd_memory (snd (decide env now' i Undo (snd (decide env now i Apply s)))) = foldl (\<lambda>m i. snd (hard_delete i m)) mem ids"
proof -
  let ?l = "l\<lparr>vl_applied := True, vl_prior := Some (prior_of r), vl_memory_ids := ids, vl_decision := Some ''applied'',
      vl_decided_at := Some now, vl_decided_by := Some ''user'', vl_reward := Some 1\<rparr>"
  let ?s = "snd (decide env now i Apply s)"
  have c: "decide_check i Apply s = Inr l" using r l by (auto simp: decide_check_def)
  have a: "row_get dl_id (sd_rows ?s) i = Some ((perform_row now ''retain'' True r)\<lparr>nt_ledger := Some ?l\<rparr>)" "sd_memory ?s = mem"
    using r by (simp_all add: decide_def[of env now i Apply] c decide_commit_def perform_def l(3) k close_ledger_def row_simps judge_reward_def)
  obtain l2 where "sd_memory (snd (decide env now' i Undo ?s)) = undo_memories ?l (sd_memory ?s)"
    by (rule undo_done[OF a(1), of ?l env now']) (auto simp: l(3))
  then show ?thesis by (simp add: a(2) undo_memories_def l(3))
qed

text \<open>
  C39: Undoing a retention loses the fact it corrected. When the candidate extracted for a retained
  alert corrects an active fact under its entity key, applying the verdict closes that fact in favour
  of the new memory, and undoing deletes only the new one: the fact the store held before stays
  superseded, by nothing, so neither version is active any more.
\<close>

theorem undone_retention_loses_the_fact:
  assumes r: "row_get dl_id (sd_rows s) i = Some r" "dl_run r = Some run"
    and l: "nt_ledger r = Some l" "vl_decision l = None" "vl_verdict l = ''retain''"
    and env: "rt_memory env" "rt_extraction env" "rt_completed env run" "rt_proposed env run = Some cs"
      "fst (gate_candidates (rt_recall env) (rt_store env) cs (sd_memory s)) = [c]"
    and keyed: "find (\<lambda>r. me_entity_key r = ca_entity_key c \<and> me_status r = ''active'' \<and> me_scope r = ca_scope c) (ms_rows (sd_memory s)) = Some m"
    and row: "row_get me_id (ms_rows (sd_memory s)) (me_id m) = Some m" "me_superseded_at m = None" "fields_valid (me_kind m) (me_scope m) ''extracted''"
      "me_id m < ms_next (sd_memory s)"
    and c: "ca_entity_key c = Some k" "k \<noteq> []" "ca_kind c \<noteq> ''instruction''"
    and differ: "py_lower (me_text m) \<noteq> py_lower (ca_text c)" and no_tombstones: "ms_tombstones (sd_memory s) = []"
  shows "let rows = ms_rows (sd_memory (snd (decide env now' i Undo (snd (decide env now i Apply s)))))
    in row_get me_id rows (ms_next (sd_memory s)) = None
      \<and> map_option (\<lambda>m. (me_status m, me_superseded_by m)) (row_get me_id rows (me_id m)) = Some (''superseded'', None)"
proof -
  let ?mem = "sd_memory s" and ?env = "rt_store env"
  let ?new = "replacement ?env (ms_next ?mem) (re_extracted c run) m"
  obtain mem where w: "reconcile_and_write (rt_recall env) ?env (rt_judge env) c run ?mem = Inr (Some ?new, mem)"
      "ms_rows mem = row_upd me_id (me_id m) (close_old (sv_now ?env) ?new) (row_add ?new (ms_rows ?mem))"
    using keyed_reconcile[OF keyed row(1-3) c differ no_tombstones] by blast
  have id: "me_id ?new = ms_next ?mem" by (simp add: replacement_def)
  have "retain env r ?mem = ([ms_next ?mem], mem)"
    using r env by (simp add: retain_def extract_from_run_def w(1) id)
  from apply_retain[OF r(1) l this, of now' now]
  have m: "sd_memory (snd (decide env now' i Undo (snd (decide env now i Apply s)))) = snd (hard_delete (ms_next ?mem) mem)" by simp
  have other: "ms_next ?mem \<noteq> me_id m" using row(4) by simp
  have found: "row_get me_id (ms_rows mem) (ms_next ?mem) \<noteq> None"
    using other id by (auto simp: w(2) row_simps split: option.splits)
  then have "ms_rows (snd (hard_delete (ms_next ?mem) mem)) = map (unlink (ms_next ?mem)) (row_del me_id (ms_next ?mem) (ms_rows mem))"
    by (auto simp: hard_delete_def)
  then show ?thesis
    using other id row(1) by (simp add: m row_get_unlink row_simps w(2) unlink_def close_old_def)
qed

definition friday_fact :: memory where
  "friday_fact = (note_of 0 ''ann'' ''Releases on Friday'')\<lparr>me_entity_key := Some ''release day''\<rparr>"

definition monday_candidate :: candidate where
  "monday_candidate = tea_candidate\<lparr>ca_text := ''Releases on Monday'', ca_entity_key := Some ''release day''\<rparr>"

definition retaining :: retain_env where
  "retaining = \<lparr>rt_memory = True, rt_extraction = True, rt_completed = (\<lambda>r. True), rt_proposed = (\<lambda>r. Some [monday_candidate]),
     rt_recall = ann_recalls, rt_store = ann_env, rt_judge = (\<lambda>c ns m. ''unrelated'')\<rparr>"

definition retain_ledger :: verdict_ledger where
  "retain_ledger = new_ledger 50 (escalation\<lparr>vd_verdict := ''retain''\<rparr>) ''propose'' None []"

definition one_retained :: salience_db where
  "one_retained = \<lparr>sd_rows = [alert_row\<lparr>nt_ledger := Some retain_ledger\<rparr>], sd_memory = empty_store\<lparr>ms_next := 1, ms_rows := [friday_fact]\<rparr>\<rparr>"

lemma monday_passes_gate: "fst (gate_candidates ann_recalls ann_env [monday_candidate] (sd_memory one_retained)) = [monday_candidate]"
proof -
  have t: "scrub_citation_ids ''Releases on Monday'' = ''Releases on Monday''" "squeeze ''Releases on Monday'' = ''Releases on Monday''"
    by code_simp+
  have same: "monday_candidate\<lparr>ca_text := ''Releases on Monday''\<rparr> = monday_candidate" "ca_text monday_candidate = ''Releases on Monday''"
    by (simp_all add: monday_candidate_def)
  have "recall_of ann_recalls ann_env monday_candidate 1 (sd_memory one_retained) = []"
    by (simp add: recall_of_def recall_def recall_rankings_def leg_ids_def same t ann_recalls_def one_retained_def friday_fact_def
        note_of_def Let_def)
  then have "near_duplicate ann_recalls ann_env monday_candidate (sd_memory one_retained) = None" by (simp add: near_duplicate_def)
  then have "gate_one ann_recalls ann_env (sd_memory one_retained) [] monday_candidate = None"
    by (simp add: gate_one_def same GATE_MIN_CHARS_def GATE_MAX_CHARS_def)
      (simp add: monday_candidate_def tea_candidate_def MEMORY_KINDS_def SCOPES_def ann_env_def)
  then show ?thesis by (simp add: gate_candidates_def same t Let_def)
qed

theorem undone_retention_loses_the_fact_witness:
  "map_option (\<lambda>m. (me_status m, me_superseded_by m)) (row_get me_id (ms_rows (sd_memory (snd (decide retaining 70 0 Undo
     (snd (decide retaining 60 0 Apply one_retained)))))) 0) = Some (''superseded'', None)"
proof -
  let ?r = "alert_row\<lparr>nt_ledger := Some retain_ledger\<rparr>"
  have t: "py_lower (me_text friday_fact) \<noteq> py_lower (ca_text monday_candidate)" by code_simp
  have f: "fields_valid (me_kind friday_fact) (me_scope friday_fact) ''extracted''"
    by (simp add: friday_fact_def note_of_def fields_valid_def MEMORY_KINDS_def SCOPES_def SOURCES_def)
  have g: "fst (gate_candidates (rt_recall retaining) (rt_store retaining) [monday_candidate] (sd_memory one_retained)) = [monday_candidate]"
    using monday_passes_gate by (simp add: retaining_def)
  have h: "row_get dl_id (sd_rows one_retained) 0 = Some ?r" "dl_run ?r = Some ''run-1''" "nt_ledger ?r = Some retain_ledger"
      "vl_decision retain_ledger = None" "vl_verdict retain_ledger = ''retain''" "rt_memory retaining" "rt_extraction retaining"
      "rt_completed retaining ''run-1''" "rt_proposed retaining ''run-1'' = Some [monday_candidate]"
    by (simp_all add: one_retained_def alert_row_def row_get_def retain_ledger_def new_ledger_def Let_def retaining_def)
  have m: "find (\<lambda>r. me_entity_key r = ca_entity_key monday_candidate \<and> me_status r = ''active'' \<and> me_scope r = ca_scope monday_candidate)
        (ms_rows (sd_memory one_retained)) = Some friday_fact"
      "row_get me_id (ms_rows (sd_memory one_retained)) (me_id friday_fact) = Some friday_fact" "me_superseded_at friday_fact = None"
      "me_id friday_fact < ms_next (sd_memory one_retained)" "ca_entity_key monday_candidate = Some ''release day''"
      "''release day'' \<noteq> []" "ca_kind monday_candidate \<noteq> ''instruction''" "ms_tombstones (sd_memory one_retained) = []"
      "me_id friday_fact = 0"
    by (simp_all add: one_retained_def friday_fact_def note_of_def monday_candidate_def tea_candidate_def row_get_def empty_store_def)
  show ?thesis
    using undone_retention_loses_the_fact[OF h g m(1-3) f m(4-7) t m(8), of 70 60] by (simp add: m(9) Let_def)
qed

end
