(* ===== verification/Spec2Isabelle.thy ===== *)
theory Spec2Isabelle
  imports Execution Access Settings Ambient_Execute_Laws Memory_History Upkeep_Laws Learning_Laws Middleware_Laws
  Untrusted Egress A2a_Tasks Cost Answer_Ui Salience
begin

text \<open>
  The concierge agent: a chat backend (Python, \<open>backend/app/\<close>) that answers through a registry of
  tools, skills and sub agents, runs by itself on events, and remembers.

  Parts and how they interact. A registry row (tool, skill, sub agent) is validated and versioned when
  it is written and read through a cache. A request is admitted, becomes a run, and the run is executed
  in graph mode (plan, resolve, dispatch, merge), agentic mode (one tool loop) or direct mode. Each
  capability is resolved on a ladder of rungs and executed as an inline skill, a tool call or a compiled
  worker whose human gates pause the run. Every tool loop sees the registries through middleware. What
  a run does is recorded as steps and events. Events of triggers, pollers and hooks pass a decision gate
  and fire runs under budgets; results and alerts are delivered over channels under quiet hours. Memory
  is extracted from runs, corrected, recalled and swept; plans and skills are learned from past runs.
  Periodic jobs and retention keep the tables small.

  Theories and the code they model.
  \<^item> \<open>Prelude\<close>: Python values, strings, results, tables; locales \<open>row_store\<close> and \<open>inv_system\<close>.
  \<^item> \<open>Workflow_Dag\<close>: \<open>factory/dag.py\<close>. \<open>Registry\<close>: \<open>toolschema.py\<close>. \<open>Registry_Cache\<close>:
    \<open>registry_cache.py\<close>. \<open>Worker\<close>: \<open>factory/worker.py\<close>. \<open>Ladder\<close>, \<open>Execution\<close>: \<open>orchestrator/ladder.py\<close>,
    \<open>graph_mode.py\<close>, \<open>direct_mode.py\<close>. \<open>Run_Record\<close>: \<open>recorder.py\<close>, \<open>context.py\<close>, \<open>snapshot.py\<close>.
    \<open>Planner\<close>: \<open>planner.py\<close> and the rounds of \<open>graph_mode.py\<close>. \<open>Retrieval\<close>: \<open>retrieval.py\<close>. \<open>Middleware\<close>,
    \<open>Projections\<close>, \<open>Middleware_Laws\<close>: \<open>middleware.py\<close>, \<open>agentic_mode.py\<close>.
  \<^item> \<open>Admission\<close>: \<open>admission.py\<close>, \<open>ratelimit.py\<close>. \<open>Run_Lifecycle\<close>: \<open>runner.py\<close>, \<open>control.py\<close>.
    \<open>Access\<close>: \<open>auth/\<close> and the tenancy checks of \<open>api/\<close>. \<open>Settings\<close>: \<open>settings_store.py\<close>.
  \<^item> \<open>Cost\<close>: \<open>cost.py\<close>, \<open>llm/pricing.py\<close>. \<open>Untrusted\<close>: \<open>untrusted.py\<close>. \<open>Egress\<close>: \<open>egress.py\<close>. \<open>Mcp\<close>:
    \<open>mcp/secrets.py\<close>, \<open>mcp/manager.py\<close>. \<open>A2a\<close>: \<open>a2a/manager.py\<close>, \<open>auth.py\<close>, \<open>api/remote_agents.py\<close>.
    \<open>A2a_Tasks\<close>: \<open>a2a/proxy.py\<close>, \<open>tasks.py\<close>, \<open>poller.py\<close>. \<open>Answer_Ui\<close>: \<open>answer_ui.py\<close>.
  \<^item> \<open>Ambient_Events\<close>: \<open>ambient/store.py\<close>, \<open>drain.py\<close>. \<open>Ambient_Triggers\<close>, \<open>Ambient_Trigger_Laws\<close>:
    \<open>triggers.py\<close>, \<open>wakeups.py\<close>, \<open>presence.py\<close>, \<open>patterns.py\<close>, \<open>api/routines.py\<close>. \<open>Ambient_Decide\<close>,
    \<open>Ambient_Execute\<close>, \<open>Ambient_Execute_Laws\<close>: \<open>decide.py\<close>, \<open>execute.py\<close>. \<open>Ambient_Channels\<close>,
    \<open>Ambient_Delivery\<close>: \<open>channels.py\<close>, \<open>deliver.py\<close>.
  \<^item> \<open>Memory_Recall\<close>: \<open>memory/rank.py\<close>. \<open>Memory_Store\<close>, \<open>Memory_History\<close>: \<open>store.py\<close>, \<open>extract.py\<close>,
    sweeps of \<open>lifecycle.py\<close>, \<open>api/memories.py\<close>. \<open>Procedural\<close>, \<open>Overlap_Mining\<close>, \<open>Learning_Laws\<close>:
    \<open>procedural.py\<close>, \<open>overlap.py\<close>. \<open>Upkeep\<close>, \<open>Upkeep_Laws\<close>: \<open>jobclock.py\<close>, \<open>retention.py\<close>, job loop.

  How state and operations correspond. A database table is the list of its rows (a \<open>record\<close> with the
  columns the code reads), a statement is a function on that list, a process-wide dictionary is a field
  of a state record. A handler is one function from its arguments and the state to its result and the
  state; where another task can act between two awaits, the parts are separate steps of an \<open>inductive\<close>
  relation or of a step function on events, and the theorems quantify over all interleavings.
  Exceptions are constructors of a result. Functions keep the names of the source.

  What the lemmas show. Functional: \<open>validate_workflow\<close> accepts exactly the well-formed graphs and those
  always build; a frozen resolution is replayed exactly; bookkeeping delivers once; the catalog gate
  shows a bounded slice with every pinned record. Safety and invariants: the cache serves current rows;
  ladder and loops reach only what the registries allow; slots stay within their bound; a run follows
  its life cycle and an ended one stays ended; events execute at most once; corrections keep history;
  forgotten facts stay forgotten; only hard failures retire an exemplar. Equivalence and refinement:
  replaying a paused dispatch is transparent, parallel branches converge, state watches count edges,
  retention deletes exactly the finished rows. Termination and liveness: acyclic plans complete, a stop
  reaches the owner, the supervisor returns. Error theorems state behaviours in which the code departs
  from what its comments promise, each on a concrete or general history.

  Interfaces. \<open>row_store\<close> (lookup after insert, update) is interpreted on the step table, \<open>inv_system\<close>
  (an operation keeps an invariant) on schema versions, recording, event bus, compile cache, settings,
  deliveries, memory histories and others; the locale of \<open>Memory_History\<close> names what every write path of
  the store must keep.

  Bounds and fuel. \<open>walk_chain\<close> runs with fuel \<open>MAX_DEPTH + 1\<close>, one more than the deepest chain that is
  accepted. The text scanners (\<open>cite_ids\<close>, \<open>remove_citations\<close> and those of the untrusted text) use the length
  of the text as fuel and consume at least one character a turn. \<open>digits_rev\<close> has one unit per possible
  digit. The purge loop and the dispatch rounds are \<open>function\<close>s with termination proofs; the supervisor
  is a \<open>partial_function\<close> on a stream of polls, proved to return.

  Conventions. Python floats are reals, integers unbounded \<open>int\<close>s or \<open>nat\<close>s, instants microseconds in UTC,
  strings lists of characters below 256 with the source's dashes written \<open>--\<close>. Models, hashes, cron and
  time zones, PostgreSQL's rankings, network and DNS are arguments of the definitions.

  Not modelled. Pure input and output (HTTP clients, MCP and A2A sessions, SMTP, LLM adapters,
  metrics, tracing), schemas and migrations, prompts as text, the seed loader, the LISTEN
  connections, the experiments and tests; the agent-authored pieces of the memory and ambient planes that
  are a single model call around a write (summaries, reflection, communities, salience judge,
  anticipation, watch compilation). They appear as arguments where the modelled code uses them. A
  \<open>FOR UPDATE\<close> transaction is one step; a crash inside it leaves no trace.
\<close>

end
